(* ===== verification/Prelude.thy ===== *)
theory Prelude
  imports Main "HOL-Library.Signed_Division"
begin

text \<open>
  What the components share: fallible results, the Go string functions the sources call (a Go
  string is a sequence of bytes, here a \<open>char list\<close> whose characters are the bytes), UTF-8
  decoding for \<open>range\<close> over a string, decimal printing, and signed 64-bit wrap-around.
\<close>

named_theorems go_simps \<open>rewrite rules for the Go runtime functions\<close>

section \<open>Fallible results\<close>

text \<open>A Go function returning \<open>(T, error)\<close> returns \<open>'e + 'a\<close>: \<open>Inl\<close> the error.\<close>

definition bindE :: "'e + 'a \<Rightarrow> ('a \<Rightarrow> 'e + 'b) \<Rightarrow> 'e + 'b" where
  "bindE m f = (case m of Inl e \<Rightarrow> Inl e | Inr x \<Rightarrow> f x)"

lemma bindE_Inl [simp]: "bindE (Inl e) f = Inl e"
  by (simp add: bindE_def)

lemma bindE_Inr [simp]: "bindE (Inr x) f = f x"
  by (simp add: bindE_def)

lemma bindE_assoc: "bindE (bindE m f) g = bindE m (\<lambda>x. bindE (f x) g)"
  by (cases m) auto

lemma bindE_eq_Inr: "bindE m f = Inr y \<longleftrightarrow> (\<exists>x. m = Inr x \<and> f x = Inr y)"
  by (cases m) auto

lemma bindE_eq_Inl: "bindE m f = Inl e \<longleftrightarrow> m = Inl e \<or> (\<exists>x. m = Inr x \<and> f x = Inl e)"
  by (cases m) auto

lemma bindE_cong [fundef_cong]:
  "m = m' \<Longrightarrow> (\<And>x. m' = Inr x \<Longrightarrow> f x = g x) \<Longrightarrow> bindE m f = bindE m' g"
  by (cases m') auto

text \<open>A loop that appends the result of a fallible call for each element, stopping at the first
  error.\<close>

fun mapE :: "('a \<Rightarrow> 'e + 'b) \<Rightarrow> 'a list \<Rightarrow> 'e + 'b list" where
  "mapE f [] = Inr []"
| "mapE f (x # xs) = bindE (f x) (\<lambda>y. bindE (mapE f xs) (\<lambda>ys. Inr (y # ys)))"

lemma mapE_Inr_length: "mapE f xs = Inr ys \<Longrightarrow> length ys = length xs"
  by (induction xs arbitrary: ys) (auto simp: bindE_eq_Inr)

lemma mapE_Inr_iff: "mapE f xs = Inr ys \<longleftrightarrow> list_all2 (\<lambda>x y. f x = Inr y) xs ys"
  by (induction xs arbitrary: ys) (auto simp: bindE_eq_Inr list_all2_Cons1)

lemma mapE_total: "(\<And>x. x \<in> set xs \<Longrightarrow> f x = Inr (g x)) \<Longrightarrow> mapE f xs = Inr (map g xs)"
  by (induction xs) auto

lemma mapE_map: "mapE f (map g xs) = mapE (f \<circ> g) xs"
  by (induction xs) auto

lemma mapE_cong [fundef_cong]:
  "xs = ys \<Longrightarrow> (\<And>x. x \<in> set ys \<Longrightarrow> f x = g x) \<Longrightarrow> mapE f xs = mapE g ys"
  by (induction ys arbitrary: xs) (auto intro!: bindE_cong)

section \<open>Characters\<close>

definition is_lower :: "char \<Rightarrow> bool" where
  "is_lower c \<longleftrightarrow> 97 \<le> (of_char c :: nat) \<and> (of_char c :: nat) \<le> 122"

definition is_upper :: "char \<Rightarrow> bool" where
  "is_upper c \<longleftrightarrow> 65 \<le> (of_char c :: nat) \<and> (of_char c :: nat) \<le> 90"

definition is_digit :: "char \<Rightarrow> bool" where
  "is_digit c \<longleftrightarrow> 48 \<le> (of_char c :: nat) \<and> (of_char c :: nat) \<le> 57"

definition quote_char :: char where
  "quote_char = char_of (34 :: nat)"

definition backslash :: char where
  "backslash = char_of (92 :: nat)"

lemma quote_char_code [simp]: "(of_char quote_char :: nat) = 34"
  by (simp add: quote_char_def)

lemma backslash_code [simp]: "(of_char backslash :: nat) = 92"
  by (simp add: backslash_def)

lemma quote_neq_backslash [simp]: "quote_char \<noteq> backslash" "backslash \<noteq> quote_char"
  by (simp_all add: quote_char_def backslash_def)

section \<open>The \<open>strings\<close> package\<close>

definition has_prefix :: "string \<Rightarrow> string \<Rightarrow> bool" where
  "has_prefix s p \<longleftrightarrow> take (length p) s = p"

definition has_suffix :: "string \<Rightarrow> string \<Rightarrow> bool" where
  "has_suffix s p \<longleftrightarrow> length p \<le> length s \<and> drop (length s - length p) s = p"

text \<open>\<open>strings.IndexByte\<close>: the first position of a byte.\<close>

fun index_byte :: "char \<Rightarrow> string \<Rightarrow> nat option" where
  "index_byte c [] = None"
| "index_byte c (x # xs) = (if x = c then Some 0 else map_option Suc (index_byte c xs))"

text \<open>\<open>strings.LastIndex\<close> with a one-byte separator.\<close>

fun last_index_byte :: "char \<Rightarrow> string \<Rightarrow> nat option" where
  "last_index_byte c [] = None"
| "last_index_byte c (x # xs) =
     (case last_index_byte c xs of Some i \<Rightarrow> Some (Suc i) | None \<Rightarrow> if x = c then Some 0 else None)"

lemma index_byte_Some:
  "index_byte c s = Some i \<Longrightarrow> i < length s \<and> s ! i = c \<and> c \<notin> set (take i s)"
  by (induction s arbitrary: i) (auto split: if_splits)

lemma index_byte_None: "index_byte c s = None \<longleftrightarrow> c \<notin> set s"
  by (induction s) auto

lemma index_byte_split:
  "c \<notin> set a \<Longrightarrow> index_byte c (a @ c # b) = Some (length a)"
  by (induction a) auto

lemma last_index_byte_Some:
  "last_index_byte c s = Some i \<Longrightarrow> i < length s \<and> s ! i = c"
  by (induction s arbitrary: i) (auto split: option.splits if_splits)

text \<open>\<open>strings.Split\<close> with a one-byte separator, and \<open>strings.Join\<close>.\<close>

fun split_byte :: "char \<Rightarrow> string \<Rightarrow> string list" where
  "split_byte c [] = [[]]"
| "split_byte c (x # xs) =
     (if x = c then [] # split_byte c xs
      else (case split_byte c xs of [] \<Rightarrow> [[x]] | y # ys \<Rightarrow> (x # y) # ys))"

fun join :: "string \<Rightarrow> string list \<Rightarrow> string" where
  "join sep [] = []"
| "join sep [x] = x"
| "join sep (x # y # ys) = x @ sep @ join sep (y # ys)"

text \<open>\<open>strings.SplitN(s, sep, 2)\<close> with a one-byte separator.\<close>

definition split_byte2 :: "char \<Rightarrow> string \<Rightarrow> string list" where
  "split_byte2 c s =
     (case index_byte c s of None \<Rightarrow> [s] | Some i \<Rightarrow> [take i s, drop (Suc i) s])"

lemma split_byte_neq_Nil [simp]: "split_byte c s \<noteq> []"
  by (cases s) (auto split: list.splits)

lemma join_split_byte: "join [c] (split_byte c s) = s"
proof (induction s)
  case Nil
  then show ?case by simp
next
  case (Cons x xs)
  obtain y ys where y: "split_byte c xs = y # ys"
    by (cases "split_byte c xs") auto
  with Cons.IH show ?case by (cases ys) auto
qed

lemma split_byte_no_sep: "p \<in> set (split_byte c s) \<Longrightarrow> c \<notin> set p"
proof (induction s arbitrary: p)
  case Nil
  then show ?case by simp
next
  case (Cons x xs)
  obtain y ys where y: "split_byte c xs = y # ys"
    by (cases "split_byte c xs") auto
  with Cons show ?case by (auto split: if_splits)
qed

lemma split_byte_id: "c \<notin> set a \<Longrightarrow> split_byte c a = [a]"
  by (induction a) auto

lemma split_byte_append:
  "c \<notin> set a \<Longrightarrow> split_byte c (a @ c # b) = a # split_byte c b"
  by (induction a) auto

lemma split_byte2_append:
  "c \<notin> set a \<Longrightarrow> split_byte2 c (a @ c # b) = [a, b]"
  by (simp add: split_byte2_def index_byte_split)

lemma split_byte2_length: "length (split_byte2 c s) = 2 \<longleftrightarrow> c \<in> set s"
  using index_byte_None [of c s] by (auto simp: split_byte2_def split: option.splits)

text \<open>
  \<open>strings.TrimSpace\<close> removes Unicode white space at both ends. A leading (trailing) rune is
  white space exactly when the string starts (ends) with its UTF-8 encoding, so the model strips
  those encodings: the six ASCII blanks, U+0085, U+00A0, U+1680, U+2000 to U+200A, U+2028,
  U+2029, U+202F, U+205F and U+3000.
\<close>

definition space_encodings :: "nat list list" where
  "space_encodings =
     [[9], [10], [11], [12], [13], [32], [194, 133], [194, 160], [225, 154, 128]]
     @ map (\<lambda>k. [226, 128, 128 + k]) [0..<11]
     @ [[226, 128, 168], [226, 128, 169], [226, 128, 175], [226, 129, 159], [227, 128, 128]]"

definition codes :: "string \<Rightarrow> nat list" where
  "codes s = map of_char s"

fun leading_space :: "nat list list \<Rightarrow> nat list \<Rightarrow> nat" where
  "leading_space [] s = 0"
| "leading_space (e # es) s = (if take (length e) s = e then length e else leading_space es s)"

function trim_left :: "string \<Rightarrow> string" where
  "trim_left s =
     (let n = leading_space space_encodings (codes s)
      in if n = 0 \<or> s = [] then s else trim_left (drop n s))"
  by pat_completeness auto
termination
  by (relation "measure length") auto

declare trim_left.simps [simp del]

definition space_encodings_rev :: "nat list list" where
  "space_encodings_rev = map rev space_encodings"

function trim_right_rev :: "string \<Rightarrow> string" where
  "trim_right_rev s =
     (let n = leading_space space_encodings_rev (codes s)
      in if n = 0 \<or> s = [] then s else trim_right_rev (drop n s))"
  by pat_completeness auto
termination
  by (relation "measure length") auto

declare trim_right_rev.simps [simp del]

definition trim_space :: "string \<Rightarrow> string" where
  "trim_space s = rev (trim_right_rev (rev (trim_left s)))"

lemma length_trim_left: "length (trim_left s) \<le> length s"
proof (induction s rule: trim_left.induct)
  case (1 s)
  show ?case
    using 1 by (subst trim_left.simps) (force simp: Let_def intro: le_trans)
qed

lemma length_trim_right_rev: "length (trim_right_rev s) \<le> length s"
proof (induction s rule: trim_right_rev.induct)
  case (1 s)
  show ?case
    using 1 by (subst trim_right_rev.simps) (force simp: Let_def intro: le_trans)
qed

lemma length_trim_space: "length (trim_space s) \<le> length s"
  using length_trim_left [of s] length_trim_right_rev [of "rev (trim_left s)"]
  by (simp add: trim_space_def)

lemma trim_left_nonspace:
  "leading_space space_encodings (codes s) = 0 \<Longrightarrow> trim_left s = s"
  by (subst trim_left.simps) (simp add: Let_def)

lemma trim_right_rev_nonspace:
  "leading_space space_encodings_rev (codes s) = 0 \<Longrightarrow> trim_right_rev s = s"
  by (subst trim_right_rev.simps) (simp add: Let_def)

lemma set_trim_left: "set (trim_left s) \<subseteq> set s"
proof (induction s rule: trim_left.induct)
  case (1 s)
  then show ?case
    by (subst trim_left.simps) (auto simp: Let_def dest: in_set_dropD)
qed

lemma set_trim_right_rev: "set (trim_right_rev s) \<subseteq> set s"
proof (induction s rule: trim_right_rev.induct)
  case (1 s)
  then show ?case
    by (subst trim_right_rev.simps) (auto simp: Let_def dest: in_set_dropD)
qed

lemma set_trim_space: "set (trim_space s) \<subseteq> set s"
  using set_trim_left [of s] set_trim_right_rev [of "rev (trim_left s)"]
  by (auto simp: trim_space_def)

text \<open>Printable, non-blank ASCII characters are never trimmed.\<close>

definition graph :: "char \<Rightarrow> bool" where
  "graph c \<longleftrightarrow> 33 \<le> (of_char c :: nat) \<and> (of_char c :: nat) \<le> 126"

lemma leading_space_0: "\<forall>e \<in> set es. take (length e) s \<noteq> e \<Longrightarrow> leading_space es s = 0"
  by (induction es) auto

lemma leading_space_graph:
  assumes "graph c" "\<forall>e \<in> set es. e \<noteq> [] \<and> \<not> (33 \<le> hd e \<and> hd e \<le> 126)"
  shows "leading_space es (codes (c # s)) = 0"
proof (rule leading_space_0, intro ballI notI)
  fix e assume e: "e \<in> set es" "take (length e) (codes (c # s)) = e"
  with assms(2) have "e \<noteq> []" by blast
  then obtain a b where "e = a # b" by (cases e) auto
  with e assms show False by (auto simp: codes_def graph_def)
qed

lemma space_heads: "\<forall>e \<in> set space_encodings. e \<noteq> [] \<and> \<not> (33 \<le> hd e \<and> hd e \<le> 126)"
  "\<forall>e \<in> set space_encodings_rev. e \<noteq> [] \<and> \<not> (33 \<le> hd e \<and> hd e \<le> 126)"
  by code_simp+

lemma trim_left_graph: "graph c \<Longrightarrow> trim_left (c # s) = c # s"
  by (rule trim_left_nonspace) (rule leading_space_graph [OF _ space_heads(1)])

lemma trim_right_rev_graph: "graph c \<Longrightarrow> trim_right_rev (c # s) = c # s"
  by (rule trim_right_rev_nonspace) (rule leading_space_graph [OF _ space_heads(2)])

lemma trim_left_Nil [simp]: "trim_left [] = []"
  by (subst trim_left.simps) (simp add: Let_def)

lemma trim_right_rev_Nil [simp]: "trim_right_rev [] = []"
  by (subst trim_right_rev.simps) (simp add: Let_def)

lemma trim_space_Nil [simp]: "trim_space [] = []"
  by (simp add: trim_space_def)

lemma trim_left_blank: "trim_left (CHR '' '' # s) = trim_left s"
proof -
  have "leading_space space_encodings (codes (CHR '' '' # s)) = 1"
    by (simp add: space_encodings_def codes_def)
  then show ?thesis by (subst trim_left.simps) simp
qed

lemma trim_space_blank: "trim_space (CHR '' '' # s) = trim_space s"
  by (simp add: trim_space_def trim_left_blank)

lemma trim_space_graph:
  assumes "graph (hd s)" "graph (last s)" "s \<noteq> []"
  shows "trim_space s = s"
proof -
  obtain c s' where s: "s = c # s'" using assms(3) by (cases s) auto
  obtain d t where t: "rev s = d # t" using assms(3) by (cases "rev s") auto
  then have "d = last s" using assms(3) by (metis hd_rev list.sel(1))
  have "trim_left s = s" using assms(1) s by (simp add: trim_left_graph)
  moreover have "trim_right_rev (rev s) = rev s"
    unfolding t by (rule trim_right_rev_graph) (use assms(2) \<open>d = last s\<close> in simp)
  ultimately show ?thesis by (simp add: trim_space_def)
qed

text \<open>
  \<open>strings.ToLower\<close>, as far as a comparison with an ASCII constant can observe it: ASCII letters
  are lowered, the two non-ASCII runes whose lower case is ASCII (U+0130 to \<open>i\<close>, U+212A, the
  Kelvin sign, to \<open>k\<close>) are replaced, and every other byte of a non-ASCII rune, whose lower case
  is not ASCII either, is kept.
\<close>

definition lower_char :: "char \<Rightarrow> char" where
  "lower_char c = (if is_upper c then char_of ((of_char c :: nat) + 32) else c)"

fun to_lower :: "string \<Rightarrow> string" where
  "to_lower [] = []"
| "to_lower (c # cs) =
     (if take 2 (codes (c # cs)) = [196, 176] then CHR ''i'' # to_lower (drop 1 cs)
      else if take 3 (codes (c # cs)) = [226, 132, 170] then CHR ''k'' # to_lower (drop 2 cs)
      else lower_char c # to_lower cs)"

section \<open>UTF-8: \<open>for _, r := range s\<close>\<close>

text \<open>\<open>utf8.DecodeRune\<close>: the rune at the front and its width; an ill-formed sequence is U+FFFD
  of width one.\<close>

definition cont_byte :: "nat \<Rightarrow> bool" where
  "cont_byte b \<longleftrightarrow> 128 \<le> b \<and> b \<le> 191"

definition second_ok :: "nat \<Rightarrow> nat \<Rightarrow> bool" where
  "second_ok b0 b1 \<longleftrightarrow>
     (if b0 = 224 then 160 \<le> b1 \<and> b1 \<le> 191
      else if b0 = 237 then 128 \<le> b1 \<and> b1 \<le> 159
      else if b0 = 240 then 144 \<le> b1 \<and> b1 \<le> 191
      else if b0 = 244 then 128 \<le> b1 \<and> b1 \<le> 143
      else cont_byte b1)"

definition decode_rune :: "nat list \<Rightarrow> nat \<times> nat" where
  "decode_rune bs =
     (case bs of
        [] \<Rightarrow> (65533, 0)
      | b0 # r \<Rightarrow>
          if b0 < 128 then (b0, 1)
          else if 194 \<le> b0 \<and> b0 \<le> 223 then
            (case r of b1 # _ \<Rightarrow>
               if cont_byte b1 then ((b0 - 192) * 64 + (b1 - 128), 2) else (65533, 1)
             | _ \<Rightarrow> (65533, 1))
          else if 224 \<le> b0 \<and> b0 \<le> 239 then
            (case r of b1 # b2 # _ \<Rightarrow>
               if second_ok b0 b1 \<and> cont_byte b2
               then ((b0 - 224) * 4096 + (b1 - 128) * 64 + (b2 - 128), 3) else (65533, 1)
             | _ \<Rightarrow> (65533, 1))
          else if 240 \<le> b0 \<and> b0 \<le> 244 then
            (case r of b1 # b2 # b3 # _ \<Rightarrow>
               if second_ok b0 b1 \<and> cont_byte b2 \<and> cont_byte b3
               then ((b0 - 240) * 262144 + (b1 - 128) * 4096 + (b2 - 128) * 64 + (b3 - 128), 4)
               else (65533, 1)
             | _ \<Rightarrow> (65533, 1))
          else (65533, 1))"

fun runes_of :: "nat list \<Rightarrow> nat list" where
  "runes_of [] = []"
| "runes_of (b # bs) = fst (decode_rune (b # bs)) # runes_of (drop (snd (decode_rune (b # bs)) - 1) bs)"

definition runes :: "string \<Rightarrow> nat list" where
  "runes s = runes_of (codes s)"

lemma decode_rune_ascii: "b < 128 \<Longrightarrow> decode_rune (b # bs) = (b, 1)"
  by (simp add: decode_rune_def)

lemma decode_rune_high: "128 \<le> b \<Longrightarrow> 128 \<le> fst (decode_rune (b # bs))"
  by (auto simp: decode_rune_def second_ok_def cont_byte_def split: list.splits if_splits)

text \<open>A test that accepts ASCII runes only can be run on the bytes.\<close>

lemma runes_all_ascii:
  assumes "\<And>r. P r \<Longrightarrow> r < 128"
  shows "list_all P (runes_of bs) \<longleftrightarrow> list_all P bs"
proof (induction bs rule: runes_of.induct)
  case 1
  then show ?case by simp
next
  case (2 b bs)
  show ?case
  proof (cases "b < 128")
    case True
    with 2 show ?thesis by (simp add: decode_rune_ascii)
  next
    case False
    then have "\<not> P b" and "\<not> P (fst (decode_rune (b # bs)))"
      using assms [of b] assms [of "fst (decode_rune (b # bs))"] decode_rune_high [of b bs] by auto
    then show ?thesis by simp
  qed
qed

lemma runes_of_ascii: "list_all (\<lambda>b. b < 128) bs \<Longrightarrow> runes_of bs = bs"
  by (induction bs) (simp_all add: decode_rune_ascii)

section \<open>Decimal printing\<close>

definition digit_char :: "nat \<Rightarrow> char" where
  "digit_char d = char_of (48 + d)"

fun show_nat :: "nat \<Rightarrow> string" where
  "show_nat n = (if n < 10 then [digit_char n] else show_nat (n div 10) @ [digit_char (n mod 10)])"

declare show_nat.simps [simp del]

definition show_int :: "int \<Rightarrow> string" where
  "show_int i = (if i < 0 then CHR ''-'' # show_nat (nat (- i)) else show_nat (nat i))"

lemma of_char_digit [simp]: "d < 10 \<Longrightarrow> (of_char (digit_char d) :: nat) = 48 + d"
  by (simp add: digit_char_def)

lemma show_nat_digits: "\<forall>c \<in> set (show_nat n). is_digit c"
proof (induction n rule: show_nat.induct)
  case (1 n)
  then show ?case
    by (subst show_nat.simps) (auto simp: is_digit_def)
qed

lemma show_int_chars: "c \<in> set (show_int i) \<Longrightarrow> is_digit c \<or> c = CHR ''-''"
  using show_nat_digits by (auto simp: show_int_def split: if_splits)

section \<open>64-bit signed integers\<close>

text \<open>The value of an \<open>int64\<close> expression whose mathematical value is \<open>i\<close>.\<close>

definition wrap64 :: "int \<Rightarrow> int" where
  "wrap64 i = (i + 2 ^ 63) mod 2 ^ 64 - 2 ^ 63"

lemma wrap64_range: "- (2 ^ 63) \<le> wrap64 i" "wrap64 i < 2 ^ 63"
  by (simp_all add: wrap64_def)

lemma wrap64_id: "- (2 ^ 63) \<le> i \<Longrightarrow> i < 2 ^ 63 \<Longrightarrow> wrap64 i = i"
  by (simp add: wrap64_def mod_pos_pos_trivial)

text \<open>Sums that wrap at every step have the wrapped sum as their value.\<close>

lemma wrap64_cong: "wrap64 a = wrap64 b \<longleftrightarrow> a mod 2 ^ 64 = b mod 2 ^ 64"
proof -
  have "wrap64 a = wrap64 b \<longleftrightarrow> (a + 2 ^ 63) mod 2 ^ 64 = (b + 2 ^ 63) mod 2 ^ 64"
    by (simp add: wrap64_def)
  also have "\<dots> \<longleftrightarrow> a mod 2 ^ 64 = b mod 2 ^ 64"
    by (simp add: mod_eq_dvd_iff)
  finally show ?thesis .
qed

lemma wrap64_mod: "wrap64 a mod 2 ^ 64 = a mod 2 ^ 64"
  unfolding wrap64_def by (simp add: mod_diff_left_eq)

lemma wrap64_add_left: "wrap64 (wrap64 a + b) = wrap64 (a + b)"
  unfolding wrap64_cong by (metis mod_add_left_eq wrap64_mod)

lemma wrap64_add_right: "wrap64 (a + wrap64 b) = wrap64 (a + b)"
  using wrap64_add_left [of b a] by (simp add: add.commute)

lemma wrap64_0 [simp]: "wrap64 0 = 0"
  by (simp add: wrap64_def)

lemma foldl_wrap:
  "foldl (\<lambda>t b. if P b then wrap64 (t + c b) else t) (wrap64 a) bs =
   wrap64 (a + sum_list (map (\<lambda>b. if P b then c b else 0) bs))"
  by (induction bs arbitrary: a) (simp_all add: wrap64_add_left add.assoc)

lemma wrap64_sum_list:
  "(\<And>x. x \<in> set xs \<Longrightarrow> wrap64 (f x) = wrap64 (g x)) \<Longrightarrow>
   wrap64 (sum_list (map f xs)) = wrap64 (sum_list (map g xs))"
proof (induction xs)
  case (Cons x xs)
  have "wrap64 (f x + sum_list (map f xs)) = wrap64 (wrap64 (f x) + wrap64 (sum_list (map f xs)))"
    by (simp add: wrap64_add_left wrap64_add_right)
  also have "\<dots> = wrap64 (wrap64 (g x) + wrap64 (sum_list (map g xs)))"
    using Cons by simp
  also have "\<dots> = wrap64 (g x + sum_list (map g xs))"
    by (simp add: wrap64_add_left wrap64_add_right)
  finally show ?case by simp
qed simp

text \<open>Durations, in nanoseconds.\<close>

definition millisecond :: int where "millisecond = 1000000"
definition second :: int where "second = 1000000000"
definition minute :: int where "minute = 60 * second"
definition hour :: int where "hour = 60 * minute"

lemmas duration_defs [go_simps] = millisecond_def second_def minute_def hour_def

end
