(* ===== verification/Float64.thy ===== *)
theory Float64
  imports Complex_Main Prelude "HOL-Library.Log_Nat"
begin

text \<open>
  Go's \<open>float64\<close>: IEEE 754 binary64 values as exact rationals, the two infinities and NaN.
  Arithmetic computes exactly and rounds to nearest, ties to even, with gradual underflow and
  overflow to infinity. The sign of zero is not represented: no modelled code divides by a zero
  or prints a negative zero, and comparisons identify the two zeros.
\<close>

datatype f64 = Fin rat | PInf | NInf | NaN

section \<open>Rounding\<close>

text \<open>\<open>flog2 x\<close> is the exponent of the leading bit of a positive \<open>x\<close>.\<close>

definition flog2 :: "rat \<Rightarrow> int" where
  "flog2 x =
     (let (a, b) = quotient_of x;
          k = int (floorlog 2 (nat a)) - int (floorlog 2 (nat b))
      in if 2 powi k \<le> x then k else k - 1)"

definition round_half_even :: "rat \<Rightarrow> int" where
  "round_half_even x =
     (let f = \<lfloor>x\<rfloor>; d = x - of_int f
      in if d < 1 / 2 then f else if 1 / 2 < d then f + 1 else if even f then f else f + 1)"

definition max_finite_bound :: rat where
  "max_finite_bound = 2 ^ 1024"

definition fround :: "rat \<Rightarrow> f64" where
  "fround x =
     (if x = 0 then Fin 0
      else
        let e = max (- 1074) (flog2 \<bar>x\<bar> - 52);
            y = of_int (round_half_even (\<bar>x\<bar> / 2 powi e)) * 2 powi e
        in if max_finite_bound \<le> y then (if 0 < x then PInf else NInf)
           else Fin (sgn x * y))"

section \<open>Operations\<close>

definition fneg :: "f64 \<Rightarrow> f64" where
  "fneg a = (case a of Fin x \<Rightarrow> Fin (- x) | PInf \<Rightarrow> NInf | NInf \<Rightarrow> PInf | NaN \<Rightarrow> NaN)"

fun fadd :: "f64 \<Rightarrow> f64 \<Rightarrow> f64" where
  "fadd NaN b = NaN"
| "fadd a NaN = NaN"
| "fadd (Fin x) (Fin y) = fround (x + y)"
| "fadd (Fin x) b = b"
| "fadd a (Fin y) = a"
| "fadd PInf PInf = PInf"
| "fadd NInf NInf = NInf"
| "fadd PInf NInf = NaN"
| "fadd NInf PInf = NaN"

definition fsub :: "f64 \<Rightarrow> f64 \<Rightarrow> f64" where
  "fsub a b = fadd a (fneg b)"

definition finf :: "rat \<Rightarrow> f64" where
  "finf s = (if 0 < s then PInf else if s < 0 then NInf else NaN)"

fun fmul :: "f64 \<Rightarrow> f64 \<Rightarrow> f64" where
  "fmul NaN b = NaN"
| "fmul a NaN = NaN"
| "fmul (Fin x) (Fin y) = fround (x * y)"
| "fmul (Fin x) PInf = finf x"
| "fmul (Fin x) NInf = finf (- x)"
| "fmul PInf (Fin y) = finf y"
| "fmul NInf (Fin y) = finf (- y)"
| "fmul PInf PInf = PInf"
| "fmul NInf NInf = PInf"
| "fmul PInf NInf = NInf"
| "fmul NInf PInf = NInf"

fun fdiv :: "f64 \<Rightarrow> f64 \<Rightarrow> f64" where
  "fdiv NaN b = NaN"
| "fdiv a NaN = NaN"
| "fdiv (Fin x) (Fin y) = (if y = 0 then finf x else fround (x / y))"
| "fdiv (Fin x) b = Fin 0"
| "fdiv PInf (Fin y) = (if y < 0 then NInf else PInf)"
| "fdiv NInf (Fin y) = (if y < 0 then PInf else NInf)"
| "fdiv a b = NaN"

text \<open>Comparisons with a NaN are false.\<close>

fun flt :: "f64 \<Rightarrow> f64 \<Rightarrow> bool" where
  "flt NaN b = False"
| "flt a NaN = False"
| "flt (Fin x) (Fin y) = (x < y)"
| "flt (Fin x) PInf = True"
| "flt (Fin x) NInf = False"
| "flt PInf b = False"
| "flt NInf NInf = False"
| "flt NInf b = True"

fun feq :: "f64 \<Rightarrow> f64 \<Rightarrow> bool" where
  "feq NaN b = False"
| "feq a b = (a = b)"

definition fle :: "f64 \<Rightarrow> f64 \<Rightarrow> bool" where
  "fle a b \<longleftrightarrow> flt a b \<or> feq a b"

text \<open>Conversion from an integer, and to \<open>int64\<close> (truncation; out of range and NaN give the value
  amd64 produces, the least \<open>int64\<close>).\<close>

definition of_int64 :: "int \<Rightarrow> f64" where
  "of_int64 i = fround (of_int i)"

definition to_int64 :: "f64 \<Rightarrow> int" where
  "to_int64 a =
     (case a of
        Fin x \<Rightarrow>
          (let t = (if 0 \<le> x then \<lfloor>x\<rfloor> else - \<lfloor>- x\<rfloor>)
           in if - (2 ^ 63) \<le> t \<and> t < 2 ^ 63 then t else - (2 ^ 63))
      | _ \<Rightarrow> - (2 ^ 63))"

text \<open>A decimal literal of the source.\<close>

definition flit :: "rat \<Rightarrow> f64" where
  "flit x = fround x"

text \<open>\<open>time.Duration.Seconds\<close>.\<close>

definition seconds :: "int \<Rightarrow> f64" where
  "seconds d = fadd (of_int64 (d sdiv second)) (fdiv (of_int64 (d smod second)) (flit 1000000000))"

section \<open>Facts\<close>

lemma fle_NaN [simp]: "\<not> fle NaN b" "\<not> fle a NaN"
  by (cases b; cases a; simp add: fle_def)+

lemma flt_irrefl [simp]: "\<not> flt a a"
  by (cases a) auto

lemma flt_trans: "flt a b \<Longrightarrow> flt b c \<Longrightarrow> flt a c"
  by (cases a; cases b; cases c) auto

lemma fle_trans: "fle a b \<Longrightarrow> fle b c \<Longrightarrow> fle a c"
  by (cases a; cases b; cases c) (auto simp: fle_def)

lemma fle_refl: "a \<noteq> NaN \<Longrightarrow> fle a a"
  by (cases a) (auto simp: fle_def)

lemma fle_total: "a \<noteq> NaN \<Longrightarrow> b \<noteq> NaN \<Longrightarrow> fle a b \<or> flt b a"
  by (cases a; cases b) (auto simp: fle_def)

lemma fle_flt_trans: "fle a b \<Longrightarrow> flt b c \<Longrightarrow> flt a c"
  by (cases a; cases b; cases c) (auto simp: fle_def)

lemma flt_not_fle: "flt a b \<Longrightarrow> \<not> fle b a"
  by (cases a; cases b) (auto simp: fle_def)

lemma fle_not_flt: "fle a b \<Longrightarrow> \<not> flt b a"
  using flt_not_fle by blast

lemma fadd_NaN [simp]: "fadd a NaN = NaN" "fmul a NaN = NaN" "fdiv a NaN = NaN"
  by (cases a; simp)+

lemma fsub_NaN [simp]: "fsub NaN b = NaN" "fsub a NaN = NaN"
  by (simp_all add: fsub_def fneg_def)

lemma fround_0 [simp]: "fround 0 = Fin 0"
  by (simp add: fround_def)

lemma fround_neq_NaN [simp]: "fround x \<noteq> NaN"
  by (simp add: fround_def Let_def)

section \<open>Exactness on integers\<close>

lemma floorlog_bounds:
  assumes "0 < a"
  shows "(2::rat) powi (int (floorlog 2 a) - 1) \<le> of_nat a" "of_nat a < (2::rat) powi int (floorlog 2 a)"
proof -
  have "2 ^ (floorlog 2 a - 1) \<le> a" and up: "a < 2 ^ floorlog 2 a"
    using floorlog_bounds [of a 2] assms by auto
  moreover have pos: "0 < floorlog 2 a"
    using assms floorlog_eq_zero_iff [of 2 a] by auto
  ultimately have "(of_nat (2 ^ (floorlog 2 a - 1)) :: rat) \<le> of_nat a"
    by (simp only: of_nat_le_iff)
  then show "(2::rat) powi (int (floorlog 2 a) - 1) \<le> of_nat a"
    using pos by (simp add: power_int_def nat_diff_distrib')
  have "(of_nat a :: rat) < of_nat (2 ^ floorlog 2 a)"
    using up by (simp only: of_nat_less_iff)
  then show "of_nat a < (2::rat) powi int (floorlog 2 a)"
    by (simp add: power_int_def)
qed

lemma flog2_bounds:
  assumes "0 < x"
  shows "2 powi (flog2 x) \<le> x" "x < 2 powi (flog2 x + 1)"
proof -
  obtain a b where ab: "quotient_of x = (a, b)" by fastforce
  have b: "0 < b" using quotient_of_denom_pos [OF ab] .
  have x: "x = of_int a / of_int b" using quotient_of_div [OF ab] .
  have a: "0 < a" using assms b by (simp add: x zero_less_divide_iff)
  define p q where "p = floorlog 2 (nat a)" and "q = floorlog 2 (nat b)"
  define A B where "A = (of_int a :: rat)" and "B = (of_int b :: rat)"
  have A: "2 powi (int p - 1) \<le> A" "A < 2 powi int p"
    using floorlog_bounds [of "nat a"] a by (simp_all add: A_def p_def)
  have B: "2 powi (int q - 1) \<le> B" "B < 2 powi int q" "0 < B"
    using floorlog_bounds [of "nat b"] b by (simp_all add: B_def q_def)
  have "2 powi (int p - int q - 1) * B \<le> 2 powi (int p - int q - 1) * 2 powi int q"
    using B by (intro mult_left_mono) auto
  also have "\<dots> = 2 powi (int p - 1)"
    using power_int_add [of "2::rat" "int p - int q - 1" "int q"] by simp
  finally have lo: "2 powi (int p - int q - 1) \<le> x"
    using A(1) B(3) by (simp add: x A_def [symmetric] B_def [symmetric] pos_le_divide_eq)
  have "2 powi int p = (2::rat) powi (int p - int q + 1) * 2 powi (int q - 1)"
    using power_int_add [of "2::rat" "int p - int q + 1" "int q - 1"] by simp
  also have "\<dots> \<le> 2 powi (int p - int q + 1) * B"
    using B by (intro mult_left_mono) auto
  finally have hi: "x < 2 powi (int p - int q + 1)"
    using A(2) B(3) by (simp add: x A_def [symmetric] B_def [symmetric] pos_divide_less_eq)
  have f: "flog2 x = (if 2 powi (int p - int q) \<le> x then int p - int q else int p - int q - 1)"
    by (simp add: flog2_def ab p_def q_def Let_def)
  show "2 powi (flog2 x) \<le> x" "x < 2 powi (flog2 x + 1)"
    using lo hi by (auto simp: f not_le)
qed

lemma powi_less_imp_less: "(2::rat) powi a < 2 powi b \<Longrightarrow> a < b"
  by (meson linorder_not_le one_le_numeral power_int_increasing)

lemma flog2_unique:
  assumes "0 < x" "2 powi k \<le> x" "x < 2 powi (k + 1)"
  shows "flog2 x = k"
proof -
  have "(2::rat) powi k < 2 powi (flog2 x + 1)" "(2::rat) powi flog2 x < 2 powi (k + 1)"
    using flog2_bounds [OF assms(1)] assms by linarith+
  then have "k < flog2 x + 1" "flog2 x < k + 1"
    using powi_less_imp_less by blast+
  then show ?thesis by simp
qed

lemma round_half_even_int [simp]: "round_half_even (of_int i) = i"
  by (simp add: round_half_even_def)

text \<open>Every integer of magnitude below \<open>2^53\<close> is a float.\<close>

lemma fround_of_int:
  assumes "\<bar>i\<bar> < 2 ^ 53"
  shows "fround (of_int i) = Fin (of_int i)"
proof (cases "i = 0")
  case True
  then show ?thesis by simp
next
  case False
  define x where "x = (of_int \<bar>i\<bar> :: rat)"
  have x1: "1 \<le> x" "0 < x" using False by (simp_all add: x_def)
  have "of_int \<bar>i\<bar> < (of_int (2 ^ 53) :: rat)" using assms by (simp only: of_int_less_iff)
  then have x2: "x < 2 powi 53" by (simp add: x_def)
  have "(2::rat) powi flog2 x < 2 powi 53" "(2::rat) powi 0 < 2 powi (flog2 x + 1)"
    using flog2_bounds [OF x1(2)] x1 x2 by simp_all
  then have "flog2 x < 53" "0 < flog2 x + 1"
    using powi_less_imp_less by blast+
  then have e: "max (- 1074) (flog2 x - 52) = flog2 x - 52" "flog2 x - 52 \<le> 0"
    by auto
  define n where "n = nat (52 - flog2 x)"
  have pe: "(2::rat) powi (flog2 x - 52) = 1 / 2 ^ n"
    using e(2) by (simp add: power_int_def n_def power_one_over field_simps)
  have m: "x / 2 powi (flog2 x - 52) = of_int (\<bar>i\<bar> * 2 ^ n)"
    unfolding pe by (simp add: x_def)
  have big: "x < max_finite_bound"
    using x2 by (simp add: max_finite_bound_def) 
  have "\<bar>of_int i :: rat\<bar> = x" by (simp add: x_def)
  moreover have "of_int (round_half_even (x / 2 powi (flog2 x - 52))) * 2 powi (flog2 x - 52) = x"
    unfolding m round_half_even_int unfolding pe by (simp add: x_def)
  moreover have "sgn (of_int i :: rat) * x = of_int i"
    by (simp add: x_def sgn_if)
  ultimately show ?thesis
    using big False by (simp add: fround_def Let_def e(1))
qed

lemma of_int64_exact: "\<bar>i\<bar> < 2 ^ 53 \<Longrightarrow> of_int64 i = Fin (of_int i)"
  by (simp add: of_int64_def fround_of_int)

lemma of_int64_neq_NaN [simp]: "of_int64 i \<noteq> NaN"
  by (simp add: of_int64_def)

section \<open>Rounding is monotone\<close>

lemma round_half_even_mono:
  assumes "x \<le> y"
  shows "round_half_even x \<le> round_half_even y"
proof (cases "\<lfloor>x\<rfloor> = \<lfloor>y\<rfloor>")
  case True
  then show ?thesis using assms by (auto simp: round_half_even_def Let_def)
next
  case False
  then have "\<lfloor>x\<rfloor> + 1 \<le> \<lfloor>y\<rfloor>" using floor_mono [OF assms] by linarith
  moreover have "round_half_even x \<le> \<lfloor>x\<rfloor> + 1" "\<lfloor>y\<rfloor> \<le> round_half_even y"
    by (auto simp: round_half_even_def Let_def)
  ultimately show ?thesis by linarith
qed

lemma flog2_mono: "0 < x \<Longrightarrow> x \<le> y \<Longrightarrow> flog2 x \<le> flog2 y"
  using flog2_bounds [of x] flog2_bounds [of y] powi_less_imp_less [of "flog2 x" "flog2 y + 1"]
  by force

lemma round_half_even_powi:
  assumes "0 \<le> k"
  shows "x \<le> 2 powi k \<Longrightarrow> round_half_even x \<le> 2 ^ nat k" "2 powi k \<le> x \<Longrightarrow> 2 ^ nat k \<le> round_half_even x"
proof -
  have k: "(2::rat) powi k = of_int (2 ^ nat k)" using assms by (simp add: power_int_def)
  show "x \<le> 2 powi k \<Longrightarrow> round_half_even x \<le> 2 ^ nat k"
    using round_half_even_mono [of x "of_int (2 ^ nat k)"] unfolding k round_half_even_int by simp
  show "2 powi k \<le> x \<Longrightarrow> 2 ^ nat k \<le> round_half_even x"
    using round_half_even_mono [of "of_int (2 ^ nat k)" x] unfolding k round_half_even_int by simp
qed

definition rounded :: "rat \<Rightarrow> rat" where
  "rounded x = (let e = max (- 1074) (flog2 x - 52) in of_int (round_half_even (x / 2 powi e)) * 2 powi e)"

lemma rounded_mono:
  assumes "0 < x" "x \<le> y"
  shows "rounded x \<le> rounded y"
proof -
  define ex ey where "ex = max (- 1074) (flog2 x - 52)" and "ey = max (- 1074) (flog2 y - 52)"
  have le: "ex \<le> ey" using flog2_mono [OF assms] by (auto simp: ex_def ey_def)
  have r: "rounded x = of_int (round_half_even (x / 2 powi ex)) * 2 powi ex"
    "rounded y = of_int (round_half_even (y / 2 powi ey)) * 2 powi ey"
    by (simp_all add: rounded_def ex_def ey_def Let_def)
  show ?thesis
  proof (cases "ex = ey")
    case True
    have "round_half_even (x / 2 powi ey) \<le> round_half_even (y / 2 powi ey)"
      using assms by (intro round_half_even_mono divide_right_mono) auto
    then show ?thesis unfolding r True by (intro mult_right_mono) auto
  next
    case False
    define k where "k = flog2 y"
    have k: "ey = k - 52" "ex < ey" "flog2 x + 1 \<le> k" "ex \<le> k"
      using False le by (auto simp: ex_def ey_def k_def)
    have "x < 2 powi (flog2 x + 1)" using flog2_bounds [of x] assms by simp
    also have "(2::rat) powi (flog2 x + 1) \<le> 2 powi k" using k(3) by (intro power_int_increasing) auto
    finally have "x / 2 powi ex \<le> 2 powi (k - ex)" by (simp add: power_int_diff divide_right_mono)
    then have "round_half_even (x / 2 powi ex) \<le> 2 ^ nat (k - ex)"
      using round_half_even_powi(1) [of "k - ex"] k by simp
    then have "of_int (round_half_even (x / 2 powi ex)) \<le> (of_int (2 ^ nat (k - ex)) :: rat)"
      by (simp only: of_int_le_iff)
    then have "of_int (round_half_even (x / 2 powi ex)) \<le> (2::rat) powi (k - ex)"
      using k by (simp add: power_int_def)
    then have "of_int (round_half_even (x / 2 powi ex)) * 2 powi ex \<le> (2::rat) powi (k - ex) * 2 powi ex"
      by (intro mult_right_mono) auto
    then have 1: "rounded x \<le> 2 powi k" unfolding r by (simp flip: power_int_add)
    have "2 powi k \<le> y" using flog2_bounds [of y] assms by (simp add: k_def)
    then have "2 powi 52 \<le> y / 2 powi ey" by (simp add: k(1) power_int_diff field_simps)
    then have "2 ^ nat 52 \<le> round_half_even (y / 2 powi ey)"
      using round_half_even_powi(2) [of 52] by simp
    then have "(of_int (2 ^ nat 52) :: rat) \<le> of_int (round_half_even (y / 2 powi ey))"
      by (simp only: of_int_le_iff)
    then have "(2::rat) powi 52 * 2 powi ey \<le> of_int (round_half_even (y / 2 powi ey)) * 2 powi ey"
      by (intro mult_right_mono) (simp_all add: power_int_def)
    moreover have "(2::rat) powi 52 * 2 powi ey = 2 powi k"
      by (subst power_int_add [symmetric]) (simp_all add: k(1))
    ultimately have "2 powi k \<le> rounded y" unfolding r by (simp only:)
    then show ?thesis using 1 by linarith
  qed
qed

lemma fround_pos: "0 < x \<Longrightarrow> fround x = (if max_finite_bound \<le> rounded x then PInf else Fin (rounded x))"
  by (simp add: fround_def rounded_def Let_def)

lemma fround_mono:
  assumes "0 < x" "x \<le> y"
  shows "fle (fround x) (fround y)"
  using rounded_mono [OF assms] assms by (auto simp: fround_pos fle_def)

end
