(* ===== verification/SqlText.thy ===== *)
theory SqlText
  imports Float64
begin

text \<open>
  What the three query translators (\<open>pkg/promql\<close>, \<open>pkg/logql\<close>, \<open>pkg/observeql\<close>) share:
  positional SQL parameters, counting the \<open>?\<close> placeholders of a statement, and the contract of a
  function that renders one label matcher or line filter as one clause with one bound value.
\<close>

section \<open>Bound arguments and placeholders\<close>

text \<open>The dynamic types that reach \<open>Args []any\<close>.\<close>

datatype sql_arg = AStr string | ATime int | AInt int | AFloat f64

definition marks :: "string \<Rightarrow> nat" where
  "marks s = count_list s (CHR ''?'')"

lemma marks_Nil [simp]: "marks [] = 0"
  by (simp add: marks_def)

lemma marks_Cons [simp]: "marks (c # s) = (if c = CHR ''?'' then Suc (marks s) else marks s)"
  by (simp add: marks_def)

lemma marks_append [simp]: "marks (a @ b) = marks a + marks b"
  by (simp add: marks_def)

lemma marks_0: "CHR ''?'' \<notin> set s \<Longrightarrow> marks s = 0"
  by (simp add: marks_def)

lemma marks_join: "marks sep = 0 \<Longrightarrow> marks (join sep xs) = sum_list (map marks xs)"
  by (induction sep xs rule: join.induct) auto

lemma show_int_no_mark [simp]: "marks (show_int i) = 0"
  by (rule marks_0) (auto dest!: show_int_chars simp: is_digit_def)

lemma join_Cons: "xs \<noteq> [] \<Longrightarrow> join sep (x # xs) = x @ sep @ join sep xs"
  by (cases xs) auto

lemma join_snoc: "xs \<noteq> [] \<Longrightarrow> join sep (xs @ [y]) = join sep xs @ sep @ y"
  by (induction sep xs rule: join.induct) (auto simp: join_Cons)

section \<open>Rendering a predicate as a clause with one bound value\<close>

text \<open>
  The clients (the WHERE clauses of the translators) rely on two promises of such a renderer: a
  clause has exactly one placeholder, for the value returned beside it, and the clause does not
  depend on the value. Everything the callers need of a list of predicates follows.
\<close>

locale clause_renderer =
  fixes render :: "'m \<Rightarrow> 'e + string \<times> string"
    and set_value :: "(string \<Rightarrow> string) \<Rightarrow> 'm \<Rightarrow> 'm"
  assumes one_mark: "render m = Inr cv \<Longrightarrow> marks (fst cv) = 1"
    and value_free:
      "render m = Inr cv \<Longrightarrow> render (set_value f m) = Inr cv' \<Longrightarrow> fst cv' = fst cv"
begin

lemma clauses_marks:
  "mapE render ms = Inr cvs \<Longrightarrow> sum_list (map (marks \<circ> fst) cvs) = length cvs"
proof (induction ms arbitrary: cvs)
  case Nil
  then show ?case by simp
next
  case (Cons m ms)
  then show ?case by (auto simp: bindE_eq_Inr dest: one_mark)
qed

lemma where_marks:
  assumes "mapE render ms = Inr cvs" "marks sep = 0"
  shows "marks (join sep (map fst cvs)) = length (map snd cvs)"
  using clauses_marks [OF assms(1)] assms(2) by (simp add: marks_join o_def)

lemma clauses_value_free:
  "mapE render ms = Inr cvs \<Longrightarrow> mapE render (map (set_value f) ms) = Inr cvs' \<Longrightarrow>
   map fst cvs' = map fst cvs"
proof (induction ms arbitrary: cvs cvs')
  case Nil
  then show ?case by simp
next
  case (Cons m ms)
  then show ?case by (auto simp: bindE_eq_Inr dest: value_free)
qed

end

end
