(* ===== verification/PromLex.thy ===== *)
theory PromLex
  imports SqlText
begin

text \<open>
  \<open>pkg/promql/lex.go\<close>: the PromQL tokenizer. The Go loop keeps an index into the source; the
  model recurses on the remaining bytes and carries the index for the token positions.
\<close>

section \<open>Tokens\<close>

datatype tok_kind =
  TkIdent | TkNumber | TkString | TkLBrace | TkRBrace | TkLParen | TkRParen | TkLBracket
| TkRBracket | TkComma | TkEq | TkNeq | TkRegexMat | TkRegexNoMt | TkPlus | TkMinus | TkStar
| TkSlash | TkBy | TkWithout | TkDuration | TkGt | TkLt | TkGte | TkLte | TkEqCmp

record token =
  tok_kind :: tok_kind
  tok_val :: string
  tok_pos :: nat

definition mk_tok :: "tok_kind \<Rightarrow> string \<Rightarrow> nat \<Rightarrow> token" where
  "mk_tok k v p = \<lparr>tok_kind = k, tok_val = v, tok_pos = p\<rparr>"

datatype str_error = ExpectedString | DanglingEscape | UnterminatedString

datatype lex_error = BadString nat str_error | BareBang nat | Unexpected nat char

section \<open>Character classes\<close>

definition isIdentStart :: "char \<Rightarrow> bool" where
  "isIdentStart c \<longleftrightarrow> c = CHR ''_'' \<or> is_lower c \<or> is_upper c"

definition isDigit :: "char \<Rightarrow> bool" where
  "isDigit c \<longleftrightarrow> is_digit c"

definition isIdentCont :: "char \<Rightarrow> bool" where
  "isIdentCont c \<longleftrightarrow> isIdentStart c \<or> isDigit c \<or> c = CHR '':''"

definition isDurationUnit :: "string \<Rightarrow> bool" where
  "isDurationUnit s \<longleftrightarrow> s \<in> {''ms'', ''s'', ''m'', ''h'', ''d'', ''w'', ''y''}"

definition is_blank :: "char \<Rightarrow> bool" where
  "is_blank c \<longleftrightarrow> (of_char c :: nat) \<in> {32, 9, 10, 13}"

section \<open>Strings, numbers, identifiers\<close>

definition unescape :: "char \<Rightarrow> char" where
  "unescape c = (if c = CHR ''n'' then char_of (10 :: nat)
                 else if c = CHR ''t'' then char_of (9 :: nat) else c)"

text \<open>The loop of \<open>readString\<close> from index \<open>i\<close> with the bytes still to read and the builder.\<close>

fun readString_loop :: "string \<Rightarrow> nat \<Rightarrow> string \<Rightarrow> str_error + string \<times> nat" where
  "readString_loop [] i b = Inl UnterminatedString"
| "readString_loop (c # cs) i b =
     (if c = quote_char then Inr (b, i + 1)
      else if c = backslash then
        (case cs of [] \<Rightarrow> Inl DanglingEscape
         | d # ds \<Rightarrow> readString_loop ds (i + 2) (b @ [unescape d]))
      else readString_loop cs (i + 1) (b @ [c]))"

definition readString :: "string \<Rightarrow> str_error + string \<times> nat" where
  "readString src =
     (if length src < 2 \<or> src ! 0 \<noteq> quote_char then Inl ExpectedString
      else readString_loop (drop 1 src) 1 [])"

definition readNumber :: "string \<Rightarrow> string \<times> nat" where
  "readNumber src =
     (let s = takeWhile (\<lambda>c. isDigit c \<or> c = CHR ''.'') src in (s, length s))"

definition readIdent :: "string \<Rightarrow> string \<times> nat" where
  "readIdent src = (let s = takeWhile isIdentCont src in (s, length s))"

section \<open>The tokenizer\<close>

definition single_tok :: "char \<Rightarrow> tok_kind option" where
  "single_tok c =
     (if c = CHR ''{'' then Some TkLBrace
      else if c = CHR ''}'' then Some TkRBrace
      else if c = CHR ''('' then Some TkLParen
      else if c = CHR '')'' then Some TkRParen
      else if c = CHR ''['' then Some TkLBracket
      else if c = CHR '']'' then Some TkRBracket
      else if c = CHR '','' then Some TkComma
      else if c = CHR ''+'' then Some TkPlus
      else if c = CHR ''-'' then Some TkMinus
      else if c = CHR ''*'' then Some TkStar
      else if c = CHR ''/'' then Some TkSlash
      else None)"

definition starts_with :: "string \<Rightarrow> char \<Rightarrow> bool" where
  "starts_with cs c \<longleftrightarrow> (case cs of d # _ \<Rightarrow> d = c | [] \<Rightarrow> False)"

definition ident_kind :: "string \<Rightarrow> tok_kind" where
  "ident_kind s = (if s = ''by'' then TkBy else if s = ''without'' then TkWithout else TkIdent)"

text \<open>
  One turn of the switch: \<open>Inr (Some (t, n))\<close> emits \<open>t\<close> and consumes \<open>n\<close> bytes, \<open>Inr None\<close>
  skips one blank. The operators of one and two characters are tried in the source's order.
\<close>

definition lex_step :: "nat \<Rightarrow> char \<Rightarrow> string \<Rightarrow> lex_error + (token \<times> nat) option" where
  "lex_step i c cs =
     (if is_blank c then Inr None
      else if c = quote_char then
        (case readString (c # cs) of
           Inl e \<Rightarrow> Inl (BadString i e)
         | Inr (s, n) \<Rightarrow> Inr (Some (mk_tok TkString s i, n)))
      else if c = CHR ''!'' then
        (if starts_with cs (CHR ''='') then Inr (Some (mk_tok TkNeq ''!='' i, 2))
         else if starts_with cs (CHR ''~'') then Inr (Some (mk_tok TkRegexNoMt ''!~'' i, 2))
         else Inl (BareBang i))
      else if c = CHR ''='' then
        (if starts_with cs (CHR ''='') then Inr (Some (mk_tok TkEqCmp ''=='' i, 2))
         else if starts_with cs (CHR ''~'') then Inr (Some (mk_tok TkRegexMat ''=~'' i, 2))
         else Inr (Some (mk_tok TkEq ''='' i, 1)))
      else if c = CHR ''>'' then
        (if starts_with cs (CHR ''='') then Inr (Some (mk_tok TkGte ''>='' i, 2))
         else Inr (Some (mk_tok TkGt ''>'' i, 1)))
      else if c = CHR ''<'' then
        (if starts_with cs (CHR ''='') then Inr (Some (mk_tok TkLte ''<='' i, 2))
         else Inr (Some (mk_tok TkLt ''<'' i, 1)))
      else
        (case single_tok c of
           Some k \<Rightarrow> Inr (Some (mk_tok k [c] i, 1))
         | None \<Rightarrow>
             if isDigit c \<or> (c = CHR ''.'' \<and> (case cs of d # _ \<Rightarrow> isDigit d | [] \<Rightarrow> False)) then
               (let (s, n) = readNumber (c # cs) in Inr (Some (mk_tok TkNumber s i, n)))
             else if isIdentStart c then
               (let (s, n) = readIdent (c # cs) in Inr (Some (mk_tok (ident_kind s) s i, n)))
             else Inl (Unexpected i c)))"

fun lex_loop :: "nat \<Rightarrow> string \<Rightarrow> lex_error + token list" where
  "lex_loop i [] = Inr []"
| "lex_loop i (c # cs) =
     (case lex_step i c cs of
        Inl e \<Rightarrow> Inl e
      | Inr None \<Rightarrow> lex_loop (i + 1) cs
      | Inr (Some (t, n)) \<Rightarrow> bindE (lex_loop (i + n) (drop (n - 1) cs)) (\<lambda>ts. Inr (t # ts)))"

fun foldDurations :: "token list \<Rightarrow> token list" where
  "foldDurations [] = []"
| "foldDurations [t] = [t]"
| "foldDurations (t # u # ts) =
     (if tok_kind t = TkNumber \<and> tok_kind u = TkIdent \<and> isDurationUnit (tok_val u)
      then mk_tok TkDuration (tok_val t @ tok_val u) (tok_pos t) # foldDurations ts
      else t # foldDurations (u # ts))"

definition tokenize :: "string \<Rightarrow> lex_error + token list" where
  "tokenize src = bindE (lex_loop 0 src) (\<lambda>ts. Inr (foldDurations ts))"

section \<open>Quoting and unquoting\<close>

text \<open>The literal a client writes for a string: backslash and quote escaped.\<close>

fun escape :: "string \<Rightarrow> string" where
  "escape [] = []"
| "escape (c # cs) =
     (if c = quote_char \<or> c = backslash then backslash # c # escape cs else c # escape cs)"

definition quote :: "string \<Rightarrow> string" where
  "quote s = quote_char # escape s @ [quote_char]"

lemma unescape_special [simp]: "unescape quote_char = quote_char" "unescape backslash = backslash"
  by code_simp+

lemma readString_loop_escape:
  "readString_loop (escape s @ quote_char # rest) i b
   = Inr (b @ s, i + length (escape s) + 1)"
proof (induction s arbitrary: i b)
  case Nil
  then show ?case by simp
next
  case (Cons c s)
  then show ?case by (auto simp: algebra_simps)
qed

lemma readString_quote: "readString (quote s @ rest) = Inr (s, length (quote s))"
  by (simp add: readString_def quote_def readString_loop_escape)

end
