(* ===== verification/PromParse.thy ===== *)
theory PromParse
  imports PromLex
begin

text \<open>
  \<open>pkg/promql/parser.go\<close>: the recursive-descent parser. Go's parser state is a token slice and a
  position that only moves forward; the model passes the remaining tokens. The recursion through
  parentheses and call arguments is bounded by fuel; \<open>parse_okr\<close> shows how much is
  enough, so the top-level \<open>parse\<close> never runs out.
\<close>

section \<open>Abstract syntax\<close>

datatype matcherOp = MatchEq | MatchNeq | MatchRegex | MatchNotRegex

record matcher =
  m_name :: string
  m_op :: matcherOp
  m_val :: string

record vectorSelector =
  vs_metric :: string
  vs_matches :: "matcher list"

text \<open>\<open>Aggr op arg by without phi\<close>; \<open>Bin op left right\<close>.\<close>

datatype node =
  VectorSel vectorSelector
| RangeSel vectorSelector int string
| Call string "node list"
| Aggr string node "string list" "string list" "f64 option"
| NumLit f64
| Bin string node node

datatype parse_error =
  PFuel
| PUnexpectedEOF
| PExpectedEOF tok_kind
| PExpected tok_kind token
| PBadNumber token
| PUnexpectedToken token
| PQuantileArity nat
| PQuantilePhi
| PAggrArity string nat
| PUnterminatedMatchers
| PExpectedMatcherOp
| PBadMatcherOp token
| PExpectedDuration
| PBadDuration string

section \<open>Numbers and durations\<close>

fun digits_value :: "nat \<Rightarrow> string \<Rightarrow> nat" where
  "digits_value a [] = a"
| "digits_value a (c # cs) = digits_value (10 * a + (of_char c - 48)) cs"

text \<open>\<open>strconv.ParseFloat\<close> on the strings the lexer passes, which consist of digits and dots: at
  most one dot, at least one digit, and an error when the value overflows.\<close>

definition parse_decimal :: "string \<Rightarrow> f64 option" where
  "parse_decimal s =
     (let ip = takeWhile is_digit s; r = dropWhile is_digit s; fp = drop 1 r
      in if (r = [] \<or> (hd r = CHR ''.'' \<and> list_all is_digit fp)) \<and> (ip \<noteq> [] \<or> fp \<noteq> [])
         then (case fround (of_nat (digits_value 0 (ip @ fp)) / 10 ^ length fp) of
                 Fin x \<Rightarrow> Some (Fin x) | _ \<Rightarrow> None)
         else None)"

definition unit_mult :: "string \<Rightarrow> int option" where
  "unit_mult u =
     (if u = ''ms'' then Some millisecond
      else if u = ''s'' then Some second
      else if u = ''m'' then Some minute
      else if u = ''h'' then Some hour
      else if u = ''d'' then Some (24 * hour)
      else if u = ''w'' then Some (7 * 24 * hour)
      else if u = ''y'' then Some (365 * 24 * hour)
      else None)"

definition parseDuration :: "string \<Rightarrow> int option" where
  "parseDuration s =
     (if length s < 2 then None
      else
        let u = (if has_suffix s ''ms'' then ''ms'' else drop (length s - 1) s);
            numStr = take (length s - length u) s
        in case parse_decimal numStr of
             None \<Rightarrow> None
           | Some n \<Rightarrow> map_option (\<lambda>mult. to_int64 (fmul (of_int64 mult) n)) (unit_mult u))"

section \<open>Selectors\<close>

definition expect :: "tok_kind \<Rightarrow> token list \<Rightarrow> parse_error + token \<times> token list" where
  "expect k ts =
     (case ts of [] \<Rightarrow> Inl (PExpectedEOF k)
      | t # r \<Rightarrow> if tok_kind t = k then Inr (t, r) else Inl (PExpected k t))"

lemma expect_Inr: "expect k ts = Inr (t, r) \<longleftrightarrow> ts = t # r \<and> tok_kind t = k"
  by (cases ts) (auto simp: expect_def)

lemma expect_Cons [simp]: "tok_kind t = k \<Longrightarrow> expect k (t # r) = Inr (t, r)"
  by (simp add: expect_def)

definition matcher_op :: "tok_kind \<Rightarrow> matcherOp option" where
  "matcher_op k =
     (case k of TkEq \<Rightarrow> Some MatchEq | TkNeq \<Rightarrow> Some MatchNeq | TkRegexMat \<Rightarrow> Some MatchRegex
      | TkRegexNoMt \<Rightarrow> Some MatchNotRegex | _ \<Rightarrow> None)"

definition skip_comma :: "token list \<Rightarrow> token list" where
  "skip_comma ts = (case ts of t # r \<Rightarrow> if tok_kind t = TkComma then r else ts | [] \<Rightarrow> [])"

lemma length_skip_comma: "length (skip_comma ts) \<le> length ts"
  by (auto simp: skip_comma_def split: list.splits)

text \<open>The matcher loop of \<open>parseSelectorTail\<close>, after the opening brace.\<close>

function parseMatchers ::
  "token list \<Rightarrow> matcher list \<Rightarrow> parse_error + matcher list \<times> token list" where
  "parseMatchers ts ms =
     (case ts of [] \<Rightarrow> Inl PUnterminatedMatchers
      | t # r \<Rightarrow>
          if tok_kind t = TkRBrace then Inr (ms, r)
          else bindE (expect TkIdent ts) (\<lambda>(name, r1).
            case r1 of [] \<Rightarrow> Inl PExpectedMatcherOp
            | opT # r2 \<Rightarrow>
                (case matcher_op (tok_kind opT) of None \<Rightarrow> Inl (PBadMatcherOp opT)
                 | Some op \<Rightarrow> bindE (expect TkString r2) (\<lambda>(val, r3).
                     parseMatchers (skip_comma r3)
                       (ms @ [\<lparr>m_name = tok_val name, m_op = op, m_val = tok_val val\<rparr>])))))"
  by pat_completeness auto
termination
proof (relation "measure (\<lambda>(ts, ms). length ts)", goal_cases)
  case 1
  show ?case by simp
next
  case (2 ts ms t r p name r1 opT r2 op q val r3)
  then show ?case
    using length_skip_comma [of r3] by (auto simp: expect_Inr)
qed

declare parseMatchers.simps [simp del]

definition parseSelectorTail :: "token list \<Rightarrow> string \<Rightarrow> parse_error + node \<times> token list" where
  "parseSelectorTail ts metric =
     bindE (case ts of t # r \<Rightarrow>
              if tok_kind t = TkLBrace then parseMatchers r [] else Inr ([], ts)
            | [] \<Rightarrow> Inr ([], []))
       (\<lambda>(ms, r1).
          let vs = \<lparr>vs_metric = metric, vs_matches = ms\<rparr> in
          case r1 of
            t # r2 \<Rightarrow>
              if tok_kind t = TkLBracket then
                (case r2 of [] \<Rightarrow> Inl PExpectedDuration
                 | dt # r3 \<Rightarrow>
                     if tok_kind dt \<noteq> TkDuration then Inl PExpectedDuration
                     else bindE (expect TkRBracket r3) (\<lambda>(_, r4).
                       case parseDuration (tok_val dt) of
                         None \<Rightarrow> Inl (PBadDuration (tok_val dt))
                       | Some d \<Rightarrow> Inr (RangeSel vs d (tok_val dt), r4)))
              else Inr (VectorSel vs, r1)
          | [] \<Rightarrow> Inr (VectorSel vs, r1))"

section \<open>Calls and aggregations\<close>

definition isAggrName :: "string \<Rightarrow> bool" where
  "isAggrName s \<longleftrightarrow> s \<in> {''sum'', ''avg'', ''min'', ''max'', ''count'', ''quantile''}"

text \<open>The argument check of an aggregation: the argument and, for \<open>quantile\<close>, phi.\<close>

definition aggr_args :: "string \<Rightarrow> node list \<Rightarrow> parse_error + node \<times> f64 option" where
  "aggr_args name args =
     (if name = ''quantile'' then
        (if length args \<noteq> 2 then Inl (PQuantileArity (length args))
         else case args ! 0 of NumLit v \<Rightarrow> Inr (args ! 1, Some v) | _ \<Rightarrow> Inl PQuantilePhi)
      else if length args \<noteq> 1 then Inl (PAggrArity name (length args))
      else Inr (args ! 0, None))"

text \<open>The label list of a \<open>by\<close> or \<open>without\<close> modifier, after the opening parenthesis.\<close>

fun parseLabels :: "token list \<Rightarrow> string list \<Rightarrow> parse_error + string list \<times> token list" where
  "parseLabels [] labs = Inl (PExpectedEOF TkIdent)"
| "parseLabels (t # r) labs =
     (if tok_kind t \<noteq> TkIdent then Inl (PExpected TkIdent t)
      else
        (case r of
           c # r' \<Rightarrow>
             if tok_kind c = TkComma then parseLabels r' (labs @ [tok_val t])
             else Inr (labs @ [tok_val t], r)
         | [] \<Rightarrow> Inr (labs @ [tok_val t], r)))"

definition parseModifier ::
  "token list \<Rightarrow> parse_error + (string list \<times> string list) \<times> token list" where
  "parseModifier ts =
     (case ts of
        t # r \<Rightarrow>
          if tok_kind t = TkBy \<or> tok_kind t = TkWithout then
            bindE (expect TkLParen r) (\<lambda>(_, r1).
            bindE (parseLabels r1 []) (\<lambda>(labs, r2).
            bindE (expect TkRParen r2) (\<lambda>(_, r3).
              Inr (if tok_kind t = TkBy then (labs, []) else ([], labs), r3))))
          else Inr (([], []), ts)
      | [] \<Rightarrow> Inr (([], []), ts))"

definition finishCall :: "string \<Rightarrow> node list \<Rightarrow> token list \<Rightarrow> parse_error + node \<times> token list" where
  "finishCall name args ts =
     (if isAggrName name then
        bindE (aggr_args name args) (\<lambda>(arg, phi).
        bindE (parseModifier ts) (\<lambda>((by_labels, without_labels), r).
          Inr (Aggr name arg by_labels without_labels phi, r)))
      else Inr (Call name args, ts))"

section \<open>Expressions\<close>

definition is_cmp_kind :: "tok_kind \<Rightarrow> bool" where
  "is_cmp_kind k \<longleftrightarrow> k \<in> {TkGt, TkLt, TkGte, TkLte, TkEqCmp, TkNeq}"

text \<open>
  The nonterminals call each other through \<open>parseExpr\<close> only (parentheses and arguments), so each
  takes the parser for a sub-expression as its first argument, and \<open>parseExpr\<close> ties the knot.
  The loops carry a bound on their turns.
\<close>

type_synonym 'a tparser = "token list \<Rightarrow> parse_error + 'a \<times> token list"

fun parseArgs :: "node tparser \<Rightarrow> nat \<Rightarrow> node list tparser" where
  "parseArgs pe 0 ts = Inl PFuel"
| "parseArgs pe (Suc n) ts =
     bindE (pe ts) (\<lambda>(a, r).
       case r of
         t # r' \<Rightarrow>
           if tok_kind t = TkComma
           then bindE (parseArgs pe n r') (\<lambda>(as, r2). Inr (a # as, r2))
           else Inr ([a], r)
       | [] \<Rightarrow> Inr ([a], r))"

text \<open>The argument list of \<open>parseCallOrAggr\<close>: empty before a closing parenthesis.\<close>

definition parseArgList :: "node tparser \<Rightarrow> node list tparser" where
  "parseArgList pe r =
     (case r of
        t # _ \<Rightarrow> if tok_kind t = TkRParen then Inr ([], r) else parseArgs pe (Suc (length r)) r
      | [] \<Rightarrow> parseArgs pe (Suc (length r)) r)"

definition parseCallOrAggr :: "node tparser \<Rightarrow> string \<Rightarrow> node tparser" where
  "parseCallOrAggr pe name ts =
     bindE (expect TkLParen ts) (\<lambda>(_, r).
     bindE (parseArgList pe r) (\<lambda>(args, r1).
     bindE (expect TkRParen r1) (\<lambda>(_, r2). finishCall name args r2)))"

definition parseIdentLike :: "node tparser \<Rightarrow> node tparser" where
  "parseIdentLike pe ts =
     (case ts of
        [] \<Rightarrow> Inl PUnexpectedEOF
      | name # r \<Rightarrow>
          (case r of
             nxt # _ \<Rightarrow>
               if tok_kind nxt = TkLParen then parseCallOrAggr pe (tok_val name) r
               else parseSelectorTail r (tok_val name)
           | [] \<Rightarrow> parseSelectorTail r (tok_val name)))"

definition parsePrimary :: "node tparser \<Rightarrow> node tparser" where
  "parsePrimary pe ts =
     (case ts of
        [] \<Rightarrow> Inl PUnexpectedEOF
      | t # r \<Rightarrow>
          if tok_kind t = TkNumber then
            (case parse_decimal (tok_val t) of
               None \<Rightarrow> Inl (PBadNumber t) | Some f \<Rightarrow> Inr (NumLit f, r))
          else if tok_kind t = TkLParen then
            bindE (pe r) (\<lambda>(inner, r1).
            bindE (expect TkRParen r1) (\<lambda>(_, r2). Inr (inner, r2)))
          else if tok_kind t = TkIdent then parseIdentLike pe ts
          else Inl (PUnexpectedToken t))"

text \<open>The shared shape of \<open>parseBinMul\<close> and \<open>parseBinAdd\<close>: operands of one level, joined to the
  left while the next token is one of the level's two operators.\<close>

fun binLoop :: "(tok_kind \<Rightarrow> bool) \<Rightarrow> node tparser \<Rightarrow> nat \<Rightarrow> node \<Rightarrow> node tparser" where
  "binLoop isop sub 0 left ts = Inl PFuel"
| "binLoop isop sub (Suc n) left ts =
     (case ts of
        t # r \<Rightarrow>
          if isop (tok_kind t)
          then bindE (sub r) (\<lambda>(right, r2). binLoop isop sub n (Bin (tok_val t) left right) r2)
          else Inr (left, ts)
      | [] \<Rightarrow> Inr (left, ts))"

definition is_mul_kind :: "tok_kind \<Rightarrow> bool" where
  "is_mul_kind k \<longleftrightarrow> k = TkStar \<or> k = TkSlash"

definition is_add_kind :: "tok_kind \<Rightarrow> bool" where
  "is_add_kind k \<longleftrightarrow> k = TkPlus \<or> k = TkMinus"

definition parseBinMul :: "node tparser \<Rightarrow> node tparser" where
  "parseBinMul pe ts =
     bindE (parsePrimary pe ts) (\<lambda>(left, r).
       binLoop is_mul_kind (parsePrimary pe) (Suc (length r)) left r)"

definition parseBinAdd :: "node tparser \<Rightarrow> node tparser" where
  "parseBinAdd pe ts =
     bindE (parseBinMul pe ts) (\<lambda>(left, r).
       binLoop is_add_kind (parseBinMul pe) (Suc (length r)) left r)"

definition parseBinCmp :: "node tparser \<Rightarrow> node tparser" where
  "parseBinCmp pe ts =
     bindE (parseBinAdd pe ts) (\<lambda>(left, r).
       case r of
         t # r' \<Rightarrow>
           if is_cmp_kind (tok_kind t)
           then bindE (parseBinAdd pe r') (\<lambda>(right, r2). Inr (Bin (tok_val t) left right, r2))
           else Inr (left, r)
       | [] \<Rightarrow> Inr (left, r))"

fun parseExpr :: "nat \<Rightarrow> node tparser" where
  "parseExpr 0 ts = Inl PFuel"
| "parseExpr (Suc k) ts = parseBinCmp (parseExpr k) ts"

definition parse :: "node tparser" where
  "parse ts = parseExpr (Suc (length ts)) ts"

section \<open>Every successful parser consumes input, and the fuel suffices\<close>

text \<open>\<open>okr n res\<close>: \<open>res\<close> is not an exhausted parse, and a success leaves fewer than \<open>n\<close> tokens.\<close>

definition okr :: "nat \<Rightarrow> parse_error + 'a \<times> token list \<Rightarrow> bool" where
  "okr n res \<longleftrightarrow> res \<noteq> Inl PFuel \<and> (\<forall>x r. res = Inr (x, r) \<longrightarrow> length r < n)"

lemma okr_Inl [simp]: "okr n (Inl e) \<longleftrightarrow> e \<noteq> PFuel"
  by (auto simp: okr_def)

lemma okr_Inr [simp]: "okr n (Inr (x, r)) \<longleftrightarrow> length r < n"
  by (auto simp: okr_def)

lemma okr_mono: "okr m res \<Longrightarrow> m \<le> n \<Longrightarrow> okr n res"
  by (auto simp: okr_def)

lemma okr_bind:
  "okr a m \<Longrightarrow> (\<And>x r. length r < a \<Longrightarrow> m = Inr (x, r) \<Longrightarrow> okr b (f (x, r))) \<Longrightarrow> okr b (bindE m f)"
  by (cases m) (auto simp: okr_def)

lemma okr_expect: "okr (length ts) (expect k ts) \<or> ts = []"
  by (cases ts) (auto simp: expect_def)

lemma okr_bind_expect:
  "(\<And>t r. ts = t # r \<Longrightarrow> tok_kind t = k \<Longrightarrow> okr b (f (t, r))) \<Longrightarrow> okr b (bindE (expect k ts) f)"
  by (cases ts) (auto simp: expect_def)

text \<open>A parser is good below \<open>n\<close> when every call on fewer than \<open>n\<close> tokens consumes some.\<close>

definition good :: "nat \<Rightarrow> 'a tparser \<Rightarrow> bool" where
  "good n p \<longleftrightarrow> (\<forall>ts. length ts < n \<longrightarrow> okr (length ts) (p ts))"

lemma goodD: "good n p \<Longrightarrow> length ts < n \<Longrightarrow> okr (length ts) (p ts)"
  by (simp add: good_def)

lemma parseMatchers_okr: "okr (length ts) (parseMatchers ts ms)"
proof (induction ts ms rule: parseMatchers.induct)
  case (1 ts ms)
  show ?case
  proof (cases ts)
    case Nil
    then show ?thesis by (subst parseMatchers.simps) simp
  next
    case (Cons t r)
    have IH: "tok_kind t \<noteq> TkRBrace \<Longrightarrow> tok_kind t = TkIdent \<Longrightarrow> r = opT # v # r3 \<Longrightarrow>
        matcher_op (tok_kind opT) = Some op \<Longrightarrow> tok_kind v = TkString \<Longrightarrow>
        okr (length ts) (parseMatchers (skip_comma r3)
          (ms @ [\<lparr>m_name = tok_val t, m_op = op, m_val = tok_val v\<rparr>]))" for opT v r3 op
      using length_skip_comma [of r3] Cons
      by (intro okr_mono [OF "1.IH" [of t r "(t, r)" t r opT "v # r3" op "(v, r3)" v r3]]) auto
    show ?thesis
      using IH Cons
      by (subst parseMatchers.simps)
        (auto split: list.split option.split intro!: okr_bind_expect)
  qed
qed

lemma parseSelectorTail_okr: "okr (Suc (length ts)) (parseSelectorTail ts m)"
proof -
  have "okr (Suc (length ts)) (case ts of t # r \<Rightarrow>
              if tok_kind t = TkLBrace then parseMatchers r [] else Inr ([], ts)
            | [] \<Rightarrow> Inr ([], []))"
    by (auto split: list.split intro: okr_mono [OF parseMatchers_okr])
  then show ?thesis
    unfolding parseSelectorTail_def
    by (rule okr_bind)
      (auto simp: Let_def split: list.split option.split intro!: okr_bind_expect)
qed

lemma parseLabels_okr: "okr (Suc (length ts)) (parseLabels ts labs)"
proof (induction ts labs rule: parseLabels.induct)
  case (1 labs)
  then show ?case by simp
next
  case (2 t r labs)
  show ?case
  proof (cases r)
    case Nil
    then show ?thesis by simp
  next
    case (Cons c r')
    then show ?thesis using 2 by (auto intro: okr_mono)
  qed
qed

lemma parseModifier_okr: "okr (Suc (length ts)) (parseModifier ts)"
  unfolding parseModifier_def
  by (auto split: list.split
      intro!: okr_bind_expect okr_bind [OF parseLabels_okr])

lemma aggr_args_no_fuel: "aggr_args name args = Inl e \<Longrightarrow> e \<noteq> PFuel"
  by (auto simp: aggr_args_def split: if_splits node.splits)

lemma finishCall_okr: "okr (Suc (length ts)) (finishCall name args ts)"
proof (cases "isAggrName name")
  case False
  then show ?thesis by (simp add: finishCall_def)
next
  case True
  show ?thesis
  proof (cases "aggr_args name args")
    case (Inl e)
    with True show ?thesis by (simp add: finishCall_def aggr_args_no_fuel)
  next
    case (Inr ap)
    with True show ?thesis
      by (auto simp: finishCall_def split: prod.split intro!: okr_bind [OF parseModifier_okr])
  qed
qed

lemma parseArgs_okr:
  "good n pe \<Longrightarrow> length ts < n \<Longrightarrow> length ts < m \<Longrightarrow> okr (length ts) (parseArgs pe m ts)"
proof (induction m arbitrary: ts)
  case 0
  then show ?case by simp
next
  case (Suc m)
  have rec: "okr (length ts) (parseArgs pe m r')" if "Suc (length r') < length ts" for r'
    using Suc that by (intro okr_mono [OF Suc.IH]) auto
  show ?case
    using goodD [OF Suc.prems(1,2)]
    by (auto split: list.split intro!: okr_bind okr_bind [OF rec])
qed

lemma parseArgList_okr:
  assumes "good n pe" "length r < n"
  shows "okr (Suc (length r)) (parseArgList pe r)"
  using parseArgs_okr [OF assms, of "Suc (length r)"]
  by (auto simp: parseArgList_def split: list.split intro: okr_mono simp del: parseArgs.simps)

lemma parseCallOrAggr_okr:
  assumes "good n pe" "length ts \<le> n"
  shows "okr (length ts) (parseCallOrAggr pe name ts)"
  unfolding parseCallOrAggr_def
  using assms
  by (auto intro!: okr_bind_expect okr_bind [OF parseArgList_okr] okr_mono [OF finishCall_okr])

lemma parseIdentLike_okr:
  assumes "good n pe" "length ts \<le> n"
  shows "okr (length ts) (parseIdentLike pe ts)"
proof (cases ts)
  case Nil
  then show ?thesis by (simp add: parseIdentLike_def)
next
  case (Cons t r)
  then have "okr (length r) (parseCallOrAggr pe (tok_val t) r)"
    using assms by (intro parseCallOrAggr_okr) auto
  then show ?thesis
    using parseSelectorTail_okr [of r] Cons
    by (auto simp: parseIdentLike_def split: list.split intro: okr_mono)
qed

lemma parsePrimary_okr:
  assumes "good n pe" "length ts \<le> n"
  shows "okr (length ts) (parsePrimary pe ts)"
proof (cases ts)
  case Nil
  then show ?thesis by (simp add: parsePrimary_def)
next
  case (Cons t r)
  then have "okr (length r) (pe r)" using assms by (intro goodD) auto
  then show ?thesis
    using parseIdentLike_okr [OF assms] Cons
    by (auto simp: parsePrimary_def split: option.split intro!: okr_bind okr_bind_expect)
qed

lemma binLoop_okr:
  "(\<And>us. length us < n \<Longrightarrow> okr (length us) (sub us)) \<Longrightarrow> length ts < n \<Longrightarrow> length ts < m \<Longrightarrow>
   okr (Suc (length ts)) (binLoop isop sub m left ts)"
proof (induction m arbitrary: ts left)
  case 0
  then show ?case by simp
next
  case (Suc m)
  show ?case
  proof (cases ts)
    case Nil
    then show ?thesis by simp
  next
    case (Cons t r)
    have "okr (length r) (sub r)" using Suc.prems Cons by auto
    moreover have "okr (Suc (length ts)) (binLoop isop sub m l r2)" if "length r2 < length r" for l r2
      using Suc.prems Cons that by (intro okr_mono [OF Suc.IH]) auto
    ultimately show ?thesis
      using Cons by (auto intro!: okr_bind simp del: binLoop.simps simp: binLoop.simps(2))
  qed
qed

lemma binLevel_okr:
  assumes sub: "\<And>us. length us \<le> n \<Longrightarrow> okr (length us) (sub us)" and "length ts \<le> n"
  shows "okr (length ts)
    (bindE (sub ts) (\<lambda>(left, r). binLoop isop sub (Suc (length r)) left r))"
proof (rule okr_bind [OF sub [OF assms(2)]], simp only: prod.case)
  fix x :: node and r :: "token list"
  assume r: "length r < length ts"
  have "okr (Suc (length r)) (binLoop isop sub (Suc (length r)) x r)"
    using assms r by (intro binLoop_okr [where n = "Suc n"]) auto
  then show "okr (length ts) (binLoop isop sub (Suc (length r)) x r)"
    using r by (auto intro: okr_mono simp del: binLoop.simps)
qed

lemma parseBinMul_okr:
  "good n pe \<Longrightarrow> length ts \<le> n \<Longrightarrow> okr (length ts) (parseBinMul pe ts)"
  unfolding parseBinMul_def by (rule binLevel_okr [OF parsePrimary_okr]) auto

lemma parseBinAdd_okr:
  "good n pe \<Longrightarrow> length ts \<le> n \<Longrightarrow> okr (length ts) (parseBinAdd pe ts)"
  unfolding parseBinAdd_def by (rule binLevel_okr [OF parseBinMul_okr]) auto

lemma parseBinCmp_okr:
  assumes "good n pe" "length ts \<le> n"
  shows "okr (length ts) (parseBinCmp pe ts)"
  unfolding parseBinCmp_def
proof (rule okr_bind [OF parseBinAdd_okr [OF assms]], simp only: prod.case)
  fix x :: node and r :: "token list"
  assume r: "length r < length ts"
  have "okr (length r') (parseBinAdd pe r')" if "r = t # r'" for t r'
    using assms r that by (intro parseBinAdd_okr) auto
  with r show "okr (length ts) (case r of
         t # r' \<Rightarrow>
           if is_cmp_kind (tok_kind t)
           then bindE (parseBinAdd pe r') (\<lambda>(right, r2). Inr (Bin (tok_val t) x right, r2))
           else Inr (x, r)
       | [] \<Rightarrow> Inr (x, r))"
    by (auto split: list.split intro!: okr_bind)
qed

lemma parseExpr_good: "good k (parseExpr k)"
proof (induction k)
  case 0
  then show ?case by (simp add: good_def)
next
  case (Suc k)
  then show ?case by (auto simp: good_def intro!: parseBinCmp_okr [OF Suc])
qed

lemma parse_okr: "okr (length ts) (parse ts)"
  using goodD [OF parseExpr_good, of ts "Suc (length ts)"] by (simp only: parse_def)

end
