(* ===== verification/PromLower.thy ===== *)
theory PromLower
  imports PromParse
begin

text \<open>
  \<open>pkg/promql/translate.go\<close> and \<open>promql.go\<close>: lowering the syntax tree to one ClickHouse statement
  with positional arguments. Two library functions are parameters: \<open>re_ok\<close>, whether
  \<open>regexp.Compile\<close> accepts a pattern, and \<open>fmtg\<close>, the \<open>%g\<close> format of a \<open>float64\<close>.
\<close>

section \<open>Results and errors\<close>

record prom_result =
  pr_sql :: string
  pr_args :: "sql_arg list"
  pr_labels :: "string list"

datatype lower_error =
  LUnsupportedTop
| LUnsupportedAggr string
| LUnsupportedFunc string
| LUnsupportedBin string
| LVectorVector
| LNoSelector
| LQuantileNoPhi
| LArity string
| LNeedsRange string
| LPhiLiteral
| LBadRegex string

text \<open>The request; \<open>None\<close> is the zero \<open>time.Time\<close>, times and the step are in nanoseconds.\<close>

record query_params =
  qp_query :: string
  qp_start :: "int option"
  qp_end :: "int option"
  qp_step :: int

text \<open>The bounds after defaulting.\<close>

record query_bounds =
  qb_start :: int
  qb_end :: int
  qb_step :: int

section \<open>Names in SQL\<close>

definition rune_safe :: "nat \<Rightarrow> bool" where
  "rune_safe r \<longleftrightarrow>
     (97 \<le> r \<and> r \<le> 122) \<or> (65 \<le> r \<and> r \<le> 90) \<or> (48 \<le> r \<and> r \<le> 57) \<or> r = 95 \<or> r = 45 \<or> r = 46"

definition sqlEscape :: "string \<Rightarrow> string" where
  "sqlEscape s = (if list_all rune_safe (runes s) then s else ''INVALID'')"

definition rune_word :: "nat \<Rightarrow> bool" where
  "rune_word r \<longleftrightarrow>
     (97 \<le> r \<and> r \<le> 122) \<or> (65 \<le> r \<and> r \<le> 90) \<or> (48 \<le> r \<and> r \<le> 57) \<or> r = 95"

definition labelCol :: "string \<Rightarrow> string" where
  "labelCol label =
     ''lbl_'' @ map (\<lambda>r. if rune_word r then char_of r else CHR ''_'') (runes label)"

text \<open>A single quote; \<open>attr_col k\<close> is the text \<open>attributes['k']\<close>.\<close>

definition sq :: string where
  "sq = [char_of (39 :: nat)]"

definition attr_col :: "string \<Rightarrow> string" where
  "attr_col k = ''attributes['' @ sq @ k @ sq @ '']''"

section \<open>Label matchers\<close>

definition matcherSQL :: "(string \<Rightarrow> bool) \<Rightarrow> matcher \<Rightarrow> lower_error + string \<times> string" where
  "matcherSQL re_ok m =
     (let col = attr_col (sqlEscape (m_name m)) in
      case m_op m of
        MatchEq \<Rightarrow> Inr (col @ '' = ?'', m_val m)
      | MatchNeq \<Rightarrow> Inr (col @ '' != ?'', m_val m)
      | MatchRegex \<Rightarrow>
          if re_ok (m_val m) then Inr (''match('' @ col @ '', ?)'', m_val m)
          else Inl (LBadRegex (m_val m))
      | MatchNotRegex \<Rightarrow>
          if re_ok (m_val m) then Inr (''NOT match('' @ col @ '', ?)'', m_val m)
          else Inl (LBadRegex (m_val m)))"

text \<open>The WHERE clauses and arguments every shape starts with: metric name, matchers, time range.\<close>

definition where_parts ::
  "(string \<Rightarrow> bool) \<Rightarrow> vectorSelector \<Rightarrow> query_bounds \<Rightarrow> lower_error + string list \<times> sql_arg list" where
  "where_parts re_ok vs p =
     bindE (mapE (matcherSQL re_ok) (vs_matches vs)) (\<lambda>cvs.
       Inr (''metric_name = ?'' # map fst cvs @ [''timestamp BETWEEN ? AND ?''],
            AStr (vs_metric vs) # map (AStr \<circ> snd) cvs @ [ATime (qb_start p), ATime (qb_end p)]))"

text \<open>\<open>int64(p.Step.Seconds())\<close>, at least one.\<close>

definition step_seconds :: "query_bounds \<Rightarrow> int" where
  "step_seconds p = (let step = to_int64 (seconds (qb_step p)) in if step \<le> 0 then 30 else step)"

section \<open>Aggregations\<close>

fun extractSelector :: "node \<Rightarrow> lower_error + vectorSelector" where
  "extractSelector (VectorSel v) = Inr v"
| "extractSelector (RangeSel v d txt) = Inr v"
| "extractSelector (Call name [a]) = extractSelector a"
| "extractSelector n = Inl LNoSelector"

definition aggr_expr :: "(f64 \<Rightarrow> string) \<Rightarrow> string \<Rightarrow> f64 option \<Rightarrow> lower_error + string" where
  "aggr_expr fmtg op phi =
     (if op = ''sum'' then Inr ''sum(value)''
      else if op = ''avg'' then Inr ''avg(value)''
      else if op = ''min'' then Inr ''min(value)''
      else if op = ''max'' then Inr ''max(value)''
      else if op = ''count'' then Inr ''count(value)''
      else if op = ''quantile'' then
        (case phi of None \<Rightarrow> Inl LQuantileNoPhi
         | Some v \<Rightarrow> Inr (''quantile('' @ fmtg v @ '')(value)''))
      else Inl (LUnsupportedAggr op))"

definition by_column :: "string \<Rightarrow> string" where
  "by_column lab = attr_col (sqlEscape lab) @ '' AS '' @ labelCol lab"

definition bucket_expr :: "int \<Rightarrow> string" where
  "bucket_expr step = ''toStartOfInterval(timestamp, INTERVAL '' @ show_int step @ '' SECOND) AS t''"

definition lowerAggr ::
  "(string \<Rightarrow> bool) \<Rightarrow> (f64 \<Rightarrow> string) \<Rightarrow> string \<Rightarrow> node \<Rightarrow> string list \<Rightarrow> f64 option \<Rightarrow> query_bounds \<Rightarrow>
   lower_error + prom_result" where
  "lowerAggr re_ok fmtg op arg by_labels phi p =
     bindE (extractSelector arg) (\<lambda>vs.
     bindE (where_parts re_ok vs p) (\<lambda>(wheres, args).
     bindE (aggr_expr fmtg op phi) (\<lambda>aggExpr.
       let selectExprs = [bucket_expr (step_seconds p), aggExpr @ '' AS v''] @ map by_column by_labels;
           groupBys = ''t'' # map labelCol by_labels
       in Inr \<lparr>pr_sql = ''SELECT '' @ join '', '' selectExprs @ '' FROM metrics WHERE ''
                 @ join '' AND '' wheres @ '' GROUP BY '' @ join '', '' groupBys @ '' ORDER BY t'',
               pr_args = args, pr_labels = by_labels\<rparr>)))"

section \<open>Range functions\<close>

definition rate_expr :: "string \<Rightarrow> int \<Rightarrow> string" where
  "rate_expr name step =
     (if name = ''rate'' then ''(max(value) - min(value)) / '' @ show_int step
      else if name = ''irate'' then ''(anyLast(value) - any(value)) / '' @ show_int step
      else ''(max(value) - min(value))'')"

definition over_time_op :: "string \<Rightarrow> string option" where
  "over_time_op name =
     (if name = ''avg_over_time'' then Some ''avg''
      else if name = ''sum_over_time'' then Some ''sum''
      else if name = ''min_over_time'' then Some ''min''
      else if name = ''max_over_time'' then Some ''max''
      else if name = ''count_over_time'' then Some ''count''
      else None)"

text \<open>The body of the \<open>rate\<close>, \<open>irate\<close>, \<open>increase\<close> case.\<close>

definition lowerRange ::
  "(string \<Rightarrow> bool) \<Rightarrow> string \<Rightarrow> vectorSelector \<Rightarrow> query_bounds \<Rightarrow> lower_error + prom_result" where
  "lowerRange re_ok name vs p =
     bindE (where_parts re_ok vs p) (\<lambda>(wheres, as).
       Inr \<lparr>pr_sql = ''SELECT '' @ bucket_expr (step_seconds p) @ '', ''
               @ rate_expr name (step_seconds p) @ '' AS v FROM metrics WHERE ''
               @ join '' AND '' wheres @ '' GROUP BY t ORDER BY t'',
            pr_args = as, pr_labels = []\<rparr>)"

definition lowerCall ::
  "(string \<Rightarrow> bool) \<Rightarrow> (f64 \<Rightarrow> string) \<Rightarrow> string \<Rightarrow> node list \<Rightarrow> query_bounds \<Rightarrow> lower_error + prom_result" where
  "lowerCall re_ok fmtg name args p =
     (if name \<in> {''rate'', ''irate'', ''increase''} then
        (case args of
           [RangeSel vs d txt] \<Rightarrow> lowerRange re_ok name vs p
         | [_] \<Rightarrow> Inl (LNeedsRange name)
         | _ \<Rightarrow> Inl (LArity name))
      else
        (case over_time_op name of
           Some op \<Rightarrow>
             (case args of
                [RangeSel vs d txt] \<Rightarrow> lowerAggr re_ok fmtg op (VectorSel vs) [] None p
              | [_] \<Rightarrow> Inl (LNeedsRange name)
              | _ \<Rightarrow> Inl (LArity name))
         | None \<Rightarrow>
             if name = ''quantile_over_time'' then
               (case args of
                  [NumLit v, RangeSel vs d txt] \<Rightarrow>
                    lowerAggr re_ok fmtg ''quantile'' (VectorSel vs) [] (Some v) p
                | [NumLit v, _] \<Rightarrow> Inl (LNeedsRange name)
                | [_, _] \<Rightarrow> Inl LPhiLiteral
                | _ \<Rightarrow> Inl (LArity name))
             else Inl (LUnsupportedFunc name)))"

section \<open>Binary operators\<close>

definition is_arith_op :: "string \<Rightarrow> bool" where
  "is_arith_op op \<longleftrightarrow> op \<in> {''+'', ''-'', ''*'', ''/''}"

definition is_cmp_op :: "string \<Rightarrow> bool" where
  "is_cmp_op op \<longleftrightarrow> op \<in> {''>'', ''<'', ''>='', ''<='', ''=='', ''!=''}"

text \<open>\<open>strings.Replace(cond, "==", "=", 1)\<close>.\<close>

fun replace_eqeq :: "string \<Rightarrow> string" where
  "replace_eqeq [] = []"
| "replace_eqeq [c] = [c]"
| "replace_eqeq (c # d # s) =
     (if c = CHR ''='' \<and> d = CHR ''='' then CHR ''='' # s else c # replace_eqeq (d # s))"

text \<open>The wrapping statement around the lowered operand; \<open>swapped\<close>: the scalar is on the left.\<close>

definition wrapBin ::
  "(f64 \<Rightarrow> string) \<Rightarrow> string \<Rightarrow> f64 \<Rightarrow> bool \<Rightarrow> prom_result \<Rightarrow> lower_error + prom_result" where
  "wrapBin fmtg op scalar swapped inner =
     (if is_arith_op op then
        let expr = (if swapped then ''('' @ fmtg scalar @ '' '' @ op @ '' v)''
                    else ''(v '' @ op @ '' '' @ fmtg scalar @ '')'')
        in Inr (inner\<lparr>pr_sql := ''SELECT t, '' @ expr @ '' AS v FROM ('' @ pr_sql inner @ '')''\<rparr>)
      else if is_cmp_op op then
        let cond = (if swapped then fmtg scalar @ '' '' @ op @ '' v''
                    else ''v '' @ op @ '' '' @ fmtg scalar);
            cond' = (if op = ''=='' then replace_eqeq cond else cond)
        in Inr (inner\<lparr>pr_sql := ''SELECT t, v FROM ('' @ pr_sql inner @ '') WHERE '' @ cond'\<rparr>)
      else Inl (LUnsupportedBin op))"

fun lower ::
  "(string \<Rightarrow> bool) \<Rightarrow> (f64 \<Rightarrow> string) \<Rightarrow> node \<Rightarrow> query_bounds \<Rightarrow> lower_error + prom_result" where
  "lower re_ok fmtg (Aggr op arg by_labels without_labels phi) p =
     lowerAggr re_ok fmtg op arg by_labels phi p"
| "lower re_ok fmtg (Call name args) p = lowerCall re_ok fmtg name args p"
| "lower re_ok fmtg (VectorSel vs) p = lowerAggr re_ok fmtg ''avg'' (VectorSel vs) [] None p"
| "lower re_ok fmtg (RangeSel vs d txt) p = lowerAggr re_ok fmtg ''avg'' (VectorSel vs) [] None p"
| "lower re_ok fmtg (Bin op left right) p =
     (case right of
        NumLit s \<Rightarrow> bindE (lower re_ok fmtg left p) (wrapBin fmtg op s False)
      | _ \<Rightarrow>
        (case left of
           NumLit s \<Rightarrow> bindE (lower re_ok fmtg right p) (wrapBin fmtg op s True)
         | _ \<Rightarrow> Inl LVectorVector))"
| "lower re_ok fmtg (NumLit v) p = Inl LUnsupportedTop"

section \<open>Translate\<close>

datatype prom_error = EmptyQuery | TokenizeError lex_error | ParseError parse_error | LowerError lower_error

definition bounds_of :: "int \<Rightarrow> query_params \<Rightarrow> query_bounds" where
  "bounds_of now p =
     (let e = (case qp_end p of None \<Rightarrow> now | Some t \<Rightarrow> t)
      in \<lparr>qb_start = (case qp_start p of None \<Rightarrow> e - hour | Some t \<Rightarrow> t),
          qb_end = e,
          qb_step = (if qp_step p \<le> 0 then 30 * second else qp_step p)\<rparr>)"

definition mapL :: "('e \<Rightarrow> 'f) \<Rightarrow> 'e + 'a \<Rightarrow> 'f + 'a" where
  "mapL f m = (case m of Inl e \<Rightarrow> Inl (f e) | Inr x \<Rightarrow> Inr x)"

lemma mapL_simps [simp]: "mapL f (Inl e) = Inl (f e)" "mapL f (Inr x) = Inr x"
  by (simp_all add: mapL_def)

lemma mapL_eq_Inr [simp]: "mapL f m = Inr x \<longleftrightarrow> m = Inr x"
  by (cases m) auto

lemma mapL_eq_Inl: "mapL f m = Inl e \<longleftrightarrow> (\<exists>e'. m = Inl e' \<and> e = f e')"
  by (cases m) auto

definition Translate ::
  "(string \<Rightarrow> bool) \<Rightarrow> (f64 \<Rightarrow> string) \<Rightarrow> int \<Rightarrow> query_params \<Rightarrow> prom_error + prom_result" where
  "Translate re_ok fmtg now p =
     (if qp_query p = '''' then Inl EmptyQuery
      else
        bindE (mapL TokenizeError (tokenize (qp_query p))) (\<lambda>tokens.
        bindE (mapL ParseError (parse tokens)) (\<lambda>(ast, rest).
          mapL LowerError (lower re_ok fmtg ast (bounds_of now p)))))"

end
