(* ===== verification/PromSafety.thy ===== *)
theory PromSafety
  imports PromLower
begin

text \<open>
  What the PromQL translation guarantees: placeholders match bound arguments, label values never
  reach the SQL text, label names are restricted to a safe alphabet, and the shapes on which the
  parser stops early.
\<close>

section \<open>Names are sanitised\<close>

definition safe_char :: "char \<Rightarrow> bool" where
  "safe_char c \<longleftrightarrow> rune_safe (of_char c)"

lemma rune_safe_ascii: "rune_safe r \<Longrightarrow> r < 128"
  by (auto simp: rune_safe_def)

lemma rune_word_safe: "rune_word r \<Longrightarrow> rune_safe r"
  by (auto simp: rune_word_def rune_safe_def)

lemma sqlEscape_chars: "list_all safe_char (sqlEscape s)"
proof (cases "list_all rune_safe (runes s)")
  case True
  then have "list_all rune_safe (codes s)"
    using runes_all_ascii [of rune_safe, OF rune_safe_ascii] by (simp add: runes_def)
  with True show ?thesis
    by (simp add: sqlEscape_def codes_def safe_char_def list_all_iff)
next
  case False
  have "list_all safe_char ''INVALID''" by code_simp
  with False show ?thesis by (simp add: sqlEscape_def)
qed

lemma safe_underscore: "safe_char (CHR ''_'')"
  by code_simp

lemma labelCol_chars: "list_all safe_char (labelCol s)"
proof -
  have "list_all safe_char ''lbl_''" by code_simp
  moreover have "safe_char (if rune_word r then char_of r else CHR ''_'')" for r
  proof (cases "rune_word r")
    case True
    then have "r < 256" using rune_safe_ascii [OF rune_word_safe [OF True]] by simp
    with True show ?thesis by (simp add: safe_char_def rune_word_safe)
  next
    case False
    then show ?thesis using safe_underscore by simp
  qed
  ultimately show ?thesis
    unfolding labelCol_def list_all_append list.pred_map o_def by (simp only: list_all_iff) blast
qed

lemma safe_not_mark: "safe_char c \<Longrightarrow> c \<noteq> CHR ''?''"
  by (auto simp: safe_char_def rune_safe_def)

lemma safe_no_marks: "list_all safe_char s \<Longrightarrow> marks s = 0"
  by (rule marks_0) (auto simp: list_all_iff dest: safe_not_mark)

lemma sqlEscape_marks [simp]: "marks (sqlEscape s) = 0"
  by (rule safe_no_marks [OF sqlEscape_chars])

lemma labelCol_marks [simp]: "marks (labelCol s) = 0"
  by (rule safe_no_marks [OF labelCol_chars])

lemma sq_marks [simp]: "marks sq = 0"
  by code_simp

lemma attr_col_marks [simp]: "marks (attr_col k) = marks k"
  by (simp add: attr_col_def)

section \<open>The matcher renderer\<close>

definition set_m_val :: "(string \<Rightarrow> string) \<Rightarrow> matcher \<Rightarrow> matcher" where
  "set_m_val f m = m\<lparr>m_val := f (m_val m)\<rparr>"

interpretation prom: clause_renderer "matcherSQL re_ok" set_m_val for re_ok
proof
  fix m :: matcher and cv
  assume "matcherSQL re_ok m = Inr cv"
  then show "marks (fst cv) = 1"
    by (auto simp: matcherSQL_def Let_def split: matcherOp.splits if_splits)
next
  fix m :: matcher and cv f cv'
  assume "matcherSQL re_ok m = Inr cv" "matcherSQL re_ok (set_m_val f m) = Inr cv'"
  then show "fst cv' = fst cv"
    by (auto simp: matcherSQL_def set_m_val_def Let_def split: matcherOp.splits if_splits)
qed

definition set_vs_vals :: "(string \<Rightarrow> string) \<Rightarrow> vectorSelector \<Rightarrow> vectorSelector" where
  "set_vs_vals f vs = vs\<lparr>vs_matches := map (set_m_val f) (vs_matches vs)\<rparr>"

fun set_vals :: "(string \<Rightarrow> string) \<Rightarrow> node \<Rightarrow> node" where
  "set_vals f (VectorSel vs) = VectorSel (set_vs_vals f vs)"
| "set_vals f (RangeSel vs d t) = RangeSel (set_vs_vals f vs) d t"
| "set_vals f (Call name args) = Call name (map (set_vals f) args)"
| "set_vals f (Aggr op arg b w phi) = Aggr op (set_vals f arg) b w phi"
| "set_vals f (NumLit v) = NumLit v"
| "set_vals f (Bin op l r) = Bin op (set_vals f l) (set_vals f r)"

section \<open>Placeholders match arguments\<close>

lemma where_parts_marks:
  assumes "where_parts re_ok vs p = Inr (wheres, args)"
  shows "marks (join '' AND '' wheres) = length args"
proof -
  obtain cvs where cvs: "mapE (matcherSQL re_ok) (vs_matches vs) = Inr cvs"
    and w: "wheres = ''metric_name = ?'' # map fst cvs @ [''timestamp BETWEEN ? AND ?'']"
    and a: "args = AStr (vs_metric vs) # map (AStr \<circ> snd) cvs @ [ATime (qb_start p), ATime (qb_end p)]"
    using assms by (auto simp: where_parts_def bindE_eq_Inr)
  show ?thesis
    using prom.clauses_marks [OF cvs] by (simp add: w a marks_join o_def)
qed

lemma aggr_expr_marks:
  "(\<And>v. marks (fmtg v) = 0) \<Longrightarrow> aggr_expr fmtg op phi = Inr e \<Longrightarrow> marks e = 0"
  by (auto simp: aggr_expr_def split: if_splits option.splits)

lemma bucket_expr_marks [simp]: "marks (bucket_expr n) = 0"
  by (simp add: bucket_expr_def)

lemma by_column_marks [simp]: "marks (by_column l) = 0"
  by (simp add: by_column_def)

lemma lowerAggr_marks:
  assumes "\<And>v. marks (fmtg v) = 0" "lowerAggr re_ok fmtg op arg bys phi p = Inr r"
  shows "marks (pr_sql r) = length (pr_args r)"
proof -
  obtain vs wheres args e where w: "where_parts re_ok vs p = Inr (wheres, args)"
    and e: "aggr_expr fmtg op phi = Inr e"
    and r: "r = \<lparr>pr_sql = ''SELECT '' @ join '', '' ([bucket_expr (step_seconds p), e @ '' AS v''] @ map by_column bys)
                 @ '' FROM metrics WHERE '' @ join '' AND '' wheres @ '' GROUP BY ''
                 @ join '', '' (''t'' # map labelCol bys) @ '' ORDER BY t'',
               pr_args = args, pr_labels = bys\<rparr>"
    using assms(2) by (fastforce simp: lowerAggr_def bindE_eq_Inr Let_def)
  show ?thesis
    using where_parts_marks [OF w] aggr_expr_marks [OF assms(1) e]
    by (simp add: r marks_join o_def)
qed

lemma rate_expr_marks [simp]: "marks (rate_expr name n) = 0"
  by (simp add: rate_expr_def)

text \<open>The three shapes of a successful range function.\<close>

lemma lowerCall_cases:
  assumes "lowerCall re_ok fmtg name args p = Inr r"
  obtains vs d t where "args = [RangeSel vs d t]" "name \<in> {''rate'', ''irate'', ''increase''}"
      "lowerRange re_ok name vs p = Inr r"
  | vs d t op where "args = [RangeSel vs d t]" "name \<notin> {''rate'', ''irate'', ''increase''}"
      "over_time_op name = Some op" "lowerAggr re_ok fmtg op (VectorSel vs) [] None p = Inr r"
  | vs d t v where "args = [NumLit v, RangeSel vs d t]" "name = ''quantile_over_time''"
      "lowerAggr re_ok fmtg ''quantile'' (VectorSel vs) [] (Some v) p = Inr r"
proof (cases "name \<in> {''rate'', ''irate'', ''increase''}")
  case True
  with assms show ?thesis
    using that(1) by (auto simp: lowerCall_def split: list.splits node.splits)
next
  case False
  show ?thesis
  proof (cases "over_time_op name")
    case None
    with False assms show ?thesis
      using that(3) by (auto simp: lowerCall_def split: if_splits list.splits node.splits)
  next
    case (Some op)
    with False assms show ?thesis
      using that(2) by (auto simp: lowerCall_def split: list.splits node.splits)
  qed
qed

lemma lowerRange_marks: "lowerRange re_ok name vs p = Inr r \<Longrightarrow> marks (pr_sql r) = length (pr_args r)"
  by (auto simp: lowerRange_def bindE_eq_Inr dest: where_parts_marks)

lemma lowerCall_marks:
  assumes "\<And>v. marks (fmtg v) = 0" "lowerCall re_ok fmtg name args p = Inr r"
  shows "marks (pr_sql r) = length (pr_args r)"
  by (rule lowerCall_cases [OF assms(2)])
    (auto intro: lowerRange_marks lowerAggr_marks [OF assms(1)])

lemma is_arith_marks: "is_arith_op op \<Longrightarrow> marks op = 0"
  by (auto simp: is_arith_op_def)

lemma is_cmp_marks: "is_cmp_op op \<Longrightarrow> marks op = 0"
  by (auto simp: is_cmp_op_def)

lemma marks_replace_eqeq: "marks (replace_eqeq s) = marks s"
  by (induction s rule: replace_eqeq.induct) auto

lemma wrapBin_marks:
  assumes "\<And>v. marks (fmtg v) = 0" "wrapBin fmtg op s sw inner = Inr r"
    and "marks (pr_sql inner) = length (pr_args inner)"
  shows "marks (pr_sql r) = length (pr_args r)"
  using assms
  by (auto simp: wrapBin_def Let_def is_arith_marks is_cmp_marks marks_replace_eqeq split: if_splits)

text \<open>A lowered binary expression wraps the lowering of its non-literal side.\<close>

lemma lower_Bin_cases:
  assumes "lower re_ok fmtg (Bin op l r) p = Inr res"
  obtains s inner where "r = NumLit s" "lower re_ok fmtg l p = Inr inner"
      "wrapBin fmtg op s False inner = Inr res"
  | s inner where "l = NumLit s" "\<forall>v. r \<noteq> NumLit v" "lower re_ok fmtg r p = Inr inner"
      "wrapBin fmtg op s True inner = Inr res"
proof (cases "\<exists>s. r = NumLit s")
  case True
  with assms show ?thesis using that(1) by (auto simp: bindE_eq_Inr)
next
  case False
  then have "lower re_ok fmtg (Bin op l r) p =
      (case l of NumLit s \<Rightarrow> bindE (lower re_ok fmtg r p) (wrapBin fmtg op s True) | _ \<Rightarrow> Inl LVectorVector)"
    by (cases r) auto
  then have "(case l of NumLit s \<Rightarrow> bindE (lower re_ok fmtg r p) (wrapBin fmtg op s True)
      | _ \<Rightarrow> Inl LVectorVector) = Inr res"
    using assms by simp
  with False show ?thesis
    using that(2) by (cases l) (auto simp: bindE_eq_Inr)
qed

lemma lower_marks:
  assumes "\<And>v. marks (fmtg v) = 0"
  shows "lower re_ok fmtg ast p = Inr r \<Longrightarrow> marks (pr_sql r) = length (pr_args r)"
proof (induction ast arbitrary: r)
  case (Bin op left right)
  show ?case
    by (rule lower_Bin_cases [OF Bin.prems])
      (auto intro: wrapBin_marks [OF assms] Bin.IH)
next
  case (NumLit v)
  then show ?case by simp
qed (auto intro: lowerAggr_marks [OF assms] lowerCall_marks [OF assms])

section \<open>Values do not reach the SQL text\<close>

lemma where_parts_value_free:
  assumes "where_parts re_ok vs p = Inr (w, a)" "where_parts re_ok (set_vs_vals f vs) p = Inr (w', a')"
  shows "w' = w"
  using assms prom.clauses_value_free
  by (fastforce simp: where_parts_def set_vs_vals_def bindE_eq_Inr)

lemma extractSelector_set_vals:
  "extractSelector n = Inr vs \<Longrightarrow> extractSelector (set_vals f n) = Inr (set_vs_vals f vs)"
  by (induction n rule: extractSelector.induct) auto

lemma lowerAggr_value_free:
  assumes "lowerAggr re_ok fmtg op arg bys phi p = Inr r"
    "lowerAggr re_ok fmtg op (set_vals f arg) bys phi p = Inr r'"
  shows "pr_sql r' = pr_sql r"
proof -
  obtain vs w a where 1: "extractSelector arg = Inr vs" "where_parts re_ok vs p = Inr (w, a)"
    using assms(1) by (fastforce simp: lowerAggr_def bindE_eq_Inr)
  obtain w' a' where 2: "where_parts re_ok (set_vs_vals f vs) p = Inr (w', a')"
    using assms(2) extractSelector_set_vals [OF 1(1), of f]
    by (fastforce simp: lowerAggr_def bindE_eq_Inr)
  show ?thesis
    using assms 1 2 extractSelector_set_vals [OF 1(1), of f] where_parts_value_free [OF 1(2) 2]
    by (fastforce simp: lowerAggr_def bindE_eq_Inr Let_def)
qed

lemma set_vals_VectorSel: "VectorSel (set_vs_vals f vs) = set_vals f (VectorSel vs)"
  by simp

lemma lowerAggr_vs_value_free:
  "lowerAggr re_ok fmtg op (VectorSel vs) bys phi p = Inr r \<Longrightarrow>
   lowerAggr re_ok fmtg op (VectorSel (set_vs_vals f vs)) bys phi p = Inr r' \<Longrightarrow> pr_sql r' = pr_sql r"
  by (rule lowerAggr_value_free [where arg = "VectorSel vs"]) auto

lemma lowerRange_value_free:
  "lowerRange re_ok name vs p = Inr r \<Longrightarrow> lowerRange re_ok name (set_vs_vals f vs) p = Inr r' \<Longrightarrow>
   pr_sql r' = pr_sql r"
  by (auto simp: lowerRange_def bindE_eq_Inr dest: where_parts_value_free)

lemma lowerCall_value_free:
  assumes 1: "lowerCall re_ok fmtg name args p = Inr r"
    and 2: "lowerCall re_ok fmtg name (map (set_vals f) args) p = Inr r'"
  shows "pr_sql r' = pr_sql r"
proof (rule lowerCall_cases [OF 1])
  fix vs d t
  assume *: "args = [RangeSel vs d t]" "name \<in> {''rate'', ''irate'', ''increase''}"
    "lowerRange re_ok name vs p = Inr r"
  then have "lowerRange re_ok name (set_vs_vals f vs) p = Inr r'"
    using 2 by (simp add: lowerCall_def)
  with * show ?thesis by (blast intro: lowerRange_value_free)
next
  fix vs d t op
  assume *: "args = [RangeSel vs d t]" "name \<notin> {''rate'', ''irate'', ''increase''}"
    "over_time_op name = Some op" "lowerAggr re_ok fmtg op (VectorSel vs) [] None p = Inr r"
  then have "lowerAggr re_ok fmtg op (VectorSel (set_vs_vals f vs)) [] None p = Inr r'"
    using 2 by (simp add: lowerCall_def)
  with * show ?thesis by (blast intro: lowerAggr_vs_value_free)
next
  fix vs d t v
  assume *: "args = [NumLit v, RangeSel vs d t]" "name = ''quantile_over_time''"
    "lowerAggr re_ok fmtg ''quantile'' (VectorSel vs) [] (Some v) p = Inr r"
  then have "lowerAggr re_ok fmtg ''quantile'' (VectorSel (set_vs_vals f vs)) [] (Some v) p = Inr r'"
    using 2 by (simp add: lowerCall_def over_time_op_def)
  with * show ?thesis by (blast intro: lowerAggr_vs_value_free)
qed

lemma wrapBin_value_free:
  "wrapBin fmtg op s sw i = Inr r \<Longrightarrow> wrapBin fmtg op s sw i' = Inr r' \<Longrightarrow> pr_sql i' = pr_sql i \<Longrightarrow>
   pr_sql r' = pr_sql r"
  by (auto simp: wrapBin_def Let_def split: if_splits)

lemma lower_value_free:
  "lower re_ok fmtg ast p = Inr r \<Longrightarrow> lower re_ok fmtg (set_vals f ast) p = Inr r' \<Longrightarrow>
   pr_sql r' = pr_sql r"
proof (induction ast arbitrary: r r')
  case (Bin op left right)
  have B: "lower re_ok fmtg (Bin op (set_vals f left) (set_vals f right)) p = Inr r'"
    using Bin.prems(2) by (simp only: set_vals.simps)
  show ?case
  proof (rule lower_Bin_cases [OF Bin.prems(1)])
    fix s inner
    assume *: "right = NumLit s" "lower re_ok fmtg left p = Inr inner"
      "wrapBin fmtg op s False inner = Inr r"
    then obtain inner' where "lower re_ok fmtg (set_vals f left) p = Inr inner'"
      "wrapBin fmtg op s False inner' = Inr r'"
      using B by (auto simp: bindE_eq_Inr)
    with * Bin.IH(1) show ?thesis by (blast intro: wrapBin_value_free)
  next
    fix s inner
    assume *: "left = NumLit s" "\<forall>v. right \<noteq> NumLit v" "lower re_ok fmtg right p = Inr inner"
      "wrapBin fmtg op s True inner = Inr r"
    then have n: "\<forall>v. set_vals f right \<noteq> NumLit v" by (cases right) auto
    obtain inner' where "lower re_ok fmtg (set_vals f right) p = Inr inner'"
      "wrapBin fmtg op s True inner' = Inr r'"
      by (rule lower_Bin_cases [OF B]) (use * n in auto)
    with * Bin.IH(2) show ?thesis by (blast intro: wrapBin_value_free)
  qed
next
  case (VectorSel vs)
  then show ?case by (auto intro: lowerAggr_vs_value_free)
next
  case (RangeSel vs d t)
  then show ?case by (auto intro: lowerAggr_vs_value_free)
next
  case (Call name args)
  then show ?case by (auto intro: lowerCall_value_free)
next
  case (Aggr op arg bys wo phi)
  then show ?case by (auto intro: lowerAggr_value_free)
next
  case (NumLit v)
  then show ?case by simp
qed

section \<open>Bound values\<close>

text \<open>Every statement binds the metric name first and the time range last.\<close>

lemma matcherSQL_value: "matcherSQL re_ok m = Inr cv \<Longrightarrow> snd cv = m_val m"
  by (auto simp: matcherSQL_def Let_def split: matcherOp.splits if_splits)

lemma matchers_values:
  "mapE (matcherSQL re_ok) ms = Inr cvs \<Longrightarrow> map snd cvs = map m_val ms"
  by (induction ms arbitrary: cvs) (fastforce simp: bindE_eq_Inr dest: matcherSQL_value)+

definition bound_args :: "vectorSelector \<Rightarrow> query_bounds \<Rightarrow> sql_arg list" where
  "bound_args vs p =
     AStr (vs_metric vs) # map AStr (map m_val (vs_matches vs))
     @ [ATime (qb_start p), ATime (qb_end p)]"

lemma where_parts_args: "where_parts re_ok vs p = Inr (w, a) \<Longrightarrow> a = bound_args vs p"
  by (auto simp: where_parts_def bindE_eq_Inr bound_args_def simp flip: map_map matchers_values)

text \<open>The selectors of a syntax tree, from left to right.\<close>

fun selectors :: "node \<Rightarrow> vectorSelector list" where
  "selectors (VectorSel vs) = [vs]"
| "selectors (RangeSel vs d t) = [vs]"
| "selectors (Call name args) = concat (map selectors args)"
| "selectors (Aggr op arg b w phi) = selectors arg"
| "selectors (NumLit v) = []"
| "selectors (Bin op l r) = selectors l @ selectors r"

lemma extractSelector_selectors: "extractSelector n = Inr vs \<Longrightarrow> selectors n = [vs]"
  by (induction n rule: extractSelector.induct) auto

lemma lowerAggr_args:
  "lowerAggr re_ok fmtg op arg bys phi p = Inr r \<Longrightarrow>
   \<exists>vs. selectors arg = [vs] \<and> pr_args r = bound_args vs p"
  by (auto simp: lowerAggr_def bindE_eq_Inr Let_def extractSelector_selectors dest!: where_parts_args)

lemma lowerRange_args: "lowerRange re_ok name vs p = Inr r \<Longrightarrow> pr_args r = bound_args vs p"
  by (auto simp: lowerRange_def bindE_eq_Inr dest!: where_parts_args)

lemma wrapBin_args: "wrapBin fmtg op s sw inner = Inr r \<Longrightarrow> pr_args r = pr_args inner"
  by (auto simp: wrapBin_def Let_def split: if_splits)

lemma lowerCall_args:
  "lowerCall re_ok fmtg name args p = Inr r \<Longrightarrow>
   \<exists>vs. concat (map selectors args) = [vs] \<and> pr_args r = bound_args vs p"
  by (erule lowerCall_cases) (auto dest: lowerRange_args lowerAggr_args)

lemma lower_args:
  "lower re_ok fmtg ast p = Inr r \<Longrightarrow> \<exists>vs. selectors ast = [vs] \<and> pr_args r = bound_args vs p"
proof (induction ast arbitrary: r)
  case (Bin op left right)
  show ?case
    by (rule lower_Bin_cases [OF Bin.prems])
      (auto dest!: wrapBin_args dest: Bin.IH)
next
  case (Call name args)
  then show ?case by (simp add: lowerCall_args)
qed (auto dest: lowerAggr_args)

lemma selectors_set_vals: "selectors (set_vals f n) = map (set_vs_vals f) (selectors n)"
proof (induction n)
  case (Call name args)
  then show ?case by (induction args) auto
qed auto

lemma lower_args_length:
  assumes "lower re_ok fmtg n p = Inr r" "lower re_ok fmtg (set_vals f n) p = Inr r'"
  shows "length (pr_args r') = length (pr_args r)"
  using lower_args [OF assms(1)] lower_args [OF assms(2)]
  by (auto simp: selectors_set_vals bound_args_def set_vs_vals_def)

end
