(* ===== verification/PromRoundtrip.thy ===== *)
theory PromRoundtrip
  imports PromSafety
begin

text \<open>
  Printing and parsing PromQL: a canonical printer of syntax trees, and the proof that the
  tokenizer and the parser read the printed text back. It shows that every tree of the supported
  subset can be written, and that no string value can escape its literal.
\<close>

section \<open>Spelling tokens\<close>

type_synonym tok = "tok_kind \<times> string"

definition tk :: "token \<Rightarrow> tok" where
  "tk t = (tok_kind t, tok_val t)"

lemma tk_mk_tok [simp]: "tk (mk_tok k v p) = (k, v)"
  by (simp add: tk_def mk_tok_def)

lemma tk_eq: "tk t = (k, v) \<longleftrightarrow> tok_kind t = k \<and> tok_val t = v"
  by (simp add: tk_def)

fun spell :: "tok \<Rightarrow> string" where
  "spell (k, v) = (if k = TkString then quote v else v)"

definition spelled :: "tok list \<Rightarrow> string" where
  "spelled ts = concat (map (\<lambda>t. spell t @ '' '') ts)"

lemma spelled_Nil [simp]: "spelled [] = []"
  and spelled_Cons [simp]: "spelled (t # ts) = spell t @ CHR '' '' # spelled ts"
  by (simp_all add: spelled_def)

definition num_char :: "char \<Rightarrow> bool" where
  "num_char c \<longleftrightarrow> isDigit c \<or> c = CHR ''.''"

definition wf_ident :: "string \<Rightarrow> bool" where
  "wf_ident s \<longleftrightarrow> s \<noteq> [] \<and> isIdentStart (hd s) \<and> list_all isIdentCont s \<and> ident_kind s = TkIdent"

definition wf_number :: "string \<Rightarrow> bool" where
  "wf_number s \<longleftrightarrow> s \<noteq> [] \<and> isDigit (hd s) \<and> list_all num_char s"

definition num_part :: "string \<Rightarrow> string" where
  "num_part s = takeWhile num_char s"

definition unit_part :: "string \<Rightarrow> string" where
  "unit_part s = dropWhile num_char s"

definition wf_duration :: "string \<Rightarrow> bool" where
  "wf_duration s \<longleftrightarrow> wf_number (num_part s) \<and> isDurationUnit (unit_part s)"

text \<open>The fixed spelling of the operators and brackets.\<close>

definition fixed_text :: "tok_kind \<Rightarrow> string option" where
  "fixed_text k =
     (case k of TkLBrace \<Rightarrow> Some ''{'' | TkRBrace \<Rightarrow> Some ''}'' | TkLParen \<Rightarrow> Some ''('' | TkRParen \<Rightarrow> Some '')''
      | TkLBracket \<Rightarrow> Some ''['' | TkRBracket \<Rightarrow> Some '']'' | TkComma \<Rightarrow> Some '','' | TkEq \<Rightarrow> Some ''=''
      | TkNeq \<Rightarrow> Some ''!='' | TkRegexMat \<Rightarrow> Some ''=~'' | TkRegexNoMt \<Rightarrow> Some ''!~'' | TkPlus \<Rightarrow> Some ''+''
      | TkMinus \<Rightarrow> Some ''-'' | TkStar \<Rightarrow> Some ''*'' | TkSlash \<Rightarrow> Some ''/'' | TkBy \<Rightarrow> Some ''by''
      | TkWithout \<Rightarrow> Some ''without'' | TkGt \<Rightarrow> Some ''>'' | TkLt \<Rightarrow> Some ''<'' | TkGte \<Rightarrow> Some ''>=''
      | TkLte \<Rightarrow> Some ''<='' | TkEqCmp \<Rightarrow> Some ''=='' | _ \<Rightarrow> None)"

fun wf_tok :: "tok \<Rightarrow> bool" where
  "wf_tok (k, v) =
     (case k of TkIdent \<Rightarrow> wf_ident v | TkNumber \<Rightarrow> wf_number v | TkString \<Rightarrow> True
      | TkDuration \<Rightarrow> wf_duration v | _ \<Rightarrow> fixed_text k = Some v)"

section \<open>The tokenizer reads the spelling back\<close>

text \<open>The tokens before folding, and after it, with the positions the tokenizer records.\<close>

fun place :: "nat \<Rightarrow> tok list \<Rightarrow> token list" where
  "place i [] = []"
| "place i ((k, v) # ts) =
     (if k = TkDuration
      then mk_tok TkNumber (num_part v) i # [mk_tok TkIdent (unit_part v) (i + length (num_part v))]
      else [mk_tok k v i]) @ place (i + length (spell (k, v)) + 1) ts"

fun placed :: "nat \<Rightarrow> tok list \<Rightarrow> token list" where
  "placed i [] = []"
| "placed i ((k, v) # ts) = mk_tok k v i # placed (i + length (spell (k, v)) + 1) ts"

lemma map_tk_placed [simp]: "map tk (placed i ts) = ts"
  by (induction i ts rule: placed.induct) auto

lemma length_placed [simp]: "length (placed i ts) = length ts"
  by (induction i ts rule: placed.induct) auto

lemma blank_space [simp]: "is_blank (CHR '' '')"
  by code_simp

lemma space_not_ident [simp]: "\<not> isIdentCont (CHR '' '')"
  by code_simp

lemma space_not_num [simp]: "\<not> num_char (CHR '' '')"
  by code_simp

lemma lex_loop_blank [simp]: "lex_loop i (CHR '' '' # cs) = lex_loop (i + 1) cs"
  by (simp add: lex_step_def)

lemma plain_neq: "list_all (\<lambda>c. \<not> P c) s \<Longrightarrow> P c \<Longrightarrow> c \<notin> set s"
  by (auto simp: list_all_iff)

lemma ident_start_plain:
  assumes "isIdentStart c"
  shows "\<not> is_blank c" "c \<noteq> quote_char" "c \<noteq> CHR ''!''" "c \<noteq> CHR ''=''" "c \<noteq> CHR ''>''"
    "c \<noteq> CHR ''<''" "single_tok c = None" "\<not> isDigit c" "c \<noteq> CHR ''.''"
proof -
  have "list_all (\<lambda>c. \<not> isIdentStart c) ''!=><.{}()[],+-*/''" by code_simp
  from plain_neq [OF this assms]
  show "c \<noteq> CHR ''!''" "c \<noteq> CHR ''=''" "c \<noteq> CHR ''>''" "c \<noteq> CHR ''<''" "single_tok c = None"
    "c \<noteq> CHR ''.''"
    by (simp_all add: single_tok_def)
  have "list_all (\<lambda>c. \<not> isIdentStart c) (quote_char # map char_of [32, 9, 10, 13 :: nat])" by code_simp
  from plain_neq [OF this assms] show "c \<noteq> quote_char" "\<not> is_blank c"
    by (auto simp: is_blank_def) (metis char_of_char)+
  show "\<not> isDigit c"
    using assms
    by (cases "c = CHR ''_''")
      (auto simp: isIdentStart_def isDigit_def is_digit_def is_lower_def is_upper_def)
qed

lemma digit_plain:
  assumes "isDigit c"
  shows "\<not> is_blank c" "c \<noteq> quote_char" "c \<noteq> CHR ''!''" "c \<noteq> CHR ''=''" "c \<noteq> CHR ''>''"
    "c \<noteq> CHR ''<''" "single_tok c = None"
proof -
  have "list_all (\<lambda>c. \<not> isDigit c) ''!=><.{}()[],+-*/''" by code_simp
  from plain_neq [OF this assms]
  show "c \<noteq> CHR ''!''" "c \<noteq> CHR ''=''" "c \<noteq> CHR ''>''" "c \<noteq> CHR ''<''" "single_tok c = None"
    by (simp_all add: single_tok_def)
  show "c \<noteq> quote_char" "\<not> is_blank c"
    using assms by (auto simp: is_blank_def isDigit_def is_digit_def)
qed

lemma takeWhile_stop: "list_all P s \<Longrightarrow> \<not> P c \<Longrightarrow> takeWhile P (s @ c # r) = s"
  by (simp add: list_all_iff takeWhile_append)

lemma lex_ident:
  assumes "isIdentStart c" "list_all isIdentCont (c # cs)"
  shows "lex_loop i ((c # cs) @ CHR '' '' # rest)
    = bindE (lex_loop (i + length (c # cs) + 1) rest)
        (\<lambda>ts. Inr (mk_tok (ident_kind (c # cs)) (c # cs) i # ts))"
proof -
  have "readIdent ((c # cs) @ CHR '' '' # rest) = (c # cs, length (c # cs))"
    using assms takeWhile_stop [of isIdentCont "c # cs" "CHR '' ''" rest]
    by (simp add: readIdent_def Let_def)
  then show ?thesis
    using ident_start_plain [OF assms(1)] assms(1) by (simp add: lex_step_def)
qed

lemma num_char_fun: "(\<lambda>c. isDigit c \<or> c = CHR ''.'') = num_char"
  by (auto simp: num_char_def)

lemma lex_number:
  assumes "wf_number n" "\<not> num_char d"
  shows "lex_loop i (n @ d # rest)
    = bindE (lex_loop (i + length n) (d # rest)) (\<lambda>ts. Inr (mk_tok TkNumber n i # ts))"
proof -
  obtain c cs where n: "n = c # cs" "isDigit c" "list_all num_char n"
    using assms(1) by (cases n) (auto simp: wf_number_def)
  have "readNumber (n @ d # rest) = (n, length n)"
    using takeWhile_stop [OF n(3) assms(2), of rest]
    by (simp add: readNumber_def Let_def num_char_fun)
  then show ?thesis
    using digit_plain [OF n(2)] n(2) by (simp add: lex_step_def n(1))
qed

lemma lex_string:
  "lex_loop i (quote v @ CHR '' '' # rest)
   = bindE (lex_loop (i + length (quote v) + 1) rest) (\<lambda>ts. Inr (mk_tok TkString v i # ts))"
proof -
  obtain cs where q: "quote v = quote_char # cs" by (simp add: quote_def)
  have "\<not> is_blank quote_char" by code_simp
  moreover have "readString (quote_char # cs @ CHR '' '' # rest) = Inr (v, length (quote v))"
    using readString_quote [of v "CHR '' '' # rest"] by (simp add: q)
  ultimately show ?thesis by (simp add: q lex_step_def)
qed

lemma lex_fixed:
  assumes "fixed_text k = Some v" "k \<notin> {TkBy, TkWithout}"
  shows "lex_loop i (v @ CHR '' '' # rest)
    = bindE (lex_loop (i + length v + 1) rest) (\<lambda>ts. Inr (mk_tok k v i # ts))"
proof -
  have facts: "list_all (\<lambda>c. \<not> is_blank c \<and> c \<noteq> quote_char) ''{}()[],=!+-*/><''"
    by code_simp
  show ?thesis
    using assms facts
    by (cases k) (simp_all add: fixed_text_def, auto simp: lex_step_def starts_with_def single_tok_def)
qed

lemma wf_identE:
  assumes "wf_ident s"
  obtains c cs where "s = c # cs" "isIdentStart c" "list_all isIdentCont (c # cs)"
    "ident_kind (c # cs) = TkIdent"
  using assms by (cases s) (auto simp: wf_ident_def)

lemma unit_ident:
  assumes "isDurationUnit u"
  obtains c cs where "u = c # cs" "isIdentStart c" "list_all isIdentCont (c # cs)"
    "ident_kind (c # cs) = TkIdent" "\<not> num_char c"
proof -
  have "list_all (\<lambda>u. isIdentStart (hd u) \<and> list_all isIdentCont u \<and> ident_kind u = TkIdent
      \<and> \<not> num_char (hd u) \<and> u \<noteq> []) [''ms'', ''s'', ''m'', ''h'', ''d'', ''w'', ''y'']"
    by code_simp
  then show ?thesis using assms that
    by (cases u) (auto simp: isDurationUnit_def)
qed

lemma lex_tok:
  assumes "wf_tok (k, v)"
  shows "lex_loop i (spell (k, v) @ CHR '' '' # rest)
    = bindE (lex_loop (i + length (spell (k, v)) + 1) rest)
        (\<lambda>ts. Inr ((if k = TkDuration
           then [mk_tok TkNumber (num_part v) i, mk_tok TkIdent (unit_part v) (i + length (num_part v))]
           else [mk_tok k v i]) @ ts))"
proof -
  consider "k = TkIdent" | "k = TkNumber" | "k = TkString" | "k = TkDuration" | "k \<in> {TkBy, TkWithout}"
    | "k \<notin> {TkBy, TkWithout, TkIdent, TkNumber, TkString, TkDuration}" by blast
  then show ?thesis
  proof cases
    case 1
    with assms obtain c cs where v: "v = c # cs" "isIdentStart c" "list_all isIdentCont (c # cs)"
      "ident_kind (c # cs) = TkIdent" by (auto elim: wf_identE)
    show ?thesis using lex_ident [OF v(2,3), of i rest] by (simp add: 1 v)
  next
    case 2
    with assms show ?thesis by (simp add: lex_number del: lex_loop.simps(2))
  next
    case 3
    then show ?thesis by (simp add: lex_string)
  next
    case 4
    with assms obtain c cs where u: "unit_part v = c # cs" "isIdentStart c"
      "list_all isIdentCont (c # cs)" "ident_kind (c # cs) = TkIdent" "\<not> num_char c"
      and n: "wf_number (num_part v)"
      by (auto simp: wf_duration_def elim: unit_ident)
    have v: "v = num_part v @ unit_part v" by (simp add: num_part_def unit_part_def)
    have len: "length v = length (num_part v) + length (unit_part v)"
      by (subst v) (simp only: length_append)
    have "lex_loop i (v @ CHR '' '' # rest) = lex_loop i (num_part v @ c # (cs @ CHR '' '' # rest))"
      by (subst v) (simp add: u(1))
    also have "\<dots> = bindE (lex_loop (i + length (num_part v)) ((c # cs) @ CHR '' '' # rest))
        (\<lambda>ts. Inr (mk_tok TkNumber (num_part v) i # ts))"
      using lex_number [OF n u(5), of i] by simp
    also have "\<dots> = bindE (lex_loop (i + length v + 1) rest) (\<lambda>ts. Inr
        (mk_tok TkNumber (num_part v) i # mk_tok TkIdent (c # cs) (i + length (num_part v)) # ts))"
      unfolding lex_ident [OF u(2,3)] by (simp add: u(4) len u(1) add.assoc bindE_assoc)
    finally show ?thesis by (simp add: 4 u(1))
  next
    case 5
    then have *: "isIdentStart (CHR ''b'')" "list_all isIdentCont ''by''" "ident_kind ''by'' = TkBy"
      "isIdentStart (CHR ''w'')" "list_all isIdentCont ''without''" "ident_kind ''without'' = TkWithout"
      by code_simp+
    show ?thesis
      using 5 assms lex_ident [OF *(1), of "''y''" i rest] lex_ident [OF *(4), of "''ithout''" i rest] *
      by (auto simp: fixed_text_def)
  next
    case 6
    with assms have "fixed_text k = Some v" by (cases k) auto
    from lex_fixed [OF this, of i rest] 6 show ?thesis by auto
  qed
qed

lemma lex_loop_spelled: "list_all wf_tok ts \<Longrightarrow> lex_loop i (spelled ts) = Inr (place i ts)"
proof (induction i ts rule: place.induct)
  case (1 i)
  then show ?case by simp
next
  case (2 i k v ts)
  then show ?case using lex_tok [of k v i "spelled ts"] by auto
qed

text \<open>Folding is the identity unless a number is followed by an identifier that is a unit.\<close>

definition apart :: "tok \<Rightarrow> tok \<Rightarrow> bool" where
  "apart t u \<longleftrightarrow> \<not> (fst t = TkNumber \<and> fst u \<in> {TkIdent, TkDuration})"

definition no_adjacent :: "tok list \<Rightarrow> bool" where
  "no_adjacent ts = successively apart ts"

lemma foldDurations_other:
  "tok_kind t \<noteq> TkNumber \<Longrightarrow> foldDurations (t # ts) = t # foldDurations ts"
  by (cases ts) auto

lemma tok_kind_mk [simp]: "tok_kind (mk_tok k v p) = k" "tok_val (mk_tok k v p) = v"
  "tok_pos (mk_tok k v p) = p"
  by (simp_all add: mk_tok_def)

lemma foldDurations_place:
  "list_all wf_tok ts \<Longrightarrow> no_adjacent ts \<Longrightarrow> foldDurations (place i ts) = placed i ts"
proof (induction i ts rule: place.induct)
  case (1 i)
  then show ?case by simp
next
  case (2 i k v ts)
  then have IH: "foldDurations (place (i + length (spell (k, v)) + 1) ts)
      = placed (i + length (spell (k, v)) + 1) ts"
    by (cases ts) (auto simp: no_adjacent_def)
  consider "k = TkDuration" | "k = TkNumber" | "k \<noteq> TkDuration" "k \<noteq> TkNumber" by blast
  then show ?case
  proof cases
    case 1
    then have "isDurationUnit (unit_part v)" using 2 by (simp add: wf_duration_def)
    moreover have "num_part v @ unit_part v = v" by (simp add: num_part_def unit_part_def)
    ultimately show ?thesis using IH 1 by simp
  next
    case 2
    show ?thesis
    proof (cases ts)
      case Nil
      then show ?thesis by (simp add: 2)
    next
      case (Cons t ts')
      obtain k' v' where t: "t = (k', v')" by (cases t)
      with 2 \<open>no_adjacent ((k, v) # ts)\<close> Cons have "k' \<noteq> TkIdent" "k' \<noteq> TkDuration"
        by (auto simp: no_adjacent_def apart_def)
      then show ?thesis using IH by (simp add: 2 Cons t)
    qed
  next
    case 3
    then show ?thesis using IH by (simp add: foldDurations_other)
  qed
qed

lemma tokenize_spelled:
  "list_all wf_tok ts \<Longrightarrow> no_adjacent ts \<Longrightarrow> tokenize (spelled ts) = Inr (placed 0 ts)"
  by (simp add: tokenize_def lex_loop_spelled foldDurations_place)

section \<open>A canonical printer\<close>

text \<open>Binary expressions are parenthesised; \<open>fl\<close> prints a number.\<close>

definition matcher_kind :: "matcherOp \<Rightarrow> tok_kind" where
  "matcher_kind op =
     (case op of MatchEq \<Rightarrow> TkEq | MatchNeq \<Rightarrow> TkNeq | MatchRegex \<Rightarrow> TkRegexMat | MatchNotRegex \<Rightarrow> TkRegexNoMt)"

definition fixed :: "tok_kind \<Rightarrow> tok" where
  "fixed k = (k, the (fixed_text k))"

fun sep_by :: "tok_kind \<Rightarrow> tok list list \<Rightarrow> tok list" where
  "sep_by k [] = []"
| "sep_by k [xs] = xs"
| "sep_by k (xs # ys # zs) = xs @ fixed k # sep_by k (ys # zs)"

lemma sep_by_Cons: "sep_by k (xs # ys) = xs @ (if ys = [] then [] else fixed k # sep_by k ys)"
  by (cases ys) auto

declare sep_by.simps(2,3) [simp del] sep_by_Cons [simp]

definition matcher_toks :: "matcher \<Rightarrow> tok list" where
  "matcher_toks m = [(TkIdent, m_name m), fixed (matcher_kind (m_op m)), (TkString, m_val m)]"

definition selector_toks :: "vectorSelector \<Rightarrow> tok list" where
  "selector_toks vs =
     (TkIdent, vs_metric vs)
     # (if vs_matches vs = [] then []
        else fixed TkLBrace # sep_by TkComma (map matcher_toks (vs_matches vs)) @ [fixed TkRBrace])"

definition modifier_toks :: "string list \<Rightarrow> string list \<Rightarrow> tok list" where
  "modifier_toks bys wo =
     (let labs = (\<lambda>ls. fixed TkLParen # sep_by TkComma (map (\<lambda>l. [(TkIdent, l)]) ls) @ [fixed TkRParen])
      in if bys \<noteq> [] then fixed TkBy # labs bys
         else if wo \<noteq> [] then fixed TkWithout # labs wo else [])"

definition op_kind :: "string \<Rightarrow> tok_kind" where
  "op_kind op =
     (if op = ''+'' then TkPlus else if op = ''-'' then TkMinus else if op = ''*'' then TkStar
      else if op = ''/'' then TkSlash else if op = ''>'' then TkGt else if op = ''<'' then TkLt
      else if op = ''>='' then TkGte else if op = ''<='' then TkLte else if op = ''=='' then TkEqCmp
      else TkNeq)"

fun toks :: "(f64 \<Rightarrow> string) \<Rightarrow> node \<Rightarrow> tok list" where
  "toks fl (VectorSel vs) = selector_toks vs"
| "toks fl (RangeSel vs d txt) =
     selector_toks vs @ [fixed TkLBracket, (TkDuration, txt), fixed TkRBracket]"
| "toks fl (Call name args) =
     (TkIdent, name) # fixed TkLParen # sep_by TkComma (map (toks fl) args) @ [fixed TkRParen]"
| "toks fl (Aggr op arg bys wo phi) =
     (TkIdent, op) # fixed TkLParen
     # (case phi of None \<Rightarrow> [] | Some v \<Rightarrow> [(TkNumber, fl v), fixed TkComma])
     @ toks fl arg @ [fixed TkRParen] @ modifier_toks bys wo"
| "toks fl (NumLit v) = [(TkNumber, fl v)]"
| "toks fl (Bin op l r) =
     fixed TkLParen # toks fl l @ (op_kind op, op) # toks fl r @ [fixed TkRParen]"

definition pretty :: "(f64 \<Rightarrow> string) \<Rightarrow> node \<Rightarrow> string" where
  "pretty fl n = spelled (toks fl n)"

text \<open>The trees the parser can produce, up to the grouping parentheses.\<close>

definition wf_selector :: "vectorSelector \<Rightarrow> bool" where
  "wf_selector vs \<longleftrightarrow> wf_ident (vs_metric vs) \<and> list_all (\<lambda>m. wf_ident (m_name m)) (vs_matches vs)"

definition wf_num :: "(f64 \<Rightarrow> string) \<Rightarrow> f64 \<Rightarrow> bool" where
  "wf_num fl v \<longleftrightarrow> wf_number (fl v) \<and> parse_decimal (fl v) = Some v"

fun wf_node :: "(f64 \<Rightarrow> string) \<Rightarrow> node \<Rightarrow> bool" where
  "wf_node fl (VectorSel vs) \<longleftrightarrow> wf_selector vs"
| "wf_node fl (RangeSel vs d txt) \<longleftrightarrow>
     wf_selector vs \<and> wf_duration txt \<and> parseDuration txt = Some d"
| "wf_node fl (Call name args) \<longleftrightarrow>
     wf_ident name \<and> \<not> isAggrName name \<and> list_all (wf_node fl) args"
| "wf_node fl (Aggr op arg bys wo phi) \<longleftrightarrow>
     wf_ident op \<and> isAggrName op \<and> wf_node fl arg \<and> (op = ''quantile'' \<longleftrightarrow> phi \<noteq> None)
     \<and> (case phi of None \<Rightarrow> True | Some v \<Rightarrow> wf_num fl v)
     \<and> (bys = [] \<or> wo = []) \<and> list_all wf_ident bys \<and> list_all wf_ident wo"
| "wf_node fl (NumLit v) \<longleftrightarrow> wf_num fl v"
| "wf_node fl (Bin op l r) \<longleftrightarrow> (is_arith_op op \<or> is_cmp_op op) \<and> wf_node fl l \<and> wf_node fl r"

section \<open>The parser reads the printed tokens back\<close>

lemma fixed_kind [simp]: "fst (fixed k) = k"
  by (simp add: fixed_def)

lemma matcher_op_kind [simp]: "matcher_op (matcher_kind op) = Some op"
  by (cases op) (simp_all add: matcher_op_def matcher_kind_def)

lemma tk_fixed: "tk t = fixed k \<Longrightarrow> tok_kind t = k"
  by (auto simp: fixed_def tk_def)

lemma tk_fixed_sym: "fixed k = tk t \<Longrightarrow> tok_kind t = k"
  by (auto simp: fixed_def tk_def)

lemma tk_pair: "tk t = (k, v) \<Longrightarrow> tok_kind t = k \<and> tok_val t = v"
  by (simp add: tk_def)

lemma map_Cons_split: "map f xs = y # ys \<longleftrightarrow> (\<exists>z zs. xs = z # zs \<and> f z = y \<and> map f zs = ys)"
  by (cases xs) auto

lemmas split_toks = map_eq_append_conv map_Cons_split

lemma matcher_eta: "\<lparr>m_name = m_name m, m_op = m_op m, m_val = m_val m\<rparr> = m"
  by (cases m) simp

lemma parseMatchers_toks:
  assumes "map tk ts = sep_by TkComma (map matcher_toks ms)" "tok_kind b = TkRBrace"
  shows "parseMatchers (ts @ b # rest) acc = Inr (acc @ ms, rest)"
  using assms(1)
proof (induction ms arbitrary: ts acc)
  case Nil
  then show ?case using assms(2) by (subst parseMatchers.simps) simp
next
  case (Cons m ms)
  obtain nm op v r where ts: "ts = nm # op # v # r" and k: "tk nm = (TkIdent, m_name m)"
    "tk op = fixed (matcher_kind (m_op m))" "tk v = (TkString, m_val m)"
    and r: "map tk r = (if ms = [] then [] else fixed TkComma # sep_by TkComma (map matcher_toks ms))"
    using Cons.prems by (auto simp: matcher_toks_def [of m] split_toks simp del: map_is_Nil_conv)
  have step: "parseMatchers (ts @ b # rest) acc =
      parseMatchers (skip_comma (r @ b # rest)) (acc @ [m])"
    using k by (subst parseMatchers.simps) (simp add: ts tk_eq tk_fixed matcher_eta)
  show ?case
  proof (cases "ms = []")
    case True
    then show ?thesis
      using step r assms(2) Cons.IH [of "[]" "acc @ [m]"] by (simp add: skip_comma_def)
  next
    case False
    then obtain c r' where "r = c # r'" "tok_kind c = TkComma"
      "map tk r' = sep_by TkComma (map matcher_toks ms)"
      using r by (auto simp: map_Cons_split dest: tk_fixed tk_fixed_sym)
    then show ?thesis using step Cons.IH [of r' "acc @ [m]"] by (simp add: skip_comma_def)
  qed
qed

definition head_in :: "tok_kind set \<Rightarrow> token list \<Rightarrow> bool" where
  "head_in K ts \<longleftrightarrow> ts \<noteq> [] \<and> tok_kind (hd ts) \<in> K"

lemma head_in_simps [simp]: "\<not> head_in K []" "head_in K (t # ts) \<longleftrightarrow> tok_kind t \<in> K"
  by (simp_all add: head_in_def)

abbreviation postfix_kinds :: "tok_kind set" where
  "postfix_kinds \<equiv> {TkLBrace, TkLBracket, TkLParen, TkBy, TkWithout}"

abbreviation op_kinds :: "tok_kind set" where
  "op_kinds \<equiv> {TkStar, TkSlash, TkPlus, TkMinus, TkGt, TkLt, TkGte, TkLte, TkEqCmp, TkNeq}"

lemma selector_matchers:
  assumes "map tk r = tl (selector_toks vs)" "\<not> head_in {TkLBrace} rest"
  shows "(case r @ rest of t # r' \<Rightarrow> if tok_kind t = TkLBrace then parseMatchers r' [] else Inr ([], r @ rest)
          | [] \<Rightarrow> Inr ([], [])) = Inr (vs_matches vs, rest)"
proof (cases "vs_matches vs = []")
  case True
  with assms have "r = []" by (simp add: selector_toks_def)
  with True assms(2) show ?thesis by (cases rest) auto
next
  case False
  then obtain b ts e where r: "r = b # ts @ [e]" "tok_kind b = TkLBrace" "tok_kind e = TkRBrace"
    "map tk ts = sep_by TkComma (map matcher_toks (vs_matches vs))"
    using assms(1) by (auto simp: selector_toks_def split_toks dest!: tk_fixed tk_fixed_sym)
  with parseMatchers_toks [OF r(4,3), of rest "[]"] show ?thesis by simp
qed

lemma parseSelectorTail_toks:
  assumes "map tk r = tl (selector_toks vs)" "\<not> head_in postfix_kinds rest"
  shows "parseSelectorTail (r @ rest) (vs_metric vs) = Inr (VectorSel vs, rest)"
proof -
  have h: "\<not> head_in {TkLBrace} rest" using assms(2) by (auto simp: head_in_def)
  show ?thesis
    unfolding parseSelectorTail_def selector_matchers [OF assms(1) h]
    using assms(2) by (cases rest) auto
qed

lemma parseSelectorTail_range:
  assumes "map tk r = tl (selector_toks vs)" "tok_kind b = TkLBracket" "tok_kind e = TkRBracket"
    "tk d = (TkDuration, txt)" "parseDuration txt = Some dur"
  shows "parseSelectorTail (r @ b # d # e # rest) (vs_metric vs) = Inr (RangeSel vs dur txt, rest)"
proof -
  have h: "\<not> head_in {TkLBrace} (b # d # e # rest)" using assms(2) by simp
  show ?thesis
    unfolding parseSelectorTail_def selector_matchers [OF assms(1) h]
    using assms by (simp add: tk_eq)
qed

lemma parseLabels_toks:
  assumes "tok_kind p = TkRParen"
  shows "ls \<noteq> [] \<Longrightarrow> map tk ts = sep_by TkComma (map (\<lambda>l. [(TkIdent, l)]) ls) \<Longrightarrow>
    parseLabels (ts @ p # rest) acc = Inr (acc @ ls, p # rest)"
proof (induction ls arbitrary: ts acc)
  case Nil
  then show ?case by simp
next
  case (Cons l ls)
  show ?case
  proof (cases "ls = []")
    case True
    with Cons assms show ?thesis by (auto simp: split_toks tk_eq)
  next
    case False
    with Cons.prems obtain t c r where "ts = t # c # r" "tk t = (TkIdent, l)" "tok_kind c = TkComma"
      "map tk r = sep_by TkComma (map (\<lambda>l. [(TkIdent, l)]) ls)"
      by (auto simp: split_toks dest: tk_fixed tk_fixed_sym)
    with Cons.IH [OF False, of r "acc @ [l]"] show ?thesis by (simp add: tk_eq)
  qed
qed

lemma parseModifier_toks:
  assumes "map tk ts = modifier_toks bys wo" "bys = [] \<or> wo = []" "\<not> head_in postfix_kinds rest"
  shows "parseModifier (ts @ rest) = Inr ((bys, wo), rest)"
proof (cases "bys = [] \<and> wo = []")
  case True
  with assms have "ts = []" by (simp add: modifier_toks_def)
  with True assms(3) show ?thesis by (cases rest) (auto simp: parseModifier_def)
next
  case False
  define ls where "ls = (if bys \<noteq> [] then bys else wo)"
  have "ls \<noteq> []" using False by (auto simp: ls_def)
  have "map tk ts = fixed (if bys \<noteq> [] then TkBy else TkWithout) # fixed TkLParen
      # sep_by TkComma (map (\<lambda>l. [(TkIdent, l)]) ls) @ [fixed TkRParen]"
    using assms(1) False by (auto simp: modifier_toks_def ls_def Let_def)
  then obtain m b us e where ts: "ts = m # b # us @ [e]" "tok_kind b = TkLParen" "tok_kind e = TkRParen"
    "tok_kind m = (if bys \<noteq> [] then TkBy else TkWithout)"
    "map tk us = sep_by TkComma (map (\<lambda>l. [(TkIdent, l)]) ls)"
    by (auto simp: split_toks dest!: tk_fixed tk_fixed_sym)
  show ?thesis
    using parseLabels_toks [OF ts(3) \<open>ls \<noteq> []\<close> ts(5), of rest "[]"] ts assms(2)
    by (auto simp: parseModifier_def ls_def split: if_splits)
qed

text \<open>\<open>reads pe fl n\<close>: the parser \<open>pe\<close> reads the tokens of the expression \<open>n\<close> back.\<close>

definition reads :: "node tparser \<Rightarrow> (f64 \<Rightarrow> string) \<Rightarrow> node \<Rightarrow> tok_kind set \<Rightarrow> bool" where
  "reads pe fl n K \<longleftrightarrow>
     (\<forall>ts rest. map tk ts = toks fl n \<longrightarrow> \<not> head_in (postfix_kinds \<union> K) rest \<longrightarrow>
        pe (ts @ rest) = Inr (n, rest))"

lemma readsD:
  "reads pe fl n K \<Longrightarrow> map tk ts = toks fl n \<Longrightarrow> \<not> head_in (postfix_kinds \<union> K) rest \<Longrightarrow>
   pe (ts @ rest) = Inr (n, rest)"
  by (simp add: reads_def)

lemma toks_neq_Nil [simp]: "toks fl n \<noteq> []"
  by (cases n) (auto simp: selector_toks_def)

lemma parseArgs_toks:
  assumes "tok_kind p = TkRParen"
  shows "args \<noteq> [] \<Longrightarrow> map tk ts = sep_by TkComma (map (toks fl) args) \<Longrightarrow>
    (\<And>a. a \<in> set args \<Longrightarrow> reads pe fl a op_kinds) \<Longrightarrow> length args \<le> n \<Longrightarrow>
    parseArgs pe n (ts @ p # rest) = Inr (args, p # rest)"
proof (induction args arbitrary: ts n)
  case Nil
  then show ?case by simp
next
  case (Cons a args)
  obtain m where n: "n = Suc m" using Cons.prems(4) by (cases n) auto
  show ?case
  proof (cases "args = []")
    case True
    with Cons.prems assms readsD [of pe fl a op_kinds ts "p # rest"] show ?thesis by (simp add: n)
  next
    case False
    with Cons.prems(2) obtain us c r where ts: "ts = us @ c # r" "map tk us = toks fl a"
      "tok_kind c = TkComma" "map tk r = sep_by TkComma (map (toks fl) args)"
      by (auto simp: split_toks dest: tk_fixed tk_fixed_sym)
    have "pe (us @ c # r @ p # rest) = Inr (a, c # r @ p # rest)"
      using Cons.prems(3) ts by (intro readsD [of pe fl a op_kinds]) auto
    with Cons.IH [OF False ts(4), of m] Cons.prems ts n show ?thesis by auto
  qed
qed

text \<open>One precedence level: passing an operand through, and joining two.\<close>

definition level :: "(tok_kind \<Rightarrow> bool) \<Rightarrow> node tparser \<Rightarrow> node tparser" where
  "level isop sub ts = bindE (sub ts) (\<lambda>(left, r). binLoop isop sub (Suc (length r)) left r)"

lemma binLoop_stop: "\<not> head_in {k. isop k} r \<Longrightarrow> binLoop isop sub (Suc n) x r = Inr (x, r)"
  by (cases r) auto

lemma level_pass: "sub ts = Inr (x, r) \<Longrightarrow> \<not> head_in {k. isop k} r \<Longrightarrow> level isop sub ts = Inr (x, r)"
  by (simp add: level_def binLoop_stop del: binLoop.simps)

lemma level_join:
  assumes "sub ts = Inr (l, c # ts')" "isop (tok_kind c)" "sub ts' = Inr (r, rest)"
    "\<not> head_in {k. isop k} rest"
  shows "level isop sub ts = Inr (Bin (tok_val c) l r, rest)"
  using assms binLoop_stop [OF assms(4), where n = "length ts'"]
  by (simp add: level_def del: binLoop.simps) (simp only: binLoop.simps(2) list.case if_True bindE_Inr prod.case)

lemma parseBinMul_level: "parseBinMul pe = level is_mul_kind (parsePrimary pe)"
  and parseBinAdd_level: "parseBinAdd pe = level is_add_kind (parseBinMul pe)"
  by (auto simp: fun_eq_iff parseBinMul_def parseBinAdd_def level_def)

lemma kinds_sets: "{k. is_mul_kind k} = {TkStar, TkSlash}" "{k. is_add_kind k} = {TkPlus, TkMinus}"
  "{k. is_cmp_kind k} = {TkGt, TkLt, TkGte, TkLte, TkEqCmp, TkNeq}"
  by (auto simp: is_mul_kind_def is_add_kind_def is_cmp_kind_def)

lemma parseBinCmp_pass:
  "parseBinAdd pe ts = Inr (x, r) \<Longrightarrow> \<not> head_in {k. is_cmp_kind k} r \<Longrightarrow> parseBinCmp pe ts = Inr (x, r)"
  by (cases r) (auto simp: parseBinCmp_def)

lemma parseBinCmp_join:
  "parseBinAdd pe ts = Inr (l, c # ts') \<Longrightarrow> is_cmp_kind (tok_kind c) \<Longrightarrow>
   parseBinAdd pe ts' = Inr (r, rest) \<Longrightarrow> parseBinCmp pe ts = Inr (Bin (tok_val c) l r, rest)"
  by (simp add: parseBinCmp_def)

lemma reads_pass:
  assumes "reads p fl n K" "\<And>ts x r. p ts = Inr (x, r) \<Longrightarrow> \<not> head_in J r \<Longrightarrow> q ts = Inr (x, r)"
    "K \<union> J \<subseteq> L"
  shows "reads q fl n L"
  unfolding reads_def
proof (intro allI impI)
  fix ts rest
  assume *: "map tk ts = toks fl n" "\<not> head_in (postfix_kinds \<union> L) rest"
  then have "\<not> head_in (postfix_kinds \<union> K) rest" "\<not> head_in J rest"
    using assms(3) by (auto simp: head_in_def)
  with * assms(1,2) show "q (ts @ rest) = Inr (n, rest)" by (blast dest: readsD)
qed

lemma reads_mul: "reads (parsePrimary pe) fl n {} \<Longrightarrow> reads (parseBinMul pe) fl n {TkStar, TkSlash}"
  unfolding parseBinMul_level by (rule reads_pass [OF _ level_pass]) (auto simp: kinds_sets)

lemma reads_add:
  "reads (parsePrimary pe) fl n {} \<Longrightarrow> reads (parseBinAdd pe) fl n {TkStar, TkSlash, TkPlus, TkMinus}"
  unfolding parseBinAdd_level by (rule reads_pass [OF reads_mul level_pass]) (auto simp: kinds_sets)

lemma reads_cmp: "reads (parsePrimary pe) fl n {} \<Longrightarrow> reads (parseBinCmp pe) fl n op_kinds"
  by (rule reads_pass [OF reads_add parseBinCmp_pass]) (auto simp: kinds_sets)

text \<open>Joining two operands inside parentheses, at the level of the operator.\<close>

lemma op_kind_cases:
  assumes "is_arith_op op \<or> is_cmp_op op"
  obtains "is_mul_kind (op_kind op)" | "is_add_kind (op_kind op)" | "is_cmp_kind (op_kind op)"
  using assms
  by (auto simp: is_arith_op_def is_cmp_op_def op_kind_def is_mul_kind_def is_add_kind_def is_cmp_kind_def)

lemma level_join_reads:
  assumes "reads sub fl l K" "reads sub fl r K" "map tk ls = toks fl l" "map tk rs = toks fl r"
    "isop (tok_kind c)" "tok_kind c \<notin> postfix_kinds \<union> K"
    "\<not> head_in (postfix_kinds \<union> K) rest" "\<not> head_in {k. isop k} rest"
  shows "level isop sub (ls @ c # rs @ rest) = Inr (Bin (tok_val c) l r, rest)"
proof (rule level_join [OF _ assms(5) _ assms(8)])
  show "sub (ls @ c # rs @ rest) = Inr (l, c # rs @ rest)"
    using assms(6) by (intro readsD [OF assms(1,3)]) simp
  show "sub (rs @ rest) = Inr (r, rest)"
    using assms(7) by (intro readsD [OF assms(2,4)])
qed

lemma parseBinCmp_Bin:
  assumes l: "reads (parsePrimary pe) fl l {}" and r: "reads (parsePrimary pe) fl r {}"
    and ls: "map tk ls = toks fl l" and rs: "map tk rs = toks fl r"
    and c: "tok_kind c = op_kind op" "tok_val c = op"
    and op: "is_arith_op op \<or> is_cmp_op op" and e: "tok_kind e = TkRParen"
  shows "parseBinCmp pe (ls @ c # rs @ e # rest) = Inr (Bin op l r, e # rest)"
  using op
proof (cases rule: op_kind_cases)
  case 1
  then have "level is_mul_kind (parsePrimary pe) (ls @ c # rs @ e # rest) = Inr (Bin (tok_val c) l r, e # rest)"
    using c e by (intro level_join_reads [OF l r ls rs]) (auto simp: is_mul_kind_def)
  then show ?thesis
    using e c
    by (intro parseBinCmp_pass) (auto simp: parseBinAdd_level parseBinMul_level kinds_sets intro!: level_pass)
next
  case 2
  then have "level is_add_kind (parseBinMul pe) (ls @ c # rs @ e # rest) = Inr (Bin (tok_val c) l r, e # rest)"
    using c e by (intro level_join_reads [OF reads_mul [OF l] reads_mul [OF r] ls rs])
      (auto simp: is_add_kind_def)
  then show ?thesis
    using e c by (intro parseBinCmp_pass) (auto simp: parseBinAdd_level kinds_sets)
next
  case 3
  have "parseBinAdd pe (ls @ c # rs @ e # rest) = Inr (l, c # rs @ e # rest)"
    using 3 c by (intro readsD [OF reads_add [OF l] ls]) (auto simp: is_cmp_kind_def)
  moreover have "parseBinAdd pe (rs @ e # rest) = Inr (r, e # rest)"
    using e by (intro readsD [OF reads_add [OF r] rs]) simp
  ultimately show ?thesis using parseBinCmp_join 3 c by metis
qed

lemma hd_toks: "fst (hd (toks fl n)) \<in> {TkIdent, TkLParen, TkNumber}"
  by (cases n) (auto simp: selector_toks_def fixed_def)

lemma length_sep_toks: "length args \<le> length (sep_by TkComma (map (toks fl) args))"
proof (induction args)
  case (Cons a args)
  have "1 \<le> length (toks fl a)" using toks_neq_Nil [of fl a] by (cases "toks fl a") auto
  with Cons show ?case by (cases args) auto
qed simp

lemma parseCallOrAggr_toks:
  assumes "tok_kind b = TkLParen" "tok_kind e = TkRParen"
    "map tk us = sep_by TkComma (map (toks fl) args)"
    "\<And>a. a \<in> set args \<Longrightarrow> reads pe fl a op_kinds"
  shows "parseCallOrAggr pe name (b # us @ e # rest) = finishCall name args rest"
proof (cases args)
  case Nil
  with assms show ?thesis by (simp add: parseCallOrAggr_def parseArgList_def)
next
  case (Cons a as)
  have len: "length args \<le> length us"
    using length_sep_toks [of args fl] arg_cong [OF assms(3), of length] by simp
  then obtain u us' where us: "us = u # us'" using Cons by (cases us) auto
  have "tk u = hd (toks fl a)"
    using assms(3) Cons us by (cases "toks fl a") auto
  then have "tok_kind u \<noteq> TkRParen"
    using hd_toks [of fl a] by (cases "hd (toks fl a)") (auto simp: tk_eq)
  moreover have "parseArgs pe (Suc (length (us @ e # rest))) (us @ e # rest) = Inr (args, e # rest)"
    using assms len Cons by (intro parseArgs_toks [of _ _ _ fl]) auto
  ultimately show ?thesis
    using assms(1,2) us by (simp add: parseCallOrAggr_def parseArgList_def del: parseArgs.simps)
qed

definition call_args :: "f64 option \<Rightarrow> node \<Rightarrow> node list" where
  "call_args phi arg = (case phi of None \<Rightarrow> [arg] | Some v \<Rightarrow> [NumLit v, arg])"

lemma call_args_toks:
  "sep_by TkComma (map (toks fl) (call_args phi arg))
   = (case phi of None \<Rightarrow> [] | Some v \<Rightarrow> [(TkNumber, fl v), fixed TkComma]) @ toks fl arg"
  by (cases phi) (simp_all add: call_args_def)

lemma aggr_args_call_args:
  "isAggrName op \<Longrightarrow> (op = ''quantile'' \<longleftrightarrow> phi \<noteq> None) \<Longrightarrow>
   aggr_args op (call_args phi arg) = Inr (arg, phi)"
  by (cases phi) (auto simp: aggr_args_def call_args_def)

lemma parsePrimary_ident:
  "tk t = (TkIdent, s) \<Longrightarrow> head_in {TkLParen} r \<Longrightarrow> parsePrimary pe (t # r) = parseCallOrAggr pe s r"
  "tk t = (TkIdent, s) \<Longrightarrow> \<not> head_in {TkLParen} r \<Longrightarrow> parsePrimary pe (t # r) = parseSelectorTail r s"
  by (cases r; simp add: parsePrimary_def parseIdentLike_def tk_eq)+

lemma reads_NumLit: "wf_num fl v \<Longrightarrow> reads (parsePrimary pe) fl (NumLit v) K"
  by (auto simp: reads_def wf_num_def parsePrimary_def tk_eq split_toks)

lemma selector_split:
  assumes "map tk ts = selector_toks vs"
  obtains t r where "ts = t # r" "tk t = (TkIdent, vs_metric vs)" "map tk r = tl (selector_toks vs)"
  using assms by (auto simp: selector_toks_def map_Cons_split)

lemma head_selector_tail:
  assumes "map tk r = tl (selector_toks vs)" "\<not> head_in {TkLParen} rest"
  shows "\<not> head_in {TkLParen} (r @ rest)"
proof (cases "vs_matches vs = []")
  case True
  with assms show ?thesis by (simp add: selector_toks_def)
next
  case False
  with assms show ?thesis
    by (auto simp: selector_toks_def map_Cons_split fixed_def tk_def)
qed

lemma reads_VectorSel: "reads (parsePrimary pe) fl (VectorSel vs) {}"
  unfolding reads_def
proof (intro allI impI)
  fix ts rest
  assume *: "map tk ts = toks fl (VectorSel vs)" "\<not> head_in (postfix_kinds \<union> {}) rest"
  then obtain t r where ts: "ts = t # r" "tk t = (TkIdent, vs_metric vs)"
    "map tk r = tl (selector_toks vs)"
    by (auto elim: selector_split)
  have "\<not> head_in {TkLParen} (r @ rest)"
    using * by (intro head_selector_tail [OF ts(3)]) (auto simp: head_in_def)
  then show "parsePrimary pe (ts @ rest) = Inr (VectorSel vs, rest)"
    using * parseSelectorTail_toks [OF ts(3)] by (simp add: ts parsePrimary_ident)
qed

lemma reads_RangeSel:
  assumes "parseDuration txt = Some d"
  shows "reads (parsePrimary pe) fl (RangeSel vs d txt) {}"
  unfolding reads_def
proof (intro allI impI)
  fix ts rest
  assume "map tk ts = toks fl (RangeSel vs d txt)" "\<not> head_in (postfix_kinds \<union> {}) rest"
  then obtain us b m e where us: "ts = us @ [b, m, e]" "map tk us = selector_toks vs"
    "tok_kind b = TkLBracket" "tok_kind e = TkRBracket" "tk m = (TkDuration, txt)"
    by (auto simp: split_toks dest!: tk_fixed tk_fixed_sym)
  obtain t r where ts: "us = t # r" "tk t = (TkIdent, vs_metric vs)"
    "map tk r = tl (selector_toks vs)"
    by (rule selector_split [OF us(2)])
  have "\<not> head_in {TkLParen} (r @ b # m # e # rest)"
    using us by (intro head_selector_tail [OF ts(3)]) simp
  then show "parsePrimary pe (ts @ rest) = Inr (RangeSel vs d txt, rest)"
    using parseSelectorTail_range [OF ts(3) us(3,4,5) assms] by (simp add: ts us parsePrimary_ident)
qed

lemma reads_call:
  assumes "\<And>a. a \<in> set args \<Longrightarrow> reads pe fl a op_kinds"
    and "\<And>ms rest. map tk ms = mods \<Longrightarrow> \<not> head_in postfix_kinds rest \<Longrightarrow>
      finishCall name args (ms @ rest) = Inr (n, rest)"
    and "toks fl n = (TkIdent, name) # fixed TkLParen # sep_by TkComma (map (toks fl) args) @ fixed TkRParen # mods"
  shows "reads (parsePrimary pe) fl n {}"
  unfolding reads_def
proof (intro allI impI)
  fix ts rest
  assume *: "map tk ts = toks fl n" "\<not> head_in (postfix_kinds \<union> {}) rest"
  obtain t b us e ms where ts: "ts = t # b # us @ e # ms" "tk t = (TkIdent, name)" "tok_kind b = TkLParen"
    "map tk us = sep_by TkComma (map (toks fl) args)" "tok_kind e = TkRParen" "map tk ms = mods"
    using *(1) unfolding assms(3) by (auto simp: split_toks dest!: tk_fixed tk_fixed_sym)
  have "parsePrimary pe (ts @ rest) = parseCallOrAggr pe name (b # us @ e # ms @ rest)"
    using ts by (simp add: parsePrimary_ident)
  also have "\<dots> = finishCall name args (ms @ rest)"
    using assms(1) by (rule parseCallOrAggr_toks [OF ts(3,5,4)])
  also have "\<dots> = Inr (n, rest)" using assms(2) [OF ts(6)] *(2) by simp
  finally show "parsePrimary pe (ts @ rest) = Inr (n, rest)" .
qed

lemma reads_Bin:
  assumes "reads (parsePrimary pe) fl l {}" "reads (parsePrimary pe) fl r {}"
    "is_arith_op op \<or> is_cmp_op op"
  shows "reads (parsePrimary (parseBinCmp pe)) fl (Bin op l r) {}"
  unfolding reads_def
proof (intro allI impI)
  fix ts rest
  assume "map tk ts = toks fl (Bin op l r)"
  then obtain b ls c rs e where ts: "ts = b # ls @ c # rs @ [e]" "tok_kind b = TkLParen"
    "map tk ls = toks fl l" "tk c = (op_kind op, op)" "map tk rs = toks fl r" "tok_kind e = TkRParen"
    by (auto simp: split_toks append_eq_map_conv dest!: tk_fixed tk_fixed_sym)
  have "parseBinCmp pe (ls @ c # rs @ e # rest) = Inr (Bin op l r, e # rest)"
    using ts assms by (intro parseBinCmp_Bin) (auto simp: tk_eq)
  then show "parsePrimary (parseBinCmp pe) (ts @ rest) = Inr (Bin op l r, rest)"
    using ts by (simp add: parsePrimary_def)
qed

lemma length_sep_by_mem: "xs \<in> set xss \<Longrightarrow> length xs \<le> length (sep_by k xss)"
  by (induction xss) auto

lemma reads_node:
  "wf_node fl n \<Longrightarrow> length (toks fl n) \<le> k \<Longrightarrow> reads (parsePrimary (parseExpr k)) fl n {}"
proof (induction n arbitrary: k)
  case (VectorSel vs)
  show ?case by (rule reads_VectorSel)
next
  case (RangeSel vs d dt)
  then show ?case by (intro reads_RangeSel) simp
next
  case (NumLit v)
  then show ?case by (intro reads_NumLit) simp
next
  case (Bin op l r)
  then obtain k' where k: "k = Suc k'" by (cases k) auto
  with Bin show ?case by (simp add: reads_Bin)
next
  case (Call name args)
  then obtain k' where k: "k = Suc k'" by (cases k) auto
  have "reads (parseBinCmp (parseExpr k')) fl a op_kinds" if "a \<in> set args" for a
    using that Call.prems length_sep_by_mem [of "toks fl a" "map (toks fl) args" TkComma] k
    by (intro reads_cmp Call.IH) (auto simp: list_all_iff)
  then show ?case
    using Call.prems
    by (intro reads_call [where name = name and args = args and mods = "[]"]) (simp_all add: k finishCall_def)
next
  case (Aggr op arg bys wo phi)
  then obtain k' where k: "k = Suc k'" by (cases k) auto
  have arg: "reads (parseBinCmp (parseExpr k')) fl arg op_kinds"
    using Aggr.prems k by (intro reads_cmp Aggr.IH) auto
  have phi: "reads (parseBinCmp (parseExpr k')) fl (NumLit v) op_kinds" if "phi = Some v" for v
    using that Aggr.prems by (intro reads_cmp reads_NumLit) simp
  have fin: "finishCall op (call_args phi arg) (ms @ rest) = Inr (Aggr op arg bys wo phi, rest)"
    if "map tk ms = modifier_toks bys wo" "\<not> head_in postfix_kinds rest" for ms rest
    using parseModifier_toks [OF that(1) _ that(2)] aggr_args_call_args [of op phi arg] Aggr.prems
    by (simp add: finishCall_def)
  show ?case
    using arg phi fin
    by (intro reads_call [where name = op and args = "call_args phi arg" and mods = "modifier_toks bys wo"])
      (auto simp: k call_args_def simp flip: call_args_toks split: option.splits)
qed

lemma parse_toks:
  assumes "wf_node fl n"
  shows "parse (placed i (toks fl n)) = Inr (n, [])"
proof -
  have "reads (parseBinCmp (parseExpr (length (toks fl n)))) fl n op_kinds"
    by (intro reads_cmp reads_node assms) simp
  from readsD [OF this, of "placed i (toks fl n)" "[]"]
  show ?thesis by (simp add: parse_def)
qed

section \<open>The round trip\<close>

lemma wf_fixed: "fixed_text k \<noteq> None \<Longrightarrow> wf_tok (fixed k)"
  by (cases k) (auto simp: fixed_def fixed_text_def)

lemma wf_fixed_simps [simp]:
  "wf_tok (fixed TkLBrace)" "wf_tok (fixed TkRBrace)" "wf_tok (fixed TkLParen)" "wf_tok (fixed TkRParen)"
  "wf_tok (fixed TkLBracket)" "wf_tok (fixed TkRBracket)" "wf_tok (fixed TkComma)" "wf_tok (fixed TkBy)"
  "wf_tok (fixed TkWithout)" "wf_tok (fixed (matcher_kind op))"
  by (auto intro!: wf_fixed simp: fixed_text_def matcher_kind_def split: matcherOp.splits)

lemma wf_op: "is_arith_op op \<or> is_cmp_op op \<Longrightarrow> wf_tok (op_kind op, op)"
  unfolding is_arith_op_def is_cmp_op_def by (elim disjE insertE emptyE) (simp_all add: op_kind_def fixed_text_def)

lemma list_all_sep_by:
  "P (fixed k) \<Longrightarrow> (\<And>xs. xs \<in> set xss \<Longrightarrow> list_all P xs) \<Longrightarrow> list_all P (sep_by k xss)"
  by (induction xss) auto

lemma matcher_toks_wf: "wf_ident (m_name m) \<Longrightarrow> list_all wf_tok (matcher_toks m)"
  by (simp add: matcher_toks_def)

lemma wf_selector_toks: "wf_selector vs \<Longrightarrow> list_all wf_tok (selector_toks vs)"
proof -
  assume *: "wf_selector vs"
  then have "list_all wf_tok (sep_by TkComma (map matcher_toks (vs_matches vs)))"
    by (intro list_all_sep_by) (use * in \<open>auto simp: wf_selector_def list.pred_set [of "\<lambda>m. wf_ident (m_name m)"] intro: matcher_toks_wf\<close>)
  with * show ?thesis by (simp add: selector_toks_def wf_selector_def)
qed

lemma wf_modifier_toks:
  "list_all wf_ident bys \<Longrightarrow> list_all wf_ident wo \<Longrightarrow> list_all wf_tok (modifier_toks bys wo)"
proof -
  assume *: "list_all wf_ident bys" "list_all wf_ident wo"
  have "list_all wf_tok (sep_by TkComma (map (\<lambda>l. [(TkIdent, l)]) ls))" if "list_all wf_ident ls" for ls
    using that by (intro list_all_sep_by) (auto simp: list_all_iff)
  with * show ?thesis by (simp add: modifier_toks_def Let_def)
qed

lemma wf_toks: "wf_node fl n \<Longrightarrow> list_all wf_tok (toks fl n)"
proof (induction n)
  case (Call name args)
  then have "list_all wf_tok (sep_by TkComma (map (toks fl) args))"
    by (intro list_all_sep_by) (auto simp: list_all_iff)
  with Call.prems show ?case by simp
next
  case (Bin op l r)
  then show ?case by (simp add: wf_op del: wf_tok.simps)
qed (auto simp: wf_selector_toks wf_modifier_toks wf_num_def split: option.splits)

lemma apart_fixed [simp]:
  "apart (fixed k) u \<longleftrightarrow> k \<noteq> TkNumber \<or> fst u \<notin> {TkIdent, TkDuration}"
  "apart t (fixed k) \<longleftrightarrow> fst t \<noteq> TkNumber \<or> k \<notin> {TkIdent, TkDuration}"
  by (auto simp: apart_def)

lemma apart_pair [simp]: "k \<noteq> TkNumber \<Longrightarrow> apart (k, v) u"
  by (simp add: apart_def)

lemma successively_sep_by:
  "(\<And>xs. xs \<in> set xss \<Longrightarrow> successively apart xs) \<Longrightarrow> successively apart (sep_by TkComma xss)"
proof (induction xss)
  case (Cons xs xss)
  then show ?case by (auto simp: successively_append_iff successively_Cons)
qed simp

lemma successively_selector: "successively apart (selector_toks vs)"
proof -
  have "successively apart (sep_by TkComma (map matcher_toks (vs_matches vs)))"
    by (rule successively_sep_by) (auto simp: matcher_toks_def apart_def)
  then show ?thesis
    by (auto simp: selector_toks_def successively_append_iff successively_Cons)
qed

lemma successively_modifier: "successively apart (modifier_toks bys wo)"
proof -
  have "successively apart (sep_by TkComma (map (\<lambda>l. [(TkIdent, l)]) ls))" for ls
    by (rule successively_sep_by) auto
  then show ?thesis
    by (auto simp: modifier_toks_def Let_def successively_append_iff successively_Cons)
qed

lemma op_kind_apart: "apart t (op_kind op, op)" "apart (op_kind op, op) u"
  by (simp_all add: apart_def op_kind_def)

lemma modifier_head: "modifier_toks bys wo \<noteq> [] \<Longrightarrow> apart t (hd (modifier_toks bys wo))"
  by (auto simp: modifier_toks_def Let_def)

lemma successively_toks: "successively apart (toks fl n)"
proof (induction n)
  case (Call name args)
  then have "successively apart (sep_by TkComma (map (toks fl) args))"
    by (intro successively_sep_by) auto
  then show ?case by (auto simp: successively_append_iff successively_Cons)
next
  case (Aggr op arg bys wo phi)
  then show ?case
    using successively_modifier [of bys wo] modifier_head [of bys wo]
    by (auto simp: successively_append_iff successively_Cons split: option.splits)
qed (auto simp: successively_append_iff successively_Cons successively_selector op_kind_apart)

lemma tokenize_pretty: "wf_node fl n \<Longrightarrow> tokenize (pretty fl n) = Inr (placed 0 (toks fl n))"
  using tokenize_spelled [OF wf_toks] successively_toks by (simp add: pretty_def no_adjacent_def)

lemma pretty_neq_Nil [simp]: "pretty fl n \<noteq> []"
  using toks_neq_Nil [of fl n] by (cases "toks fl n") (auto simp: pretty_def)

lemma wf_node_set_vals [simp]: "wf_node fl (set_vals f n) \<longleftrightarrow> wf_node fl n"
proof (induction n)
  case (Call name args)
  then show ?case by (simp add: list_all_iff)
qed (auto simp: wf_selector_def set_vs_vals_def set_m_val_def list_all_iff)

end
