(* ===== verification/PromProps.thy ===== *)
theory PromProps
  imports PromRoundtrip
begin

text \<open>
  The end-to-end properties of \<open>promql.Translate\<close>. Each is stated for arbitrary query text; the
  lemmas about the lowering they rest on are in \<open>PromSafety\<close>.
\<close>

section \<open>Translate\<close>

lemma Translate_Inr:
  assumes "Translate re_ok fmtg now p = Inr r"
  obtains tokens ast rest where "tokenize (qp_query p) = Inr tokens" "parse tokens = Inr (ast, rest)"
    "lower re_ok fmtg ast (bounds_of now p) = Inr r" "qp_query p \<noteq> []"
  using assms
  by (auto simp: Translate_def bindE_eq_Inr split: if_splits)

text \<open>A sample request used by the witnesses.\<close>

definition sample_query :: string where
  "sample_query = ''sum(rate_total{job='' @ quote ''a?b'' @ ''}) by (job)''"

definition sample_params :: "string \<Rightarrow> query_params" where
  "sample_params q = \<lparr>qp_query = q, qp_start = Some 0, qp_end = Some hour, qp_step = 0\<rparr>"

definition sample_selector :: vectorSelector where
  "sample_selector =
     \<lparr>vs_metric = ''rate_total'', vs_matches = [\<lparr>m_name = ''job'', m_op = MatchEq, m_val = ''a?b''\<rparr>]\<rparr>"

lemma sample_parse:
  "bindE (mapL TokenizeError (tokenize sample_query)) (\<lambda>ts. mapL ParseError (parse ts))
   = Inr (Aggr ''sum'' (VectorSel sample_selector) [''job''] [] None, [])"
  by code_simp

definition accept_all :: "string \<Rightarrow> bool" where
  "accept_all s \<longleftrightarrow> True"

definition fmt_zero :: "f64 \<Rightarrow> string" where
  "fmt_zero v = ''0''"

lemma Translate_via_parse:
  assumes "qp_query p \<noteq> []"
    and "bindE (mapL TokenizeError (tokenize (qp_query p))) (\<lambda>ts. mapL ParseError (parse ts)) = Inr (ast, rest)"
  shows "Translate re_ok fmtg now p = mapL LowerError (lower re_ok fmtg ast (bounds_of now p))"
  using assms by (auto simp: Translate_def bindE_eq_Inr)

lemma Translate_query:
  assumes "q \<noteq> []"
    and "bindE (mapL TokenizeError (tokenize q)) (\<lambda>ts. mapL ParseError (parse ts)) = Inr (ast, rest)"
  shows "Translate re_ok fmtg now (p\<lparr>qp_query := q\<rparr>) = mapL LowerError (lower re_ok fmtg ast (bounds_of now p))"
proof -
  have "bounds_of now (p\<lparr>qp_query := q\<rparr>) = bounds_of now p" by (simp add: bounds_of_def)
  then show ?thesis
    using Translate_via_parse [of "p\<lparr>qp_query := q\<rparr>" ast rest re_ok fmtg now] assms by simp
qed

lemma Translate_sample:
  "\<exists>r. Translate accept_all fmt_zero now (sample_params sample_query) = Inr r \<and>
       pr_args r = bound_args sample_selector (bounds_of now (sample_params sample_query))"
proof -
  have ne: "sample_query \<noteq> []" by (simp add: sample_query_def)
  have "Translate accept_all fmt_zero now (sample_params sample_query) =
      mapL LowerError (lower accept_all fmt_zero
        (Aggr ''sum'' (VectorSel sample_selector) [''job''] [] None)
        (bounds_of now (sample_params sample_query)))"
    using sample_parse ne by (intro Translate_via_parse) (simp_all add: sample_params_def)
  then show ?thesis
    by (simp add: lowerAggr_def where_parts_def sample_selector_def matcherSQL_def aggr_expr_def
        bound_args_def Let_def)
qed

text \<open>
  Every statement the translator returns has exactly as many placeholders as bound arguments,
  for every query text, so a query can neither shift the arguments nor leave one unbound. (A
  formatted number contains no question mark.)
\<close>

theorem translate_placeholders:
  assumes "\<And>v. marks (fmtg v) = 0"
    and "Translate re_ok fmtg now p = Inr r"
  shows "marks (pr_sql r) = length (pr_args r)"
  by (rule Translate_Inr [OF assms(2)]) (rule lower_marks [OF assms(1)])

theorem translate_placeholders_witness:
  "\<exists>r. Translate accept_all fmt_zero 0 (sample_params sample_query) = Inr r \<and>
       marks (pr_sql r) = 4"
proof -
  obtain r where r: "Translate accept_all fmt_zero 0 (sample_params sample_query) = Inr r"
    and a: "pr_args r = bound_args sample_selector (bounds_of 0 (sample_params sample_query))"
    using Translate_sample by blast
  have "marks (pr_sql r) = length (pr_args r)"
    by (rule translate_placeholders [OF _ r]) (simp add: fmt_zero_def)
  with r a show ?thesis by (simp add: bound_args_def sample_selector_def)
qed

text \<open>
  The statement binds the metric name first, then the value of every matcher in order, then the
  two ends of the time range, whatever the shape of the query. The time range is the request's,
  defaulted to the last hour.
\<close>

theorem translate_arguments:
  assumes "Translate re_ok fmtg now p = Inr r"
  shows "\<exists>tokens ast rest vs. tokenize (qp_query p) = Inr tokens \<and> parse tokens = Inr (ast, rest) \<and>
    selectors ast = [vs] \<and>
    pr_args r =
      AStr (vs_metric vs) # map (\<lambda>m. AStr (m_val m)) (vs_matches vs)
      @ [ATime (case qp_start p of Some s \<Rightarrow> s
                | None \<Rightarrow> (case qp_end p of Some e \<Rightarrow> e | None \<Rightarrow> now) - hour),
         ATime (case qp_end p of Some e \<Rightarrow> e | None \<Rightarrow> now)]"
proof (rule Translate_Inr [OF assms])
  fix tokens ast rest
  assume *: "tokenize (qp_query p) = Inr tokens" "parse tokens = Inr (ast, rest)"
    "lower re_ok fmtg ast (bounds_of now p) = Inr r"
  from lower_args [OF *(3)] obtain vs where "selectors ast = [vs]" "pr_args r = bound_args vs (bounds_of now p)"
    by blast
  with * show ?thesis
    by (auto simp: bound_args_def bounds_of_def Let_def o_def split: option.splits)
qed

theorem translate_arguments_witness:
  "\<exists>r (vs :: vectorSelector). Translate accept_all fmt_zero 0 (sample_params sample_query) = Inr r \<and>
     pr_args r = AStr (vs_metric vs) # map (\<lambda>m. AStr (m_val m)) (vs_matches vs)
       @ [ATime 0, ATime hour]"
proof -
  obtain r where r: "Translate accept_all fmt_zero 0 (sample_params sample_query) = Inr r"
    using Translate_sample by blast
  show ?thesis
    using translate_arguments [OF r] r by (auto simp: sample_params_def)
qed

section \<open>Round trip\<close>

definition sample_node :: node where
  "sample_node =
     Aggr ''sum'' (Bin ''/'' (VectorSel sample_selector) (Call ''abs'' [VectorSel sample_selector]))
       [''job'', ''pod''] [] None"

definition fl_zero :: "f64 \<Rightarrow> string" where
  "fl_zero v = ''0''"

lemma sample_node_wf: "wf_node fl_zero sample_node" "wf_node fl_zero (VectorSel sample_selector)"
  by code_simp+

text \<open>
  C1. Printing a syntax tree and reading the text back gives the same tree: the tokenizer and the
  parser recover every tree of the supported subset (selectors with any label values, ranges,
  calls, aggregations with modifiers, binary operators at every level), consuming all the input.
\<close>

theorem parse_pretty:
  assumes "wf_node fl n"
  shows "\<exists>ts. tokenize (pretty fl n) = Inr ts \<and> parse ts = Inr (n, [])"
  using tokenize_pretty [OF assms] parse_toks [OF assms] by simp

theorem parse_pretty_witness:
  "\<exists>ts. tokenize (pretty fl_zero sample_node) = Inr ts \<and> parse ts = Inr (sample_node, [])"
  by (rule parse_pretty [OF sample_node_wf(1)])

lemma Translate_pretty:
  "wf_node fl n \<Longrightarrow> qp_query p = pretty fl n \<Longrightarrow>
   Translate re_ok fmtg now p = mapL LowerError (lower re_ok fmtg n (bounds_of now p))"
  by (simp add: Translate_def tokenize_pretty parse_toks)

text \<open>
  C2. Label values never reach the SQL text: writing other strings, whatever bytes they hold, into
  the literals of a query changes the bound arguments of its translation only.
\<close>

theorem translate_value_free:
  assumes "wf_node fl n"
    and "Translate re_ok fmtg now (p\<lparr>qp_query := pretty fl n\<rparr>) = Inr r"
    and "Translate re_ok fmtg now (p\<lparr>qp_query := pretty fl (set_vals f n)\<rparr>) = Inr r'"
  shows "pr_sql r' = pr_sql r \<and> length (pr_args r') = length (pr_args r)"
proof -
  let ?b = "bounds_of now p"
  have b: "bounds_of now (p\<lparr>qp_query := q\<rparr>) = ?b" for q by (simp add: bounds_of_def)
  have r: "lower re_ok fmtg n ?b = Inr r"
    using assms(2) Translate_pretty [OF assms(1), of "p\<lparr>qp_query := pretty fl n\<rparr>"] by (simp add: b)
  have r': "lower re_ok fmtg (set_vals f n) ?b = Inr r'"
    using assms(1,3) Translate_pretty [of fl "set_vals f n" "p\<lparr>qp_query := pretty fl (set_vals f n)\<rparr>"]
    by (simp add: b)
  show ?thesis
    using lower_value_free [OF r r'] lower_args_length [OF r r'] by simp
qed

lemma Translate_selector:
  "\<exists>r. Translate accept_all fmtg now (p\<lparr>qp_query := pretty fl_zero (VectorSel sample_selector)\<rparr>) = Inr r \<and>
       length (pr_args r) = 4"
  "\<exists>r. Translate accept_all fmtg now
         (p\<lparr>qp_query := pretty fl_zero (set_vals f (VectorSel sample_selector))\<rparr>) = Inr r"
proof -
  have 1: "Translate accept_all fmtg now (p\<lparr>qp_query := pretty fl_zero (VectorSel sample_selector)\<rparr>)
      = mapL LowerError (lower accept_all fmtg (VectorSel sample_selector) (bounds_of now p))"
    using Translate_pretty [OF sample_node_wf(2)] by (simp add: bounds_of_def)
  have wf: "wf_node fl_zero (set_vals f (VectorSel sample_selector))"
    using sample_node_wf(2) by (simp only: wf_node_set_vals)
  have 2: "Translate accept_all fmtg now
        (p\<lparr>qp_query := pretty fl_zero (set_vals f (VectorSel sample_selector))\<rparr>)
      = mapL LowerError (lower accept_all fmtg (set_vals f (VectorSel sample_selector)) (bounds_of now p))"
    using Translate_pretty [OF wf] by (simp add: bounds_of_def)
  note defs = lowerAggr_def where_parts_def sample_selector_def matcherSQL_def aggr_expr_def
    set_vs_vals_def set_m_val_def Let_def
  show "\<exists>r. Translate accept_all fmtg now (p\<lparr>qp_query := pretty fl_zero (VectorSel sample_selector)\<rparr>) = Inr r \<and>
       length (pr_args r) = 4"
    unfolding 1 by (simp add: defs)
  show "\<exists>r. Translate accept_all fmtg now
         (p\<lparr>qp_query := pretty fl_zero (set_vals f (VectorSel sample_selector))\<rparr>) = Inr r"
    unfolding 2 by (simp add: defs)
qed

theorem translate_value_free_witness:
  "\<exists>r r'. Translate accept_all fmt_zero 0
        ((sample_params [])\<lparr>qp_query := pretty fl_zero (VectorSel sample_selector)\<rparr>) = Inr r \<and>
      Translate accept_all fmt_zero 0
        ((sample_params [])\<lparr>qp_query := pretty fl_zero
          (set_vals (\<lambda>v. v @ quote ''} or'') (VectorSel sample_selector))\<rparr>) = Inr r' \<and>
      pr_sql r' = pr_sql r"
  using Translate_selector [where fmtg = fmt_zero and now = 0 and p = "sample_params []"]
    translate_value_free [OF sample_node_wf(2)]
  by blast

section \<open>Totality and early stops\<close>

text \<open>
  C23. The parser always returns: on every token list it either reports one of its errors or builds
  a tree and has consumed at least one token. (The fuel of the model, one unit per token, is never
  exhausted.)
\<close>

theorem parse_total:
  "parse ts \<noteq> Inl PFuel \<and>
   (\<exists>e. parse ts = Inl e) \<noteq> (\<exists>n rest. parse ts = Inr (n, rest) \<and> length rest < length ts)"
  using parse_okr [of ts] by (cases "parse ts") (auto simp: okr_def)

text \<open>
  \<open>Translate\<close> does not check that the parser read the whole query. With the modifier before the
  argument, as in \<open>sum by (job) (up)\<close>, the aggregation is dropped: the query is translated exactly
  like the bare metric named \<open>sum\<close>.
\<close>

theorem translate_drops_leading_by:
  "Translate re_ok fmtg now (p\<lparr>qp_query := ''sum by (job) (up)''\<rparr>)
   = Translate re_ok fmtg now (p\<lparr>qp_query := ''sum''\<rparr>)"
proof -
  let ?P = "\<lambda>q. bindE (mapL TokenizeError (tokenize q)) (\<lambda>ts. mapL ParseError (parse ts))"
  have "map_sum id fst (?P ''sum by (job) (up)'') = Inr (VectorSel \<lparr>vs_metric = ''sum'', vs_matches = []\<rparr>)"
    "map_sum id fst (?P ''sum'') = Inr (VectorSel \<lparr>vs_metric = ''sum'', vs_matches = []\<rparr>)"
    by code_simp+
  then obtain r1 r2 where "?P ''sum by (job) (up)'' = Inr (VectorSel \<lparr>vs_metric = ''sum'', vs_matches = []\<rparr>, r1)"
    "?P ''sum'' = Inr (VectorSel \<lparr>vs_metric = ''sum'', vs_matches = []\<rparr>, r2)"
    by (auto simp: map_sum_def split: sum.splits)
  note * = this
  show ?thesis
    using Translate_query [OF _ *(1), of re_ok fmtg now p] Translate_query [OF _ *(2), of re_ok fmtg now p]
    by simp
qed

end
