(* ===== verification/LogQL.thy ===== *)
theory LogQL
  imports PromLower
begin

text \<open>
  \<open>pkg/logql/logql.go\<close>: the LogQL translator. The Go code works on substrings of the query; the
  model recurses on the remaining bytes, carrying the previous byte where the code looks one byte
  back. Parameters: \<open>re_ok\<close> (whether \<open>regexp.Compile\<close> accepts a pattern) and \<open>scan_ok\<close> (whether
  \<open>fmt.Sscanf\<close> reads a \<open>%f\<close> from the text; the value read is discarded by the caller).
\<close>

section \<open>Data\<close>

record lq_params =
  lqp_query :: string
  lqp_start :: "int option"
  lqp_end :: "int option"
  lqp_step :: int
  lqp_limit :: int

record lq_bounds =
  lqb_start :: int
  lqb_end :: int
  lqb_step :: int
  lqb_limit :: int

record lq_result =
  lqr_sql :: string
  lqr_args :: "sql_arg list"
  lqr_is_logs :: bool

record lqMatcher =
  lqm_name :: string
  lqm_op :: string
  lqm_val :: string

record lqLineFilter =
  lqf_op :: string
  lqf_val :: string

datatype lq_error =
  LqEmpty | LqUnsupportedFn string | LqNoDuration | LqBadDuration | LqNoSelector
| LqUnterminatedSelector | LqUnquoted string | LqNoOp string | LqTrailing string
| LqFilterUnquoted | LqFilterUnterminated | LqBadRegex string | LqUnknownOp string

section \<open>Parsing\<close>

text \<open>\<open>toggles\<close>: a double quote that is not preceded by a backslash.\<close>

definition toggles :: "char option \<Rightarrow> char \<Rightarrow> bool" where
  "toggles prev c \<longleftrightarrow> c = quote_char \<and> prev \<noteq> Some backslash"

fun split_commas :: "char option \<Rightarrow> int \<Rightarrow> bool \<Rightarrow> string \<Rightarrow> string \<Rightarrow> string list" where
  "split_commas prev depth inStr cur [] = [cur]"
| "split_commas prev depth inStr cur (c # cs) =
     (if toggles prev c then split_commas (Some c) depth (\<not> inStr) (cur @ [c]) cs
      else if inStr then split_commas (Some c) depth inStr (cur @ [c]) cs
      else if c \<in> {CHR ''{'', CHR ''['', CHR ''(''} then split_commas (Some c) (depth + 1) inStr (cur @ [c]) cs
      else if c \<in> {CHR ''}'', CHR '']'', CHR '')''} then split_commas (Some c) (depth - 1) inStr (cur @ [c]) cs
      else if c = CHR '','' \<and> depth = 0 then cur # split_commas (Some c) depth inStr [] cs
      else split_commas (Some c) depth inStr (cur @ [c]) cs)"

definition splitTopLevelCommas :: "string \<Rightarrow> string list" where
  "splitTopLevelCommas s = split_commas None 0 False [] s"

fun index_op :: "string \<Rightarrow> char option \<Rightarrow> bool \<Rightarrow> nat \<Rightarrow> string \<Rightarrow> nat option" where
  "index_op op prev inStr i [] = None"
| "index_op op prev inStr i (c # cs) =
     (if length (c # cs) < length op then None
      else
        let inStr' = (if toggles prev c then \<not> inStr else inStr)
        in if \<not> inStr' \<and> has_prefix (c # cs) op then Some i
           else index_op op (Some c) inStr' (i + 1) cs)"

definition indexOpOutsideString :: "string \<Rightarrow> string \<Rightarrow> nat option" where
  "indexOpOutsideString s op = index_op op None False 0 s"

definition quoted :: "string \<Rightarrow> bool" where
  "quoted v \<longleftrightarrow> has_prefix v [quote_char] \<and> has_suffix v [quote_char] \<and> 2 \<le> length v"

text \<open>The operators are tried in this order, and a match at index 0 is skipped.\<close>

fun parseMatcher_ops :: "string list \<Rightarrow> string \<Rightarrow> lq_error + lqMatcher" where
  "parseMatcher_ops [] s = Inl (LqNoOp s)"
| "parseMatcher_ops (op # ops) s =
     (case indexOpOutsideString s op of
        Some (Suc k) \<Rightarrow>
          (let name = trim_space (take (Suc k) s);
               v = trim_space (drop (Suc k + length op) s)
           in if \<not> quoted v then Inl (LqUnquoted s)
              else Inr \<lparr>lqm_name = name, lqm_op = op, lqm_val = take (length v - 2) (drop 1 v)\<rparr>)
      | _ \<Rightarrow> parseMatcher_ops ops s)"

definition lq_matcher_ops :: "string list" where
  "lq_matcher_ops = [''=~'', ''!~'', ''!='', ''='']"

definition parseMatcher :: "string \<Rightarrow> lq_error + lqMatcher" where
  "parseMatcher s = parseMatcher_ops lq_matcher_ops s"

definition parseStreamSelector :: "string \<Rightarrow> lq_error + lqMatcher list \<times> string" where
  "parseStreamSelector q0 =
     (let q = trim_space q0 in
      if \<not> has_prefix q ''{'' then Inl LqNoSelector
      else
        case index_byte (CHR ''}'') q of
          None \<Rightarrow> Inl LqUnterminatedSelector
        | Some e \<Rightarrow>
            let inner = take (e - 1) (drop 1 q); rest = trim_space (drop (Suc e) q);
                parts = filter (\<lambda>p. p \<noteq> []) (map trim_space (splitTopLevelCommas inner))
            in bindE (mapE parseMatcher parts) (\<lambda>ms. Inr (ms, rest)))"

text \<open>The index of the closing quote; a backslash skips the byte after it.\<close>

fun closing_quote :: "string \<Rightarrow> nat option" where
  "closing_quote [] = None"
| "closing_quote (c # cs) =
     (if c = backslash then
        (case cs of [] \<Rightarrow> None | d # ds \<Rightarrow> map_option (\<lambda>j. j + 2) (closing_quote ds))
      else if c = quote_char then Some 0
      else map_option Suc (closing_quote cs))"

lemma closing_quote_bound: "closing_quote s = Some j \<Longrightarrow> j < length s"
  by (induction s arbitrary: j rule: closing_quote.induct) (auto split: if_splits list.splits)

definition line_op :: "string \<Rightarrow> string option" where
  "line_op s =
     (if has_prefix s ''|='' then Some ''|=''
      else if has_prefix s ''|~'' then Some ''|~''
      else if has_prefix s ''!='' then Some ''!=''
      else if has_prefix s ''!~'' then Some ''!~''
      else None)"

lemma line_op_length: "line_op s = Some op \<Longrightarrow> length op = 2 \<and> 2 \<le> length s"
  by (auto simp: line_op_def has_prefix_def split: if_splits)
    (metis length_Cons length_take list.size(3) min_def nat_le_linear numeral_2_eq_2)+

function line_filters :: "string \<Rightarrow> lqLineFilter list \<Rightarrow> lq_error + lqLineFilter list" where
  "line_filters s out =
     (if s = [] then Inr out
      else
        case line_op s of
          None \<Rightarrow> Inl (LqTrailing s)
        | Some op \<Rightarrow>
            let s1 = trim_space (drop (length op) s) in
            if \<not> has_prefix s1 [quote_char] then Inl LqFilterUnquoted
            else
              case closing_quote (drop 1 s1) of
                None \<Rightarrow> Inl LqFilterUnterminated
              | Some j \<Rightarrow>
                  line_filters (trim_space (drop (j + 2) s1))
                    (out @ [\<lparr>lqf_op = op, lqf_val = take j (drop 1 s1)\<rparr>]))"
  by pat_completeness auto
termination
proof (relation "measure (\<lambda>(s, out). length s)", goal_cases)
  case 1
  show ?case by simp
next
  case (2 s out op s1 j)
  then have "length s1 \<le> length s - 2"
    using line_op_length [of s op] length_trim_space [of "drop (length op) s"] by simp
  moreover have "length (trim_space (drop (j + 2) s1)) \<le> length s1"
    using length_trim_space [of "drop (j + 2) s1"] by simp
  moreover have "2 \<le> length s" using line_op_length [of s op] 2 by simp
  ultimately have "length (trim_space (drop (j + 2) s1)) < length s" by linarith
  then show ?case by simp
qed

declare line_filters.simps [simp del]

definition parseLineFilters :: "string \<Rightarrow> lq_error + lqLineFilter list" where
  "parseLineFilters s = line_filters (trim_space s) []"

section \<open>Rendering\<close>

definition safeKey :: "string \<Rightarrow> string" where
  "safeKey s = (if list_all rune_safe (runes s) then s else ''INVALID'')"

definition columnFor :: "string \<Rightarrow> string" where
  "columnFor label =
     (let l = to_lower label in
      if l = ''service'' \<or> l = ''service_name'' then ''service_name''
      else if l = ''severity'' \<or> l = ''level'' then ''severity''
      else if l = ''trace_id'' \<or> l = ''traceid'' then ''trace_id''
      else if l = ''span_id'' \<or> l = ''spanid'' then ''span_id''
      else attr_col (safeKey label))"

definition lq_matcherSQL :: "(string \<Rightarrow> bool) \<Rightarrow> lqMatcher \<Rightarrow> lq_error + string \<times> string" where
  "lq_matcherSQL re_ok m =
     (let col = columnFor (lqm_name m) in
      if lqm_op m = ''='' then Inr (col @ '' = ?'', lqm_val m)
      else if lqm_op m = ''!='' then Inr (col @ '' != ?'', lqm_val m)
      else if lqm_op m = ''=~'' then
        (if re_ok (lqm_val m) then Inr (''match('' @ col @ '', ?)'', lqm_val m)
         else Inl (LqBadRegex (lqm_val m)))
      else if lqm_op m = ''!~'' then
        (if re_ok (lqm_val m) then Inr (''NOT match('' @ col @ '', ?)'', lqm_val m)
         else Inl (LqBadRegex (lqm_val m)))
      else Inl (LqUnknownOp (lqm_op m)))"

definition lineFilterSQL :: "(string \<Rightarrow> bool) \<Rightarrow> lqLineFilter \<Rightarrow> lq_error + string \<times> string" where
  "lineFilterSQL re_ok f =
     (if lqf_op f = ''|='' then Inr (''positionCaseInsensitive(body, ?) > 0'', lqf_val f)
      else if lqf_op f = ''!='' then Inr (''positionCaseInsensitive(body, ?) = 0'', lqf_val f)
      else if lqf_op f = ''|~'' then
        (if re_ok (lqf_val f) then Inr (''match(body, ?)'', lqf_val f) else Inl (LqBadRegex (lqf_val f)))
      else if lqf_op f = ''!~'' then
        (if re_ok (lqf_val f) then Inr (''NOT match(body, ?)'', lqf_val f) else Inl (LqBadRegex (lqf_val f)))
      else Inl (LqUnknownOp (lqf_op f)))"

section \<open>Queries\<close>

text \<open>The part both query forms share: selector clauses, then line-filter clauses, with their
  values. The matchers are rendered before the filters are parsed.\<close>

definition lq_clauses ::
  "(string \<Rightarrow> bool) \<Rightarrow> string \<Rightarrow> lq_error + string list \<times> sql_arg list" where
  "lq_clauses re_ok q =
     bindE (parseStreamSelector q) (\<lambda>(ms, rest).
     bindE (mapE (lq_matcherSQL re_ok) ms) (\<lambda>cms.
     bindE (parseLineFilters rest) (\<lambda>fs.
     bindE (mapE (lineFilterSQL re_ok) fs) (\<lambda>cfs.
       Inr (map fst cms @ map fst cfs, map (AStr \<circ> snd) cms @ map (AStr \<circ> snd) cfs)))))"

definition translateLogs :: "(string \<Rightarrow> bool) \<Rightarrow> string \<Rightarrow> lq_bounds \<Rightarrow> lq_error + lq_result" where
  "translateLogs re_ok q p =
     bindE (lq_clauses re_ok q) (\<lambda>(wheres, args).
       Inr \<lparr>lqr_sql = ''SELECT timestamp, severity, service_name, body, trace_id, span_id, attributes ''
               @ ''FROM logs WHERE '' @ join '' AND '' (wheres @ [''timestamp BETWEEN ? AND ?''])
               @ '' ORDER BY timestamp DESC LIMIT ?'',
            lqr_args = args @ [ATime (lqb_start p), ATime (lqb_end p), AInt (lqb_limit p)],
            lqr_is_logs = True\<rparr>)"

definition isMetricFn :: "string \<Rightarrow> bool" where
  "isMetricFn name \<longleftrightarrow> name \<in> {''count_over_time'', ''rate'', ''bytes_over_time''}"

text \<open>\<open>parseDuration\<close>, reduced to whether it succeeds.\<close>

definition lq_duration_ok :: "(string \<Rightarrow> bool) \<Rightarrow> string \<Rightarrow> bool" where
  "lq_duration_ok scan_ok s \<longleftrightarrow>
     2 \<le> length s \<and>
     (let u = (if has_suffix s ''ms'' then ''ms'' else drop (length s - 1) s)
      in scan_ok (take (length s - length u) s) \<and> u \<in> {''ms'', ''s'', ''m'', ''h'', ''d'', ''w''})"

definition lq_step_seconds :: "lq_bounds \<Rightarrow> int" where
  "lq_step_seconds p = (let s = to_int64 (seconds (lqb_step p)) in if s \<le> 0 then 60 else s)"

definition metric_expr :: "string \<Rightarrow> int \<Rightarrow> string" where
  "metric_expr name step =
     (if name = ''count_over_time'' then ''count()''
      else if name = ''rate'' then ''count() / '' @ show_int step
      else ''sum(length(body))'')"

definition translateMetric ::
  "(string \<Rightarrow> bool) \<Rightarrow> (string \<Rightarrow> bool) \<Rightarrow> string \<Rightarrow> string \<Rightarrow> lq_bounds \<Rightarrow> lq_error + lq_result" where
  "translateMetric re_ok scan_ok name body0 p =
     (if \<not> isMetricFn name then Inl (LqUnsupportedFn name)
      else
        let body = trim_space body0 in
        case last_index_byte (CHR ''['') body of
          None \<Rightarrow> Inl LqNoDuration
        | Some b \<Rightarrow>
            if \<not> has_suffix body '']'' then Inl LqNoDuration
            else if \<not> lq_duration_ok scan_ok (take (length body - 1 - Suc b) (drop (Suc b) body))
            then Inl LqBadDuration
            else
              bindE (lq_clauses re_ok (trim_space (take b body))) (\<lambda>(wheres, args).
                let step = lq_step_seconds p in
                Inr \<lparr>lqr_sql = ''SELECT toStartOfInterval(timestamp, INTERVAL '' @ show_int step
                        @ '' SECOND) AS t, '' @ metric_expr name step @ '' AS v FROM logs WHERE ''
                        @ join '' AND '' (wheres @ [''timestamp BETWEEN ? AND ?''])
                        @ '' GROUP BY t ORDER BY t'',
                     lqr_args = args @ [ATime (lqb_start p), ATime (lqb_end p)],
                     lqr_is_logs = False\<rparr>))"

definition call_name_rune :: "nat \<Rightarrow> bool" where
  "call_name_rune r \<longleftrightarrow> (97 \<le> r \<and> r \<le> 122) \<or> (65 \<le> r \<and> r \<le> 90) \<or> r = 95"

definition splitCall :: "string \<Rightarrow> (string \<times> string) option" where
  "splitCall s =
     (case index_byte (CHR ''('') s of
        None \<Rightarrow> None
      | Some 0 \<Rightarrow> None
      | Some (Suc k) \<Rightarrow>
          let name = trim_space (take (Suc k) s) in
          if \<not> list_all call_name_rune (runes name) then None
          else if \<not> has_suffix s '')'' then None
          else Some (name, take (length s - 1 - (k + 2)) (drop (k + 2) s)))"

definition lq_bounds_of :: "int \<Rightarrow> lq_params \<Rightarrow> lq_bounds" where
  "lq_bounds_of now p =
     (let e = (case lqp_end p of None \<Rightarrow> now | Some t \<Rightarrow> t)
      in \<lparr>lqb_start = (case lqp_start p of None \<Rightarrow> e - hour | Some t \<Rightarrow> t),
          lqb_end = e,
          lqb_step = (if lqp_step p \<le> 0 then 60 * second else lqp_step p),
          lqb_limit = (if lqp_limit p \<le> 0 then 1000 else lqp_limit p)\<rparr>)"

definition lq_Translate ::
  "(string \<Rightarrow> bool) \<Rightarrow> (string \<Rightarrow> bool) \<Rightarrow> int \<Rightarrow> lq_params \<Rightarrow> lq_error + lq_result" where
  "lq_Translate re_ok scan_ok now p =
     (if lqp_query p = [] then Inl LqEmpty
      else
        let b = lq_bounds_of now p; q = trim_space (lqp_query p) in
        case splitCall q of
          Some (name, body) \<Rightarrow> translateMetric re_ok scan_ok name body b
        | None \<Rightarrow> translateLogs re_ok q b)"

end
