(* ===== verification/LogQLProps.thy ===== *)
theory LogQLProps
  imports LogQL PromSafety
begin

text \<open>
  Properties of the LogQL translator: bound arguments, independence of the SQL text from values,
  the round trip of canonical selectors and line filters, and the limits of its scanner.
\<close>

section \<open>The renderers meet the contract\<close>

lemma columnFor_marks [simp]: "marks (columnFor l) = 0"
proof -
  have "list_all safe_char (safeKey l)"
    using sqlEscape_chars [of l] by (simp add: sqlEscape_def safeKey_def)
  then show ?thesis by (simp add: columnFor_def Let_def safe_no_marks)
qed

definition set_lqm_val :: "(string \<Rightarrow> string) \<Rightarrow> lqMatcher \<Rightarrow> lqMatcher" where
  "set_lqm_val f m = m\<lparr>lqm_val := f (lqm_val m)\<rparr>"

definition set_lqf_val :: "(string \<Rightarrow> string) \<Rightarrow> lqLineFilter \<Rightarrow> lqLineFilter" where
  "set_lqf_val f l = l\<lparr>lqf_val := f (lqf_val l)\<rparr>"

interpretation lqm: clause_renderer "lq_matcherSQL re_ok" set_lqm_val for re_ok
proof
  fix m :: lqMatcher and cv
  assume "lq_matcherSQL re_ok m = Inr cv"
  then show "marks (fst cv) = 1"
    by (auto simp: lq_matcherSQL_def Let_def split: if_splits)
next
  fix m :: lqMatcher and cv f cv'
  assume "lq_matcherSQL re_ok m = Inr cv" "lq_matcherSQL re_ok (set_lqm_val f m) = Inr cv'"
  then show "fst cv' = fst cv"
    by (auto simp: lq_matcherSQL_def set_lqm_val_def Let_def split: if_splits)
qed

interpretation lqf: clause_renderer "lineFilterSQL re_ok" set_lqf_val for re_ok
proof
  fix m :: lqLineFilter and cv
  assume "lineFilterSQL re_ok m = Inr cv"
  then show "marks (fst cv) = 1"
    by (auto simp: lineFilterSQL_def split: if_splits)
next
  fix m :: lqLineFilter and cv f cv'
  assume "lineFilterSQL re_ok m = Inr cv" "lineFilterSQL re_ok (set_lqf_val f m) = Inr cv'"
  then show "fst cv' = fst cv"
    by (auto simp: lineFilterSQL_def set_lqf_val_def split: if_splits)
qed

lemma lq_clauses_marks:
  assumes "lq_clauses re_ok q = Inr (w, a)"
  shows "marks (join '' AND '' (w @ [''timestamp BETWEEN ? AND ?''])) = length a + 2"
proof -
  obtain ms fs cms cfs where "mapE (lq_matcherSQL re_ok) ms = Inr cms"
    "mapE (lineFilterSQL re_ok) fs = Inr cfs" "w = map fst cms @ map fst cfs"
    "a = map (AStr \<circ> snd) cms @ map (AStr \<circ> snd) cfs"
    using assms by (auto simp: lq_clauses_def bindE_eq_Inr)
  with lqm.clauses_marks [of re_ok ms cms] lqf.clauses_marks [of re_ok fs cfs]
  show ?thesis by (simp add: marks_join o_def)
qed

lemma translateLogs_marks:
  "translateLogs re_ok q p = Inr r \<Longrightarrow> marks (lqr_sql r) = length (lqr_args r)"
  by (auto simp: translateLogs_def bindE_eq_Inr dest!: lq_clauses_marks)

lemma metric_expr_marks [simp]: "marks (metric_expr name s) = 0"
  by (simp add: metric_expr_def)

lemma translateMetric_marks:
  "translateMetric re_ok scan_ok name body p = Inr r \<Longrightarrow> marks (lqr_sql r) = length (lqr_args r)"
  by (auto simp: translateMetric_def Let_def bindE_eq_Inr split: if_splits option.splits
      dest!: lq_clauses_marks)

section \<open>Canonical queries are read back\<close>

definition name_char :: "char \<Rightarrow> bool" where
  "name_char c \<longleftrightarrow> is_lower c \<or> is_upper c \<or> is_digit c \<or> c = CHR ''_'' \<or> c = CHR ''.'' \<or> c = CHR ''-''"

definition plain :: "string \<Rightarrow> bool" where
  "plain v \<longleftrightarrow> quote_char \<notin> set v \<and> backslash \<notin> set v"

definition wf_lqm :: "lqMatcher \<Rightarrow> bool" where
  "wf_lqm m \<longleftrightarrow> lqm_name m \<noteq> [] \<and> list_all name_char (lqm_name m) \<and> lqm_op m \<in> set lq_matcher_ops
     \<and> plain (lqm_val m) \<and> CHR ''}'' \<notin> set (lqm_val m)"

definition wf_lqf :: "lqLineFilter \<Rightarrow> bool" where
  "wf_lqf f \<longleftrightarrow> lqf_op f \<in> {''|='', ''|~'', ''!='', ''!~''} \<and> plain (lqf_val f)"

definition in_quotes :: "string \<Rightarrow> string" where
  "in_quotes v = quote_char # v @ [quote_char]"

definition print_lqm :: "lqMatcher \<Rightarrow> string" where
  "print_lqm m = lqm_name m @ lqm_op m @ in_quotes (lqm_val m)"

definition print_lqf :: "lqLineFilter \<Rightarrow> string" where
  "print_lqf f = CHR '' '' # lqf_op f @ CHR '' '' # in_quotes (lqf_val f)"

definition print_lq :: "lqMatcher list \<Rightarrow> lqLineFilter list \<Rightarrow> string" where
  "print_lq ms fs = ''{'' @ join '','' (map print_lqm ms) @ ''}'' @ concat (map print_lqf fs)"

lemma quote_not [simp]: "quote_char \<noteq> CHR ''=''" "quote_char \<noteq> CHR ''!''" "quote_char \<noteq> CHR ''~''"
  "quote_char \<noteq> CHR ''}''" "quote_char \<noteq> CHR ''{''" "quote_char \<noteq> CHR '',''" "quote_char \<noteq> CHR ''|''"
  "quote_char \<noteq> CHR '' ''" "CHR ''='' \<noteq> backslash" "CHR ''~'' \<noteq> backslash" "CHR '','' \<noteq> backslash"
  "CHR ''='' \<noteq> quote_char" "CHR ''!'' \<noteq> quote_char" "CHR ''~'' \<noteq> quote_char" "CHR '','' \<noteq> quote_char"
  "CHR ''{'' \<noteq> quote_char" "CHR ''}'' \<noteq> quote_char" "CHR ''|'' \<noteq> quote_char"
  by code_simp+

lemma graph_simps [simp]: "graph quote_char" "graph (CHR ''{'')" "graph (CHR ''}'')" "graph (CHR ''|'')"
  "graph (CHR ''!'')"
  by code_simp+

lemma name_char_facts:
  assumes "name_char c"
  shows "c \<noteq> quote_char" "c \<noteq> CHR ''=''" "c \<noteq> CHR ''!''" "c \<notin> {CHR ''{'', CHR ''['', CHR ''(''}"
    "c \<notin> {CHR ''}'', CHR '']'', CHR '')''}" "c \<noteq> CHR '',''" "graph c"
proof -
  have "list_all (\<lambda>c. \<not> name_char c) (quote_char # ''=!{}[](),'')" by code_simp
  from assms this show "c \<noteq> quote_char" "c \<noteq> CHR ''=''" "c \<noteq> CHR ''!''"
    "c \<notin> {CHR ''{'', CHR ''['', CHR ''(''}" "c \<notin> {CHR ''}'', CHR '']'', CHR '')''}" "c \<noteq> CHR '',''"
    by auto
  have "list_all graph ''_.-''" by code_simp
  with assms show "graph c"
    by (auto simp: name_char_def graph_def is_lower_def is_upper_def is_digit_def)
qed

lemma index_op_name:
  assumes "hd op \<in> {CHR ''='', CHR ''!''}" "op \<noteq> []" "length op \<le> length r"
  shows "list_all name_char n \<Longrightarrow>
    index_op op prev False i (n @ r) = index_op op (if n = [] then prev else Some (last n)) False (i + length n) r"
proof (induction n arbitrary: prev i)
  case Nil
  then show ?case by simp
next
  case (Cons c n)
  then have "\<not> toggles prev c" "\<not> has_prefix (c # n @ r) op"
    using name_char_facts [of c] assms by (cases op; auto simp: toggles_def has_prefix_def)+
  with Cons assms(3) show ?case by auto
qed

lemma index_op_string:
  assumes "op \<noteq> []" "hd op \<noteq> quote_char"
  shows "plain v \<Longrightarrow> prev \<noteq> Some backslash \<Longrightarrow> index_op op prev True i (v @ [quote_char]) = None"
proof (induction v arbitrary: prev i)
  case Nil
  then show ?case
    using assms by (cases op) (auto simp: toggles_def Let_def has_prefix_def)
next
  case (Cons c v)
  then have "\<not> toggles prev c" "plain v" "Some c \<noteq> Some backslash" by (auto simp: toggles_def plain_def)
  with Cons.IH show ?case by (simp add: Let_def)
qed

lemma name_graph: "list_all name_char n \<Longrightarrow> n \<noteq> [] \<Longrightarrow> trim_space n = n"
  using name_char_facts(7) by (intro trim_space_graph) (auto simp: list_all_iff)

lemma in_quotes_facts [simp]: "trim_space (in_quotes v) = in_quotes v" "quoted (in_quotes v)"
  "take (length (in_quotes v) - 2) (drop (Suc 0) (in_quotes v)) = v"
proof -
  show "trim_space (in_quotes v) = in_quotes v"
    by (rule trim_space_graph) (simp_all add: in_quotes_def)
qed (simp_all add: quoted_def in_quotes_def has_prefix_def has_suffix_def)

lemma parse_at:
  assumes "wf_lqm m" "indexOpOutsideString (print_lqm m) (lqm_op m) = Some (length (lqm_name m))"
  shows "parseMatcher_ops (lqm_op m # ops) (print_lqm m) = Inr m"
proof -
  have n: "list_all name_char (lqm_name m)" "lqm_name m \<noteq> []" using assms(1) by (auto simp: wf_lqm_def)
  then obtain k where k: "length (lqm_name m) = Suc k" by (cases "lqm_name m") auto
  have "take (Suc k) (print_lqm m) = lqm_name m"
    "drop (Suc k + length (lqm_op m)) (print_lqm m) = in_quotes (lqm_val m)"
    by (simp_all add: print_lqm_def flip: k)
  then show ?thesis
    using assms(2) name_graph [OF n] by (simp add: k Let_def)
qed

lemma parse_skip:
  "indexOpOutsideString s op = None \<Longrightarrow> parseMatcher_ops (op # ops) s = parseMatcher_ops ops s"
  by simp

lemma parseMatcher_print:
  assumes "wf_lqm m"
  shows "parseMatcher (print_lqm m) = Inr m"
proof -
  let ?n = "lqm_name m" and ?v = "lqm_val m"
  let ?r = "lqm_op m @ in_quotes ?v"
  have n: "list_all name_char ?n" "?n \<noteq> []" and v: "plain ?v" using assms by (auto simp: wf_lqm_def)
  have toggles: "\<not> toggles p (CHR ''='')" "\<not> toggles p (CHR ''!'')" "\<not> toggles p (CHR ''~'')"
    "toggles (Some (CHR ''='')) quote_char" "toggles (Some (CHR ''~'')) quote_char" for p
    using quote_not by (auto simp: toggles_def)
  have idx: "indexOpOutsideString (print_lqm m) op
      = index_op op (Some (last ?n)) False (length ?n) ?r"
    if "op \<in> set lq_matcher_ops" for op
    using that n index_op_name [of op ?r ?n None 0]
    by (auto simp: lq_matcher_ops_def indexOpOutsideString_def print_lqm_def in_quotes_def)
  have "index_op op (Some quote_char) True i (?v @ [quote_char]) = None"
    if "op \<in> set lq_matcher_ops" for op i
    using that v quote_not by (intro index_op_string) (auto simp: lq_matcher_ops_def)
  then have str: "index_op ''=~'' (Some quote_char) True i (?v @ [quote_char]) = None"
    "index_op ''!~'' (Some quote_char) True i (?v @ [quote_char]) = None"
    "index_op ''!='' (Some quote_char) True i (?v @ [quote_char]) = None" for i
    by (simp_all add: lq_matcher_ops_def)
  note at = parse_at [OF assms]
  note eval = idx [unfolded lq_matcher_ops_def] has_prefix_def in_quotes_def toggles str
  have "lqm_op m \<in> set lq_matcher_ops" using assms by (simp add: wf_lqm_def)
  then consider "lqm_op m = ''=~''" | "lqm_op m = ''!~''" | "lqm_op m = ''!=''" | "lqm_op m = ''=''"
    by (auto simp: lq_matcher_ops_def)
  then show ?thesis
  proof cases
    case 1
    then show ?thesis
      unfolding parseMatcher_def lq_matcher_ops_def by (intro at [unfolded 1]) (simp add: eval)
  next
    case 2
    then show ?thesis
      unfolding parseMatcher_def lq_matcher_ops_def
      by (subst parse_skip, simp add: eval) (intro at [unfolded 2], simp add: eval)
  next
    case 3
    then show ?thesis
      unfolding parseMatcher_def lq_matcher_ops_def
      by (subst parse_skip, simp add: eval, subst parse_skip, simp add: eval)
        (intro at [unfolded 3], simp add: eval)
  next
    case 4
    then show ?thesis
      unfolding parseMatcher_def lq_matcher_ops_def
      by (subst parse_skip, simp add: eval, subst parse_skip, simp add: eval, subst parse_skip, simp add: eval)
        (intro at [unfolded 4], simp add: eval)
  qed
qed

lemma split_string:
  "plain v \<Longrightarrow> prev \<noteq> Some backslash \<Longrightarrow>
   split_commas prev d True cur (v @ quote_char # r) = split_commas (Some quote_char) d False (cur @ v @ [quote_char]) r"
proof (induction v arbitrary: prev cur)
  case Nil
  then show ?case by (simp add: toggles_def)
next
  case (Cons c v)
  then have "\<not> toggles prev c" "plain v" "Some c \<noteq> Some backslash" by (auto simp: toggles_def plain_def)
  with Cons.IH show ?case by simp
qed

definition quiet :: "char \<Rightarrow> bool" where
  "quiet c \<longleftrightarrow> c \<noteq> quote_char \<and> c \<notin> set ''{[(}]),''"

lemma split_quiet:
  "list_all quiet n \<Longrightarrow>
   split_commas prev d False cur (n @ r) = split_commas (if n = [] then prev else Some (last n)) d False (cur @ n) r"
proof (induction n arbitrary: prev cur)
  case Nil
  then show ?case by simp
next
  case (Cons c n)
  then have "\<not> toggles prev c" "quiet c" by (auto simp: toggles_def quiet_def)
  with Cons show ?case by (simp add: quiet_def)
qed

lemma quiet_op: "op \<in> set lq_matcher_ops \<Longrightarrow> list_all quiet op \<and> op \<noteq> [] \<and> last op \<noteq> backslash"
proof -
  have "list_all (\<lambda>op. list_all quiet op \<and> op \<noteq> [] \<and> last op \<noteq> backslash) lq_matcher_ops" by code_simp
  then show "op \<in> set lq_matcher_ops \<Longrightarrow> list_all quiet op \<and> op \<noteq> [] \<and> last op \<noteq> backslash"
    by (auto simp: list_all_iff)
qed

lemma name_char_quiet: "name_char c \<Longrightarrow> quiet c"
  using name_char_facts [of c] by (simp add: quiet_def)

lemma wf_lqm_quiet:
  assumes "wf_lqm m"
  shows "list_all quiet (lqm_name m @ lqm_op m)"
proof -
  have "list_all quiet (lqm_name m)"
    using assms by (auto simp: wf_lqm_def list_all_iff intro: name_char_quiet)
  then show ?thesis using assms quiet_op [of "lqm_op m"] by (simp add: wf_lqm_def)
qed

lemma split_matcher:
  assumes "wf_lqm m"
  shows "split_commas prev d False cur (print_lqm m @ r)
    = split_commas (Some quote_char) d False (cur @ print_lqm m) r"
proof -
  define n where "n = lqm_name m @ lqm_op m"
  have n: "list_all quiet n" "n \<noteq> []" "last n \<noteq> backslash"
    using wf_lqm_quiet [OF assms] assms quiet_op [of "lqm_op m"] by (auto simp: wf_lqm_def n_def)
  have v: "plain (lqm_val m)" using assms by (simp add: wf_lqm_def)
  have p: "print_lqm m = n @ quote_char # lqm_val m @ [quote_char]"
    by (simp add: print_lqm_def in_quotes_def n_def)
  show ?thesis
    using split_quiet [OF n(1), of prev d cur "quote_char # lqm_val m @ quote_char # r"] n(2,3)
      split_string [OF v, of "Some quote_char"]
    by (simp add: toggles_def p)
qed

lemma split_matchers:
  "list_all wf_lqm ms \<Longrightarrow> ms \<noteq> [] \<Longrightarrow>
   split_commas prev 0 False [] (join '','' (map print_lqm ms)) = map print_lqm ms"
proof (induction ms arbitrary: prev)
  case Nil
  then show ?case by simp
next
  case (Cons m ms)
  show ?case
  proof (cases "ms = []")
    case True
    with Cons.prems split_matcher [of m prev 0 "[]" "[]"] show ?thesis by simp
  next
    case False
    with Cons split_matcher [of m prev 0 "[]" "CHR '','' # join '','' (map print_lqm ms)"]
    show ?thesis by (simp add: join_Cons toggles_def)
  qed
qed

lemma name_op_no_brace:
  assumes "wf_lqm m"
  shows "CHR ''}'' \<notin> set (print_lqm m)"
proof -
  have "\<not> quiet (CHR ''}'')" by (simp add: quiet_def)
  then have "CHR ''}'' \<notin> set (lqm_name m @ lqm_op m)"
    using wf_lqm_quiet [OF assms] by (auto simp: list_all_iff)
  then show ?thesis using assms by (simp add: wf_lqm_def print_lqm_def in_quotes_def)
qed

lemma join_no_brace:
  "(\<And>x. x \<in> set xs \<Longrightarrow> c \<notin> set x) \<Longrightarrow> c \<notin> set sep \<Longrightarrow> c \<notin> set (join sep xs)"
  by (induction sep xs rule: join.induct) auto

lemma print_lqm_trim: "wf_lqm m \<Longrightarrow> trim_space (print_lqm m) = print_lqm m"
  using name_char_facts(7)
  by (intro trim_space_graph) (auto simp: print_lqm_def wf_lqm_def in_quotes_def list_all_iff hd_append)

lemma trim_space_last: "graph c \<Longrightarrow> s \<noteq> [] \<Longrightarrow> last s = c \<Longrightarrow> graph (hd s) \<Longrightarrow> trim_space s = s"
  by (intro trim_space_graph) auto

lemma filters_last: "fs \<noteq> [] \<Longrightarrow> last (concat (map print_lqf fs)) = quote_char"
  by (induction fs) (auto simp: print_lqf_def in_quotes_def)

lemma print_lq_trim: "trim_space (print_lq ms fs) = print_lq ms fs"
proof (rule trim_space_graph)
  show "graph (last (print_lq ms fs))"
    using filters_last [of fs] by (cases fs) (auto simp: print_lq_def print_lqf_def)
qed (simp_all add: print_lq_def)

definition filters_rest :: "lqLineFilter list \<Rightarrow> string" where
  "filters_rest fs = drop 1 (concat (map print_lqf fs))"

lemma filters_trim:
  assumes "list_all wf_lqf fs"
  shows "trim_space (concat (map print_lqf fs)) = filters_rest fs"
    "trim_space (filters_rest fs) = filters_rest fs"
proof -
  have "trim_space (filters_rest fs) = filters_rest fs"
  proof (cases fs)
    case (Cons f gs)
    have "graph (hd (filters_rest fs))" using assms Cons by (auto simp: filters_rest_def print_lqf_def wf_lqf_def)
    moreover have "last (filters_rest fs) = quote_char"
      using filters_last [of fs] Cons by (simp add: filters_rest_def print_lqf_def in_quotes_def split: if_splits)
    ultimately show ?thesis
      by (intro trim_space_last [of quote_char]) (simp_all add: filters_rest_def Cons print_lqf_def in_quotes_def)
  qed (simp add: filters_rest_def)
  moreover have "trim_space (concat (map print_lqf fs)) = trim_space (filters_rest fs)"
    by (cases fs) (simp_all add: filters_rest_def print_lqf_def trim_space_blank)
  ultimately show "trim_space (concat (map print_lqf fs)) = filters_rest fs"
    "trim_space (filters_rest fs) = filters_rest fs" by simp_all
qed

lemma parseStreamSelector_print:
  assumes "list_all wf_lqm ms" "list_all wf_lqf fs"
  shows "parseStreamSelector (print_lq ms fs) = Inr (ms, filters_rest fs)"
proof -
  let ?in = "join '','' (map print_lqm ms)"
  have nb: "CHR ''}'' \<notin> set ?in"
    using assms(1) name_op_no_brace by (intro join_no_brace) (auto simp: list_all_iff)
  have idx: "index_byte (CHR ''}'') (print_lq ms fs) = Some (Suc (length ?in))"
    using index_byte_split [of "CHR ''}''" "CHR ''{'' # ?in" "concat (map print_lqf fs)"] nb
    by (simp add: print_lq_def)
  have parts: "filter (\<lambda>p. p \<noteq> []) (map trim_space (splitTopLevelCommas ?in)) = map print_lqm ms"
  proof (cases "ms = []")
    case False
    have "map trim_space (map print_lqm ms) = map print_lqm ms"
      using assms(1) by (auto simp: list_all_iff print_lqm_trim)
    moreover have "filter (\<lambda>p. p \<noteq> []) (map print_lqm ms) = map print_lqm ms"
      by (auto simp: filter_id_conv print_lqm_def in_quotes_def)
    ultimately show ?thesis
      using split_matchers [OF assms(1) False, of None] by (simp only: splitTopLevelCommas_def)
  qed (simp add: splitTopLevelCommas_def)
  have "mapE parseMatcher (map print_lqm ms) = Inr ms"
    using mapE_total [of ms "parseMatcher \<circ> print_lqm" "\<lambda>m. m"] assms(1) parseMatcher_print
    by (simp add: mapE_map list_all_iff)
  moreover have "drop (Suc (Suc (length ?in))) (print_lq ms fs) = concat (map print_lqf fs)"
    "take (length ?in) (drop (Suc 0) (print_lq ms fs)) = ?in" "has_prefix (print_lq ms fs) ''{''"
    by (simp_all add: print_lq_def has_prefix_def)
  ultimately show ?thesis
    using filters_trim(1) [OF assms(2)]
    by (simp add: parseStreamSelector_def print_lq_trim idx parts Let_def)
qed

lemma closing_quote_plain: "plain v \<Longrightarrow> closing_quote (v @ quote_char # r) = Some (length v)"
  by (induction v) (auto simp: plain_def)

lemma line_op_print:
  "wf_lqf f \<Longrightarrow> line_op (lqf_op f @ r) = Some (lqf_op f) \<and> length (lqf_op f) = 2"
  by (auto simp: wf_lqf_def line_op_def has_prefix_def)

lemma filters_rest_Cons:
  "filters_rest (f # fs) = lqf_op f @ CHR '' '' # in_quotes (lqf_val f) @ concat (map print_lqf fs)"
  by (simp add: filters_rest_def print_lqf_def)

lemma line_filters_print:
  "list_all wf_lqf fs \<Longrightarrow> line_filters (filters_rest fs) out = Inr (out @ fs)"
proof (induction fs arbitrary: out)
  case Nil
  then show ?case by (subst line_filters.simps) (simp add: filters_rest_def)
next
  case (Cons f fs)
  define s1 where "s1 = in_quotes (lqf_val f) @ concat (map print_lqf fs)"
  have f: "wf_lqf f" "list_all wf_lqf fs" using Cons.prems by simp_all
  have "trim_space s1 = s1"
    using filters_last [of fs]
    by (intro trim_space_last [of quote_char]) (cases fs; simp add: in_quotes_def s1_def)+
  then have s1: "trim_space (CHR '' '' # s1) = s1" by (simp only: trim_space_blank)
  have op: "line_op (filters_rest (f # fs)) = Some (lqf_op f)" "length (lqf_op f) = 2"
    using line_op_print [OF f(1)] by (simp_all only: filters_rest_Cons)
  have j: "closing_quote (drop 1 s1) = Some (length (lqf_val f))"
    using f(1) closing_quote_plain [of "lqf_val f"] by (simp add: in_quotes_def wf_lqf_def s1_def)
  have rest: "trim_space (drop (Suc (Suc (length (lqf_val f)))) s1) = filters_rest fs"
    using filters_trim(1) [OF f(2)] by (simp add: in_quotes_def s1_def)
  have eta: "\<lparr>lqf_op = lqf_op f, lqf_val = lqf_val f\<rparr> = f" by (cases f) simp
  have "filters_rest (f # fs) \<noteq> []" "drop (length (lqf_op f)) (filters_rest (f # fs)) = CHR '' '' # s1"
    "has_prefix s1 [quote_char]" "take (length (lqf_val f)) (drop 1 s1) = lqf_val f"
    by (simp_all add: filters_rest_Cons in_quotes_def has_prefix_def s1_def op(2))
  then have "line_filters (filters_rest (f # fs)) out = line_filters (filters_rest fs) (out @ [f])"
    by (subst line_filters.simps) (simp add: op s1 j rest eta Let_def del: One_nat_def drop_append)
  then show ?case using Cons.IH [OF f(2)] by simp
qed

lemma parseLineFilters_print: "list_all wf_lqf fs \<Longrightarrow> parseLineFilters (filters_rest fs) = Inr fs"
  by (simp add: parseLineFilters_def filters_trim line_filters_print)

text \<open>A query that starts with a brace is never taken for a function call.\<close>

lemma leading_space_take:
  "leading_space es s = n \<Longrightarrow> n \<noteq> 0 \<Longrightarrow> \<exists>e \<in> set es. take n s = e \<and> length e = n"
  by (induction es) (auto split: if_splits)

lemma space_bytes: "\<forall>e \<in> set space_encodings_rev. list_all (\<lambda>b. \<not> (33 \<le> b \<and> b \<le> 126)) e"
  by code_simp

lemma trim_right_rev_keeps: "graph c \<Longrightarrow> \<exists>ys. trim_right_rev (xs @ [c]) = ys @ [c]"
proof (induction "length xs" arbitrary: xs rule: less_induct)
  case less
  let ?n = "leading_space space_encodings_rev (codes (xs @ [c]))"
  show ?case
  proof (cases "?n = 0")
    case True
    then have "trim_right_rev (xs @ [c]) = xs @ [c]" by (rule trim_right_rev_nonspace)
    then show ?thesis by blast
  next
    case False
    then obtain e where e: "e \<in> set space_encodings_rev" "take ?n (codes (xs @ [c])) = e" "length e = ?n"
      using leading_space_take [of space_encodings_rev "codes (xs @ [c])" ?n] by auto
    have "?n \<le> length xs"
    proof (rule ccontr)
      assume "\<not> ?n \<le> length xs"
      then have "e = codes (xs @ [c])" using e(2) by (simp add: codes_def)
      then show False using less.prems e(1) space_bytes by (auto simp: codes_def graph_def)
    qed
    then have "trim_right_rev (xs @ [c]) = trim_right_rev (drop ?n xs @ [c])"
      using False by (subst trim_right_rev.simps) (simp add: Let_def)
    then show ?thesis using less.hyps [of "drop ?n xs"] less.prems False \<open>?n \<le> length xs\<close> by auto
  qed
qed

lemma trim_space_hd: "graph c \<Longrightarrow> \<exists>ys. trim_space (c # s) = c # ys"
  using trim_right_rev_keeps [of c "rev s"] by (auto simp: trim_space_def trim_left_graph) (metis rev_rev_ident)

lemma splitCall_brace: "splitCall (CHR ''{'' # s) = None"
proof (cases "index_byte (CHR ''('') (CHR ''{'' # s)")
  case None
  then show ?thesis by (simp add: splitCall_def)
next
  case (Some i)
  show ?thesis
  proof (cases i)
    case 0
    then show ?thesis using Some by (simp add: splitCall_def)
  next
    case (Suc k)
    obtain ys where "trim_space (take (Suc k) (CHR ''{'' # s)) = CHR ''{'' # ys"
      using trim_space_hd [of "CHR ''{''" "take k s"] by auto
    moreover have "\<not> list_all call_name_rune (runes (CHR ''{'' # ys))"
      by (simp add: runes_def codes_def decode_rune_ascii call_name_rune_def)
    ultimately show ?thesis using Some Suc by (simp add: splitCall_def Let_def)
  qed
qed

definition sample_lqm :: "string \<Rightarrow> lqMatcher" where
  "sample_lqm v = \<lparr>lqm_name = ''app'', lqm_op = ''!='', lqm_val = v\<rparr>"

definition sample_lqf :: "string \<Rightarrow> lqLineFilter" where
  "sample_lqf v = \<lparr>lqf_op = ''|~'', lqf_val = v\<rparr>"

lemma sample_lq_wf: "list_all wf_lqm [sample_lqm ''a, b=c'', sample_lqm ''x'']"
  "list_all wf_lqf [sample_lqf ''(x|y)'', sample_lqf ''?'']"
  by code_simp+

text \<open>
  C5. A log query written with quoted values is read back exactly: selector matchers with their
  operators in order, and the line filters, whatever the values hold apart from quotes,
  backslashes and (in the selector) closing braces; it is not mistaken for a metric query.
\<close>

theorem lq_read_back:
  assumes "list_all wf_lqm ms" "list_all wf_lqf fs"
  shows "splitCall (trim_space (print_lq ms fs)) = None \<and>
    (\<exists>rest. parseStreamSelector (print_lq ms fs) = Inr (ms, rest) \<and> parseLineFilters rest = Inr fs)"
  using parseStreamSelector_print [OF assms] parseLineFilters_print [OF assms(2)] splitCall_brace
  unfolding print_lq_trim by (auto simp: print_lq_def)

theorem lq_read_back_witness:
  "\<exists>rest. parseStreamSelector (print_lq [sample_lqm ''a, b=c'', sample_lqm ''x''] [sample_lqf ''(x|y)'', sample_lqf ''?''])
     = Inr ([sample_lqm ''a, b=c'', sample_lqm ''x''], rest) \<and>
     parseLineFilters rest = Inr [sample_lqf ''(x|y)'', sample_lqf ''?'']"
  using lq_read_back [OF sample_lq_wf] by blast

lemma lq_Translate_print:
  assumes "list_all wf_lqm ms" "list_all wf_lqf fs"
    and "lq_Translate re_ok scan_ok now (p\<lparr>lqp_query := print_lq ms fs\<rparr>) = Inr r"
  obtains cms cfs where "mapE (lq_matcherSQL re_ok) ms = Inr cms" "mapE (lineFilterSQL re_ok) fs = Inr cfs"
    "lqr_args r = map (AStr \<circ> snd) cms @ map (AStr \<circ> snd) cfs
       @ [ATime (lqb_start (lq_bounds_of now p)), ATime (lqb_end (lq_bounds_of now p)),
          AInt (lqb_limit (lq_bounds_of now p))]"
    "lqr_sql r = ''SELECT timestamp, severity, service_name, body, trace_id, span_id, attributes ''
       @ ''FROM logs WHERE '' @ join '' AND '' (map fst cms @ map fst cfs @ [''timestamp BETWEEN ? AND ?''])
       @ '' ORDER BY timestamp DESC LIMIT ?''"
proof -
  have b: "lq_bounds_of now (p\<lparr>lqp_query := q\<rparr>) = lq_bounds_of now p" for q
    by (simp add: lq_bounds_of_def)
  have "splitCall (print_lq ms fs) = None" by (simp add: print_lq_def splitCall_brace)
  then have "translateLogs re_ok (print_lq ms fs) (lq_bounds_of now p) = Inr r"
    using assms(3) by (auto simp: lq_Translate_def print_lq_trim b split: if_splits)
  then show ?thesis
    using that parseStreamSelector_print [OF assms(1,2)] parseLineFilters_print [OF assms(2)]
    by (auto simp: translateLogs_def lq_clauses_def bindE_eq_Inr)
qed

lemma lq_matcher_value: "lq_matcherSQL re_ok m = Inr cv \<Longrightarrow> snd cv = lqm_val m"
  by (auto simp: lq_matcherSQL_def Let_def split: if_splits)

lemma lq_filter_value: "lineFilterSQL re_ok f = Inr cv \<Longrightarrow> snd cv = lqf_val f"
  by (auto simp: lineFilterSQL_def split: if_splits)

lemma mapE_values:
  assumes "mapE f xs = Inr cvs" "\<And>x cv. f x = Inr cv \<Longrightarrow> snd cv = g x"
  shows "map snd cvs = map g xs"
  using assms(1) by (induction xs arbitrary: cvs) (fastforce simp: bindE_eq_Inr dest: assms(2))+

text \<open>
  In a log query, replacing the quoted values of the matchers and of the line filters leaves the
  SQL text unchanged, and the arguments are exactly the new values in order, the time range and the
  limit.
\<close>

theorem lq_value_free:
  assumes "list_all wf_lqm ms" "list_all wf_lqf fs"
    and "list_all wf_lqm (map (set_lqm_val f) ms)" "list_all wf_lqf (map (set_lqf_val g) fs)"
    and "lq_Translate re_ok scan_ok now (p\<lparr>lqp_query := print_lq ms fs\<rparr>) = Inr r"
    and "lq_Translate re_ok scan_ok now
      (p\<lparr>lqp_query := print_lq (map (set_lqm_val f) ms) (map (set_lqf_val g) fs)\<rparr>) = Inr r'"
  shows "lqr_sql r' = lqr_sql r \<and>
    lqr_args r' = map (\<lambda>m. AStr (f (lqm_val m))) ms @ map (\<lambda>l. AStr (g (lqf_val l))) fs
      @ [ATime (lqb_start (lq_bounds_of now p)), ATime (lqb_end (lq_bounds_of now p)),
         AInt (lqb_limit (lq_bounds_of now p))]"
proof -
  obtain cms cfs where 1: "mapE (lq_matcherSQL re_ok) ms = Inr cms" "mapE (lineFilterSQL re_ok) fs = Inr cfs"
    and s1: "lqr_sql r = ''SELECT timestamp, severity, service_name, body, trace_id, span_id, attributes ''
       @ ''FROM logs WHERE '' @ join '' AND '' (map fst cms @ map fst cfs @ [''timestamp BETWEEN ? AND ?''])
       @ '' ORDER BY timestamp DESC LIMIT ?''"
    by (rule lq_Translate_print [OF assms(1,2,5)])
  obtain cms' cfs' where 2: "mapE (lq_matcherSQL re_ok) (map (set_lqm_val f) ms) = Inr cms'"
      "mapE (lineFilterSQL re_ok) (map (set_lqf_val g) fs) = Inr cfs'"
    and a2: "lqr_args r' = map (AStr \<circ> snd) cms' @ map (AStr \<circ> snd) cfs'
       @ [ATime (lqb_start (lq_bounds_of now p)), ATime (lqb_end (lq_bounds_of now p)),
          AInt (lqb_limit (lq_bounds_of now p))]"
    and s2: "lqr_sql r' = ''SELECT timestamp, severity, service_name, body, trace_id, span_id, attributes ''
       @ ''FROM logs WHERE '' @ join '' AND '' (map fst cms' @ map fst cfs' @ [''timestamp BETWEEN ? AND ?''])
       @ '' ORDER BY timestamp DESC LIMIT ?''"
    by (rule lq_Translate_print [OF assms(3,4,6)])
  have "map fst cms' = map fst cms" "map fst cfs' = map fst cfs"
    using lqm.clauses_value_free [OF 1(1) 2(1)] lqf.clauses_value_free [OF 1(2) 2(2)] by simp_all
  moreover have "map (AStr \<circ> snd) cms' = map (\<lambda>m. AStr (f (lqm_val m))) ms"
    using arg_cong [where f = "map AStr", OF mapE_values [OF 2(1) lq_matcher_value]]
    by (simp add: o_def set_lqm_val_def)
  moreover have "map (AStr \<circ> snd) cfs' = map (\<lambda>l. AStr (g (lqf_val l))) fs"
    using arg_cong [where f = "map AStr", OF mapE_values [OF 2(2) lq_filter_value]]
    by (simp add: o_def set_lqf_val_def)
  ultimately show ?thesis
    by (simp add: s1 s2 a2)
qed

definition lq_sample :: lq_params where
  "lq_sample = \<lparr>lqp_query = ''rate({app=~'' @ in_quotes ''a.*'' @ ''} |= '' @ in_quotes ''?'' @ ''[5m])'',
     lqp_start = Some 0, lqp_end = None, lqp_step = 0, lqp_limit = 0\<rparr>"

lemma lq_sample_ok:
  "\<exists>r. lq_Translate (\<lambda>s. True) scan_ok now (p\<lparr>lqp_query := print_lq [sample_lqm v] [sample_lqf w]\<rparr>) = Inr r"
  if "list_all wf_lqm [sample_lqm v]" "list_all wf_lqf [sample_lqf w]"
proof -
  have sc: "splitCall (print_lq [sample_lqm v] [sample_lqf w]) = None" by (simp add: print_lq_def splitCall_brace)
  have ne: "print_lq [sample_lqm v] [sample_lqf w] \<noteq> []" by (simp add: print_lq_def)
  show ?thesis
    using parseStreamSelector_print [OF that] parseLineFilters_print [OF that(2)] ne
    by (simp add: lq_Translate_def print_lq_trim sc translateLogs_def lq_clauses_def Let_def)
      (simp add: sample_lqm_def sample_lqf_def lq_matcherSQL_def lineFilterSQL_def)
qed

theorem lq_value_free_witness:
  "\<exists>r r'. lq_Translate (\<lambda>s. True) (\<lambda>s. True) hour
        (lq_sample\<lparr>lqp_query := print_lq [sample_lqm ''a''] [sample_lqf ''b'']\<rparr>) = Inr r \<and>
      lq_Translate (\<lambda>s. True) (\<lambda>s. True) hour
        (lq_sample\<lparr>lqp_query := print_lq [sample_lqm ''a, OR 1=1''] [sample_lqf ''b?'']\<rparr>) = Inr r' \<and>
      lqr_sql r' = lqr_sql r"
proof -
  have wf: "list_all wf_lqm [sample_lqm ''a'']" "list_all wf_lqf [sample_lqf ''b'']"
    "list_all wf_lqm (map (set_lqm_val (\<lambda>v. v @ '', OR 1=1'')) [sample_lqm ''a''])"
    "list_all wf_lqf (map (set_lqf_val (\<lambda>v. v @ ''?'')) [sample_lqf ''b''])"
    by code_simp+
  have eq: "map (set_lqm_val (\<lambda>v. v @ '', OR 1=1'')) [sample_lqm ''a''] = [sample_lqm ''a, OR 1=1'']"
    "map (set_lqf_val (\<lambda>v. v @ ''?'')) [sample_lqf ''b''] = [sample_lqf ''b?'']"
    by code_simp+
  show ?thesis
    using lq_sample_ok [OF wf(1,2)] lq_sample_ok [OF wf(3,4) [unfolded eq]]
      lq_value_free [OF wf, unfolded eq] by blast
qed

text \<open>
  Every translated LogQL query, log or metric, has one placeholder per bound argument.
\<close>

theorem lq_placeholders:
  assumes "lq_Translate re_ok scan_ok now p = Inr r"
  shows "marks (lqr_sql r) = length (lqr_args r)"
  using assms translateLogs_marks translateMetric_marks
  by (auto simp: lq_Translate_def Let_def split: if_splits option.splits)

theorem lq_placeholders_witness:
  "\<exists>r. lq_Translate (\<lambda>s. True) (\<lambda>s. True) hour lq_sample = Inr r \<and> marks (lqr_sql r) = length (lqr_args r)
     \<and> \<not> lqr_is_logs r"
proof -
  have 1: "lqp_query lq_sample \<noteq> [] \<and>
      splitCall (trim_space (lqp_query lq_sample))
      = Some (''rate'', ''{app=~'' @ in_quotes ''a.*'' @ ''} |= '' @ in_quotes ''?'' @ ''[5m]'')"
    by code_simp
  have 2: "trim_space (''{app=~'' @ in_quotes ''a.*'' @ ''} |= '' @ in_quotes ''?'' @ ''[5m]'')
      = ''{app=~'' @ in_quotes ''a.*'' @ ''} |= '' @ in_quotes ''?'' @ ''[5m]'' \<and>
     (let body = ''{app=~'' @ in_quotes ''a.*'' @ ''} |= '' @ in_quotes ''?'' @ ''[5m]'' in
      last_index_byte (CHR ''['') body = Some 19 \<and> has_suffix body '']'' \<and>
      lq_duration_ok (\<lambda>s. True) (take (length body - 1 - Suc 19) (drop (Suc 19) body)) \<and>
      lq_clauses (\<lambda>s. True) (trim_space (take 19 body))
       = Inr ([''match(attributes['' @ sq @ ''app'' @ sq @ ''], ?)'', ''positionCaseInsensitive(body, ?) > 0''],
              [AStr ''a.*'', AStr ''?'']))"
    by code_simp
  have "\<exists>r. lq_Translate (\<lambda>s. True) (\<lambda>s. True) hour lq_sample = Inr r \<and> \<not> lqr_is_logs r"
    using 1 2 by (simp add: lq_Translate_def translateMetric_def isMetricFn_def Let_def)
  then show ?thesis using lq_placeholders by blast
qed

text \<open>
  The selector ends at the first closing brace, even inside a quoted value, so a valid query
  whose regular expression uses a counted repetition is rejected.
\<close>

theorem lq_brace_in_value:
  "parseStreamSelector (''{app=~'' @ in_quotes ''a{2}'' @ ''}'') = Inl (LqUnquoted (''app=~'' @ quote_char # ''a{2''))"
  by code_simp

end
