(* ===== verification/ObserveQL.thy ===== *)
theory ObserveQL
  imports SqlText "HOL-Library.List_Lexorder" "HOL-Library.Char_ord"
begin

text \<open>
  \<open>pkg/observeql\<close>: the syntax tree the (third-party) participle grammar delivers, the validation
  after parsing, the planner (\<open>planner.go\<close>) and the plan chooser (\<open>cbo.go\<close>). Parameters:
  \<open>parse_dur\<close> is \<open>time.ParseDuration\<close> and \<open>show_dur\<close> is \<open>Duration.String\<close>.
\<close>

section \<open>Syntax tree\<close>

text \<open>The optional pointers of a Go node become constructors; \<open>VEmpty\<close>, \<open>CEmpty\<close> and \<open>ColEmpty\<close>
  are nodes with every pointer nil.\<close>

datatype oq_value = VString string | VNumber f64 | VIdent string | VEmpty

record predicate =
  pd_lhs :: oq_value
  pd_op :: string
  pd_rhs :: oq_value

datatype or_expr = OrE and_expr "and_expr list"
  and and_expr = AndE cmp "cmp list"
  and cmp = CNot cmp | CGroup or_expr | CPred predicate | CEmpty

record func_call =
  fc_name :: string
  fc_star :: bool
  fc_arg :: "string option"

datatype column = ColName string | ColFunc func_call | ColEmpty

record select_clause =
  sel_star :: bool
  sel_columns :: "column list"

record oq_query =
  oq_select :: "select_clause option"
  oq_from :: "string option"
  oq_where :: "or_expr option"
  oq_groupby :: "string list option"
  oq_since :: "string option"
  oq_limit :: "int option"

datatype oq_error =
  OqMissingFrom | OqUnknownSource string | OqMissingSelect | OqEmptySelect | OqNoTenant
| OqColumn string | OqFunction string | OqFuncArg string | OqEmptyColumn | OqEmptyCmp | OqEmptyValue
| OqDuration string | OqPanic string

text \<open>\<open>Query.normalise\<close>, which \<open>Parse\<close> runs on the tree it returns.\<close>

definition oq_normalise :: "oq_query \<Rightarrow> oq_error + oq_query" where
  "oq_normalise q =
     (case oq_from q of
        None \<Rightarrow> Inl OqMissingFrom
      | Some f \<Rightarrow>
          let src = to_lower f in
          if src \<notin> {''metrics'', ''logs'', ''traces''} then Inl (OqUnknownSource src)
          else
            case oq_select q of
              None \<Rightarrow> Inl OqMissingSelect
            | Some s \<Rightarrow>
                if \<not> sel_star s \<and> sel_columns s = [] then Inl OqEmptySelect
                else Inr (q\<lparr>oq_from := Some src\<rparr>))"

section \<open>Allow lists\<close>

definition allowedColumns :: "string \<Rightarrow> string list" where
  "allowedColumns src =
     (if src = ''metrics'' then
        [''tenant_id'', ''metric_name'', ''timestamp'', ''value'', ''labels'', ''received_at'']
      else if src = ''logs'' then
        [''tenant_id'', ''service_name'', ''severity'', ''body'', ''attributes'', ''timestamp'',
         ''trace_id'', ''span_id'']
      else if src = ''traces'' then
        [''tenant_id'', ''trace_id'', ''span_id'', ''parent_span_id'', ''operation_name'',
         ''service_name'', ''start_time'', ''end_time'', ''duration_ns'', ''attributes'', ''status_code'']
      else [])"

definition timeColumn :: "string \<Rightarrow> string" where
  "timeColumn src = (if src = ''traces'' then ''start_time'' else ''timestamp'')"

definition allowedFunctions :: "string list" where
  "allowedFunctions = [''count'', ''avg'', ''sum'', ''min'', ''max'']"

definition sourceTable :: "string \<Rightarrow> string option" where
  "sourceTable src = (if src \<in> {''metrics'', ''logs'', ''traces''} then Some src else None)"

section \<open>Rendering\<close>

definition ident_head :: "char \<Rightarrow> bool" where
  "ident_head c \<longleftrightarrow> is_lower c \<or> is_upper c \<or> c = CHR ''_''"

definition identRe :: "string \<Rightarrow> bool" where
  "identRe s \<longleftrightarrow> s \<noteq> [] \<and> ident_head (hd s) \<and>
     list_all (\<lambda>c. ident_head c \<or> is_digit c \<or> c = CHR ''.'') (tl s)"

definition backtick :: char where
  "backtick = char_of (96 :: nat)"

text \<open>\<open>identQuote\<close> panics on an unsafe name; the panic is an error value here.\<close>

definition identQuote :: "string \<Rightarrow> oq_error + string" where
  "identQuote s = (if identRe s then Inr (backtick # s @ [backtick]) else Inl (OqPanic s))"

definition renderColumn :: "string list \<Rightarrow> column \<Rightarrow> oq_error + string" where
  "renderColumn allowed c =
     (case c of
        ColName n \<Rightarrow> if n \<notin> set allowed then Inl (OqColumn n) else identQuote n
      | ColFunc f \<Rightarrow>
          let fn = to_lower (fc_name f) in
          if fn \<notin> set allowedFunctions then Inl (OqFunction fn)
          else if fc_star f then Inr (fn @ ''(*)'')
          else
            (case fc_arg f of
               None \<Rightarrow> Inl (OqFuncArg fn)
             | Some a \<Rightarrow>
                 if a \<notin> set allowed then Inl (OqColumn a)
                 else bindE (identQuote a) (\<lambda>q. Inr (fn @ ''('' @ q @ '')'')))
      | ColEmpty \<Rightarrow> Inl OqEmptyColumn)"

text \<open>The renderers append literals to the parameter slice, which the model threads.\<close>

definition renderValue :: "string list \<Rightarrow> oq_value \<Rightarrow> sql_arg list \<Rightarrow> oq_error + string \<times> sql_arg list" where
  "renderValue allowed v ps =
     (case v of
        VIdent i \<Rightarrow>
          if i \<notin> set allowed then Inl (OqColumn i) else bindE (identQuote i) (\<lambda>q. Inr (q, ps))
      | VString s \<Rightarrow> Inr (''?'', ps @ [AStr s])
      | VNumber n \<Rightarrow> Inr (''?'', ps @ [AFloat n])
      | VEmpty \<Rightarrow> Inl OqEmptyValue)"

definition normaliseOp :: "string \<Rightarrow> string" where
  "normaliseOp op = filter (\<lambda>c. c \<noteq> CHR '' '') op"

definition renderPredicate :: "string list \<Rightarrow> predicate \<Rightarrow> sql_arg list \<Rightarrow> oq_error + string \<times> sql_arg list" where
  "renderPredicate allowed p ps =
     bindE (renderValue allowed (pd_lhs p) ps) (\<lambda>(lhs, ps1).
     bindE (renderValue allowed (pd_rhs p) ps1) (\<lambda>(rhs, ps2).
       Inr (lhs @ '' '' @ normaliseOp (pd_op p) @ '' '' @ rhs, ps2)))"

text \<open>The loop of \<open>renderOr\<close> and \<open>renderAnd\<close>: operands joined from the left, each join parenthesised.\<close>

type_synonym renderer = "sql_arg list \<Rightarrow> oq_error + string \<times> sql_arg list"

fun joinLoop :: "string \<Rightarrow> string \<Rightarrow> renderer list \<Rightarrow> renderer" where
  "joinLoop op left [] ps = Inr (left, ps)"
| "joinLoop op left (r # rs) ps =
     bindE (r ps) (\<lambda>(right, ps'). joinLoop op (''('' @ left @ op @ right @ '')'') rs ps')"

primrec renderOr :: "string list \<Rightarrow> or_expr \<Rightarrow> renderer"
  and renderAnd :: "string list \<Rightarrow> and_expr \<Rightarrow> renderer"
  and renderCmp :: "string list \<Rightarrow> cmp \<Rightarrow> renderer" where
  "renderOr al (OrE l rs) =
     (\<lambda>ps. bindE (renderAnd al l ps) (\<lambda>(left, ps'). joinLoop '' OR '' left (map (renderAnd al) rs) ps'))"
| "renderAnd al (AndE l rs) =
     (\<lambda>ps. bindE (renderCmp al l ps) (\<lambda>(left, ps'). joinLoop '' AND '' left (map (renderCmp al) rs) ps'))"
| "renderCmp al (CNot c) = (\<lambda>ps. bindE (renderCmp al c ps) (\<lambda>(i, ps'). Inr (''NOT ('' @ i @ '')'', ps')))"
| "renderCmp al (CGroup e) = (\<lambda>ps. bindE (renderOr al e ps) (\<lambda>(i, ps'). Inr (''('' @ i @ '')'', ps')))"
| "renderCmp al (CPred p) = renderPredicate al p"
| "renderCmp al CEmpty = (\<lambda>ps. Inl OqEmptyCmp)"

section \<open>Durations\<close>

text \<open>\<open>strconv.Atoi\<close>: an optional sign and decimal digits, in the range of \<open>int\<close>.\<close>

fun digits_val :: "int \<Rightarrow> string \<Rightarrow> int" where
  "digits_val a [] = a"
| "digits_val a (c # cs) = digits_val (10 * a + (of_char c - 48)) cs"

definition atoi :: "string \<Rightarrow> int option" where
  "atoi s =
     (let (neg, ds) = (case s of c # cs \<Rightarrow> if c = CHR ''-'' then (True, cs)
                         else if c = CHR ''+'' then (False, cs) else (False, s) | [] \<Rightarrow> (False, []));
          v = (if neg then - digits_val 0 ds else digits_val 0 ds)
      in if ds \<noteq> [] \<and> list_all is_digit ds \<and> - (2 ^ 63) \<le> v \<and> v < 2 ^ 63 then Some v else None)"

text \<open>The product \<open>time.Duration(n) * 24 * time.Hour\<close> wraps.\<close>

definition oq_parseDuration :: "(string \<Rightarrow> int option) \<Rightarrow> string \<Rightarrow> oq_error + int" where
  "oq_parseDuration parse_dur d =
     (if has_suffix d ''d'' then
        (case atoi (take (length d - 1) d) of
           None \<Rightarrow> Inl (OqDuration d)
         | Some n \<Rightarrow> Inr (wrap64 (wrap64 (n * 24) * hour)))
      else (case parse_dur d of None \<Rightarrow> Inl (OqDuration d) | Some x \<Rightarrow> Inr x))"

section \<open>Planning\<close>

record planner_options =
  po_tenant :: string
  po_max_rows :: int
  po_default_since :: int

record plan =
  pl_sql :: string
  pl_params :: "sql_arg list"
  pl_source :: string
  pl_groupby :: "string list"
  pl_limit :: int
  pl_estimate :: string

definition withDefaults :: "planner_options \<Rightarrow> planner_options" where
  "withDefaults opts =
     opts\<lparr>po_max_rows := (if po_max_rows opts \<le> 0 then 10000 else po_max_rows opts),
       po_default_since := (if po_default_since opts \<le> 0 then hour else po_default_since opts)\<rparr>"

definition select_parts :: "string list \<Rightarrow> select_clause \<Rightarrow> oq_error + string list" where
  "select_parts allowed s =
     (if sel_star s then Inr [''*''] else mapE (renderColumn allowed) (sel_columns s))"

text \<open>The WHERE parts before the time filter, with the parameters bound so far.\<close>

definition where_clause ::
  "string list \<Rightarrow> string \<Rightarrow> or_expr option \<Rightarrow> oq_error + string list \<times> sql_arg list" where
  "where_clause allowed tenant w =
     (case w of
        None \<Rightarrow> Inr ([''tenant_id = ?''], [AStr tenant])
      | Some e \<Rightarrow>
          bindE (renderOr allowed e [AStr tenant]) (\<lambda>(expr, ps).
            Inr ([''tenant_id = ?'', ''('' @ expr @ '')''], ps)))"

definition group_column :: "string list \<Rightarrow> string \<Rightarrow> oq_error + string" where
  "group_column allowed col = (if col \<notin> set allowed then Inl (OqColumn col) else identQuote col)"

definition plan_limit :: "int \<Rightarrow> int option \<Rightarrow> int" where
  "plan_limit mx l = (case l of Some n \<Rightarrow> if 0 < n \<and> n < mx then n else mx | None \<Rightarrow> mx)"

definition PlanQuery ::
  "(string \<Rightarrow> int option) \<Rightarrow> (int \<Rightarrow> string) \<Rightarrow> int \<Rightarrow> oq_query \<Rightarrow> planner_options \<Rightarrow> oq_error + plan" where
  "PlanQuery parse_dur show_dur now q opts0 =
     (let opts = withDefaults opts0 in
      if po_tenant opts = [] then Inl OqNoTenant
      else
        case oq_from q of None \<Rightarrow> Inl (OqPanic ''From'')
        | Some src \<Rightarrow>
          (case sourceTable src of None \<Rightarrow> Inl (OqUnknownSource src)
           | Some table \<Rightarrow>
             (case oq_select q of None \<Rightarrow> Inl (OqPanic ''Select'')
              | Some sel \<Rightarrow>
                let allowed = allowedColumns src in
                bindE (select_parts allowed sel) (\<lambda>selectParts.
                bindE (where_clause allowed (po_tenant opts) (oq_where q)) (\<lambda>(whereParts, params).
                bindE (case oq_since q of None \<Rightarrow> Inr (po_default_since opts)
                       | Some d \<Rightarrow> oq_parseDuration parse_dur d) (\<lambda>since.
                bindE (identQuote (timeColumn src)) (\<lambda>timeCol.
                bindE (case oq_groupby q of None \<Rightarrow> Inr [] | Some cs \<Rightarrow> mapE (group_column allowed) cs) (\<lambda>groupCols.
                bindE (identQuote table) (\<lambda>tbl.
                  let limit = plan_limit (po_max_rows opts) (oq_limit q) in
                  Inr \<lparr>pl_sql = ''SELECT '' @ join '', '' selectParts @ '' FROM '' @ tbl @ '' WHERE ''
                          @ join '' AND '' (whereParts @ [timeCol @ '' >= ?''])
                          @ (if groupCols \<noteq> [] then '' GROUP BY '' @ join '', '' groupCols else [])
                          @ '' ORDER BY '' @ timeCol @ '' DESC LIMIT ?'',
                       pl_params = params @ [ATime (now - since), AInt limit],
                       pl_source = src,
                       pl_groupby = groupCols,
                       pl_limit = limit,
                       pl_estimate = ''scan: '' @ src @ '' since '' @ show_dur since @ '', limit '' @ show_int limit\<rparr>))))))))) "

section \<open>Choosing a plan\<close>

record physical_plan =
  pp_sql :: string
  pp_params :: "sql_arg list"
  pp_scanned :: int
  pp_shuffled :: int
  pp_join_order :: "string list"
  pp_generated :: int
  pp_variant :: string

definition cost :: "f64 \<Rightarrow> physical_plan \<Rightarrow> f64" where
  "cost shuffleWeight pp =
     fadd (of_int64 (pp_scanned pp)) (fmul shuffleWeight (of_int64 (pp_shuffled pp)))"

text \<open>\<open>Stats\<close> is the row-count lookup; \<open>None\<close> is a nil interface, an inner \<open>None\<close> an error.\<close>

definition estimateScan :: "(string \<Rightarrow> int option) option \<Rightarrow> string \<Rightarrow> int option" where
  "estimateScan stats table = (case stats of None \<Rightarrow> Some 0 | Some f \<Rightarrow> f table)"

definition EnumeratePlans ::
  "(string \<Rightarrow> int option) \<Rightarrow> (int \<Rightarrow> string) \<Rightarrow> int \<Rightarrow> oq_query \<Rightarrow> planner_options \<Rightarrow>
   (string \<Rightarrow> int option) option \<Rightarrow> oq_error + physical_plan list" where
  "EnumeratePlans parse_dur show_dur now q opts stats =
     bindE (PlanQuery parse_dur show_dur now q opts) (\<lambda>base.
       let table = (case oq_from q of None \<Rightarrow> [] | Some f \<Rightarrow> f);
           scanned = (case estimateScan stats table of None \<Rightarrow> 0 | Some n \<Rightarrow> n)
       in Inr [\<lparr>pp_sql = pl_sql base, pp_params = pl_params base, pp_scanned = scanned,
                pp_shuffled = 0, pp_join_order = [table], pp_generated = now,
                pp_variant = ''rule-based''\<rparr>])"

definition plan_less :: "f64 \<Rightarrow> physical_plan \<Rightarrow> physical_plan \<Rightarrow> bool" where
  "plan_less w p q =
     (if \<not> feq (cost w p) (cost w q) then flt (cost w p) (cost w q)
      else pp_variant p < pp_variant q)"

text \<open>\<open>sort.SliceStable\<close>: insertion into the sorted prefix, kept reversed, from its end.\<close>

fun insert_rev :: "('a \<Rightarrow> 'a \<Rightarrow> bool) \<Rightarrow> 'a \<Rightarrow> 'a list \<Rightarrow> 'a list" where
  "insert_rev lt x [] = [x]"
| "insert_rev lt x (y # ys) = (if lt x y then y # insert_rev lt x ys else x # y # ys)"

definition sort_stable :: "('a \<Rightarrow> 'a \<Rightarrow> bool) \<Rightarrow> 'a list \<Rightarrow> 'a list" where
  "sort_stable lt xs = rev (fold (insert_rev lt) xs [])"

definition ChooseBest :: "f64 \<Rightarrow> physical_plan list \<Rightarrow> physical_plan option" where
  "ChooseBest w plans = (case sort_stable (plan_less w) plans of [] \<Rightarrow> None | p # _ \<Rightarrow> Some p)"

definition stub_TableRows :: "(string \<Rightarrow> int option) \<Rightarrow> string \<Rightarrow> int" where
  "stub_TableRows rows table = (case rows table of Some v \<Rightarrow> v | None \<Rightarrow> 0)"

definition stub_ColumnNDV :: "(string \<Rightarrow> int option) \<Rightarrow> (string \<Rightarrow> int option) \<Rightarrow> string \<Rightarrow> string \<Rightarrow> int" where
  "stub_ColumnNDV rows ndv table col =
     (case ndv (table @ ''.'' @ col) of Some v \<Rightarrow> v
      | None \<Rightarrow> (case rows table of Some v \<Rightarrow> v sdiv 10 | None \<Rightarrow> 0))"

end
