(* ===== verification/ObserveQLProps.thy ===== *)
theory ObserveQLProps
  imports ObserveQL
begin

text \<open>
  What the ObserveQL planner guarantees: the tenant predicate cannot be escaped, placeholders match
  parameters, no validated query panics, the row limit is clamped; and the plan chooser picks a
  cheapest plan.
\<close>

section \<open>Allow-listed names\<close>

lemma allowed_idents: "c \<in> set (allowedColumns src) \<Longrightarrow> identRe c"
proof -
  have "list_all identRe (allowedColumns ''metrics'' @ allowedColumns ''logs'' @ allowedColumns ''traces'')"
    by code_simp
  moreover have "set (allowedColumns src)
      \<subseteq> set (allowedColumns ''metrics'' @ allowedColumns ''logs'' @ allowedColumns ''traces'')"
    by (auto simp: allowedColumns_def)
  ultimately show "c \<in> set (allowedColumns src) \<Longrightarrow> identRe c"
    by (auto simp: list_all_iff)
qed

lemma time_ident: "identRe (timeColumn src)"
proof -
  have "identRe ''start_time'' \<and> identRe ''timestamp''" by code_simp
  then show ?thesis by (simp add: timeColumn_def)
qed

lemma table_ident: "sourceTable src = Some t \<Longrightarrow> identRe t"
proof -
  have "identRe ''metrics'' \<and> identRe ''logs'' \<and> identRe ''traces''" by code_simp
  then show "sourceTable src = Some t \<Longrightarrow> identRe t" by (auto simp: sourceTable_def split: if_splits)
qed

definition calm :: "char \<Rightarrow> bool" where
  "calm c \<longleftrightarrow> c \<noteq> CHR ''?'' \<and> c \<noteq> CHR ''('' \<and> c \<noteq> CHR '')''"

lemma ident_calm:
  assumes "identRe s"
  shows "list_all calm s"
proof -
  have head: "calm c" if "ident_head c \<or> is_digit c \<or> c = CHR ''.''" for c
    using that by (auto simp: calm_def ident_head_def is_lower_def is_upper_def is_digit_def)
  show ?thesis using assms head by (cases s) (auto simp: identRe_def list_all_iff)
qed

lemma identQuote_calm: "identQuote s = Inr q \<Longrightarrow> list_all calm q"
proof -
  have "calm backtick" by code_simp
  then show "identQuote s = Inr q \<Longrightarrow> list_all calm q"
    by (auto simp: identQuote_def ident_calm split: if_splits)
qed

lemma calm_marks: "list_all calm s \<Longrightarrow> marks s = 0"
  by (rule marks_0) (auto simp: list_all_iff calm_def)

section \<open>Balanced parentheses\<close>

fun bal :: "nat \<Rightarrow> string \<Rightarrow> nat option" where
  "bal d [] = Some d"
| "bal d (c # cs) =
     (if c = CHR ''('' then bal (Suc d) cs
      else if c = CHR '')'' then (case d of 0 \<Rightarrow> None | Suc d' \<Rightarrow> bal d' cs)
      else bal d cs)"

text \<open>\<open>balanced s\<close>: read from any depth, \<open>s\<close> never closes a parenthesis it did not open and ends
  at the depth it started from.\<close>

definition balanced :: "string \<Rightarrow> bool" where
  "balanced s \<longleftrightarrow> bal 0 s = Some 0"

lemma bal_append: "bal d (s @ t) = Option.bind (bal d s) (\<lambda>e. bal e t)"
  by (induction d s rule: bal.induct) (auto split: nat.splits)

lemma bal_mono: "bal d s = Some e \<Longrightarrow> bal (d + k) s = Some (e + k)"
  by (induction d s arbitrary: e rule: bal.induct) (auto split: nat.splits if_splits)

lemma balanced_any: "balanced s \<Longrightarrow> bal d s = Some d"
  using bal_mono [of 0 s 0 d] by (simp add: balanced_def)

lemma balanced_append [intro]: "balanced s \<Longrightarrow> balanced t \<Longrightarrow> balanced (s @ t)"
  by (simp add: balanced_def bal_append)

lemma balanced_parens: "balanced s \<Longrightarrow> balanced (CHR ''('' # s @ '')'')"
  using balanced_any [of s 1] by (simp add: balanced_def bal_append)

lemma balanced_calm: "list_all calm s \<Longrightarrow> balanced s"
proof -
  have "list_all calm s \<Longrightarrow> bal d s = Some d" for d
    by (induction s) (auto simp: calm_def)
  then show "list_all calm s \<Longrightarrow> balanced s" by (simp add: balanced_def)
qed

lemma balanced_paren_pair: "balanced s \<Longrightarrow> balanced t \<Longrightarrow> list_all calm m \<Longrightarrow> balanced (CHR ''('' # s @ m @ t @ '')'')"
  using balanced_parens [of "s @ m @ t"] balanced_calm [of m] by auto

section \<open>Rendered expressions\<close>

text \<open>The operators the grammar of \<open>Predicate\<close> can capture.\<close>

definition grammar_op :: "string \<Rightarrow> bool" where
  "grammar_op op \<longleftrightarrow> normaliseOp op \<in> {''='', ''!='', ''<'', ''<='', ''>'', ''>=''}"

primrec ops_or :: "or_expr \<Rightarrow> bool"
  and ops_and :: "and_expr \<Rightarrow> bool"
  and ops_cmp :: "cmp \<Rightarrow> bool" where
  "ops_or (OrE l rs) \<longleftrightarrow> ops_and l \<and> list_all id (map ops_and rs)"
| "ops_and (AndE l rs) \<longleftrightarrow> ops_cmp l \<and> list_all id (map ops_cmp rs)"
| "ops_cmp (CNot c) \<longleftrightarrow> ops_cmp c"
| "ops_cmp (CGroup e) \<longleftrightarrow> ops_or e"
| "ops_cmp (CPred p) \<longleftrightarrow> grammar_op (pd_op p)"
| "ops_cmp CEmpty \<longleftrightarrow> True"

text \<open>A renderer is sound when it appends one parameter per placeholder of a balanced text.\<close>

definition sound :: "renderer \<Rightarrow> bool" where
  "sound r \<longleftrightarrow> (\<forall>ps s ps'. r ps = Inr (s, ps') \<longrightarrow>
     balanced s \<and> (\<exists>new. ps' = ps @ new \<and> length new = marks s))"

lemma soundD:
  assumes "sound r" "r ps = Inr (s, ps')"
  obtains new where "balanced s" "ps' = ps @ new" "length new = marks s"
  using assms unfolding sound_def by blast

lemma sound_value: "sound (renderValue allowed v)"
proof -
  have "balanced ''?''" by code_simp
  then show ?thesis
    by (auto simp: sound_def renderValue_def bindE_eq_Inr calm_marks balanced_calm dest!: identQuote_calm
        split: oq_value.splits if_splits)
qed

lemma grammar_op_calm: "grammar_op op \<Longrightarrow> list_all calm ('' '' @ normaliseOp op @ '' '')"
proof -
  have "list_all (\<lambda>o'. list_all calm ('' '' @ o' @ '' '')) [''='', ''!='', ''<'', ''<='', ''>'', ''>='']"
    by code_simp
  then show "grammar_op op \<Longrightarrow> list_all calm ('' '' @ normaliseOp op @ '' '')"
    unfolding grammar_op_def by auto
qed

lemma sound_predicate:
  assumes "grammar_op (pd_op p)"
  shows "sound (renderPredicate allowed p)"
  unfolding sound_def
proof (intro allI impI)
  fix ps s ps'
  assume "renderPredicate allowed p ps = Inr (s, ps')"
  then obtain lhs ps1 rhs where r: "renderValue allowed (pd_lhs p) ps = Inr (lhs, ps1)"
    "renderValue allowed (pd_rhs p) ps1 = Inr (rhs, ps')"
    and s: "s = lhs @ ('' '' @ normaliseOp (pd_op p) @ '' '') @ rhs"
    by (auto simp: renderPredicate_def bindE_eq_Inr)
  define mid where "mid = '' '' @ normaliseOp (pd_op p) @ '' ''"
  have mid: "balanced mid" "marks mid = 0"
    using grammar_op_calm [OF assms] balanced_calm calm_marks unfolding mid_def by blast+
  obtain n1 where 1: "balanced lhs" "ps1 = ps @ n1" "length n1 = marks lhs"
    by (rule soundD [OF sound_value r(1)])
  obtain n2 where 2: "balanced rhs" "ps' = ps1 @ n2" "length n2 = marks rhs"
    by (rule soundD [OF sound_value r(2)])
  have s': "s = lhs @ mid @ rhs" by (simp add: s mid_def)
  have "balanced s" unfolding s' using 1(1) 2(1) mid(1) by blast
  moreover have "ps' = ps @ (n1 @ n2)" "length (n1 @ n2) = marks s" using 1 2 mid(2) s' by simp_all
  ultimately show "balanced s \<and> (\<exists>new. ps' = ps @ new \<and> length new = marks s)" by blast
qed

lemma sound_joinLoop:
  assumes "list_all calm op"
  shows "list_all sound rs \<Longrightarrow> balanced left \<Longrightarrow> joinLoop op left rs ps = Inr (s, ps') \<Longrightarrow>
    balanced s \<and> (\<exists>new. ps' = ps @ new \<and> marks left + length new = marks s)"
proof (induction rs arbitrary: left ps)
  case Nil
  then show ?case by simp
next
  case (Cons r rs)
  then obtain right ps1 where r: "r ps = Inr (right, ps1)"
    "joinLoop op (''('' @ left @ op @ right @ '')'') rs ps1 = Inr (s, ps')"
    by (auto simp: bindE_eq_Inr)
  obtain new where new: "balanced right" "ps1 = ps @ new" "length new = marks right"
    using Cons.prems(1) r(1) by (auto elim: soundD)
  have "balanced (''('' @ left @ op @ right @ '')'')"
    using balanced_paren_pair [OF Cons.prems(2) new(1) assms] by simp
  from Cons.IH [OF _ this r(2)] Cons.prems(1) new calm_marks [OF assms] show ?case by auto
qed

lemma sound_join:
  assumes "sound l" "list_all sound rs" "list_all calm op"
  shows "sound (\<lambda>ps. bindE (l ps) (\<lambda>(left, ps'). joinLoop op left rs ps'))"
  unfolding sound_def
proof (intro allI impI)
  fix ps s ps'
  assume "bindE (l ps) (\<lambda>(left, ps'). joinLoop op left rs ps') = Inr (s, ps')"
  then obtain left ps1 where l: "l ps = Inr (left, ps1)" "joinLoop op left rs ps1 = Inr (s, ps')"
    by (auto simp: bindE_eq_Inr)
  obtain new where new: "balanced left" "ps1 = ps @ new" "length new = marks left"
    by (rule soundD [OF assms(1) l(1)])
  from sound_joinLoop [OF assms(3,2) new(1) l(2)] new
  show "balanced s \<and> (\<exists>new. ps' = ps @ new \<and> length new = marks s)" by auto
qed

lemma sound_wrap:
  assumes "sound r" "list_all calm pre"
  shows "sound (\<lambda>ps. bindE (r ps) (\<lambda>(i, ps'). Inr (pre @ ''('' @ i @ '')'', ps')))"
  unfolding sound_def
proof (intro allI impI)
  fix ps s ps'
  assume "bindE (r ps) (\<lambda>(i, ps'). Inr (pre @ ''('' @ i @ '')'', ps')) = Inr (s, ps')"
  then obtain i where i: "r ps = Inr (i, ps')" "s = pre @ ''('' @ i @ '')''"
    by (auto simp: bindE_eq_Inr)
  from soundD [OF assms(1) i(1)] balanced_parens [of i] balanced_calm [OF assms(2)] calm_marks [OF assms(2)] i(2)
  show "balanced s \<and> (\<exists>new. ps' = ps @ new \<and> length new = marks s)" by auto
qed

lemma calm_words: "list_all calm '' OR ''" "list_all calm '' AND ''" "list_all calm ''NOT ''"
  by code_simp+

lemma sound_fail: "sound (\<lambda>ps. Inl e)"
  by (simp add: sound_def)

lemma sound_expr:
  "ops_or e \<Longrightarrow> sound (renderOr al e)"
  "ops_and a \<Longrightarrow> sound (renderAnd al a)"
  "ops_cmp c \<Longrightarrow> sound (renderCmp al c)"
proof (induction e and a and c)
  case (OrE l rs)
  then have "list_all sound (map (renderAnd al) rs)" by (auto simp: list_all_iff)
  with OrE sound_join [OF _ _ calm_words(1)] show ?case by simp
next
  case (AndE l rs)
  then have "list_all sound (map (renderCmp al) rs)" by (auto simp: list_all_iff)
  with AndE sound_join [OF _ _ calm_words(2)] show ?case by simp
next
  case (CNot c)
  then show ?case using sound_wrap [OF _ calm_words(3), of "renderCmp al c"] by simp
next
  case (CGroup e)
  then show ?case using sound_wrap [of "renderOr al e" "[]"] by simp
next
  case (CPred p)
  then show ?case by (simp add: sound_predicate)
next
  case CEmpty
  then show ?case by (simp add: sound_fail)
qed

section \<open>Planning\<close>

lemma fn_calm: "f \<in> set allowedFunctions \<Longrightarrow> list_all calm f"
proof -
  have "list_all (list_all calm) allowedFunctions" by code_simp
  then show "f \<in> set allowedFunctions \<Longrightarrow> list_all calm f" by (auto simp: list_all_iff)
qed

lemma renderColumn_marks: "renderColumn al c = Inr s \<Longrightarrow> marks s = 0"
  by (auto simp: renderColumn_def Let_def bindE_eq_Inr calm_marks fn_calm
      dest!: identQuote_calm split: column.splits if_splits option.splits)

lemma mapE_all:
  assumes "mapE f xs = Inr ys" "\<And>x y. f x = Inr y \<Longrightarrow> P y"
  shows "\<forall>y \<in> set ys. P y"
  using assms(1) by (induction xs arbitrary: ys) (auto simp: bindE_eq_Inr dest: assms(2))

lemma select_parts_marks:
  assumes "select_parts al sel = Inr parts"
  shows "marks (join '', '' parts) = 0"
proof -
  have "\<forall>p \<in> set parts. marks p = 0"
    using assms mapE_all [of "renderColumn al" "sel_columns sel" parts "\<lambda>s. marks s = 0"] renderColumn_marks
    by (auto simp: select_parts_def split: if_splits)
  then show ?thesis by (simp add: marks_join)
qed

lemma group_marks:
  assumes "mapE (group_column al) cs = Inr gs"
  shows "marks (join '', '' gs) = 0"
proof -
  have "group_column al c = Inr g \<Longrightarrow> marks g = 0" for c g
    by (auto simp: group_column_def calm_marks dest!: identQuote_calm split: if_splits)
  then have "\<forall>g \<in> set gs. marks g = 0"
    by (rule mapE_all [OF assms])
  then show ?thesis by (simp add: marks_join)
qed

definition wf_query :: "oq_query \<Rightarrow> bool" where
  "wf_query q \<longleftrightarrow> (case oq_where q of None \<Rightarrow> True | Some e \<Rightarrow> ops_or e)"

text \<open>The parts of a successful plan.\<close>

lemma PlanQuery_Inr:
  assumes "PlanQuery pd sd now q opts = Inr pl"
  obtains src sel selectParts whereParts params since timeCol groups tbl where
    "oq_from q = Some src" "oq_select q = Some sel" "po_tenant opts \<noteq> []"
    "select_parts (allowedColumns src) sel = Inr selectParts"
    "where_clause (allowedColumns src) (po_tenant opts) (oq_where q) = Inr (whereParts, params)"
    "(case oq_since q of None \<Rightarrow> Inr (po_default_since (withDefaults opts))
       | Some d \<Rightarrow> oq_parseDuration pd d) = Inr since"
    "identQuote (timeColumn src) = Inr timeCol" "identQuote src = Inr tbl"
    "(case oq_groupby q of None \<Rightarrow> Inr [] | Some cs \<Rightarrow> mapE (group_column (allowedColumns src)) cs) = Inr groups"
    "pl_sql pl = ''SELECT '' @ join '', '' selectParts @ '' FROM '' @ tbl @ '' WHERE ''
        @ join '' AND '' (whereParts @ [timeCol @ '' >= ?''])
        @ (if groups \<noteq> [] then '' GROUP BY '' @ join '', '' groups else [])
        @ '' ORDER BY '' @ timeCol @ '' DESC LIMIT ?''"
    "pl_params pl = params @ [ATime (now - since), AInt (pl_limit pl)]"
    "pl_limit pl = plan_limit (po_max_rows (withDefaults opts)) (oq_limit q)"
proof -
  obtain src where src: "oq_from q = Some src" "sourceTable src = Some src"
    using assms by (auto simp: PlanQuery_def Let_def sourceTable_def split: if_splits option.splits)
  obtain sel where sel: "oq_select q = Some sel"
    using assms src by (auto simp: PlanQuery_def Let_def split: if_splits option.splits)
  have t: "po_tenant (withDefaults opts) = po_tenant opts" by (simp add: withDefaults_def)
  then have ne: "po_tenant opts \<noteq> []"
    using assms by (auto simp: PlanQuery_def Let_def)
  show ?thesis
    using assms ne unfolding PlanQuery_def Let_def t
    by (simp add: src sel, clarsimp simp: bindE_eq_Inr) (rule that [OF src(1) sel ne], auto)
qed

lemma where_clause_sound:
  assumes "wf_query q" "where_clause al t (oq_where q) = Inr (wp, ps)"
  shows "marks (join '' AND '' wp) = length ps \<and> wp \<noteq> [] \<and> hd wp = ''tenant_id = ?'' \<and> ps \<noteq> [] \<and> hd ps = AStr t"
proof (cases "oq_where q")
  case None
  with assms show ?thesis by (auto simp: where_clause_def)
next
  case (Some e)
  then obtain ex where e: "renderOr al e [AStr t] = Inr (ex, ps)"
    "wp = [''tenant_id = ?'', ''('' @ ex @ '')'']"
    using assms(2) by (auto simp: where_clause_def bindE_eq_Inr)
  have "sound (renderOr al e)" using assms(1) Some by (simp add: wf_query_def sound_expr(1))
  then obtain new where "ps = [AStr t] @ new" "length new = marks ex"
    using e(1) by (auto elim: soundD)
  with e(2) show ?thesis by simp
qed

text \<open>
  Every plan has one placeholder per parameter; the first parameter is the tenant, the last the
  row limit.
\<close>

theorem plan_placeholders:
  assumes "wf_query q" "PlanQuery pd sd now q opts = Inr pl"
  shows "marks (pl_sql pl) = length (pl_params pl) \<and> hd (pl_params pl) = AStr (po_tenant opts)
    \<and> last (pl_params pl) = AInt (pl_limit pl)"
proof (rule PlanQuery_Inr [OF assms(2)])
  fix src sel selectParts whereParts params since timeCol groups tbl
  assume *: "select_parts (allowedColumns src) sel = Inr selectParts"
    "where_clause (allowedColumns src) (po_tenant opts) (oq_where q) = Inr (whereParts, params)"
    "identQuote (timeColumn src) = Inr timeCol" "identQuote src = Inr tbl"
    "(case oq_groupby q of None \<Rightarrow> Inr [] | Some cs \<Rightarrow> mapE (group_column (allowedColumns src)) cs) = Inr groups"
    "pl_sql pl = ''SELECT '' @ join '', '' selectParts @ '' FROM '' @ tbl @ '' WHERE ''
        @ join '' AND '' (whereParts @ [timeCol @ '' >= ?''])
        @ (if groups \<noteq> [] then '' GROUP BY '' @ join '', '' groups else [])
        @ '' ORDER BY '' @ timeCol @ '' DESC LIMIT ?''"
    "pl_params pl = params @ [ATime (now - since), AInt (pl_limit pl)]"
  have w: "marks (join '' AND '' whereParts) = length params" "whereParts \<noteq> []" "params \<noteq> [] \<and> hd params = AStr (po_tenant opts)"
    using where_clause_sound [OF assms(1) *(2)] by simp_all
  have g: "marks (join '', '' groups) = 0"
    using *(5) by (auto dest: group_marks split: option.splits)
  have "marks timeCol = 0" "marks tbl = 0"
    using *(3,4) by (auto dest: identQuote_calm calm_marks)
  with w g select_parts_marks [OF *(1)] show ?thesis
    by (simp add: *(6,7) join_snoc)
qed

definition sample_oq :: oq_query where
  "sample_oq = \<lparr>oq_select = Some \<lparr>sel_star = False, sel_columns = [ColName ''body'']\<rparr>,
     oq_from = Some ''logs'',
     oq_where = Some (OrE
       (AndE (CPred \<lparr>pd_lhs = VIdent ''severity'', pd_op = ''='', pd_rhs = VString ''x) OR (1=1''\<rparr>) [])
       [AndE (CNot (CPred \<lparr>pd_lhs = VIdent ''body'', pd_op = ''! ='', pd_rhs = VString ''?''\<rparr>)) []]),
     oq_groupby = None, oq_since = None, oq_limit = Some 5\<rparr>"

definition sample_opts :: planner_options where
  "sample_opts = \<lparr>po_tenant = ''acme'', po_max_rows = 0, po_default_since = 0\<rparr>"

definition no_text :: "int \<Rightarrow> string" where
  "no_text d = []"

definition no_dur :: "string \<Rightarrow> int option" where
  "no_dur s = None"

lemma sample_oq_wf: "wf_query sample_oq"
  by code_simp

lemma sample_plan: "\<exists>pl. PlanQuery no_dur no_text 0 sample_oq sample_opts = Inr pl"
proof -
  have "\<not> isl (PlanQuery no_dur no_text 0 sample_oq sample_opts)" by code_simp
  then show ?thesis by (cases "PlanQuery no_dur no_text 0 sample_oq sample_opts") auto
qed

theorem plan_placeholders_witness:
  "\<exists>pl. PlanQuery no_dur no_text 0 sample_oq sample_opts = Inr pl \<and>
     marks (pl_sql pl) = length (pl_params pl)"
  using sample_plan plan_placeholders [OF sample_oq_wf] by blast

text \<open>
  C6. No user expression escapes the tenant predicate: in every plan the WHERE clause starts with
  \<open>tenant_id = ?\<close>, the caller's expression follows as one parenthesised conjunct whose text has
  balanced parentheses, and the time bound is the last conjunct.
\<close>

theorem plan_tenant_confined:
  assumes "wf_query q" "PlanQuery pd sd now q opts = Inr pl"
  shows "\<exists>cols tbl user timeCol rest.
    pl_sql pl = ''SELECT '' @ cols @ '' FROM '' @ tbl @ '' WHERE tenant_id = ?'' @ user
      @ '' AND '' @ timeCol @ '' >= ?'' @ rest \<and>
    (if oq_where q = None then user = [] else \<exists>e. user = '' AND ('' @ e @ '')'' \<and> balanced e)"
proof (rule PlanQuery_Inr [OF assms(2)])
  fix src sel selectParts whereParts params since timeCol groups tbl
  assume w: "where_clause (allowedColumns src) (po_tenant opts) (oq_where q) = Inr (whereParts, params)"
    and sql: "pl_sql pl = ''SELECT '' @ join '', '' selectParts @ '' FROM '' @ tbl @ '' WHERE ''
        @ join '' AND '' (whereParts @ [timeCol @ '' >= ?''])
        @ (if groups \<noteq> [] then '' GROUP BY '' @ join '', '' groups else [])
        @ '' ORDER BY '' @ timeCol @ '' DESC LIMIT ?''"
  obtain user where user: "join '' AND '' (whereParts @ [timeCol @ '' >= ?''])
      = ''tenant_id = ?'' @ user @ '' AND '' @ timeCol @ '' >= ?''"
    "if oq_where q = None then user = [] else \<exists>e. user = '' AND ('' @ e @ '')'' \<and> balanced e"
  proof (cases "oq_where q")
    case None
    with w have "whereParts = [''tenant_id = ?'']" by (simp add: where_clause_def)
    with None show ?thesis by (intro that [of "[]"]) simp_all
  next
    case (Some e)
    then obtain ex where e: "renderOr (allowedColumns src) e [AStr (po_tenant opts)] = Inr (ex, params)"
      "whereParts = [''tenant_id = ?'', ''('' @ ex @ '')'']"
      using w by (auto simp: where_clause_def bindE_eq_Inr)
    have "balanced ex"
      using e(1) assms(1) Some by (auto simp: wf_query_def elim!: soundD [OF sound_expr(1)])
    with e(2) Some show ?thesis by (intro that [of "'' AND ('' @ ex @ '')''"]) simp_all
  qed
  show ?thesis
    unfolding sql user(1)
    by (rule exI [where x = "join '', '' selectParts"], rule exI [where x = tbl],
        rule exI [where x = user], rule exI [where x = timeCol],
        rule exI [where x = "(if groups \<noteq> [] then '' GROUP BY '' @ join '', '' groups else [])
          @ '' ORDER BY '' @ timeCol @ '' DESC LIMIT ?''"], rule conjI [OF _ user(2)])
      (simp only: append.assoc append.simps)
qed

theorem plan_tenant_confined_witness:
  "\<exists>pl cols tbl e rest. PlanQuery no_dur no_text 0 sample_oq sample_opts = Inr pl \<and>
    pl_sql pl = ''SELECT '' @ cols @ '' FROM '' @ tbl @ '' WHERE tenant_id = ? AND ('' @ e @ '')'' @ rest \<and>
    balanced e"
proof -
  obtain pl where pl: "PlanQuery no_dur no_text 0 sample_oq sample_opts = Inr pl"
    using sample_plan by blast
  have "oq_where sample_oq \<noteq> None" by (simp add: sample_oq_def)
  then obtain cols tbl e t rest where
    "pl_sql pl = ''SELECT '' @ cols @ '' FROM '' @ tbl @ '' WHERE tenant_id = ?'' @ ('' AND ('' @ e @ '')'')
      @ '' AND '' @ t @ '' >= ?'' @ rest" "balanced e"
    using plan_tenant_confined [OF sample_oq_wf pl] by auto
  then have "pl_sql pl = ''SELECT '' @ cols @ '' FROM '' @ tbl @ '' WHERE tenant_id = ? AND ('' @ e @ '')''
      @ ('' AND '' @ t @ '' >= ?'' @ rest)"
    by (simp only: append.assoc append.simps)
  with pl \<open>balanced e\<close> show ?thesis by blast
qed

text \<open>
  The row limit of a plan is positive, never above the cap, and is the caller's limit when that
  is positive and below the cap.
\<close>

theorem plan_limit_clamped:
  assumes "PlanQuery pd sd now q opts = Inr pl"
  shows "0 < pl_limit pl \<and> pl_limit pl \<le> (if po_max_rows opts \<le> 0 then 10000 else po_max_rows opts) \<and>
    (\<forall>n. oq_limit q = Some n \<and> 0 < n \<and> n \<le> (if po_max_rows opts \<le> 0 then 10000 else po_max_rows opts)
       \<longrightarrow> pl_limit pl = n)"
  by (rule PlanQuery_Inr [OF assms]) (auto simp: plan_limit_def withDefaults_def split: option.splits)

theorem plan_limit_clamped_witness:
  "\<exists>pl. PlanQuery no_dur no_text 0 sample_oq sample_opts = Inr pl \<and> pl_limit pl = 5"
proof -
  obtain pl where pl: "PlanQuery no_dur no_text 0 sample_oq sample_opts = Inr pl"
    using sample_plan by blast
  with plan_limit_clamped [OF pl] show ?thesis by (auto simp: sample_oq_def sample_opts_def)
qed

section \<open>No panic\<close>

definition calm_error :: "oq_error + 'a \<Rightarrow> bool" where
  "calm_error r \<longleftrightarrow> (\<forall>x. r \<noteq> Inl (OqPanic x))"

lemma calm_error_bind:
  "calm_error m \<Longrightarrow> (\<And>x. m = Inr x \<Longrightarrow> calm_error (f x)) \<Longrightarrow> calm_error (bindE m f)"
  by (cases m) (auto simp: calm_error_def)

lemma calm_error_simps [simp]: "calm_error (Inr x)" "calm_error (Inl e) \<longleftrightarrow> (\<forall>x. e \<noteq> OqPanic x)"
  by (auto simp: calm_error_def)

lemma calm_error_mapE: "(\<And>x. x \<in> set xs \<Longrightarrow> calm_error (f x)) \<Longrightarrow> calm_error (mapE f xs)"
  by (induction xs) (auto intro!: calm_error_bind)

lemma identQuote_ok: "identRe s \<Longrightarrow> calm_error (identQuote s)"
  by (simp add: identQuote_def)

lemma renderColumn_calm: "calm_error (renderColumn (allowedColumns src) c)"
  by (auto simp: renderColumn_def Let_def identQuote_ok allowed_idents
      split: column.split option.split intro!: calm_error_bind)

lemma renderValue_calm: "calm_error (renderValue (allowedColumns src) v ps)"
  by (auto simp: renderValue_def identQuote_ok allowed_idents split: oq_value.split intro!: calm_error_bind)

lemma joinLoop_calm:
  "list_all (\<lambda>r. \<forall>ps. calm_error (r ps)) rs \<Longrightarrow> calm_error (joinLoop op left rs ps)"
  by (induction rs arbitrary: left ps) (auto intro!: calm_error_bind)

lemma render_calm:
  "\<forall>ps. calm_error (renderOr (allowedColumns src) e ps)"
  "\<forall>ps. calm_error (renderAnd (allowedColumns src) a ps)"
  "\<forall>ps. calm_error (renderCmp (allowedColumns src) c ps)"
proof (induction e and a and c)
  case (CPred p)
  then show ?case
    by (auto simp: renderPredicate_def renderValue_calm intro!: calm_error_bind)
qed (auto simp: list_all_iff intro!: calm_error_bind joinLoop_calm)

text \<open>
  The planner never panics on a query that passed validation: no identifier that fails the
  quoting invariant reaches \<open>identQuote\<close>, and no nil clause is dereferenced.
\<close>

theorem plan_no_panic:
  assumes "oq_normalise q0 = Inr q"
  shows "PlanQuery pd sd now q opts \<noteq> Inl (OqPanic x)"
proof -
  obtain src sel where q: "oq_from q = Some src" "oq_select q = Some sel" "sourceTable src = Some src"
    using assms by (auto simp: oq_normalise_def Let_def sourceTable_def split: option.splits if_splits)
  have 1: "calm_error (select_parts (allowedColumns src) sel)"
    by (auto simp: select_parts_def renderColumn_calm intro: calm_error_mapE)
  have 2: "calm_error (where_clause (allowedColumns src) t w)" for t w
    using render_calm(1) by (auto simp: where_clause_def split: option.split intro!: calm_error_bind)
  have 3: "calm_error (case oq_groupby q of None \<Rightarrow> Inr [] | Some cs \<Rightarrow> mapE (group_column (allowedColumns src)) cs)"
    by (auto simp: group_column_def identQuote_ok allowed_idents split: option.split intro!: calm_error_mapE)
  have 4: "calm_error (case oq_since q of None \<Rightarrow> Inr d | Some s \<Rightarrow> oq_parseDuration pd s)" for d
    by (auto simp: oq_parseDuration_def split: option.split)
  have 5: "calm_error (identQuote (timeColumn src))" "calm_error (identQuote src)"
    using identQuote_ok time_ident table_ident [OF q(3)] by blast+
  have "calm_error (PlanQuery pd sd now q opts)"
    by (auto simp: PlanQuery_def Let_def q intro!: calm_error_bind 1 2 3 4 5)
  then show ?thesis by (simp add: calm_error_def)
qed

theorem plan_no_panic_witness:
  "\<forall>x. PlanQuery no_dur no_text 0 sample_oq sample_opts \<noteq> Inl (OqPanic x)"
proof -
  have "oq_normalise (sample_oq\<lparr>oq_from := Some ''LOGS''\<rparr>) = Inr sample_oq" by code_simp
  from plan_no_panic [OF this] show ?thesis by blast
qed

text \<open>
  A day count is multiplied without an overflow check: \<open>SINCE 200000d\<close> is accepted as a negative
  duration, so the time bound of the query lies in the future and the query returns nothing.
\<close>

theorem since_days_overflow:
  "\<exists>d < 0. oq_parseDuration pd ''200000d'' = Inr d"
proof -
  have "oq_parseDuration no_dur ''200000d'' = Inr (wrap64 (200000 * 24 * hour))"
    by code_simp
  moreover have "wrap64 (200000 * 24 * hour) < 0" by code_simp
  moreover have "oq_parseDuration pd ''200000d'' = oq_parseDuration no_dur ''200000d''"
    by (simp add: oq_parseDuration_def has_suffix_def)
  ultimately show ?thesis by metis
qed

section \<open>The cheapest plan\<close>

lemma set_insert_rev [simp]: "set (insert_rev lt x ys) = insert x (set ys)"
  by (induction ys) auto

lemma set_fold_insert [simp]: "set (fold (insert_rev lt) xs ys) = set xs \<union> set ys"
  by (induction xs arbitrary: ys) auto

text \<open>When \<open>not less\<close> is transitive the reversed prefix stays sorted.\<close>

lemma insert_rev_sorted:
  assumes "\<And>x y z. x \<in> A \<Longrightarrow> y \<in> A \<Longrightarrow> z \<in> A \<Longrightarrow> \<not> lt x y \<Longrightarrow> \<not> lt y z \<Longrightarrow> \<not> lt x z"
    and "\<And>x y. lt x y \<Longrightarrow> \<not> lt y x"
  shows "sorted_wrt (\<lambda>a b. \<not> lt a b) ys \<Longrightarrow> set ys \<subseteq> A \<Longrightarrow> x \<in> A \<Longrightarrow>
    sorted_wrt (\<lambda>a b. \<not> lt a b) (insert_rev lt x ys)"
proof (induction ys)
  case Nil
  then show ?case by simp
next
  case (Cons y ys)
  show ?case
  proof (cases "lt x y")
    case True
    then show ?thesis using Cons assms(2) [OF True] by auto
  next
    case False
    then have "\<not> lt x z" if "z \<in> set ys" for z
      using that Cons.prems assms(1) [of x y z] by auto
    with False Cons.prems show ?thesis by auto
  qed
qed

lemma fold_insert_sorted:
  assumes "\<And>x y z. x \<in> A \<Longrightarrow> y \<in> A \<Longrightarrow> z \<in> A \<Longrightarrow> \<not> lt x y \<Longrightarrow> \<not> lt y z \<Longrightarrow> \<not> lt x z"
    and "\<And>x y. lt x y \<Longrightarrow> \<not> lt y x"
  shows "sorted_wrt (\<lambda>a b. \<not> lt a b) ys \<Longrightarrow> set ys \<subseteq> A \<Longrightarrow> set xs \<subseteq> A \<Longrightarrow>
    sorted_wrt (\<lambda>a b. \<not> lt a b) (fold (insert_rev lt) xs ys)"
proof (induction xs arbitrary: ys)
  case (Cons x xs)
  have "sorted_wrt (\<lambda>a b. \<not> lt a b) (insert_rev lt x ys)"
    by (rule insert_rev_sorted [OF assms]) (use Cons.prems in auto)
  with Cons show ?case by simp
qed simp

lemma feq_fle: "feq a b \<longleftrightarrow> fle a b \<and> fle b a"
  by (cases a; cases b) (auto simp: fle_def)

lemma plan_less_asym: "plan_less w x y \<Longrightarrow> \<not> plan_less w y x"
  by (auto simp: plan_less_def feq_fle dest: flt_not_fle flt_trans)

lemma plan_less_ntrans:
  assumes "cost w x \<noteq> NaN" "cost w y \<noteq> NaN" "cost w z \<noteq> NaN" "\<not> plan_less w x y" "\<not> plan_less w y z"
  shows "\<not> plan_less w x z"
proof -
  have le: "fle (cost w y) (cost w x)" "fle (cost w z) (cost w y)"
    using assms fle_total by (auto simp: plan_less_def feq_fle split: if_splits)
  then have zx: "fle (cost w z) (cost w x)" by (blast intro: fle_trans)
  show ?thesis
  proof (cases "feq (cost w x) (cost w z)")
    case True
    then have "feq (cost w x) (cost w y)" "feq (cost w y) (cost w z)"
      using le by (auto simp: feq_fle intro: fle_trans)
    with True assms(4,5) show ?thesis by (auto simp: plan_less_def)
  next
    case False
    with zx show ?thesis by (simp add: plan_less_def fle_not_flt)
  qed
qed

text \<open>
  The chooser returns one of the candidates, and a cheapest one: no candidate has a smaller
  cost (whenever no cost is NaN), so adding candidates never makes the choice worse than the
  rule-based baseline.
\<close>

theorem choose_best_cheapest:
  assumes "plans \<noteq> []" "\<forall>p \<in> set plans. cost w p \<noteq> NaN"
  shows "\<exists>best. ChooseBest w plans = Some best \<and> best \<in> set plans \<and>
    (\<forall>p \<in> set plans. fle (cost w best) (cost w p))"
proof -
  let ?r = "fold (insert_rev (plan_less w)) plans []"
  have ne: "?r \<noteq> []" using assms(1) set_fold_insert [of "plan_less w" plans "[]"] by (metis Un_empty set_empty)
  then obtain ys b where r: "?r = ys @ [b]" by (metis rev_exhaust)
  have "sorted_wrt (\<lambda>a b. \<not> plan_less w a b) ?r"
  proof (rule fold_insert_sorted [where A = "set plans"])
    fix x y z
    assume "x \<in> set plans" "y \<in> set plans" "z \<in> set plans" "\<not> plan_less w x y" "\<not> plan_less w y z"
    then show "\<not> plan_less w x z" using assms(2) by (intro plan_less_ntrans [of w x y z]) auto
  qed (use plan_less_asym in auto)
  then have *: "\<forall>p \<in> set ys. \<not> plan_less w p b" by (simp add: r sorted_wrt_append)
  have set: "set plans = insert b (set ys)"
    using set_fold_insert [of "plan_less w" plans "[]"] by (auto simp: r)
  have "fle (cost w b) (cost w p)" if "p \<in> set plans" for p
  proof (cases "p = b")
    case True
    then show ?thesis using assms(2) that by (simp add: fle_refl)
  next
    case False
    then have "\<not> plan_less w p b" using * that set by auto
    then show ?thesis
      using assms(2) that set fle_total [of "cost w b" "cost w p"]
      by (auto simp: plan_less_def feq_fle split: if_splits)
  qed
  moreover have "ChooseBest w plans = Some b" by (simp add: ChooseBest_def sort_stable_def r)
  ultimately show ?thesis using set by blast
qed

definition sample_pp :: "int \<Rightarrow> physical_plan" where
  "sample_pp n = \<lparr>pp_sql = [], pp_params = [], pp_scanned = n, pp_shuffled = 0, pp_join_order = [],
     pp_generated = 0, pp_variant = ''v''\<rparr>"

theorem choose_best_cheapest_witness:
  "\<exists>best. ChooseBest (Fin 0) [sample_pp 5, sample_pp 3] = Some best \<and>
     fle (cost (Fin 0) best) (cost (Fin 0) (sample_pp 3))"
proof -
  have "cost (Fin 0) (sample_pp n) \<noteq> NaN" if "\<bar>n\<bar> < 2 ^ 53" for n
    using that of_int64_exact [of n] of_int64_exact [of 0] by (simp add: cost_def sample_pp_def)
  from this [of 5] this [of 3] show ?thesis
    using choose_best_cheapest [of "[sample_pp 5, sample_pp 3]" "Fin 0"] by auto
qed

end
