(* ===== verification/Bytes.thy ===== *)
theory Bytes
  imports Prelude "HOL-Library.Word"
begin

text \<open>
  Byte-level codecs: little-endian words as \<open>encoding/binary\<close> reads and writes them, the IEEE CRC-32
  of \<open>hash/crc32\<close>, and the interface of a self-delimiting record format with the facts a
  sequential reader needs.
\<close>

unbundle bit_operations_syntax

type_synonym byte = "8 word"

section \<open>Little-endian words\<close>

definition put_u32 :: "32 word \<Rightarrow> byte list" where
  "put_u32 w = map (\<lambda>k. ucast (drop_bit (8 * k) w)) [0..<4]"

definition put_u64 :: "64 word \<Rightarrow> byte list" where
  "put_u64 w = map (\<lambda>k. ucast (drop_bit (8 * k) w)) [0..<8]"

definition get_u32 :: "byte list \<Rightarrow> 32 word" where
  "get_u32 bs = foldr (\<lambda>b w. ucast b OR push_bit 8 w) (take 4 bs) 0"

definition get_u64 :: "byte list \<Rightarrow> 64 word" where
  "get_u64 bs = foldr (\<lambda>b w. ucast b OR push_bit 8 w) (take 8 bs) 0"

lemma length_put [simp]: "length (put_u32 w) = 4" "length (put_u64 v) = 8"
  by (simp_all add: put_u32_def put_u64_def)

lemma low_or_high:
  fixes w :: "'a::len word"
  assumes "8 \<le> LENGTH('a)"
  shows "ucast (ucast w :: byte) OR push_bit 8 (drop_bit 8 w) = w"
proof (rule bit_word_eqI)
  fix n assume "n < LENGTH('a)"
  then show "bit (ucast (ucast w :: byte) OR push_bit 8 (drop_bit 8 w)) n = bit w n"
    using assms by (cases "n < 8") (auto simp: bit_simps)
qed

lemma get_put_u32: "get_u32 (put_u32 w @ r) = w"
proof -
  have s: "[0..<4] = [0, 1, 2, 3 :: nat]" by (simp add: upt_rec)
  have d: "drop_bit (8 + n) w = drop_bit 8 (drop_bit n w)" for n by simp
  have z: "drop_bit 32 w = 0" by (rule bit_word_eqI) (auto simp: bit_simps)
  have l: "ucast (ucast (drop_bit n w) :: byte) OR push_bit 8 (drop_bit (8 + n) w) = drop_bit n w" for n
    using low_or_high [of "drop_bit n w"] by simp
  show ?thesis
    using l [of 0] l [of 8] l [of 16] l [of 24]
    by (simp add: get_u32_def put_u32_def s z)
qed

lemma get_put_u64: "get_u64 (put_u64 w @ r) = w"
proof -
  have s: "[0..<8] = [0, 1, 2, 3, 4, 5, 6, 7 :: nat]" by (simp add: upt_rec)
  have z: "drop_bit 64 w = 0" by (rule bit_word_eqI) (auto simp: bit_simps)
  have l: "ucast (ucast (drop_bit n w) :: byte) OR push_bit 8 (drop_bit (8 + n) w) = drop_bit n w" for n
    using low_or_high [of "drop_bit n w"] by simp
  show ?thesis
    using l [of 0] l [of 8] l [of 16] l [of 24] l [of 32] l [of 40] l [of 48] l [of 56]
    by (simp add: get_u64_def put_u64_def s z)
qed

section \<open>CRC-32\<close>

definition crc_bit :: "32 word \<Rightarrow> 32 word" where
  "crc_bit c = (if bit c 0 then drop_bit 1 c XOR 0xEDB88320 else drop_bit 1 c)"

definition crc_byte :: "32 word \<Rightarrow> byte \<Rightarrow> 32 word" where
  "crc_byte c b = (crc_bit ^^ 8) (c XOR ucast b)"

definition crc32 :: "byte list \<Rightarrow> 32 word" where
  "crc32 bs = NOT (foldl crc_byte 0xFFFFFFFF bs)"

section \<open>Self-delimiting records\<close>

text \<open>
  The provider promises that a record is read back from the front of any input, that its encoding is
  not empty, and that an all-zero input (the unwritten rest of a preallocated file) holds no record.
  A reader that decodes record after record then recovers exactly the written sequence.
\<close>

locale record_codec =
  fixes enc :: "'r \<Rightarrow> byte list"
    and dec :: "byte list \<Rightarrow> ('r \<times> nat) option"
    and ok :: "'r \<Rightarrow> bool"
  assumes dec_enc: "ok r \<Longrightarrow> dec (enc r @ rest) = Some (r, length (enc r))"
    and dec_length: "dec bs = Some (r, n) \<Longrightarrow> 0 < n \<and> n \<le> length bs"
    and dec_zeros: "dec (replicate k 0) = None"
begin

function dec_all :: "byte list \<Rightarrow> 'r list \<times> nat" where
  "dec_all bs = (case dec bs of None \<Rightarrow> ([], 0)
     | Some (r, n) \<Rightarrow> (let (rs, m) = dec_all (drop n bs) in (r # rs, n + m)))"
  by pat_completeness auto
termination
  by (relation "measure length") (use dec_length in fastforce)+

declare dec_all.simps [simp del]

lemma dec_all_zeros: "dec_all (replicate k 0) = ([], 0)"
  by (subst dec_all.simps) (simp add: dec_zeros)

lemma enc_pos: "ok r \<Longrightarrow> 0 < length (enc r)"
  using dec_enc [of r "[]"] dec_length by fastforce

text \<open>Reading stops at the first position that holds no record.\<close>

lemma dec_all_tail:
  "list_all ok rs \<Longrightarrow> dec tail = None \<Longrightarrow>
   dec_all (concat (map enc rs) @ tail) = (rs, length (concat (map enc rs)))"
proof (induction rs)
  case Nil
  then show ?case by (subst dec_all.simps) simp
next
  case (Cons r rs)
  then have "dec (concat (map enc (r # rs)) @ tail) = Some (r, length (enc r))"
    by (simp add: dec_enc)
  with Cons show ?case by (subst dec_all.simps) simp
qed

lemma dec_all_enc:
  "list_all ok rs \<Longrightarrow> dec_all (concat (map enc rs) @ replicate k 0) = (rs, length (concat (map enc rs)))"
  by (rule dec_all_tail) (simp_all add: dec_zeros)

lemma dec_all_bound: "dec_all bs = (rs, m) \<Longrightarrow> m \<le> length bs"
proof (induction bs arbitrary: rs m rule: dec_all.induct)
  case (1 bs)
  show ?case
  proof (cases "dec bs")
    case None
    with 1 show ?thesis by (subst (asm) dec_all.simps) simp
  next
    case (Some rn)
    obtain r n where rn: "rn = (r, n)" by (cases rn)
    obtain rs' m' where d: "dec_all (drop n bs) = (rs', m')" by (cases "dec_all (drop n bs)")
    have "m = n + m'"
      using 1(2) Some rn d by (subst (asm) dec_all.simps) simp
    moreover have "m' \<le> length (drop n bs)" using "1.IH" [OF Some rn [symmetric]] d by simp
    moreover have "n \<le> length bs" using dec_length [of bs r n] Some rn by simp
    ultimately show ?thesis by simp
  qed
qed

end

end
