(* ===== verification/Wal.thy ===== *)
theory Wal
  imports Bytes
begin

text \<open>
  \<open>pkg/wal/wal.go\<close>: the write-ahead log. The directory is a list of named entries; an open segment is
  memory-mapped shared, so a store into the mapping is a store into the file. Which system calls
  succeed is an input of every operation. \<open>Write\<close> is split at its mutex, so that a \<open>Close\<close> can
  come between the closed check and the critical section.
\<close>

section \<open>State\<close>

datatype dirent = Dir | File "byte list"

record wal_options =
  wo_sync_interval :: int
  wo_max_bytes :: int
  wo_no_group_commit :: bool

record wal =
  w_dir :: "(string \<times> dirent) list"
  w_opts :: wal_options
  w_active :: "string option"
  w_mapped :: bool
  w_offset :: nat
  w_segid :: nat
  w_dirty :: bool
  w_closed :: bool

datatype wal_error = WPayloadTooLarge | WClosed | WOs string | WPanic

text \<open>One flag per system call of the code: \<open>True\<close> when the call succeeds.\<close>

record os_calls =
  os_mkdir :: bool
  os_readdir :: bool
  os_readfile :: bool
  os_open :: bool
  os_truncate :: bool
  os_mmap :: bool
  os_sync :: bool
  os_munmap :: bool
  os_close :: bool

definition os_ok :: os_calls where
  "os_ok = \<lparr>os_mkdir = True, os_readdir = True, os_readfile = True, os_open = True, os_truncate = True,
     os_mmap = True, os_sync = True, os_munmap = True, os_close = True\<rparr>"

definition max_segment_size :: int where
  "max_segment_size = 64 * 1024 * 1024"

definition header_size :: nat where
  "header_size = 20"

definition log_magic :: "32 word" where
  "log_magic = 0xCAFE0001"

definition wal_defaults :: "wal_options \<Rightarrow> wal_options" where
  "wal_defaults opts =
     opts\<lparr>wo_sync_interval := (if wo_sync_interval opts \<le> 0 then 5 * millisecond else wo_sync_interval opts),
          wo_max_bytes := (if wo_max_bytes opts \<le> 0 then max_segment_size else wo_max_bytes opts)\<rparr>"

definition w_max :: "wal \<Rightarrow> nat" where
  "w_max w = nat (wo_max_bytes (w_opts w))"

section \<open>Directory\<close>

text \<open>\<open>fmt.Sprintf("%016d.log", id)\<close>.\<close>

definition segment_name :: "nat \<Rightarrow> string" where
  "segment_name i =
     (let ds = show_nat i in replicate (16 - length ds) (CHR ''0'') @ ds @ ''.log'')"

fun nat_value :: "nat \<Rightarrow> string \<Rightarrow> nat" where
  "nat_value a [] = a"
| "nat_value a (c # cs) = nat_value (10 * a + (of_char c - 48)) cs"

text \<open>\<open>fmt.Sscanf(name, "%016d.log", &id)\<close>: blanks skipped, at most 16 digits, then the literal.\<close>

definition scan_name :: "string \<Rightarrow> nat option" where
  "scan_name s =
     (let s1 = dropWhile (\<lambda>c. c = CHR '' '' \<or> c = char_of (9 :: nat)) s;
          ds = takeWhile is_digit (take 16 s1)
      in if ds \<noteq> [] \<and> has_prefix (drop (length ds) s1) ''.log'' then Some (nat_value 0 ds) else None)"

definition discoverSegments :: "os_calls \<Rightarrow> (string \<times> dirent) list \<Rightarrow> wal_error + (nat \<times> string) list" where
  "discoverSegments os d =
     (if \<not> os_readdir os then Inl (WOs ''scan dir'')
      else
        Inr (sort_key fst (List.map_filter (\<lambda>(name, e).
          if e = Dir \<or> \<not> has_suffix name ''.log'' then None
          else map_option (\<lambda>i. (i, name)) (scan_name name)) d)))"

definition set_file :: "string \<Rightarrow> byte list \<Rightarrow> (string \<times> dirent) list \<Rightarrow> (string \<times> dirent) list" where
  "set_file name bs d =
     (if name \<in> fst ` set d then map (\<lambda>(n, e). if n = name then (n, File bs) else (n, e)) d
      else d @ [(name, File bs)])"

definition file_data :: "string \<Rightarrow> (string \<times> dirent) list \<Rightarrow> byte list" where
  "file_data name d = (case map_of d name of Some (File bs) \<Rightarrow> bs | _ \<Rightarrow> [])"

definition resize :: "nat \<Rightarrow> byte list \<Rightarrow> byte list" where
  "resize n bs = take n bs @ replicate (n - length bs) 0"

section \<open>Segments\<close>

definition syncLocked :: "os_calls \<Rightarrow> wal \<Rightarrow> wal \<times> wal_error option" where
  "syncLocked os w =
     (if w_active w = None then (w, None)
      else if \<not> w_dirty w then (w, None)
      else if \<not> os_sync os then (w, Some (WOs ''fsync''))
      else (w\<lparr>w_dirty := False\<rparr>, None))"

definition unmapLocked :: "os_calls \<Rightarrow> wal \<Rightarrow> wal \<times> wal_error option" where
  "unmapLocked os w =
     (if \<not> w_mapped w then (w, None)
      else if \<not> os_munmap os then (w, Some (WOs ''munmap''))
      else (w\<lparr>w_mapped := False\<rparr>, None))"

definition openSegment :: "os_calls \<Rightarrow> nat \<Rightarrow> string \<Rightarrow> wal \<Rightarrow> wal \<times> wal_error option" where
  "openSegment os i name w =
     (if \<not> os_open os \<or> map_of (w_dir w) name = Some Dir then (w, Some (WOs ''open segment''))
      else
        let w1 = w\<lparr>w_dir := set_file name (file_data name (w_dir w)) (w_dir w)\<rparr> in
        if \<not> os_truncate os then (w1, Some (WOs ''truncate segment''))
        else
          let w2 = w1\<lparr>w_dir := set_file name (resize (w_max w) (file_data name (w_dir w1))) (w_dir w1)\<rparr> in
          if \<not> os_mmap os then (w2, Some (WOs ''mmap''))
          else (w2\<lparr>w_active := Some name, w_mapped := True, w_offset := 0, w_segid := i\<rparr>, None))"

text \<open>Sequencing of steps that return the changed state also when they fail.\<close>

definition andThen :: "wal \<times> wal_error option \<Rightarrow> (wal \<Rightarrow> wal \<times> wal_error option) \<Rightarrow> wal \<times> wal_error option" where
  "andThen r f = (case r of (w, None) \<Rightarrow> f w | (w, Some e) \<Rightarrow> (w, Some e))"

definition rotate_close :: "os_calls \<Rightarrow> wal \<Rightarrow> wal \<times> wal_error option" where
  "rotate_close os w =
     (if w_active w = None then (w, None)
      else andThen (syncLocked os w) (\<lambda>w1. andThen (unmapLocked os w1) (\<lambda>w2.
             if \<not> os_close os then (w2, Some (WOs ''close''))
             else (w2\<lparr>w_active := None\<rparr>, None))))"

definition rotate_wal :: "os_calls \<Rightarrow> wal \<Rightarrow> wal \<times> wal_error option" where
  "rotate_wal os w =
     andThen (rotate_close os w) (\<lambda>w1.
       let i = Suc (w_segid w1)
       in openSegment os i (segment_name i) (w1\<lparr>w_segid := i\<rparr>))"

section \<open>Entries\<close>

type_synonym entry = "64 word \<times> byte list"

definition encode_entry :: "entry \<Rightarrow> byte list" where
  "encode_entry e =
     put_u32 log_magic @ put_u32 (of_nat (length (snd e))) @ put_u32 (crc32 (snd e))
     @ put_u64 (fst e) @ snd e"

text \<open>The body of the scan loop at the front of the remaining data: the entry and its size, or
  \<open>None\<close> where \<open>scanValidOffset\<close> and \<open>walkSegment\<close> stop.\<close>

definition decode_entry :: "byte list \<Rightarrow> (entry \<times> nat) option" where
  "decode_entry d =
     (if length d < header_size then None
      else if get_u32 d \<noteq> log_magic then None
      else
        let len = unat (get_u32 (drop 4 d)) in
        if len = 0 \<or> length d < header_size + len then None
        else
          let crc = get_u32 (drop 8 d); ts = get_u64 (drop 12 d);
              payload = take len (drop header_size d)
          in if crc32 payload \<noteq> crc then None else Some ((ts, payload), header_size + len))"

lemma decode_length: "decode_entry bs = Some (r, n) \<Longrightarrow> 0 < n \<and> n \<le> length bs"
  by (auto simp: decode_entry_def Let_def header_size_def split: if_splits)

function scan_from :: "byte list \<Rightarrow> nat" where
  "scan_from d = (case decode_entry d of None \<Rightarrow> 0 | Some (_, n) \<Rightarrow> n + scan_from (drop n d))"
  by pat_completeness auto
termination
  by (relation "measure length") (use decode_length in fastforce)+

declare scan_from.simps [simp del]

definition scanValidOffset :: "byte list \<Rightarrow> nat" where
  "scanValidOffset d = scan_from d"

text \<open>The callback of \<open>Walk\<close> carries a state; it may fail, with \<open>io.EOF\<close> or another error.\<close>

datatype cb_error = CbEOF | CbOther string

type_synonym 's callback = "'s \<Rightarrow> entry \<Rightarrow> 's \<times> cb_error option"

function walk_data :: "'s callback \<Rightarrow> byte list \<Rightarrow> 's \<Rightarrow> 's \<times> cb_error option" where
  "walk_data fn d s =
     (case decode_entry d of
        None \<Rightarrow> (s, None)
      | Some (e, n) \<Rightarrow>
          (case fn s e of (s', Some err) \<Rightarrow> (s', Some err)
           | (s', None) \<Rightarrow> walk_data fn (drop n d) s'))"
  by pat_completeness auto
termination
  by (relation "measure (\<lambda>(fn, d, s). length d)") (use decode_length in fastforce)+

declare walk_data.simps [simp del]

datatype walk_error = WalkCb cb_error | WalkOs wal_error

definition walkSegment ::
  "os_calls \<Rightarrow> (string \<times> dirent) list \<Rightarrow> 's callback \<Rightarrow> string \<Rightarrow> 's \<Rightarrow> 's \<times> walk_error option" where
  "walkSegment os d fn name s =
     (if \<not> os_readfile os then (s, Some (WalkOs (WOs ''read segment'')))
      else case walk_data fn (file_data name d) s of (s', e) \<Rightarrow> (s', map_option WalkCb e))"

text \<open>A callback error that is \<open>io.EOF\<close> only ends the segment.\<close>

fun walk_segments ::
  "os_calls \<Rightarrow> (string \<times> dirent) list \<Rightarrow> 's callback \<Rightarrow> string list \<Rightarrow> 's \<Rightarrow> 's \<times> walk_error option" where
  "walk_segments os d fn [] s = (s, None)"
| "walk_segments os d fn (n # ns) s =
     (case walkSegment os d fn n s of
        (s', None) \<Rightarrow> walk_segments os d fn ns s'
      | (s', Some e) \<Rightarrow> if e = WalkCb CbEOF then walk_segments os d fn ns s' else (s', Some e))"

definition Walk :: "os_calls \<Rightarrow> wal \<Rightarrow> 's callback \<Rightarrow> 's \<Rightarrow> 's \<times> walk_error option" where
  "Walk os w fn s =
     (case discoverSegments os (w_dir w) of
        Inl e \<Rightarrow> (s, Some (WalkOs e))
      | Inr segs \<Rightarrow> walk_segments os (w_dir w) fn (map snd segs) s)"

section \<open>Operations\<close>

definition NewWAL :: "os_calls \<Rightarrow> (string \<times> dirent) list \<Rightarrow> wal_options \<Rightarrow> wal_error + wal" where
  "NewWAL os d opts0 =
     (let opts = wal_defaults opts0;
          w0 = \<lparr>w_dir = d, w_opts = opts, w_active = None, w_mapped = False, w_offset = 0,
                w_segid = 0, w_dirty = False, w_closed = False\<rparr>
      in if \<not> os_mkdir os then Inl (WOs ''mkdir'')
         else bindE (discoverSegments os d) (\<lambda>segs.
           if segs = [] then
             (case rotate_wal os w0 of (w, None) \<Rightarrow> Inr w | (w, Some e) \<Rightarrow> Inl e)
           else
             (case openSegment os (fst (last segs)) (snd (last segs)) w0 of
                (w, Some e) \<Rightarrow> Inl e
              | (w, None) \<Rightarrow>
                  Inr (w\<lparr>w_offset := scanValidOffset (file_data (snd (last segs)) (w_dir w)),
                         w_segid := fst (last segs)\<rparr>))))"

text \<open>The part of \<open>Write\<close> before the lock.\<close>

definition write_check :: "byte list \<Rightarrow> wal \<Rightarrow> wal_error option" where
  "write_check payload w =
     (if w_closed w then Some WClosed
      else if w_max w < header_size + length payload then Some WPayloadTooLarge
      else None)"

definition active_data :: "wal \<Rightarrow> byte list" where
  "active_data w =
     (if w_mapped w then (case w_active w of Some n \<Rightarrow> file_data n (w_dir w) | None \<Rightarrow> []) else [])"

text \<open>Storing the entry: indexing past the mapping (or into a nil mapping) panics.\<close>

definition store_entry :: "entry \<Rightarrow> wal \<Rightarrow> wal \<times> wal_error option" where
  "store_entry e w =
     (let size = header_size + length (snd e); off = w_offset w; d = active_data w in
      if length d < off + size then (w, Some WPanic)
      else
        let d' = take off d @ encode_entry e @ drop (off + size) d
        in (w\<lparr>w_dir := (case w_active w of Some n \<Rightarrow> set_file n d' (w_dir w) | None \<Rightarrow> w_dir w),
              w_offset := off + size, w_dirty := True\<rparr>, None))"

definition write_locked :: "os_calls \<Rightarrow> entry \<Rightarrow> wal \<Rightarrow> wal \<times> wal_error option" where
  "write_locked os e w =
     andThen (if w_max w < w_offset w + (header_size + length (snd e)) then rotate_wal os w else (w, None))
       (store_entry e)"

definition wal_Write :: "os_calls \<Rightarrow> 64 word \<Rightarrow> byte list \<Rightarrow> wal \<Rightarrow> wal \<times> wal_error option" where
  "wal_Write os ts payload w =
     (case write_check payload w of
        Some e \<Rightarrow> (w, Some e)
      | None \<Rightarrow> write_locked os (ts, payload) w)"

definition wal_Sync :: "os_calls \<Rightarrow> wal \<Rightarrow> wal \<times> wal_error option" where
  "wal_Sync os w = syncLocked os w"

definition wal_Close :: "os_calls \<Rightarrow> wal \<Rightarrow> wal \<times> wal_error option" where
  "wal_Close os w =
     (if w_closed w then (w, None)
      else andThen (syncLocked os (w\<lparr>w_closed := True\<rparr>)) (\<lambda>w1.
           andThen (unmapLocked os w1) (\<lambda>w2.
             if w_active w2 \<noteq> None \<and> \<not> os_close os then (w2, Some (WOs ''close'')) else (w2, None))))"

text \<open>One tick of \<open>groupCommitLoop\<close>; the error of the sync is dropped.\<close>

definition group_commit_tick :: "os_calls \<Rightarrow> wal \<Rightarrow> wal" where
  "group_commit_tick os w = fst (syncLocked os w)"

end
