(* ===== verification/WalProps.thy ===== *)
theory WalProps
  imports Wal
begin

text \<open>
  The write-ahead log against its contract, a sequence of entries: writing appends, reopening after
  a close or a crash recovers exactly what was written, and walking delivers it in order. The last
  section states where the code departs from it.
\<close>

section \<open>The entry format is a record codec\<close>

definition ok_entry :: "entry \<Rightarrow> bool" where
  "ok_entry e \<longleftrightarrow> snd e \<noteq> [] \<and> length (snd e) < 2 ^ 32"

lemma length_encode [simp]: "length (encode_entry e) = header_size + length (snd e)"
  by (simp add: encode_entry_def header_size_def)

lemma drop_put_u32: "drop (4 + n) (put_u32 w @ r) = drop n r"
  by simp

lemma decode_encode:
  assumes "ok_entry e"
  shows "decode_entry (encode_entry e @ rest) = Some (e, header_size + length (snd e))"
proof -
  let ?p = "snd e"
  have len: "unat (of_nat (length ?p) :: 32 word) = length ?p"
    using assms by (simp add: ok_entry_def unat_of_nat take_bit_nat_eq_self)
  have d4: "drop 4 (encode_entry e @ rest)
      = put_u32 (of_nat (length ?p)) @ put_u32 (crc32 ?p) @ put_u64 (fst e) @ ?p @ rest"
    unfolding encode_entry_def append.assoc by simp
  have d8: "drop 8 (encode_entry e @ rest) = put_u32 (crc32 ?p) @ put_u64 (fst e) @ ?p @ rest"
    unfolding encode_entry_def append.assoc by simp
  have d12: "drop 12 (encode_entry e @ rest) = put_u64 (fst e) @ ?p @ rest"
    unfolding encode_entry_def append.assoc by simp
  have d20: "drop header_size (encode_entry e @ rest) = ?p @ rest"
    unfolding encode_entry_def append.assoc header_size_def by simp
  have m: "get_u32 (encode_entry e @ rest) = log_magic"
    by (simp add: encode_entry_def get_put_u32)
  show ?thesis
    using assms
    unfolding decode_entry_def m d4 d8 d12 d20 get_put_u32 get_put_u64 len Let_def
    by (simp add: ok_entry_def)
qed

lemma get_u32_zeros: "get_u32 (replicate k 0) = 0"
proof -
  have "foldr (\<lambda>b w. ucast b OR push_bit 8 w) (replicate n (0 :: byte)) (0 :: 32 word) = 0" for n
    by (induction n) auto
  then show ?thesis by (simp add: get_u32_def take_replicate)
qed

lemma decode_zeros: "decode_entry (replicate k 0) = None"
  by (simp add: decode_entry_def get_u32_zeros log_magic_def)

interpretation walc: record_codec encode_entry decode_entry ok_entry
  by unfold_locales (use decode_encode decode_length decode_zeros in auto)

lemma scan_dec_all: "scan_from d = snd (walc.dec_all d)"
proof (induction d rule: scan_from.induct)
  case (1 d)
  then show ?case
    by (subst scan_from.simps, subst walc.dec_all.simps)
      (auto split: option.split prod.split)
qed

text \<open>Running a callback over a list of entries.\<close>

fun run_cb :: "'s callback \<Rightarrow> entry list \<Rightarrow> 's \<Rightarrow> 's \<times> cb_error option" where
  "run_cb fn [] s = (s, None)"
| "run_cb fn (e # es) s = (case fn s e of (s', Some err) \<Rightarrow> (s', Some err) | (s', None) \<Rightarrow> run_cb fn es s')"

lemma walk_dec_all: "walk_data fn d s = run_cb fn (fst (walc.dec_all d)) s"
proof (induction fn d s rule: walk_data.induct)
  case (1 fn d s)
  show ?case
  proof (cases "decode_entry d")
    case None
    then show ?thesis by (subst walk_data.simps, subst walc.dec_all.simps) simp
  next
    case (Some en)
    obtain e n where en: "en = (e, n)" by (cases en)
    obtain es m where d: "walc.dec_all (drop n d) = (es, m)" by (cases "walc.dec_all (drop n d)")
    obtain s' err where f: "fn s e = (s', err)" by (cases "fn s e")
    show ?thesis
    proof (cases err)
      case None
      then have "walk_data fn (drop n d) s' = run_cb fn es s'"
        using "1.IH" [OF Some en [symmetric] f [symmetric]] d by simp
      with None Some en d f show ?thesis
        by (subst walk_data.simps, subst walc.dec_all.simps) simp
    next
      case (Some x)
      with \<open>decode_entry d = Some en\<close> en d f show ?thesis
        by (subst walk_data.simps, subst walc.dec_all.simps) simp
    qed
  qed
qed

section \<open>Segment names\<close>

lemma nat_value_append: "nat_value a (s @ t) = nat_value (nat_value a s) t"
  by (induction a s rule: nat_value.induct) auto

lemma nat_value_zeros: "nat_value 0 (replicate k (CHR ''0'')) = 0"
  by (induction k) auto

lemma nat_value_show: "nat_value 0 (show_nat n) = n"
proof (induction n rule: show_nat.induct)
  case (1 n)
  then show ?case
    by (subst show_nat.simps) (auto simp: nat_value_append)
qed

lemma length_show_nat: "0 < k \<Longrightarrow> n < 10 ^ k \<Longrightarrow> length (show_nat n) \<le> k"
proof (induction n arbitrary: k rule: show_nat.induct)
  case (1 n)
  show ?case
  proof (cases "n < 10")
    case True
    then show ?thesis using 1 by (subst show_nat.simps) simp
  next
    case False
    then obtain j where j: "k = Suc j" "0 < j"
      using "1.prems" by (cases k; cases "k - 1") auto
    have "n div 10 < 10 ^ j" using "1.prems"(2) j by (simp add: less_mult_imp_div_less)
    with "1.IH" [OF False j(2)] False j show ?thesis by (subst show_nat.simps) simp
  qed
qed

lemma segment_digits:
  assumes "i < 10 ^ 16"
  shows "\<exists>ds. segment_name i = ds @ ''.log'' \<and> length ds = 16 \<and> list_all is_digit ds \<and> nat_value 0 ds = i"
proof -
  let ?ds = "replicate (16 - length (show_nat i)) (CHR ''0'') @ show_nat i"
  have "length (show_nat i) \<le> 16" using length_show_nat [of 16 i] assms by simp
  moreover have "is_digit (CHR ''0'')" by code_simp
  ultimately show ?thesis
    using show_nat_digits [of i]
    by (intro exI [of _ ?ds]) (auto simp: segment_name_def Let_def list_all_iff nat_value_append
        nat_value_zeros nat_value_show)
qed

lemma scan_segment_name:
  assumes "i < 10 ^ 16"
  shows "scan_name (segment_name i) = Some i" "has_suffix (segment_name i) ''.log''"
proof -
  obtain ds where ds: "segment_name i = ds @ ''.log''" "length ds = 16" "list_all is_digit ds"
    "nat_value 0 ds = i"
    using segment_digits [OF assms] by blast
  then obtain c cs where c: "ds = c # cs" "is_digit c" by (cases ds) auto
  have nb: "\<not> (c = CHR '' '' \<or> c = char_of (9 :: nat))"
    using c(2) by (auto simp: is_digit_def)
  have dw: "dropWhile (\<lambda>c. c = CHR '' '' \<or> c = char_of (9 :: nat)) (ds @ ''.log'') = ds @ ''.log''"
    using nb by (simp add: c(1))
  have tw: "takeWhile is_digit ds = ds"
    using ds(3) by (simp add: list_all_iff)
  have tk: "take 16 (ds @ ''.log'') = ds" "ds \<noteq> []"
    using ds(2) c(1) by simp_all
  show "scan_name (segment_name i) = Some i"
    using ds(4) tk(2) unfolding scan_name_def Let_def ds(1) dw tk(1) tw by (simp add: has_prefix_def)
  show "has_suffix (segment_name i) ''.log''" using ds by (simp add: has_suffix_def)
qed

lemma segment_name_inj: "i < 10 ^ 16 \<Longrightarrow> j < 10 ^ 16 \<Longrightarrow> segment_name i = segment_name j \<Longrightarrow> i = j"
  using scan_segment_name(1) by (metis option.inject)

section \<open>The abstract log\<close>

text \<open>A segment: its id, its entries and the number of zero bytes after them.\<close>

type_synonym seg = "nat \<times> entry list \<times> nat"

definition enc_all :: "entry list \<Rightarrow> byte list" where
  "enc_all es = concat (map encode_entry es)"

fun seg_file :: "seg \<Rightarrow> string \<times> dirent" where
  "seg_file (i, es, z) = (segment_name i, File (enc_all es @ replicate z 0))"

definition log_of :: "seg list \<Rightarrow> entry list" where
  "log_of segs = concat (map (fst \<circ> snd) segs)"

definition wf_segs :: "seg list \<Rightarrow> bool" where
  "wf_segs segs \<longleftrightarrow> sorted_wrt (<) (map fst segs) \<and> (\<forall>s \<in> set segs. fst s < 10 ^ 16)
     \<and> (\<forall>s \<in> set segs. list_all ok_entry (fst (snd s)))"

text \<open>What a closed or crashed log leaves on disk: preallocated segments whose tails are zero; the
  last one has the configured size.\<close>

definition disk_inv :: "nat \<Rightarrow> (string \<times> dirent) list \<Rightarrow> seg list \<Rightarrow> bool" where
  "disk_inv mx d segs \<longleftrightarrow> wf_segs segs \<and> d = map seg_file segs \<and> mx < 2 ^ 32 \<and> segs \<noteq> []
     \<and> length (enc_all (fst (snd (last segs)))) + snd (snd (last segs)) = mx"

definition wal_inv :: "wal \<Rightarrow> seg list \<Rightarrow> bool" where
  "wal_inv w segs \<longleftrightarrow> disk_inv (w_max w) (w_dir w) segs
     \<and> w_active w = Some (segment_name (fst (last segs))) \<and> w_mapped w \<and> \<not> w_closed w
     \<and> w_segid w = fst (last segs) \<and> w_offset w = length (enc_all (fst (snd (last segs))))"

lemma dec_all_seg:
  "list_all ok_entry es \<Longrightarrow> walc.dec_all (enc_all es @ replicate z 0) = (es, length (enc_all es))"
  by (simp add: enc_all_def walc.dec_all_enc)

lemma wf_segs_snoc:
  "wf_segs (segs @ [s]) \<longleftrightarrow> wf_segs segs \<and> fst s < 10 ^ 16 \<and> list_all ok_entry (fst (snd s))
     \<and> (\<forall>t \<in> set segs. fst t < fst s)"
  by (auto simp: wf_segs_def sorted_wrt_append)

lemma names_fresh:
  assumes "wf_segs segs" "i < 10 ^ 16" "\<forall>t \<in> set segs. fst t \<noteq> i"
  shows "segment_name i \<notin> fst ` set (map seg_file segs)"
proof
  assume "segment_name i \<in> fst ` set (map seg_file segs)"
  then obtain t where t: "t \<in> set segs" "segment_name i = segment_name (fst t)"
    by auto
  with assms have "i = fst t" by (intro segment_name_inj) (auto simp: wf_segs_def)
  with t assms(3) show False by auto
qed

lemma set_file_snoc:
  assumes "n \<notin> fst ` set d"
  shows "set_file n bs (d @ [(n, e)]) = d @ [(n, File bs)]" "set_file n bs d = d @ [(n, File bs)]"
    "file_data n (d @ [(n, File bs)]) = bs" "file_data n d = []" "map_of (d @ [(n, e)]) n = Some e"
proof -
  have "map (\<lambda>(m, x). if m = n then (m, File bs) else (m, x)) d = d"
    using assms by (intro map_idI) force
  then show "set_file n bs (d @ [(n, e)]) = d @ [(n, File bs)]" by (simp add: set_file_def)
  show "set_file n bs d = d @ [(n, File bs)]" using assms by (simp add: set_file_def)
  have "map_of d n = None" using assms by (simp add: map_of_eq_None_iff)
  then show "file_data n (d @ [(n, File bs)]) = bs" "file_data n d = []" "map_of (d @ [(n, e)]) n = Some e"
    by (simp_all add: file_data_def map_add_def)
qed

lemma snoc_facts:
  assumes "wf_segs (segs @ [(i, es, z)])"
  shows "segment_name i \<notin> fst ` set (map seg_file segs)"
  using assms by (intro names_fresh) (auto simp: wf_segs_snoc)

definition seg_bytes :: "seg \<Rightarrow> byte list" where
  "seg_bytes s = enc_all (fst (snd s)) @ replicate (snd (snd s)) 0"

definition named :: "(seg \<Rightarrow> byte list) \<Rightarrow> seg \<Rightarrow> string \<times> dirent" where
  "named g s = (segment_name (fst s), File (g s))"

lemma seg_file_named: "seg_file = named seg_bytes"
  by (auto simp: fun_eq_iff named_def seg_bytes_def)

lemma discover_segs:
  assumes "wf_segs segs" "os_readdir os"
  shows "discoverSegments os (map (named g) segs) = Inr (map (\<lambda>s. (fst s, segment_name (fst s))) segs)"
proof -
  let ?f = "\<lambda>(name, e). if e = Dir \<or> \<not> has_suffix name ''.log'' then None
          else map_option (\<lambda>i. (i, name)) (scan_name name)"
  have "List.map_filter ?f (map (named g) segs) = map (\<lambda>s. (fst s, segment_name (fst s))) segs"
    using assms(1)
  proof (induction segs)
    case (Cons s segs)
    then have "fst s < 10 ^ 16" "wf_segs segs" by (auto simp: wf_segs_def)
    with Cons.IH show ?case
      by (simp add: List.map_filter_simps scan_segment_name named_def)
  qed (simp add: List.map_filter_simps)
  moreover have "sorted (map fst (map (\<lambda>s. (fst s, segment_name (fst s))) segs))"
    using assms(1) by (auto simp: wf_segs_def o_def intro: strict_sorted_imp_sorted)
  ultimately show ?thesis
    using assms(2) by (simp add: discoverSegments_def sort_key_id_if_sorted)
qed

section \<open>Storing an entry\<close>

lemma take_enc: "take (length a) (a @ b) = a" "drop (length a + n) (a @ b) = drop n b"
  by simp_all

lemma store_entry_inv:
  assumes inv: "wal_inv w segs" and ok: "snd e \<noteq> []"
    and room: "w_offset w + (header_size + length (snd e)) \<le> w_max w"
  shows "\<exists>w' segs'. store_entry e w = (w', None) \<and> wal_inv w' segs' \<and> log_of segs' = log_of segs @ [e] \<and>
    w_max w' = w_max w \<and> w_segid w' = w_segid w"
proof -
  obtain rest i es z where segs: "segs = rest @ [(i, es, z)]"
    using inv by (cases segs rule: rev_cases) (auto simp: wal_inv_def disk_inv_def)
  have wf: "wf_segs (rest @ [(i, es, z)])" and dir: "w_dir w = map seg_file rest @ [seg_file (i, es, z)]"
    and act: "w_active w = Some (segment_name i)" "w_mapped w" "\<not> w_closed w" "w_segid w = i"
    and off: "w_offset w = length (enc_all es)" "length (enc_all es) + z = w_max w" "w_max w < 2 ^ 32"
    using inv by (auto simp: wal_inv_def disk_inv_def segs)
  note fresh = set_file_snoc [OF snoc_facts [OF wf]]
  let ?n = "header_size + length (snd e)"
  have data: "active_data w = enc_all es @ replicate z 0"
    by (simp add: active_data_def act dir fresh)
  have "?n \<le> z" using room off by simp
  then have new: "take (w_offset w) (active_data w) @ encode_entry e @ drop (w_offset w + ?n) (active_data w)
      = enc_all (es @ [e]) @ replicate (z - ?n) 0"
    by (simp add: data off(1) enc_all_def)
  let ?w' = "w\<lparr>w_dir := map seg_file (rest @ [(i, es @ [e], z - ?n)]),
      w_offset := w_offset w + ?n, w_dirty := True\<rparr>"
  have "store_entry e w = (?w', None)"
    unfolding store_entry_def Let_def new
    using \<open>?n \<le> z\<close> by (simp add: data off(1) act dir fresh)
  moreover have "wal_inv ?w' (rest @ [(i, es @ [e], z - ?n)])"
    using wf act off ok room \<open>?n \<le> z\<close>
    by (auto simp: wal_inv_def disk_inv_def wf_segs_snoc w_max_def ok_entry_def enc_all_def)
  moreover have "log_of (rest @ [(i, es @ [e], z - ?n)]) = log_of segs @ [e]"
    by (simp add: log_of_def segs)
  ultimately show ?thesis by (force simp: w_max_def)
qed

section \<open>Rotation\<close>

lemma rotate_close_ok:
  "\<exists>w1. rotate_close os_ok w = (w1, None) \<and> w_dir w1 = w_dir w \<and> w_opts w1 = w_opts w \<and>
     w_segid w1 = w_segid w \<and> w_closed w1 = w_closed w \<and> w_active w1 = None"
  by (auto simp: rotate_close_def andThen_def syncLocked_def unmapLocked_def os_ok_def)

lemma open_fresh:
  assumes "n \<notin> fst ` set (w_dir w)"
  shows "openSegment os_ok i n w
    = (w\<lparr>w_dir := w_dir w @ [(n, File (replicate (w_max w) 0))], w_active := Some n, w_mapped := True,
         w_offset := 0, w_segid := i\<rparr>, None)"
proof -
  have "map_of (w_dir w) n = None" using assms by (simp add: map_of_eq_None_iff)
  then show ?thesis
    by (simp add: openSegment_def os_ok_def Let_def set_file_snoc [OF assms] resize_def w_max_def)
qed

lemma rotate_inv:
  assumes inv: "wal_inv w segs" and fresh: "Suc (w_segid w) < 10 ^ 16"
  shows "\<exists>w' segs'. rotate_wal os_ok w = (w', None) \<and> wal_inv w' segs' \<and> log_of segs' = log_of segs \<and>
    w_max w' = w_max w \<and> w_offset w' = 0 \<and> w_segid w' = Suc (w_segid w)"
proof -
  let ?i = "Suc (w_segid w)"
  have wf: "wf_segs segs" "w_segid w = fst (last segs)" "segs \<noteq> []" "w_dir w = map seg_file segs"
    and act: "\<not> w_closed w" "w_max w < 2 ^ 32"
    using inv by (auto simp: wal_inv_def disk_inv_def)
  obtain rest s where segs: "segs = rest @ [s]" using wf(3) by (cases segs rule: rev_cases) auto
  have lt: "\<forall>t \<in> set segs. fst t < ?i"
    using wf(1,2) by (auto simp: segs wf_segs_snoc)
  have wf': "wf_segs (segs @ [(?i, [], w_max w)])"
    using wf(1) fresh lt by (simp add: wf_segs_snoc)
  obtain w1 where w1: "rotate_close os_ok w = (w1, None)" "w_dir w1 = w_dir w" "w_opts w1 = w_opts w"
    "w_segid w1 = w_segid w" "w_closed w1 = w_closed w"
    using rotate_close_ok [of w] by blast
  have mx: "w_max w1 = w_max w" using w1(3) by (simp add: w_max_def)
  define w' where "w' = w1\<lparr>w_segid := ?i, w_dir := w_dir w1 @ [(segment_name ?i, File (replicate (w_max w1) 0))],
      w_active := Some (segment_name ?i), w_mapped := True, w_offset := 0\<rparr>"
  have "segment_name ?i \<notin> fst ` set (w_dir (w1\<lparr>w_segid := ?i\<rparr>))"
    using snoc_facts [OF wf'] by (simp add: w1 wf)
  from open_fresh [OF this, of ?i] have "rotate_wal os_ok w = (w', None)"
    by (simp add: rotate_wal_def w1 andThen_def Let_def w'_def w_max_def)
  moreover have "wal_inv w' (segs @ [(?i, [], w_max w)])"
    using wf' act w1 mx wf by (simp add: wal_inv_def disk_inv_def enc_all_def w'_def w_max_def)
  moreover have "log_of (segs @ [(?i, [], w_max w)]) = log_of segs"
    by (simp add: log_of_def)
  moreover have "w_max w' = w_max w" "w_offset w' = 0" "w_segid w' = Suc (w_segid w)"
    using mx by (simp_all add: w'_def w_max_def)
  ultimately show ?thesis by blast
qed

section \<open>Writing\<close>

lemma write_inv:
  assumes "wal_inv w segs" "payload \<noteq> []" "header_size + length payload \<le> w_max w" "Suc (w_segid w) < 10 ^ 16"
  shows "\<exists>w' segs'. wal_Write os_ok ts payload w = (w', None) \<and> wal_inv w' segs' \<and>
    log_of segs' = log_of segs @ [(ts, payload)] \<and> w_max w' = w_max w \<and> w_segid w' \<le> Suc (w_segid w)"
proof (cases "w_max w < w_offset w + (header_size + length payload)")
  case False
  have "write_check payload w = None"
    using assms by (auto simp: write_check_def wal_inv_def)
  with False store_entry_inv [OF assms(1), of "(ts, payload)"] assms(2) show ?thesis
    by (fastforce simp: wal_Write_def write_locked_def andThen_def)
next
  case True
  obtain w1 segs1 where r: "rotate_wal os_ok w = (w1, None)" "wal_inv w1 segs1" "log_of segs1 = log_of segs"
    "w_max w1 = w_max w" "w_offset w1 = 0" "w_segid w1 = Suc (w_segid w)"
    using rotate_inv [OF assms(1,4)] by blast
  have "write_check payload w = None"
    using assms by (auto simp: write_check_def wal_inv_def)
  moreover obtain w2 segs2 where w2: "store_entry (ts, payload) w1 = (w2, None)" "wal_inv w2 segs2"
    "log_of segs2 = log_of segs @ [(ts, payload)]" "w_max w2 = w_max w" "w_segid w2 = Suc (w_segid w)"
    using store_entry_inv [OF r(2), of "(ts, payload)"] r assms(2,3) by auto
  ultimately have "wal_Write os_ok ts payload w = (w2, None)"
    using True r(1) by (simp add: wal_Write_def write_locked_def andThen_def)
  with w2 show ?thesis by auto
qed

section \<open>Recovery\<close>

lemma open_last:
  assumes "wf_segs (rest @ [(i, es, z)])" "w_dir w = map seg_file (rest @ [(i, es, z)])"
    "length (enc_all es) + z = w_max w"
  shows "openSegment os_ok i (segment_name i) w
    = (w\<lparr>w_active := Some (segment_name i), w_mapped := True, w_offset := 0, w_segid := i\<rparr>, None)"
proof -
  note fr = set_file_snoc [OF snoc_facts [OF assms(1)]]
  have "resize (w_max w) (enc_all es @ replicate z 0) = enc_all es @ replicate z 0"
    using assms(3) by (simp add: resize_def)
  moreover have "map_of (w_dir w) (segment_name i) = Some (File (enc_all es @ replicate z 0))"
    "file_data (segment_name i) (w_dir w) = enc_all es @ replicate z 0"
    "set_file (segment_name i) (enc_all es @ replicate z 0) (w_dir w) = w_dir w"
    using fr(1,3,5) by (simp_all only: assms(2) map_append list.map seg_file.simps)
  ultimately show ?thesis by (simp add: openSegment_def os_ok_def Let_def w_max_def)
qed

lemma recover_inv:
  assumes "disk_inv mx d segs" "mx = nat (wo_max_bytes (wal_defaults opts))"
  shows "\<exists>w. NewWAL os_ok d opts = Inr w \<and> wal_inv w segs \<and> w_max w = mx"
proof -
  obtain rest i es z where segs: "segs = rest @ [(i, es, z)]"
    using assms(1) by (cases segs rule: rev_cases) (auto simp: disk_inv_def)
  have wf: "wf_segs (rest @ [(i, es, z)])" and d: "d = map seg_file (rest @ [(i, es, z)])"
    and len: "length (enc_all es) + z = mx" and mx: "mx < 2 ^ 32"
    using assms(1) by (auto simp: disk_inv_def segs)
  define w0 where "w0 = \<lparr>w_dir = d, w_opts = wal_defaults opts, w_active = None, w_mapped = False, w_offset = 0,
                w_segid = 0, w_dirty = False, w_closed = False\<rparr>"
  have w0: "w_dir w0 = d" "w_max w0 = mx" "w_closed w0 = False"
    using assms(2) by (simp_all add: w0_def w_max_def)
  have ls: "last (map (\<lambda>s. (fst s, segment_name (fst s))) segs) = (i, segment_name i)"
    "map (\<lambda>s. (fst s, segment_name (fst s))) segs \<noteq> []"
    by (simp_all add: segs)
  have disc: "discoverSegments os_ok d = Inr (map (\<lambda>s. (fst s, segment_name (fst s))) segs)"
    using discover_segs [OF wf, of os_ok seg_bytes] by (simp add: d segs os_ok_def seg_file_named)
  have data: "file_data (segment_name i) d = enc_all es @ replicate z 0"
    using set_file_snoc(3) [OF snoc_facts [OF wf]] by (simp add: d)
  have scan: "scanValidOffset (enc_all es @ replicate z 0) = length (enc_all es)"
    using wf by (simp add: scanValidOffset_def scan_dec_all dec_all_seg wf_segs_snoc)
  have op: "openSegment os_ok i (segment_name i) w0
    = (w0\<lparr>w_active := Some (segment_name i), w_mapped := True, w_offset := 0, w_segid := i\<rparr>, None)"
    by (rule open_last [OF wf]) (use w0 d len in auto)
  define w where "w = w0\<lparr>w_active := Some (segment_name i), w_mapped := True,
      w_offset := length (enc_all es), w_segid := i\<rparr>"
  have "NewWAL os_ok d opts = Inr w"
    using disc ls op data scan
    by (simp add: NewWAL_def os_ok_def Let_def w0_def w_def segs)
  moreover have "wal_inv w segs"
    using assms(1) w0 by (simp add: wal_inv_def w_def w_max_def segs)
  moreover have "w_max w = mx" using w0 by (simp add: w_def w_max_def)
  ultimately show ?thesis by blast
qed

lemma new_inv:
  assumes "nat (wo_max_bytes (wal_defaults opts)) < 2 ^ 32"
  shows "\<exists>w segs. NewWAL os_ok [] opts = Inr w \<and> wal_inv w segs \<and> log_of segs = []
    \<and> w_max w = nat (wo_max_bytes (wal_defaults opts)) \<and> w_segid w = 1"
proof -
  define w0 where "w0 = \<lparr>w_dir = [], w_opts = wal_defaults opts, w_active = None, w_mapped = False, w_offset = 0,
                w_segid = 0, w_dirty = False, w_closed = False\<rparr>"
  define w where "w = w0\<lparr>w_segid := 1, w_dir := [(segment_name 1, File (replicate (w_max w0) 0))],
      w_active := Some (segment_name 1), w_mapped := True, w_offset := 0\<rparr>"
  have "rotate_wal os_ok w0 = (w, None)"
    by (simp add: rotate_wal_def rotate_close_def andThen_def Let_def open_fresh w_def w0_def w_max_def)
  then have "NewWAL os_ok [] opts = Inr w"
    by (simp add: NewWAL_def os_ok_def discoverSegments_def List.map_filter_simps w0_def Let_def)
  moreover have "wal_inv w [(1, [], w_max w0)]"
    using assms by (simp add: wal_inv_def disk_inv_def wf_segs_def w_def w0_def w_max_def enc_all_def)
  ultimately show ?thesis
    by (intro exI [of _ w] exI [of _ "[(1, [], w_max w0)]"]) (simp add: log_of_def w_def w0_def w_max_def)
qed

lemma walk_segments_ok:
  assumes "\<forall>s \<in> set segs. fst (walc.dec_all (file_data (segment_name (fst s)) d)) = fst (snd s)"
  shows "walk_segments os_ok d (\<lambda>acc e. (acc @ [e], None)) (map (\<lambda>s. segment_name (fst s)) segs) acc
    = (acc @ log_of segs, None)"
  using assms
proof (induction segs arbitrary: acc)
  case Nil
  then show ?case by (simp add: log_of_def)
next
  case (Cons s segs)
  have "run_cb (\<lambda>acc e. (acc @ [e], None)) es acc = (acc @ es, None)" for es acc
    by (induction es arbitrary: acc) auto
  then have "walkSegment os_ok d (\<lambda>acc e. (acc @ [e], None)) (segment_name (fst s)) acc
      = (acc @ fst (snd s), None)"
    using Cons.prems by (simp add: walkSegment_def os_ok_def walk_dec_all)
  with Cons show ?case by (auto simp: log_of_def)
qed

lemma named_data:
  assumes "wf_segs segs" "s \<in> set segs"
  shows "file_data (segment_name (fst s)) (map (named g) segs) = g s"
proof -
  have "inj_on segment_name (set (map fst segs))"
    using assms(1) segment_name_inj by (auto simp: inj_on_def wf_segs_def)
  moreover have "distinct (map fst segs)"
    using assms(1) strict_sorted_iff by (auto simp: wf_segs_def)
  moreover have "map fst (map (named g) segs) = map segment_name (map fst segs)"
    by (simp add: named_def)
  ultimately have "distinct (map fst (map (named g) segs))" by (simp only: distinct_map)
  then have "map_of (map (named g) segs) (segment_name (fst s)) = Some (File (g s))"
    using assms(2) by (intro map_of_is_SomeI) (force simp: named_def)+
  then show ?thesis by (simp add: file_data_def)
qed

lemma walk_named:
  assumes "wf_segs segs" "w_dir w = map (named g) segs" "\<forall>s \<in> set segs. fst (walc.dec_all (g s)) = fst (snd s)"
  shows "Walk os_ok w (\<lambda>acc e. (acc @ [e], None)) [] = (log_of segs, None)"
  using walk_segments_ok [of segs "w_dir w" "[]"] named_data [OF assms(1)] assms(3)
    discover_segs [OF assms(1), of os_ok g]
  by (simp add: Walk_def os_ok_def o_def assms(2))

lemma walk_log:
  assumes "wf_segs segs" "w_dir w = map seg_file segs"
  shows "Walk os_ok w (\<lambda>acc e. (acc @ [e], None)) [] = (log_of segs, None)"
  using assms dec_all_seg by (intro walk_named [of segs w seg_bytes]) (auto simp: seg_file_named seg_bytes_def wf_segs_def)

section \<open>The log as a state machine\<close>

text \<open>
  The steps of a process that uses the log, with the sequence of accepted entries as a ghost:
  writes (accepted or refused), syncs, ticks of the group commit, a crash of the process (the
  mapping survives in the page cache) and a close, both followed by a restart with the same options.
  Writing needs a segment number left, and payloads are not empty (an empty payload ends the segment for readers).
\<close>

inductive wal_step :: "wal_options \<Rightarrow> wal \<times> entry list \<Rightarrow> wal \<times> entry list \<Rightarrow> bool" for opts where
  accepted: "wal_Write os_ok ts payload w = (w', None) \<Longrightarrow> payload \<noteq> [] \<Longrightarrow> Suc (w_segid w) < 10 ^ 16 \<Longrightarrow>
    wal_step opts (w, l) (w', l @ [(ts, payload)])"
| refused: "wal_Write os_ok ts payload w = (w', Some e) \<Longrightarrow> payload \<noteq> [] \<Longrightarrow> Suc (w_segid w) < 10 ^ 16 \<Longrightarrow>
    wal_step opts (w, l) (w', l)"
| sync: "wal_Sync os w = (w', r) \<Longrightarrow> wal_step opts (w, l) (w', l)"
| tick: "wal_step opts (w, l) (group_commit_tick os w, l)"
| crash: "NewWAL os_ok (w_dir w) opts = Inr w' \<Longrightarrow> wal_step opts (w, l) (w', l)"
| restart: "wal_Close os_ok w = (w1, None) \<Longrightarrow> NewWAL os_ok (w_dir w1) opts = Inr w' \<Longrightarrow>
    wal_step opts (w, l) (w', l)"

inductive_cases wal_stepE: "wal_step opts (w, l) (w', l')"

definition wal_start :: "wal_options \<Rightarrow> wal \<times> entry list \<Rightarrow> bool" where
  "wal_start opts s \<longleftrightarrow> (\<exists>w. NewWAL os_ok [] opts = Inr w \<and> s = (w, []))"

definition good_state :: "wal_options \<Rightarrow> wal \<times> entry list \<Rightarrow> bool" where
  "good_state opts s \<longleftrightarrow> (\<exists>segs. wal_inv (fst s) segs \<and> log_of segs = snd s
     \<and> w_max (fst s) = nat (wo_max_bytes (wal_defaults opts)))"

lemma sync_inv: "wal_inv w segs \<Longrightarrow> wal_inv (fst (syncLocked os w)) segs \<and> w_max (fst (syncLocked os w)) = w_max w"
  by (auto simp: syncLocked_def wal_inv_def w_max_def)

lemma close_dir: "wal_Close os w = (w', r) \<Longrightarrow> w_dir w' = w_dir w"
  by (auto simp: wal_Close_def andThen_def syncLocked_def unmapLocked_def split: if_splits)

lemma write_refused:
  assumes "wal_inv w segs" "payload \<noteq> []" "Suc (w_segid w) < 10 ^ 16" "wal_Write os_ok ts payload w = (w', Some e)"
  shows "w' = w"
proof (cases "header_size + length payload \<le> w_max w")
  case True
  with write_inv [OF assms(1,2) True assms(3), of ts] assms(4) show ?thesis by auto
next
  case False
  with assms(1,4) show ?thesis by (simp add: wal_Write_def write_check_def wal_inv_def)
qed

lemma write_accepted:
  assumes "wal_inv w segs" "payload \<noteq> []" "Suc (w_segid w) < 10 ^ 16" "wal_Write os_ok ts payload w = (w', None)"
  shows "\<exists>segs'. wal_inv w' segs' \<and> log_of segs' = log_of segs @ [(ts, payload)] \<and> w_max w' = w_max w"
proof (cases "header_size + length payload \<le> w_max w")
  case True
  with write_inv [OF assms(1,2) True assms(3), of ts] assms(4) show ?thesis by auto
next
  case False
  with assms(1,4) show ?thesis by (simp add: wal_Write_def write_check_def wal_inv_def)
qed

lemma step_good:
  assumes "wal_step opts s s'" "good_state opts s"
  shows "good_state opts s'"
  using assms
proof (induction rule: wal_step.induct)
  case (accepted ts payload w w' l)
  then obtain segs where "wal_inv w segs" "log_of segs = l" "w_max w = nat (wo_max_bytes (wal_defaults opts))"
    by (auto simp: good_state_def)
  with write_accepted [OF this(1) accepted(2,3,1)] show ?case by (auto simp: good_state_def)
next
  case (refused ts payload w w' e l)
  then obtain segs where "wal_inv w segs" "log_of segs = l" "w_max w = nat (wo_max_bytes (wal_defaults opts))"
    by (auto simp: good_state_def)
  with write_refused [OF this(1) refused(2,3,1)] show ?case by (auto simp: good_state_def)
next
  case (sync os w w' r l)
  then show ?case using sync_inv [of w _ os] by (force simp: good_state_def wal_Sync_def)
next
  case (tick w l os)
  then show ?case using sync_inv [of w _ os] by (force simp: good_state_def group_commit_tick_def)
next
  case (crash w w' l)
  then obtain segs where "disk_inv (nat (wo_max_bytes (wal_defaults opts))) (w_dir w) segs" "log_of segs = l"
    by (auto simp: good_state_def wal_inv_def)
  with recover_inv [OF this(1) refl] crash(1) show ?case by (auto simp: good_state_def)
next
  case (restart w w1 w' l)
  then obtain segs where "disk_inv (nat (wo_max_bytes (wal_defaults opts))) (w_dir w1) segs" "log_of segs = l"
    using close_dir [OF restart(1)] by (auto simp: good_state_def wal_inv_def)
  with recover_inv [OF this(1) refl] restart(2) show ?case by (auto simp: good_state_def)
qed

lemma good_walk: "good_state opts (w, l) \<Longrightarrow> Walk os_ok w (\<lambda>acc e. (acc @ [e], None)) [] = (l, None)"
  by (auto simp: good_state_def wal_inv_def disk_inv_def walk_log)


definition small_opts :: wal_options where
  "small_opts = \<lparr>wo_sync_interval = 0, wo_max_bytes = 30, wo_no_group_commit = True\<rparr>"

lemma small_max: "nat (wo_max_bytes (wal_defaults small_opts)) = 30"
  by (simp add: small_opts_def wal_defaults_def)

lemma small_run:
  "\<exists>s0 w. wal_start small_opts s0 \<and> (wal_step small_opts)\<^sup>*\<^sup>* s0 (w, [(7, [1, 2]), (8, [3])])"
proof -
  obtain w segs where w: "NewWAL os_ok [] small_opts = Inr w" "wal_inv w segs" "w_max w = 30" "w_segid w = 1"
    using new_inv [of small_opts] unfolding small_max by auto
  have fits: "header_size + length ([1, 2] :: byte list) \<le> w_max w" "Suc (w_segid w) < 10 ^ 16"
    using w(3,4) by (simp_all add: header_size_def)
  obtain w1 segs1 where w1: "wal_Write os_ok 7 [1, 2] w = (w1, None)" "wal_inv w1 segs1" "w_max w1 = 30"
      "w_segid w1 \<le> 2" "log_of segs1 = log_of segs @ [(7, [1, 2])]"
    using write_inv [OF w(2) _ fits, of 7] w(3,4) by auto
  obtain w2 where w2: "NewWAL os_ok (w_dir w1) small_opts = Inr w2" "wal_inv w2 segs1" "w_max w2 = 30"
    using recover_inv [of 30 "w_dir w1" segs1 small_opts] w1(2,3) unfolding small_max by (auto simp: wal_inv_def)
  have "w_segid w2 \<le> 2" using w1(2,4) w2(2) by (simp add: wal_inv_def)
  then have fits2: "header_size + length ([3] :: byte list) \<le> w_max w2" "Suc (w_segid w2) < 10 ^ 16"
    using w2(3) by (simp_all add: header_size_def)
  obtain w3 where w3: "wal_Write os_ok 8 [3] w2 = (w3, None)"
    using write_inv [OF w2(2) _ fits2, of 8] by auto
  have "wal_step small_opts (w, []) (w1, [] @ [(7, [1, 2])])"
    by (rule wal_step.accepted [OF w1(1)]) (simp_all add: w(4))
  moreover have "wal_step small_opts (w1, [(7, [1, 2])]) (w2, [(7, [1, 2])])"
    by (rule wal_step.crash [OF w2(1)])
  moreover have "wal_step small_opts (w2, [(7, [1, 2])]) (w3, [(7, [1, 2])] @ [(8, [3])])"
    by (rule wal_step.accepted [OF w3]) (use \<open>w_segid w2 \<le> 2\<close> in simp_all)
  ultimately have "(wal_step small_opts)\<^sup>*\<^sup>* (w, []) (w3, [(7, [1, 2]), (8, [3])])"
    by (auto intro: converse_rtranclp_into_rtranclp)
  then show ?thesis using w(1) by (auto simp: wal_start_def)
qed


section \<open>Where the code departs from its contract\<close>

lemma decode_empty_payload: "decode_entry (encode_entry (ts, []) @ rest) = None"
proof -
  have m: "get_u32 (encode_entry (ts, []) @ rest) = log_magic"
    by (simp add: encode_entry_def get_put_u32)
  have "drop 4 (encode_entry (ts, []) @ rest) = put_u32 0 @ put_u32 (crc32 []) @ put_u64 ts @ rest"
    unfolding encode_entry_def append.assoc by simp
  then show ?thesis by (simp add: decode_entry_def m get_put_u32)
qed

text \<open>The data of the active segment after a store that fits.\<close>

lemma store_data:
  assumes "w_active w = Some n" "w_mapped w" "n \<in> fst ` set (w_dir w)"
    "w_offset w + (header_size + length (snd e)) \<le> length (file_data n (w_dir w))"
  shows "store_entry e w = (w\<lparr>w_dir := set_file n (take (w_offset w) (file_data n (w_dir w)) @ encode_entry e
      @ drop (w_offset w + (header_size + length (snd e))) (file_data n (w_dir w))) (w_dir w),
      w_offset := w_offset w + (header_size + length (snd e)), w_dirty := True\<rparr>, None)"
  using assms by (simp add: store_entry_def active_data_def Let_def)

lemma empty_entry_hides:
  assumes "wal_inv w segs" "w_offset w + 2 * header_size + length payload \<le> w_max w"
  shows "\<exists>w1 w2. wal_Write os_ok ts [] w = (w1, None) \<and> wal_Write os_ok ts' payload w1 = (w2, None) \<and>
    Walk os_ok w2 (\<lambda>acc e. (acc @ [e], None)) [] = (log_of segs, None)"
proof -
  obtain rest i es z where segs: "segs = rest @ [(i, es, z)]"
    using assms(1) by (cases segs rule: rev_cases) (auto simp: wal_inv_def disk_inv_def)
  have wf: "wf_segs (rest @ [(i, es, z)])" and dir: "w_dir w = map seg_file rest @ [seg_file (i, es, z)]"
    and act: "w_active w = Some (segment_name i)" "w_mapped w" "\<not> w_closed w"
    and off: "w_offset w = length (enc_all es)" "length (enc_all es) + z = w_max w"
    using assms(1) by (auto simp: wal_inv_def disk_inv_def segs)
  note fr = set_file_snoc [OF snoc_facts [OF wf]]
  let ?e1 = "encode_entry (ts, [])" and ?e2 = "encode_entry (ts', payload)"
  let ?d1 = "enc_all es @ ?e1 @ replicate (z - header_size) 0"
  let ?d2 = "enc_all es @ ?e1 @ ?e2 @ replicate (z - (2 * header_size + length payload)) 0"
  define w1 where "w1 = w\<lparr>w_dir := map seg_file rest @ [(segment_name i, File ?d1)],
      w_offset := w_offset w + header_size, w_dirty := True\<rparr>"
  define w2 where "w2 = w1\<lparr>w_dir := map seg_file rest @ [(segment_name i, File ?d2)],
      w_offset := w_offset w1 + (header_size + length payload), w_dirty := True\<rparr>"
  have room: "2 * header_size + length payload \<le> z" using assms(2) off by simp
  have "store_entry (ts, []) w = (w1, None)"
    using room by (subst store_data [of _ "segment_name i"]) (simp_all add: act dir fr off(1) w1_def flip: off(2))
  moreover have "store_entry (ts', payload) w1 = (w2, None)"
    using room by (subst store_data [of _ "segment_name i"]) (simp_all add: act fr off(1) w1_def w2_def)
  moreover have "w_max w1 = w_max w" by (simp add: w1_def w_max_def)
  ultimately have "wal_Write os_ok ts [] w = (w1, None)" "wal_Write os_ok ts' payload w1 = (w2, None)"
    using assms(2) act(3) by (simp_all add: wal_Write_def write_check_def write_locked_def andThen_def w1_def)
  moreover have "Walk os_ok w2 (\<lambda>acc e. (acc @ [e], None)) [] = (log_of segs, None)"
    unfolding segs
  proof (rule walk_named [OF wf])
    let ?g = "\<lambda>s. if fst s = i then ?d2 else seg_bytes s"
    have "\<forall>t \<in> set rest. fst t \<noteq> i" using wf by (auto simp: wf_segs_snoc)
    then have g: "?g t = seg_bytes t" if "t \<in> set rest" for t using that by simp
    then show "w_dir w2 = map (named ?g) (rest @ [(i, es, z)])"
      by (auto simp: w2_def seg_file_named named_def)
    have "walc.dec_all (enc_all es @ tl) = (es, length (enc_all es))" if "decode_entry tl = None" for tl
      using walc.dec_all_tail [OF _ that, of es] wf by (simp add: enc_all_def wf_segs_snoc)
    then have "fst (walc.dec_all ?d2) = es" by (simp add: decode_empty_payload)
    then show "\<forall>s \<in> set (rest @ [(i, es, z)]). fst (walc.dec_all (?g s)) = fst (snd s)"
      using wf g dec_all_seg by (simp add: seg_bytes_def wf_segs_def)
  qed
  ultimately show ?thesis by blast
qed

text \<open>
  An empty payload is accepted by \<open>Write\<close> but is indistinguishable from the end of the segment:
  the entry and everything written after it in the segment are never delivered again, also without
  a crash.
\<close>

theorem wal_empty_payload_hides:
  assumes "wal_inv w segs" "w_offset w + 2 * header_size + length payload \<le> w_max w"
  shows "\<exists>w1 w2. wal_Write os_ok ts [] w = (w1, None) \<and> wal_Write os_ok ts' payload w1 = (w2, None) \<and>
    Walk os_ok w2 (\<lambda>acc e. (acc @ [e], None)) [] = (log_of segs, None)"
  using assms by (rule empty_entry_hides)

lemma small_start:
  obtains w segs where "NewWAL os_ok [] small_opts = Inr w" "wal_inv w segs" "w_max w = 30" "w_offset w = 0"
    "log_of segs = []"
proof -
  obtain w segs where *: "NewWAL os_ok [] small_opts = Inr w" "wal_inv w segs" "w_max w = 30" "log_of segs = []"
    using new_inv [of small_opts] unfolding small_max by auto
  then have "fst (snd (last segs)) = []"
    by (cases segs rule: rev_cases) (auto simp: log_of_def wal_inv_def disk_inv_def)
  then have "w_offset w = 0" using *(2) by (simp add: wal_inv_def enc_all_def)
  with * that show ?thesis by blast
qed

definition mid_opts :: wal_options where
  "mid_opts = \<lparr>wo_sync_interval = 0, wo_max_bytes = 100, wo_no_group_commit = True\<rparr>"

lemma mid_max: "nat (wo_max_bytes (wal_defaults mid_opts)) = 100"
  by (simp add: mid_opts_def wal_defaults_def)

lemma mid_start:
  obtains w segs where "NewWAL os_ok [] mid_opts = Inr w" "wal_inv w segs" "w_max w = 100" "w_offset w = 0"
    "log_of segs = []"
proof -
  obtain w segs where *: "NewWAL os_ok [] mid_opts = Inr w" "wal_inv w segs" "w_max w = 100" "log_of segs = []"
    using new_inv [of mid_opts] unfolding mid_max by auto
  then have "fst (snd (last segs)) = []"
    by (cases segs rule: rev_cases) (auto simp: log_of_def wal_inv_def disk_inv_def)
  then have "w_offset w = 0" using *(2) by (simp add: wal_inv_def enc_all_def)
  with * that show ?thesis by blast
qed

theorem wal_empty_payload_hides_witness:
  "\<exists>w w1 w2. NewWAL os_ok [] mid_opts = Inr w \<and> wal_Write os_ok 1 [] w = (w1, None) \<and>
     wal_Write os_ok 2 [5, 6] w1 = (w2, None) \<and> Walk os_ok w2 (\<lambda>acc e. (acc @ [e], None)) [] = ([], None)"
proof -
  obtain w segs where w: "NewWAL os_ok [] mid_opts = Inr w" "wal_inv w segs" "w_max w = 100" "w_offset w = 0"
    "log_of segs = []"
    by (rule mid_start)
  have "w_offset w + 2 * header_size + length ([5, 6] :: byte list) \<le> w_max w"
    using w by (simp add: header_size_def)
  from wal_empty_payload_hides [OF w(2) this, of 1 2] w show ?thesis by auto
qed

text \<open>
  A failed rotation leaves the log in a state where the next write panics: the old segment has
  been unmapped and closed, but the write offset is kept, so an entry that would still fit the old
  segment is stored through a nil mapping instead of reporting an error.
\<close>

theorem wal_failed_rotation_panics:
  assumes "wal_inv w segs" "header_size + length big \<le> w_max w"
    and "w_max w < w_offset w + (header_size + length big)"
    and "w_offset w + (header_size + length little) \<le> w_max w"
  shows "\<exists>w1. wal_Write (os_ok\<lparr>os_open := False\<rparr>) ts big w = (w1, Some (WOs ''open segment'')) \<and>
    wal_Write os_ok ts' little w1 = (w1, Some WPanic)"
proof -
  let ?os = "os_ok\<lparr>os_open := False\<rparr>"
  have "\<exists>w0. rotate_close ?os w = (w0, None) \<and> w_mapped w0 = False \<and> w_offset w0 = w_offset w
    \<and> w_opts w0 = w_opts w \<and> w_closed w0 = w_closed w"
    using assms(1)
    by (cases "w_dirty w") (simp_all add: rotate_close_def andThen_def syncLocked_def unmapLocked_def os_ok_def wal_inv_def)
  then obtain w0 where w0: "rotate_close ?os w = (w0, None)" "w_mapped w0 = False" "w_offset w0 = w_offset w"
    "w_opts w0 = w_opts w" "w_closed w0 = w_closed w"
    by blast
  define w1 where "w1 = w0\<lparr>w_segid := Suc (w_segid w0)\<rparr>"
  have "rotate_wal ?os w = (w1, Some (WOs ''open segment''))"
    by (simp add: rotate_wal_def w0 andThen_def openSegment_def Let_def w1_def)
  then have "wal_Write ?os ts big w = (w1, Some (WOs ''open segment''))"
    using assms(1-3) by (simp add: wal_Write_def write_check_def write_locked_def andThen_def wal_inv_def)
  moreover have "wal_Write os_ok ts' little w1 = (w1, Some WPanic)"
    using assms(1,4) w0
    by (simp add: wal_Write_def write_check_def write_locked_def andThen_def store_entry_def active_data_def
        w1_def w_max_def wal_inv_def header_size_def)
  ultimately show ?thesis by blast
qed

theorem wal_failed_rotation_panics_witness:
  "\<exists>w w1 w2. wal_Write os_ok 1 (replicate 50 1) w = (w1, None) \<and>
     wal_Write (os_ok\<lparr>os_open := False\<rparr>) 2 (replicate 60 1) w1 = (w2, Some (WOs ''open segment'')) \<and>
     wal_Write os_ok 3 [1] w2 = (w2, Some WPanic)"
proof -
  obtain w segs where w: "NewWAL os_ok [] mid_opts = Inr w" "wal_inv w segs" "w_max w = 100" "w_offset w = 0"
    by (rule mid_start)
  obtain w1 segs1 where s: "store_entry (1, replicate 50 1) w = (w1, None)" "wal_inv w1 segs1" "w_max w1 = 100"
    using store_entry_inv [OF w(2), of "(1, replicate 50 1)"] w(3,4) by (auto simp: header_size_def)
  have off: "w_offset w1 = 70"
    using s(1) w(4) by (auto simp: store_entry_def Let_def header_size_def split: if_splits)
  have W: "wal_Write os_ok 1 (replicate 50 1) w = (w1, None)"
    using s(1) w by (simp add: wal_Write_def write_check_def write_locked_def andThen_def header_size_def wal_inv_def)
  have "header_size + length (replicate 60 (1 :: byte)) \<le> w_max w1"
    "w_max w1 < w_offset w1 + (header_size + length (replicate 60 (1 :: byte)))"
    "w_offset w1 + (header_size + length ([1] :: byte list)) \<le> w_max w1"
    using off s(3) by (simp_all add: header_size_def)
  from wal_failed_rotation_panics [OF s(2) this, of 2 3] W show ?thesis by blast
qed

text \<open>
  \<open>Write\<close> tests \<open>closed\<close> before it takes the lock: when a \<open>Close\<close> completes between the test and
  the critical section, the write panics on the unmapped segment instead of returning \<open>ErrClosed\<close>.
\<close>

theorem wal_close_race_panics:
  assumes "wal_inv w segs" "write_check payload w = None"
    and "w_offset w + (header_size + length payload) \<le> w_max w"
  shows "\<exists>w1. wal_Close os_ok w = (w1, None) \<and> write_locked os_ok (ts, payload) w1 = (w1, Some WPanic)
    \<and> wal_Write os_ok ts payload w1 = (w1, Some WClosed)"
  using assms
  by (auto simp: wal_Close_def andThen_def syncLocked_def unmapLocked_def os_ok_def wal_inv_def write_locked_def
      store_entry_def active_data_def w_max_def header_size_def wal_Write_def write_check_def)

theorem wal_close_race_panics_witness:
  "\<exists>w w1. NewWAL os_ok [] small_opts = Inr w \<and> write_check [1] w = None \<and> wal_Close os_ok w = (w1, None) \<and>
     write_locked os_ok (0, [1]) w1 = (w1, Some WPanic)"
proof -
  obtain w segs where w: "NewWAL os_ok [] small_opts = Inr w" "wal_inv w segs" "w_max w = 30" "w_offset w = 0"
    by (rule small_start)
  have "write_check [1] w = None" "w_offset w + (header_size + length ([1] :: byte list)) \<le> w_max w"
    using w by (auto simp: write_check_def header_size_def wal_inv_def)
  from wal_close_race_panics [OF w(2) this, of 0] this w(1) show ?thesis by blast
qed

text \<open>
  Contrary to the comment of \<open>NewWAL\<close>, reopening can truncate existing data: opening the last
  segment resizes its file to the configured size, so restarting with a smaller \<open>MaxSegmentBytes\<close>
  cuts off written bytes.
\<close>

theorem wal_reopen_truncates:
  assumes "disk_inv mx d segs" "0 < wo_max_bytes opts"
    and "nat (wo_max_bytes opts) < length (enc_all (fst (snd (last segs))))"
  shows "\<exists>w. NewWAL os_ok d opts = Inr w \<and>
    file_data (segment_name (fst (last segs))) (w_dir w)
      = take (nat (wo_max_bytes opts)) (enc_all (fst (snd (last segs))))"
proof -
  obtain rest i es z where segs: "segs = rest @ [(i, es, z)]"
    using assms(1) by (cases segs rule: rev_cases) (auto simp: disk_inv_def)
  have wf: "wf_segs (rest @ [(i, es, z)])" and d: "d = map seg_file (rest @ [(i, es, z)])"
    using assms(1) by (auto simp: disk_inv_def segs)
  let ?n = "segment_name i" and ?m = "nat (wo_max_bytes opts)" and ?c = "enc_all es @ replicate z 0"
  note fr = set_file_snoc [OF snoc_facts [OF wf]]
  define w0 where "w0 = \<lparr>w_dir = d, w_opts = wal_defaults opts, w_active = None, w_mapped = False, w_offset = 0,
                w_segid = 0, w_dirty = False, w_closed = False\<rparr>"
  have mx: "w_max w0 = ?m" using assms(2) by (simp add: w0_def w_max_def wal_defaults_def)
  have D: "map_of d ?n = Some (File ?c)" "file_data ?n d = ?c" "set_file ?n ?c d = d"
    using fr(1,3,5) by (simp_all only: d map_append list.map seg_file.simps)
  have r: "resize ?m ?c = take ?m (enc_all es)" using assms(3) by (simp add: resize_def segs)
  define w where "w = w0\<lparr>w_dir := set_file ?n (take ?m (enc_all es)) d, w_active := Some ?n, w_mapped := True,
      w_offset := 0, w_segid := i\<rparr>"
  have "openSegment os_ok i ?n w0 = (w, None)"
    using mx D r by (simp add: openSegment_def os_ok_def Let_def w_max_def w_def) (simp add: w0_def)
  moreover have "discoverSegments os_ok d = Inr (map (\<lambda>s. (fst s, segment_name (fst s))) segs)"
    using discover_segs [OF wf, of os_ok seg_bytes] by (simp add: d segs os_ok_def seg_file_named)
  ultimately have "NewWAL os_ok d opts
      = Inr (w\<lparr>w_offset := scanValidOffset (file_data ?n (w_dir w)), w_segid := i\<rparr>)"
    by (simp add: NewWAL_def os_ok_def Let_def w0_def segs)
  moreover have "file_data ?n (set_file ?n (take ?m (enc_all es)) d) = take ?m (enc_all es)"
    using fr(1,3) by (simp only: d map_append list.map seg_file.simps)
  ultimately show ?thesis by (simp add: segs w_def)
qed

theorem wal_reopen_truncates_witness:
  "\<exists>w w1 w2. NewWAL os_ok [] mid_opts = Inr w \<and> wal_Write os_ok 1 (replicate 50 1) w = (w1, None) \<and>
     NewWAL os_ok (w_dir w1) small_opts = Inr w2 \<and>
     (\<exists>n. length (file_data n (w_dir w1)) = 100 \<and> length (file_data n (w_dir w2)) = 30)"
proof -
  obtain w segs where w: "NewWAL os_ok [] mid_opts = Inr w" "wal_inv w segs" "w_max w = 100" "w_offset w = 0"
    by (rule mid_start)
  obtain w1 segs1 where s: "store_entry (1, replicate 50 1) w = (w1, None)" "wal_inv w1 segs1" "w_max w1 = 100"
    using store_entry_inv [OF w(2), of "(1, replicate 50 1)"] w(3,4) by (auto simp: header_size_def)
  have "w_offset w1 = 70"
    using s(1) w(4) by (auto simp: store_entry_def Let_def header_size_def split: if_splits)
  then have len: "length (enc_all (fst (snd (last segs1)))) = 70" and inv: "disk_inv 100 (w_dir w1) segs1"
    using s(2,3) by (simp_all add: wal_inv_def)
  have W: "wal_Write os_ok 1 (replicate 50 1) w = (w1, None)"
    using s(1) w by (simp add: wal_Write_def write_check_def write_locked_def andThen_def header_size_def wal_inv_def)
  obtain w2 where w2: "NewWAL os_ok (w_dir w1) small_opts = Inr w2"
    "file_data (segment_name (fst (last segs1))) (w_dir w2) = take 30 (enc_all (fst (snd (last segs1))))"
    using wal_reopen_truncates [OF inv, of small_opts] len by (auto simp: small_opts_def)
  have "last segs1 \<in> set segs1" using inv by (simp add: disk_inv_def)
  then have "file_data (segment_name (fst (last segs1))) (w_dir w1) = seg_bytes (last segs1)"
    using inv named_data [of segs1 "last segs1" seg_bytes] by (simp add: disk_inv_def seg_file_named)
  then have "length (file_data (segment_name (fst (last segs1))) (w_dir w1)) = 100"
    using inv len by (simp add: disk_inv_def seg_bytes_def)
  with w(1) W w2 len show ?thesis
    by (intro exI [of _ w] exI [of _ w1] exI [of _ w2]) auto
qed

end
