(* ===== verification/GoNum.thy ===== *)
theory GoNum
  imports Float64
begin

text \<open>
  The parts of Go's \<open>strconv\<close> and \<open>time\<close> packages that several components call:
  \<open>strconv.ParseFloat(s, 64)\<close> in full (signs, \<open>inf\<close> and \<open>nan\<close>, decimal and hexadecimal
  mantissas, exponents, digit separators, the range error), and \<open>time.Duration.String\<close>.
\<close>

section \<open>ParseFloat\<close>

definition hex_letter :: "char \<Rightarrow> bool" where
  "hex_letter c \<longleftrightarrow> lower_char c \<in> set ''abcdef''"

definition digit_value :: "char \<Rightarrow> nat" where
  "digit_value c =
     (if is_digit c then of_char c - 48 else of_char (lower_char c) - 87)"

definition mant_char :: "bool \<Rightarrow> char \<Rightarrow> bool" where
  "mant_char hex c \<longleftrightarrow> is_digit c \<or> hex \<and> hex_letter c"

text \<open>The mantissa loop of \<open>readFloat\<close>: digits, separators and at most one dot. It returns the
  digits' value, the number of digits, the number of digits before the dot if one was seen, and
  the rest of the string.\<close>

fun read_mantissa ::
  "bool \<Rightarrow> string \<Rightarrow> nat \<Rightarrow> nat \<Rightarrow> nat option \<Rightarrow> nat \<times> nat \<times> nat option \<times> string" where
  "read_mantissa hex [] v nd dot = (v, nd, dot, [])"
| "read_mantissa hex (c # cs) v nd dot =
     (if c = CHR ''_'' then read_mantissa hex cs v nd dot
      else if c = CHR ''.'' \<and> dot = None then read_mantissa hex cs v nd (Some nd)
      else if mant_char hex c then
        read_mantissa hex cs ((if hex then 16 else 10) * v + digit_value c) (nd + 1) dot
      else (v, nd, dot, c # cs))"

text \<open>The exponent digits; after 10000 further digits are read and ignored.\<close>

fun read_exponent :: "string \<Rightarrow> nat \<Rightarrow> nat \<times> string" where
  "read_exponent [] e = (e, [])"
| "read_exponent (c # cs) e =
     (if c = CHR ''_'' then read_exponent cs e
      else if is_digit c then read_exponent cs (if e < 10000 then 10 * e + digit_value c else e)
      else (e, c # cs))"

text \<open>\<open>underscoreOK\<close>: a separator stands between digits, the base prefix counting as one.\<close>

fun underscores_ok :: "bool \<Rightarrow> char \<Rightarrow> string \<Rightarrow> bool" where
  "underscores_ok hex prev [] \<longleftrightarrow> prev \<noteq> CHR ''_''"
| "underscores_ok hex prev (c # cs) \<longleftrightarrow>
     (if mant_char hex c then underscores_ok hex CHR ''0'' cs
      else if c = CHR ''_'' then prev = CHR ''0'' \<and> underscores_ok hex CHR ''_'' cs
      else prev \<noteq> CHR ''_'' \<and> underscores_ok hex CHR ''!'' cs)"

definition split_sign :: "string \<Rightarrow> bool \<times> string" where
  "split_sign s =
     (case s of [] \<Rightarrow> (False, [])
      | c # cs \<Rightarrow> if c = CHR ''-'' then (True, cs) else if c = CHR ''+'' then (False, cs)
                 else (False, s))"

definition parse_special :: "string \<Rightarrow> f64 option" where
  "parse_special s =
     (let (neg, t) = split_sign s; w = map lower_char t
      in if w = ''inf'' \<or> w = ''infinity'' then Some (if neg then NInf else PInf)
         else if map lower_char s = ''nan'' then Some NaN else None)"

definition finish_float :: "bool \<Rightarrow> rat \<Rightarrow> f64 option" where
  "finish_float neg v =
     (let r = fround (if neg then - v else v) in if r = PInf \<or> r = NInf then None else Some r)"

text \<open>\<open>None\<close> stands for a syntax or a range error.\<close>

definition parse_number :: "string \<Rightarrow> f64 option" where
  "parse_number s =
     (let (neg, t) = split_sign s;
          hex = (length t > 2 \<and> t ! 0 = CHR ''0'' \<and> lower_char (t ! 1) = CHR ''x'');
          body = (if hex then drop 2 t else t);
          (v, nd, dot, rest) = read_mantissa hex body 0 0 None;
          frac = (case dot of None \<Rightarrow> 0 | Some d \<Rightarrow> nd - d);
          us = (CHR ''_'' \<in> set s \<longrightarrow> underscores_ok hex (if hex then CHR ''0'' else CHR ''^'') body)
      in if nd = 0 \<or> \<not> us then None
         else case rest of
           [] \<Rightarrow> if hex then None else finish_float neg (of_nat v / 10 ^ frac)
         | c # cs \<Rightarrow>
             if lower_char c \<noteq> (if hex then CHR ''p'' else CHR ''e'') then None
             else let (eneg, ds) = split_sign cs; (e, tl) = read_exponent ds 0
                  in if tl \<noteq> [] \<or> ds = [] \<or> \<not> is_digit (hd ds) then None
                     else
                       let sc = (if eneg then - int e else int e)
                       in finish_float neg
                            (if hex then of_nat v / 16 ^ frac * 2 powi sc
                             else of_nat v / 10 ^ frac * 10 powi sc))"

definition parse_float :: "string \<Rightarrow> f64 option" where
  "parse_float s = (case parse_special s of Some f \<Rightarrow> Some f | None \<Rightarrow> parse_number s)"

section \<open>Duration.String\<close>

fun strip_zeros :: "nat \<Rightarrow> nat \<Rightarrow> nat \<times> nat" where
  "strip_zeros v 0 = (v, 0)"
| "strip_zeros v (Suc p) = (if v mod 10 = 0 then strip_zeros (v div 10) p else (v, Suc p))"

definition pad_zeros :: "nat \<Rightarrow> string \<Rightarrow> string" where
  "pad_zeros w s = replicate (w - length s) CHR ''0'' @ s"

text \<open>\<open>fmtFrac\<close>: the fraction \<open>v / 10 ^ p\<close> with its dot, without trailing zeros; nothing for 0.\<close>

definition fmt_frac :: "nat \<Rightarrow> nat \<Rightarrow> string" where
  "fmt_frac v p =
     (let (w, q) = strip_zeros (v mod 10 ^ p) p
      in if q = 0 then [] else CHR ''.'' # pad_zeros q (show_nat w))"

definition micro_unit :: string where
  "micro_unit = [char_of (194 :: nat), char_of (181 :: nat), CHR ''s'']"

definition dur_string :: "int \<Rightarrow> string" where
  "dur_string d =
     (let u = nat \<bar>d\<bar>;
          body =
            (if u = 0 then ''0s''
             else if u < 1000 then show_nat u @ ''ns''
             else if u < 1000000 then show_nat (u div 1000) @ fmt_frac u 3 @ micro_unit
             else if u < 1000000000 then show_nat (u div 1000000) @ fmt_frac u 6 @ ''ms''
             else
               let s = u div 1000000000; m = s div 60; h = m div 60;
                   sec = show_nat (s mod 60) @ fmt_frac u 9 @ ''s''
               in (if h > 0 then show_nat h @ ''h'' else []) @
                  (if m > 0 then show_nat (m mod 60) @ ''m'' else []) @ sec)
      in if d < 0 then CHR ''-'' # body else body)"

section \<open>Integers\<close>

text \<open>\<open>strconv.Atoi\<close> with its error ignored: out of range it returns the nearest value.\<close>

definition atoi_or_zero :: "string \<Rightarrow> int" where
  "atoi_or_zero s =
     (let neg = has_prefix s ''-''; ds = (if neg \<or> has_prefix s ''+'' then drop 1 s else s)
      in if ds = [] \<or> \<not> list_all is_digit ds then 0
         else
           let v = int (foldl (\<lambda>n c. 10 * n + digit_value c) 0 ds); w = (if neg then - v else v)
           in if w > 2 ^ 63 - 1 then 2 ^ 63 - 1 else if w < - (2 ^ 63) then - (2 ^ 63) else w)"

end
