(* ===== verification/Signals.thy ===== *)
theory Signals
  imports Bytes
begin

text \<open>
  The signal that flows through the pipeline (\<open>pkg/signal/signal.go\<close>). A nil attribute map reads
  as the empty one; the receive time is in nanoseconds since 1970. The type is a string in the code:
  the four constants it declares, or any other string a client has sent.
\<close>

datatype signal_type = Metric | Log | Trace | Profile | OtherType string

record signal =
  sig_tenant :: string
  sig_type :: signal_type
  sig_payload :: "byte list"
  sig_attrs :: "string \<rightharpoonup> string"
  sig_received :: int

text \<open>\<open>m[k]\<close> on a Go \<open>map[string]string\<close>: the empty string when the key is absent.\<close>

definition attr :: "(string \<rightharpoonup> string) \<Rightarrow> string \<Rightarrow> string" where
  "attr m k = (case m k of Some v \<Rightarrow> v | None \<Rightarrow> [])"

lemma attr_simps [simp]: "attr Map.empty k = []" "attr (m(k \<mapsto> v)) k = v"
  "k \<noteq> j \<Longrightarrow> attr (m(k \<mapsto> v)) j = attr m j"
  by (simp_all add: attr_def)

end
