(* ===== verification/Cep.thy ===== *)
theory Cep
  imports GoNum Signals
begin

text \<open>
  Complex event processing (\<open>pkg/cep/cep.go\<close>): the sliding-window counter and the latency tracker
  (rings of per-epoch buckets), the two edge-triggered rules, and the engine that asks the rules
  in order. \<open>time.Now()\<close> is an argument of every operation, in nanoseconds since 1970 (a
  \<open>nat\<close>: the clock is not before 1970); epochs and counts are \<open>int64\<close> values.
\<close>

section \<open>The sliding window\<close>

record bucket =
  epoch :: int
  bcount :: int

record slidingWindow =
  buckets :: "bucket list"
  bucketSize :: int
  window :: int

text \<open>The corrected bucket size, window and number of buckets of both constructors.\<close>

definition window_shape :: "int \<Rightarrow> int \<Rightarrow> int \<times> int \<times> nat" where
  "window_shape win bsize =
     (let bs = (if bsize \<le> 0 then minute else bsize);
          w = (if win < bs then bs else win);
          n = w div bs
      in (bs, w, if n < 1 then 1 else nat n))"

definition newSlidingWindow :: "int \<Rightarrow> int \<Rightarrow> slidingWindow" where
  "newSlidingWindow win bsize =
     (let (bs, w, n) = window_shape win bsize
      in \<lparr>buckets = replicate n \<lparr>epoch = 0, bcount = 0\<rparr>, bucketSize = bs, window = w\<rparr>)"

definition epoch_of :: "int \<Rightarrow> nat \<Rightarrow> int" where
  "epoch_of bsize now = int now div bsize"

definition add_window :: "slidingWindow \<Rightarrow> nat \<Rightarrow> int \<Rightarrow> slidingWindow" where
  "add_window w now n =
     (let e = epoch_of (bucketSize w) now;
          i = nat (e mod int (length (buckets w)));
          b = (if epoch (buckets w ! i) \<noteq> e then \<lparr>epoch = e, bcount = 0\<rparr> else buckets w ! i)
      in w\<lparr>buckets := (buckets w)[i := b\<lparr>bcount := wrap64 (bcount b + n)\<rparr>]\<rparr>)"

text \<open>The range of epochs that the readers take as live.\<close>

definition live :: "int \<Rightarrow> nat \<Rightarrow> int \<Rightarrow> bool" where
  "live cur n e \<longleftrightarrow> cur - int n + 1 \<le> e \<and> e \<le> cur"

definition sum_window :: "slidingWindow \<Rightarrow> nat \<Rightarrow> int" where
  "sum_window w now =
     (let cur = epoch_of (bucketSize w) now
      in foldl (\<lambda>total b. if live cur (length (buckets w)) (epoch b)
                          then wrap64 (total + bcount b) else total) 0 (buckets w))"

definition ratePerSec :: "slidingWindow \<Rightarrow> nat \<Rightarrow> f64" where
  "ratePerSec w now = fdiv (of_int64 (sum_window w now)) (seconds (window w))"

section \<open>The latency tracker\<close>

record latencyBucket =
  lepoch :: int
  maxMS :: f64

record latencyTracker =
  lbuckets :: "latencyBucket list"
  lbucketSize :: int
  lwindow :: int

definition newLatencyTracker :: "int \<Rightarrow> int \<Rightarrow> latencyTracker" where
  "newLatencyTracker win bsize =
     (let (bs, w, n) = window_shape win bsize
      in \<lparr>lbuckets = replicate n \<lparr>lepoch = 0, maxMS = Fin 0\<rparr>, lbucketSize = bs, lwindow = w\<rparr>)"

definition observe :: "latencyTracker \<Rightarrow> nat \<Rightarrow> f64 \<Rightarrow> latencyTracker" where
  "observe l now ms =
     (let e = epoch_of (lbucketSize l) now;
          i = nat (e mod int (length (lbuckets l)));
          b = lbuckets l ! i
      in if lepoch b \<noteq> e then l\<lparr>lbuckets := (lbuckets l)[i := \<lparr>lepoch = e, maxMS = ms\<rparr>]\<rparr>
         else if flt (maxMS b) ms then l\<lparr>lbuckets := (lbuckets l)[i := b\<lparr>maxMS := ms\<rparr>]\<rparr>
         else l)"

definition maxIn :: "latencyTracker \<Rightarrow> nat \<Rightarrow> f64" where
  "maxIn l now =
     (let cur = epoch_of (lbucketSize l) now
      in foldl (\<lambda>m b. if live cur (length (lbuckets l)) (lepoch b) \<and> flt m (maxMS b)
                      then maxMS b else m) (Fin 0) (lbuckets l))"

section \<open>Events and rules\<close>

datatype event_type = HighErrorRate | HighLatency

text \<open>The entries of an event's \<open>Data\<close> map, in the order the code lists them.\<close>

datatype event_value = VStr string | VFloat f64

record event =
  ev_type :: event_type
  ev_tenant :: string
  ev_time :: nat
  ev_data :: "(string \<times> event_value) list"

record HighErrorRateRule =
  er_tenant :: string
  er_window :: int
  er_threshold :: f64
  er_totals :: "string \<rightharpoonup> slidingWindow"
  er_errors :: "string \<rightharpoonup> slidingWindow"
  er_firing :: "string \<Rightarrow> bool"

record HighLatencyRule =
  hl_tenant :: string
  hl_window :: int
  hl_threshold :: f64
  hl_maxes :: "string \<rightharpoonup> latencyTracker"
  hl_firing :: "string \<Rightarrow> bool"

definition NewHighErrorRateRule :: "string \<Rightarrow> int \<Rightarrow> f64 \<Rightarrow> HighErrorRateRule" where
  "NewHighErrorRateRule tid win eps =
     \<lparr>er_tenant = tid, er_window = win, er_threshold = eps, er_totals = Map.empty,
      er_errors = Map.empty, er_firing = (\<lambda>_. False)\<rparr>"

definition NewHighLatencyRule :: "string \<Rightarrow> int \<Rightarrow> f64 \<Rightarrow> HighLatencyRule" where
  "NewHighLatencyRule tid win ms =
     \<lparr>hl_tenant = tid, hl_window = win, hl_threshold = ms, hl_maxes = Map.empty,
      hl_firing = (\<lambda>_. False)\<rparr>"

text \<open>The first of the two service attributes that is present and not empty.\<close>

definition serviceName :: "signal \<Rightarrow> string" where
  "serviceName sg =
     (if attr (sig_attrs sg) ''service.name'' \<noteq> [] then attr (sig_attrs sg) ''service.name''
      else if attr (sig_attrs sg) ''service_name'' \<noteq> [] then attr (sig_attrs sg) ''service_name''
      else ''unknown'')"

text \<open>The tracker of a service, made on its first use.\<close>

definition get_or :: "(string \<rightharpoonup> 'a) \<Rightarrow> string \<Rightarrow> 'a \<Rightarrow> 'a" where
  "get_or m k d = (case m k of Some x \<Rightarrow> x | None \<Rightarrow> d)"

text \<open>\<open>HighErrorRateRule.Evaluate\<close>: the counting, which happens for every log and trace, and the
  decision.\<close>

definition error_count :: "HighErrorRateRule \<Rightarrow> nat \<Rightarrow> signal \<Rightarrow> HighErrorRateRule" where
  "error_count r now sg =
     (let s = serviceName sg;
          tw = get_or (er_totals r) s (newSlidingWindow (er_window r) minute);
          ew = get_or (er_errors r) s (newSlidingWindow (er_window r) minute);
          tw' = add_window tw now 1;
          ew' = (if attr (sig_attrs sg) ''severity'' = ''ERROR'' then add_window ew now 1 else ew)
      in r\<lparr>er_totals := (er_totals r)(s \<mapsto> tw'), er_errors := (er_errors r)(s \<mapsto> ew')\<rparr>)"

definition window_rate :: "(string \<rightharpoonup> slidingWindow) \<Rightarrow> string \<Rightarrow> nat \<Rightarrow> f64" where
  "window_rate m s now = (case m s of Some w \<Rightarrow> ratePerSec w now | None \<Rightarrow> Fin 0)"

definition error_eval :: "HighErrorRateRule \<Rightarrow> nat \<Rightarrow> signal \<Rightarrow> HighErrorRateRule \<times> event option" where
  "error_eval r now sg =
     (if sig_type sg \<noteq> Log \<and> sig_type sg \<noteq> Trace then (r, None)
      else
        let s = serviceName sg; r' = error_count r now sg;
            errRate = window_rate (er_errors r') s now;
            totalRate = window_rate (er_totals r') s now;
            errorRatio = (if flt (Fin 0) totalRate then fdiv errRate totalRate else Fin 0)
        in if fle (er_threshold r') errRate then
             (if \<not> er_firing r' s then
                (r'\<lparr>er_firing := (er_firing r')(s := True)\<rparr>,
                 Some \<lparr>ev_type = HighErrorRate, ev_tenant = er_tenant r', ev_time = now,
                       ev_data = [(''service'', VStr s), (''error_rate'', VFloat errRate),
                         (''error_ratio'', VFloat errorRatio), (''total_rate'', VFloat totalRate),
                         (''window'', VStr (dur_string (er_window r')))]\<rparr>)
              else (r', None))
           else (r'\<lparr>er_firing := (er_firing r')(s := False)\<rparr>, None))"

definition latency_observe :: "HighLatencyRule \<Rightarrow> nat \<Rightarrow> string \<Rightarrow> f64 \<Rightarrow> HighLatencyRule" where
  "latency_observe r now s dur =
     (let lt = get_or (hl_maxes r) s (newLatencyTracker (hl_window r) minute)
      in r\<lparr>hl_maxes := (hl_maxes r)(s \<mapsto> observe lt now dur)\<rparr>)"

definition window_peak :: "(string \<rightharpoonup> latencyTracker) \<Rightarrow> string \<Rightarrow> nat \<Rightarrow> f64" where
  "window_peak m s now = (case m s of Some l \<Rightarrow> maxIn l now | None \<Rightarrow> Fin 0)"

text \<open>The duration a signal carries for the latency rule: only traces, only a parsable one.\<close>

definition trace_duration :: "signal \<Rightarrow> f64 option" where
  "trace_duration sg =
     (if sig_type sg \<noteq> Trace then None
      else case sig_attrs sg ''duration_ms'' of None \<Rightarrow> None | Some d \<Rightarrow> parse_float d)"

definition latency_eval :: "HighLatencyRule \<Rightarrow> nat \<Rightarrow> signal \<Rightarrow> HighLatencyRule \<times> event option" where
  "latency_eval r now sg =
     (case trace_duration sg of
        None \<Rightarrow> (r, None)
      | Some dur \<Rightarrow>
          let s = serviceName sg; r' = latency_observe r now s dur;
              peak = window_peak (hl_maxes r') s now
          in if fle (hl_threshold r') peak then
               (if \<not> hl_firing r' s then
                  (r'\<lparr>hl_firing := (hl_firing r')(s := True)\<rparr>,
                   Some \<lparr>ev_type = HighLatency, ev_tenant = hl_tenant r', ev_time = now,
                         ev_data = [(''service'', VStr s), (''peak_latency'', VFloat peak),
                           (''threshold'', VFloat (hl_threshold r')),
                           (''window'', VStr (dur_string (hl_window r')))]\<rparr>)
                else (r', None))
             else (r'\<lparr>hl_firing := (hl_firing r')(s := False)\<rparr>, None))"

section \<open>The engine\<close>

text \<open>The \<open>Rule\<close> interface with its two implementations. Each rule reads the clock itself; the
  clock readings of one \<open>Process\<close> call are numbered by the rule's position.\<close>

datatype rule = RError HighErrorRateRule | RLatency HighLatencyRule

fun rule_eval :: "rule \<Rightarrow> nat \<Rightarrow> signal \<Rightarrow> rule \<times> event option" where
  "rule_eval (RError r) now sg = (let (r', e) = error_eval r now sg in (RError r', e))"
| "rule_eval (RLatency r) now sg = (let (r', e) = latency_eval r now sg in (RLatency r', e))"

type_synonym engine = "rule list"

definition NewEngine :: engine where
  "NewEngine = []"

definition AddRule :: "engine \<Rightarrow> rule \<Rightarrow> engine" where
  "AddRule e r = e @ [r]"

fun Process :: "engine \<Rightarrow> (nat \<Rightarrow> nat) \<Rightarrow> signal \<Rightarrow> engine \<times> event option" where
  "Process [] now sg = ([], None)"
| "Process (r # rs) now sg =
     (case rule_eval r (now 0) sg of
        (r', Some ev) \<Rightarrow> (r' # rs, Some ev)
      | (r', None) \<Rightarrow> (let (rs', e) = Process rs (\<lambda>i. now (Suc i)) sg in (r' # rs', e)))"

end
