(* ===== verification/CepProps.thy ===== *)
theory CepProps
  imports Cep
begin

text \<open>
  The rings count exactly the events of their last epochs when the clock does not go back, and
  both rules fire exactly on the rising edges of their level: the contract \<open>edge_rule\<close>, proved
  once and interpreted on the two \<open>Evaluate\<close> methods.
\<close>

section \<open>The ring\<close>

text \<open>Events as epochs with their counts; \<open>slot_sum\<close> adds those of one residue that satisfy a
  condition.\<close>

definition add_events :: "slidingWindow \<Rightarrow> (nat \<times> int) list \<Rightarrow> slidingWindow" where
  "add_events w evs = foldl (\<lambda>w (t, n). add_window w t n) w evs"

definition live_total :: "int \<Rightarrow> nat \<Rightarrow> nat \<Rightarrow> (nat \<times> int) list \<Rightarrow> int" where
  "live_total bs n now evs =
     sum_list (map (\<lambda>(t, c). if live (epoch_of bs now) n (epoch_of bs t) then c else 0) evs)"

definition total_if :: "(int \<Rightarrow> bool) \<Rightarrow> (int \<times> int) list \<Rightarrow> int" where
  "total_if P xs = sum_list (map (\<lambda>(e, c). if P e then c else 0) xs)"

lemma total_if_simps [simp]:
  "total_if P [] = 0" "total_if P (xs @ ys) = total_if P xs + total_if P ys"
  "total_if P ((e, c) # xs) = (if P e then c else 0) + total_if P xs"
  by (simp_all add: total_if_def)

lemma total_if_cong: "(\<And>e c. (e, c) \<in> set xs \<Longrightarrow> P e = Q e) \<Longrightarrow> total_if P xs = total_if Q xs"
  unfolding total_if_def by (rule arg_cong [where f = sum_list]) (auto intro!: map_cong)

lemma total_if_none: "(\<And>e c. (e, c) \<in> set xs \<Longrightarrow> \<not> P e) \<Longrightarrow> total_if P xs = 0"
proof -
  assume "\<And>e c. (e, c) \<in> set xs \<Longrightarrow> \<not> P e"
  then have "total_if P xs = total_if (\<lambda>_. False) xs"
    by (intro total_if_cong) auto
  also have "\<dots> = 0" by (induction xs) auto
  finally show ?thesis .
qed

text \<open>A bucket of the ring after the events \<open>xs\<close>: untouched, or holding the total of the latest
  epoch of its residue.\<close>

definition slot_ok :: "int \<Rightarrow> (int \<times> int) list \<Rightarrow> nat \<Rightarrow> bucket \<Rightarrow> bool" where
  "slot_ok n xs i b \<longleftrightarrow>
     (if \<exists>(e, c) \<in> set xs. e mod n = int i then
        epoch b mod n = int i \<and> (\<exists>c. (epoch b, c) \<in> set xs) \<and>
        (\<forall>(e, c) \<in> set xs. e mod n = int i \<longrightarrow> e \<le> epoch b) \<and>
        bcount b = wrap64 (total_if (\<lambda>e. e = epoch b) xs)
      else bcount b = 0)"

definition ring_ok :: "(int \<times> int) list \<Rightarrow> bucket list \<Rightarrow> bool" where
  "ring_ok xs bs \<longleftrightarrow> (\<forall>i < length bs. slot_ok (int (length bs)) xs i (bs ! i))"

lemma slot_ok_other:
  "slot_ok n xs i b \<Longrightarrow> e mod n \<noteq> int i \<Longrightarrow> slot_ok n (xs @ [(e, c)]) i b"
  unfolding slot_ok_def by (auto split: if_splits)

lemma slot_ok_same:
  assumes s: "slot_ok n xs i b" and m: "e mod n = int i"
    and le: "\<And>e' c'. (e', c') \<in> set xs \<Longrightarrow> e' \<le> e"
    and b': "b' = (if epoch b \<noteq> e then \<lparr>epoch = e, bcount = 0\<rparr> else b)"
  shows "slot_ok n (xs @ [(e, c)]) i (b'\<lparr>bcount := wrap64 (bcount b' + c)\<rparr>)"
proof -
  have "bcount b' = wrap64 (total_if (\<lambda>e'. e' = e) xs)"
  proof (cases "\<exists>(e', c') \<in> set xs. e' mod n = int i")
    case True
    then have *: "\<And>e' c'. (e', c') \<in> set xs \<Longrightarrow> e' mod n = int i \<Longrightarrow> e' \<le> epoch b"
      "bcount b = wrap64 (total_if (\<lambda>e. e = epoch b) xs)" "\<exists>c. (epoch b, c) \<in> set xs"
      using s by (auto simp: slot_ok_def)
    show ?thesis
    proof (cases "epoch b = e")
      case True
      then show ?thesis using * b' by simp
    next
      case False
      have "total_if (\<lambda>e'. e' = e) xs = 0"
        by (rule total_if_none) (use * le m False in force)
      then show ?thesis using b' False by simp
    qed
  next
    case False
    then have "bcount b = 0" "total_if (\<lambda>e'. e' = e) xs = 0"
      using s m by (auto simp: slot_ok_def intro!: total_if_none)
    then show ?thesis using b' by simp
  qed
  moreover have "epoch b' = e" using b' by auto
  ultimately show ?thesis
    using m le by (auto simp: slot_ok_def wrap64_add_left)
qed

lemma total_if_Cons: "total_if P (x # xs) = (if P (fst x) then snd x else 0) + total_if P xs"
  by (cases x) simp

lemma ring_ok_new: "ring_ok [] (replicate n \<lparr>epoch = 0, bcount = 0\<rparr>)"
  by (simp add: ring_ok_def slot_ok_def)

lemma ring_ok_add:
  assumes r: "ring_ok xs (buckets w)" and n: "buckets w \<noteq> []"
    and le: "\<And>e' c'. (e', c') \<in> set xs \<Longrightarrow> e' \<le> epoch_of (bucketSize w) t"
  shows "ring_ok (xs @ [(epoch_of (bucketSize w) t, c)]) (buckets (add_window w t c))"
  unfolding ring_ok_def
proof (intro allI impI)
  fix i assume i: "i < length (buckets (add_window w t c))"
  define e where "e = epoch_of (bucketSize w) t"
  define N where "N = int (length (buckets w))"
  define b where "b = (if epoch (buckets w ! i) \<noteq> e then \<lparr>epoch = e, bcount = 0\<rparr> else buckets w ! i)"
  have N: "N > 0" using n by (simp add: N_def)
  have len: "length (buckets (add_window w t c)) = length (buckets w)"
    by (simp add: add_window_def Let_def)
  have slot: "slot_ok N xs i (buckets w ! i)"
    using r i len by (simp add: ring_ok_def N_def)
  have mod: "0 \<le> e mod N" using N by simp
  show "slot_ok (int (length (buckets (add_window w t c)))) (xs @ [(epoch_of (bucketSize w) t, c)]) i
          (buckets (add_window w t c) ! i)"
  proof (cases "e mod N = int i")
    case True
    then have "nat (e mod N) = i" by simp
    then have "buckets (add_window w t c) ! i = b\<lparr>bcount := wrap64 (bcount b + c)\<rparr>"
      using i len by (simp add: add_window_def Let_def b_def e_def N_def)
    moreover have "slot_ok N (xs @ [(e, c)]) i (b\<lparr>bcount := wrap64 (bcount b + c)\<rparr>)"
      by (rule slot_ok_same [OF slot True _ b_def]) (use le in \<open>auto simp: e_def\<close>)
    ultimately show ?thesis by (simp only: len N_def e_def)
  next
    case False
    then have "nat (e mod N) \<noteq> i" using mod by auto
    then have "buckets (add_window w t c) ! i = buckets w ! i"
      by (simp add: add_window_def Let_def e_def N_def)
    moreover have "slot_ok N (xs @ [(e, c)]) i (buckets w ! i)"
      by (rule slot_ok_other [OF slot False])
    ultimately show ?thesis by (simp only: len N_def e_def)
  qed
qed

text \<open>The total of the live epochs is the sum over the residues.\<close>

lemma total_by_residue:
  assumes "(N :: nat) > 0"
  shows "total_if P xs = (\<Sum>i<N. total_if (\<lambda>e. P e \<and> e mod int N = int i) xs)"
proof (induction xs)
  case (Cons x xs)
  define k where "k = nat (fst x mod int N)"
  have k: "k < N" "fst x mod int N = int k"
    using assms by (simp_all add: k_def nat_less_iff)
  have "(\<Sum>i<N. if P (fst x) \<and> fst x mod int N = int i then snd x else 0) =
        (if P (fst x) then snd x else 0)"
  proof (cases "P (fst x)")
    case True
    have "(\<Sum>i<N. if P (fst x) \<and> fst x mod int N = int i then snd x else 0) =
          (\<Sum>i<N. if i = k then snd x else 0)"
      by (rule Groups_Big.comm_monoid_add_class.sum.cong) (auto simp: True k)
    then show ?thesis using k True by simp
  qed simp
  with Cons.IH show ?case
    by (simp add: total_if_Cons Groups_Big.comm_monoid_add_class.sum.distrib)
qed simp

lemma slot_total:
  assumes s: "slot_ok (int N) xs i b" and N: "N > 0"
    and le: "\<And>e c. (e, c) \<in> set xs \<Longrightarrow> e \<le> cur"
  shows "wrap64 (if live cur N (epoch b) then bcount b else 0) =
         wrap64 (total_if (\<lambda>e. live cur N e \<and> e mod int N = int i) xs)"
proof (cases "\<exists>(e, c) \<in> set xs. e mod int N = int i")
  case True
  then have b: "epoch b mod int N = int i" "bcount b = wrap64 (total_if (\<lambda>e. e = epoch b) xs)"
    "\<And>e c. (e, c) \<in> set xs \<Longrightarrow> e mod int N = int i \<Longrightarrow> e \<le> epoch b" "\<exists>c. (epoch b, c) \<in> set xs"
    using s by (auto simp: slot_ok_def)
  have same: "e = epoch b" if h: "(e, c) \<in> set xs" "live cur N e" "e mod int N = int i" for e c
  proof -
    have "e \<le> epoch b" "epoch b \<le> cur" "cur - int N < e"
      using h b le by (auto simp: live_def)
    moreover obtain k where "epoch b - e = int N * k"
      using b(1) h(3) by (metis mod_eq_dvd_iff dvdE)
    ultimately have "k \<ge> 0" "k < 1" using N
      by (smt (verit, ccfv_SIG) of_nat_0_less_iff zero_le_mult_iff mult_less_cancel_left2)+
    then have "k = 0" by simp
    then show ?thesis using \<open>epoch b - e = int N * k\<close> by simp
  qed
  have "total_if (\<lambda>e. live cur N e \<and> e mod int N = int i) xs =
        (if live cur N (epoch b) then total_if (\<lambda>e. e = epoch b) xs else 0)"
  proof (cases "live cur N (epoch b)")
    case True
    have "total_if (\<lambda>e. live cur N e \<and> e mod int N = int i) xs = total_if (\<lambda>e. e = epoch b) xs"
      by (rule total_if_cong) (use same True b(1) in blast)
    with True show ?thesis by simp
  next
    case False
    have "total_if (\<lambda>e. live cur N e \<and> e mod int N = int i) xs = 0"
      by (rule total_if_none) (use same False in blast)
    with False show ?thesis by simp
  qed
  then show ?thesis using b(2) by (auto simp: wrap64_add_left [of _ 0, simplified])
next
  case False
  then have "bcount b = 0" using s by (auto simp: slot_ok_def split: if_splits)
  moreover have "total_if (\<lambda>e. live cur N e \<and> e mod int N = int i) xs = 0"
    by (rule total_if_none) (use False in auto)
  ultimately show ?thesis by simp
qed

lemma sum_ring:
  assumes r: "ring_ok xs (buckets w)" and n: "buckets w \<noteq> []"
    and le: "\<And>e c. (e, c) \<in> set xs \<Longrightarrow> e \<le> epoch_of (bucketSize w) now"
  shows "sum_window w now =
         wrap64 (total_if (live (epoch_of (bucketSize w) now) (length (buckets w))) xs)"
proof -
  define cur where "cur = epoch_of (bucketSize w) now"
  define N where "N = length (buckets w)"
  define f where "f = (\<lambda>b :: bucket. if live cur N (epoch b) then bcount b else 0)"
  define g where "g = (\<lambda>i. total_if (\<lambda>e. live cur N e \<and> e mod int N = int i) xs)"
  have N: "N > 0" using n by (simp add: N_def)
  have "sum_window w now = wrap64 (sum_list (map f (buckets w)))"
    using foldl_wrap [of "\<lambda>b. live cur N (epoch b)" bcount 0 "buckets w"]
    by (simp add: sum_window_def f_def cur_def N_def Let_def)
  also have "map f (buckets w) = map (\<lambda>i. f (buckets w ! i)) [0..<N]"
    by (rule nth_equalityI) (simp_all add: N_def)
  also have "wrap64 (sum_list (map (\<lambda>i. f (buckets w ! i)) [0..<N])) =
             wrap64 (sum_list (map g [0..<N]))"
  proof (rule wrap64_sum_list)
    fix i assume "i \<in> set [0..<N]"
    then have "slot_ok (int N) xs i (buckets w ! i)"
      using r by (simp add: ring_ok_def N_def)
    then show "wrap64 (f (buckets w ! i)) = wrap64 (g i)"
      unfolding f_def g_def by (rule slot_total [OF _ N]) (use le in \<open>auto simp: cur_def\<close>)
  qed
  also have "sum_list (map g [0..<N]) = total_if (live cur N) xs"
    unfolding total_by_residue [OF N, of "live cur N" xs]
    by (simp add: g_def interv_sum_list_conv_sum_set_nat atLeast0LessThan)
  finally show ?thesis by (simp add: cur_def N_def)
qed


lemma window_shape_pos:
  "window_shape win bs = (b, w, n) \<Longrightarrow> b > 0 \<and> n > 0 \<and> n = nat (w div b)"
proof -
  have *: "1 \<le> w' div b'" if "b' \<le> w'" "0 < b'" for w' b' :: int
    using that pos_imp_zdiv_pos_iff [of b' w'] by simp
  assume "window_shape win bs = (b, w, n)"
  then show ?thesis
    using * [of b w]
    by (auto simp: window_shape_def Let_def minute_def second_def split: if_splits)
qed

lemma new_window:
  "buckets (newSlidingWindow win bs) \<noteq> []" "bucketSize (newSlidingWindow win bs) > 0"
  "ring_ok [] (buckets (newSlidingWindow win bs))"
  by (auto simp: newSlidingWindow_def ring_ok_new dest: window_shape_pos split: prod.split)

lemma add_window_shape [simp]:
  "length (buckets (add_window w t c)) = length (buckets w)"
  "bucketSize (add_window w t c) = bucketSize w" "window (add_window w t c) = window w"
  by (simp_all add: add_window_def Let_def)

lemma add_events_simps [simp]:
  "add_events w [] = w" "add_events w (evs @ [(t, c)]) = add_window (add_events w evs) t c"
  by (simp_all add: add_events_def)

lemma add_events_shape [simp]:
  "length (buckets (add_events w evs)) = length (buckets w)"
  "bucketSize (add_events w evs) = bucketSize w" "window (add_events w evs) = window w"
  by (induction evs rule: rev_induct) auto

lemma epoch_of_mono: "bs > 0 \<Longrightarrow> t \<le> t' \<Longrightarrow> epoch_of bs t \<le> epoch_of bs t'"
  by (simp add: epoch_of_def zdiv_mono1)

lemma add_events_ring:
  assumes "buckets w \<noteq> []" "ring_ok [] (buckets w)" "bucketSize w > 0"
  shows "sorted (map fst evs) \<Longrightarrow>
    ring_ok (map (\<lambda>(t, c). (epoch_of (bucketSize w) t, c)) evs) (buckets (add_events w evs))"
proof (induction evs rule: rev_induct)
  case (snoc x evs)
  obtain t c where x: "x = (t, c)" by (cases x)
  have "\<And>t' c'. (t', c') \<in> set evs \<Longrightarrow> t' \<le> t"
    using snoc.prems x by (force simp: sorted_append)
  then have "ring_ok (map (\<lambda>(t, c). (epoch_of (bucketSize w) t, c)) evs @
                 [(epoch_of (bucketSize (add_events w evs)) t, c)])
               (buckets (add_window (add_events w evs) t c))"
    using snoc assms by (intro ring_ok_add)
      (auto simp: sorted_append epoch_of_mono simp flip: length_greater_0_conv)
  then show ?case by (simp add: x)
qed (use assms in simp)

lemma live_total_eq:
  "live_total bs n now evs =
   total_if (live (epoch_of bs now) n) (map (\<lambda>(t, c). (epoch_of bs t, c)) evs)"
  unfolding live_total_def total_if_def
  by (induction evs) auto

lemma window_counts:
  assumes w: "buckets w \<noteq> []" "ring_ok [] (buckets w)" "bucketSize w > 0"
    and s: "sorted (map fst evs)" and le: "\<forall>(t, c) \<in> set evs. t \<le> now"
  shows "sum_window (add_events w evs) now =
         wrap64 (live_total (bucketSize w) (length (buckets w)) now evs)"
proof -
  have "buckets (add_events w evs) \<noteq> []"
    using w(1) by (simp flip: length_greater_0_conv)
  from sum_ring [OF add_events_ring [OF w s] this, of now]
  have "sum_window (add_events w evs) now =
        wrap64 (total_if (live (epoch_of (bucketSize w) now) (length (buckets w)))
          (map (\<lambda>(t, c). (epoch_of (bucketSize w) t, c)) evs))"
    using le w(3) by (simp, use epoch_of_mono in fastforce)
  then show ?thesis by (simp add: live_total_eq)
qed

section \<open>Edge-triggered rules\<close>

text \<open>What both rules promise: signals without a level leave the rule alone, the others record
  their level and produce an event exactly when it rises.\<close>

fun rising :: "bool \<Rightarrow> bool list \<Rightarrow> bool list" where
  "rising p [] = []"
| "rising p (b # bs) = (b \<and> \<not> p) # rising b bs"

fun run_rule :: "('r \<Rightarrow> nat \<Rightarrow> signal \<Rightarrow> 'r \<times> event option) \<Rightarrow> 'r \<Rightarrow> (nat \<times> signal) list \<Rightarrow> 'r" where
  "run_rule ev r [] = r"
| "run_rule ev r ((t, g) # xs) = run_rule ev (fst (ev r t g)) xs"

text \<open>The levels a run sees for the service \<open>s\<close>, each with whether an event was produced.\<close>

fun service_trace ::
  "('r \<Rightarrow> nat \<Rightarrow> signal \<Rightarrow> 'r \<times> event option) \<Rightarrow> ('r \<Rightarrow> nat \<Rightarrow> signal \<Rightarrow> bool option) \<Rightarrow>
   string \<Rightarrow> 'r \<Rightarrow> (nat \<times> signal) list \<Rightarrow> (bool \<times> bool) list" where
  "service_trace ev lev s r [] = []"
| "service_trace ev lev s r ((t, g) # xs) =
     (case lev r t g of
        None \<Rightarrow> (if serviceName g = s \<and> snd (ev r t g) \<noteq> None then [(False, True)] else [])
      | Some b \<Rightarrow> (if serviceName g = s then [(b, snd (ev r t g) \<noteq> None)] else [])) @
     service_trace ev lev s (fst (ev r t g)) xs"

locale edge_rule =
  fixes ev :: "'r \<Rightarrow> nat \<Rightarrow> signal \<Rightarrow> 'r \<times> event option"
    and lev :: "'r \<Rightarrow> nat \<Rightarrow> signal \<Rightarrow> bool option"
    and firing :: "'r \<Rightarrow> string \<Rightarrow> bool"
  assumes ignored: "lev r t g = None \<Longrightarrow> ev r t g = (r, None)"
    and firing_step: "lev r t g = Some b \<Longrightarrow> firing (fst (ev r t g)) = (firing r)(serviceName g := b)"
    and event_step: "lev r t g = Some b \<Longrightarrow> snd (ev r t g) \<noteq> None \<longleftrightarrow> b \<and> \<not> firing r (serviceName g)"
begin

lemma trace_rising:
  "map snd (service_trace ev lev s r xs) =
   rising (firing r s) (map fst (service_trace ev lev s r xs))"
proof (induction xs arbitrary: r)
  case (Cons x xs)
  obtain t g where x: "x = (t, g)" by (cases x)
  show ?case
  proof (cases "lev r t g")
    case None
    then show ?thesis using Cons.IH [of r] by (simp add: x ignored)
  next
    case (Some b)
    then show ?thesis
      using Cons.IH [of "fst (ev r t g)"] event_step [OF Some] firing_step [OF Some]
      by (auto simp: x)
  qed
qed simp

end

definition error_level :: "HighErrorRateRule \<Rightarrow> nat \<Rightarrow> signal \<Rightarrow> bool option" where
  "error_level r now sg =
     (if sig_type sg \<noteq> Log \<and> sig_type sg \<noteq> Trace then None
      else Some (fle (er_threshold r)
                  (window_rate (er_errors (error_count r now sg)) (serviceName sg) now)))"

definition latency_level :: "HighLatencyRule \<Rightarrow> nat \<Rightarrow> signal \<Rightarrow> bool option" where
  "latency_level r now sg =
     (case trace_duration sg of None \<Rightarrow> None
      | Some d \<Rightarrow> Some (fle (hl_threshold r)
                  (window_peak (hl_maxes (latency_observe r now (serviceName sg) d)) (serviceName sg) now)))"

lemma error_count_frame [simp]:
  "er_threshold (error_count r t g) = er_threshold r" "er_firing (error_count r t g) = er_firing r"
  "er_window (error_count r t g) = er_window r" "er_tenant (error_count r t g) = er_tenant r"
  by (simp_all add: error_count_def Let_def)

lemma latency_observe_frame [simp]:
  "hl_threshold (latency_observe r t s d) = hl_threshold r"
  "hl_firing (latency_observe r t s d) = hl_firing r"
  "hl_window (latency_observe r t s d) = hl_window r"
  by (simp_all add: latency_observe_def Let_def)

interpretation err: edge_rule error_eval error_level er_firing
  by unfold_locales (auto simp: error_eval_def error_level_def Let_def split: if_splits)

interpretation lat: edge_rule latency_eval latency_level hl_firing
  by unfold_locales (auto simp: latency_eval_def latency_level_def Let_def
      split: if_splits option.splits)


section \<open>What the error rule counts\<close>

lemma run_rule_append: "run_rule ev r (xs @ ys) = run_rule ev (run_rule ev r xs) ys"
  by (induction ev r xs rule: run_rule.induct) auto

definition counts_for :: "string \<Rightarrow> signal \<Rightarrow> bool" where
  "counts_for s g \<longleftrightarrow>
     (sig_type g = Log \<or> sig_type g = Trace) \<and> serviceName g = s \<and>
     attr (sig_attrs g) ''severity'' = ''ERROR''"

definition error_events :: "string \<Rightarrow> (nat \<times> signal) list \<Rightarrow> (nat \<times> int) list" where
  "error_events s xs = map (\<lambda>(t, g). (t, 1)) (filter (\<lambda>(t, g). counts_for s g) xs)"

lemma error_events_append [simp]: "error_events s (xs @ ys) = error_events s xs @ error_events s ys"
  by (simp add: error_events_def)

lemma error_count_window:
  "get_or (er_errors (error_count r t g)) s w =
   (if s = serviceName g then
      (let e = get_or (er_errors r) s (newSlidingWindow (er_window r) minute)
       in if attr (sig_attrs g) ''severity'' = ''ERROR'' then add_window e t 1 else e)
    else get_or (er_errors r) s w)"
  by (simp add: error_count_def get_or_def Let_def)

lemma error_eval_window:
  "er_window (fst (error_eval r t g)) = er_window r"
  "er_threshold (fst (error_eval r t g)) = er_threshold r"
  "er_errors (fst (error_eval r t g)) =
     (if sig_type g \<noteq> Log \<and> sig_type g \<noteq> Trace then er_errors r else er_errors (error_count r t g))"
  by (simp_all add: error_eval_def Let_def)

lemma run_error_frame:
  "er_window (run_rule error_eval r xs) = er_window r \<and>
   er_threshold (run_rule error_eval r xs) = er_threshold r"
  by (induction error_eval r xs rule: run_rule.induct) (auto simp: error_eval_window)

lemma run_error_windows:
  "get_or (er_errors (run_rule error_eval (NewHighErrorRateRule tid win thr) xs)) s
     (newSlidingWindow win minute) =
   add_events (newSlidingWindow win minute) (error_events s xs)"
proof (induction xs rule: rev_induct)
  case (snoc x xs)
  obtain t g where x: "x = (t, g)" by (cases x)
  define r where "r = run_rule error_eval (NewHighErrorRateRule tid win thr) xs"
  have w: "er_window r = win"
    using run_error_frame [of "NewHighErrorRateRule tid win thr" xs]
    by (simp add: r_def NewHighErrorRateRule_def)
  have ih: "get_or (er_errors r) s (newSlidingWindow win minute) =
            add_events (newSlidingWindow win minute) (error_events s xs)"
    using snoc by (simp add: r_def)
  have last: "error_events s [(t, g)] = (if counts_for s g then [(t, 1)] else [])"
    by (simp add: error_events_def)
  show ?case
    by (cases "serviceName g = s"; cases "sig_type g")
      (simp_all add: run_rule_append x ih error_eval_window error_count_window w Let_def last
        counts_for_def flip: r_def)
qed (simp add: NewHighErrorRateRule_def get_or_def error_events_def)

lemma sorted_error_events:
  assumes "sorted (map fst xs)" shows "sorted (map fst (error_events s xs))"
proof -
  have "map fst (error_events s xs) = map fst (filter (\<lambda>(t, g). counts_for s g) xs)"
    by (simp add: error_events_def case_prod_beta)
  then show ?thesis using assms by (simp add: sorted_filter)
qed

lemma live_total_error_events:
  "live_total bs n now (error_events s xs) =
   int (length (filter (\<lambda>(t, g). counts_for s g \<and> live (epoch_of bs now) n (epoch_of bs t)) xs))"
  unfolding live_total_def error_events_def by (induction xs) (auto split: if_splits)

text \<open>
  C19. The rate the error rule compares with its threshold, after any history since the rule was
  made in which the clock did not go back, is the number of error logs and traces of the service
  (the current one included) in the epochs the ring covers, divided by the window in seconds.
  Expired buckets do not leak into it and no live event is lost, whatever the gaps between the
  signals and however often the ring wrapped.
\<close>

theorem error_rule_counts:
  assumes "sorted (map fst (xs @ [(now, sg)]))"
    and "window_shape win minute = (bs, w, n)"
  shows "error_level (run_rule error_eval (NewHighErrorRateRule tid win thr) xs) now sg =
    (if sig_type sg \<noteq> Log \<and> sig_type sg \<noteq> Trace then None
     else Some (fle thr (fdiv (of_int64 (wrap64 (int (length (filter
            (\<lambda>(t, g). counts_for (serviceName sg) g \<and> live (epoch_of bs now) n (epoch_of bs t))
            (xs @ [(now, sg)])))))) (seconds w))))"
proof (cases "sig_type sg \<noteq> Log \<and> sig_type sg \<noteq> Trace")
  case False
  define s where "s = serviceName sg"
  define r where "r = run_rule error_eval (NewHighErrorRateRule tid win thr) xs"
  define W where "W = newSlidingWindow win minute"
  define evs where "evs = error_events s (xs @ [(now, sg)])"
  have frame: "er_window r = win" "er_threshold r = thr"
    using run_error_frame [of "NewHighErrorRateRule tid win thr" xs]
    by (simp_all add: r_def NewHighErrorRateRule_def)
  have "er_errors (error_count r now sg) s = Some (add_events W evs)"
    using run_error_windows [of tid win thr xs s] False
    by (auto simp: error_count_def Let_def s_def [symmetric] frame evs_def W_def
        error_events_def [of s "[(now, sg)]"] counts_for_def simp flip: r_def)
  moreover have W: "window W = w" "bucketSize W = bs" "length (buckets W) = n"
    using assms(2) by (simp_all add: W_def newSlidingWindow_def)
  moreover have "sum_window (add_events W evs) now = wrap64 (live_total bs n now evs)"
  proof -
    have "\<forall>(t, c) \<in> set evs. t \<le> now"
      using assms(1) by (auto simp: evs_def error_events_def sorted_append)
    moreover have "sorted (map fst evs)"
      using sorted_error_events [OF assms(1), of s] by (simp only: evs_def)
    ultimately show ?thesis
      using window_counts [of W evs now] new_window [of win minute]
      by (simp add: W(2,3) flip: W_def evs_def)
  qed
  ultimately show ?thesis
    using False
    by (simp add: error_level_def window_rate_def ratePerSec_def frame s_def [symmetric]
        r_def [symmetric] evs_def live_total_error_events
        del: filter_append error_events_append)
qed (simp add: error_level_def)

theorem error_rule_counts_witness:
  "let g = \<lparr>sig_tenant = ''t'', sig_type = Log, sig_payload = [],
             sig_attrs = [''severity'' \<mapsto> ''ERROR''], sig_received = 0\<rparr>
   in error_level (run_rule error_eval (NewHighErrorRateRule ''t'' (2 * minute) (Fin 0))
        [(7, g), (190 * 10 ^ 9, g)]) (200 * 10 ^ 9) g
      = Some (fle (Fin 0) (fdiv (of_int64 2) (seconds (2 * minute))))"
  unfolding Let_def
  by (subst error_rule_counts [where bs = minute and w = "2 * minute" and n = 2])
    (simp_all add: window_shape_def minute_def second_def counts_for_def serviceName_def live_def
      epoch_of_def wrap64_def)

text \<open>
  Both rules are edge triggered, for each service separately: over any sequence of signals, a
  rule produces an event for a service exactly at the signals where its level (rate or peak
  against the threshold) is high and was low, or not yet firing, at the previous evaluated signal
  of that service. Signals of other services, and signals the rule ignores, do not matter.
\<close>

theorem rules_edge_triggered:
  "map snd (service_trace error_eval error_level s re xs) =
     rising (er_firing re s) (map fst (service_trace error_eval error_level s re xs)) \<and>
   map snd (service_trace latency_eval latency_level s rl xs) =
     rising (hl_firing rl s) (map fst (service_trace latency_eval latency_level s rl xs))"
  by (rule conjI [OF err.trace_rising lat.trace_rising])

text \<open>The engine stops at the first event: a signal that makes the error rule fire is not seen by
  the latency rule behind it.\<close>

lemma process_short_circuit:
  assumes "error_eval re (now 0) sg = (re', Some e)"
  shows "Process [RError re, RLatency rl] now sg = ([RError re', RLatency rl], Some e)"
  using assms by simp

end
