(* ===== verification/Sloburn.thy ===== *)
theory Sloburn
  imports GoNum
begin

text \<open>
  The multi-window burn-rate evaluator (\<open>pkg/sloburn/sloburn.go\<close>): registration, minute buckets
  of good and bad events, trimming, burn rates and the decision. Times are in nanoseconds since
  1970; \<open>Unix\<close> rounds down to seconds, and \<open>/ 60\<close> truncates as Go does.
\<close>

section \<open>Objectives\<close>

record WindowPair =
  wp_long :: int
  wp_short :: int
  wp_rate :: f64
  wp_severity :: string

definition sev_page :: string where "sev_page = ''page''"
definition sev_ticket :: string where "sev_ticket = ''ticket''"
definition sev_ok :: string where "sev_ok = ''ok''"

definition DefaultWindowPairs :: "WindowPair list" where
  "DefaultWindowPairs =
     [\<lparr>wp_long = 1 * hour, wp_short = 5 * minute, wp_rate = flit (144 / 10), wp_severity = sev_page\<rparr>,
      \<lparr>wp_long = 6 * hour, wp_short = 30 * minute, wp_rate = flit 6, wp_severity = sev_page\<rparr>,
      \<lparr>wp_long = 24 * hour, wp_short = 2 * hour, wp_rate = flit 3, wp_severity = sev_ticket\<rparr>,
      \<lparr>wp_long = 72 * hour, wp_short = 6 * hour, wp_rate = flit 1, wp_severity = sev_ticket\<rparr>]"

record SLO =
  slo_name :: string
  slo_target :: f64
  slo_pairs :: "WindowPair list"

datatype slo_error = NameRequired | TargetRange f64 | PairsRequired | UnknownSLO string

definition errorBudget :: "SLO \<Rightarrow> f64" where
  "errorBudget s = fsub (Fin 1) (slo_target s)"

definition validate_slo :: "SLO \<Rightarrow> slo_error option" where
  "validate_slo s =
     (if slo_name s = [] then Some NameRequired
      else if fle (slo_target s) (Fin 0) \<or> fle (Fin 1) (slo_target s)
        then Some (TargetRange (slo_target s))
      else if slo_pairs s = [] then Some PairsRequired
      else None)"

section \<open>Buckets\<close>

record slo_bucket =
  b_epoch :: int
  b_good :: int
  b_bad :: int

record sloState =
  st_slo :: SLO
  maxKeep :: int
  good_buckets :: "slo_bucket list"
  bad_buckets :: "slo_bucket list"

type_synonym evaluator = "string \<rightharpoonup> sloState"

definition new_evaluator :: evaluator where
  "new_evaluator = Map.empty"

definition unix_minute :: "int \<Rightarrow> int" where
  "unix_minute t = (t div second) sdiv 60"

fun addToBucket :: "slo_bucket list \<Rightarrow> int \<Rightarrow> int \<Rightarrow> int \<Rightarrow> slo_bucket list" where
  "addToBucket [] ep g b = [\<lparr>b_epoch = ep, b_good = g, b_bad = b\<rparr>]"
| "addToBucket (x # xs) ep g b =
     (if b_epoch x = ep
      then x\<lparr>b_good := wrap64 (b_good x + g), b_bad := wrap64 (b_bad x + b)\<rparr> # xs
      else x # addToBucket xs ep g b)"

definition trimOlder :: "slo_bucket list \<Rightarrow> int \<Rightarrow> slo_bucket list" where
  "trimOlder bs cutoff = filter (\<lambda>b. b_epoch b > cutoff) bs"

definition Register :: "evaluator \<Rightarrow> SLO \<Rightarrow> slo_error + evaluator" where
  "Register e slo =
     (case validate_slo slo of
        Some err \<Rightarrow> Inl err
      | None \<Rightarrow>
          let keep = foldl (\<lambda>m p. if wp_long p > m then wp_long p else m) 0 (slo_pairs slo)
          in Inr (case e (slo_name slo) of
               Some s \<Rightarrow> e(slo_name slo \<mapsto> s\<lparr>st_slo := slo, maxKeep := keep\<rparr>)
             | None \<Rightarrow> e(slo_name slo \<mapsto>
                 \<lparr>st_slo = slo, maxKeep = keep, good_buckets = [], bad_buckets = []\<rparr>)))"

definition observe_state :: "sloState \<Rightarrow> bool \<Rightarrow> int \<Rightarrow> sloState" where
  "observe_state s ok t =
     (let ep = unix_minute t;
          s1 = (if ok then s\<lparr>good_buckets := addToBucket (good_buckets s) ep 1 0\<rparr>
                else s\<lparr>bad_buckets := addToBucket (bad_buckets s) ep 0 1\<rparr>);
          cutoff = unix_minute (t + (- maxKeep s - minute))
      in s1\<lparr>good_buckets := trimOlder (good_buckets s1) cutoff,
            bad_buckets := trimOlder (bad_buckets s1) cutoff\<rparr>)"

definition Observe :: "evaluator \<Rightarrow> string \<Rightarrow> bool \<Rightarrow> int \<Rightarrow> slo_error + evaluator" where
  "Observe e name ok t =
     (case e name of
        None \<Rightarrow> Inl (UnknownSLO name)
      | Some s \<Rightarrow> Inr (e(name \<mapsto> observe_state s ok t)))"

section \<open>Evaluation\<close>

record decision =
  d_slo :: string
  d_severity :: string
  d_long :: f64
  d_short :: f64
  d_pair :: WindowPair
  d_budget :: f64
  d_at :: int

definition sum_live :: "(slo_bucket \<Rightarrow> int) \<Rightarrow> int \<Rightarrow> int \<Rightarrow> slo_bucket list \<Rightarrow> int" where
  "sum_live f cutoff end bs =
     foldl (\<lambda>n b. if b_epoch b > cutoff \<and> b_epoch b \<le> end then wrap64 (n + f b) else n) 0 bs"

definition burn_of_counts :: "int \<Rightarrow> int \<Rightarrow> f64 \<Rightarrow> f64" where
  "burn_of_counts good bad budget =
     (let total = wrap64 (good + bad)
      in if total = 0 then Fin 0
         else fdiv (fdiv (of_int64 bad) (of_int64 total)) budget)"

definition burnRate :: "sloState \<Rightarrow> int \<Rightarrow> int \<Rightarrow> f64 \<Rightarrow> f64" where
  "burnRate s win now budget =
     (if fle budget (Fin 0) then Fin 0
      else
        let cutoff = unix_minute (now - win); end = unix_minute now
        in burn_of_counts (sum_live b_good cutoff end (good_buckets s))
             (sum_live b_bad cutoff end (bad_buckets s)) budget)"

definition severityRank :: "string \<Rightarrow> int" where
  "severityRank s = (if s = sev_page then 2 else if s = sev_ticket then 1 else 0)"

definition no_pair :: WindowPair where
  "no_pair = \<lparr>wp_long = 0, wp_short = 0, wp_rate = Fin 0, wp_severity = []\<rparr>"

definition pair_burns :: "sloState \<Rightarrow> int \<Rightarrow> WindowPair \<Rightarrow> f64 \<times> f64" where
  "pair_burns s now p =
     (burnRate s (wp_long p) now (errorBudget (st_slo s)),
      burnRate s (wp_short p) now (errorBudget (st_slo s)))"

text \<open>The loop over the sorted pairs, with its early return.\<close>

fun eval_pairs :: "sloState \<Rightarrow> int \<Rightarrow> decision \<Rightarrow> WindowPair list \<Rightarrow> decision" where
  "eval_pairs s now d [] = d"
| "eval_pairs s now d (p # ps) =
     (let (long, short) = pair_burns s now p
      in if fle (wp_rate p) long \<and> fle (wp_rate p) short then
           d\<lparr>d_severity := wp_severity p, d_long := long, d_short := short, d_pair := p\<rparr>
         else eval_pairs s now
           (if flt (d_long d) long then d\<lparr>d_long := long, d_short := short, d_pair := p\<rparr> else d) ps)"

text \<open>\<open>sort.SliceStable\<close> by descending rank.\<close>

definition Evaluate :: "evaluator \<Rightarrow> string \<Rightarrow> int \<Rightarrow> slo_error + decision" where
  "Evaluate e name now =
     (case e name of
        None \<Rightarrow> Inl (UnknownSLO name)
      | Some s \<Rightarrow>
          Inr (eval_pairs s now
            \<lparr>d_slo = name, d_severity = sev_ok, d_long = Fin 0, d_short = Fin 0, d_pair = no_pair,
             d_budget = errorBudget (st_slo s), d_at = now\<rparr>
            (sort_key (\<lambda>p. - severityRank (wp_severity p)) (slo_pairs (st_slo s)))))"

section \<open>What the buckets hold\<close>

text \<open>The events given to an objective: whether each was good, and its time.\<close>

definition observe_all :: "sloState \<Rightarrow> (bool \<times> int) list \<Rightarrow> sloState" where
  "observe_all s evs = foldl (\<lambda>s (ok, t). observe_state s ok t) s evs"

definition events_in :: "bool \<Rightarrow> int \<Rightarrow> int \<Rightarrow> (bool \<times> int) list \<Rightarrow> (bool \<times> int) list" where
  "events_in k cutoff end evs =
     filter (\<lambda>(ok, t). ok = k \<and> unix_minute t > cutoff \<and> unix_minute t \<le> end) evs"

lemma sdiv_mono: "a \<le> b \<Longrightarrow> a sdiv 60 \<le> b sdiv (60 :: int)"
  using zdiv_mono1 [of a b 60] zdiv_mono1 [of "- b" "- a" 60]
    pos_imp_zdiv_nonneg_iff [of 60 "- a"] pos_imp_zdiv_nonneg_iff [of 60 b]
  unfolding signed_divide_int_def by (auto simp: sgn_if)

lemma wrap64_wrap [simp]: "wrap64 (wrap64 a) = wrap64 a"
  using wrap64_add_left [of a 0] by simp

lemma unix_minute_mono: "s \<le> t \<Longrightarrow> unix_minute s \<le> unix_minute t"
  unfolding unix_minute_def by (intro sdiv_mono zdiv_mono1) (auto simp: second_def)

lemma sum_live_eq:
  "sum_live f c e bs =
   wrap64 (sum_list (map (\<lambda>b. if b_epoch b > c \<and> b_epoch b \<le> e then f b else 0) bs))"
  using foldl_wrap [of "\<lambda>b. b_epoch b > c \<and> b_epoch b \<le> e" f 0 bs] by (simp add: sum_live_def)

lemma sum_live_add:
  assumes "\<And>x. f (x\<lparr>b_good := wrap64 (b_good x + g), b_bad := wrap64 (b_bad x + b)\<rparr>) = wrap64 (f x + n)"
    and "f \<lparr>b_epoch = ep, b_good = g, b_bad = b\<rparr> = n"
  shows "sum_live f c e (addToBucket bs ep g b) =
         wrap64 (sum_live f c e bs + (if ep > c \<and> ep \<le> e then n else 0))"
proof -
  define l where "l = (\<lambda>x. if b_epoch x > c \<and> b_epoch x \<le> e then f x else 0)"
  define d where "d = (if ep > c \<and> ep \<le> e then n else 0)"
  have upd: "wrap64 (l (x\<lparr>b_good := wrap64 (b_good x + g), b_bad := wrap64 (b_bad x + b)\<rparr>)) =
             wrap64 (l x + d)" if "b_epoch x = ep" for x
    using that by (simp add: l_def d_def assms(1))
  have new: "l \<lparr>b_epoch = ep, b_good = g, b_bad = b\<rparr> = d"
    by (simp add: l_def d_def assms(2))
  have "wrap64 (sum_list (map l (addToBucket bs ep g b))) = wrap64 (sum_list (map l bs) + d)"
  proof (induction bs)
    case (Cons x bs)
    show ?case
    proof (cases "b_epoch x = ep")
      case True
      let ?x = "x\<lparr>b_good := wrap64 (b_good x + g), b_bad := wrap64 (b_bad x + b)\<rparr>"
      have "wrap64 (l ?x + sum_list (map l bs)) = wrap64 (wrap64 (l ?x) + sum_list (map l bs))"
        by (simp add: wrap64_add_left)
      also have "\<dots> = wrap64 (l x + d + sum_list (map l bs))"
        by (simp add: upd [OF True] wrap64_add_left)
      finally show ?thesis using True by (simp add: algebra_simps)
    next
      case False
      have "wrap64 (l x + sum_list (map l (addToBucket bs ep g b))) =
            wrap64 (l x + wrap64 (sum_list (map l (addToBucket bs ep g b))))"
        by (simp add: wrap64_add_right)
      also have "\<dots> = wrap64 (l x + (sum_list (map l bs) + d))"
        by (simp only: Cons.IH wrap64_add_right)
      finally show ?thesis using False by (simp add: algebra_simps)
    qed
  qed (simp add: new)
  then show ?thesis by (simp add: sum_live_eq wrap64_add_left l_def d_def)
qed

lemma sum_live_trim: "k \<le> c \<Longrightarrow> sum_live f c e (trimOlder bs k) = sum_live f c e bs"
proof -
  assume k: "k \<le> c"
  have "sum_list (map (\<lambda>b. if b_epoch b > c \<and> b_epoch b \<le> e then f b else 0) (trimOlder bs k)) =
        sum_list (map (\<lambda>b. if b_epoch b > c \<and> b_epoch b \<le> e then f b else 0) bs)"
    unfolding trimOlder_def using k by (induction bs) auto
  then show ?thesis by (simp only: sum_live_eq)
qed

lemma observe_keep [simp]:
  "maxKeep (observe_state s ok t) = maxKeep s" "st_slo (observe_state s ok t) = st_slo s"
  by (simp_all add: observe_state_def Let_def)

lemma observe_all_keep [simp]:
  "maxKeep (observe_all s evs) = maxKeep s" "st_slo (observe_all s evs) = st_slo s"
  by (induction evs rule: rev_induct) (auto simp: observe_all_def split: prod.split)

lemma observe_counts:
  assumes "win \<le> maxKeep s" "t \<le> now"
  shows "sum_live b_good (unix_minute (now - win)) e (good_buckets (observe_state s ok t)) =
           wrap64 (sum_live b_good (unix_minute (now - win)) e (good_buckets s) +
                   int (length (events_in True (unix_minute (now - win)) e [(ok, t)])))"
    and "sum_live b_bad (unix_minute (now - win)) e (bad_buckets (observe_state s ok t)) =
           wrap64 (sum_live b_bad (unix_minute (now - win)) e (bad_buckets s) +
                   int (length (events_in False (unix_minute (now - win)) e [(ok, t)])))"
proof -
  have k: "unix_minute (t + (- maxKeep s - minute)) \<le> unix_minute (now - win)"
    by (rule unix_minute_mono) (use assms in \<open>simp add: minute_def second_def\<close>)
  have idem: "wrap64 (sum_live f c e bs) = sum_live f c e bs" for f c bs
    using wrap64_add_left [of _ 0] by (simp add: sum_live_eq)
  have g: "sum_live b_good c e (addToBucket bs ep 1 0) =
             wrap64 (sum_live b_good c e bs + (if ep > c \<and> ep \<le> e then 1 else 0))"
    and b: "sum_live b_bad c e (addToBucket bs ep 0 1) =
             wrap64 (sum_live b_bad c e bs + (if ep > c \<and> ep \<le> e then 1 else 0))" for c bs ep
    by (rule sum_live_add; simp)+
  show "sum_live b_good (unix_minute (now - win)) e (good_buckets (observe_state s ok t)) =
           wrap64 (sum_live b_good (unix_minute (now - win)) e (good_buckets s) +
                   int (length (events_in True (unix_minute (now - win)) e [(ok, t)])))"
    by (simp add: observe_state_def Let_def sum_live_trim [OF k] g events_in_def idem)
  show "sum_live b_bad (unix_minute (now - win)) e (bad_buckets (observe_state s ok t)) =
           wrap64 (sum_live b_bad (unix_minute (now - win)) e (bad_buckets s) +
                   int (length (events_in False (unix_minute (now - win)) e [(ok, t)])))"
    by (simp add: observe_state_def Let_def sum_live_trim [OF k] b events_in_def idem)
qed

lemma observe_all_counts:
  assumes "win \<le> maxKeep s" and e: "good_buckets s = []" "bad_buckets s = []"
  shows "\<forall>(ok, t) \<in> set evs. t \<le> now \<Longrightarrow>
    sum_live b_good (unix_minute (now - win)) e (good_buckets (observe_all s evs)) =
      wrap64 (int (length (events_in True (unix_minute (now - win)) e evs))) \<and>
    sum_live b_bad (unix_minute (now - win)) e (bad_buckets (observe_all s evs)) =
      wrap64 (int (length (events_in False (unix_minute (now - win)) e evs)))"
proof (induction evs rule: rev_induct)
  case (snoc x evs)
  obtain ok t where x: "x = (ok, t)" by (cases x)
  have ev: "events_in k c e (evs @ [x]) = events_in k c e evs @ events_in k c e [x]" for k c
    by (simp add: events_in_def)
  have step: "observe_all s (evs @ [x]) = observe_state (observe_all s evs) ok t"
    by (simp add: observe_all_def x)
  have w: "win \<le> maxKeep (observe_all s evs)" "t \<le> now"
    using assms(1) snoc.prems x by auto
  show ?case
    using snoc.IH snoc.prems observe_counts [OF w, of e ok]
    by (simp add: step ev wrap64_add_left flip: x)
qed (simp add: observe_all_def e sum_live_def events_in_def)

text \<open>
  C20. After any events, in any order and none later than the evaluation time, the burn rate of a
  window not longer than the registered retention is the rate of the events themselves: the
  fraction of bad events among those of the minutes of the window, over the error budget. The
  trimming of old buckets never removes an event of the window.
\<close>

theorem burn_rate_exact:
  assumes "win \<le> maxKeep s" and "\<forall>(ok, t) \<in> set evs. t \<le> now"
    and "good_buckets s = []" and "bad_buckets s = []" and "\<not> fle budget (Fin 0)"
  shows "burnRate (observe_all s evs) win now budget =
    burn_of_counts
      (wrap64 (int (length (events_in True (unix_minute (now - win)) (unix_minute now) evs))))
      (wrap64 (int (length (events_in False (unix_minute (now - win)) (unix_minute now) evs))))
      budget"
  using observe_all_counts [OF assms(1,3,4,2), of "unix_minute now"] assms(5)
  by (simp add: burnRate_def Let_def)

theorem burn_rate_exact_witness:
  "burnRate (observe_all
       \<lparr>st_slo = \<lparr>slo_name = ''api'', slo_target = Fin (1/2), slo_pairs = DefaultWindowPairs\<rparr>,
        maxKeep = 72 * hour, good_buckets = [], bad_buckets = []\<rparr>
       [(True, 0), (False, 2 * minute), (True, 2 * minute), (False, 3 * minute)])
     (2 * minute) (3 * minute) (Fin (1 / 2))
   = burn_of_counts 1 2 (Fin (1 / 2))"
  by (subst burn_rate_exact)
    (simp_all add: events_in_def unix_minute_def minute_def second_def hour_def fle_def wrap64_def
      signed_divide_int_def sgn_if)

section \<open>The decision\<close>

definition trips :: "sloState \<Rightarrow> int \<Rightarrow> WindowPair \<Rightarrow> bool" where
  "trips s now p \<longleftrightarrow>
     fle (wp_rate p) (fst (pair_burns s now p)) \<and> fle (wp_rate p) (snd (pair_burns s now p))"

lemma eval_pairs_none:
  "\<forall>p \<in> set ps. \<not> trips s now p \<Longrightarrow> d_severity (eval_pairs s now d ps) = d_severity d"
  by (induction s now d ps rule: eval_pairs.induct) (auto simp: trips_def Let_def split: prod.split)

lemma eval_pairs_first:
  "\<forall>q \<in> set ps. \<not> trips s now q \<Longrightarrow> trips s now p \<Longrightarrow>
   (let d' = eval_pairs s now d (ps @ p # qs)
    in d_severity d' = wp_severity p \<and> d_pair d' = p \<and> (d_long d', d_short d') = pair_burns s now p)"
  by (induction ps arbitrary: d) (auto simp: trips_def Let_def split: prod.split)

lemma eval_pairs_budget: "d_budget (eval_pairs s now d ps) = d_budget d"
  by (induction s now d ps rule: eval_pairs.induct) (auto simp: Let_def split: prod.split)

lemma filter_split:
  "filter P xs = as @ p # bs \<Longrightarrow> \<exists>us vs. xs = us @ p # vs \<and> filter P us = as"
proof (induction xs arbitrary: as)
  case (Cons x xs)
  show ?case
  proof (cases "P x")
    case False
    with Cons obtain us vs where "xs = us @ p # vs" "filter P us = as" by auto
    with False show ?thesis by (intro exI [where x = "x # us"] exI [where x = vs]) simp
  next
    case True
    show ?thesis
    proof (cases as)
      case Nil
      with True Cons.prems show ?thesis
        by (intro exI [where x = "[]"] exI [where x = xs]) simp
    next
      case (Cons a as')
      with True Cons.prems have "filter P xs = as' @ p # bs" "a = x" by auto
      with Cons.IH obtain us vs where "xs = us @ p # vs" "filter P us = as'" by blast
      with True Cons \<open>a = x\<close> show ?thesis
        by (intro exI [where x = "x # us"] exI [where x = vs]) simp
    qed
  qed
qed simp

lemma sort_key_split:
  assumes "sort_key k xs = ps @ p # qs"
  shows "\<exists>us vs. xs = us @ p # vs \<and> filter (\<lambda>x. k x = k p) us = filter (\<lambda>x. k x = k p) ps"
proof -
  have "filter (\<lambda>x. k x = k p) xs = filter (\<lambda>x. k x = k p) (sort_key k xs)"
    by (simp add: sort_key_stable)
  also have "\<dots> = filter (\<lambda>x. k x = k p) ps @ p # filter (\<lambda>x. k x = k p) qs"
    by (simp add: assms)
  finally show ?thesis by (rule filter_split)
qed

text \<open>The first tripping pair of the sorted list, seen in the order of the configuration.\<close>

lemma first_trip:
  fixes k :: "'a \<Rightarrow> int"
  assumes srt: "sort_key k xs = ps @ p # qs" and ps: "\<forall>q \<in> set ps. \<not> T q"
  shows "\<exists>us vs. xs = us @ p # vs \<and> (\<forall>q \<in> set us. T q \<longrightarrow> k p < k q) \<and>
    (\<forall>q \<in> set vs. T q \<longrightarrow> k p \<le> k q)"
proof -
  obtain us vs where xs: "xs = us @ p # vs"
    and same: "filter (\<lambda>x. k x = k p) us = filter (\<lambda>x. k x = k p) ps"
    using sort_key_split [OF srt] by blast
  have "sorted (map k (ps @ p # qs))"
    using sorted_sort_key [of k xs] by (simp only: srt)
  then have qs: "\<forall>q \<in> set qs. k p \<le> k q" by (auto simp: sorted_append)
  have mem: "q \<in> set ps \<or> q = p \<or> q \<in> set qs" if "q \<in> set xs" for q
  proof -
    have "q \<in> set (sort_key k xs)" using that by simp
    then show ?thesis by (auto simp: srt)
  qed
  have le: "k p \<le> k q" if "q \<in> set xs" "T q" for q
    using mem [OF that(1)] that(2) ps qs by auto
  have "k p < k q" if q: "q \<in> set us" "T q" for q
  proof -
    have "k q \<noteq> k p"
    proof
      assume "k q = k p"
      then have "q \<in> set (filter (\<lambda>x. k x = k p) us)" using q by simp
      then have "q \<in> set ps" unfolding same by simp
      then show False using ps q by blast
    qed
    then show ?thesis using le [of q] q xs by force
  qed
  then show ?thesis using le xs by (intro exI [where x = us] exI [where x = vs]) auto
qed

text \<open>
  \<open>Evaluate\<close> reports severity \<open>ok\<close> exactly when no pair trips (for severities other than
  \<open>ok\<close>); otherwise it reports a tripping pair with its two burn rates: one of the highest
  severity among the tripping pairs and, among those, the first in the order of the SLO
  definition. An unknown name is an error.
\<close>

theorem evaluate_most_severe:
  "(case e name of
      None \<Rightarrow> Evaluate e name now = Inl (UnknownSLO name)
    | Some s \<Rightarrow> (\<exists>d. Evaluate e name now = Inr d \<and>
        (if \<forall>p \<in> set (slo_pairs (st_slo s)). \<not> trips s now p then d_severity d = sev_ok
         else \<exists>us p vs. slo_pairs (st_slo s) = us @ p # vs \<and> trips s now p \<and>
           d_pair d = p \<and> d_severity d = wp_severity p \<and>
           (d_long d, d_short d) = pair_burns s now p \<and>
           (\<forall>q \<in> set us. trips s now q \<longrightarrow>
              severityRank (wp_severity q) < severityRank (wp_severity p)) \<and>
           (\<forall>q \<in> set vs. trips s now q \<longrightarrow>
              severityRank (wp_severity q) \<le> severityRank (wp_severity p)))))"
proof (cases "e name")
  case (Some s)
  define k where "k = (\<lambda>p :: WindowPair. - severityRank (wp_severity p))"
  define xs where "xs = slo_pairs (st_slo s)"
  define d0 where "d0 = \<lparr>d_slo = name, d_severity = sev_ok, d_long = Fin 0, d_short = Fin 0,
    d_pair = no_pair, d_budget = errorBudget (st_slo s), d_at = now\<rparr>"
  have ev: "Evaluate e name now = Inr (eval_pairs s now d0 (sort_key k xs))"
    by (simp add: Evaluate_def Some d0_def k_def xs_def)
  show ?thesis
  proof (cases "\<forall>p \<in> set xs. \<not> trips s now p")
    case True
    then have "d_severity (eval_pairs s now d0 (sort_key k xs)) = sev_ok"
      by (simp add: eval_pairs_none d0_def)
    with True show ?thesis by (simp add: Some ev xs_def)
  next
    case False
    then have some: "\<exists>p \<in> set (sort_key k xs). trips s now p" by simp
    obtain ps p qs where srt: "sort_key k xs = ps @ p # qs" and p: "trips s now p"
      and ps: "\<forall>q \<in> set ps. \<not> trips s now q"
      using split_list_first_prop [OF some] by blast
    have d: "d_severity (eval_pairs s now d0 (sort_key k xs)) = wp_severity p"
      "d_pair (eval_pairs s now d0 (sort_key k xs)) = p"
      "(d_long (eval_pairs s now d0 (sort_key k xs)), d_short (eval_pairs s now d0 (sort_key k xs)))
         = pair_burns s now p"
      unfolding srt using eval_pairs_first [OF ps p, of d0 qs] by (simp_all only: Let_def)
    obtain us vs where xs: "xs = us @ p # vs" "\<forall>q \<in> set us. trips s now q \<longrightarrow> k p < k q"
      "\<forall>q \<in> set vs. trips s now q \<longrightarrow> k p \<le> k q"
      using first_trip [where T = "trips s now", OF srt ps] by blast
    have "\<exists>us p vs. xs = us @ p # vs \<and> trips s now p \<and>
        d_pair (eval_pairs s now d0 (sort_key k xs)) = p \<and>
        d_severity (eval_pairs s now d0 (sort_key k xs)) = wp_severity p \<and>
        (d_long (eval_pairs s now d0 (sort_key k xs)),
         d_short (eval_pairs s now d0 (sort_key k xs))) = pair_burns s now p \<and>
        (\<forall>q \<in> set us. trips s now q \<longrightarrow>
           severityRank (wp_severity q) < severityRank (wp_severity p)) \<and>
        (\<forall>q \<in> set vs. trips s now q \<longrightarrow>
           severityRank (wp_severity q) \<le> severityRank (wp_severity p))"
      by (rule exI [where x = us], rule exI [where x = p], rule exI [where x = vs])
        (use d p xs in \<open>simp add: k_def\<close>)
    then show ?thesis
      unfolding Some option.case xs_def [symmetric] if_not_P [OF False] using ev by blast
  qed
qed (simp add: Evaluate_def)

definition demo_pair :: "string \<Rightarrow> WindowPair" where
  "demo_pair sev = \<lparr>wp_long = hour, wp_short = minute, wp_rate = Fin 0, wp_severity = sev\<rparr>"

definition demo_state :: sloState where
  "demo_state =
     \<lparr>st_slo = \<lparr>slo_name = ''api'', slo_target = Fin (1/2),
                slo_pairs = [demo_pair sev_ticket, demo_pair sev_page, demo_pair sev_page]\<rparr>,
      maxKeep = hour, good_buckets = [], bad_buckets = []\<rparr>"

lemma demo_trips: "trips demo_state now (demo_pair sev)"
proof -
  have "burnRate demo_state win now b = Fin 0" for win b
    by (simp add: burnRate_def demo_state_def sum_live_def burn_of_counts_def Let_def)
  then show ?thesis by (simp add: trips_def pair_burns_def demo_pair_def fle_def)
qed

theorem evaluate_most_severe_witness:
  "\<exists>d. Evaluate [''api'' \<mapsto> demo_state] ''api'' 0 = Inr d \<and> d_severity d = sev_page"
proof -
  have ne: "sev_ticket \<noteq> sev_page" by (simp add: sev_ticket_def sev_page_def)
  have pr: "slo_pairs (st_slo demo_state) =
      [demo_pair sev_ticket, demo_pair sev_page, demo_pair sev_page]"
    by (simp add: demo_state_def)
  have some: "\<not> (\<forall>p \<in> set [demo_pair sev_ticket, demo_pair sev_page, demo_pair sev_page].
      \<not> trips demo_state 0 p)"
    by (simp add: demo_trips)
  obtain d us p vs where d: "Evaluate [''api'' \<mapsto> demo_state] ''api'' 0 = Inr d"
    and xs: "[demo_pair sev_ticket, demo_pair sev_page, demo_pair sev_page] = us @ p # vs"
    and sev: "d_severity d = wp_severity p"
    and top: "\<forall>q \<in> set vs. trips demo_state 0 q \<longrightarrow>
       severityRank (wp_severity q) \<le> severityRank (wp_severity p)"
    using evaluate_most_severe [of "[''api'' \<mapsto> demo_state]" "''api''" 0]
    unfolding fun_upd_same option.case pr if_not_P [OF some] by blast
  have "p \<noteq> demo_pair sev_ticket"
  proof
    assume p: "p = demo_pair sev_ticket"
    have "p \<noteq> demo_pair sev_page" using ne by (simp add: p demo_pair_def)
    with xs have "vs = [demo_pair sev_page, demo_pair sev_page]"
      by (auto simp: Cons_eq_append_conv)
    with top show False
      using ne by (auto simp: p demo_trips) (simp_all add: demo_pair_def severityRank_def)
  qed
  with xs have "p = demo_pair sev_page" by (auto simp: Cons_eq_append_conv)
  with d sev show ?thesis by (simp add: demo_pair_def)
qed

end
