(* ===== verification/Auth.thy ===== *)
theory Auth
  imports Prelude "HOL-Library.AList"
begin

text \<open>
  Authentication (\<open>pkg/auth\<close>): the scopes, the three key stores (the development validator of
  \<open>auth.go\<close>, the in-memory store, the Postgres store of \<open>store_postgres.go\<close> with its validation
  cache) and the two HTTP middlewares. BLAKE3 and Argon2id are not part of the repository: the
  digest is the parameter \<open>blake3\<close> and the verification of a secret against an encoded hash the
  parameter \<open>argon\<close>. The table behind the Postgres store is a list of rows, the queries are the
  ones written in the source, and whether the database answers is an input.
\<close>

section \<open>Scopes\<close>

type_synonym scope = string

definition ScopeIngest :: scope where "ScopeIngest = ''ingest''"
definition ScopeQuery :: scope where "ScopeQuery = ''query''"
definition ScopeAlertRead :: scope where "ScopeAlertRead = ''alert.read''"
definition ScopeAlertWrite :: scope where "ScopeAlertWrite = ''alert.write''"
definition ScopeTenantAdmin :: scope where "ScopeTenantAdmin = ''tenant.admin''"

definition AllScopes :: "scope list" where
  "AllScopes = [ScopeIngest, ScopeQuery, ScopeAlertRead, ScopeAlertWrite, ScopeTenantAdmin]"

definition DefaultScopes :: "scope list" where
  "DefaultScopes = [ScopeIngest]"

definition ParseScope :: "string \<Rightarrow> scope option" where
  "ParseScope s = (let t = to_lower (trim_space s) in if t \<in> set AllScopes then Some t else None)"

text \<open>Byte-wise order of strings, as Go's \<open><\<close>.\<close>

fun str_le :: "string \<Rightarrow> string \<Rightarrow> bool" where
  "str_le [] t = True"
| "str_le (c # cs) [] = False"
| "str_le (c # cs) (d # ds) =
     ((of_char c :: nat) < of_char d \<or> c = d \<and> str_le cs ds)"

fun insert_str :: "string \<Rightarrow> string list \<Rightarrow> string list" where
  "insert_str s [] = [s]"
| "insert_str s (t # ts) = (if str_le s t then s # t # ts else t # insert_str s ts)"

definition sort_strs :: "string list \<Rightarrow> string list" where
  "sort_strs xs = foldr insert_str xs []"

fun dedup :: "string list \<Rightarrow> string list \<Rightarrow> string list" where
  "dedup seen [] = []"
| "dedup seen (s # ss) = (if s \<in> set seen then dedup seen ss else s # dedup (s # seen) ss)"

definition dedupSortScopes :: "scope list \<Rightarrow> scope list" where
  "dedupSortScopes xs = sort_strs (dedup [] xs)"

text \<open>The error names the first unknown scope.\<close>

definition ParseScopes :: "string list \<Rightarrow> string + scope list" where
  "ParseScopes xs =
     (if xs = [] then Inr DefaultScopes
      else bindE (mapE (\<lambda>s. case ParseScope s of None \<Rightarrow> Inl s | Some sc \<Rightarrow> Inr sc) xs)
             (\<lambda>out. Inr (dedupSortScopes out)))"

definition ScopesAsStrings :: "scope list \<Rightarrow> string list" where
  "ScopesAsStrings xs = map id xs"

definition HasScope :: "scope list \<Rightarrow> scope list \<Rightarrow> bool" where
  "HasScope granted required \<longleftrightarrow> list_all (\<lambda>r. r \<in> set granted) required"

text \<open>The scopes a handler reads from the request context; \<open>None\<close> when nothing was attached.\<close>

definition ScopesFromContext :: "scope list option \<Rightarrow> scope list" where
  "ScopesFromContext ctx =
     (case ctx of None \<Rightarrow> DefaultScopes | Some v \<Rightarrow> if v = [] then DefaultScopes else v)"

section \<open>The development validator\<close>

record KeyMetadata =
  md_tenant :: string
  md_scopes :: "scope list"

definition colon :: char where "colon = CHR '':''"

definition computeKeyHash :: "(string \<Rightarrow> string) \<Rightarrow> string \<Rightarrow> string \<Rightarrow> string" where
  "computeKeyHash blake3 secret tid = blake3 (secret @ '':'' @ tid)"

definition GenerateAPIKey :: "(string \<Rightarrow> string) \<Rightarrow> string \<Rightarrow> string \<Rightarrow> string" where
  "GenerateAPIKey blake3 secret tid = tid @ '':'' @ computeKeyHash blake3 secret tid"

definition stateless_validate ::
  "(string \<Rightarrow> string) \<Rightarrow> string \<Rightarrow> string \<Rightarrow> KeyMetadata option" where
  "stateless_validate blake3 secret key =
     (case split_byte2 colon key of
        [tid, provided] \<Rightarrow>
          if provided = computeKeyHash blake3 secret tid
          then Some \<lparr>md_tenant = tid, md_scopes = AllScopes\<rparr> else None
      | _ \<Rightarrow> None)"

section \<open>The in-memory store\<close>

record memEntry =
  me_tenant :: string
  me_scopes :: "scope list"

type_synonym memory_store = "string \<rightharpoonup> memEntry"

definition NewMemoryKeyStore :: memory_store where
  "NewMemoryKeyStore = Map.empty"

definition AddWithScopes ::
  "(string \<Rightarrow> string) \<Rightarrow> memory_store \<Rightarrow> string \<Rightarrow> string \<Rightarrow> scope list \<Rightarrow> memory_store \<times> string" where
  "AddWithScopes blake3 st tid rawkey scopes =
     (let digest = blake3 rawkey
      in (st(digest \<mapsto> \<lparr>me_tenant = tid, me_scopes = scopes\<rparr>), tid @ '':'' @ digest))"

definition Add_key ::
  "(string \<Rightarrow> string) \<Rightarrow> memory_store \<Rightarrow> string \<Rightarrow> string \<Rightarrow> memory_store \<times> string" where
  "Add_key blake3 st tid rawkey = AddWithScopes blake3 st tid rawkey DefaultScopes"

definition Revoke :: "memory_store \<Rightarrow> string \<Rightarrow> memory_store" where
  "Revoke st key =
     (case split_byte2 colon key of [_, d] \<Rightarrow> st(d := None) | _ \<Rightarrow> st)"

definition memory_validate :: "memory_store \<Rightarrow> string \<Rightarrow> KeyMetadata option" where
  "memory_validate st key =
     (case split_byte2 colon key of
        [tid, d] \<Rightarrow>
          (case st d of
             None \<Rightarrow> None
           | Some e \<Rightarrow> if tid = me_tenant e
                       then Some \<lparr>md_tenant = me_tenant e, md_scopes = me_scopes e\<rparr> else None)
      | _ \<Rightarrow> None)"

section \<open>The validation cache\<close>

record cacheEntry =
  ce_tenant :: string
  ce_scopes :: "scope list"
  ce_expires :: int

record validationCache =
  vc_size :: int
  vc_ttl :: int
  vc_entries :: "(string \<times> cacheEntry) list"

definition cache_get :: "validationCache \<Rightarrow> int \<Rightarrow> string \<Rightarrow> validationCache \<times> cacheEntry option" where
  "cache_get c now d =
     (case map_of (vc_entries c) d of
        None \<Rightarrow> (c, None)
      | Some e \<Rightarrow>
          if ce_expires e < now then (c\<lparr>vc_entries := AList.delete d (vc_entries c)\<rparr>, None)
          else (c, Some e))"

text \<open>The eviction loop over the map; \<open>order\<close> is the order in which \<open>range\<close> visits the keys.\<close>

fun evict_loop :: "string list \<Rightarrow> int \<Rightarrow> (string \<times> cacheEntry) list \<Rightarrow> (string \<times> cacheEntry) list" where
  "evict_loop [] n es = es"
| "evict_loop (k # ks) n es =
     (let es' = AList.delete k es in if n - 1 \<le> 0 then es' else evict_loop ks (n - 1) es')"

definition cache_put ::
  "validationCache \<Rightarrow> string list \<Rightarrow> int \<Rightarrow> string \<Rightarrow> string \<Rightarrow> scope list \<Rightarrow> validationCache" where
  "cache_put c order now d tid scopes =
     (let es = (if vc_size c \<le> int (length (vc_entries c))
                then evict_loop order (vc_size c div 10) (vc_entries c) else vc_entries c)
      in c\<lparr>vc_entries := AList.update d
              \<lparr>ce_tenant = tid, ce_scopes = scopes, ce_expires = now + vc_ttl c\<rparr> es\<rparr>)"

section \<open>The Postgres store\<close>

record key_row =
  kr_kid :: string
  kr_tenant :: string
  kr_hash :: string
  kr_prefix :: string
  kr_scopes :: "string list"
  kr_created :: int
  kr_expires :: "int option"
  kr_revoked :: "int option"

record PostgresOptions =
  po_CacheSize :: int
  po_CacheTTL :: int
  po_LastUsedDebounce :: int

definition pg_defaults :: "PostgresOptions \<Rightarrow> PostgresOptions" where
  "pg_defaults p =
     \<lparr>po_CacheSize = (if po_CacheSize p \<le> 0 then 10000 else po_CacheSize p),
      po_CacheTTL = (if po_CacheTTL p \<le> 0 then 5 * second else po_CacheTTL p),
      po_LastUsedDebounce = (if po_LastUsedDebounce p \<le> 0 then minute else po_LastUsedDebounce p)\<rparr>"

record PostgresKeyStore =
  pg_rows :: "key_row list"
  pg_opts :: PostgresOptions
  pg_cache :: validationCache
  pg_usedSet :: "string \<rightharpoonup> int"
  pg_usedCh :: "string list"

definition NewPostgresKeyStore :: "key_row list \<Rightarrow> PostgresOptions \<Rightarrow> PostgresKeyStore" where
  "NewPostgresKeyStore rows p =
     (let q = pg_defaults p
      in \<lparr>pg_rows = rows, pg_opts = q,
          pg_cache = \<lparr>vc_size = po_CacheSize q, vc_ttl = po_CacheTTL q, vc_entries = []\<rparr>,
          pg_usedSet = Map.empty, pg_usedCh = []\<rparr>)"

definition splitWireKey :: "string \<Rightarrow> (string \<times> string \<times> string) option" where
  "splitWireKey key =
     (case split_byte colon key of
        [a, b, c] \<Rightarrow> if a = [] \<or> b = [] \<or> c = [] then None else Some (a, b, c)
      | _ \<Rightarrow> None)"

text \<open>The debounced \<open>last_used_at\<close> update; the channel holds 1024 entries.\<close>

definition scheduleLastUsed :: "PostgresKeyStore \<Rightarrow> int \<Rightarrow> string \<Rightarrow> PostgresKeyStore" where
  "scheduleLastUsed st now kid =
     (case pg_usedSet st kid of
        Some prev \<Rightarrow>
          if now - prev < po_LastUsedDebounce (pg_opts st) then st
          else st\<lparr>pg_usedSet := (pg_usedSet st)(kid \<mapsto> now),
                  pg_usedCh := (if length (pg_usedCh st) < 1024 then pg_usedCh st @ [kid]
                                else pg_usedCh st)\<rparr>
      | None \<Rightarrow> st\<lparr>pg_usedSet := (pg_usedSet st)(kid \<mapsto> now),
                  pg_usedCh := (if length (pg_usedCh st) < 1024 then pg_usedCh st @ [kid]
                                else pg_usedCh st)\<rparr>)"

text \<open>The \<open>SELECT\<close> of the validation at the database's time \<open>now\<close>.\<close>

definition select_key :: "key_row list \<Rightarrow> int \<Rightarrow> string \<Rightarrow> string \<Rightarrow> key_row option" where
  "select_key rows now tid kid =
     List.find (\<lambda>r. kr_tenant r = tid \<and> kr_kid r = kid \<and> kr_revoked r = None \<and>
       (case kr_expires r of None \<Rightarrow> True | Some e \<Rightarrow> e > now)) rows"

text \<open>Unknown scopes in a row: the error of \<open>ParseScopes\<close> is dropped and its nil result kept.\<close>

definition row_scopes :: "key_row \<Rightarrow> scope list" where
  "row_scopes r = (case ParseScopes (kr_scopes r) of Inl _ \<Rightarrow> [] | Inr sc \<Rightarrow> sc)"

text \<open>The slow path: the query and the hash check (first phase), then the store into the cache
  (second phase). Other operations can run between the two.\<close>

definition pg_lookup ::
  "(string \<Rightarrow> string \<Rightarrow> bool) \<Rightarrow> PostgresKeyStore \<Rightarrow> bool \<Rightarrow> int \<Rightarrow> string \<Rightarrow> string \<Rightarrow> string \<Rightarrow>
   KeyMetadata option" where
  "pg_lookup argon st up now tid kid sec =
     (if \<not> up then None
      else case select_key (pg_rows st) now tid kid of
        None \<Rightarrow> None
      | Some r \<Rightarrow> if argon sec (kr_hash r)
                  then Some \<lparr>md_tenant = tid, md_scopes = row_scopes r\<rparr> else None)"

definition pg_commit ::
  "PostgresKeyStore \<Rightarrow> string list \<Rightarrow> int \<Rightarrow> string \<Rightarrow> string \<Rightarrow> KeyMetadata \<Rightarrow> PostgresKeyStore" where
  "pg_commit st order now d kid md =
     scheduleLastUsed
       (st\<lparr>pg_cache := cache_put (pg_cache st) order now d (md_tenant md) (md_scopes md)\<rparr>) now kid"

text \<open>\<open>ValidateKeyWithMetadata\<close>, whose clock readings are one instant \<open>now\<close>; \<open>up\<close> says whether the
  database answers.\<close>

definition pg_validate ::
  "(string \<Rightarrow> string) \<Rightarrow> (string \<Rightarrow> string \<Rightarrow> bool) \<Rightarrow> PostgresKeyStore \<Rightarrow> string list \<Rightarrow> bool \<Rightarrow> int \<Rightarrow>
   string \<Rightarrow> PostgresKeyStore \<times> KeyMetadata option" where
  "pg_validate blake3 argon st order up now key =
     (case splitWireKey key of
        None \<Rightarrow> (st, None)
      | Some (tid, kid, sec) \<Rightarrow>
          (case cache_get (pg_cache st) now (blake3 key) of
             (c, Some e) \<Rightarrow>
               if ce_tenant e \<noteq> tid then (st\<lparr>pg_cache := c\<rparr>, None)
               else (scheduleLastUsed (st\<lparr>pg_cache := c\<rparr>) now kid,
                     Some \<lparr>md_tenant = ce_tenant e, md_scopes = ce_scopes e\<rparr>)
           | (c, None) \<Rightarrow>
               let st' = st\<lparr>pg_cache := c\<rparr>
               in (case pg_lookup argon st' up now tid kid sec of
                     None \<Rightarrow> (st', None)
                   | Some md \<Rightarrow> (pg_commit st' order now (blake3 key) kid md, Some md))))"

datatype auth_error = TenantIDRequired | ScopeRequired | RandomFailed | InsertFailed
  | RevokeFailed | ErrKeyRevoked

record IssuedKey =
  ik_tenant :: string
  ik_kid :: string
  ik_raw :: string
  ik_prefix :: string
  ik_scopes :: "scope list"
  ik_created :: int
  ik_expires :: "int option"

text \<open>The random key id and secret, and the encoded hash of the secret, are inputs (\<open>None\<close> when the
  generator fails); the insert fails when the database does, or on a duplicate key id (the
  table's primary key).\<close>

definition IssueKeyWithScopes ::
  "PostgresKeyStore \<Rightarrow> (string \<times> string \<times> string) option \<Rightarrow> bool \<Rightarrow> int \<Rightarrow> string \<Rightarrow> scope list \<Rightarrow>
   int option \<Rightarrow> PostgresKeyStore \<times> (auth_error + IssuedKey)" where
  "IssueKeyWithScopes st rnd up now tid scopes expires =
     (if tid = [] then (st, Inl TenantIDRequired)
      else if scopes = [] then (st, Inl ScopeRequired)
      else case rnd of
        None \<Rightarrow> (st, Inl RandomFailed)
      | Some (kid, sec, hash) \<Rightarrow>
          let sc = dedupSortScopes scopes;
              raw = tid @ '':'' @ kid @ '':'' @ sec;
              prefix = take 8 raw
          in if \<not> up \<or> kid \<in> kr_kid ` set (pg_rows st) then (st, Inl InsertFailed)
             else (st\<lparr>pg_rows := pg_rows st @
                      [\<lparr>kr_kid = kid, kr_tenant = tid, kr_hash = hash, kr_prefix = prefix,
                        kr_scopes = ScopesAsStrings sc, kr_created = now, kr_expires = expires,
                        kr_revoked = None\<rparr>]\<rparr>,
                   Inr \<lparr>ik_tenant = tid, ik_kid = kid, ik_raw = raw, ik_prefix = prefix,
                        ik_scopes = sc, ik_created = now, ik_expires = expires\<rparr>))"

definition IssueKey ::
  "PostgresKeyStore \<Rightarrow> (string \<times> string \<times> string) option \<Rightarrow> bool \<Rightarrow> int \<Rightarrow> string \<Rightarrow> int option \<Rightarrow>
   PostgresKeyStore \<times> (auth_error + IssuedKey)" where
  "IssueKey st rnd up now tid expires =
     IssueKeyWithScopes st rnd up now tid DefaultScopes expires"

definition matches_active :: "string \<Rightarrow> string \<Rightarrow> key_row \<Rightarrow> bool" where
  "matches_active tid kid r \<longleftrightarrow> kr_tenant r = tid \<and> kr_kid r = kid \<and> kr_revoked r = None"

definition RevokeKey ::
  "PostgresKeyStore \<Rightarrow> bool \<Rightarrow> int \<Rightarrow> string \<Rightarrow> string \<Rightarrow> PostgresKeyStore \<times> auth_error option" where
  "RevokeKey st up now tid kid =
     (if \<not> up then (st, Some RevokeFailed)
      else if \<not> list_ex (matches_active tid kid) (pg_rows st) then (st, Some ErrKeyRevoked)
      else (st\<lparr>pg_rows := map (\<lambda>r. if matches_active tid kid r then r\<lparr>kr_revoked := Some now\<rparr> else r)
                            (pg_rows st)\<rparr>, None))"

section \<open>The middlewares\<close>

record request =
  rq_authorization :: string
  rq_tenant_header :: string
  rq_scopes :: "scope list option"

datatype reply = Rejected nat string | Forwarded request

text \<open>A key store as the middleware sees it: a scope-aware one returns the metadata, another one
  only the tenant.\<close>

datatype store_answer = Aware "KeyMetadata option" | Plain "string option"

definition AuthMiddleware :: "(string \<Rightarrow> store_answer) \<Rightarrow> request \<Rightarrow> reply" where
  "AuthMiddleware validate rq =
     (if rq_authorization rq = [] then Rejected 401 ''missing authorization header''
      else if \<not> has_prefix (rq_authorization rq) ''Bearer ''
        then Rejected 401 ''invalid authorization scheme''
      else
        let md = (case validate (drop (length ''Bearer '') (rq_authorization rq)) of
                    Aware m \<Rightarrow> m
                  | Plain (Some t) \<Rightarrow> Some \<lparr>md_tenant = t, md_scopes = DefaultScopes\<rparr>
                  | Plain None \<Rightarrow> None)
        in case md of
             None \<Rightarrow> Rejected 403 ''invalid api key''
           | Some m \<Rightarrow> Forwarded (rq\<lparr>rq_tenant_header := md_tenant m,
                                      rq_scopes := Some (md_scopes m)\<rparr>))"

definition scopeList :: "scope list \<Rightarrow> string list" where
  "scopeList xs = map id xs"

text \<open>The result carries the \<open>WWW-Authenticate\<close> header of a rejection.\<close>

definition RequireScope :: "scope list \<Rightarrow> request \<Rightarrow> reply \<times> string" where
  "RequireScope required rq =
     (if \<not> HasScope (ScopesFromContext (rq_scopes rq)) required
      then (Rejected 403 ''insufficient scope'',
            ''Bearer scope='' @ [quote_char] @ join '' '' (scopeList required) @ [quote_char])
      else (Forwarded rq, []))"

fun joinScopes :: "scope list \<Rightarrow> string" where
  "joinScopes [] = []"
| "joinScopes (s # ss) = s @ concat (map (\<lambda>t. CHR '' '' # t) ss)"

definition GinRequireScope :: "scope list \<Rightarrow> request \<Rightarrow> reply \<times> string" where
  "GinRequireScope required rq =
     (if \<not> HasScope (ScopesFromContext (rq_scopes rq)) required
      then (Rejected 403 ''insufficient scope'',
            ''Bearer scope='' @ [quote_char] @ joinScopes required @ [quote_char])
      else (Forwarded rq, []))"

end
