(* ===== verification/AuthProps.thy ===== *)
theory AuthProps
  imports Auth
begin

text \<open>
  Scopes are parsed into a canonical form; the validation cache keeps its size and returns what
  was put; a revoked key stops working within the cache's time to live; and whatever the store,
  the middleware only forwards a request under the tenant its key names (\<open>key_store\<close>, the
  contract of the three stores).
\<close>

section \<open>Canonical scope lists\<close>

lemma str_le_refl [simp]: "str_le s s"
  by (induction s) auto

lemma str_le_total: "str_le s t \<or> str_le t s"
proof (induction s t rule: str_le.induct)
  case (3 c cs d ds)
  then show ?case
    by (metis linorder_less_linear of_char_eq_iff str_le.simps(3))
qed auto

lemma str_le_antisym: "str_le s t \<Longrightarrow> str_le t s \<Longrightarrow> s = t"
  by (induction s t rule: str_le.induct) (auto elim: str_le.elims)

lemma str_le_trans: "str_le s t \<Longrightarrow> str_le t u \<Longrightarrow> str_le s u"
proof (induction s t arbitrary: u rule: str_le.induct)
  case (3 c cs d ds)
  then show ?case by (cases u) auto
qed (auto elim: str_le.elims)

definition canonical :: "string list \<Rightarrow> bool" where
  "canonical xs \<longleftrightarrow> sorted_wrt str_le xs \<and> distinct xs"

lemma insert_str_set [simp]: "set (insert_str s xs) = insert s (set xs)"
  by (induction xs) auto

lemma insert_str_canonical: "canonical xs \<Longrightarrow> s \<notin> set xs \<Longrightarrow> canonical (insert_str s xs)"
  unfolding canonical_def
proof (induction xs)
  case (Cons x xs)
  then show ?case using str_le_total [of s x] by (auto intro: str_le_trans)
qed auto

lemma sort_strs_set [simp]: "set (sort_strs xs) = set xs"
  by (induction xs) (auto simp: sort_strs_def)

lemma sort_strs_canonical: "distinct xs \<Longrightarrow> canonical (sort_strs xs)"
proof (induction xs)
  case (Cons x xs)
  then have "x \<notin> set (sort_strs xs)" "canonical (sort_strs xs)" by simp_all
  then show ?case
    using insert_str_canonical [of "sort_strs xs" x] by (simp add: sort_strs_def)
qed (simp add: sort_strs_def canonical_def)

lemma dedup_set: "set (dedup seen xs) = set xs - set seen"
  by (induction seen xs rule: dedup.induct) auto

lemma dedup_distinct: "distinct (dedup seen xs)"
  by (induction seen xs rule: dedup.induct) (auto simp: dedup_set)

lemma dedupSort_canonical: "canonical (dedupSortScopes xs)"
  by (simp add: dedupSortScopes_def sort_strs_canonical dedup_distinct)

lemma dedupSort_set [simp]: "set (dedupSortScopes xs) = set xs"
  by (simp add: dedupSortScopes_def dedup_set)

lemma canonical_unique:
  "canonical xs \<Longrightarrow> canonical ys \<Longrightarrow> set xs = set ys \<Longrightarrow> xs = ys"
proof (induction xs arbitrary: ys)
  case (Cons x xs)
  then obtain y ys' where ys: "ys = y # ys'" by (cases ys) auto
  have "str_le x y" "str_le y x"
    using Cons.prems unfolding canonical_def ys
    by (metis list.set_intros(1) set_ConsD sorted_wrt.simps(2) str_le_refl)+
  then have "x = y" by (rule str_le_antisym)
  moreover have "set xs = set ys'"
    using Cons.prems \<open>x = y\<close> by (auto simp: canonical_def ys)
  ultimately show ?case
    using Cons.IH [of ys'] Cons.prems by (auto simp: canonical_def ys)
qed auto

lemma dedupSort_id: "canonical xs \<Longrightarrow> dedupSortScopes xs = xs"
  by (rule canonical_unique [OF dedupSort_canonical]) auto

lemma scope_fixed: "s \<in> set AllScopes \<Longrightarrow> trim_space s = s \<and> to_lower s = s"
proof -
  have "graph (hd s) \<and> graph (last s) \<and> s \<noteq> [] \<and> to_lower s = s" if "s \<in> set AllScopes" for s
    using that
    by (auto simp: AllScopes_def ScopeIngest_def ScopeQuery_def ScopeAlertRead_def
        ScopeAlertWrite_def ScopeTenantAdmin_def graph_def codes_def lower_char_def is_upper_def)
  then show "s \<in> set AllScopes \<Longrightarrow> trim_space s = s \<and> to_lower s = s"
    using trim_space_graph by auto
qed

lemma ParseScope_known: "ParseScope s = Some t \<Longrightarrow> t \<in> set AllScopes"
  by (auto simp: ParseScope_def Let_def split: if_splits)

lemma ParseScope_fixed: "s \<in> set AllScopes \<Longrightarrow> ParseScope s = Some s"
  by (simp add: ParseScope_def scope_fixed)

lemma ParseScopes_out:
  assumes "ParseScopes xs = Inr ys" "xs \<noteq> []"
  shows "set ys = {t. \<exists>x \<in> set xs. ParseScope x = Some t} \<and> (\<forall>x \<in> set xs. ParseScope x \<noteq> None)"
proof -
  let ?f = "\<lambda>s. case ParseScope s of None \<Rightarrow> Inl s | Some sc \<Rightarrow> Inr sc"
  obtain zs where zs: "mapE ?f xs = Inr zs" "ys = dedupSortScopes zs"
    using assms by (auto simp: ParseScopes_def bindE_eq_Inr)
  have f: "?f x = Inr z \<longleftrightarrow> ParseScope x = Some z" for x z by (auto split: option.splits)
  have "list_all2 (\<lambda>x z. ParseScope x = Some z) xs zs"
    using zs(1) by (simp add: mapE_Inr_iff f)
  then have "set zs = {t. \<exists>x \<in> set xs. ParseScope x = Some t} \<and> (\<forall>x \<in> set xs. ParseScope x \<noteq> None)"
    by (induction rule: list_all2_induct) auto
  then show ?thesis by (simp add: zs(2))
qed

lemma ParseScopes_known:
  assumes "canonical ys" "ys \<noteq> []" "set ys \<subseteq> set AllScopes"
  shows "ParseScopes ys = Inr ys"
proof -
  have "mapE (\<lambda>s. case ParseScope s of None \<Rightarrow> Inl s | Some sc \<Rightarrow> Inr sc) ys = Inr (map id ys)"
    by (rule mapE_total) (use assms(3) ParseScope_fixed in auto)
  then show ?thesis using assms by (simp add: ParseScopes_def dedupSort_id)
qed

text \<open>
  \<open>ParseScopes\<close> accepts a list exactly when every entry is a known scope up to case and
  surrounding space (the empty list means ingest), its result holds exactly those scopes, sorted
  and without repetition, and writing the result out and parsing it again gives it back.
\<close>

theorem parse_scopes_canonical:
  "(case ParseScopes xs of
      Inl s \<Rightarrow> s \<in> set xs \<and> ParseScope s = None
    | Inr ys \<Rightarrow> canonical ys \<and> ys \<noteq> [] \<and> set ys \<subseteq> set AllScopes \<and>
        set ys = (if xs = [] then {ScopeIngest} else {t. \<exists>x \<in> set xs. ParseScope x = Some t}) \<and>
        (\<forall>x \<in> set xs. ParseScope x \<noteq> None) \<and>
        ParseScopes (ScopesAsStrings ys) = Inr ys)"
proof (cases "ParseScopes xs")
  case (Inl s)
  have "mapE (\<lambda>s. case ParseScope s of None \<Rightarrow> Inl s | Some sc \<Rightarrow> Inr sc) xs = Inl s"
    using Inl by (auto simp: ParseScopes_def bindE_eq_Inl split: if_splits)
  then have "s \<in> set xs \<and> ParseScope s = None"
    by (induction xs) (auto simp: bindE_eq_Inl split: option.splits)
  with Inl show ?thesis by simp
next
  case (Inr ys)
  show ?thesis
  proof (cases "xs = []")
    case True
    with Inr have "ys = DefaultScopes" by (simp add: ParseScopes_def)
    moreover have "canonical DefaultScopes" "set DefaultScopes \<subseteq> set AllScopes"
      by (simp_all add: DefaultScopes_def AllScopes_def canonical_def)
    ultimately show ?thesis
      using Inr True ParseScopes_known [of ys]
      by (simp add: ScopesAsStrings_def DefaultScopes_def)
  next
    case False
    then obtain zs where "ys = dedupSortScopes zs"
      using Inr by (auto simp: ParseScopes_def bindE_eq_Inr)
    then have c: "canonical ys" by (simp add: dedupSort_canonical)
    note out = ParseScopes_out [OF Inr False]
    have ne: "ys \<noteq> []" using out False by (cases xs) auto
    have known: "set ys \<subseteq> set AllScopes" using out ParseScope_known by blast
    show ?thesis
      using Inr False c ne known out ParseScopes_known [OF c ne known]
      by (simp add: ScopesAsStrings_def)
  qed
qed

lemma parse_scopes_known_only:
  "s \<in> set xs \<Longrightarrow> ParseScope s = None \<Longrightarrow> \<exists>e. ParseScopes xs = Inl e"
  using ParseScopes_out [of xs] by (cases "ParseScopes xs") fastforce+

lemma metrics_unknown: "ParseScope ''metrics'' = None"
  by code_simp

lemma ParseScope_examples:
  "ParseScope '' Query'' = Some ScopeQuery" "ParseScope ''ingest'' = Some ScopeIngest"
  by code_simp+

theorem parse_scopes_canonical_witness:
  "\<exists>ys. ParseScopes ['' Query'', ''ingest''] = Inr ys \<and> canonical ys \<and>
     set ys = {ScopeQuery, ScopeIngest}"
  using parse_scopes_canonical [of "['' Query'', ''ingest'']"]
  by (cases "ParseScopes ['' Query'', ''ingest'']")
    (auto simp: ParseScope_examples [simplified])

section \<open>The validation cache\<close>

definition cache_ok :: "validationCache \<Rightarrow> bool" where
  "cache_ok c \<longleftrightarrow> distinct (map fst (vc_entries c)) \<and> int (length (vc_entries c)) \<le> vc_size c"

lemma delete_length: "length (AList.delete k es) \<le> length es"
  by (simp add: AList.delete_eq)

lemma delete_length_less: "k \<in> fst ` set es \<Longrightarrow> length (AList.delete k es) < length es"
  unfolding AList.delete_eq by (auto intro!: length_filter_less)

lemma evict_subset: "set (evict_loop ks n es) \<subseteq> set es"
  by (induction ks n es rule: evict_loop.induct) (auto simp: Let_def AList.delete_eq)

lemma evict_distinct: "distinct (map fst es) \<Longrightarrow> distinct (map fst (evict_loop ks n es))"
  by (induction ks n es rule: evict_loop.induct) (auto simp: Let_def distinct_delete)

lemma evict_length: "length (evict_loop ks n es) \<le> length es"
proof (induction ks n es rule: evict_loop.induct)
  case (2 k ks n es)
  then show ?case using delete_length [of k es] by (auto simp: Let_def)
qed simp

lemma evict_length_less:
  assumes "set ks = fst ` set es" "es \<noteq> []"
  shows "length (evict_loop ks n es) < length es"
proof -
  obtain k ks' where ks: "ks = k # ks'" using assms by (cases ks) auto
  then have "length (AList.delete k es) < length es"
    using assms(1) by (intro delete_length_less) auto
  then show ?thesis
    using evict_length [of ks' "n - 1" "AList.delete k es"] by (auto simp: ks Let_def)
qed

lemma update_length: "length (AList.update k v es) \<le> Suc (length es)"
  by (induction es) auto

text \<open>
  C10. Putting an entry into the validation cache keeps the keys distinct and the number of
  entries within the configured size, whatever the order in which the map is walked for
  eviction, and the entry is then found, with its tenant and scopes, at every instant up to the
  time to live and at none after it.
\<close>

theorem cache_put_get:
  assumes "cache_ok c" and "1 \<le> vc_size c" and "set order = fst ` set (vc_entries c)"
  shows "cache_ok (cache_put c order now d tid sc) \<and>
    (snd (cache_get (cache_put c order now d tid sc) t d) =
       (if t \<le> now + vc_ttl c
        then Some \<lparr>ce_tenant = tid, ce_scopes = sc, ce_expires = now + vc_ttl c\<rparr> else None))"
proof -
  define es where "es = (if vc_size c \<le> int (length (vc_entries c))
    then evict_loop order (vc_size c div 10) (vc_entries c) else vc_entries c)"
  define e where "e = \<lparr>ce_tenant = tid, ce_scopes = sc, ce_expires = now + vc_ttl c\<rparr>"
  have put: "cache_put c order now d tid sc = c\<lparr>vc_entries := AList.update d e es\<rparr>"
    by (simp add: cache_put_def es_def e_def)
  have "distinct (map fst es)"
    using assms(1) by (simp add: es_def cache_ok_def evict_distinct)
  moreover have "int (length es) < vc_size c"
  proof (cases "vc_size c \<le> int (length (vc_entries c))")
    case True
    then have "vc_entries c \<noteq> []" using assms(2) by auto
    then show ?thesis
      using evict_length_less [OF assms(3), of "vc_size c div 10"] assms(1) True
      by (simp add: es_def cache_ok_def)
  qed (simp add: es_def)
  ultimately have "cache_ok (c\<lparr>vc_entries := AList.update d e es\<rparr>)"
    using update_length [of d e es] by (simp add: cache_ok_def distinct_update)
  then show ?thesis
    by (simp add: put cache_get_def update_conv' e_def)
qed

theorem cache_put_get_witness:
  "let c = \<lparr>vc_size = 2, vc_ttl = 5,
            vc_entries = [(''a'', \<lparr>ce_tenant = ''t'', ce_scopes = [], ce_expires = 3\<rparr>),
                          (''b'', \<lparr>ce_tenant = ''u'', ce_scopes = [], ce_expires = 4\<rparr>)]\<rparr>
   in snd (cache_get (cache_put c [''b'', ''a''] 2 ''d'' ''v'' [ScopeQuery]) 7 ''d'')
      = Some \<lparr>ce_tenant = ''v'', ce_scopes = [ScopeQuery], ce_expires = 7\<rparr>"
  unfolding Let_def
  by (rule trans [OF conjunct2 [OF cache_put_get]]) (auto simp: cache_ok_def)

section \<open>Revocation\<close>

datatype pg_op =
    OpValidate "string list" bool int string
  | OpIssue "(string \<times> string \<times> string) option" bool int string "scope list" "int option"
  | OpRevoke bool int string string

fun op_time :: "pg_op \<Rightarrow> int" where
  "op_time (OpValidate order up t key) = t"
| "op_time (OpIssue rnd up t tid sc ex) = t"
| "op_time (OpRevoke up t tid kid) = t"

fun pg_step ::
  "(string \<Rightarrow> string) \<Rightarrow> (string \<Rightarrow> string \<Rightarrow> bool) \<Rightarrow> PostgresKeyStore \<Rightarrow> pg_op \<Rightarrow> PostgresKeyStore" where
  "pg_step b a st (OpValidate order up t key) = fst (pg_validate b a st order up t key)"
| "pg_step b a st (OpIssue rnd up t tid sc ex) = fst (IssueKeyWithScopes st rnd up t tid sc ex)"
| "pg_step b a st (OpRevoke up t tid kid) = fst (RevokeKey st up t tid kid)"

definition pg_run ::
  "(string \<Rightarrow> string) \<Rightarrow> (string \<Rightarrow> string \<Rightarrow> bool) \<Rightarrow> PostgresKeyStore \<Rightarrow> pg_op list \<Rightarrow> PostgresKeyStore" where
  "pg_run b a st ops = foldl (pg_step b a) st ops"

lemma pg_run_simps [simp]:
  "pg_run b a st [] = st" "pg_run b a st (ops @ [x]) = pg_step b a (pg_run b a st ops) x"
  by (simp_all add: pg_run_def)

lemma scheduleLastUsed_frame [simp]:
  "pg_rows (scheduleLastUsed st now kid) = pg_rows st"
  "pg_cache (scheduleLastUsed st now kid) = pg_cache st"
  by (simp_all add: scheduleLastUsed_def split: option.splits)

lemma cache_get_entries:
  "set (vc_entries (fst (cache_get c now d))) \<subseteq> set (vc_entries c)"
  "vc_ttl (fst (cache_get c now d)) = vc_ttl c"
  by (auto simp: cache_get_def AList.delete_eq split: option.splits)

lemma update_subset: "set (AList.update k v es) \<subseteq> insert (k, v) (set es)"
  by (induction es) auto

lemma cache_put_entries:
  "set (vc_entries (cache_put c order now d tid sc)) \<subseteq>
   insert (d, \<lparr>ce_tenant = tid, ce_scopes = sc, ce_expires = now + vc_ttl c\<rparr>) (set (vc_entries c))"
  "vc_ttl (cache_put c order now d tid sc) = vc_ttl c"
proof -
  define es where "es = (if vc_size c \<le> int (length (vc_entries c))
    then evict_loop order (vc_size c div 10) (vc_entries c) else vc_entries c)"
  have "set es \<subseteq> set (vc_entries c)" using evict_subset by (auto simp: es_def)
  then show "set (vc_entries (cache_put c order now d tid sc)) \<subseteq>
   insert (d, \<lparr>ce_tenant = tid, ce_scopes = sc, ce_expires = now + vc_ttl c\<rparr>) (set (vc_entries c))"
    using update_subset [of d _ es] by (force simp: cache_put_def simp flip: es_def)
  show "vc_ttl (cache_put c order now d tid sc) = vc_ttl c"
    by (simp add: cache_put_def)
qed

lemma pg_validate_frame:
  "pg_rows (fst (pg_validate b a st order up now key)) = pg_rows st"
  "vc_ttl (pg_cache (fst (pg_validate b a st order up now key))) = vc_ttl (pg_cache st)"
  using cache_get_entries(2) [of "pg_cache st" now "b key"]
  by (auto simp: pg_validate_def pg_commit_def Let_def cache_put_entries(2)
      split: option.splits prod.splits)

lemma pg_validate_entries:
  assumes "(d, e) \<in> set (vc_entries (pg_cache (fst (pg_validate b a st order up now key))))"
  shows "(d, e) \<in> set (vc_entries (pg_cache st)) \<or>
    d = b key \<and> ce_expires e = now + vc_ttl (pg_cache st) \<and>
    (\<exists>tid kid sec r. splitWireKey key = Some (tid, kid, sec) \<and>
       select_key (pg_rows st) now tid kid = Some r)"
proof -
  note get = cache_get_entries [of "pg_cache st" now "b key"]
  show ?thesis
    using assms get
    by (auto simp: pg_validate_def pg_commit_def pg_lookup_def Let_def
        split: option.splits prod.splits if_splits dest!: subsetD [OF cache_put_entries(1)])
qed


definition entries_before :: "int \<Rightarrow> PostgresKeyStore \<Rightarrow> bool" where
  "entries_before T st \<longleftrightarrow>
     (\<forall>(d, e) \<in> set (vc_entries (pg_cache st)). ce_expires e \<le> T + vc_ttl (pg_cache st))"

lemma IssueKey_frame:
  "pg_cache (fst (IssueKeyWithScopes st rnd up t tid sc ex)) = pg_cache st"
  "r \<in> set (pg_rows (fst (IssueKeyWithScopes st rnd up t tid sc ex))) \<Longrightarrow>
     r \<in> set (pg_rows st) \<or> kr_kid r \<notin> kr_kid ` set (pg_rows st)"
  "set (pg_rows st) \<subseteq> set (pg_rows (fst (IssueKeyWithScopes st rnd up t tid sc ex)))"
  by (auto simp: IssueKeyWithScopes_def Let_def split: option.splits if_splits)

lemma RevokeKey_frame:
  "pg_cache (fst (RevokeKey st up t tid kid)) = pg_cache st"
  "map kr_kid (pg_rows (fst (RevokeKey st up t tid kid))) = map kr_kid (pg_rows st)"
  "r \<in> set (pg_rows (fst (RevokeKey st up t tid kid))) \<Longrightarrow> kr_revoked r = None \<Longrightarrow>
     r \<in> set (pg_rows st)"
  by (auto simp: RevokeKey_def comp_def if_distrib split: if_splits)

lemma entries_before_step:
  assumes "entries_before T st" "op_time x \<le> T"
  shows "entries_before T (pg_step b a st x)"
proof (cases x)
  case (OpValidate order up t key)
  show ?thesis
    unfolding entries_before_def
  proof (clarify)
    fix d e
    assume "(d, e) \<in> set (vc_entries (pg_cache (pg_step b a st x)))"
    then have "(d, e) \<in> set (vc_entries (pg_cache st)) \<or> ce_expires e = t + vc_ttl (pg_cache st)"
      using pg_validate_entries OpValidate by fastforce
    then show "ce_expires e \<le> T + vc_ttl (pg_cache (pg_step b a st x))"
      using assms OpValidate by (auto simp: entries_before_def pg_validate_frame)
  qed
qed (use assms in \<open>auto simp: entries_before_def IssueKey_frame RevokeKey_frame\<close>)

lemma step_ttl: "vc_ttl (pg_cache (pg_step b a st x)) = vc_ttl (pg_cache st)"
  by (cases x) (auto simp: pg_validate_frame IssueKey_frame RevokeKey_frame)

lemma run_ttl: "vc_ttl (pg_cache (pg_run b a st ops)) = vc_ttl (pg_cache st)"
  by (induction ops rule: rev_induct) (simp_all add: step_ttl)

lemma entries_before_run:
  "entries_before T st \<Longrightarrow> \<forall>x \<in> set ops. op_time x \<le> T \<Longrightarrow> entries_before T (pg_run b a st ops)"
  by (induction ops rule: rev_induct) (auto intro: entries_before_step)

text \<open>What holds from the revocation on, for the key id \<open>kid\<close> and one wire key with its digest
  \<open>d\<close>: no live row, and a cache entry that expires in time.\<close>

definition revoked_at :: "int \<Rightarrow> string \<Rightarrow> string \<Rightarrow> string \<Rightarrow> PostgresKeyStore \<Rightarrow> bool" where
  "revoked_at T d tid kid st \<longleftrightarrow>
     (\<forall>r \<in> set (pg_rows st). kr_tenant r = tid \<longrightarrow> kr_kid r = kid \<longrightarrow> kr_revoked r \<noteq> None) \<and>
     kid \<in> kr_kid ` set (pg_rows st) \<and>
     (\<forall>e. (d, e) \<in> set (vc_entries (pg_cache st)) \<longrightarrow> ce_expires e \<le> T + vc_ttl (pg_cache st))"

lemma select_revoked:
  "revoked_at T d tid kid st \<Longrightarrow> select_key (pg_rows st) now tid kid = None"
  by (auto simp: select_key_def find_None_iff revoked_at_def)

lemma revoked_at_start:
  assumes "entries_before T st" "RevokeKey st up t tid kid = (st', None)"
  shows "revoked_at T d tid kid st'"
proof -
  have up: "up" and ex: "list_ex (matches_active tid kid) (pg_rows st)"
    and st': "st' = st\<lparr>pg_rows := map (\<lambda>r. if matches_active tid kid r
                then r\<lparr>kr_revoked := Some t\<rparr> else r) (pg_rows st)\<rparr>"
    using assms(2) by (auto simp: RevokeKey_def split: if_splits)
  obtain r where "r \<in> set (pg_rows st)" "kr_kid r = kid"
    using ex by (auto simp: list_ex_iff matches_active_def)
  then have "kid \<in> kr_kid ` set (pg_rows st')"
    using arg_cong [OF RevokeKey_frame(2) [of st up t tid kid], of set] assms(2)
    by (simp only: list.set_map fst_conv) (metis image_eqI)
  moreover have "\<forall>r \<in> set (pg_rows st'). kr_tenant r = tid \<longrightarrow> kr_kid r = kid \<longrightarrow> kr_revoked r \<noteq> None"
  proof (intro ballI impI notI)
    fix r assume r: "r \<in> set (pg_rows st')" "kr_tenant r = tid" "kr_kid r = kid" "kr_revoked r = None"
    obtain q where q: "q \<in> set (pg_rows st)"
      "r = (if matches_active tid kid q then q\<lparr>kr_revoked := Some t\<rparr> else q)"
      using r(1) by (auto simp: st')
    show False
    proof (cases "matches_active tid kid q")
      case True
      then show False using q(2) r(4) by simp
    next
      case False
      then have "r = q" using q(2) by simp
      then show False using False r(2-4) by (simp add: matches_active_def)
    qed
  qed
  ultimately show ?thesis
    using assms(1) by (simp add: revoked_at_def entries_before_def st') blast
qed

lemma revoked_at_step:
  assumes inj: "inj b" and d: "d = b key" and split: "splitWireKey key = Some (tid, kid, sec)"
    and r: "revoked_at T d tid kid st"
  shows "revoked_at T d tid kid (pg_step b a st x)"
proof (cases x)
  case (OpValidate order up t k)
  have "ce_expires e \<le> T + vc_ttl (pg_cache st)"
    if e: "(d, e) \<in> set (vc_entries (pg_cache (fst (pg_validate b a st order up t k))))" for e
  proof -
    have "(d, e) \<in> set (vc_entries (pg_cache st))"
      using pg_validate_entries [OF e] split select_revoked [OF r] inj
      by (auto simp: d inj_eq)
    then show ?thesis using r by (auto simp: revoked_at_def)
  qed
  then show ?thesis
    using r by (auto simp: revoked_at_def OpValidate pg_validate_frame)
next
  case (OpIssue rnd up t u sc ex)
  have "kr_revoked r' \<noteq> None"
    if "r' \<in> set (pg_rows (fst (IssueKeyWithScopes st rnd up t u sc ex)))"
      "kr_tenant r' = tid" "kr_kid r' = kid" for r'
    using IssueKey_frame(2) [OF that(1)] that(2,3) r by (auto simp: revoked_at_def)
  moreover have "kid \<in> kr_kid ` set (pg_rows (fst (IssueKeyWithScopes st rnd up t u sc ex)))"
    using IssueKey_frame(3) [of st rnd up t u sc ex] r by (auto simp: revoked_at_def)
  ultimately show ?thesis
    using r by (auto simp: revoked_at_def OpIssue IssueKey_frame)
next
  case (OpRevoke up t u v)
  have "kid \<in> kr_kid ` set (pg_rows (fst (RevokeKey st up t u v)))"
    using r arg_cong [OF RevokeKey_frame(2) [of st up t u v], of set]
    by (auto simp: revoked_at_def)
  moreover have "kr_revoked r' \<noteq> None"
    if "r' \<in> set (pg_rows (fst (RevokeKey st up t u v)))" "kr_tenant r' = tid" "kr_kid r' = kid" for r'
    using RevokeKey_frame(3) [OF that(1)] that(2,3) r by (auto simp: revoked_at_def)
  ultimately show ?thesis
    using r by (simp add: revoked_at_def OpRevoke RevokeKey_frame(1))
qed

lemma revoked_at_run:
  assumes "inj b" "d = b key" "splitWireKey key = Some (tid, kid, sec)" "revoked_at T d tid kid st"
  shows "revoked_at T d tid kid (pg_run b a st ops)"
  using assms(4) by (induction ops rule: rev_induct) (auto intro: revoked_at_step [OF assms(1-3)])

lemma revoked_rejects:
  assumes "splitWireKey key = Some (tid, kid, sec)" "revoked_at T (b key) tid kid st"
    and "T + vc_ttl (pg_cache st) < now"
  shows "snd (pg_validate b a st order up now key) = None"
proof -
  have miss: "snd (cache_get (pg_cache st) now (b key)) = None"
    using assms(2,3) by (fastforce simp: cache_get_def revoked_at_def dest: map_of_SomeD
        split: option.splits)
  obtain c where "cache_get (pg_cache st) now (b key) = (c, None)"
    using miss by (cases "cache_get (pg_cache st) now (b key)") auto
  then show ?thesis
    using assms(1) select_revoked [OF assms(2)] by (simp add: pg_validate_def pg_lookup_def Let_def)
qed


definition demo_row :: key_row where
  "demo_row = \<lparr>kr_kid = ''k1'', kr_tenant = ''acme'', kr_hash = ''s'', kr_prefix = ''acme:k1:'',
     kr_scopes = [''query''], kr_created = 0, kr_expires = None, kr_revoked = None\<rparr>"

definition demo_opts :: PostgresOptions where
  "demo_opts = \<lparr>po_CacheSize = 2, po_CacheTTL = 5, po_LastUsedDebounce = 1\<rparr>"


text \<open>Between the query and the store into the cache the revocation can slip in: the entry is then
  made after it and outlives the bound.\<close>

lemma revocation_race:
  "let st = NewPostgresKeyStore [demo_row] demo_opts;
       md = the (pg_lookup (=) st True 3 ''acme'' ''k1'' ''s'');
       st' = fst (RevokeKey st True 4 ''acme'' ''k1'');
       st'' = pg_commit st' [] 8 (id ''acme:k1:s'') ''k1'' md
   in snd (pg_validate id (=) st'' [] True 12 ''acme:k1:s'') \<noteq> None"
  by code_simp


section \<open>The middlewares\<close>

text \<open>The contract of a key store towards the middleware: an accepted key starts with the tenant it
  is accepted for, up to the first colon.\<close>

definition names_tenant :: "string \<Rightarrow> string \<Rightarrow> bool" where
  "names_tenant key tid \<longleftrightarrow> (\<exists>rest. key = tid @ colon # rest) \<and> colon \<notin> set tid"

locale key_store =
  fixes answer :: "string \<Rightarrow> store_answer"
  assumes aware_names: "answer key = Aware (Some m) \<Longrightarrow> names_tenant key (md_tenant m)"
    and plain_names: "answer key = Plain (Some t) \<Longrightarrow> names_tenant key t"
begin

lemma forwarded_names:
  assumes "AuthMiddleware answer rq = Forwarded rq'"
  shows "\<exists>key. rq_authorization rq = ''Bearer '' @ key \<and> names_tenant key (rq_tenant_header rq') \<and>
    rq_authorization rq' = rq_authorization rq"
proof -
  define key where "key = drop (length ''Bearer '') (rq_authorization rq)"
  have "has_prefix (rq_authorization rq) ''Bearer ''"
    using assms by (auto simp: AuthMiddleware_def split: if_splits)
  then have "rq_authorization rq = ''Bearer '' @ key"
    unfolding has_prefix_def key_def by (metis append_take_drop_id)
  moreover have "names_tenant key (rq_tenant_header rq') \<and> rq_authorization rq' = rq_authorization rq"
    using assms aware_names [of key] plain_names [of key]
    by (auto simp: AuthMiddleware_def Let_def 
        simp del: list.size simp flip: key_def
        split: if_splits option.splits store_answer.splits)
  ultimately show ?thesis by blast
qed

lemma rejected_otherwise:
  "AuthMiddleware answer rq = Rejected code msg \<Longrightarrow> code = 401 \<or> code = 403"
  by (auto simp: AuthMiddleware_def Let_def split: if_splits option.splits store_answer.splits)

end

lemma split_byte2_names:
  assumes "split_byte2 colon key = [a, d]" shows "names_tenant key a"
proof -
  have "colon \<in> set key" using assms split_byte2_length [of colon key] by simp
  then obtain u v where key: "key = u @ colon # v" "colon \<notin> set u"
    by (meson split_list_first)
  then have "a = u" using assms split_byte2_append [of colon u v] by simp
  then show ?thesis using key by (auto simp: names_tenant_def)
qed

lemma splitWireKey_names:
  assumes "splitWireKey key = Some (a, b, c)" shows "names_tenant key a"
proof -
  have s: "split_byte colon key = [a, b, c]"
    using assms by (auto simp: splitWireKey_def split: list.splits if_splits)
  have "key = a @ colon # b @ colon # c"
    using join_split_byte [of colon key] by (simp add: s)
  moreover have "colon \<notin> set a" using split_byte_no_sep [of a colon key] s by simp
  ultimately show ?thesis by (auto simp: names_tenant_def)
qed

lemma pg_validate_tenant:
  "snd (pg_validate b a st order up now key) = Some m \<Longrightarrow> names_tenant key (md_tenant m)"
  using splitWireKey_names
  by (fastforce simp: pg_validate_def pg_lookup_def Let_def
      split: option.splits prod.splits if_splits)

interpretation sl: key_store "\<lambda>key. Aware (stateless_validate blake3 secret key)" for blake3 secret
  by unfold_locales
    (auto simp: stateless_validate_def split: list.splits if_splits intro: split_byte2_names)

interpretation mem: key_store "\<lambda>key. Aware (memory_validate st key)" for st
  by unfold_locales
    (auto simp: memory_validate_def split: list.splits if_splits option.splits
      intro: split_byte2_names)

interpretation pg: key_store "\<lambda>key. Aware (snd (pg_validate b a st order up now key))"
  for b a st order up now
  by unfold_locales (auto intro: pg_validate_tenant)

text \<open>
  C17. With any of the three key stores, in any state, the authentication middleware forwards a
  request only when its header is \<open>Bearer\<close> and a key, and only under the tenant that the key
  itself names before its first colon: no key, and no stale cache entry, makes a request run as
  another tenant.
\<close>

theorem middleware_names_tenant:
  assumes "answer \<in> {\<lambda>key. Aware (stateless_validate blake3 secret key),
                     \<lambda>key. Aware (memory_validate mst key),
                     \<lambda>key. Aware (snd (pg_validate blake3 argon pst order up now key))}"
    and "AuthMiddleware answer rq = Forwarded rq'"
  shows "\<exists>key. rq_authorization rq = ''Bearer '' @ key \<and> names_tenant key (rq_tenant_header rq') \<and>
    rq_authorization rq' = rq_authorization rq"
  using assms sl.forwarded_names mem.forwarded_names pg.forwarded_names by blast

theorem middleware_names_tenant_witness:
  "\<exists>key. ''Bearer acme:k1:s'' = ''Bearer '' @ key \<and> names_tenant key ''acme''"
proof -
  let ?st = "NewPostgresKeyStore [demo_row] demo_opts"
  let ?rq = "\<lparr>rq_authorization = ''Bearer acme:k1:s'', rq_tenant_header = [], rq_scopes = None\<rparr>"
  have "AuthMiddleware (\<lambda>key. Aware (snd (pg_validate id (=) ?st [] True 3 key))) ?rq =
      Forwarded (?rq\<lparr>rq_tenant_header := ''acme'', rq_scopes := Some [''query'']\<rparr>)"
    by code_simp
  from middleware_names_tenant [OF _ this, of id "[]" Map.empty "(=)" ?st "[]" True 3]
  show ?thesis by simp
qed

text \<open>
  A key row with a scope the code does not know loses all its scopes, and what the middleware
  then grants is exactly the default: the key passes a scope check if and only if nothing but
  \<open>ingest\<close> is required, whatever the row allowed. A key issued for queries only can ingest, and
  can no longer query.
\<close>

theorem unknown_scope_becomes_ingest:
  assumes "s \<in> set (kr_scopes r)" and "ParseScope s = None"
  shows "(fst (RequireScope required (rq\<lparr>rq_scopes := Some (row_scopes r)\<rparr>)) =
            Rejected 403 ''insufficient scope'') = (\<not> set required \<subseteq> {ScopeIngest}) \<and>
         fst (GinRequireScope required (rq\<lparr>rq_scopes := Some (row_scopes r)\<rparr>)) =
           fst (RequireScope required (rq\<lparr>rq_scopes := Some (row_scopes r)\<rparr>))"
proof -
  have "\<exists>e. ParseScopes (kr_scopes r) = Inl e"
    using parse_scopes_known_only [OF assms] .
  then have "row_scopes r = []" by (auto simp: row_scopes_def)
  then show ?thesis
    by (auto simp: RequireScope_def GinRequireScope_def HasScope_def ScopesFromContext_def
        DefaultScopes_def list_all_iff)
qed

theorem unknown_scope_becomes_ingest_witness:
  "fst (RequireScope [ScopeIngest] (\<lparr>rq_authorization = [], rq_tenant_header = ''acme'',
      rq_scopes = Some (row_scopes (demo_row\<lparr>kr_scopes := [''query'', ''metrics'']\<rparr>))\<rparr>))
   \<noteq> Rejected 403 ''insufficient scope''"
  using unknown_scope_becomes_ingest [of "''metrics''"
      "demo_row\<lparr>kr_scopes := [''query'', ''metrics'']\<rparr>" "[ScopeIngest]"
      "\<lparr>rq_authorization = [], rq_tenant_header = ''acme'', rq_scopes = None\<rparr>"]
  by (simp add: metrics_unknown)

text \<open>The in-memory store: adding the same raw key for another tenant replaces the first entry, and
  revoking needs only the digest part of a key.\<close>

lemma memory_add_replaces:
  "colon \<notin> set t \<Longrightarrow> colon \<notin> set u \<Longrightarrow> t \<noteq> u \<Longrightarrow>
   (let (st1, k1) = AddWithScopes b st t raw sc; (st2, k2) = AddWithScopes b st1 u raw sc'
    in memory_validate st2 k1 = None \<and>
       memory_validate st2 k2 = Some \<lparr>md_tenant = u, md_scopes = sc'\<rparr>)"
  by (simp add: AddWithScopes_def Let_def memory_validate_def split_byte2_append flip: colon_def)

lemma memory_revoke_any_tenant:
  "colon \<notin> set t \<Longrightarrow> colon \<notin> set u \<Longrightarrow>
   (let (st', k) = AddWithScopes b st t raw sc in memory_validate (Revoke st' (u @ colon # b raw)) k = None)"
  by (simp add: AddWithScopes_def Let_def memory_validate_def Revoke_def split_byte2_append
      flip: colon_def)

end
