(* ===== verification/Actor.thy ===== *)
theory Actor
  imports Cep
begin

text \<open>
  The per-tenant actor (\<open>pkg/actor/actor.go\<close>): its options and defaults, the mailbox (a bounded
  channel that can be closed), starting, stopping, and the processing of one signal. The
  goroutine of \<open>Start\<close> is the step \<open>actor_recv\<close> (the receive branch of its \<open>select\<close>) and the step
  \<open>actor_done\<close> (the branch of the cancelled context); \<open>actor_done\<close> and a closed, drained mailbox
  end it. Events given to the sink are appended to \<open>ta_published\<close>.
\<close>

record actor_options =
  ao_errorEPS :: f64
  ao_latencyMS :: f64
  ao_window :: int
  ao_sink :: bool

definition actor_defaults :: "actor_options \<Rightarrow> actor_options" where
  "actor_defaults p =
     p\<lparr>ao_errorEPS := (if fle (ao_errorEPS p) (Fin 0) then flit 1 else ao_errorEPS p),
       ao_latencyMS := (if fle (ao_latencyMS p) (Fin 0) then flit 1000 else ao_latencyMS p),
       ao_window := (if ao_window p \<le> 0 then 5 * minute else ao_window p)\<rparr>"

record tenant_actor =
  ta_tenant :: string
  ta_cap :: nat
  ta_inbox :: "signal list"
  ta_closed :: bool
  ta_engine :: engine
  ta_opts :: actor_options
  ta_stopped :: bool
  ta_running :: bool
  ta_loop :: bool
  ta_processed :: int
  ta_dropped :: int
  ta_lastSignalType :: "signal_type option"
  ta_lastEventType :: "event_type option"
  ta_lastSignalAt :: nat
  ta_lastEventAt :: nat
  ta_published :: "event list"

definition NewTenantActorWithOptions :: "string \<Rightarrow> nat \<Rightarrow> actor_options \<Rightarrow> tenant_actor" where
  "NewTenantActorWithOptions tid bufsz p =
     \<lparr>ta_tenant = tid, ta_cap = bufsz, ta_inbox = [], ta_closed = False, ta_engine = NewEngine,
      ta_opts = actor_defaults p, ta_stopped = False, ta_running = False, ta_loop = False,
      ta_processed = 0, ta_dropped = 0, ta_lastSignalType = None, ta_lastEventType = None,
      ta_lastSignalAt = 0, ta_lastEventAt = 0, ta_published = []\<rparr>"

definition actor_start :: "tenant_actor \<Rightarrow> tenant_actor" where
  "actor_start a =
     (if ta_running a then a
      else a\<lparr>ta_running := True, ta_loop := True,
             ta_engine := AddRule (AddRule (ta_engine a)
               (RError (NewHighErrorRateRule (ta_tenant a) (ao_window (ta_opts a)) (ao_errorEPS (ta_opts a)))))
               (RLatency (NewHighLatencyRule (ta_tenant a) (ao_window (ta_opts a)) (ao_latencyMS (ta_opts a))))\<rparr>)"

definition actor_stop :: "tenant_actor \<Rightarrow> tenant_actor" where
  "actor_stop a =
     (if ta_stopped a then a else a\<lparr>ta_stopped := True, ta_running := False, ta_closed := True\<rparr>)"

definition IsRunning :: "tenant_actor \<Rightarrow> bool" where
  "IsRunning a = ta_running a"

text \<open>The sink of the defaults drops the event.\<close>

definition processSignal :: "tenant_actor \<Rightarrow> nat \<Rightarrow> (nat \<Rightarrow> nat) \<Rightarrow> signal \<Rightarrow> tenant_actor" where
  "processSignal a now clock sg =
     (let a1 = a\<lparr>ta_processed := wrap64 (ta_processed a + 1), ta_lastSignalType := Some (sig_type sg),
                 ta_lastSignalAt := now\<rparr>;
          (eng, e) = Process (ta_engine a1) clock sg;
          a2 = a1\<lparr>ta_engine := eng\<rparr>
      in case e of
           None \<Rightarrow> a2
         | Some v \<Rightarrow> a2\<lparr>ta_lastEventType := Some (ev_type v), ta_lastEventAt := ev_time v,
                        ta_published := (if ao_sink (ta_opts a2) then ta_published a2 @ [v]
                                         else ta_published a2)\<rparr>)"

definition actor_recv :: "tenant_actor \<Rightarrow> nat \<Rightarrow> (nat \<Rightarrow> nat) \<Rightarrow> tenant_actor" where
  "actor_recv a now clock =
     (if \<not> ta_loop a then a
      else case ta_inbox a of
        sg # rest \<Rightarrow> processSignal (a\<lparr>ta_inbox := rest\<rparr>) now clock sg
      | [] \<Rightarrow> if ta_closed a then a\<lparr>ta_loop := False\<rparr> else a)"

definition actor_done :: "tenant_actor \<Rightarrow> tenant_actor" where
  "actor_done a = a\<lparr>ta_loop := False\<rparr>"

text \<open>The non-blocking send of the router's \<open>select\<close>: sending on a closed channel panics, a full one
  takes the default branch.\<close>

datatype send_result = Sent tenant_actor | MailboxFull | SendPanic

definition try_send :: "tenant_actor \<Rightarrow> signal \<Rightarrow> send_result" where
  "try_send a sg =
     (if ta_closed a then SendPanic
      else if length (ta_inbox a) < ta_cap a then Sent (a\<lparr>ta_inbox := ta_inbox a @ [sg]\<rparr>)
      else MailboxFull)"

record actor_stats =
  as_processed :: int
  as_dropped :: int
  as_lastSignalType :: "signal_type option"
  as_lastEventType :: "event_type option"
  as_lastSignalAt :: nat
  as_lastEventAt :: nat
  as_running :: bool

definition actor_Stats :: "tenant_actor \<Rightarrow> actor_stats" where
  "actor_Stats a =
     \<lparr>as_processed = ta_processed a, as_dropped = ta_dropped a,
      as_lastSignalType = ta_lastSignalType a, as_lastEventType = ta_lastEventType a,
      as_lastSignalAt = ta_lastSignalAt a, as_lastEventAt = ta_lastEventAt a,
      as_running = ta_running a\<rparr>"

section \<open>Frame facts\<close>

lemma new_actor [simp]:
  "ta_tenant (NewTenantActorWithOptions tid bufsz p) = tid"
  "ta_cap (NewTenantActorWithOptions tid bufsz p) = bufsz"
  "ta_inbox (NewTenantActorWithOptions tid bufsz p) = []"
  "ta_closed (NewTenantActorWithOptions tid bufsz p) = False"
  "ta_processed (NewTenantActorWithOptions tid bufsz p) = 0"
  by (simp_all add: NewTenantActorWithOptions_def)

lemma actor_start_frame [simp]:
  "ta_tenant (actor_start a) = ta_tenant a" "ta_cap (actor_start a) = ta_cap a"
  "ta_inbox (actor_start a) = ta_inbox a" "ta_closed (actor_start a) = ta_closed a"
  "ta_processed (actor_start a) = ta_processed a" "ta_running (actor_start a)"
  by (simp_all add: actor_start_def)

lemma actor_stop_frame [simp]:
  "ta_tenant (actor_stop a) = ta_tenant a" "ta_cap (actor_stop a) = ta_cap a"
  "ta_inbox (actor_stop a) = ta_inbox a" "ta_processed (actor_stop a) = ta_processed a"
  by (simp_all add: actor_stop_def)

lemma processSignal_frame [simp]:
  "ta_tenant (processSignal a now clock sg) = ta_tenant a"
  "ta_cap (processSignal a now clock sg) = ta_cap a"
  "ta_inbox (processSignal a now clock sg) = ta_inbox a"
  "ta_closed (processSignal a now clock sg) = ta_closed a"
  "ta_running (processSignal a now clock sg) = ta_running a"
  "ta_processed (processSignal a now clock sg) = wrap64 (ta_processed a + 1)"
  by (simp_all add: processSignal_def Let_def split: prod.split option.split)

lemma actor_recv_frame [simp]:
  "ta_tenant (actor_recv a now clock) = ta_tenant a" "ta_cap (actor_recv a now clock) = ta_cap a"
  "ta_closed (actor_recv a now clock) = ta_closed a"
  "ta_running (actor_recv a now clock) = ta_running a"
  by (simp_all add: actor_recv_def split: list.split)

lemma actor_done_frame [simp]:
  "ta_tenant (actor_done a) = ta_tenant a" "ta_cap (actor_done a) = ta_cap a"
  "ta_inbox (actor_done a) = ta_inbox a" "ta_closed (actor_done a) = ta_closed a"
  "ta_processed (actor_done a) = ta_processed a" "ta_running (actor_done a) = ta_running a"
  by (simp_all add: actor_done_def)

end
