(* ===== verification/Supervisor.thy ===== *)
theory Supervisor
  imports Actor
begin

text \<open>
  The supervisor of the tenant actors (\<open>pkg/supervisor/supervisor.go\<close>). The code keeps pointers:
  the map from tenants to managed actors, and in each a pointer to the current actor. The model
  has two stores, \<open>su_mans\<close> and \<open>su_acts\<close>, whose indexes are the pointers. Routing is two steps,
  because only the lookup is under the lock: \<open>getOrCreate\<close>, then the send. A sweep leaves
  restarts pending (its goroutines), each of which runs \<open>restartActor\<close> later. The spillover's
  answer to a push is an input.
\<close>

record sup_options =
  so_MailboxSize :: int
  so_MaxRestarts :: int
  so_RestartWindow :: int
  so_BackoffMin :: int
  so_BackoffMax :: int
  so_HealthInterval :: int
  so_ActorOptions :: actor_options
  so_Spillover :: bool

definition sup_defaults :: "sup_options \<Rightarrow> sup_options" where
  "sup_defaults p =
     p\<lparr>so_MailboxSize := (if so_MailboxSize p \<le> 0 then 4096 else so_MailboxSize p),
       so_MaxRestarts := (if so_MaxRestarts p \<le> 0 then 5 else so_MaxRestarts p),
       so_RestartWindow := (if so_RestartWindow p \<le> 0 then minute else so_RestartWindow p),
       so_BackoffMin := (if so_BackoffMin p \<le> 0 then 250 * millisecond else so_BackoffMin p),
       so_BackoffMax := (if so_BackoffMax p \<le> 0 then 30 * second else so_BackoffMax p),
       so_HealthInterval := (if so_HealthInterval p \<le> 0 then 5 * second else so_HealthInterval p)\<rparr>"

record managedActor =
  ma_tenant :: string
  ma_actor :: nat
  ma_restarts :: "int list"
  ma_backoffNext :: int
  ma_quarantined :: bool

record supervisor =
  su_opts :: sup_options
  su_actors :: "(string \<times> nat) list"
  su_mans :: "managedActor list"
  su_acts :: "tenant_actor list"
  su_cancelled :: bool
  su_stopped :: bool
  su_started :: bool
  su_totalRouted :: int
  su_totalDropped :: int
  su_totalSpilled :: int
  su_totalRestarts :: int
  su_lastHealthAt :: int
  su_pending :: "(nat \<times> int) list"
  su_crashes :: "string list"

definition NewSupervisorWithOptions :: "sup_options \<Rightarrow> supervisor" where
  "NewSupervisorWithOptions p =
     \<lparr>su_opts = sup_defaults p, su_actors = [], su_mans = [], su_acts = [], su_cancelled = False,
      su_stopped = False, su_started = False, su_totalRouted = 0, su_totalDropped = 0,
      su_totalSpilled = 0, su_totalRestarts = 0, su_lastHealthAt = 0, su_pending = [],
      su_crashes = []\<rparr>"

definition sup_Start :: "supervisor \<Rightarrow> supervisor" where
  "sup_Start s = s\<lparr>su_started := True\<rparr>"

text \<open>\<open>Stop\<close>: the root context is cancelled and every actor of the map stopped, once.\<close>

definition stop_acts :: "supervisor \<Rightarrow> (string \<times> nat) list \<Rightarrow> tenant_actor list \<Rightarrow> tenant_actor list" where
  "stop_acts s ents acts =
     foldl (\<lambda>as (t, m). as[ma_actor (su_mans s ! m) := actor_stop (as ! ma_actor (su_mans s ! m))])
       acts ents"

definition sup_Stop :: "supervisor \<Rightarrow> supervisor" where
  "sup_Stop s =
     (if su_stopped s then s
      else s\<lparr>su_stopped := True, su_cancelled := True,
             su_acts := stop_acts s (su_actors s) (su_acts s), su_actors := []\<rparr>)"

section \<open>Routing\<close>

definition new_actor_of :: "supervisor \<Rightarrow> string \<Rightarrow> tenant_actor" where
  "new_actor_of s tid =
     actor_start (NewTenantActorWithOptions tid (nat (so_MailboxSize (su_opts s))) (so_ActorOptions (su_opts s)))"

text \<open>The actor's \<open>Start\<close> never returns an error, so the code's check of it is never taken.\<close>

definition getOrCreate :: "supervisor \<Rightarrow> string \<Rightarrow> supervisor \<times> nat option" where
  "getOrCreate s tid =
     (case map_of (su_actors s) tid of
        Some m \<Rightarrow> if ma_quarantined (su_mans s ! m) then (s, None) else (s, Some m)
      | None \<Rightarrow>
          (s\<lparr>su_acts := su_acts s @ [new_actor_of s tid],
             su_mans := su_mans s @
               [\<lparr>ma_tenant = tid, ma_actor = length (su_acts s), ma_restarts = [],
                 ma_backoffNext = so_BackoffMin (su_opts s), ma_quarantined = False\<rparr>],
             su_actors := su_actors s @ [(tid, length (su_mans s))]\<rparr>,
           Some (length (su_mans s))))"

text \<open>The rest of \<open>RouteToTenant\<close>, with the pointer it got; \<open>None\<close> is the panic of a send on a
  closed channel. \<open>spilled\<close> is the spillover's answer (true: no error).\<close>

definition route_send :: "supervisor \<Rightarrow> nat option \<Rightarrow> signal \<Rightarrow> bool \<Rightarrow> supervisor option" where
  "route_send s ptr sg spilled =
     (case ptr of
        None \<Rightarrow> Some (s\<lparr>su_totalDropped := wrap64 (su_totalDropped s + 1)\<rparr>)
      | Some m \<Rightarrow>
          (case try_send (su_acts s ! ma_actor (su_mans s ! m)) sg of
             SendPanic \<Rightarrow> None
           | Sent a \<Rightarrow> Some (s\<lparr>su_acts := (su_acts s)[ma_actor (su_mans s ! m) := a],
                              su_totalRouted := wrap64 (su_totalRouted s + 1)\<rparr>)
           | MailboxFull \<Rightarrow>
               if so_Spillover (su_opts s) \<and> spilled
               then Some (s\<lparr>su_totalSpilled := wrap64 (su_totalSpilled s + 1)\<rparr>)
               else Some (s\<lparr>su_totalDropped := wrap64 (su_totalDropped s + 1)\<rparr>)))"

definition RouteToTenant :: "supervisor \<Rightarrow> string \<Rightarrow> signal \<Rightarrow> bool \<Rightarrow> supervisor option" where
  "RouteToTenant s tid sg spilled =
     (let (s', ptr) = getOrCreate s tid in route_send s' ptr sg spilled)"

definition SetActorOptions :: "supervisor \<Rightarrow> actor_options \<Rightarrow> supervisor" where
  "SetActorOptions s p = s\<lparr>su_opts := (su_opts s)\<lparr>so_ActorOptions := p\<rparr>\<rparr>"

section \<open>Supervision\<close>

fun trimBefore :: "int list \<Rightarrow> int \<Rightarrow> int list" where
  "trimBefore [] cutoff = []"
| "trimBefore (t # ts) cutoff = (if t < cutoff then trimBefore ts cutoff else t # ts)"

text \<open>\<open>rnd\<close> is the value of \<open>rand.Float64()\<close>.\<close>

definition nextBackoff :: "f64 \<Rightarrow> int \<Rightarrow> int \<Rightarrow> int" where
  "nextBackoff rnd cur mx =
     (let next = wrap64 (cur * 2);
          jitter = to_int64 (fmul (of_int64 next) (fsub (fmul rnd (flit (4 / 10))) (flit (2 / 10))));
          next = wrap64 (next + jitter);
          next = (if next > mx then mx else next)
      in if next < 0 then cur else next)"

text \<open>One iteration of the loop in \<open>sweep\<close>, for the managed actor \<open>m\<close>.\<close>

definition sweep_one :: "f64 \<Rightarrow> int \<Rightarrow> supervisor \<Rightarrow> nat \<Rightarrow> supervisor" where
  "sweep_one rnd now s m =
     (let ma = su_mans s ! m; cutoff = now - so_RestartWindow (su_opts s)
      in if ma_quarantined ma then s
         else if IsRunning (su_acts s ! ma_actor ma) then
           s\<lparr>su_mans := (su_mans s)[m := ma\<lparr>ma_restarts := trimBefore (ma_restarts ma) cutoff\<rparr>]\<rparr>
         else
           let hist = trimBefore (ma_restarts ma) cutoff @ [now];
               s1 = s\<lparr>su_totalRestarts := wrap64 (su_totalRestarts s + 1)\<rparr>
           in if int (length hist) > so_MaxRestarts (su_opts s) then
                s1\<lparr>su_mans := (su_mans s)[m := ma\<lparr>ma_restarts := hist, ma_quarantined := True\<rparr>],
                   su_crashes := su_crashes s @ [ma_tenant ma]\<rparr>
              else
                s1\<lparr>su_mans := (su_mans s)[m := ma\<lparr>ma_restarts := hist,
                     ma_backoffNext := nextBackoff rnd (ma_backoffNext ma) (so_BackoffMax (su_opts s))\<rparr>],
                   su_pending := su_pending s @ [(m, ma_backoffNext ma)]\<rparr>)"

text \<open>The order in which \<open>range\<close> walks the map is the order of the list; \<open>rnd\<close> gives the random
  value for each managed actor.\<close>

definition sweep :: "(nat \<Rightarrow> f64) \<Rightarrow> int \<Rightarrow> supervisor \<Rightarrow> supervisor" where
  "sweep rnd now s =
     foldl (\<lambda>s m. sweep_one (rnd m) now s m) (s\<lparr>su_lastHealthAt := now\<rparr>) (map snd (su_actors s))"

definition restartActor :: "supervisor \<Rightarrow> nat \<Rightarrow> supervisor" where
  "restartActor s m =
     (let ma = su_mans s ! m
      in if ma_quarantined ma then s
         else if IsRunning (su_acts s ! ma_actor ma) then s
         else s\<lparr>su_acts := su_acts s @ [new_actor_of s (ma_tenant ma)],
                su_mans := (su_mans s)[m := ma\<lparr>ma_actor := length (su_acts s)\<rparr>]\<rparr>)"

text \<open>A restart goroutine: its delay has passed and it takes the lock, or the root context was
  cancelled first.\<close>

definition restart_goroutine :: "supervisor \<Rightarrow> nat \<Rightarrow> supervisor" where
  "restart_goroutine s i =
     (if su_cancelled s then s\<lparr>su_pending := take i (su_pending s) @ drop (Suc i) (su_pending s)\<rparr>
      else restartActor (s\<lparr>su_pending := take i (su_pending s) @ drop (Suc i) (su_pending s)\<rparr>)
             (fst (su_pending s ! i)))"

definition ReleaseQuarantine :: "supervisor \<Rightarrow> string \<Rightarrow> supervisor" where
  "ReleaseQuarantine s tid =
     (case map_of (su_actors s) tid of
        None \<Rightarrow> s
      | Some m \<Rightarrow> s\<lparr>su_mans := (su_mans s)[m := (su_mans s ! m)\<lparr>ma_quarantined := False,
                        ma_restarts := [], ma_backoffNext := so_BackoffMin (su_opts s)\<rparr>],
                    su_actors := filter (\<lambda>(t, _). t \<noteq> tid) (su_actors s)\<rparr>)"

text \<open>\<open>None\<close> is the nil handle.\<close>

definition GetOrCreateActor :: "supervisor \<Rightarrow> string \<Rightarrow> supervisor \<times> nat option" where
  "GetOrCreateActor s tid =
     (case getOrCreate s tid of
        (s', None) \<Rightarrow> (s', None)
      | (s', Some m) \<Rightarrow> (s', Some (ma_actor (su_mans s' ! m))))"

record sup_stats =
  ss_ActorCount :: nat
  ss_Quarantined :: nat
  ss_TotalRouted :: int
  ss_TotalDropped :: int
  ss_TotalSpilled :: int
  ss_TotalRestarts :: int
  ss_LastHealthAt :: int

definition sup_Stats :: "supervisor \<Rightarrow> sup_stats" where
  "sup_Stats s =
     \<lparr>ss_ActorCount = length (su_actors s),
      ss_Quarantined = length (filter (\<lambda>(_, m). ma_quarantined (su_mans s ! m)) (su_actors s)),
      ss_TotalRouted = su_totalRouted s, ss_TotalDropped = su_totalDropped s,
      ss_TotalSpilled = su_totalSpilled s, ss_TotalRestarts = su_totalRestarts s,
      ss_LastHealthAt = su_lastHealthAt s\<rparr>"

end
