(* ===== verification/SupervisorProps.thy ===== *)
theory SupervisorProps
  imports Supervisor
begin

text \<open>
  The supervisor with its routers and actors as a step relation: routers that hold a pointer and
  have not sent yet, actors that receive, sweeps, pending restarts, operator calls and \<open>Stop\<close>, in
  any interleaving. Ghost fields record what was accepted and processed.
\<close>

section \<open>The system\<close>

record system =
  sy_sup :: supervisor
  sy_flight :: "(string \<times> signal \<times> nat option) list"
  sy_begun :: nat
  sy_sent :: "nat \<Rightarrow> (string \<times> signal) list"
  sy_done :: "nat \<Rightarrow> signal list"
  sy_handled :: bool

definition sys_init :: "sup_options \<Rightarrow> system" where
  "sys_init p = \<lparr>sy_sup = NewSupervisorWithOptions p, sy_flight = [], sy_begun = 0,
     sy_sent = (\<lambda>_. []), sy_done = (\<lambda>_. []), sy_handled = False\<rparr>"

definition remove_at :: "nat \<Rightarrow> 'a list \<Rightarrow> 'a list" where
  "remove_at i xs = take i xs @ drop (Suc i) xs"

text \<open>The actor a router with the pointer \<open>p\<close> sends to, if the send goes through.\<close>

definition accepts :: "supervisor \<Rightarrow> nat option \<Rightarrow> nat option" where
  "accepts s p =
     (case p of None \<Rightarrow> None
      | Some m \<Rightarrow>
          (let k = ma_actor (su_mans s ! m); a = su_acts s ! k
           in if \<not> ta_closed a \<and> length (ta_inbox a) < ta_cap a then Some k else None))"

definition record_sent ::
  "(nat \<Rightarrow> (string \<times> signal) list) \<Rightarrow> nat option \<Rightarrow> string \<times> signal \<Rightarrow> nat \<Rightarrow> (string \<times> signal) list" where
  "record_sent f k x = (case k of None \<Rightarrow> f | Some i \<Rightarrow> f(i := f i @ [x]))"

definition received :: "tenant_actor \<Rightarrow> signal list" where
  "received a = (if ta_loop a then take 1 (ta_inbox a) else [])"

inductive sup_step :: "system \<Rightarrow> system \<Rightarrow> bool" where
  begin_route: "getOrCreate (sy_sup y) t = (s', p) \<Longrightarrow>
    sup_step y (y\<lparr>sy_sup := s', sy_flight := sy_flight y @ [(t, sg, p)], sy_begun := Suc (sy_begun y)\<rparr>)"
| send: "i < length (sy_flight y) \<Longrightarrow> sy_flight y ! i = (t, sg, p) \<Longrightarrow>
    route_send (sy_sup y) p sg ok = Some s' \<Longrightarrow>
    sup_step y (y\<lparr>sy_sup := s', sy_flight := remove_at i (sy_flight y),
      sy_sent := record_sent (sy_sent y) (accepts (sy_sup y) p) (t, sg)\<rparr>)"
| recv: "k < length (su_acts (sy_sup y)) \<Longrightarrow>
    sup_step y (y\<lparr>sy_sup := (sy_sup y)\<lparr>su_acts := (su_acts (sy_sup y))
        [k := actor_recv (su_acts (sy_sup y) ! k) now clock]\<rparr>,
      sy_done := (sy_done y)(k := sy_done y k @ received (su_acts (sy_sup y) ! k))\<rparr>)"
| loop_done: "su_cancelled (sy_sup y) \<Longrightarrow> k < length (su_acts (sy_sup y)) \<Longrightarrow>
    sup_step y (y\<lparr>sy_sup := (sy_sup y)\<lparr>su_acts := (su_acts (sy_sup y))
        [k := actor_done (su_acts (sy_sup y) ! k)]\<rparr>\<rparr>)"
| sweep_tick: "sup_step y (y\<lparr>sy_sup := sweep rnd now (sy_sup y)\<rparr>)"
| restart: "i < length (su_pending (sy_sup y)) \<Longrightarrow>
    sup_step y (y\<lparr>sy_sup := restart_goroutine (sy_sup y) i\<rparr>)"
| release: "sup_step y (y\<lparr>sy_sup := ReleaseQuarantine (sy_sup y) t\<rparr>)"
| set_options: "sup_step y (y\<lparr>sy_sup := SetActorOptions (sy_sup y) p\<rparr>)"
| stop_all: "sup_step y (y\<lparr>sy_sup := sup_Stop (sy_sup y), sy_handled := True\<rparr>)"
| handle_stop: "k < length (su_acts (sy_sup y)) \<Longrightarrow>
    sup_step y (y\<lparr>sy_sup := (sy_sup y)\<lparr>su_acts := (su_acts (sy_sup y))
        [k := actor_stop (su_acts (sy_sup y) ! k)]\<rparr>, sy_handled := True\<rparr>)"

inductive reachable :: "sup_options \<Rightarrow> system \<Rightarrow> bool" for p where
  start: "reachable p (sys_init p)"
| step: "reachable p y \<Longrightarrow> sup_step y z \<Longrightarrow> reachable p z"

inductive_simps step_from_init: "sup_step (sys_init p) z"

section \<open>Operations that keep the mailboxes\<close>

definition sup_wf :: "supervisor \<Rightarrow> bool" where
  "sup_wf s \<longleftrightarrow>
     (\<forall>(t, m) \<in> set (su_actors s). m < length (su_mans s) \<and> ma_tenant (su_mans s ! m) = t) \<and>
     (\<forall>ma \<in> set (su_mans s). ma_actor ma < length (su_acts s) \<and>
        ta_tenant (su_acts s ! ma_actor ma) = ma_tenant ma) \<and>
     (\<forall>(m, d) \<in> set (su_pending s). m < length (su_mans s))"

definition same_mail :: "tenant_actor \<Rightarrow> tenant_actor \<Rightarrow> bool" where
  "same_mail a b \<longleftrightarrow> ta_tenant b = ta_tenant a \<and> ta_cap b = ta_cap a \<and> ta_inbox b = ta_inbox a \<and>
     ta_processed b = ta_processed a"

definition fresh_mail :: "tenant_actor \<Rightarrow> bool" where
  "fresh_mail a \<longleftrightarrow> ta_inbox a = [] \<and> ta_processed a = 0"

text \<open>\<open>quiet s s'\<close>: from \<open>s\<close> to \<open>s'\<close> no mailbox and no counter of signals changes, nothing disappears
  from the stores, and well-formedness is kept.\<close>

definition quiet :: "supervisor \<Rightarrow> supervisor \<Rightarrow> bool" where
  "quiet s s' \<longleftrightarrow> (sup_wf s \<longrightarrow> sup_wf s' \<and>
     length (su_mans s) \<le> length (su_mans s') \<and>
     (\<forall>m < length (su_mans s). ma_tenant (su_mans s' ! m) = ma_tenant (su_mans s ! m)) \<and>
     length (su_acts s) \<le> length (su_acts s') \<and>
     (\<forall>k < length (su_acts s). same_mail (su_acts s ! k) (su_acts s' ! k)) \<and>
     (\<forall>k < length (su_acts s'). length (su_acts s) \<le> k \<longrightarrow> fresh_mail (su_acts s' ! k)) \<and>
     su_totalRouted s' = su_totalRouted s \<and> su_totalDropped s' = su_totalDropped s \<and>
     su_totalSpilled s' = su_totalSpilled s)"

lemma same_mail_refl [simp]: "same_mail a a"
  by (simp add: same_mail_def)

lemma same_mail_trans: "same_mail a b \<Longrightarrow> same_mail b c \<Longrightarrow> same_mail a c"
  by (simp add: same_mail_def)

lemma fresh_same: "fresh_mail a \<Longrightarrow> same_mail a b \<Longrightarrow> fresh_mail b"
  by (simp add: fresh_mail_def same_mail_def)

lemma quiet_refl [simp]: "quiet s s"
  by (simp add: quiet_def)

lemma quiet_trans: "quiet s t \<Longrightarrow> quiet t u \<Longrightarrow> quiet s u"
  unfolding quiet_def
  by (clarsimp, safe) (metis dual_order.strict_trans2 same_mail_trans fresh_same not_le)+

lemma fresh_new [simp]: "fresh_mail (new_actor_of s t)" "ta_tenant (new_actor_of s t) = t"
  "ta_closed (new_actor_of s t) = False" "ta_running (new_actor_of s t)"
  by (simp_all add: new_actor_of_def fresh_mail_def)

lemma wf_mans: "sup_wf s \<Longrightarrow> m < length (su_mans s) \<Longrightarrow>
  ma_actor (su_mans s ! m) < length (su_acts s) \<and>
  ta_tenant (su_acts s ! ma_actor (su_mans s ! m)) = ma_tenant (su_mans s ! m)"
  by (auto simp: sup_wf_def)

lemma quiet_getOrCreate: "quiet s (fst (getOrCreate s t))"
  unfolding quiet_def getOrCreate_def
  by (auto simp: sup_wf_def nth_append less_Suc_eq split: option.splits)

text \<open>Changing only the bookkeeping of one managed actor.\<close>

lemma quiet_mans_update:
  assumes "ma_tenant ma = ma_tenant (su_mans s ! m)" "ma_actor ma = ma_actor (su_mans s ! m)"
    "su_mans s' = (su_mans s)[m := ma]" "su_acts s' = su_acts s"
    "set (su_actors s') \<subseteq> set (su_actors s)"
    "\<forall>(m', d) \<in> set (su_pending s'). (m', d) \<in> set (su_pending s) \<or> m' = m"
    "m < length (su_mans s) \<or> set (su_pending s') \<subseteq> set (su_pending s)"
    "su_totalRouted s' = su_totalRouted s" "su_totalDropped s' = su_totalDropped s"
    "su_totalSpilled s' = su_totalSpilled s"
  shows "quiet s s'"
proof -
  have len: "length (su_mans s') = length (su_mans s)" by (simp add: assms(3))
  have at: "ma_tenant (su_mans s' ! i) = ma_tenant (su_mans s ! i) \<and>
            ma_actor (su_mans s' ! i) = ma_actor (su_mans s ! i)" if "i < length (su_mans s)" for i
    unfolding assms(3) by (cases "i = m") (use that in \<open>simp_all add: assms(1,2)\<close>)
  have "sup_wf s'" if wf: "sup_wf s"
    unfolding sup_wf_def
  proof (intro conjI)
    show "\<forall>(t, m) \<in> set (su_actors s'). m < length (su_mans s') \<and> ma_tenant (su_mans s' ! m) = t"
    proof (clarify)
      fix t i assume "(t, i) \<in> set (su_actors s')"
      then have "i < length (su_mans s)" "ma_tenant (su_mans s ! i) = t"
        using wf assms(5) by (auto simp: sup_wf_def)
      then show "i < length (su_mans s') \<and> ma_tenant (su_mans s' ! i) = t"
        using at len by simp
    qed
    show "\<forall>ma \<in> set (su_mans s'). ma_actor ma < length (su_acts s') \<and>
        ta_tenant (su_acts s' ! ma_actor ma) = ma_tenant ma"
      using wf_mans [OF wf] at len by (auto simp: in_set_conv_nth assms(4))
    show "\<forall>(m, d) \<in> set (su_pending s'). m < length (su_mans s')"
    proof (clarify)
      fix i d assume i: "(i, d) \<in> set (su_pending s')"
      then have "(i, d) \<in> set (su_pending s) \<or> i = m \<and> m < length (su_mans s)"
        using assms(6,7) by auto
      then show "i < length (su_mans s')" using wf len by (auto simp: sup_wf_def)
    qed
  qed
  then show ?thesis using at len assms(4,8-10) by (simp add: quiet_def)
qed


lemma quiet_acts_update:
  assumes "su_mans s' = su_mans s" "length (su_acts s') = length (su_acts s)"
    "\<forall>k < length (su_acts s). same_mail (su_acts s ! k) (su_acts s' ! k)"
    "set (su_actors s') \<subseteq> set (su_actors s)" "su_pending s' = su_pending s"
    "su_totalRouted s' = su_totalRouted s" "su_totalDropped s' = su_totalDropped s"
    "su_totalSpilled s' = su_totalSpilled s"
  shows "quiet s s'"
proof -
  have "sup_wf s'" if wf: "sup_wf s"
    unfolding sup_wf_def assms(1,2,5)
  proof (intro conjI)
    show "\<forall>(t, m) \<in> set (su_actors s'). m < length (su_mans s) \<and> ma_tenant (su_mans s ! m) = t"
      using wf assms(4) by (auto simp: sup_wf_def)
    show "\<forall>ma \<in> set (su_mans s). ma_actor ma < length (su_acts s) \<and>
        ta_tenant (su_acts s' ! ma_actor ma) = ma_tenant ma"
      using wf assms(3) by (auto simp: sup_wf_def same_mail_def)
    show "\<forall>(m, d) \<in> set (su_pending s). m < length (su_mans s)"
      using wf by (simp add: sup_wf_def)
  qed
  then show ?thesis using assms by (simp add: quiet_def)
qed

lemma quiet_act_update:
  "same_mail (su_acts s ! k) a \<Longrightarrow> quiet s (s\<lparr>su_acts := (su_acts s)[k := a]\<rparr>)"
proof (rule quiet_acts_update)
  assume a: "same_mail (su_acts s ! k) a"
  have "same_mail (su_acts s ! i) ((su_acts s)[k := a] ! i)" if "i < length (su_acts s)" for i
    by (cases "i = k") (use that a in simp_all)
  then show "\<forall>i < length (su_acts s). same_mail (su_acts s ! i)
      (su_acts (s\<lparr>su_acts := (su_acts s)[k := a]\<rparr>) ! i)" by simp
qed simp_all

lemma same_mail_stop [simp]: "same_mail a (actor_stop a)"
  and same_mail_done [simp]: "same_mail a (actor_done a)"
  by (simp_all add: same_mail_def)

lemma stop_acts_same:
  "length (stop_acts s ents acts) = length acts \<and>
   (\<forall>k < length acts. same_mail (acts ! k) (stop_acts s ents acts ! k))"
proof (induction ents arbitrary: acts)
  case (Cons x ents)
  obtain t m where x: "x = (t, m)" by (cases x)
  let ?k = "ma_actor (su_mans s ! m)"
  have "stop_acts s (x # ents) acts = stop_acts s ents (acts[?k := actor_stop (acts ! ?k)])"
    by (simp add: stop_acts_def x)
  moreover have "same_mail (acts ! k) (acts[?k := actor_stop (acts ! ?k)] ! k)"
    if "k < length acts" for k
    by (cases "k = ?k") (use that in simp_all)
  ultimately show ?case
    using Cons [of "acts[?k := actor_stop (acts ! ?k)]"] same_mail_trans
    by (simp only: length_list_update) blast
qed (simp add: stop_acts_def)

lemma quiet_Stop: "quiet s (sup_Stop s)"
proof (cases "su_stopped s")
  case False
  show ?thesis
    by (rule quiet_acts_update) (use stop_acts_same in \<open>simp_all add: sup_Stop_def False\<close>)
qed (simp add: sup_Stop_def)

lemma sweep_one_length [simp]: "length (su_mans (sweep_one rnd now s m)) = length (su_mans s)"
  by (simp add: sweep_one_def Let_def)

lemma quiet_sweep_one:
  assumes "m < length (su_mans s)" shows "quiet s (sweep_one rnd now s m)"
proof -
  let ?s = "sweep_one rnd now s m"
  show ?thesis
  proof (rule quiet_mans_update [where m = m and ma = "su_mans ?s ! m"])
    show "su_mans ?s = (su_mans s)[m := su_mans ?s ! m]"
      by (rule nth_equalityI) (use assms in \<open>auto simp: sweep_one_def Let_def nth_list_update\<close>)
  qed (use assms in \<open>auto simp: sweep_one_def Let_def\<close>)
qed

lemma quiet_sweep:
  assumes wf: "sup_wf s" shows "quiet s (sweep rnd now s)"
proof -
  have "quiet u (foldl (\<lambda>s m. sweep_one (rnd m) now s m) u ms)"
    if "\<forall>m \<in> set ms. m < length (su_mans u)" for u ms
    using that
  proof (induction ms arbitrary: u)
    case (Cons m ms)
    have "quiet u (sweep_one (rnd m) now u m)"
      by (rule quiet_sweep_one) (use Cons.prems in simp)
    moreover have "quiet (sweep_one (rnd m) now u m)
        (foldl (\<lambda>s m. sweep_one (rnd m) now s m) (sweep_one (rnd m) now u m) ms)"
      by (rule Cons.IH) (use Cons.prems in simp)
    ultimately show ?case by (simp add: quiet_trans [of u])
  qed simp
  moreover have "quiet s (s\<lparr>su_lastHealthAt := now\<rparr>)"
    by (rule quiet_acts_update) simp_all
  moreover have "\<forall>m \<in> set (map snd (su_actors s)). m < length (su_mans (s\<lparr>su_lastHealthAt := now\<rparr>))"
    using wf by (auto simp: sup_wf_def)
  ultimately show ?thesis unfolding sweep_def by (blast intro: quiet_trans)
qed

lemma quiet_restartActor:
  assumes m: "m < length (su_mans s)" shows "quiet s (restartActor s m)"
proof (cases "ma_quarantined (su_mans s ! m) \<or> IsRunning (su_acts s ! ma_actor (su_mans s ! m))")
  case False
  define s' where "s' = restartActor s m"
  define ma where "ma = (su_mans s ! m)\<lparr>ma_actor := length (su_acts s)\<rparr>"
  have s': "su_acts s' = su_acts s @ [new_actor_of s (ma_tenant (su_mans s ! m))]"
    "su_mans s' = (su_mans s)[m := ma]" "su_actors s' = su_actors s" "su_pending s' = su_pending s"
    "su_totalRouted s' = su_totalRouted s" "su_totalDropped s' = su_totalDropped s"
    "su_totalSpilled s' = su_totalSpilled s"
    using False by (auto simp: s'_def restartActor_def Let_def ma_def)
  have ten: "ma_tenant (su_mans s' ! i) = ma_tenant (su_mans s ! i)" if "i < length (su_mans s)" for i
    unfolding s'(2) by (cases "i = m") (use that in \<open>simp_all add: ma_def\<close>)
  have "sup_wf s'" if wf: "sup_wf s"
    unfolding sup_wf_def
  proof (intro conjI)
    show "\<forall>(t, m) \<in> set (su_actors s'). m < length (su_mans s') \<and> ma_tenant (su_mans s' ! m) = t"
      using wf ten by (auto simp: sup_wf_def s'(2,3))
    have "ma_actor (su_mans s' ! i) < length (su_acts s') \<and>
        ta_tenant (su_acts s' ! ma_actor (su_mans s' ! i)) = ma_tenant (su_mans s' ! i)"
      if i: "i < length (su_mans s)" for i
      unfolding s'(1,2) using wf_mans [OF wf i]
      by (cases "i = m") (use i in \<open>auto simp: ma_def nth_append\<close>)
    then show "\<forall>ma \<in> set (su_mans s'). ma_actor ma < length (su_acts s') \<and>
        ta_tenant (su_acts s' ! ma_actor ma) = ma_tenant ma"
      by (auto simp: in_set_conv_nth s'(2))
    show "\<forall>(m, d) \<in> set (su_pending s'). m < length (su_mans s')"
      using wf by (simp add: sup_wf_def s'(2,4))
  qed
  then have "quiet s s'"
    using ten by (auto simp: quiet_def s'(1,5-7) nth_append less_Suc_eq) (simp_all add: s'(2))
  then show ?thesis by (simp add: s'_def)
qed (auto simp: restartActor_def Let_def)

lemma quiet_restart:
  assumes wf: "sup_wf s" and i: "i < length (su_pending s)"
  shows "quiet s (restart_goroutine s i)"
proof -
  let ?s = "s\<lparr>su_pending := take i (su_pending s) @ drop (Suc i) (su_pending s)\<rparr>"
  have q: "quiet s ?s"
    by (rule quiet_mans_update [where m = "length (su_mans s)" and ma = "su_mans s ! length (su_mans s)"])
      (auto dest: in_set_takeD in_set_dropD)
  have "su_pending s ! i \<in> set (su_pending s)" using i by simp
  then have "fst (su_pending s ! i) < length (su_mans ?s)"
    using wf by (auto simp: sup_wf_def case_prod_beta)
  then have "quiet ?s (restartActor ?s (fst (su_pending s ! i)))"
    by (rule quiet_restartActor)
  then show ?thesis
    using q by (auto simp: restart_goroutine_def intro: quiet_trans)
qed

lemma quiet_release: "quiet s (ReleaseQuarantine s t)"
proof (cases "map_of (su_actors s) t")
  case (Some m)
  show ?thesis
    by (rule quiet_mans_update [where m = m and ma = "(su_mans s ! m)\<lparr>ma_quarantined := False,
          ma_restarts := [], ma_backoffNext := so_BackoffMin (su_opts s)\<rparr>"])
      (auto simp: ReleaseQuarantine_def Some)
qed (simp add: ReleaseQuarantine_def)

lemma quiet_options: "quiet s (SetActorOptions s p)"
  by (rule quiet_acts_update) (simp_all add: SetActorOptions_def)


section \<open>Delivery and accounting\<close>

definition mail_ok :: "system \<Rightarrow> nat \<Rightarrow> tenant_actor \<Rightarrow> bool" where
  "mail_ok y k a \<longleftrightarrow>
     map snd (sy_sent y k) = sy_done y k @ ta_inbox a \<and> length (ta_inbox a) \<le> ta_cap a \<and>
     ta_processed a = wrap64 (int (length (sy_done y k))) \<and>
     (\<forall>(t, g) \<in> set (sy_sent y k). t = ta_tenant a)"

definition delivered :: "system \<Rightarrow> bool" where
  "delivered y \<longleftrightarrow>
     (\<forall>k < length (su_acts (sy_sup y)). mail_ok y k (su_acts (sy_sup y) ! k)) \<and>
     (\<forall>k \<ge> length (su_acts (sy_sup y)). sy_sent y k = [] \<and> sy_done y k = [])"

definition flight_ok :: "system \<Rightarrow> bool" where
  "flight_ok y \<longleftrightarrow> (\<forall>(t, g, p) \<in> set (sy_flight y).
     (case p of None \<Rightarrow> True
      | Some m \<Rightarrow> m < length (su_mans (sy_sup y)) \<and> ma_tenant (su_mans (sy_sup y) ! m) = t))"

definition sent_total :: "system \<Rightarrow> nat \<Rightarrow> int" where
  "sent_total y N = (\<Sum>k<N. int (length (sy_sent y k)))"

definition accounted :: "system \<Rightarrow> bool" where
  "accounted y \<longleftrightarrow>
     wrap64 (su_totalRouted (sy_sup y) + su_totalDropped (sy_sup y) + su_totalSpilled (sy_sup y) +
             int (length (sy_flight y))) = wrap64 (int (sy_begun y)) \<and>
     (\<forall>N \<ge> length (su_acts (sy_sup y)). su_totalRouted (sy_sup y) = wrap64 (sent_total y N))"

definition sys_inv :: "system \<Rightarrow> bool" where
  "sys_inv y \<longleftrightarrow> sup_wf (sy_sup y) \<and> delivered y \<and> flight_ok y \<and> accounted y"

lemma inv_quiet:
  assumes inv: "sys_inv y" and q: "quiet (sy_sup y) s'"
    and z: "sy_sup z = s'" "sy_flight z = sy_flight y" "sy_begun z = sy_begun y"
      "sy_sent z = sy_sent y" "sy_done z = sy_done y"
  shows "sys_inv z"
proof -
  define s where "s = sy_sup y"
  have wf: "sup_wf s'" and mans: "length (su_mans s) \<le> length (su_mans s')"
    and ten: "\<forall>m < length (su_mans s). ma_tenant (su_mans s' ! m) = ma_tenant (su_mans s ! m)"
    and len: "length (su_acts s) \<le> length (su_acts s')"
    and same: "\<forall>k < length (su_acts s). same_mail (su_acts s ! k) (su_acts s' ! k)"
    and fresh: "\<forall>k < length (su_acts s'). length (su_acts s) \<le> k \<longrightarrow> fresh_mail (su_acts s' ! k)"
    and cnt: "su_totalRouted s' = su_totalRouted s" "su_totalDropped s' = su_totalDropped s"
      "su_totalSpilled s' = su_totalSpilled s"
    using inv q by (auto simp: sys_inv_def quiet_def s_def)
  have d: "delivered y" and f: "flight_ok y" and a: "accounted y"
    using inv by (simp_all add: sys_inv_def)
  have "mail_ok z k (su_acts s' ! k)" if k: "k < length (su_acts s')" for k
  proof (cases "k < length (su_acts s)")
    case True
    then show ?thesis
      using d same by (auto simp: delivered_def mail_ok_def same_mail_def s_def z)
  next
    case False
    then show ?thesis
      using d fresh k by (auto simp: delivered_def mail_ok_def fresh_mail_def s_def z)
  qed
  then have "delivered z"
    using d len by (auto simp: delivered_def z s_def)
  moreover have "flight_ok z"
    unfolding flight_ok_def z
  proof (clarify)
    fix t g p assume "(t, g, p) \<in> set (sy_flight y)"
    then show "case p of None \<Rightarrow> True | Some m \<Rightarrow> m < length (su_mans s') \<and> ma_tenant (su_mans s' ! m) = t"
      using f mans ten by (auto simp: flight_ok_def s_def split: option.splits)
  qed
  moreover have "accounted z"
    unfolding accounted_def z cnt
  proof (intro conjI allI impI)
    fix N assume "length (su_acts s') \<le> N"
    then have "length (su_acts (sy_sup y)) \<le> N" using len by (simp add: s_def)
    then show "su_totalRouted s = wrap64 (sent_total z N)"
      using a unfolding accounted_def sent_total_def z s_def by blast
  qed (use a in \<open>simp add: accounted_def s_def\<close>)
  ultimately show ?thesis using wf by (simp add: sys_inv_def z)
qed

lemma wrap64_shift: "wrap64 x = wrap64 y \<Longrightarrow> wrap64 (x + c) = wrap64 (y + c)"
  by (metis wrap64_add_left)

lemma wrap64_sums:
  "wrap64 (wrap64 (a + 1) + b + c) = wrap64 (a + b + c + 1)"
  "wrap64 (a + wrap64 (b + 1) + c) = wrap64 (a + b + c + 1)"
  "wrap64 (a + b + wrap64 (c + 1)) = wrap64 (a + b + c + 1)"
  using wrap64_add_left [of "a + 1" "b + c"] wrap64_add_left [of "b + 1" "a + c"]
    wrap64_add_left [of "c + 1" "a + b"]
  by (simp_all add: add.assoc add.left_commute add.commute)

lemma inv_begin:
  assumes inv: "sys_inv y" and g: "getOrCreate (sy_sup y) t = (s', p)"
  shows "sys_inv (y\<lparr>sy_sup := s', sy_flight := sy_flight y @ [(t, sg, p)], sy_begun := Suc (sy_begun y)\<rparr>)"
proof -
  let ?y = "y\<lparr>sy_sup := s'\<rparr>"
  define z where "z = y\<lparr>sy_sup := s', sy_flight := sy_flight y @ [(t, sg, p)],
    sy_begun := Suc (sy_begun y)\<rparr>"
  have "quiet (sy_sup y) s'" using quiet_getOrCreate [of "sy_sup y" t] g by simp
  then have i: "sys_inv ?y" by (rule inv_quiet [OF inv]) simp_all
  have wf: "sup_wf (sy_sup y)" using inv by (simp add: sys_inv_def)
  have "m < length (su_mans s') \<and> ma_tenant (su_mans s' ! m) = t" if "p = Some m" for m
    using g that wf
    by (auto simp: getOrCreate_def sup_wf_def split: option.splits if_splits dest!: map_of_SomeD)
  moreover have "delivered z" "sup_wf (sy_sup z)"
    using i by (simp_all add: sys_inv_def delivered_def mail_ok_def z_def)
  moreover have "accounted z"
    unfolding accounted_def
  proof
    have "wrap64 (su_totalRouted s' + su_totalDropped s' + su_totalSpilled s' +
        int (length (sy_flight y))) = wrap64 (int (sy_begun y))"
      using i by (simp add: sys_inv_def accounted_def)
    from wrap64_shift [OF this, of 1] show "wrap64 (su_totalRouted (sy_sup z) +
        su_totalDropped (sy_sup z) + su_totalSpilled (sy_sup z) + int (length (sy_flight z)))
        = wrap64 (int (sy_begun z))"
      by (simp add: z_def algebra_simps)
  qed (use i in \<open>simp add: sys_inv_def accounted_def sent_total_def z_def\<close>)
  ultimately have "flight_ok z" "delivered z" "sup_wf (sy_sup z)" "accounted z"
    using i by (auto simp: sys_inv_def flight_ok_def z_def split: option.splits)
  then show ?thesis by (simp add: sys_inv_def z_def)
qed

lemma set_remove_at: "set (remove_at i xs) \<subseteq> set xs"
  by (auto simp: remove_at_def dest: in_set_takeD in_set_dropD)

lemma length_remove_at: "i < length xs \<Longrightarrow> length xs = Suc (length (remove_at i xs))"
  by (simp add: remove_at_def)

lemma sent_total_upd:
  fixes f :: "nat \<Rightarrow> 'b list"
  shows "k < N \<Longrightarrow> (\<Sum>i<N. int (length ((f(k := f k @ [x])) i))) = (\<Sum>i<N. int (length (f i))) + 1"
proof -
  assume k: "k < N"
  have "(\<Sum>i \<in> {..<N} - {k}. int (length ((f(k := f k @ [x])) i))) =
        (\<Sum>i \<in> {..<N} - {k}. int (length (f i)))"
    by (rule sum.cong) auto
  moreover have "(\<Sum>i<N. int (length (g i))) =
      int (length (g k)) + (\<Sum>i \<in> {..<N} - {k}. int (length (g i)))" for g :: "nat \<Rightarrow> 'b list"
    by (rule sum.remove) (use k in auto)
  ultimately show ?thesis by (simp only: fun_upd_same) simp
qed


lemma inv_send:
  assumes inv: "sys_inv y" and i: "i < length (sy_flight y)" "sy_flight y ! i = (t, sg, p)"
    and send: "route_send (sy_sup y) p sg ok = Some s'"
  shows "sys_inv (y\<lparr>sy_sup := s', sy_flight := remove_at i (sy_flight y),
      sy_sent := record_sent (sy_sent y) (accepts (sy_sup y) p) (t, sg)\<rparr>)"
proof -
  define s where "s = sy_sup y"
  define z where "z = y\<lparr>sy_sup := s', sy_flight := remove_at i (sy_flight y),
      sy_sent := record_sent (sy_sent y) (accepts (sy_sup y) p) (t, sg)\<rparr>"
  have wf: "sup_wf s" and d: "delivered y" and f: "flight_ok y" and a: "accounted y"
    using inv by (simp_all add: sys_inv_def s_def)
  have fl: "(t, sg, p) \<in> set (sy_flight y)" using i nth_mem by fastforce
  have len: "int (length (sy_flight y)) = int (length (remove_at i (sy_flight y))) + 1"
    using length_remove_at [OF i(1)] by simp
  have frame: "su_mans s' = su_mans s" "su_actors s' = su_actors s" "su_pending s' = su_pending s"
      "length (su_acts s') = length (su_acts s)"
    using send by (auto simp: route_send_def s_def split: option.splits send_result.splits if_splits)
  have flight: "flight_ok z"
    unfolding flight_ok_def
  proof (clarify)
    fix u g q assume "(u, g, q) \<in> set (sy_flight z)"
    then have "(u, g, q) \<in> set (sy_flight y)"
      using set_remove_at [of i "sy_flight y"] by (auto simp: z_def)
    then show "case q of None \<Rightarrow> True
        | Some m \<Rightarrow> m < length (su_mans (sy_sup z)) \<and> ma_tenant (su_mans (sy_sup z) ! m) = u"
      using f by (auto simp: flight_ok_def z_def frame s_def split: option.splits)
  qed
  have one: "su_totalRouted s' + su_totalDropped s' + su_totalSpilled s' = x \<Longrightarrow>
      wrap64 x = wrap64 (su_totalRouted s + su_totalDropped s + su_totalSpilled s + 1) \<Longrightarrow>
      wrap64 (su_totalRouted (sy_sup z) + su_totalDropped (sy_sup z) + su_totalSpilled (sy_sup z) +
        int (length (sy_flight z))) = wrap64 (int (sy_begun z))" for x
    using wrap64_shift [of x _ "int (length (remove_at i (sy_flight y)))"] a len
    by (simp add: accounted_def z_def s_def algebra_simps)
  show ?thesis
  proof (cases "accepts s p")
    case None
    then have acts: "su_acts s' = su_acts s" and routed: "su_totalRouted s' = su_totalRouted s"
      using send by (auto simp: route_send_def accepts_def try_send_def s_def Let_def
          split: option.splits if_splits)
    have "wrap64 (su_totalRouted s' + su_totalDropped s' + su_totalSpilled s') =
        wrap64 (su_totalRouted s + su_totalDropped s + su_totalSpilled s + 1)"
      using send None
      by (auto simp: route_send_def accepts_def try_send_def s_def Let_def wrap64_sums
          split: option.splits if_splits)
    from one [OF refl this] have "accounted z"
      using a None routed by (simp add: accounted_def z_def acts sent_total_def record_sent_def s_def)
    moreover have "delivered z"
      using d None by (simp add: delivered_def mail_ok_def z_def acts record_sent_def s_def)
    moreover have "sup_wf s'" using wf by (simp add: sup_wf_def frame acts)
    ultimately show ?thesis using flight by (simp add: sys_inv_def z_def)
  next
    case (Some k)
    then obtain m where p: "p = Some m" and k: "k = ma_actor (su_mans s ! m)"
      and room: "\<not> ta_closed (su_acts s ! k)" "length (ta_inbox (su_acts s ! k)) < ta_cap (su_acts s ! k)"
      by (auto simp: accepts_def Let_def split: option.splits if_splits)
    define b where "b = (su_acts s ! k)\<lparr>ta_inbox := ta_inbox (su_acts s ! k) @ [sg]\<rparr>"
    have s': "s' = s\<lparr>su_acts := (su_acts s)[k := b], su_totalRouted := wrap64 (su_totalRouted s + 1)\<rparr>"
      using send room by (simp add: route_send_def p try_send_def k b_def s_def)
    have m: "m < length (su_mans s)" "ma_tenant (su_mans s ! m) = t"
      using f fl by (auto simp: flight_ok_def p s_def)
    have kl: "k < length (su_acts s)" and ten: "ta_tenant (su_acts s ! k) = t"
      using wf_mans [OF wf m(1)] m(2) by (simp_all add: k)
    have sent: "sy_sent z = (sy_sent y)(k := sy_sent y k @ [(t, sg)])"
      using Some by (simp add: z_def record_sent_def s_def)
    have zs: "sy_sup z = s'" "sy_done z = sy_done y" by (simp_all add: z_def)
    have "delivered z"
      unfolding delivered_def
    proof (intro conjI allI impI)
      fix j assume j: "j < length (su_acts (sy_sup z))"
      then have "mail_ok y j (su_acts s ! j)"
        using d kl by (simp add: delivered_def s_def z_def s')
      then show "mail_ok z j (su_acts (sy_sup z) ! j)"
        using kl room ten by (cases "j = k") (auto simp: mail_ok_def sent zs s' b_def)
    qed (use d kl in \<open>auto simp: delivered_def sent zs s' simp flip: s_def\<close>)
    moreover have "accounted z"
      unfolding accounted_def
    proof
      show "wrap64 (su_totalRouted (sy_sup z) + su_totalDropped (sy_sup z) +
          su_totalSpilled (sy_sup z) + int (length (sy_flight z))) = wrap64 (int (sy_begun z))"
        by (rule one [OF refl]) (simp add: s' wrap64_sums)
      show "\<forall>N \<ge> length (su_acts (sy_sup z)). su_totalRouted (sy_sup z) = wrap64 (sent_total z N)"
      proof (intro allI impI)
        fix N assume N: "length (su_acts (sy_sup z)) \<le> N"
        then have "sent_total z N = sent_total y N + 1"
          unfolding sent_total_def sent using kl by (intro sent_total_upd) (simp add: z_def s')
        moreover have "su_totalRouted s = wrap64 (sent_total y N)"
          using a N by (simp add: accounted_def s_def z_def s')
        ultimately show "su_totalRouted (sy_sup z) = wrap64 (sent_total z N)"
          by (simp add: z_def s' wrap64_add_left)
      qed
    qed
    moreover have "sup_wf s'"
      using wf kl by (auto simp: sup_wf_def s' b_def nth_list_update)
    ultimately show ?thesis using flight by (simp add: sys_inv_def z_def)
  qed
qed


lemma actor_recv_mail:
  "ta_inbox a = received a @ ta_inbox (actor_recv a now clock) \<and>
   ta_processed (actor_recv a now clock) =
     (if received a = [] then ta_processed a else wrap64 (ta_processed a + 1))"
  by (auto simp: actor_recv_def received_def split: list.split)

lemma received_length: "length (received a) \<le> 1"
  by (simp add: received_def)

lemma inv_recv:
  assumes inv: "sys_inv y" and k: "k < length (su_acts (sy_sup y))"
  shows "sys_inv (y\<lparr>sy_sup := (sy_sup y)\<lparr>su_acts := (su_acts (sy_sup y))
        [k := actor_recv (su_acts (sy_sup y) ! k) now clock]\<rparr>,
      sy_done := (sy_done y)(k := sy_done y k @ received (su_acts (sy_sup y) ! k))\<rparr>)"
proof -
  define s where "s = sy_sup y"
  define a where "a = su_acts s ! k"
  define z where "z = y\<lparr>sy_sup := s\<lparr>su_acts := (su_acts s)[k := actor_recv a now clock]\<rparr>,
      sy_done := (sy_done y)(k := sy_done y k @ received a)\<rparr>"
  have zs: "sy_sup z = s\<lparr>su_acts := (su_acts s)[k := actor_recv a now clock]\<rparr>"
    "sy_done z = (sy_done y)(k := sy_done y k @ received a)" "sy_sent z = sy_sent y"
    "sy_flight z = sy_flight y" "sy_begun z = sy_begun y"
    by (simp_all add: z_def)
  have k': "k < length (su_acts s)" using k by (simp add: s_def)
  have mans: "su_mans (sy_sup z) = su_mans (sy_sup y)" by (simp add: zs(1) s_def)
  have d: "mail_ok y k a" using inv k by (simp add: sys_inv_def delivered_def s_def a_def)
  have "mail_ok z k (actor_recv a now clock)"
  proof (cases "received a = []")
    case True
    then show ?thesis
      using d actor_recv_mail [of a now clock] by (simp add: mail_ok_def zs)
  next
    case False
    then obtain g where g: "received a = [g]"
      using received_length [of a] by (cases "received a") auto
    then show ?thesis
      using d actor_recv_mail [of a now clock] by (auto simp: mail_ok_def zs wrap64_add_left wrap64_add_right add.commute)
  qed
  moreover have "mail_ok z j (su_acts s ! j)" if "j < length (su_acts s)" "j \<noteq> k" for j
    using inv that by (simp add: sys_inv_def delivered_def mail_ok_def zs s_def)
  ultimately have "mail_ok z j (su_acts (sy_sup z) ! j)" if "j < length (su_acts s)" for j
    using that k' by (cases "j = k") (simp_all add: zs)
  then have "delivered z"
    using inv k' by (auto simp: delivered_def sys_inv_def zs simp flip: s_def)
  moreover have "sup_wf (sy_sup z)"
  proof -
    have "ta_tenant ((su_acts s)[k := actor_recv a now clock] ! j) = ta_tenant (su_acts s ! j)" for j
      by (cases "j = k") (use k' in \<open>simp_all add: a_def\<close>)
    then show ?thesis using inv by (simp add: sys_inv_def sup_wf_def zs flip: s_def)
  qed
  moreover have "flight_ok z"
    using inv unfolding sys_inv_def flight_ok_def zs(4) mans by blast
  moreover have "accounted z"
    using inv by (simp add: sys_inv_def accounted_def sent_total_def zs flip: s_def)
  ultimately show ?thesis by (simp add: sys_inv_def z_def a_def s_def)
qed

lemma sys_inv_step: "sup_step y z \<Longrightarrow> sys_inv y \<Longrightarrow> sys_inv z"
proof (induction rule: sup_step.induct)
  case (begin_route y t s' p sg)
  then show ?case by (intro inv_begin)
next
  case (send i y t sg p ok s')
  then show ?case by (intro inv_send)
next
  case (recv k y now clock)
  then show ?case by (intro inv_recv)
next
  case (loop_done y k)
  show ?case by (rule inv_quiet [OF loop_done.prems quiet_act_update [OF same_mail_done]]) simp_all
next
  case (sweep_tick y rnd now)
  have "sup_wf (sy_sup y)" using sweep_tick by (simp add: sys_inv_def)
  from inv_quiet [OF sweep_tick quiet_sweep [OF this]] show ?case by simp
next
  case (restart i y)
  have "sup_wf (sy_sup y)" using restart by (simp add: sys_inv_def)
  from inv_quiet [OF restart(2) quiet_restart [OF this restart(1)]] show ?case by simp
next
  case (release y t)
  from inv_quiet [OF release quiet_release] show ?case by simp
next
  case (set_options y p)
  from inv_quiet [OF set_options quiet_options] show ?case by simp
next
  case (stop_all y)
  from inv_quiet [OF stop_all quiet_Stop] show ?case by simp
next
  case (handle_stop k y)
  show ?case by (rule inv_quiet [OF handle_stop.prems quiet_act_update [OF same_mail_stop]]) simp_all
qed

lemma sys_inv_init: "sys_inv (sys_init p)"
  by (simp add: sys_inv_def sys_init_def NewSupervisorWithOptions_def sup_wf_def delivered_def
      flight_ok_def accounted_def sent_total_def)

lemma reachable_inv: "reachable p y \<Longrightarrow> sys_inv y"
  by (induction rule: reachable.induct) (auto intro: sys_inv_init sys_inv_step)

text \<open>
  C22. Delivery. In every reachable state, whatever the interleaving of routers, actors, sweeps,
  restarts, operator calls and stops: the signals an actor accepted are exactly those it has
  processed, in order, followed by those waiting in its mailbox; the mailbox is within its
  capacity; and every signal an actor accepted was routed for that actor's tenant.
\<close>

theorem actor_delivery:
  assumes "reachable p y" and "k < length (su_acts (sy_sup y))"
  shows "map snd (sy_sent y k) = sy_done y k @ ta_inbox (su_acts (sy_sup y) ! k) \<and>
    length (ta_inbox (su_acts (sy_sup y) ! k)) \<le> ta_cap (su_acts (sy_sup y) ! k) \<and>
    ta_processed (su_acts (sy_sup y) ! k) = wrap64 (int (length (sy_done y k))) \<and>
    (\<forall>(t, g) \<in> set (sy_sent y k). t = ta_tenant (su_acts (sy_sup y) ! k))"
  using reachable_inv [OF assms(1)] assms(2) by (simp add: sys_inv_def delivered_def mail_ok_def)

text \<open>
  C28. Accounting. In every reachable state each routing call that has returned was counted exactly
  once, as routed, spilled or dropped (the calls between the lookup and the send are the rest),
  and the routed counter is the number of signals the mailboxes ever accepted (all modulo the
  64-bit width of the counters).
\<close>

theorem routing_accounted:
  assumes "reachable p y"
  shows "wrap64 (ss_TotalRouted (sup_Stats (sy_sup y)) + ss_TotalDropped (sup_Stats (sy_sup y)) +
           ss_TotalSpilled (sup_Stats (sy_sup y)) + int (length (sy_flight y)))
         = wrap64 (int (sy_begun y)) \<and>
    ss_TotalRouted (sup_Stats (sy_sup y)) = wrap64 (\<Sum>k<length (su_acts (sy_sup y)). int (length (sy_sent y k)))"
  using reachable_inv [OF assms] by (simp add: sys_inv_def accounted_def sent_total_def sup_Stats_def)


section \<open>Restarts and stops\<close>

definition live_actor :: "tenant_actor \<Rightarrow> bool" where
  "live_actor a \<longleftrightarrow> ta_running a \<and> \<not> ta_stopped a \<and> \<not> ta_closed a"

definition healthy :: "supervisor \<Rightarrow> bool" where
  "healthy s \<longleftrightarrow>
     (\<forall>a \<in> set (su_acts s). live_actor a) \<and> (\<forall>ma \<in> set (su_mans s). \<not> ma_quarantined ma) \<and>
     su_totalRestarts s = 0 \<and> su_pending s = [] \<and> su_crashes s = []"

lemma live_new [simp]: "live_actor (new_actor_of s t)"
  by (simp add: live_actor_def new_actor_of_def actor_start_def NewTenantActorWithOptions_def)

lemma live_recv [simp]: "live_actor (actor_recv a now clock) = live_actor a"
  by (simp add: live_actor_def actor_recv_def processSignal_def Let_def
      split: list.split prod.split option.split)

lemma live_done [simp]: "live_actor (actor_done a) = live_actor a"
  by (simp add: live_actor_def actor_done_def)

lemma healthy_act_update:
  assumes "healthy s" "live_actor a" shows "healthy (s\<lparr>su_acts := (su_acts s)[k := a]\<rparr>)"
  using assms set_update_subset_insert [of "su_acts s" k a] by (auto simp: healthy_def)

lemma healthy_get: "healthy s \<Longrightarrow> healthy (fst (getOrCreate s t))"
  by (auto simp: getOrCreate_def healthy_def split: option.splits)

lemma healthy_send:
  assumes wf: "sup_wf s" and h: "healthy s" and p: "\<And>m. p = Some m \<Longrightarrow> m < length (su_mans s)"
  shows "route_send s p sg ok \<noteq> None"
    and "route_send s p sg ok = Some s' \<Longrightarrow> healthy s'"
proof -
  have live: "live_actor (su_acts s ! ma_actor (su_mans s ! m))" if "p = Some m" for m
    using h wf_mans [OF wf p [OF that]] by (auto simp: healthy_def)
  then show "route_send s p sg ok \<noteq> None"
    by (auto simp: route_send_def try_send_def live_actor_def split: option.splits)
  assume r: "route_send s p sg ok = Some s'"
  show "healthy s'"
  proof (cases "su_acts s' = su_acts s")
    case True
    then show ?thesis
      using r h by (auto simp: route_send_def healthy_def split: option.splits send_result.splits if_splits)
  next
    case False
    then obtain m where m: "p = Some m"
      using r by (auto simp: route_send_def split: option.splits)
    let ?a = "su_acts s ! ma_actor (su_mans s ! m)"
    have s': "s' = s\<lparr>su_acts := (su_acts s)[ma_actor (su_mans s ! m) := ?a\<lparr>ta_inbox := ta_inbox ?a @ [sg]\<rparr>],
        su_totalRouted := wrap64 (su_totalRouted s + 1)\<rparr>"
      using r False by (auto simp: route_send_def m try_send_def split: if_splits)
    have "healthy (s\<lparr>su_acts := (su_acts s)[ma_actor (su_mans s ! m) := ?a\<lparr>ta_inbox := ta_inbox ?a @ [sg]\<rparr>]\<rparr>)"
      by (rule healthy_act_update [OF h]) (use live [OF m] in \<open>simp add: live_actor_def\<close>)
    then show ?thesis by (simp add: s' healthy_def)
  qed
qed

lemma healthy_sweep_one:
  assumes wf: "sup_wf s" and h: "healthy s" and m: "m < length (su_mans s)"
  shows "sup_wf (sweep_one rnd now s m) \<and> healthy (sweep_one rnd now s m)"
proof
  show "sup_wf (sweep_one rnd now s m)"
    using quiet_sweep_one [OF m] wf by (simp add: quiet_def)
  have run: "IsRunning (su_acts s ! ma_actor (su_mans s ! m))" "\<not> ma_quarantined (su_mans s ! m)"
    using h wf_mans [OF wf m] m by (auto simp: healthy_def live_actor_def IsRunning_def)
  let ?ma = "(su_mans s ! m)\<lparr>ma_restarts := trimBefore (ma_restarts (su_mans s ! m))
      (now - so_RestartWindow (su_opts s))\<rparr>"
  have "sweep_one rnd now s m = s\<lparr>su_mans := (su_mans s)[m := ?ma]\<rparr>"
    using run by (simp add: sweep_one_def Let_def)
  then show "healthy (sweep_one rnd now s m)"
    using h run(2) set_update_subset_insert [of "su_mans s" m ?ma] by (auto simp: healthy_def)
qed

lemma healthy_sweep:
  assumes wf: "sup_wf s" and h: "healthy s" shows "healthy (sweep rnd now s)"
proof -
  have "healthy (foldl (\<lambda>s m. sweep_one (rnd m) now s m) u ms)"
    if "sup_wf u" "healthy u" "\<forall>m \<in> set ms. m < length (su_mans u)" for u ms
    using that
  proof (induction ms arbitrary: u)
    case (Cons m ms)
    then show ?case using healthy_sweep_one [of u m "rnd m" now] by simp
  qed simp
  moreover have "sup_wf (s\<lparr>su_lastHealthAt := now\<rparr>)" "healthy (s\<lparr>su_lastHealthAt := now\<rparr>)"
    using wf h by (simp_all add: sup_wf_def healthy_def)
  moreover have "\<forall>m \<in> set (map snd (su_actors s)). m < length (su_mans (s\<lparr>su_lastHealthAt := now\<rparr>))"
    using wf by (auto simp: sup_wf_def)
  ultimately show ?thesis unfolding sweep_def by blast
qed

lemma healthy_release: "healthy s \<Longrightarrow> healthy (ReleaseQuarantine s t)"
proof -
  assume h: "healthy s"
  show ?thesis
  proof (cases "map_of (su_actors s) t")
    case (Some m)
    let ?ma = "(su_mans s ! m)\<lparr>ma_quarantined := False, ma_restarts := [],
        ma_backoffNext := so_BackoffMin (su_opts s)\<rparr>"
    show ?thesis
      using h set_update_subset_insert [of "su_mans s" m ?ma]
      by (auto simp: ReleaseQuarantine_def Some healthy_def)
  qed (use h in \<open>simp add: ReleaseQuarantine_def\<close>)
qed

lemma healthy_step: "sup_step y z \<Longrightarrow> sys_inv y \<Longrightarrow> \<not> sy_handled z \<Longrightarrow>
  \<not> sy_handled y \<and> (healthy (sy_sup y) \<longrightarrow> healthy (sy_sup z))"
proof (induction rule: sup_step.induct)
  case (begin_route y t s' p sg)
  then show ?case using healthy_get [of "sy_sup y" t] by simp
next
  case (send i y t sg p ok s')
  have "(t, sg, p) \<in> set (sy_flight y)" using send by (metis nth_mem)
  then have "\<And>m. p = Some m \<Longrightarrow> m < length (su_mans (sy_sup y))"
    using send by (auto simp: sys_inv_def flight_ok_def)
  then show ?case
    using send healthy_send(2) [of "sy_sup y" p sg ok s'] by (auto simp: sys_inv_def)
next
  case (recv k y now clock)
  then show ?case by (auto intro!: healthy_act_update) (auto simp: healthy_def)
next
  case (loop_done y k)
  then show ?case by (auto intro!: healthy_act_update) (auto simp: healthy_def)
next
  case (sweep_tick y rnd now)
  then show ?case using healthy_sweep by (simp add: sys_inv_def)
next
  case (restart i y)
  then show ?case by (auto simp: healthy_def)
next
  case (release y t)
  then show ?case using healthy_release by simp
next
  case (set_options y p)
  then show ?case by (simp add: SetActorOptions_def healthy_def)
qed simp_all

lemma reachable_healthy: "reachable p y \<Longrightarrow> \<not> sy_handled y \<Longrightarrow> healthy (sy_sup y)"
proof (induction rule: reachable.induct)
  case start
  then show ?case by (simp add: sys_init_def NewSupervisorWithOptions_def healthy_def)
next
  case (step y z)
  then show ?case using healthy_step [OF step(2) reachable_inv [OF step(1)]] by blast
qed

text \<open>
  Until someone stops an actor or the supervisor, in every reachable state no restart has been
  counted or scheduled, no tenant is quarantined, and no router's send can panic: nothing inside
  the program ever makes an actor look stopped, so the restart and quarantine machinery is only
  reached through \<open>Stop\<close> of an actor handle.
\<close>

theorem no_restart_without_stop:
  assumes "reachable p y" and "\<not> sy_handled y"
  shows "ss_TotalRestarts (sup_Stats (sy_sup y)) = 0 \<and> ss_Quarantined (sup_Stats (sy_sup y)) = 0 \<and>
    su_pending (sy_sup y) = [] \<and>
    (\<forall>(t, sg, ptr) \<in> set (sy_flight y). route_send (sy_sup y) ptr sg ok \<noteq> None)"
proof -
  have h: "healthy (sy_sup y)" by (rule reachable_healthy [OF assms])
  have inv: "sup_wf (sy_sup y)" "flight_ok y" using reachable_inv [OF assms(1)] by (simp_all add: sys_inv_def)
  have "filter (\<lambda>(_, m). ma_quarantined (su_mans (sy_sup y) ! m)) (su_actors (sy_sup y)) = []"
    using h inv(1) by (auto simp: filter_empty_conv sup_wf_def healthy_def)
  moreover have "\<forall>(t, sg, ptr) \<in> set (sy_flight y). route_send (sy_sup y) ptr sg ok \<noteq> None"
  proof (rule ballI)
    fix x assume x: "x \<in> set (sy_flight y)"
    obtain t sg ptr where e: "x = (t, sg, ptr)" by (cases x)
    have "m < length (su_mans (sy_sup y))" if "ptr = Some m" for m
      using inv(2) x that by (auto simp: flight_ok_def e)
    then have "route_send (sy_sup y) ptr sg ok \<noteq> None"
      by (rule healthy_send(1) [OF inv(1) h])
    then show "case x of (t, sg, ptr) \<Rightarrow> route_send (sy_sup y) ptr sg ok \<noteq> None"
      by (simp add: e)
  qed
  ultimately show ?thesis using h by (simp add: sup_Stats_def healthy_def)
qed

lemma stop_acts_closes:
  assumes "\<forall>k < length acts. ta_stopped (acts ! k) \<longrightarrow> ta_closed (acts ! k)" "k < length acts"
    and "(\<exists>(t, m) \<in> set ents. ma_actor (su_mans s ! m) = k) \<or> ta_closed (acts ! k)"
  shows "ta_closed (stop_acts s ents acts ! k)"
  using assms
proof (induction ents arbitrary: acts)
  case (Cons x ents)
  obtain t m where x: "x = (t, m)" by (cases x)
  let ?k = "ma_actor (su_mans s ! m)"
  define acts' where "acts' = acts[?k := actor_stop (acts ! ?k)]"
  have step: "stop_acts s (x # ents) acts = stop_acts s ents acts'"
    by (simp add: stop_acts_def x acts'_def)
  have len: "length acts' = length acts" by (simp add: acts'_def)
  have at: "acts' ! j = (if j = ?k then actor_stop (acts ! j) else acts ! j)" if "j < length acts" for j
    unfolding acts'_def using that by (cases "j = ?k") simp_all
  show ?case
    unfolding step
  proof (rule Cons.IH)
    show "\<forall>j < length acts'. ta_stopped (acts' ! j) \<longrightarrow> ta_closed (acts' ! j)"
    proof (intro allI impI)
      fix j assume "j < length acts'" "ta_stopped (acts' ! j)"
      then show "ta_closed (acts' ! j)"
        using Cons.prems(1) len at [of j] by (auto simp: actor_stop_def split: if_splits)
    qed
    show "(\<exists>(t, m) \<in> set ents. ma_actor (su_mans s ! m) = k) \<or> ta_closed (acts' ! k)"
      using Cons.prems at [OF Cons.prems(2)] by (auto simp: x actor_stop_def split: if_splits)
  qed (use Cons.prems len in simp)
qed (simp add: stop_acts_def)

text \<open>
  Stopping the supervisor while a router is between its lookup and its send makes the send
  panic: in every reachable state where nothing was stopped before, for every pending router
  whose managed actor is still in the map, \<open>Stop\<close> followed by the send is a send on a closed
  channel.
\<close>

theorem stop_race_panics:
  assumes "reachable p y" and "\<not> sy_handled y" and "\<not> su_stopped (sy_sup y)"
    and "(t, sg, Some m) \<in> set (sy_flight y)" and "(t, m) \<in> set (su_actors (sy_sup y))"
  shows "route_send (sup_Stop (sy_sup y)) (Some m) sg ok = None"
proof -
  let ?s = "sy_sup y"
  have h: "healthy ?s" by (rule reachable_healthy [OF assms(1,2)])
  have wf: "sup_wf ?s" using reachable_inv [OF assms(1)] by (simp add: sys_inv_def)
  have "m < length (su_mans ?s)" using wf assms(5) by (auto simp: sup_wf_def)
  then have k: "ma_actor (su_mans ?s ! m) < length (su_acts ?s)" using wf_mans [OF wf] by blast
  have "ta_closed (stop_acts ?s (su_actors ?s) (su_acts ?s) ! ma_actor (su_mans ?s ! m))"
    by (rule stop_acts_closes) (use h assms(5) k in \<open>auto simp: healthy_def live_actor_def\<close>)
  then show ?thesis
    by (simp add: route_send_def sup_Stop_def assms(3) try_send_def)
qed


section \<open>A run\<close>

text \<open>One signal routed to a new tenant, then a second router that has looked up but not sent.\<close>

definition demo_signal :: signal where
  "demo_signal = \<lparr>sig_tenant = ''acme'', sig_type = Log, sig_payload = [], sig_attrs = Map.empty,
     sig_received = 0\<rparr>"

definition demo_sup :: sup_options where
  "demo_sup = \<lparr>so_MailboxSize = 2, so_MaxRestarts = 1, so_RestartWindow = 60, so_BackoffMin = 1,
     so_BackoffMax = 8, so_HealthInterval = 5,
     so_ActorOptions = \<lparr>ao_errorEPS = Fin 1, ao_latencyMS = Fin 1, ao_window = 60, ao_sink = False\<rparr>,
     so_Spillover = False\<rparr>"

definition demo_begun :: system where
  "demo_begun = (sys_init demo_sup)\<lparr>
     sy_sup := fst (getOrCreate (sy_sup (sys_init demo_sup)) ''acme''),
     sy_flight := [(''acme'', demo_signal, Some 0)], sy_begun := 1\<rparr>"

lemma demo_get: "getOrCreate (sy_sup (sys_init demo_sup)) ''acme'' =
    (fst (getOrCreate (sy_sup (sys_init demo_sup)) ''acme''), Some 0)"
  by (simp add: getOrCreate_def sys_init_def NewSupervisorWithOptions_def)

lemma demo_begun_reachable: "reachable demo_sup demo_begun"
proof -
  have "sup_step (sys_init demo_sup) demo_begun"
    using sup_step.begin_route [OF demo_get, of demo_signal]
    by (simp add: demo_begun_def sys_init_def)
  then show ?thesis by (rule reachable.step [OF reachable.start])
qed

lemma demo_facts:
  "length (su_acts (sy_sup demo_begun)) = 1" "su_actors (sy_sup demo_begun) = [(''acme'', 0)]"
  "\<not> sy_handled demo_begun" "\<not> su_stopped (sy_sup demo_begun)"
  "(''acme'', demo_signal, Some 0) \<in> set (sy_flight demo_begun)" "sy_begun demo_begun = 1"
  "ta_tenant (su_acts (sy_sup demo_begun) ! 0) = ''acme''"
  by (simp_all add: demo_begun_def getOrCreate_def sys_init_def NewSupervisorWithOptions_def)

definition demo_sent :: system where
  "demo_sent = demo_begun\<lparr>
     sy_sup := the (route_send (sy_sup demo_begun) (Some 0) demo_signal True),
     sy_flight := [], sy_sent := (sy_sent demo_begun)(0 := [(''acme'', demo_signal)])\<rparr>"

lemma demo_sent_reachable: "reachable demo_sup demo_sent"
proof -
  have ma: "ma_actor (su_mans (sy_sup demo_begun) ! 0) = 0"
    "ta_closed (su_acts (sy_sup demo_begun) ! 0) = False"
    "ta_inbox (su_acts (sy_sup demo_begun) ! 0) = []" "ta_cap (su_acts (sy_sup demo_begun) ! 0) = 2"
    by (simp_all add: demo_begun_def getOrCreate_def sys_init_def NewSupervisorWithOptions_def
        new_actor_of_def demo_sup_def sup_defaults_def)
  have fl: "sy_flight demo_begun ! 0 = (''acme'', demo_signal, Some 0)"
    "length (sy_flight demo_begun) = 1" "remove_at 0 (sy_flight demo_begun) = []"
    "sy_sent demo_begun 0 = []"
    by (simp_all add: demo_begun_def remove_at_def sys_init_def)
  have r: "route_send (sy_sup demo_begun) (Some 0) demo_signal True =
      Some (the (route_send (sy_sup demo_begun) (Some 0) demo_signal True))"
    by (simp add: route_send_def try_send_def ma)
  have a: "accepts (sy_sup demo_begun) (Some 0) = Some 0"
    by (simp add: accepts_def ma)
  have "sup_step demo_begun demo_sent"
    using sup_step.send [of 0 demo_begun, OF _ fl(1) r]
    by (simp add: fl record_sent_def a demo_sent_def)
  then show ?thesis by (rule reachable.step [OF demo_begun_reachable])
qed

lemma demo_sent_facts: "length (su_acts (sy_sup demo_sent)) = 1" "sy_done demo_sent 0 = []"
  "sy_sent demo_sent 0 = [(''acme'', demo_signal)]" "sy_flight demo_sent = []" "sy_begun demo_sent = 1"
proof -
  show "length (su_acts (sy_sup demo_sent)) = 1"
    using demo_facts(1)
    by (auto simp: demo_sent_def route_send_def try_send_def demo_begun_def getOrCreate_def
        sys_init_def NewSupervisorWithOptions_def new_actor_of_def demo_sup_def sup_defaults_def)
qed (simp_all add: demo_sent_def demo_facts(6), simp add: demo_begun_def sys_init_def)

theorem actor_delivery_witness:
  "ta_inbox (su_acts (sy_sup demo_sent) ! 0) = [demo_signal]"
  using actor_delivery [OF demo_sent_reachable, of 0] by (simp add: demo_sent_facts)

theorem routing_accounted_witness:
  "ss_TotalRouted (sup_Stats (sy_sup demo_sent)) = 1"
  using routing_accounted [OF demo_sent_reachable] by (simp add: demo_sent_facts wrap64_def)

theorem no_restart_without_stop_witness:
  "ss_TotalRestarts (sup_Stats (sy_sup demo_begun)) = 0 \<and> su_pending (sy_sup demo_begun) = []"
  using no_restart_without_stop [OF demo_begun_reachable demo_facts(3)] by blast

theorem stop_race_panics_witness:
  "route_send (sup_Stop (sy_sup demo_begun)) (Some 0) demo_signal True = None"
  by (rule stop_race_panics [OF demo_begun_reachable demo_facts(3,4,5)]) (simp add: demo_facts)

end
