(* ===== verification/GoFmt.thy ===== *)
theory GoFmt
  imports GoNum
begin

text \<open>
  More of Go's standard library as the components use it: \<open>strconv.FormatFloat\<close> in format \<open>'f'\<close>
  with a given or the shortest precision, \<open>time.Time.Format\<close> with \<open>time.RFC3339Nano\<close> for UTC times,
  and \<open>hex.EncodeToString\<close>.
\<close>

section \<open>FormatFloat\<close>

text \<open>A decimal \<open>v / 10 ^ n\<close> written with \<open>n\<close> digits after the dot.\<close>

definition show_fixed :: "nat \<Rightarrow> nat \<Rightarrow> string" where
  "show_fixed v n =
     show_nat (v div 10 ^ n) @ (if n = 0 then [] else CHR ''.'' # pad_zeros n (show_nat (v mod 10 ^ n)))"

definition signed :: "rat \<Rightarrow> string \<Rightarrow> string" where
  "signed x s = (if x < 0 then CHR ''-'' # s else s)"

text \<open>\<open>FormatFloat(x, 'f', n, 64)\<close>: the exact value rounded to \<open>n\<close> digits.\<close>

definition fmt_fixed :: "nat \<Rightarrow> f64 \<Rightarrow> string" where
  "fmt_fixed n a =
     (case a of
        Fin x \<Rightarrow> signed x (show_fixed (nat (round_half_even (\<bar>x\<bar> * 10 ^ n))) n)
      | PInf \<Rightarrow> ''+Inf'' | NInf \<Rightarrow> ''-Inf'' | NaN \<Rightarrow> ''NaN'')"

text \<open>\<open>FormatFloat(x, 'f', -1, 64)\<close>: the shortest decimal that reads back as \<open>x\<close>. \<open>scaled_pick x e\<close>
  looks at the two multiples of \<open>10 ^ e\<close> next to \<open>x\<close>; the search raises the number of digits, at
  most 17 of which are needed.\<close>

definition scaled_pick :: "rat \<Rightarrow> int \<Rightarrow> int option" where
  "scaled_pick x e =
     (let y = x / 10 powi e; lo = \<lfloor>y\<rfloor>; hi = lo + 1;
          ok = (\<lambda>k. fround (of_int k * 10 powi e) = Fin x)
      in if ok lo \<and> ok hi then Some (round_half_even y)
         else if ok lo then Some lo else if ok hi then Some hi else None)"

fun shortest_from :: "rat \<Rightarrow> int \<Rightarrow> nat \<Rightarrow> int \<times> int" where
  "shortest_from x e 0 = (\<lfloor>x / 10 powi e\<rfloor>, e)"
| "shortest_from x e (Suc k) =
     (case scaled_pick x e of Some v \<Rightarrow> (v, e) | None \<Rightarrow> shortest_from x (e - 1) k)"

definition fdigits :: "rat \<Rightarrow> int" where
  "fdigits x = (let p = int (length (show_nat (nat \<lfloor>x\<rfloor>)))
     in if 1 \<le> x then p else - int (length (show_nat (nat \<lfloor>1 / x\<rfloor>))) + 1)"

definition fmt_shortest :: "f64 \<Rightarrow> string" where
  "fmt_shortest a =
     (case a of
        Fin x \<Rightarrow>
          if x = 0 then ''0''
          else
            let (v, e) = shortest_from \<bar>x\<bar> (fdigits \<bar>x\<bar>) 18
            in signed x (if 0 \<le> e then show_nat (nat v * 10 ^ nat e) else show_fixed (nat v) (nat (- e)))
      | PInf \<Rightarrow> ''+Inf'' | NInf \<Rightarrow> ''-Inf'' | NaN \<Rightarrow> ''NaN'')"

section \<open>Times\<close>

text \<open>The proleptic Gregorian date of a day number counted from 1970-01-01, by eras of 400 years.\<close>

definition civil_of_days :: "int \<Rightarrow> int \<times> int \<times> int" where
  "civil_of_days z0 =
     (let z = z0 + 719468;
          era = z div 146097;
          doe = z mod 146097;
          yoe = (doe - doe div 1460 + doe div 36524 - doe div 146096) div 365;
          doy = doe - (365 * yoe + yoe div 4 - yoe div 100);
          mp = (5 * doy + 2) div 153;
          d = doy - (153 * mp + 2) div 5 + 1;
          m = (if mp < 10 then mp + 3 else mp - 9);
          y = yoe + era * 400
      in (if m \<le> 2 then y + 1 else y, m, d))"

definition two :: "int \<Rightarrow> string" where
  "two n = pad_zeros 2 (show_nat (nat n))"

definition rfc3339nano :: "int \<Rightarrow> string" where
  "rfc3339nano t =
     (let (y, m, d) = civil_of_days (t div (86400 * second));
          s = (t div second) mod 86400
      in (if y < 0 then CHR ''-'' # pad_zeros 4 (show_nat (nat (- y))) else pad_zeros 4 (show_nat (nat y)))
         @ ''-'' @ two m @ ''-'' @ two d @ ''T'' @ two (s div 3600) @ '':'' @ two (s div 60 mod 60)
         @ '':'' @ two (s mod 60) @ fmt_frac (nat (t mod second)) 9 @ ''Z'')"

section \<open>Hexadecimal\<close>

definition hex_digit :: "nat \<Rightarrow> char" where
  "hex_digit n = (if n < 10 then char_of (48 + n) else char_of (87 + n))"

definition hex_encode :: "nat list \<Rightarrow> string" where
  "hex_encode bs = concat (map (\<lambda>b. [hex_digit (b div 16), hex_digit (b mod 16)]) bs)"

lemma civil_examples: "civil_of_days 0 = (1970, 1, 1)" "civil_of_days 19782 = (2024, 2, 29)"
  "civil_of_days (- 1) = (1969, 12, 31)"
  by code_simp+

end
