(* ===== verification/Notifier.thy ===== *)
theory Notifier
  imports GoFmt
begin

text \<open>
  The notifiers of the alert manager (\<open>pkg/notifier\<close>): the message each of the three sends and the
  dispatcher over them. A message is the request a notifier posts; \<open>post\<close> is the world's answer to
  it, a status, or \<open>None\<close> for a connection that failed or ran out of time. JSON texts are left as the
  values they encode. A time is in nanoseconds, the zero time is \<open>None\<close>.
\<close>

record notification =
  no_fingerprint :: string
  no_tenant :: string
  no_severity :: string
  no_title :: string
  no_description :: string
  no_source :: string
  no_labels :: "(string \<times> string) list"
  no_annotations :: "(string \<times> string) list"
  no_starts :: "int option"
  no_ends :: "int option"

definition SeverityCritical :: string where "SeverityCritical = ''critical''"
definition SeverityWarning :: string where "SeverityWarning = ''warning''"
definition SeverityInfo :: string where "SeverityInfo = ''info''"

definition is_resolved :: "int \<Rightarrow> notification \<Rightarrow> bool" where
  "is_resolved now n = (case no_ends n of None \<Rightarrow> False | Some t \<Rightarrow> t < now)"

section \<open>The messages\<close>

datatype message =
    SlackText string "string option"
  | PagerDutyEvent string string string notification
  | WebhookBody notification

record http_call =
  hc_url :: string
  hc_headers :: "(string \<times> string) list"
  hc_message :: message

type_synonym world = "http_call \<Rightarrow> nat option"

datatype send_error = NotConfigured | PostFailed | BadStatus nat

definition do_post :: "world \<Rightarrow> http_call \<Rightarrow> send_error option" where
  "do_post post c =
     (case post c of None \<Rightarrow> Some PostFailed | Some st \<Rightarrow> if 400 \<le> st then Some (BadStatus st) else None)"

definition severityIcon :: "string \<Rightarrow> string" where
  "severityIcon s =
     (if s = SeverityCritical then '':rotating_light:''
      else if s = SeverityWarning then '':warning:'' else '':information_source:'')"

definition em_dash :: string where "em_dash = map char_of [226, 128, 148 :: nat]"

definition slack_text :: "int \<Rightarrow> notification \<Rightarrow> string" where
  "slack_text now n =
     (let r = is_resolved now n
      in (if r then '':white_check_mark:'' else severityIcon (no_severity n)) @ '' *['' @
         (if r then ''RESOLVED'' else ''FIRING'') @ '']['' @ no_severity n @ ''] '' @ no_title n @ ''* '' @
         em_dash @ '' tenant '' @ [char_of (96 :: nat)] @ no_tenant n @ [char_of (96 :: nat), char_of (10 :: nat)] @
         no_description n)"

definition pagerduty_action :: "int \<Rightarrow> notification \<Rightarrow> string" where
  "pagerduty_action now n = (if is_resolved now n then ''resolve'' else ''trigger'')"

datatype target =
    Slack string string
  | PagerDuty string
  | Webhook string "(string \<times> string) list"

definition target_name :: "target \<Rightarrow> string" where
  "target_name t = (case t of Slack _ _ \<Rightarrow> ''slack'' | PagerDuty _ \<Rightarrow> ''pagerduty'' | Webhook _ _ \<Rightarrow> ''webhook'')"

definition json_header :: "(string \<times> string) list" where
  "json_header = [(''Content-Type'', ''application/json'')]"

text \<open>The request of \<open>Send\<close>; \<open>None\<close> when the notifier is not configured.\<close>

definition request_of :: "int \<Rightarrow> target \<Rightarrow> notification \<Rightarrow> http_call option" where
  "request_of now t n =
     (case t of
        Slack url channel \<Rightarrow>
          if url = [] then None
          else Some \<lparr>hc_url = url, hc_headers = json_header,
                     hc_message = SlackText (slack_text now n) (if channel = [] then None else Some channel)\<rparr>
      | PagerDuty key \<Rightarrow>
          if key = [] then None
          else Some \<lparr>hc_url = ''https://events.pagerduty.com/v2/enqueue'', hc_headers = json_header,
                     hc_message = PagerDutyEvent key (pagerduty_action now n) (no_fingerprint n) n\<rparr>
      | Webhook url headers \<Rightarrow>
          if url = [] then None
          else Some \<lparr>hc_url = url, hc_headers = json_header @ headers, hc_message = WebhookBody n\<rparr>)"

definition Send :: "world \<Rightarrow> int \<Rightarrow> target \<Rightarrow> notification \<Rightarrow> send_error option" where
  "Send post now t n = (case request_of now t n of None \<Rightarrow> Some NotConfigured | Some c \<Rightarrow> do_post post c)"

section \<open>The dispatcher\<close>

record dispatcher =
  dp_notifiers :: "target list"
  dp_parallel :: int

definition NewDispatcher :: "target list \<Rightarrow> int option \<Rightarrow> dispatcher" where
  "NewDispatcher ts parallel =
     (let p = (case parallel of None \<Rightarrow> int (length ts) | Some k \<Rightarrow> k)
      in \<lparr>dp_notifiers = ts, dp_parallel = (if p < 1 then 1 else p)\<rparr>)"

text \<open>The errors of the notifiers that failed; the code has them in the order they arrive, which
  nothing depends on. \<open>now i\<close> is the clock as the i-th notifier reads it.\<close>

definition Dispatch :: "world \<Rightarrow> (nat \<Rightarrow> int) \<Rightarrow> dispatcher \<Rightarrow> notification \<Rightarrow> (string \<times> send_error) list" where
  "Dispatch post now d n =
     List.map_filter (\<lambda>(i, t). map_option (\<lambda>e. (target_name t, e)) (Send post (now i) t n))
       (zip [0..<length (dp_notifiers d)] (dp_notifiers d))"

definition notifierNames :: "target list \<Rightarrow> string list" where
  "notifierNames ts = map target_name ts"

text \<open>The notifiers the environment configures; none at all is an error at start-up.\<close>

definition buildDispatcher :: "(string \<Rightarrow> string) \<Rightarrow> dispatcher option" where
  "buildDispatcher env =
     (let slack = env ''OBSERVE_X_SLACK_WEBHOOK_URL''; key = env ''OBSERVE_X_PAGERDUTY_INTEGRATION_KEY'';
          hook = env ''OBSERVE_X_WEBHOOK_URL''; token = env ''OBSERVE_X_WEBHOOK_TOKEN'';
          ts = (if slack \<noteq> [] then [Slack slack []] else []) @ (if key \<noteq> [] then [PagerDuty key] else []) @
               (if hook \<noteq> [] then [Webhook hook (if token \<noteq> [] then [(''Authorization'', ''Bearer '' @ token)] else [])]
                else [])
      in if ts = [] then None else Some (NewDispatcher ts None))"

section \<open>Facts\<close>

lemma Dispatch_Nil: "Dispatch post now d n = [] \<longleftrightarrow>
  (\<forall>i < length (dp_notifiers d). Send post (now i) (dp_notifiers d ! i) n = None)"
proof -
  have "Dispatch post now d n = [] \<longleftrightarrow>
      (\<forall>x \<in> set (zip [0..<length (dp_notifiers d)] (dp_notifiers d)). Send post (now (fst x)) (snd x) n = None)"
    by (auto simp: Dispatch_def List.map_filter_def filter_empty_conv split: prod.splits)
  also have "\<dots> \<longleftrightarrow> (\<forall>i < length (dp_notifiers d). Send post (now i) (dp_notifiers d ! i) n = None)"
    by (simp add: set_zip) (metis add_0 nth_upt)
  finally show ?thesis .
qed

end
