(* ===== verification/AuditLog.thy ===== *)
theory AuditLog
  imports Bytes GoFmt
begin

unbundle bit_operations_syntax

text \<open>
  The audit export (\<open>pkg/auditlog\<close>): the file exporter, the S3 exporter with its pending batch and
  its uploads, and the buffered wrapper. Serialisation is left to the record itself; what an exporter
  has written is the list of records in it. Whether a write or an upload succeeds is an input.
\<close>

section \<open>Records and the file exporter\<close>

record audit_record =
  au_id :: string
  au_tenant :: string
  au_actor :: string
  au_action :: string
  au_details :: "string \<rightharpoonup> string"
  au_source :: string
  au_at :: int

datatype audit_error = ActorRequired | ActionRequired | TimeRequired | WriteFailed | PutFailed

text \<open>Times are in nanoseconds since the epoch; Go's zero time is the start of year 1.\<close>

definition Record_Validate :: "audit_record \<Rightarrow> audit_error option" where
  "Record_Validate r =
     (if au_actor r = [] then Some ActorRequired
      else if au_action r = [] then Some ActionRequired
      else if au_at r = - 62135596800 * second then Some TimeRequired else None)"

record file_exporter =
  fx_lines :: "audit_record list"
  fx_open :: bool

definition file_Append :: "bool \<Rightarrow> file_exporter \<Rightarrow> audit_record \<Rightarrow> file_exporter \<times> audit_error option" where
  "file_Append ok e r =
     (case Record_Validate r of
        Some err \<Rightarrow> (e, Some err)
      | None \<Rightarrow>
          if fx_open e \<and> ok then (e\<lparr>fx_lines := fx_lines e @ [r]\<rparr>, None) else (e, Some WriteFailed))"

definition file_Close :: "file_exporter \<Rightarrow> file_exporter" where
  "file_Close e = e\<lparr>fx_open := False\<rparr>"

section \<open>The S3 exporter\<close>

text \<open>\<open>sx_flying\<close> holds the batches taken by a flush that has not ended.\<close>

record s3_object =
  ob_key :: string
  ob_records :: "audit_record list"
  ob_lock :: "(string \<times> int) option"

record s3_exporter =
  sx_prefix :: string
  sx_mode :: string
  sx_retain :: int
  sx_flush_at :: int
  sx_pending :: "audit_record list"
  sx_flying :: "audit_record list list"
  sx_objects :: "s3_object list"
  sx_stopped :: bool

record s3_options =
  s3_bucket :: string
  s3_prefix :: string
  s3_lock_mode :: string
  s3_retain :: int
  s3_flush_interval :: int
  s3_flush_at :: int

definition s3_defaults :: "s3_options \<Rightarrow> s3_options" where
  "s3_defaults p =
     (let pre = (if s3_prefix p = [] then ''audit/'' else s3_prefix p)
      in p\<lparr>s3_prefix := (if has_suffix pre ''/'' then pre else pre @ ''/''),
           s3_flush_interval := (if s3_flush_interval p = 0 then 60 * second else s3_flush_interval p),
           s3_flush_at := (if s3_flush_at p = 0 then 1000 else s3_flush_at p),
           s3_retain := (if s3_lock_mode p \<noteq> [] \<and> s3_retain p = 0 then 365 * 24 * hour else s3_retain p)\<rparr>)"

definition upper_char :: "char \<Rightarrow> char" where
  "upper_char c = (if is_lower c then char_of ((of_char c :: nat) - 32) else c)"

text \<open>\<open>cfg_ok\<close>: the AWS configuration loads.\<close>

definition NewS3Exporter :: "bool \<Rightarrow> s3_options \<Rightarrow> s3_exporter option" where
  "NewS3Exporter cfg_ok opts =
     (let p = s3_defaults opts; up = map upper_char (s3_lock_mode p)
      in if s3_bucket p = [] \<or> \<not> cfg_ok \<or> up \<notin> {[], ''GOVERNANCE'', ''COMPLIANCE''} then None
         else Some \<lparr>sx_prefix = s3_prefix p, sx_mode = up, sx_retain = s3_retain p, sx_flush_at = s3_flush_at p,
                    sx_pending = [], sx_flying = [], sx_objects = [], sx_stopped = False\<rparr>)"

definition hex_at :: "int \<Rightarrow> nat \<Rightarrow> char" where
  "hex_at now i = hex_digit (nat (now div 16 ^ i mod 16))"

definition randomSuffix :: "nat \<Rightarrow> int \<Rightarrow> string" where
  "randomSuffix n now = map (hex_at now) [0..<n]"

text \<open>\<open>t\<close> in nanoseconds since the epoch; \<open>now\<close> is the clock of the suffix.\<close>

definition objectKey :: "string \<Rightarrow> int \<Rightarrow> int \<Rightarrow> string" where
  "objectKey prefix t now =
     (case civil_of_days (t div (24 * hour)) of
        (y, mon, d) \<Rightarrow>
          prefix @ pad_zeros 4 (show_nat (nat y)) @ ''/'' @ two mon @ ''/'' @ two d @ ''/'' @ two (t div hour mod 24) @ ''/'' @
          show_int (t div millisecond) @ ''-'' @ randomSuffix 6 now @ ''.ndjson'')"

definition s3_take :: "s3_exporter \<Rightarrow> s3_exporter \<times> audit_record list" where
  "s3_take e =
     (e\<lparr>sx_pending := [],
        sx_flying := (if sx_pending e = [] then sx_flying e else sx_flying e @ [sx_pending e])\<rparr>, sx_pending e)"

datatype put_result = Stored | Failed | StoredButFailed

text \<open>The end of a flush of \<open>batch\<close>: an upload that reports an error may have stored the object.\<close>

definition s3_put :: "int \<Rightarrow> int \<Rightarrow> put_result \<Rightarrow> audit_record list \<Rightarrow> s3_exporter \<Rightarrow> s3_exporter \<times> audit_error option" where
  "s3_put t now res batch e =
     (let ob = \<lparr>ob_key = objectKey (sx_prefix e) t now, ob_records = batch,
                ob_lock = (if sx_mode e = [] then None else Some (sx_mode e, t + sx_retain e))\<rparr>;
          e1 = e\<lparr>sx_flying := remove1 batch (sx_flying e)\<rparr>
      in case res of
           Stored \<Rightarrow> (e1\<lparr>sx_objects := sx_objects e @ [ob]\<rparr>, None)
         | Failed \<Rightarrow> (e1\<lparr>sx_pending := batch @ sx_pending e\<rparr>, Some PutFailed)
         | StoredButFailed \<Rightarrow>
             (e1\<lparr>sx_objects := sx_objects e @ [ob], sx_pending := batch @ sx_pending e\<rparr>, Some PutFailed))"

definition s3_flush :: "int \<times> int \<times> put_result \<Rightarrow> s3_exporter \<Rightarrow> s3_exporter \<times> audit_error option" where
  "s3_flush env e =
     (case s3_take e of
        (e1, []) \<Rightarrow> (e1, None)
      | (e1, batch) \<Rightarrow> (case env of (t, now, res) \<Rightarrow> s3_put t now res batch e1))"

definition s3_enqueue :: "s3_exporter \<Rightarrow> audit_record \<Rightarrow> s3_exporter \<times> bool" where
  "s3_enqueue e r =
     (let p = sx_pending e @ [r] in (e\<lparr>sx_pending := p\<rparr>, sx_flush_at e \<le> int (length p)))"

definition s3_Append ::
  "int \<times> int \<times> put_result \<Rightarrow> s3_exporter \<Rightarrow> audit_record \<Rightarrow> s3_exporter \<times> audit_error option" where
  "s3_Append env e r =
     (case Record_Validate r of
        Some err \<Rightarrow> (e, Some err)
      | None \<Rightarrow> (case s3_enqueue e r of
          (e1, True) \<Rightarrow> s3_flush env e1
        | (e1, False) \<Rightarrow> (e1, None)))"

text \<open>Closing a closed channel panics.\<close>

definition s3_Close :: "int \<times> int \<times> put_result \<Rightarrow> s3_exporter \<Rightarrow> (s3_exporter \<times> audit_error option) option" where
  "s3_Close env e = (if sx_stopped e then None else Some (s3_flush env (e\<lparr>sx_stopped := True\<rparr>)))"

section \<open>The checksum\<close>

definition b64_alphabet :: string where
  "b64_alphabet = ''ABCDEFGHIJKLMNOPQRSTUVWXYZabcdefghijklmnopqrstuvwxyz0123456789+/''"

definition b64_char :: "32 word \<Rightarrow> char" where
  "b64_char v = b64_alphabet ! unat (v AND 0x3F)"

definition u32 :: "byte \<Rightarrow> 32 word" where
  "u32 b = ucast b"

fun hexToBase64SHA256 :: "byte list \<Rightarrow> string" where
  "hexToBase64SHA256 (a # b # c # rest) =
     (let v = push_bit 16 (u32 a) OR push_bit 8 (u32 b) OR u32 c
      in b64_char (drop_bit 18 v) # b64_char (drop_bit 12 v) # b64_char (drop_bit 6 v) # b64_char v #
         hexToBase64SHA256 rest)"
| "hexToBase64SHA256 [a, b] =
     (let v = push_bit 8 (u32 a) OR u32 b
      in [b64_char (drop_bit 10 v), b64_char (drop_bit 4 v), b64_char (push_bit 2 v), CHR ''=''])"
| "hexToBase64SHA256 _ = []"

section \<open>The buffered exporter\<close>

record 's buffered =
  bx_inner :: 's
  bx_buf :: "audit_record list"
  bx_cap :: nat
  bx_stopped :: bool
  bx_exited :: bool

definition NewBufferedExporter :: "'s \<Rightarrow> int \<Rightarrow> 's buffered" where
  "NewBufferedExporter inner n =
     \<lparr>bx_inner = inner, bx_buf = [], bx_cap = nat (if n \<le> 0 then 1024 else n), bx_stopped = False, bx_exited = False\<rparr>"

definition buf_Append ::
  "('s \<Rightarrow> audit_record \<Rightarrow> 's \<times> audit_error option) \<Rightarrow> 's buffered \<Rightarrow> audit_record \<Rightarrow>
   's buffered \<times> audit_error option" where
  "buf_Append app b r =
     (if length (bx_buf b) < bx_cap b then (b\<lparr>bx_buf := bx_buf b @ [r]\<rparr>, None)
      else case app (bx_inner b) r of (s, e) \<Rightarrow> (b\<lparr>bx_inner := s\<rparr>, e))"

text \<open>One turn of the worker; after the stop it drains the buffer and ends.\<close>

definition buf_run :: "('s \<Rightarrow> audit_record \<Rightarrow> 's \<times> audit_error option) \<Rightarrow> 's buffered \<Rightarrow> 's buffered" where
  "buf_run app b =
     (if bx_exited b then b
      else case bx_buf b of
        r # rest \<Rightarrow> b\<lparr>bx_buf := rest, bx_inner := fst (app (bx_inner b) r)\<rparr>
      | [] \<Rightarrow> if bx_stopped b then b\<lparr>bx_exited := True\<rparr> else b)"

definition buf_stop :: "'s buffered \<Rightarrow> 's buffered" where
  "buf_stop b = b\<lparr>bx_stopped := True\<rparr>"

end
