(* ===== verification/AlertManager.thy ===== *)
theory AlertManager
  imports Sloburn Auth Notifier AuditLog
begin

text \<open>
  The alert manager (\<open>services/alert-manager\<close>): the alert store with its fingerprints, upserts,
  resolutions and silences, the server-sent-event hub, and the HTTP handlers over them. The tables
  are lists of rows; each database call takes whether the database answers. The tenant is the one
  the authentication middleware put in the header. Goroutines that dispatch notifications are
  entries of \<open>am_tasks\<close> until their step runs; records handed to the audit exporter are \<open>am_audit\<close>.
  SHA-256, the formatting of a burn rate and the parsing of a timestamp are parameters or inputs;
  label maps are lists of pairs with distinct keys.
\<close>

type_synonym labels = "(string \<times> string) list"

section \<open>The store\<close>

datatype alert_state = Firing | Resolved

record alert =
  al_fingerprint :: string
  al_tenant :: string
  al_rule :: string
  al_severity :: string
  al_title :: string
  al_description :: string
  al_labels :: labels
  al_annotations :: labels
  al_state :: alert_state
  al_starts :: int
  al_last_seen :: int
  al_resolved :: "int option"
  al_notified :: "int option"
  al_notify_count :: int

record silence =
  si_id :: nat
  si_tenant :: string
  si_matcher :: labels
  si_reason :: string
  si_expires :: int

datatype history_event = Created | Updated | Notified | ResolvedEvent

record history_row =
  hi_fingerprint :: string
  hi_tenant :: string
  hi_event :: history_event
  hi_severity :: "string option"

record alert_store =
  as_alerts :: "alert list"
  as_silences :: "silence list"
  as_history :: "history_row list"

definition nul :: char where "nul = char_of (0 :: nat)"

text \<open>What \<open>Fingerprint\<close> writes into the hash.\<close>

definition fingerprint_bytes :: "string \<Rightarrow> string \<Rightarrow> labels \<Rightarrow> string" where
  "fingerprint_bytes tid rid ls =
     tid @ [nul] @ rid @ [nul] @
     concat (map (\<lambda>k. k @ ''='' @ the (map_of ls k) @ '';'') (sort_strs (map fst ls)))"

definition Fingerprint :: "(string \<Rightarrow> string) \<Rightarrow> string \<Rightarrow> string \<Rightarrow> labels \<Rightarrow> string" where
  "Fingerprint sha tid rid ls = sha (fingerprint_bytes tid rid ls)"

definition find_alert :: "alert_store \<Rightarrow> string \<Rightarrow> alert option" where
  "find_alert st fp = List.find (\<lambda>a. al_fingerprint a = fp) (as_alerts st)"

definition update_alert :: "alert_store \<Rightarrow> string \<Rightarrow> (alert \<Rightarrow> alert) \<Rightarrow> alert_store" where
  "update_alert st fp f =
     st\<lparr>as_alerts := map (\<lambda>a. if al_fingerprint a = fp then f a else a) (as_alerts st)\<rparr>"

definition add_history :: "alert_store \<Rightarrow> history_row \<Rightarrow> alert_store" where
  "add_history st h = st\<lparr>as_history := as_history st @ [h]\<rparr>"

text \<open>\<open>UpsertFiring\<close>: one transaction; \<open>None\<close> when the database fails.\<close>

definition UpsertFiring :: "alert_store \<Rightarrow> bool \<Rightarrow> alert \<Rightarrow> (alert_store \<times> bool) option" where
  "UpsertFiring st up a =
     (if \<not> up then None
      else
        let (st1, fresh) =
          (case find_alert st (al_fingerprint a) of
             None \<Rightarrow>
               (st\<lparr>as_alerts := as_alerts st @
                   [a\<lparr>al_state := Firing, al_resolved := None, al_notified := None, al_notify_count := 0\<rparr>]\<rparr>,
                True)
           | Some e \<Rightarrow>
               (case al_state e of
                  Resolved \<Rightarrow>
                    (update_alert st (al_fingerprint a)
                       (\<lambda>e. e\<lparr>al_state := Firing, al_severity := al_severity a, al_title := al_title a,
                              al_description := al_description a, al_labels := al_labels a,
                              al_annotations := al_annotations a, al_starts := al_starts a,
                              al_last_seen := al_last_seen a, al_resolved := None\<rparr>), True)
                | Firing \<Rightarrow>
                    (update_alert st (al_fingerprint a) (\<lambda>e. e\<lparr>al_last_seen := al_last_seen a\<rparr>), False)))
        in Some (add_history st1
                   \<lparr>hi_fingerprint = al_fingerprint a, hi_tenant = al_tenant a,
                    hi_event = (if fresh then Created else Updated),
                    hi_severity = Some (al_severity a)\<rparr>, fresh))"

definition history_for :: "alert_store \<Rightarrow> string \<Rightarrow> history_event \<Rightarrow> alert_store" where
  "history_for st fp ev =
     (case find_alert st fp of
        None \<Rightarrow> st
      | Some e \<Rightarrow> add_history st \<lparr>hi_fingerprint = fp, hi_tenant = al_tenant e, hi_event = ev,
                                  hi_severity = None\<rparr>)"

definition MarkNotified :: "alert_store \<Rightarrow> bool \<Rightarrow> bool \<Rightarrow> string \<Rightarrow> int \<Rightarrow> alert_store" where
  "MarkNotified st up1 up2 fp t =
     (if \<not> up1 then st
      else
        let st1 = update_alert st fp
              (\<lambda>e. e\<lparr>al_notified := Some t, al_notify_count := al_notify_count e + 1\<rparr>)
        in if \<not> up2 then st1 else history_for st1 fp Notified)"

definition Resolve :: "alert_store \<Rightarrow> bool \<Rightarrow> string \<Rightarrow> int \<Rightarrow> alert_store option" where
  "Resolve st up fp t =
     (if \<not> up then None
      else if \<not> list_ex (\<lambda>a. al_fingerprint a = fp \<and> al_state a \<noteq> Resolved) (as_alerts st) then Some st
      else Some (history_for
        (update_alert st fp (\<lambda>e. if al_state e \<noteq> Resolved
           then e\<lparr>al_state := Resolved, al_resolved := Some t\<rparr> else e)) fp ResolvedEvent))"

definition ListAlerts :: "alert_store \<Rightarrow> bool \<Rightarrow> string \<Rightarrow> int \<Rightarrow> alert list option" where
  "ListAlerts st up tid limit =
     (let n = (if limit \<le> 0 \<or> limit > 500 then 100 else limit)
      in if \<not> up then None
         else Some (take (nat n) (sort_key (\<lambda>a. - al_last_seen a)
                (filter (\<lambda>a. al_tenant a = tid) (as_alerts st)))))"

datatype silence_error = NotInFuture | SilenceInsert

text \<open>The new identifier is the random UUID; the handler leaves the one in the request zero.\<close>

definition CreateSilence ::
  "alert_store \<Rightarrow> bool \<Rightarrow> int \<Rightarrow> silence \<Rightarrow> alert_store \<times> (silence_error + nat)" where
  "CreateSilence st up now sil =
     (if si_expires sil < now then (st, Inl NotInFuture)
      else if \<not> up then (st, Inl SilenceInsert)
      else (st\<lparr>as_silences := as_silences st @ [sil]\<rparr>, Inr (si_id sil)))"

definition label :: "labels \<Rightarrow> string \<Rightarrow> string" where
  "label ls k = (case map_of ls k of Some v \<Rightarrow> v | None \<Rightarrow> [])"

definition labelsSubset :: "labels \<Rightarrow> labels \<Rightarrow> bool" where
  "labelsSubset matcher cand \<longleftrightarrow> list_all (\<lambda>(k, v). label cand k = v) matcher"

definition IsSilenced :: "alert_store \<Rightarrow> bool \<Rightarrow> int \<Rightarrow> string \<Rightarrow> labels \<Rightarrow> bool option" where
  "IsSilenced st up now tid ls =
     (if \<not> up then None
      else Some (list_ex (\<lambda>s. si_tenant s = tid \<and> si_expires s > now \<and> labelsSubset (si_matcher s) ls)
             (as_silences st)))"

section \<open>The event hub\<close>

datatype sse_type = AlertFired | AlertResolved

record sse_event =
  ev_tenant_id :: string
  ev_kind :: sse_type
  ev_fingerprint :: string
  ev_rule :: string

record sse_client =
  cl_id :: nat
  cl_tenant :: string
  cl_buf :: "sse_event list"

record sse_hub =
  hub_subs :: "sse_client list"
  hub_bufCap :: nat
  hub_next :: nat

definition newSSEHub :: "int \<Rightarrow> sse_hub" where
  "newSSEHub n = \<lparr>hub_subs = [], hub_bufCap = (if n \<le> 0 then 32 else nat n), hub_next = 0\<rparr>"

definition Publish :: "sse_hub \<Rightarrow> sse_event \<Rightarrow> sse_hub" where
  "Publish h ev =
     h\<lparr>hub_subs := map (\<lambda>c. if cl_tenant c = ev_tenant_id ev \<and> length (cl_buf c) < hub_bufCap h
                           then c\<lparr>cl_buf := cl_buf c @ [ev]\<rparr> else c) (hub_subs h)\<rparr>"

definition subscribe :: "sse_hub \<Rightarrow> string \<Rightarrow> sse_hub \<times> nat" where
  "subscribe h tid =
     (h\<lparr>hub_subs := hub_subs h @ [\<lparr>cl_id = hub_next h, cl_tenant = tid, cl_buf = []\<rparr>],
        hub_next := Suc (hub_next h)\<rparr>, hub_next h)"

definition unsubscribe :: "sse_hub \<Rightarrow> nat \<Rightarrow> sse_hub" where
  "unsubscribe h i = h\<lparr>hub_subs := filter (\<lambda>c. cl_id c \<noteq> i) (hub_subs h)\<rparr>"

text \<open>The stream handler's receive: the oldest buffered event of the client.\<close>

definition stream_recv :: "sse_hub \<Rightarrow> nat \<Rightarrow> sse_hub \<times> sse_event option" where
  "stream_recv h i =
     (case List.find (\<lambda>c. cl_id c = i) (hub_subs h) of
        None \<Rightarrow> (h, None)
      | Some c \<Rightarrow>
          (case cl_buf c of
             [] \<Rightarrow> (h, None)
           | e # es \<Rightarrow> (h\<lparr>hub_subs := map (\<lambda>d. if cl_id d = i then d\<lparr>cl_buf := tl (cl_buf d)\<rparr> else d) (hub_subs h)\<rparr>,
                       Some e)))"

section \<open>The handlers\<close>

record incomingEvent =
  ie_rule :: string
  ie_severity :: string
  ie_title :: string
  ie_description :: string
  ie_labels :: labels
  ie_annotations :: labels
  ie_resolved :: bool
  ie_occurred :: "int option"

datatype task = TFiring string notification | TResolved string notification

record manager =
  am_store :: alert_store
  am_eval :: evaluator
  am_hub :: sse_hub
  am_dispatcher :: dispatcher
  am_tasks :: "task list"
  am_audit :: "audit_record list"

text \<open>The notification of an event, with the end of the alert for a resolved one.\<close>

definition event_notification :: "string \<Rightarrow> string \<Rightarrow> incomingEvent \<Rightarrow> int \<Rightarrow> int option \<Rightarrow> notification" where
  "event_notification tid fp req t ends =
     \<lparr>no_fingerprint = fp, no_tenant = tid, no_severity = ie_severity req, no_title = ie_title req,
      no_description = ie_description req, no_source = ''alert-manager'', no_labels = ie_labels req,
      no_annotations = ie_annotations req, no_starts = Some t, no_ends = ends\<rparr>"

datatype am_reply =
    Failed nat
  | AcceptedResolved string
  | Received string bool bool bool
  | Observed string f64 f64
  | SLOCreated
  | SilenceCreated nat
  | Alerts "alert list"
  | Streaming nat

text \<open>\<open>eventsHandler\<close> after the body is decoded (\<open>None\<close>: it is not JSON of the request). \<open>ups\<close>
  tells for the silence query and for the write whether the database answers.\<close>

definition eventsHandler ::
  "(string \<Rightarrow> string) \<Rightarrow> manager \<Rightarrow> string \<Rightarrow> int \<Rightarrow> bool \<times> bool \<Rightarrow> incomingEvent option \<Rightarrow>
   manager \<times> am_reply" where
  "eventsHandler sha m tid now ups body =
     (if tid = [] then (m, Failed 401)
      else case body of
        None \<Rightarrow> (m, Failed 400)
      | Some req \<Rightarrow>
          if ie_rule req = [] \<or> ie_severity req = [] \<or> ie_title req = [] then (m, Failed 400)
          else
            let fp = Fingerprint sha tid (ie_rule req) (ie_labels req);
                occurred = (case ie_occurred req of None \<Rightarrow> now | Some t \<Rightarrow> t)
            in if ie_resolved req then
                 (case Resolve (am_store m) (snd ups) fp now of
                    None \<Rightarrow> (m, Failed 500)
                  | Some st \<Rightarrow>
                      (m\<lparr>am_store := st, am_tasks := am_tasks m @ [TResolved tid (event_notification tid fp req now (Some now))],
                         am_hub := Publish (am_hub m) \<lparr>ev_tenant_id = tid, ev_kind = AlertResolved,
                           ev_fingerprint = fp, ev_rule = ie_rule req\<rparr>\<rparr>, AcceptedResolved fp))
               else
                 let silenced = (case IsSilenced (am_store m) (fst ups) now tid (ie_labels req) of
                                   None \<Rightarrow> False | Some b \<Rightarrow> b)
                 in case UpsertFiring (am_store m) (snd ups)
                        \<lparr>al_fingerprint = fp, al_tenant = tid, al_rule = ie_rule req,
                         al_severity = ie_severity req, al_title = ie_title req,
                         al_description = ie_description req, al_labels = ie_labels req,
                         al_annotations = ie_annotations req, al_state = Firing, al_starts = occurred,
                         al_last_seen = now, al_resolved = None, al_notified = None,
                         al_notify_count = 0\<rparr> of
                      None \<Rightarrow> (m, Failed 500)
                    | Some (st, fresh) \<Rightarrow>
                        if fresh \<and> \<not> silenced then
                          (m\<lparr>am_store := st, am_tasks := am_tasks m @ [TFiring tid (event_notification tid fp req now None)],
                             am_hub := Publish (am_hub m) \<lparr>ev_tenant_id = tid, ev_kind = AlertFired,
                               ev_fingerprint = fp, ev_rule = ie_rule req\<rparr>\<rparr>,
                           Received fp fresh silenced True)
                        else (m\<lparr>am_store := st\<rparr>, Received fp fresh silenced False))"

text \<open>The dispatch goroutines: the firing one marks the alert when every notifier succeeded. Nothing
  tries again.\<close>

definition dispatchFiring ::
  "world \<Rightarrow> (nat \<Rightarrow> int) \<Rightarrow> manager \<Rightarrow> bool \<times> bool \<Rightarrow> notification \<Rightarrow> int \<Rightarrow> manager" where
  "dispatchFiring post clock m ups n t =
     (if Dispatch post clock (am_dispatcher m) n \<noteq> [] then m
      else m\<lparr>am_store := MarkNotified (am_store m) (fst ups) (snd ups) (no_fingerprint n) t\<rparr>)"

definition dispatchResolved :: "manager \<Rightarrow> manager" where
  "dispatchResolved m = m"

definition run_task :: "world \<Rightarrow> (nat \<Rightarrow> int) \<Rightarrow> manager \<Rightarrow> nat \<Rightarrow> bool \<times> bool \<Rightarrow> int \<Rightarrow> manager" where
  "run_task post clock m i ups t =
     (let m' = m\<lparr>am_tasks := take i (am_tasks m) @ drop (Suc i) (am_tasks m)\<rparr>
      in case am_tasks m ! i of
           TFiring tid n \<Rightarrow> dispatchFiring post clock m' ups n t
         | TResolved tid n \<Rightarrow> dispatchResolved m')"

definition scopedSLOName :: "string \<Rightarrow> string \<Rightarrow> string" where
  "scopedSLOName tid name = tid @ '':'' @ name"

text \<open>\<open>fmtf x n\<close> is \<open>strconv.FormatFloat(x, 'f', n, 64)\<close>.\<close>

definition formatBurnDescription :: "(f64 \<Rightarrow> nat \<Rightarrow> string) \<Rightarrow> decision \<Rightarrow> string" where
  "formatBurnDescription fmtf d =
     ''long-window burn rate: '' @ fmtf (d_long d) 2 @ ''x; short-window: '' @ fmtf (d_short d) 2 @
     ''x; error budget: '' @ fmtf (fmul (d_budget d) (flit 100)) 3 @ ''%''"

definition slo_rule :: "string \<Rightarrow> string" where
  "slo_rule name = ''slo:'' @ name"

definition slo_labels :: "string \<Rightarrow> decision \<Rightarrow> labels" where
  "slo_labels name d = [(''slo'', name), (''severity'', d_severity d)]"

definition slo_event :: "(f64 \<Rightarrow> nat \<Rightarrow> string) \<Rightarrow> string \<Rightarrow> decision \<Rightarrow> incomingEvent" where
  "slo_event fmtf name d =
     \<lparr>ie_rule = slo_rule name, ie_severity = d_severity d, ie_title = ''SLO burning: '' @ name,
      ie_description = formatBurnDescription fmtf d, ie_labels = slo_labels name d, ie_annotations = [],
      ie_resolved = False, ie_occurred = None\<rparr>"

definition observationsHandler ::
  "(string \<Rightarrow> string) \<Rightarrow> (f64 \<Rightarrow> nat \<Rightarrow> string) \<Rightarrow> manager \<Rightarrow> string \<Rightarrow> int \<Rightarrow> bool \<Rightarrow>
   (string \<times> bool) option \<Rightarrow> manager \<times> am_reply" where
  "observationsHandler sha fmtf m tid now up body =
     (if tid = [] then (m, Failed 401)
      else case body of
        None \<Rightarrow> (m, Failed 400)
      | Some (name, ok) \<Rightarrow>
          (case Observe (am_eval m) (scopedSLOName tid name) ok now of
             Inl _ \<Rightarrow> (m, Failed 400)
           | Inr ev \<Rightarrow>
               let m1 = m\<lparr>am_eval := ev\<rparr>
               in case Evaluate ev (scopedSLOName tid name) now of
                    Inl _ \<Rightarrow> (m1, Failed 400)
                  | Inr d \<Rightarrow>
                      if d_severity d = sev_ok then (m1, Observed (d_severity d) (d_long d) (d_short d))
                      else
                        let fp = Fingerprint sha tid (slo_rule name) (slo_labels name d)
                        in case UpsertFiring (am_store m1) up
                               \<lparr>al_fingerprint = fp, al_tenant = tid, al_rule = slo_rule name,
                                al_severity = d_severity d, al_title = ''SLO burning: '' @ name,
                                al_description = formatBurnDescription fmtf d,
                                al_labels = slo_labels name d, al_annotations = [],
                                al_state = Firing, al_starts = now, al_last_seen = now,
                                al_resolved = None, al_notified = None, al_notify_count = 0\<rparr> of
                             None \<Rightarrow> (m1, Observed (d_severity d) (d_long d) (d_short d))
                           | Some (st, fresh) \<Rightarrow>
                               if fresh then
                                 (m1\<lparr>am_store := st, am_tasks := am_tasks m1 @ [TFiring tid (event_notification tid fp (slo_event fmtf name d) now None)],
                                    am_hub := Publish (am_hub m1) \<lparr>ev_tenant_id = tid,
                                      ev_kind = AlertFired, ev_fingerprint = fp,
                                      ev_rule = slo_rule name\<rparr>\<rparr>,
                                  Observed (d_severity d) (d_long d) (d_short d))
                               else (m1\<lparr>am_store := st\<rparr>,
                                     Observed (d_severity d) (d_long d) (d_short d))))"

text \<open>\<open>emitAudit\<close>: what the exporter does with the record, an error included, does not show in the reply.
  \<open>ip\<close> is the client's address.\<close>

definition emitAudit :: "string \<Rightarrow> int \<Rightarrow> string \<Rightarrow> string \<Rightarrow> (string \<rightharpoonup> string) \<Rightarrow> manager \<Rightarrow> manager" where
  "emitAudit ip now tid action details m =
     m\<lparr>am_audit := am_audit m @ [\<lparr>au_id = [], au_tenant = tid, au_actor = ''tenant'', au_action = action,
        au_details = details, au_source = ip, au_at = now\<rparr>]\<rparr>"

definition registerSLOHandler :: "string \<Rightarrow> int \<Rightarrow> manager \<Rightarrow> string \<Rightarrow> (string \<times> f64) option \<Rightarrow> manager \<times> am_reply" where
  "registerSLOHandler ip now m tid body =
     (if tid = [] then (m, Failed 401)
      else case body of
        None \<Rightarrow> (m, Failed 400)
      | Some (name, target) \<Rightarrow>
          (case Register (am_eval m) \<lparr>slo_name = scopedSLOName tid name, slo_target = target,
                                     slo_pairs = DefaultWindowPairs\<rparr> of
             Inl _ \<Rightarrow> (m, Failed 400)
           | Inr ev \<Rightarrow>
               (emitAudit ip now tid ''slo.register''
                  (Map.empty(''name'' \<mapsto> name, ''target'' \<mapsto> fmt_shortest target)) (m\<lparr>am_eval := ev\<rparr>),
                SLOCreated)))"

text \<open>\<open>limit\<close> is the parsed query parameter, 0 when it does not parse.\<close>

definition listAlertsHandler :: "manager \<Rightarrow> string \<Rightarrow> bool \<Rightarrow> int \<Rightarrow> am_reply" where
  "listAlertsHandler m tid up limit =
     (if tid = [] then Failed 401
      else case ListAlerts (am_store m) up tid limit of None \<Rightarrow> Failed 500 | Some as \<Rightarrow> Alerts as)"

text \<open>A matcher as the audit record shows it.\<close>

definition show_labels :: "labels \<Rightarrow> string" where
  "show_labels ls = concat (map (\<lambda>(k, v). k @ ''='' @ v @ '';'') ls)"

definition createSilenceHandler ::
  "string \<Rightarrow> manager \<Rightarrow> string \<Rightarrow> int \<Rightarrow> bool \<Rightarrow> nat \<Rightarrow> (labels \<times> string \<times> int) option \<Rightarrow> manager \<times> am_reply" where
  "createSilenceHandler ip m tid now up uid body =
     (if tid = [] then (m, Failed 401)
      else case body of
        None \<Rightarrow> (m, Failed 400)
      | Some (matcher, reason, dur) \<Rightarrow>
          let d = (if dur \<le> 0 \<or> dur > 7 * 24 * 3600 then 3600 else dur)
          in case CreateSilence (am_store m) up now
                 \<lparr>si_id = uid, si_tenant = tid, si_matcher = matcher, si_reason = reason,
                  si_expires = now + d * second\<rparr> of
               (st, Inl _) \<Rightarrow> (m, Failed 400)
             | (st, Inr i) \<Rightarrow>
                 (emitAudit ip now tid ''silence.create''
                    (Map.empty(''id'' \<mapsto> show_nat i, ''reason'' \<mapsto> reason, ''matcher'' \<mapsto> show_labels matcher,
                       ''expires_at'' \<mapsto> rfc3339nano (now + d * second))) (m\<lparr>am_store := st\<rparr>),
                  SilenceCreated i))"

section \<open>The router\<close>

datatype am_call =
    PostEvents "incomingEvent option"
  | PostObservations "(string \<times> bool) option"
  | GetAlerts int
  | GetStream
  | PostSilences nat "(labels \<times> string \<times> int) option"
  | PostSLOs "(string \<times> f64) option"

definition am_scope :: "am_call \<Rightarrow> scope" where
  "am_scope c =
     (case c of PostEvents _ \<Rightarrow> ScopeAlertWrite | PostObservations _ \<Rightarrow> ScopeAlertWrite | GetAlerts _ \<Rightarrow> ScopeAlertRead
      | GetStream \<Rightarrow> ScopeAlertRead | PostSilences _ _ \<Rightarrow> ScopeAlertWrite | PostSLOs _ \<Rightarrow> ScopeTenantAdmin)"

text \<open>The surroundings of a request: the clock, the client's address and whether the database answers.\<close>

record am_env =
  ae_now :: int
  ae_ip :: string
  ae_ups :: "bool \<times> bool"

text \<open>The stream route answers with the subscription; it refuses the empty tenant.\<close>

definition am_handler ::
  "(string \<Rightarrow> string) \<Rightarrow> (f64 \<Rightarrow> nat \<Rightarrow> string) \<Rightarrow> am_env \<Rightarrow> string \<Rightarrow> am_call \<Rightarrow> manager \<Rightarrow> manager \<times> am_reply" where
  "am_handler sha fmtf en tid c m =
     (case c of
        PostEvents body \<Rightarrow> eventsHandler sha m tid (ae_now en) (ae_ups en) body
      | PostObservations body \<Rightarrow> observationsHandler sha fmtf m tid (ae_now en) (snd (ae_ups en)) body
      | GetAlerts limit \<Rightarrow> (m, listAlertsHandler m tid (snd (ae_ups en)) limit)
      | GetStream \<Rightarrow>
          if tid = [] then (m, Failed 401)
          else (case subscribe (am_hub m) tid of (h, i) \<Rightarrow> (m\<lparr>am_hub := h\<rparr>, Streaming i))
      | PostSilences uid body \<Rightarrow> createSilenceHandler (ae_ip en) m tid (ae_now en) (snd (ae_ups en)) uid body
      | PostSLOs body \<Rightarrow> registerSLOHandler (ae_ip en) (ae_now en) m tid body)"

definition am_router ::
  "(string \<Rightarrow> store_answer) \<Rightarrow> (string \<Rightarrow> string) \<Rightarrow> (f64 \<Rightarrow> nat \<Rightarrow> string) \<Rightarrow> am_env \<Rightarrow> string \<Rightarrow> string \<Rightarrow>
   am_call \<Rightarrow> manager \<Rightarrow> manager \<times> am_reply" where
  "am_router validate sha fmtf en auth claimed c m =
     (case AuthMiddleware validate
             \<lparr>rq_authorization = auth, rq_tenant_header = claimed, rq_scopes = None\<rparr> of
        Rejected status _ \<Rightarrow> (m, Failed status)
      | Forwarded rq \<Rightarrow>
          (case fst (GinRequireScope [am_scope c] rq) of
             Rejected status _ \<Rightarrow> (m, Failed status)
           | Forwarded rq' \<Rightarrow> am_handler sha fmtf en (rq_tenant_header rq') c m))"

end
