(* ===== verification/AlertProps.thy ===== *)
theory AlertProps
  imports AlertManager
begin

text \<open>
  The alert manager over sequences of requests: a firing alert is dispatched once per episode, and
  nothing but a resolution event ends an episode; a stream subscriber only ever sees its own
  tenant's events.
\<close>

section \<open>Runs\<close>

datatype am_op =
    OpEvent string int "bool \<times> bool" "incomingEvent option"
  | OpObservation string int bool "(string \<times> bool) option"
  | OpRegister string int string "(string \<times> f64) option"
  | OpSilence string string int bool nat "(labels \<times> string \<times> int) option"
  | OpTask nat world "nat \<Rightarrow> int" "bool \<times> bool" int
  | OpSubscribe string
  | OpUnsubscribe nat
  | OpRecv nat

fun am_step ::
  "(string \<Rightarrow> string) \<Rightarrow> (f64 \<Rightarrow> nat \<Rightarrow> string) \<Rightarrow> manager \<Rightarrow> am_op \<Rightarrow> manager" where
  "am_step sha fmtf m (OpEvent tid now ups body) = fst (eventsHandler sha m tid now ups body)"
| "am_step sha fmtf m (OpObservation tid now up body) =
     fst (observationsHandler sha fmtf m tid now up body)"
| "am_step sha fmtf m (OpRegister ip now tid body) = fst (registerSLOHandler ip now m tid body)"
| "am_step sha fmtf m (OpSilence ip tid now up uid body) =
     fst (createSilenceHandler ip m tid now up uid body)"
| "am_step sha fmtf m (OpTask i post clock ups t) =
     (if i < length (am_tasks m) then run_task post clock m i ups t else m)"
| "am_step sha fmtf m (OpSubscribe tid) = m\<lparr>am_hub := fst (subscribe (am_hub m) tid)\<rparr>"
| "am_step sha fmtf m (OpUnsubscribe i) = m\<lparr>am_hub := unsubscribe (am_hub m) i\<rparr>"
| "am_step sha fmtf m (OpRecv i) = m\<lparr>am_hub := fst (stream_recv (am_hub m) i)\<rparr>"

definition am_run ::
  "(string \<Rightarrow> string) \<Rightarrow> (f64 \<Rightarrow> nat \<Rightarrow> string) \<Rightarrow> manager \<Rightarrow> am_op list \<Rightarrow> manager" where
  "am_run sha fmtf m ops = foldl (am_step sha fmtf) m ops"

text \<open>The dispatch goroutines a step starts, and those of a run.\<close>

definition started :: "manager \<Rightarrow> manager \<Rightarrow> task list" where
  "started m m' = drop (length (am_tasks m)) (am_tasks m')"

fun dispatches ::
  "(string \<Rightarrow> string) \<Rightarrow> (f64 \<Rightarrow> nat \<Rightarrow> string) \<Rightarrow> manager \<Rightarrow> am_op list \<Rightarrow> task list" where
  "dispatches sha fmtf m [] = []"
| "dispatches sha fmtf m (x # xs) =
     started m (am_step sha fmtf m x) @ dispatches sha fmtf (am_step sha fmtf m x) xs"

definition firing_count :: "string \<Rightarrow> task list \<Rightarrow> nat" where
  "firing_count fp ts = length (filter (\<lambda>t. case t of TFiring _ n \<Rightarrow> no_fingerprint n = fp | _ \<Rightarrow> False) ts)"

fun resolves :: "(string \<Rightarrow> string) \<Rightarrow> string \<Rightarrow> am_op \<Rightarrow> bool" where
  "resolves sha fp (OpEvent tid now ups (Some req)) \<longleftrightarrow>
     ie_resolved req \<and> Fingerprint sha tid (ie_rule req) (ie_labels req) = fp"
| "resolves sha fp x \<longleftrightarrow> False"

section \<open>The store\<close>

definition firing :: "alert_store \<Rightarrow> string \<Rightarrow> bool" where
  "firing st fp \<longleftrightarrow> (\<exists>e. find_alert st fp = Some e \<and> al_state e = Firing)"

lemma find_fingerprint: "find_alert st fp = Some e \<Longrightarrow> al_fingerprint e = fp"
  by (auto simp: find_alert_def find_Some_iff)

lemma find_update:
  assumes "\<And>e. al_fingerprint (f e) = al_fingerprint e"
  shows "find_alert (update_alert st fp f) fp' =
    (if fp' = fp then map_option f (find_alert st fp) else find_alert st fp')"
proof -
  have "List.find (\<lambda>a. al_fingerprint a = fp') (map (\<lambda>a. if al_fingerprint a = fp then f a else a) as) =
      (if fp' = fp then map_option f (List.find (\<lambda>a. al_fingerprint a = fp) as)
       else List.find (\<lambda>a. al_fingerprint a = fp') as)" for as
    by (induction as) (auto simp: assms)
  then show ?thesis by (simp add: find_alert_def update_alert_def)
qed

lemma find_append: "List.find P (xs @ ys) = (case List.find P xs of Some x \<Rightarrow> Some x | None \<Rightarrow> List.find P ys)"
  by (induction xs) auto

lemma find_history [simp]: "find_alert (add_history st h) fp = find_alert st fp"
  by (simp add: find_alert_def add_history_def)

lemma history_for_find [simp]: "find_alert (history_for st fp ev) fp' = find_alert st fp'"
  by (simp add: history_for_def split: option.split)

lemma UpsertFiring_firing:
  assumes "UpsertFiring st up a = Some (st', fresh)"
  shows "fresh \<longleftrightarrow> \<not> firing st (al_fingerprint a)"
    and "firing st' fp \<longleftrightarrow> fp = al_fingerprint a \<or> firing st fp"
proof -
  show "fresh \<longleftrightarrow> \<not> firing st (al_fingerprint a)"
    using assms by (auto simp: UpsertFiring_def firing_def split: option.splits alert_state.splits if_splits)
  show "firing st' fp \<longleftrightarrow> fp = al_fingerprint a \<or> firing st fp"
  proof (cases "find_alert st (al_fingerprint a)")
    case None
    then have "st' = add_history (st\<lparr>as_alerts := as_alerts st @ [a\<lparr>al_state := Firing,
        al_resolved := None, al_notified := None, al_notify_count := 0\<rparr>]\<rparr>)
        \<lparr>hi_fingerprint = al_fingerprint a, hi_tenant = al_tenant a, hi_event = Created,
         hi_severity = Some (al_severity a)\<rparr>"
      using assms by (auto simp: UpsertFiring_def split: if_splits)
    then show ?thesis
      using None by (auto simp: firing_def find_alert_def add_history_def find_append split: option.splits)
  next
    case (Some e)
    then show ?thesis
      using assms
      by (auto simp: UpsertFiring_def firing_def find_update split: if_splits alert_state.splits)
  qed
qed

lemma UpsertFiring_fresh:
  "UpsertFiring st up a = Some (st', True) \<Longrightarrow> \<not> firing st (al_fingerprint a)"
  using UpsertFiring_firing(1) by blast

lemma Resolve_other: "Resolve st up fp t = Some st' \<Longrightarrow> fp' \<noteq> fp \<Longrightarrow> firing st' fp' = firing st fp'"
  by (auto simp: Resolve_def firing_def find_update split: if_splits)

lemma MarkNotified_firing [simp]: "firing (MarkNotified st u1 u2 fp t) fp' = firing st fp'"
  by (auto simp: MarkNotified_def firing_def find_update Let_def)

lemma CreateSilence_firing: "CreateSilence st up now sil = (st', r) \<Longrightarrow> firing st' fp = firing st fp"
  by (auto simp: CreateSilence_def firing_def find_alert_def split: if_splits)

section \<open>One dispatch per episode\<close>

text \<open>What the two handlers that change the store can do: nothing to it, a resolution, or an upsert
  that is dispatched and published only when it is fresh.\<close>

inductive handled :: "(string \<Rightarrow> string) \<Rightarrow> manager \<Rightarrow> string \<Rightarrow> manager \<Rightarrow> bool" where
  untouched: "am_store m' = am_store m \<Longrightarrow> am_tasks m' = am_tasks m \<Longrightarrow> am_hub m' = am_hub m \<Longrightarrow>
    am_audit m' = am_audit m \<Longrightarrow> handled sha m tid m'"
| resolved: "Resolve (am_store m) up fp t = Some (am_store m') \<Longrightarrow> fp = Fingerprint sha tid r l \<Longrightarrow>
    am_tasks m' = am_tasks m @ [TResolved tid n] \<Longrightarrow> no_fingerprint n = fp \<Longrightarrow> no_tenant n = tid \<Longrightarrow>
    am_hub m' = Publish (am_hub m) e \<Longrightarrow> ev_tenant_id e = tid \<Longrightarrow> am_audit m' = am_audit m \<Longrightarrow>
    handled sha m tid m'"
| upsert: "UpsertFiring (am_store m) up a = Some (am_store m', fresh) \<Longrightarrow> al_tenant a = tid \<Longrightarrow>
    al_fingerprint a = Fingerprint sha tid r l \<Longrightarrow> am_tasks m' = am_tasks m \<Longrightarrow> am_hub m' = am_hub m \<Longrightarrow>
    am_audit m' = am_audit m \<Longrightarrow> handled sha m tid m'"
| fired: "UpsertFiring (am_store m) up a = Some (am_store m', True) \<Longrightarrow> al_tenant a = tid \<Longrightarrow>
    al_fingerprint a = Fingerprint sha tid r l \<Longrightarrow>
    am_tasks m' = am_tasks m @ [TFiring tid n] \<Longrightarrow> no_fingerprint n = al_fingerprint a \<Longrightarrow> no_tenant n = tid \<Longrightarrow>
    am_hub m' = Publish (am_hub m) e \<Longrightarrow> ev_tenant_id e = tid \<Longrightarrow> am_audit m' = am_audit m \<Longrightarrow>
    handled sha m tid m'"

lemma events_handled: "handled sha m tid (fst (eventsHandler sha m tid now ups body))"
proof (cases body)
  case None
  then show ?thesis by (auto simp: eventsHandler_def intro: untouched)
next
  case (Some req)
  show ?thesis
  proof (cases "tid = [] \<or> ie_rule req = [] \<or> ie_severity req = [] \<or> ie_title req = []")
    case True
    then show ?thesis by (auto simp: eventsHandler_def Some intro: untouched)
  next
    case ok: False
    define fp where "fp = Fingerprint sha tid (ie_rule req) (ie_labels req)"
    show ?thesis
    proof (cases "ie_resolved req")
      case True
      then show ?thesis
        using ok by (cases "Resolve (am_store m) (snd ups) fp now")
          (auto simp: eventsHandler_def Some Let_def fp_def event_notification_def intro: untouched resolved)
    next
      case False
      define a where "a = \<lparr>al_fingerprint = fp, al_tenant = tid, al_rule = ie_rule req,
        al_severity = ie_severity req, al_title = ie_title req, al_description = ie_description req,
        al_labels = ie_labels req, al_annotations = ie_annotations req, al_state = Firing,
        al_starts = (case ie_occurred req of None \<Rightarrow> now | Some t \<Rightarrow> t), al_last_seen = now,
        al_resolved = None, al_notified = None, al_notify_count = 0\<rparr>"
      have fp: "fp = al_fingerprint a" and at: "al_tenant a = tid" by (simp_all add: a_def)
      show ?thesis
      proof (cases "UpsertFiring (am_store m) (snd ups) a")
        case None
        then show ?thesis
          using ok False by (auto simp: eventsHandler_def Some Let_def a_def fp_def intro: untouched)
      next
        case up: (Some r)
        obtain st fresh where r: "r = (st, fresh)" by (cases r)
        define sil where "sil = (case IsSilenced (am_store m) (fst ups) now tid (ie_labels req) of
            None \<Rightarrow> False | Some b \<Rightarrow> b)"
        have "eventsHandler sha m tid now ups body =
          (if fresh \<and> \<not> sil then
             (m\<lparr>am_store := st, am_tasks := am_tasks m @ [TFiring tid (event_notification tid fp req now None)],
                am_hub := Publish (am_hub m) \<lparr>ev_tenant_id = tid, ev_kind = AlertFired,
                  ev_fingerprint = fp, ev_rule = ie_rule req\<rparr>\<rparr>, Received fp fresh sil True)
           else (m\<lparr>am_store := st\<rparr>, Received fp fresh sil False))"
          using ok False up unfolding eventsHandler_def Some Let_def r
          by (simp add: a_def fp_def sil_def)
        then show ?thesis
          using up at fp_def [unfolded fp] unfolding r fp
          by (cases "fresh \<and> \<not> sil") (auto simp: event_notification_def intro: fired upsert)
      qed
    qed
  qed
qed

lemma observations_handled: "handled sha m tid (fst (observationsHandler sha fmtf m tid now up body))"
proof (cases "tid = [] \<or> body = None")
  case True
  then show ?thesis by (auto simp: observationsHandler_def intro: untouched)
next
  case False
  then obtain name ok where b: "body = Some (name, ok)" "tid \<noteq> []" by auto
  show ?thesis
  proof (cases "Observe (am_eval m) (scopedSLOName tid name) ok now")
    case (Inl e)
    then show ?thesis by (auto simp: observationsHandler_def b intro: untouched)
  next
    case ev: (Inr ev)
    show ?thesis
    proof (cases "Evaluate ev (scopedSLOName tid name) now")
      case (Inl e)
      then show ?thesis by (auto simp: observationsHandler_def b ev Let_def intro: untouched)
    next
      case d: (Inr d)
      define fp where "fp = Fingerprint sha tid (slo_rule name) (slo_labels name d)"
      define a where "a = \<lparr>al_fingerprint = fp, al_tenant = tid, al_rule = slo_rule name,
        al_severity = d_severity d, al_title = ''SLO burning: '' @ name,
        al_description = formatBurnDescription fmtf d, al_labels = slo_labels name d,
        al_annotations = [], al_state = Firing, al_starts = now, al_last_seen = now,
        al_resolved = None, al_notified = None, al_notify_count = 0\<rparr>"
      have fp: "fp = al_fingerprint a" and at: "al_tenant a = tid" by (simp_all add: a_def)
      have h: "fst (observationsHandler sha fmtf m tid now up body) =
        (if d_severity d = sev_ok then m\<lparr>am_eval := ev\<rparr>
         else case UpsertFiring (am_store m) up a of
           None \<Rightarrow> m\<lparr>am_eval := ev\<rparr>
         | Some (st, fresh) \<Rightarrow>
             if fresh then m\<lparr>am_eval := ev, am_store := st,
               am_tasks := am_tasks m @ [TFiring tid (event_notification tid fp (slo_event fmtf name d) now None)],
               am_hub := Publish (am_hub m) \<lparr>ev_tenant_id = tid, ev_kind = AlertFired,
                 ev_fingerprint = fp, ev_rule = slo_rule name\<rparr>\<rparr>
             else m\<lparr>am_eval := ev, am_store := st\<rparr>)"
        using b by (simp add: observationsHandler_def ev d Let_def a_def fp_def split: option.split)
      show ?thesis
        unfolding h
        using at fp_def [unfolded fp]
        by (auto split: option.split simp: fp event_notification_def intro: untouched upsert fired)
    qed
  qed
qed

lemma handled_dispatch:
  assumes "handled sha m tid m'"
    and "\<And>n. am_tasks m' = am_tasks m @ [TResolved tid n] \<Longrightarrow> no_fingerprint n \<noteq> fp"
  shows "firing_count fp (started m m') \<le> 1 \<and>
    (firing (am_store m) fp \<longrightarrow> firing (am_store m') fp \<and> firing_count fp (started m m') = 0) \<and>
    (firing_count fp (started m m') = 1 \<longrightarrow> firing (am_store m') fp)"
  using assms
proof (cases rule: handled.cases)
  case (resolved up f t r l n e)
  then have "f \<noteq> fp" using assms(2) by blast
  then show ?thesis
    using resolved by (auto simp: started_def firing_count_def Resolve_other)
next
  case (fired up a r l n e)
  then show ?thesis
    using UpsertFiring_firing(2) [OF fired(1)] UpsertFiring_fresh [OF fired(1)]
    by (auto simp: started_def firing_count_def)
next
  case (upsert up a fresh r l)
  then show ?thesis
    using UpsertFiring_firing(2) [OF upsert(1)] by (auto simp: started_def firing_count_def)
qed (auto simp: started_def firing_count_def)

lemma step_dispatch:
  assumes "\<not> resolves sha fp x"
  shows "firing_count fp (started m (am_step sha fmtf m x)) \<le> 1 \<and>
    (firing (am_store m) fp \<longrightarrow> firing (am_store (am_step sha fmtf m x)) fp \<and>
       firing_count fp (started m (am_step sha fmtf m x)) = 0) \<and>
    (firing_count fp (started m (am_step sha fmtf m x)) = 1 \<longrightarrow>
       firing (am_store (am_step sha fmtf m x)) fp)"
proof (cases x)
  case (OpEvent tid now ups body)
  have "am_tasks (fst (eventsHandler sha m tid now ups body)) = am_tasks m @ [TResolved tid n] \<Longrightarrow> no_fingerprint n \<noteq> fp" for n
    using assms
    by (auto simp: OpEvent eventsHandler_def event_notification_def Let_def split: option.splits if_splits prod.splits)
  then show ?thesis
    unfolding OpEvent am_step.simps by (intro handled_dispatch [OF events_handled]) blast
next
  case (OpObservation tid now up body)
  have "am_tasks (fst (observationsHandler sha fmtf m tid now up body)) \<noteq> am_tasks m @ [TResolved tid n]" for n
    by (auto simp: observationsHandler_def Let_def split: option.split sum.split prod.split)
  then show ?thesis
    unfolding OpObservation am_step.simps by (intro handled_dispatch [OF observations_handled]) blast
next
  case (OpRegister ip now tid body)
  then show ?thesis
    by (auto simp: registerSLOHandler_def emitAudit_def started_def firing_count_def
        split: option.splits if_splits sum.splits)
next
  case (OpSilence ip tid now up uid body)
  then show ?thesis
    by (auto simp: createSilenceHandler_def emitAudit_def Let_def started_def firing_count_def CreateSilence_firing
        split: option.splits if_splits sum.splits prod.splits)
next
  case (OpTask i post clock ups t)
  then show ?thesis
    by (auto simp: run_task_def Let_def dispatchFiring_def dispatchResolved_def started_def
        firing_count_def split: task.splits)
qed (auto simp: started_def firing_count_def)

lemma firing_count_append [simp]: "firing_count fp (xs @ ys) = firing_count fp xs + firing_count fp ys"
  by (simp add: firing_count_def)

lemma run_firing_none:
  "firing (am_store m) fp \<Longrightarrow> \<forall>x \<in> set ops. \<not> resolves sha fp x \<Longrightarrow>
   firing_count fp (dispatches sha fmtf m ops) = 0 \<and> firing (am_store (am_run sha fmtf m ops)) fp"
proof (induction ops arbitrary: m)
  case (Cons x ops)
  then show ?case
    using step_dispatch [of sha fp x m fmtf] by (simp add: am_run_def)
qed (simp add: firing_count_def am_run_def)



definition demo_event :: incomingEvent where
  "demo_event = \<lparr>ie_rule = ''r'', ie_severity = ''page'', ie_title = ''t'', ie_description = [],
     ie_labels = [], ie_annotations = [], ie_resolved = False, ie_occurred = None\<rparr>"

definition demo_manager :: manager where
  "demo_manager = \<lparr>am_store = \<lparr>as_alerts = [],
       as_silences = [\<lparr>si_id = 0, si_tenant = ''acme'', si_matcher = [], si_reason = [], si_expires = 10\<rparr>],
       as_history = []\<rparr>,
     am_eval = new_evaluator, am_hub = newSSEHub 64, am_dispatcher = NewDispatcher [Webhook ''h'' []] None,
     am_tasks = [], am_audit = []\<rparr>"


section \<open>Streams and listings\<close>

definition hub_ok :: "sse_hub \<Rightarrow> bool" where
  "hub_ok h \<longleftrightarrow> (\<forall>c \<in> set (hub_subs h). length (cl_buf c) \<le> hub_bufCap h \<and>
     (\<forall>e \<in> set (cl_buf c). ev_tenant_id e = cl_tenant c))"

lemma hub_ok_Publish: "hub_ok h \<Longrightarrow> hub_ok (Publish h e)"
  by (auto simp: hub_ok_def Publish_def)

lemma hub_ok_subscribe: "hub_ok h \<Longrightarrow> hub_ok (fst (subscribe h t))"
  by (auto simp: hub_ok_def subscribe_def)

lemma hub_ok_unsubscribe: "hub_ok h \<Longrightarrow> hub_ok (unsubscribe h i)"
  by (auto simp: hub_ok_def unsubscribe_def)

lemma bufCap_frame [simp]:
  "hub_bufCap (Publish h e) = hub_bufCap h" "hub_bufCap (fst (stream_recv h i)) = hub_bufCap h"
  by (auto simp: Publish_def stream_recv_def split: option.split list.split)


lemma in_set_tl: "x \<in> set (tl xs) \<Longrightarrow> x \<in> set xs"
  by (cases xs) auto

lemma hub_ok_recv:
  assumes h: "hub_ok h"
  shows "hub_ok (fst (stream_recv h i))"
proof -
  have "hub_ok (h\<lparr>hub_subs := map (\<lambda>d. if cl_id d = i then d\<lparr>cl_buf := tl (cl_buf d)\<rparr> else d) (hub_subs h)\<rparr>)"
    unfolding hub_ok_def
  proof (intro ballI)
    fix c assume "c \<in> set (hub_subs (h\<lparr>hub_subs := map (\<lambda>d. if cl_id d = i then d\<lparr>cl_buf := tl (cl_buf d)\<rparr> else d) (hub_subs h)\<rparr>))"
    then obtain d where d: "d \<in> set (hub_subs h)" "cl_tenant c = cl_tenant d"
        "cl_buf c = cl_buf d \<or> cl_buf c = tl (cl_buf d)" by (auto split: if_splits)
    have "length (cl_buf d) \<le> hub_bufCap h" "\<forall>e \<in> set (cl_buf d). ev_tenant_id e = cl_tenant d"
      using h d(1) by (auto simp: hub_ok_def)
    then show "length (cl_buf c) \<le> hub_bufCap (h\<lparr>hub_subs := map (\<lambda>d. if cl_id d = i then d\<lparr>cl_buf := tl (cl_buf d)\<rparr> else d) (hub_subs h)\<rparr>) \<and>
        (\<forall>e \<in> set (cl_buf c). ev_tenant_id e = cl_tenant c)"
      using d(2,3) in_set_tl by fastforce
  qed
  then show ?thesis using h by (simp add: stream_recv_def split: option.split list.split)
qed

lemma hub_ok_step: "hub_ok (am_hub m) \<Longrightarrow> hub_ok (am_hub (am_step sha fmtf m x))"
proof (cases x)
  case (OpEvent tid now ups body)
  assume "hub_ok (am_hub m)"
  then show ?thesis
    using events_handled [of sha m tid now ups body]
    by (auto simp: OpEvent hub_ok_Publish elim!: handled.cases)
next
  case (OpObservation tid now up body)
  assume "hub_ok (am_hub m)"
  then show ?thesis
    using observations_handled [of sha m tid fmtf now up body]
    by (auto simp: OpObservation hub_ok_Publish elim!: handled.cases)
next
  case (OpRegister ip now tid body)
  assume "hub_ok (am_hub m)"
  then show ?thesis
    by (auto simp: OpRegister registerSLOHandler_def emitAudit_def split: option.split sum.split)
next
  case (OpSilence ip tid now up uid body)
  assume "hub_ok (am_hub m)"
  then show ?thesis
    by (auto simp: OpSilence createSilenceHandler_def emitAudit_def Let_def split: option.split sum.split prod.split)
next
  case (OpTask i post clock ups t)
  assume "hub_ok (am_hub m)"
  then show ?thesis
    by (auto simp: OpTask run_task_def Let_def dispatchFiring_def dispatchResolved_def split: task.split)
qed (auto intro: hub_ok_subscribe hub_ok_unsubscribe hub_ok_recv)

lemma hub_ok_run: "hub_ok (am_hub m) \<Longrightarrow> hub_ok (am_hub (am_run sha fmtf m ops))"
  by (induction ops rule: rev_induct) (auto simp: am_run_def intro: hub_ok_step)

text \<open>
  Tenants are separated at the reading side: after any sequence of requests of any tenants on
  a manager that starts without subscribers, every buffered stream event belongs to its
  subscriber's tenant, a slow subscriber's buffer never exceeds its capacity, and the list of
  alerts answered to a tenant holds only its own, at most 500 and most recently seen first.
\<close>

theorem readers_see_own_tenant:
  assumes "hub_subs (am_hub m) = []"
  shows "(\<forall>c \<in> set (hub_subs (am_hub (am_run sha fmtf m ops))).
      length (cl_buf c) \<le> hub_bufCap (am_hub (am_run sha fmtf m ops)) \<and>
      (\<forall>e \<in> set (cl_buf c). ev_tenant_id e = cl_tenant c)) \<and>
    (listAlertsHandler (am_run sha fmtf m ops) tid up limit = Alerts as \<longrightarrow>
      (\<forall>a \<in> set as. al_tenant a = tid) \<and> length as \<le> 500 \<and>
      sorted (map (\<lambda>a. - al_last_seen a) as))"
proof
  have "hub_ok (am_hub m)" using assms by (simp add: hub_ok_def)
  from hub_ok_run [OF this, of sha fmtf ops]
  show "\<forall>c \<in> set (hub_subs (am_hub (am_run sha fmtf m ops))).
      length (cl_buf c) \<le> hub_bufCap (am_hub (am_run sha fmtf m ops)) \<and>
      (\<forall>e \<in> set (cl_buf c). ev_tenant_id e = cl_tenant c)"
    by (simp add: hub_ok_def)
  show "listAlertsHandler (am_run sha fmtf m ops) tid up limit = Alerts as \<longrightarrow>
      (\<forall>a \<in> set as. al_tenant a = tid) \<and> length as \<le> 500 \<and>
      sorted (map (\<lambda>a. - al_last_seen a) as)"
    by (auto simp: listAlertsHandler_def ListAlerts_def Let_def take_map sorted_wrt_take
        split: if_splits option.splits dest!: in_set_takeD simp flip: take_map)
qed

definition demo_readers :: manager where
  "demo_readers = am_run id (\<lambda>_ _. []) demo_manager
       [OpSubscribe ''acme'', OpSubscribe ''other'', OpEvent ''acme'' 20 (True, True) (Some demo_event)]"

lemma demo_readers_listed: "(case listAlertsHandler demo_readers ''acme'' True 10 of
    Alerts as \<Rightarrow> as \<noteq> [] | _ \<Rightarrow> False)"
  by code_simp

theorem readers_see_own_tenant_witness:
  "list_all (\<lambda>c. list_all (\<lambda>e. ev_tenant_id e = cl_tenant c) (cl_buf c)) (hub_subs (am_hub demo_readers)) \<and>
   (\<exists>as. listAlertsHandler demo_readers ''acme'' True 10 = Alerts as \<and> as \<noteq> [] \<and>
      list_all (\<lambda>a. al_tenant a = ''acme'') as)"
proof -
  obtain as where as: "listAlertsHandler demo_readers ''acme'' True 10 = Alerts as" "as \<noteq> []"
    using demo_readers_listed by (auto split: am_reply.splits)
  have "hub_subs (am_hub demo_manager) = []" by (simp add: demo_manager_def newSSEHub_def)
  from readers_see_own_tenant [OF this, of id "\<lambda>_ _. []"
      "[OpSubscribe ''acme'', OpSubscribe ''other'', OpEvent ''acme'' 20 (True, True) (Some demo_event)]"
      "''acme''" True 10 as, folded demo_readers_def] as
  show ?thesis by (auto simp: list_all_iff)
qed

end
