(* ===== verification/GoHeap.thy ===== *)
theory GoHeap
  imports Prelude "HOL-Library.Multiset"
begin

text \<open>
  Go's \<open>container/heap\<close>: sifting up and down over an arbitrary \<open>heap.Interface\<close>, and a locale for
  the contract of that interface (\<open>Less\<close> reads, and \<open>Swap\<close> exchanges, the entries of a view of
  the state; the entries are weakly ordered). Inside it the heap order is shown to be restored.
\<close>

section \<open>The operations\<close>

text \<open>The standard library's operations, over \<open>heap.Interface\<close>: \<open>less s i j\<close> and \<open>swap s i j\<close>.\<close>

function hup :: "('s \<Rightarrow> nat \<Rightarrow> nat \<Rightarrow> bool) \<Rightarrow> ('s \<Rightarrow> nat \<Rightarrow> nat \<Rightarrow> 's) \<Rightarrow> 's \<Rightarrow> nat \<Rightarrow> 's" where
  "hup le sw s j =
     (let i = (j - 1) div 2
      in if i = j \<or> \<not> le s j i then s else hup le sw (sw s i j) i)"
  by pat_completeness auto
termination by (relation "measure (\<lambda>(le, sw, s, j). j)") auto

declare hup.simps [simp del]

definition pick_child :: "('s \<Rightarrow> nat \<Rightarrow> nat \<Rightarrow> bool) \<Rightarrow> 's \<Rightarrow> nat \<Rightarrow> nat \<Rightarrow> nat" where
  "pick_child le s i n =
     (let j1 = 2 * i + 1; j2 = j1 + 1 in if j2 < n \<and> le s j2 j1 then j2 else j1)"

text \<open>The final state and position of the sift down.\<close>

function hdown ::
  "('s \<Rightarrow> nat \<Rightarrow> nat \<Rightarrow> bool) \<Rightarrow> ('s \<Rightarrow> nat \<Rightarrow> nat \<Rightarrow> 's) \<Rightarrow> 's \<Rightarrow> nat \<Rightarrow> nat \<Rightarrow> 's \<times> nat" where
  "hdown le sw s i n =
     (if 2 * i + 1 \<ge> n then (s, i)
      else
        let j = pick_child le s i n
        in if \<not> le s j i then (s, i) else hdown le sw (sw s i j) j n)"
  by pat_completeness auto
termination
  by (relation "measure (\<lambda>(le, sw, s, i, n). n - i)") (auto simp: pick_child_def Let_def)

declare hdown.simps [simp del]

definition hfix ::
  "('s \<Rightarrow> nat \<Rightarrow> nat \<Rightarrow> bool) \<Rightarrow> ('s \<Rightarrow> nat \<Rightarrow> nat \<Rightarrow> 's) \<Rightarrow> 's \<Rightarrow> nat \<Rightarrow> nat \<Rightarrow> 's" where
  "hfix le sw s i n =
     (case hdown le sw s i n of (s', i') \<Rightarrow> if i < i' then s' else hup le sw s' i)"

section \<open>The contract of the interface\<close>

definition lswap :: "'k list \<Rightarrow> nat \<Rightarrow> nat \<Rightarrow> 'k list" where
  "lswap xs i j = xs[i := xs ! j, j := xs ! i]"

lemma length_lswap [simp]: "length (lswap xs i j) = length xs"
  by (simp add: lswap_def)

lemma nth_lswap: "i < length xs \<Longrightarrow> j < length xs \<Longrightarrow> k < length xs \<Longrightarrow>
    lswap xs i j ! k = (if k = j then xs ! i else if k = i then xs ! j else xs ! k)"
  by (auto simp: lswap_def nth_list_update)

lemma mset_lswap [simp]: "i < length xs \<Longrightarrow> j < length xs \<Longrightarrow> mset (lswap xs i j) = mset xs"
  unfolding lswap_def by (rule mset_swap)

lemma set_lswap [simp]: "i < length xs \<Longrightarrow> j < length xs \<Longrightarrow> set (lswap xs i j) = set xs"
  using mset_lswap mset_eq_setD by metis

text \<open>Every entry below \<open>n\<close>, except \<open>e\<close>, is not before its parent.\<close>

definition heap_but :: "('k \<Rightarrow> 'k \<Rightarrow> bool) \<Rightarrow> 'k list \<Rightarrow> nat \<Rightarrow> nat option \<Rightarrow> bool" where
  "heap_but lt xs n e \<longleftrightarrow>
     (\<forall>k < n. 0 < k \<and> Some k \<noteq> e \<longrightarrow> \<not> lt (xs ! k) (xs ! ((k - 1) div 2)))"

text \<open>The children of \<open>i\<close> are not before the parent of \<open>i\<close>.\<close>

definition grand_ok :: "('k \<Rightarrow> 'k \<Rightarrow> bool) \<Rightarrow> 'k list \<Rightarrow> nat \<Rightarrow> nat \<Rightarrow> bool" where
  "grand_ok lt xs n i \<longleftrightarrow>
     (0 < i \<longrightarrow> (\<forall>k < n. 0 < k \<and> (k - 1) div 2 = i \<longrightarrow> \<not> lt (xs ! k) (xs ! ((i - 1) div 2))))"

text \<open>As \<open>heap_but\<close>, also exempting the children of \<open>i\<close>.\<close>

definition heap_around :: "('k \<Rightarrow> 'k \<Rightarrow> bool) \<Rightarrow> 'k list \<Rightarrow> nat \<Rightarrow> nat \<Rightarrow> bool" where
  "heap_around lt xs n i \<longleftrightarrow>
     (\<forall>k < n. 0 < k \<and> k \<noteq> i \<and> (k - 1) div 2 \<noteq> i \<longrightarrow> \<not> lt (xs ! k) (xs ! ((k - 1) div 2)))"

abbreviation is_heap :: "('k \<Rightarrow> 'k \<Rightarrow> bool) \<Rightarrow> 'k list \<Rightarrow> bool" where
  "is_heap lt xs \<equiv> heap_but lt xs (length xs) None"

locale heap_interface =
  fixes le :: "'s \<Rightarrow> nat \<Rightarrow> nat \<Rightarrow> bool"
    and sw :: "'s \<Rightarrow> nat \<Rightarrow> nat \<Rightarrow> 's"
    and view :: "'s \<Rightarrow> 'k list"
    and lt :: "'k \<Rightarrow> 'k \<Rightarrow> bool"
    and A :: "'k set"
  assumes le_view: "i < length (view s) \<Longrightarrow> j < length (view s) \<Longrightarrow> le s i j = lt (view s ! i) (view s ! j)"
    and sw_view: "i < length (view s) \<Longrightarrow> j < length (view s) \<Longrightarrow> view (sw s i j) = lswap (view s) i j"
    and lt_asym: "a \<in> A \<Longrightarrow> b \<in> A \<Longrightarrow> lt a b \<Longrightarrow> \<not> lt b a"
    and lt_trans: "a \<in> A \<Longrightarrow> b \<in> A \<Longrightarrow> c \<in> A \<Longrightarrow> lt a b \<Longrightarrow> lt b c \<Longrightarrow> lt a c"
    and ge_trans: "a \<in> A \<Longrightarrow> b \<in> A \<Longrightarrow> c \<in> A \<Longrightarrow> \<not> lt a b \<Longrightarrow> \<not> lt b c \<Longrightarrow> \<not> lt a c"
begin

lemma parent_less: "0 < j \<Longrightarrow> (j - 1) div 2 < (j :: nat)"
  by linarith

text \<open>Whatever every swap in range keeps, the sifts keep.\<close>

lemma length_view_sw:
  "i < length (view s) \<Longrightarrow> j < length (view s) \<Longrightarrow> length (view (sw s i j)) = length (view s)"
  by (simp add: sw_view)

lemma hup_keeps:
  assumes swap: "\<And>s i j. P s \<Longrightarrow> i < length (view s) \<Longrightarrow> j < length (view s) \<Longrightarrow> P (sw s i j)"
  shows "P s \<Longrightarrow> j < length (view s) \<Longrightarrow>
    P (hup le sw s j) \<and> mset (view (hup le sw s j)) = mset (view s)"
proof (induction j arbitrary: s rule: less_induct)
  case (less j)
  show ?case
  proof (cases "(j - 1) div 2 = j \<or> \<not> le s j ((j - 1) div 2)")
    case True
    then show ?thesis using less.prems by (subst (1 2) hup.simps) (simp add: Let_def)
  next
    case False
    define i where "i = (j - 1) div 2"
    have i: "i < j" using False by (auto simp: i_def)
    then have il: "i < length (view s)" using less.prems by simp
    have "P (sw s i j)" using swap il less.prems by blast
    moreover have "i < length (view (sw s i j))" using il less.prems length_view_sw by simp
    ultimately have "P (hup le sw (sw s i j) i) \<and>
        mset (view (hup le sw (sw s i j) i)) = mset (view (sw s i j))"
      using less.IH [OF i] by blast
    moreover have "mset (view (sw s i j)) = mset (view s)"
      using il less.prems by (simp add: sw_view)
    moreover have "hup le sw s j = hup le sw (sw s i j) i"
      using False by (subst hup.simps) (simp add: i_def Let_def)
    ultimately show ?thesis by simp
  qed
qed

lemma pick_child_cases:
  assumes "\<not> n \<le> 2 * i + 1"
  shows "pick_child le s i n < n" "i < pick_child le s i n" "(pick_child le s i n - 1) div 2 = i"
    "0 < pick_child le s i n"
  using assms by (auto simp: pick_child_def Let_def)

lemma hdown_keeps:
  assumes swap: "\<And>s i j. P s \<Longrightarrow> i < length (view s) \<Longrightarrow> j < length (view s) \<Longrightarrow> i < n \<Longrightarrow> j < n \<Longrightarrow> P (sw s i j)"
  shows "P s \<Longrightarrow> i < n \<Longrightarrow> n \<le> length (view s) \<Longrightarrow>
    P (fst (hdown le sw s i n)) \<and> mset (view (fst (hdown le sw s i n))) = mset (view s)"
proof (induction "n - i" arbitrary: s i rule: less_induct)
  case less
  show ?case
  proof (cases "n \<le> 2 * i + 1 \<or> \<not> le s (pick_child le s i n) i")
    case True
    then have "hdown le sw s i n = (s, i)" by (subst hdown.simps) (auto simp: Let_def)
    then show ?thesis using less.prems by simp
  next
    case False
    define j where "j = pick_child le s i n"
    have j: "j < n" "i < j" using pick_child_cases [of n i s] False by (auto simp: j_def)
    have jl: "j < length (view s)" "i < length (view s)" using j less.prems by auto
    have "P (sw s i j)" using swap jl less.prems j by simp
    moreover have "n \<le> length (view (sw s i j))" using jl less.prems length_view_sw by simp
    ultimately have "P (fst (hdown le sw (sw s i j) j n)) \<and>
        mset (view (fst (hdown le sw (sw s i j) j n))) = mset (view (sw s i j))"
      using less.hyps [of j "sw s i j"] j less.prems by simp
    moreover have "mset (view (sw s i j)) = mset (view s)" using jl by (simp add: sw_view)
    moreover have "hdown le sw s i n = hdown le sw (sw s i j) j n"
      using False by (subst hdown.simps) (simp add: j_def Let_def)
    ultimately show ?thesis by simp
  qed
qed

lemma length_hup: "j < length (view s) \<Longrightarrow> length (view (hup le sw s j)) = length (view s)"
  using hup_keeps [where P = "\<lambda>_. True" and s = s and j = j] mset_eq_length by blast

lemma length_hdown: "i < n \<Longrightarrow> n \<le> length (view s) \<Longrightarrow>
    length (view (fst (hdown le sw s i n))) = length (view s)"
  using hdown_keeps [where P = "\<lambda>_. True" and s = s and i = i and n = n] mset_eq_length by blast

section \<open>Sifting up\<close>

lemma hup_heap:
  assumes "set (view s) \<subseteq> A" "j < length (view s)"
    and "heap_but lt (view s) (length (view s)) (Some j)" "grand_ok lt (view s) (length (view s)) j"
  shows "is_heap lt (view (hup le sw s j))"
  using assms
proof (induction j arbitrary: s rule: less_induct)
  case (less j)
  define i where "i = (j - 1) div 2"
  have A: "view s ! k \<in> A" if "k < length (view s)" for k
    using less.prems(1) nth_mem [OF that] by blast
  show ?case
  proof (cases "i = j \<or> \<not> le s j i")
    case True
    then have "hup le sw s j = s" by (subst hup.simps) (auto simp: i_def Let_def)
    moreover have "0 < j \<Longrightarrow> \<not> lt (view s ! j) (view s ! ((j - 1) div 2))"
      using True less.prems(2) le_view [of j s i] by (auto simp: i_def)
    ultimately show ?thesis using less.prems(3) by (auto simp: heap_but_def)
  next
    case False
    then have i: "i < j" "0 < j" by (auto simp: i_def)
    then have il: "i < length (view s)" using less.prems(2) by simp
    define ys where "ys = view (sw s i j)"
    define n where "n = length (view s)"
    have lti: "lt (view s ! j) (view s ! i)" using False le_view [OF less.prems(2) il] by simp
    have ys: "ys ! k = (if k = j then view s ! i else if k = i then view s ! j else view s ! k)"
      if "k < n" for k
      using that il less.prems(2) by (simp add: ys_def sw_view nth_lswap n_def)
    have len: "length ys = n" using il less.prems(2) by (simp add: ys_def sw_view n_def)
    have hb: "\<not> lt (view s ! k) (view s ! ((k - 1) div 2))" if "k < n" "0 < k" "k \<noteq> j" for k
      using less.prems(3) that by (auto simp: heap_but_def n_def)
    have gr: "\<not> lt (view s ! k) (view s ! i)" if "k < n" "0 < k" "(k - 1) div 2 = j" for k
      using less.prems(4) that i by (auto simp: grand_ok_def n_def i_def)
    have An: "view s ! k \<in> A" if "k < n" for k using A that by (simp add: n_def)
    have ijn: "i < n" "j < n" using il less.prems(2) by (simp_all add: n_def)
    have "heap_but lt ys n (Some i)"
      unfolding heap_but_def
    proof (intro allI impI)
      fix k assume k: "k < n" "0 < k \<and> Some k \<noteq> Some i"
      let ?p = "(k - 1) div 2"
      have p: "?p < n" "?p < k" using k by linarith+
      consider "k = j" | "k \<noteq> j" "?p = j" | "k \<noteq> j" "?p = i" | "k \<noteq> j" "?p \<noteq> j" "?p \<noteq> i" by blast
      then show "\<not> lt (ys ! k) (ys ! ?p)"
      proof cases
        case 1
        then show ?thesis
          using lt_asym [OF An An lti] ys [of i] ys [of j] ijn i by (simp add: i_def)
      next
        case 2
        then show ?thesis using ys [of k] ys [of j] ijn k gr [of k] by auto
      next
        case 3
        have "\<not> lt (view s ! k) (view s ! i)" using hb [of k] k 3 by simp
        then have "\<not> lt (view s ! k) (view s ! j)"
          using lt_trans [OF An An An _ lti, of k] k ijn by blast
        then show ?thesis using ys [of k] ys [of i] k ijn 3 i by auto
      next
        case 4
        then show ?thesis using ys [of k] ys [OF p(1)] k hb [of k] by auto
      qed
    qed
    moreover have "grand_ok lt ys n i"
      unfolding grand_ok_def
    proof (intro impI allI)
      fix k assume i0: "0 < i" and k: "k < n" "0 < k \<and> (k - 1) div 2 = i"
      let ?g = "(i - 1) div 2"
      have g: "?g < i" "?g < n" using i0 ijn by linarith+
      have ig: "\<not> lt (view s ! i) (view s ! ?g)" using hb [of i] i0 i ijn by simp
      have ki: "k = j \<or> \<not> lt (view s ! k) (view s ! i)" using hb [of k] k by auto
      have "\<not> lt (view s ! k) (view s ! ?g)" if "k \<noteq> j"
        using ki that ge_trans [OF An An An _ ig, of k] k ijn g by blast
      then show "\<not> lt (ys ! k) (ys ! ?g)"
        using ys [of k] ys [OF g(2)] k g ig i i0 ijn by auto
    qed
    moreover have "set ys \<subseteq> A"
      using less.prems(1) il less.prems(2) by (simp add: ys_def sw_view)
    ultimately have "is_heap lt (view (hup le sw (sw s i j) i))"
      using less.IH [OF i(1), of "sw s i j"] ijn len by (simp add: ys_def)
    moreover have "hup le sw s j = hup le sw (sw s i j) i"
      using False by (subst hup.simps) (simp add: i_def Let_def)
    ultimately show ?thesis by simp
  qed
qed

section \<open>Sifting down\<close>

lemma hdown_pos: "i \<le> snd (hdown le sw s i n)"
proof (induction "n - i" arbitrary: s i rule: less_induct)
  case less
  show ?case
  proof (cases "n \<le> 2 * i + 1 \<or> \<not> le s (pick_child le s i n) i")
    case False
    define j where "j = pick_child le s i n"
    have j: "j < n" "i < j" using pick_child_cases [of n i s] False by (auto simp: j_def)
    have "hdown le sw s i n = hdown le sw (sw s i j) j n"
      using False by (subst hdown.simps) (simp add: j_def Let_def)
    moreover have "n - j < n - i" using j by linarith
    ultimately show ?thesis using less [of j "sw s i j"] j by simp
  qed (subst hdown.simps, auto simp: Let_def)
qed

lemma hdown_outside:
  "i < n \<Longrightarrow> n \<le> length (view s) \<Longrightarrow> k < i \<or> n \<le> k \<Longrightarrow> k < length (view s) \<Longrightarrow>
   view (fst (hdown le sw s i n)) ! k = view s ! k"
proof (induction "n - i" arbitrary: s i rule: less_induct)
  case less
  show ?case
  proof (cases "n \<le> 2 * i + 1 \<or> \<not> le s (pick_child le s i n) i")
    case True
    then show ?thesis by (subst hdown.simps) (auto simp: Let_def)
  next
    case False
    define j where "j = pick_child le s i n"
    have j: "j < n" "i < j" using pick_child_cases [of n i s] False by (auto simp: j_def)
    have jl: "j < length (view s)" "i < length (view s)" using j less.prems by auto
    have "hdown le sw s i n = hdown le sw (sw s i j) j n"
      using False by (subst hdown.simps) (simp add: j_def Let_def)
    moreover have "view (fst (hdown le sw (sw s i j) j n)) ! k = view (sw s i j) ! k"
      by (rule less.hyps) (use j less.prems length_view_sw [OF jl(2,1)] in auto)
    moreover have "view (sw s i j) ! k = view s ! k"
      using jl less.prems j by (auto simp: sw_view nth_lswap)
    ultimately show ?thesis by simp
  qed
qed

lemma pick_child_least:
  assumes A: "set (view s) \<subseteq> A" "n \<le> length (view s)"
    and k: "k < n" "0 < k" "(k - 1) div 2 = i" "k \<noteq> pick_child le s i n"
  shows "\<not> lt (view s ! k) (view s ! pick_child le s i n)"
proof -
  let ?a = "2 * i + 1" and ?b = "2 * i + 2"
  have inA: "view s ! m \<in> A" if "m < n" for m using A nth_mem [of m "view s"] that by auto
  have ks: "k = ?a \<or> k = ?b" "?a < n" using k by linarith+
  have le: "le s ?b ?a = lt (view s ! ?b) (view s ! ?a)" if "?b < n"
    using le_view [of ?b s ?a] that A(2) by simp
  have pc: "pick_child le s i n = (if ?b < n \<and> le s ?b ?a then ?b else ?a)"
    unfolding pick_child_def Let_def by (simp only: add.assoc one_add_one)
  show ?thesis
  proof (cases "?b < n \<and> le s ?b ?a")
    case True
    then have "lt (view s ! ?b) (view s ! ?a)" "k = ?a" using le ks k(4) pc by auto
    then have "\<not> lt (view s ! ?a) (view s ! ?b)"
      using lt_asym [OF inA inA, of ?b ?a] True ks(2) by blast
    then show ?thesis using True pc \<open>k = ?a\<close> by simp
  next
    case False
    then have "k = ?b" using ks k(4) pc by auto
    then have "\<not> lt (view s ! ?b) (view s ! ?a)" using False le k(1) by auto
    then show ?thesis using \<open>k = ?b\<close> pc False by (simp only: if_False not_False_eq_True)
  qed
qed

lemma hdown_heap:
  assumes "set (view s) \<subseteq> A" "i < n" "n \<le> length (view s)"
    and "heap_around lt (view s) n i" "grand_ok lt (view s) n i"
  shows "heap_but lt (view (fst (hdown le sw s i n))) n (Some i) \<and>
    (snd (hdown le sw s i n) = i \<and> fst (hdown le sw s i n) = s \<or>
     i < snd (hdown le sw s i n) \<and> heap_but lt (view (fst (hdown le sw s i n))) n None)"
  using assms
proof (induction "n - i" arbitrary: s i rule: less_induct)
  case less
  have A: "view s ! k \<in> A" if "k < n" for k
    using less.prems(1,3) nth_mem [of k "view s"] that by auto
  have le: "le s a b = lt (view s ! a) (view s ! b)" if "a < n" "b < n" for a b
    using le_view that less.prems(3) by simp
  have around: "\<not> lt (view s ! k) (view s ! ((k - 1) div 2))"
    if "k < n" "0 < k" "k \<noteq> i" "(k - 1) div 2 \<noteq> i" for k
    using less.prems(4) that by (auto simp: heap_around_def)
  define j where "j = pick_child le s i n"
  have sib: "\<not> lt (view s ! k) (view s ! j)" if "k < n" "0 < k" "(k - 1) div 2 = i" "k \<noteq> j" for k
    using pick_child_least [OF less.prems(1,3) that(1-3)] that(4) by (simp add: j_def)
  show ?case
  proof (cases "n \<le> 2 * i + 1 \<or> \<not> le s j i")
    case True
    then have r: "hdown le sw s i n = (s, i)" by (subst hdown.simps) (auto simp: j_def Let_def)
    have child: "\<not> lt (view s ! k) (view s ! i)" if k: "k < n" "0 < k" "(k - 1) div 2 = i" for k
    proof -
      have ks: "k = 2 * i + 1 \<or> k = 2 * i + 2" "2 * i + 1 < n" using k by linarith+
      then have nj: "\<not> lt (view s ! j) (view s ! i)" "j < n"
        using True le [of j i] less.prems(2) pick_child_cases [of n i s] by (auto simp: j_def)
      show ?thesis
      proof (cases "k = j")
        case False
        then have "\<not> lt (view s ! k) (view s ! j)" using sib k by blast
        then show ?thesis using ge_trans [OF A A A _ nj(1), of k] k nj(2) less.prems(2) by blast
      qed (use nj in simp)
    qed
    then have "heap_but lt (view s) n (Some i)"
      using around unfolding heap_but_def by (metis option.inject)
    then show ?thesis by (simp add: r)
  next
    case False
    have j: "j < n" "i < j" "(j - 1) div 2 = i"
      using pick_child_cases [of n i s] False by (auto simp: j_def)
    have jl: "j < length (view s)" "i < length (view s)" using j less.prems by auto
    have ji: "lt (view s ! j) (view s ! i)" using False le [of j i] j by simp
    define ys where "ys = view (sw s i j)"
    have ys: "ys ! k = (if k = j then view s ! i else if k = i then view s ! j else view s ! k)"
      if "k < n" for k
      using that jl less.prems(3) by (simp add: ys_def sw_view nth_lswap)
    have "heap_around lt ys n j"
      unfolding heap_around_def
    proof (intro allI impI)
      fix k assume k: "k < n" "0 < k \<and> k \<noteq> j \<and> (k - 1) div 2 \<noteq> j"
      let ?p = "(k - 1) div 2"
      have p: "?p < n" "?p < k" using k by linarith+
      consider "k = i" | "k \<noteq> i" "?p = i" | "k \<noteq> i" "?p \<noteq> i" by blast
      then show "\<not> lt (ys ! k) (ys ! ?p)"
      proof cases
        case 1
        then have "\<not> lt (view s ! j) (view s ! ?p)"
          using less.prems(5) j k by (auto simp: grand_ok_def)
        then show ?thesis using ys [of k] ys [OF p(1)] k p 1 j by auto
      next
        case 2
        then show ?thesis using ys [of k] ys [of i] k sib [of k] j less.prems(2) by auto
      next
        case 3
        then show ?thesis using ys [of k] ys [OF p(1)] k around [of k] by auto
      qed
    qed
    moreover have "grand_ok lt ys n j"
      unfolding grand_ok_def
    proof (intro impI allI)
      fix k assume k: "k < n" "0 < k \<and> (k - 1) div 2 = j"
      have kj: "j < k" using k by linarith
      then have "k \<noteq> j" "k \<noteq> i" using j by auto
      moreover from this have "\<not> lt (view s ! k) (view s ! j)" using around [of k] k j by simp
      ultimately show "\<not> lt (ys ! k) (ys ! ((j - 1) div 2))"
        using ys [of k] ys [of i] k j less.prems(2) by auto
    qed
    moreover have "set ys \<subseteq> A" "length ys = length (view s)"
      using less.prems(1) jl by (simp_all add: ys_def sw_view)
    ultimately have ih: "heap_but lt (view (fst (hdown le sw (sw s i j) j n))) n (Some j) \<and>
        (snd (hdown le sw (sw s i j) j n) = j \<and> fst (hdown le sw (sw s i j) j n) = sw s i j \<or>
         j < snd (hdown le sw (sw s i j) j n) \<and>
         heap_but lt (view (fst (hdown le sw (sw s i j) j n))) n None)"
      using less.hyps [of j "sw s i j"] j less.prems(2,3) by (simp add: ys_def)
    have r: "hdown le sw s i n = hdown le sw (sw s i j) j n"
      using False by (subst hdown.simps) (simp add: j_def Let_def)
    have "heap_but lt (view (fst (hdown le sw (sw s i j) j n))) n None"
    proof (cases "j < snd (hdown le sw (sw s i j) j n)")
      case False
      then have "heap_but lt ys n (Some j)" and eq: "fst (hdown le sw (sw s i j) j n) = sw s i j"
        using ih by (auto simp: ys_def)
      moreover have "\<not> lt (ys ! j) (ys ! i)"
        using ys [of j] ys [of i] j less.prems(2) lt_asym [OF A A ji] by auto
      ultimately show ?thesis unfolding eq ys_def [symmetric] heap_but_def using j(3)
        by (metis option.inject)
    qed (use ih in simp)
    moreover have "i < snd (hdown le sw (sw s i j) j n)" using ih j(2) by auto
    ultimately show ?thesis unfolding r by (auto simp: heap_but_def)
  qed
qed

section \<open>The three operations\<close>

lemma hfix_heap:
  assumes A: "set (view s) \<subseteq> A" and i: "i < length (view s)"
    and around: "heap_around lt (view s) (length (view s)) i"
    and grand: "grand_ok lt (view s) (length (view s)) i"
  shows "is_heap lt (view (hfix le sw s i (length (view s))))"
proof -
  let ?n = "length (view s)"
  obtain s' i' where d: "hdown le sw s i ?n = (s', i')" by fastforce
  have h: "heap_but lt (view s') ?n (Some i) \<and>
      (i' = i \<and> s' = s \<or> i < i' \<and> heap_but lt (view s') ?n None)"
    using hdown_heap [OF A i _ around grand] by (simp add: d)
  have len: "length (view s') = ?n" using length_hdown [OF i, of s] by (simp add: d)
  show ?thesis
  proof (cases "i < i'")
    case True
    then show ?thesis using h by (simp add: hfix_def d len)
  next
    case False
    then have s': "s' = s" using h by simp
    have "is_heap lt (view (hup le sw s i))"
      by (rule hup_heap [OF A i]) (use h s' grand in auto)
    then show ?thesis using False by (simp add: hfix_def d s' length_hup [OF i])
  qed
qed

lemma hfix_keeps:
  assumes swap: "\<And>s i j. P s \<Longrightarrow> i < length (view s) \<Longrightarrow> j < length (view s) \<Longrightarrow> P (sw s i j)"
    and "P s" "i < length (view s)"
  shows "P (hfix le sw s i (length (view s))) \<and> mset (view (hfix le sw s i (length (view s)))) = mset (view s)"
proof -
  obtain s' i' where d: "hdown le sw s i (length (view s)) = (s', i')" by fastforce
  have 1: "P s' \<and> mset (view s') = mset (view s)"
    using hdown_keeps [where P = P and s = s and i = i and n = "length (view s)"] assms by (auto simp: d)
  then have "length (view s') = length (view s)" using mset_eq_length by blast
  then show ?thesis
    using 1 hup_keeps [where P = P and s = s' and j = i] assms by (auto simp: hfix_def d)
qed

text \<open>The root is not after any entry.\<close>

lemma heap_root:
  assumes "set xs \<subseteq> A" "heap_but lt xs n None" "n \<le> length xs" "k < n"
  shows "\<not> lt (xs ! k) (xs ! 0)"
  using assms(4)
proof (induction k rule: less_induct)
  case (less k)
  have A: "xs ! m \<in> A" if "m < n" for m using assms(1,3) nth_mem [of m xs] that by auto
  show ?case
  proof (cases "k = 0")
    case True
    then show ?thesis using lt_asym [OF A A] less.prems by blast
  next
    case False
    let ?p = "(k - 1) div 2"
    have p: "?p < k" "?p < n" using False less.prems by linarith+
    have "\<not> lt (xs ! k) (xs ! ?p)" "\<not> lt (xs ! ?p) (xs ! 0)"
      using assms(2) False less.prems less.IH [OF p] by (auto simp: heap_but_def)
    then show ?thesis using ge_trans [OF A A A] p less.prems by blast
  qed
qed

section \<open>Where the operations start\<close>

lemma heap_update:
  assumes "set xs \<subseteq> A" "is_heap lt xs" "i < length xs"
  shows "heap_around lt (xs[i := v]) (length xs) i \<and> grand_ok lt (xs[i := v]) (length xs) i"
proof
  have A: "xs ! m \<in> A" if "m < length xs" for m using assms(1) nth_mem [OF that] by blast
  have h: "\<not> lt (xs ! k) (xs ! ((k - 1) div 2))" if "k < length xs" "0 < k" for k
    using assms(2) that by (auto simp: heap_but_def)
  show "heap_around lt (xs[i := v]) (length xs) i"
    unfolding heap_around_def
  proof (intro allI impI)
    fix k assume k: "k < length xs" "0 < k \<and> k \<noteq> i \<and> (k - 1) div 2 \<noteq> i"
    then show "\<not> lt (xs[i := v] ! k) (xs[i := v] ! ((k - 1) div 2))"
      using h [of k] by simp
  qed
  show "grand_ok lt (xs[i := v]) (length xs) i"
    unfolding grand_ok_def
  proof (intro impI allI)
    fix k assume i: "0 < i" and k: "k < length xs" "0 < k \<and> (k - 1) div 2 = i"
    let ?g = "(i - 1) div 2"
    have ne: "k \<noteq> i" "?g \<noteq> i" "?g < length xs" using i k assms(3) by linarith+
    have "\<not> lt (xs ! k) (xs ! i)" "\<not> lt (xs ! i) (xs ! ?g)" using h [of k] h [of i] k i assms(3) by auto
    then have "\<not> lt (xs ! k) (xs ! ?g)" using ge_trans [OF A A A] k assms(3) ne(3) by blast
    then show "\<not> lt (xs[i := v] ! k) (xs[i := v] ! ?g)" using ne by simp
  qed
qed

lemma heap_snoc:
  assumes "is_heap lt xs"
  shows "heap_but lt (xs @ [v]) (Suc (length xs)) (Some (length xs)) \<and>
    grand_ok lt (xs @ [v]) (Suc (length xs)) (length xs)"
proof
  show "heap_but lt (xs @ [v]) (Suc (length xs)) (Some (length xs))"
    unfolding heap_but_def
  proof (intro allI impI)
    fix k assume k: "k < Suc (length xs)" "0 < k \<and> Some k \<noteq> Some (length xs)"
    then have "k < length xs" "(k - 1) div 2 < length xs" by auto
    then show "\<not> lt ((xs @ [v]) ! k) ((xs @ [v]) ! ((k - 1) div 2))"
      using assms k by (simp add: heap_but_def nth_append)
  qed
  show "grand_ok lt (xs @ [v]) (Suc (length xs)) (length xs)"
    unfolding grand_ok_def
  proof (intro impI allI)
    fix k assume "k < Suc (length xs)" "0 < k \<and> (k - 1) div 2 = length xs"
    then have False by linarith
    then show "\<not> lt ((xs @ [v]) ! k) ((xs @ [v]) ! ((length xs - 1) div 2))" ..
  qed
qed

lemma heap_root_swapped:
  assumes "is_heap lt xs" "xs \<noteq> []"
  shows "heap_around lt (lswap xs 0 (length xs - 1)) (length xs - 1) 0"
  unfolding heap_around_def
proof (intro allI impI)
  fix k assume k: "k < length xs - 1" "0 < k \<and> k \<noteq> 0 \<and> (k - 1) div 2 \<noteq> 0"
  then have p: "(k - 1) div 2 < length xs - 1" by linarith
  show "\<not> lt (lswap xs 0 (length xs - 1) ! k) (lswap xs 0 (length xs - 1) ! ((k - 1) div 2))"
    using assms k p by (simp add: nth_lswap heap_but_def)
qed

end

end
