(* ===== verification/Sampling.thy ===== *)
theory Sampling
  imports GoNum Signals GoHeap
begin

text \<open>
  The adaptive trace sampler (\<open>pkg/sampling\<close>): the per-service latency baseline
  (\<open>ewma.go\<close>), the state store that carries it over restarts (\<open>state.go\<close>), and the bounded
  priority queue of recent traces with the keep/drop decision (\<open>sampler.go\<close>). The queue is the
  slice of pointers the code has: items live in a store, the queue and the trace index hold their
  addresses, and \<open>container/heap\<close> works on them through \<open>Less\<close> and \<open>Swap\<close>. A Go panic is \<open>None\<close>.
  Times are nanoseconds.
\<close>

section \<open>\<open>math.Sqrt\<close>\<close>

function isqrt :: "nat \<Rightarrow> nat" where
  "isqrt n = (if n = 0 then 0
     else let r = 2 * isqrt (n div 4) in if (r + 1) * (r + 1) \<le> n then r + 1 else r)"
  by pat_completeness auto
termination by (relation "measure id") auto

declare isqrt.simps [simp del]

lemma isqrt_bounds: "isqrt n * isqrt n \<le> n \<and> n < (isqrt n + 1) * (isqrt n + 1)"
proof (induction n rule: isqrt.induct)
  case (1 n)
  show ?case
  proof (cases "n = 0")
    case False
    define q where "q = isqrt (n div 4)"
    have q: "q * q \<le> n div 4" "n div 4 < (q + 1) * (q + 1)" using 1 False by (auto simp: q_def)
    have "4 * (q * q) \<le> n" "n < 4 * ((q + 1) * (q + 1))" using q by linarith+
    moreover have "isqrt n = (if (2 * q + 1) * (2 * q + 1) \<le> n then 2 * q + 1 else 2 * q)"
      using False by (subst isqrt.simps) (simp add: q_def Let_def)
    ultimately show ?thesis by (auto simp: algebra_simps)
  qed (simp add: isqrt.simps)
qed

text \<open>The correctly rounded square root: the integer root of the argument scaled to more than 110
  bits, with a sticky bit when it is not exact, rounded once.\<close>

definition fsqrt :: "f64 \<Rightarrow> f64" where
  "fsqrt a =
     (case a of
        Fin x \<Rightarrow>
          if x < 0 then NaN
          else if x = 0 then Fin 0
          else
            let k = (112 - flog2 x) div 2 + 1;
                y = x * 2 powi (2 * k);
                n = nat \<lfloor>y\<rfloor>;
                r = isqrt n;
                v = (if of_nat (r * r) = y then of_nat r else of_nat r + 1 / 2)
            in fround (v / 2 powi k)
      | PInf \<Rightarrow> PInf
      | NInf \<Rightarrow> NaN
      | NaN \<Rightarrow> NaN)"

section \<open>The latency baseline\<close>

record ewmaTracker =
  ew_alpha :: f64
  ew_mean :: "string \<rightharpoonup> f64"
  ew_vari :: "string \<rightharpoonup> f64"
  ew_seen :: "string \<rightharpoonup> nat"

text \<open>Reading a Go map gives the zero value for an absent key.\<close>

definition fget :: "(string \<rightharpoonup> f64) \<Rightarrow> string \<Rightarrow> f64" where
  "fget m k = (case m k of Some v \<Rightarrow> v | None \<Rightarrow> Fin 0)"

definition nget :: "(string \<rightharpoonup> nat) \<Rightarrow> string \<Rightarrow> nat" where
  "nget m k = (case m k of Some v \<Rightarrow> v | None \<Rightarrow> 0)"

definition newEWMATracker :: "f64 \<Rightarrow> ewmaTracker" where
  "newEWMATracker alpha =
     \<lparr>ew_alpha = (if fle alpha (Fin 0) \<or> flt (Fin 1) alpha then flit (5 / 100) else alpha),
      ew_mean = Map.empty, ew_vari = Map.empty, ew_seen = Map.empty\<rparr>"

definition ewma_observe :: "ewmaTracker \<Rightarrow> string \<Rightarrow> f64 \<Rightarrow> ewmaTracker" where
  "ewma_observe t key x =
     (case ew_mean t key of
        None \<Rightarrow> t\<lparr>ew_mean := (ew_mean t)(key \<mapsto> x), ew_vari := (ew_vari t)(key \<mapsto> Fin 0),
                  ew_seen := (ew_seen t)(key \<mapsto> 1)\<rparr>
      | Some prev \<Rightarrow>
          let diff = fsub x prev
          in t\<lparr>ew_mean := (ew_mean t)(key \<mapsto> fadd prev (fmul (ew_alpha t) diff)),
               ew_vari := (ew_vari t)(key \<mapsto>
                 fmul (fsub (Fin 1) (ew_alpha t))
                   (fadd (fget (ew_vari t) key) (fmul (fmul (ew_alpha t) diff) diff))),
               ew_seen := (ew_seen t)(key \<mapsto> (nget (ew_seen t) key + 1) mod 2 ^ 64)\<rparr>)"

definition ewma_zscore :: "ewmaTracker \<Rightarrow> string \<Rightarrow> f64 \<Rightarrow> f64" where
  "ewma_zscore t key x =
     (if nget (ew_seen t) key < 30 then Fin 0
      else
        let mean = fget (ew_mean t) key; std = fsqrt (fget (ew_vari t) key)
        in if flt std (flit (1 / 10 ^ 9)) then Fin 0 else fdiv (fsub x mean) std)"

record ewmaSnapshot =
  sn_mean :: f64
  sn_variance :: f64
  sn_count :: nat

definition ewma_snapshot :: "ewmaTracker \<Rightarrow> string \<rightharpoonup> ewmaSnapshot" where
  "ewma_snapshot t = (\<lambda>k. case ew_mean t k of
     None \<Rightarrow> None
   | Some v \<Rightarrow> Some \<lparr>sn_mean = v, sn_variance = fget (ew_vari t) k, sn_count = nget (ew_seen t) k\<rparr>)"

definition ewma_restore :: "ewmaTracker \<Rightarrow> (string \<rightharpoonup> ewmaSnapshot) \<Rightarrow> ewmaTracker" where
  "ewma_restore t st =
     t\<lparr>ew_mean := ew_mean t ++ (map_option sn_mean \<circ> st),
       ew_vari := ew_vari t ++ (map_option sn_variance \<circ> st),
       ew_seen := ew_seen t ++ (map_option sn_count \<circ> st)\<rparr>"

section \<open>The in-memory state store\<close>

type_synonym state_store = "string \<rightharpoonup> (string \<rightharpoonup> ewmaSnapshot)"

definition NewInMemoryStore :: state_store where
  "NewInMemoryStore = Map.empty"

definition store_Save :: "state_store \<Rightarrow> string \<Rightarrow> (string \<rightharpoonup> ewmaSnapshot) \<Rightarrow> state_store" where
  "store_Save d tid st = d(tid \<mapsto> st)"

definition store_Load :: "state_store \<Rightarrow> string \<Rightarrow> string \<rightharpoonup> ewmaSnapshot" where
  "store_Load d tid = (case d tid of Some v \<Rightarrow> v | None \<Rightarrow> Map.empty)"

section \<open>The sampler\<close>

datatype SampleDecision = Keep | Drop

record TraceScore =
  ts_trace :: string
  ts_score :: f64
  ts_time :: int
  ts_index :: int

record sampler =
  sm_mem :: "nat \<Rightarrow> TraceScore"
  sm_next :: nat
  sm_pq :: "nat list"
  sm_seen :: "string \<rightharpoonup> int"
  sm_index :: "string \<rightharpoonup> nat"
  sm_rate :: f64
  sm_max :: int
  sm_latency :: ewmaTracker
  sm_store :: bool
  sm_tenant :: string
  sm_flush :: int

record SamplerOptions =
  op_rate :: f64
  op_max :: int
  op_alpha :: f64
  op_tenant :: string
  op_state :: bool
  op_flush :: int

definition no_trace :: TraceScore where
  "no_trace = \<lparr>ts_trace = [], ts_score = Fin 0, ts_time = 0, ts_index = 0\<rparr>"

text \<open>\<open>loaded\<close> is what the store answers, \<open>None\<close> for an error.\<close>

definition NewAdaptiveSamplerWithOptions ::
  "SamplerOptions \<Rightarrow> (string \<rightharpoonup> ewmaSnapshot) option \<Rightarrow> sampler" where
  "NewAdaptiveSamplerWithOptions opts loaded =
     (let s = \<lparr>sm_mem = (\<lambda>_. no_trace), sm_next = 0, sm_pq = [], sm_seen = Map.empty,
               sm_index = Map.empty, sm_rate = op_rate opts, sm_max = op_max opts,
               sm_latency = newEWMATracker (op_alpha opts), sm_store = op_state opts,
               sm_tenant = op_tenant opts,
               sm_flush = (if op_flush opts \<le> 0 then 30 * second else op_flush opts)\<rparr>
      in if op_state opts then
           (case loaded of
              Some st \<Rightarrow> s\<lparr>sm_latency := ewma_restore (sm_latency s) st\<rparr>
            | None \<Rightarrow> s)
         else s)"

definition NewAdaptiveSampler :: "f64 \<Rightarrow> int \<Rightarrow> sampler" where
  "NewAdaptiveSampler rate n =
     NewAdaptiveSamplerWithOptions \<lparr>op_rate = rate, op_max = n, op_alpha = Fin 0, op_tenant = [],
        op_state = False, op_flush = 0\<rparr> None"

text \<open>One flush of \<open>flushLoop\<close>, at a tick or at the close.\<close>

definition sampler_flush :: "sampler \<Rightarrow> state_store \<Rightarrow> state_store" where
  "sampler_flush s d = (if sm_store s then store_Save d (sm_tenant s) (ewma_snapshot (sm_latency s)) else d)"

definition Less :: "sampler \<Rightarrow> nat \<Rightarrow> nat \<Rightarrow> bool" where
  "Less s i j =
     (let a = sm_mem s (sm_pq s ! i); b = sm_mem s (sm_pq s ! j)
      in if feq (ts_score a) (ts_score b) then ts_time a < ts_time b
         else flt (ts_score a) (ts_score b))"

definition set_index :: "(nat \<Rightarrow> TraceScore) \<Rightarrow> nat \<Rightarrow> int \<Rightarrow> (nat \<Rightarrow> TraceScore)" where
  "set_index mem p i = mem(p := (mem p)\<lparr>ts_index := i\<rparr>)"

definition Swap :: "sampler \<Rightarrow> nat \<Rightarrow> nat \<Rightarrow> sampler" where
  "Swap s i j =
     (let pq = (sm_pq s)[i := sm_pq s ! j, j := sm_pq s ! i]
      in s\<lparr>sm_pq := pq, sm_mem := set_index (set_index (sm_mem s) (pq ! i) (int i)) (pq ! j) (int j)\<rparr>)"

definition heap_Push :: "sampler \<Rightarrow> nat \<Rightarrow> sampler" where
  "heap_Push s p =
     (let n = length (sm_pq s);
          s1 = s\<lparr>sm_pq := sm_pq s @ [p], sm_mem := set_index (sm_mem s) p (int n)\<rparr>
      in hup Less Swap s1 n)"

text \<open>\<open>heap.Pop\<close> swaps with index \<open>Len() - 1\<close>: on an empty queue that is a panic.\<close>

definition heap_Pop :: "sampler \<Rightarrow> (nat \<times> sampler) option" where
  "heap_Pop s =
     (if sm_pq s = [] then None
      else
        let n = length (sm_pq s) - 1;
            s1 = fst (hdown Less Swap (Swap s 0 n) 0 n);
            p = last (sm_pq s1)
        in Some (p, s1\<lparr>sm_pq := butlast (sm_pq s1), sm_mem := set_index (sm_mem s1) p (- 1)\<rparr>))"

definition heap_Fix :: "sampler \<Rightarrow> nat \<Rightarrow> sampler" where
  "heap_Fix s i = hfix Less Swap s i (length (sm_pq s))"

text \<open>\<open>Score\<close>, which also feeds the latency baseline.\<close>

definition service_of :: "signal \<Rightarrow> string" where
  "service_of sg =
     (let s = attr (sig_attrs sg) ''service.name''
      in if s = [] then attr (sig_attrs sg) ''service_name'' else s)"

definition latency_part :: "ewmaTracker \<Rightarrow> signal \<Rightarrow> f64 \<Rightarrow> ewmaTracker \<times> f64" where
  "latency_part t sg score =
     (case sig_attrs sg ''duration_ms'' of
        None \<Rightarrow> (t, score)
      | Some str \<Rightarrow>
          (case parse_float str of
             None \<Rightarrow> (t, score)
           | Some d \<Rightarrow>
               let score1 = (if flt (Fin 1000) d then fadd score (Fin 50) else score)
               in if service_of sg = [] then (t, score1)
                  else
                    let z = ewma_zscore t (service_of sg) d;
                        score2 = (if flt (Fin 0) z then fadd score1 (fmul (Fin 10) z) else score1)
                    in (ewma_observe t (service_of sg) d, score2)))"

definition Score :: "ewmaTracker \<Rightarrow> signal \<Rightarrow> ewmaTracker \<times> f64" where
  "Score t sg =
     (if sig_type sg \<noteq> Trace then (t, Fin 0)
      else
        let s0 = (if attr (sig_attrs sg) ''severity'' = ''ERROR'' then fadd (Fin 0) (Fin 100) else Fin 0);
            (t1, s1) = latency_part t sg s0;
            s2 = (if attr (sig_attrs sg) ''service.name'' = ''payment-service'' \<or>
                     attr (sig_attrs sg) ''service_name'' = ''payment-service''
                  then fadd s1 (Fin 20) else s1);
            s3 = (if attr (sig_attrs sg) ''parent_sampled'' = ''true'' then fadd s2 (Fin 25) else s2)
        in (t1, s3))"

text \<open>\<open>Decide\<close> up to the eviction: the queue entry of the trace is refreshed or created.\<close>

definition touch :: "sampler \<Rightarrow> string \<Rightarrow> f64 \<Rightarrow> int \<Rightarrow> sampler" where
  "touch s tid score now =
     (case sm_index s tid of
        Some p \<Rightarrow>
          let s1 = s\<lparr>sm_mem := (sm_mem s)(p := (sm_mem s p)\<lparr>ts_score := score, ts_time := now\<rparr>)\<rparr>
          in heap_Fix s1 (nat (ts_index (sm_mem s p)))
      | None \<Rightarrow>
          let p = sm_next s;
              s1 = s\<lparr>sm_next := p + 1,
                     sm_mem := (sm_mem s)(p := \<lparr>ts_trace = tid, ts_score = score, ts_time = now, ts_index = 0\<rparr>)\<rparr>;
              s2 = heap_Push s1 p
          in s2\<lparr>sm_index := (sm_index s2)(tid \<mapsto> p)\<rparr>)"

lemma length_Swap [simp]: "length (sm_pq (Swap s i j)) = length (sm_pq s)"
  by (simp add: Swap_def Let_def)

lemma length_hdown_Swap: "length (sm_pq (fst (hdown Less Swap s i n))) = length (sm_pq s)"
proof (induction "n - i" arbitrary: s i rule: less_induct)
  case less
  define j where "j = pick_child Less s i n"
  show ?case
  proof (cases "n \<le> 2 * i + 1 \<or> \<not> Less s j i")
    case True
    then show ?thesis by (subst hdown.simps) (auto simp: j_def Let_def)
  next
    case False
    then have "n - j < n - i" by (auto simp: j_def pick_child_def Let_def)
    then show ?thesis using less [of j "Swap s i j"] False
      by (subst hdown.simps) (simp add: j_def Let_def)
  qed
qed

lemma length_heap_Pop: "heap_Pop s = Some (p, s') \<Longrightarrow> length (sm_pq s) = Suc (length (sm_pq s'))"
  by (auto simp: heap_Pop_def Let_def length_hdown_Swap split: if_splits)

text \<open>The eviction loop.\<close>

function evict :: "sampler \<Rightarrow> sampler option" where
  "evict s =
     (if sm_max s < int (length (sm_pq s)) then
        (case heap_Pop s of
           None \<Rightarrow> None
         | Some (p, s1) \<Rightarrow> evict (s1\<lparr>sm_index := (sm_index s1)(ts_trace (sm_mem s1 p) := None)\<rparr>))
      else Some s)"
  by pat_completeness auto
termination
  by (relation "measure (\<lambda>s. length (sm_pq s))") (auto dest: length_heap_Pop)

declare evict.simps [simp del]

definition verdict :: "f64 \<Rightarrow> bool \<Rightarrow> int \<Rightarrow> int \<Rightarrow> SampleDecision" where
  "verdict score recent len t0 =
     (if fle (Fin 50) score then Keep
      else if recent then Keep
      else
        let keepThreshold = (if t0 < 1 then 1 else t0)
        in if len \<le> keepThreshold then Keep else Drop)"

text \<open>\<open>now\<close> is the time read before the queue is updated, \<open>now2\<close> the one \<open>time.Since\<close> reads.\<close>

definition Decide :: "sampler \<Rightarrow> int \<Rightarrow> int \<Rightarrow> signal \<Rightarrow> (sampler \<times> SampleDecision) option" where
  "Decide s now now2 sg =
     (if sig_type sg \<noteq> Trace then Some (s, Keep)
      else
        let (lat, score) = Score (sm_latency s) sg;
            s1 = s\<lparr>sm_latency := lat\<rparr>;
            tid = attr (sig_attrs sg) ''trace_id''
        in if tid = [] then Some (s1, Keep)
           else
             let s2 = touch s1 tid score now
             in (case evict (s2\<lparr>sm_seen := (sm_seen s2)(tid \<mapsto> now)\<rparr>) of
                   None \<Rightarrow> None
                 | Some s3 \<Rightarrow>
                     Some (s3, verdict score
                       (case sm_seen s tid of Some lastSeen \<Rightarrow> now2 - lastSeen < 5 * minute | None \<Rightarrow> False)
                       (int (length (sm_pq s3))) (to_int64 (fmul (of_int64 (sm_max s3)) (sm_rate s3))))))"

end
