(* ===== verification/SamplingProps.thy ===== *)
theory SamplingProps
  imports Sampling
begin

text \<open>
  The sampler keeps its bounded queue: \<open>container/heap\<close>'s contract holds for \<open>Less\<close> and \<open>Swap\<close> on
  scores that are numbers, scores always are, the trace index always finds a queued trace at its
  position, and every decision keeps the best entries and evicts only lesser ones.
\<close>

section \<open>Scores are numbers\<close>

definition nonneg :: "f64 \<Rightarrow> bool" where
  "nonneg a \<longleftrightarrow> (case a of Fin x \<Rightarrow> 0 \<le> x | PInf \<Rightarrow> True | _ \<Rightarrow> False)"

lemma nonneg_not_NaN: "nonneg a \<Longrightarrow> a \<noteq> NaN"
  by (auto simp: nonneg_def)

lemma round_half_even_nonneg: "0 \<le> x \<Longrightarrow> 0 \<le> round_half_even x"
  by (auto simp: round_half_even_def Let_def)

lemma nonneg_fround: "0 \<le> x \<Longrightarrow> nonneg (fround x)"
  by (auto simp: nonneg_def fround_def Let_def round_half_even_nonneg zero_le_mult_iff)

lemma nonneg_fround_numeral [simp]: "nonneg (fround (numeral k))"
  by (rule nonneg_fround) simp

lemma nonneg_fadd: "nonneg a \<Longrightarrow> nonneg b \<Longrightarrow> nonneg (fadd a b)"
  by (cases a; cases b) (auto simp: nonneg_def intro: nonneg_fround [unfolded nonneg_def])

lemma nonneg_scale: "0 < k \<Longrightarrow> flt (Fin 0) z \<Longrightarrow> nonneg (fmul (Fin k) z)"
  by (cases z) (auto simp: finf_def nonneg_def intro: nonneg_fround [unfolded nonneg_def])

lemma nonneg_Fin [simp]: "nonneg (Fin x) \<longleftrightarrow> 0 \<le> x"
  by (simp add: nonneg_def)

lemma nonneg_latency_part: "nonneg x \<Longrightarrow> nonneg (snd (latency_part t sg x))"
  by (auto simp: latency_part_def Let_def split: option.split intro!: nonneg_fadd nonneg_scale)

lemma nonneg_Score: "nonneg (snd (Score t sg))"
proof -
  let ?s0 = "if attr (sig_attrs sg) ''severity'' = ''ERROR'' then fadd (Fin 0) (Fin 100) else Fin 0"
  obtain t1 s1 where l: "latency_part t sg ?s0 = (t1, s1)" by fastforce
  have "nonneg ?s0" by (auto intro!: nonneg_fadd)
  then have "nonneg s1" using nonneg_latency_part [of ?s0 t sg] l by simp
  then show ?thesis
    unfolding Score_def Let_def l by (auto intro!: nonneg_fadd)
qed

section \<open>The heap interface\<close>

type_synonym queue_entry = "string \<times> f64 \<times> int"

definition entry_of :: "TraceScore \<Rightarrow> queue_entry" where
  "entry_of t = (ts_trace t, ts_score t, ts_time t)"

definition view :: "sampler \<Rightarrow> queue_entry list" where
  "view s = map (\<lambda>p. entry_of (sm_mem s p)) (sm_pq s)"

fun before :: "queue_entry \<Rightarrow> queue_entry \<Rightarrow> bool" where
  "before (_, x, m) (_, y, n) = (if feq x y then m < n else flt x y)"

definition numbers :: "queue_entry set" where
  "numbers = {(t, x, m). x \<noteq> NaN}"

lemma length_view [simp]: "length (view s) = length (sm_pq s)"
  by (simp add: view_def)

lemma entry_of_index [simp]: "entry_of (t\<lparr>ts_index := i\<rparr>) = entry_of t"
  by (simp add: entry_of_def)

lemma entry_of_set_index [simp]: "entry_of (set_index m p i q) = entry_of (m q)"
  by (simp add: set_index_def)

lemma Swap_simps [simp]:
  "sm_pq (Swap s i j) = lswap (sm_pq s) i j" "entry_of (sm_mem (Swap s i j) p) = entry_of (sm_mem s p)"
  by (simp_all add: Swap_def Let_def lswap_def)

lemma view_Swap: "i < length (sm_pq s) \<Longrightarrow> j < length (sm_pq s) \<Longrightarrow> view (Swap s i j) = lswap (view s) i j"
  by (simp add: view_def) (simp add: lswap_def map_update)

interpretation tq: heap_interface Less Swap view before numbers
proof
  show "Less s i j = before (view s ! i) (view s ! j)"
    if "i < length (view s)" "j < length (view s)" for s i j
    using that by (simp add: Less_def view_def entry_of_def Let_def)
  show "view (Swap s i j) = lswap (view s) i j"
    if "i < length (view s)" "j < length (view s)" for s i j
    using that by (simp add: view_Swap)
next
  fix a b assume "a \<in> numbers" "b \<in> numbers" "before a b"
  then show "\<not> before b a"
    by (cases a; cases b) (auto simp: numbers_def split: if_splits elim: flt.elims feq.elims)
next
  fix a b c assume "a \<in> numbers" "b \<in> numbers" "c \<in> numbers"
  obtain t x m where a: "a = (t, x, m)" by (cases a)
  obtain u y n where b: "b = (u, y, n)" by (cases b)
  obtain w z p where c: "c = (w, z, p)" by (cases c)
  have N: "x \<noteq> NaN" "y \<noteq> NaN" "z \<noteq> NaN"
    using \<open>a \<in> numbers\<close> \<open>b \<in> numbers\<close> \<open>c \<in> numbers\<close> by (auto simp: a b c numbers_def)
  show "before a b \<Longrightarrow> before b c \<Longrightarrow> before a c"
    using N by (cases x; cases y; cases z) (auto simp: a b c split: if_splits)
  show "\<not> before a b \<Longrightarrow> \<not> before b c \<Longrightarrow> \<not> before a c"
    using N by (cases x; cases y; cases z) (auto simp: a b c split: if_splits)
qed

section \<open>The invariant\<close>

definition index_ok :: "sampler \<Rightarrow> bool" where
  "index_ok s \<longleftrightarrow> distinct (sm_pq s) \<and>
     (\<forall>i < length (sm_pq s). ts_index (sm_mem s (sm_pq s ! i)) = int i)"

text \<open>The queue holds the traces of the index, each under its own name.\<close>

definition names_ok :: "sampler \<Rightarrow> bool" where
  "names_ok s \<longleftrightarrow> set (sm_pq s) \<subseteq> {..<sm_next s} \<and>
     (\<forall>t p. sm_index s t = Some p \<longleftrightarrow> p \<in> set (sm_pq s) \<and> ts_trace (sm_mem s p) = t)"

definition sampler_ok :: "sampler \<Rightarrow> bool" where
  "sampler_ok s \<longleftrightarrow> index_ok s \<and> names_ok s \<and> set (view s) \<subseteq> numbers \<and> is_heap before (view s)"

text \<open>What the heap operations leave alone.\<close>

definition same_but_order :: "sampler \<Rightarrow> sampler \<Rightarrow> bool" where
  "same_but_order s0 s \<longleftrightarrow> (\<exists>pq mem. s = s0\<lparr>sm_pq := pq, sm_mem := mem\<rparr>) \<and>
     mset (sm_pq s) = mset (sm_pq s0) \<and> (\<forall>p. entry_of (sm_mem s p) = entry_of (sm_mem s0 p))"

lemma index_ok_Swap:
  assumes "index_ok s" "i < length (sm_pq s)" "j < length (sm_pq s)"
  shows "index_ok (Swap s i j)"
proof -
  have d: "distinct (sm_pq s)" and ix: "\<And>k. k < length (sm_pq s) \<Longrightarrow> ts_index (sm_mem s (sm_pq s ! k)) = int k"
    using assms(1) by (auto simp: index_ok_def)
  have d': "distinct (lswap (sm_pq s) i j)"
    using d assms(2,3) by (simp add: lswap_def)
  have mem: "sm_mem (Swap s i j) = set_index (set_index (sm_mem s) (lswap (sm_pq s) i j ! i) (int i))
      (lswap (sm_pq s) i j ! j) (int j)"
    by (simp add: Swap_def Let_def lswap_def)
  have "ts_index (sm_mem (Swap s i j) (lswap (sm_pq s) i j ! k)) = int k" if k: "k < length (sm_pq s)" for k
  proof -
    have ne: "k \<noteq> m \<Longrightarrow> m < length (sm_pq s) \<Longrightarrow> lswap (sm_pq s) i j ! k \<noteq> lswap (sm_pq s) i j ! m" for m
      using d' k by (simp add: nth_eq_iff_index_eq)
    show ?thesis
    proof (cases "k = j \<or> k = i")
      case True
      then show ?thesis using ne [of i] ne [of j] assms(2,3) by (auto simp: mem set_index_def)
    next
      case False
      then have "lswap (sm_pq s) i j ! k = sm_pq s ! k" using k assms by (simp add: nth_lswap)
      then show ?thesis using ne [of i] ne [of j] assms(2,3) False ix [OF k] by (auto simp: mem set_index_def)
    qed
  qed
  then show ?thesis using d' by (simp add: index_ok_def)
qed

lemma same_but_order_refl [simp]: "same_but_order s s"
  by (cases s) (auto simp: same_but_order_def)

lemma same_but_order_Swap:
  assumes "same_but_order s0 s" "i < length (sm_pq s)" "j < length (sm_pq s)"
  shows "same_but_order s0 (Swap s i j)"
proof -
  obtain pq mem where s: "s = s0\<lparr>sm_pq := pq, sm_mem := mem\<rparr>"
    using assms(1) by (auto simp: same_but_order_def)
  have "\<exists>pq mem. Swap s i j = s0\<lparr>sm_pq := pq, sm_mem := mem\<rparr>"
    by (auto simp: s Swap_def Let_def)
  then show ?thesis using assms by (simp add: same_but_order_def)
qed

lemma same_but_order_frame:
  assumes "same_but_order s0 s"
  shows "sm_next s = sm_next s0" "sm_seen s = sm_seen s0" "sm_index s = sm_index s0"
    "sm_max s = sm_max s0" "sm_rate s = sm_rate s0" "sm_latency s = sm_latency s0"
    "sm_store s = sm_store s0" "sm_tenant s = sm_tenant s0"
    "set (sm_pq s) = set (sm_pq s0)" "length (sm_pq s) = length (sm_pq s0)"
    "ts_trace (sm_mem s p) = ts_trace (sm_mem s0 p)" "mset (view s) = mset (view s0)"
proof -
  obtain pq mem where eq: "s = s0\<lparr>sm_pq := pq, sm_mem := mem\<rparr>" and m: "mset (sm_pq s) = mset (sm_pq s0)"
    and e: "\<And>p. entry_of (sm_mem s p) = entry_of (sm_mem s0 p)"
    using assms by (auto simp: same_but_order_def)
  show "sm_next s = sm_next s0" "sm_seen s = sm_seen s0" "sm_index s = sm_index s0"
    "sm_max s = sm_max s0" "sm_rate s = sm_rate s0" "sm_latency s = sm_latency s0"
    "sm_store s = sm_store s0" "sm_tenant s = sm_tenant s0"
    by (simp_all add: eq)
  show "set (sm_pq s) = set (sm_pq s0)" using m by (metis set_mset_mset)
  show "length (sm_pq s) = length (sm_pq s0)" using m by (metis size_mset)
  show "ts_trace (sm_mem s p) = ts_trace (sm_mem s0 p)" using e [of p] by (simp add: entry_of_def)
  show "mset (view s) = mset (view s0)" using m e by (simp add: view_def)
qed

definition queue_ok :: "sampler \<Rightarrow> bool" where
  "queue_ok s \<longleftrightarrow> index_ok s \<and> set (view s) \<subseteq> numbers \<and> is_heap before (view s)"

lemma sampler_ok_queue: "sampler_ok s \<longleftrightarrow> queue_ok s \<and> names_ok s"
  by (auto simp: sampler_ok_def queue_ok_def)

section \<open>The three heap operations\<close>

lemma heap_Fix_ok:
  assumes q: "index_ok s" "set (view s) \<subseteq> numbers" "i < length (sm_pq s)"
    and "heap_around before (view s) (length (view s)) i" "grand_ok before (view s) (length (view s)) i"
  shows "queue_ok (heap_Fix s i) \<and> same_but_order s (heap_Fix s i)"
proof -
  let ?P = "\<lambda>x. index_ok x \<and> same_but_order s x"
  have "?P (heap_Fix s i) \<and> mset (view (heap_Fix s i)) = mset (view s)"
    using tq.hfix_keeps [where P = ?P and s = s and i = i] q index_ok_Swap same_but_order_Swap
    by (simp add: heap_Fix_def)
  moreover from this have "set (view (heap_Fix s i)) \<subseteq> numbers"
    using q(2) by (metis set_mset_mset)
  moreover have "is_heap before (view (heap_Fix s i))"
    using tq.hfix_heap [OF q(2) _ assms(4,5)] q(3) by (simp add: heap_Fix_def)
  ultimately show ?thesis by (simp add: queue_ok_def)
qed

lemma heap_Push_ok:
  assumes q: "queue_ok s" and p: "p \<notin> set (sm_pq s)" "ts_score (sm_mem s p) \<noteq> NaN"
  shows "queue_ok (heap_Push s p) \<and>
    same_but_order (s\<lparr>sm_pq := sm_pq s @ [p]\<rparr>) (heap_Push s p)"
proof -
  define s0 where "s0 = s\<lparr>sm_pq := sm_pq s @ [p]\<rparr>"
  define n where "n = length (sm_pq s)"
  define s1 where "s1 = s\<lparr>sm_pq := sm_pq s @ [p], sm_mem := set_index (sm_mem s) p (int n)\<rparr>"
  have push: "heap_Push s p = hup Less Swap s1 n" by (simp add: heap_Push_def s1_def n_def Let_def)
  have i1: "index_ok s1"
    using q p by (auto simp: index_ok_def queue_ok_def s1_def set_index_def n_def nth_append less_Suc_eq)
  have v1: "view s1 = view s @ [entry_of (sm_mem s p)]" by (simp add: view_def s1_def)
  have A: "set (view s1) \<subseteq> numbers"
    using q p by (auto simp: v1 queue_ok_def numbers_def entry_of_def)
  have s01: "same_but_order s0 s1" by (auto simp: same_but_order_def s0_def s1_def)
  have n1: "n < length (view s1)" by (simp add: s1_def n_def)
  let ?P = "\<lambda>x. index_ok x \<and> same_but_order s0 x"
  have P: "?P (hup Less Swap s1 n) \<and> mset (view (hup Less Swap s1 n)) = mset (view s1)"
    using tq.hup_keeps [where P = ?P and s = s1 and j = n] i1 s01 n1 index_ok_Swap same_but_order_Swap
    by simp
  moreover from this have "set (view (hup Less Swap s1 n)) \<subseteq> numbers"
    using A by (metis set_mset_mset)
  moreover have "is_heap before (view (hup Less Swap s1 n))"
    using tq.heap_snoc [of "view s" "entry_of (sm_mem s p)"] q n1
    by (intro tq.hup_heap [OF A n1]) (simp_all add: v1 queue_ok_def n_def)
  ultimately show ?thesis by (simp add: push queue_ok_def s0_def)
qed

lemma sift_root:
  assumes q: "queue_ok s" and ne: "sm_pq s \<noteq> []" and n: "n = length (sm_pq s) - 1"
    and d: "d = fst (hdown Less Swap (Swap s 0 n) 0 n)"
  shows "index_ok d" "same_but_order s d" "heap_but before (view d) n None" "view d ! n = view s ! 0"
proof -
  let ?s = "Swap s 0 n"
  have l: "0 < length (sm_pq s)" "n < length (sm_pq s)" using ne n by auto
  have P: "index_ok ?s" "same_but_order s ?s"
    using q l index_ok_Swap same_but_order_Swap by (auto simp: queue_ok_def)
  have v: "view ?s = lswap (view s) 0 n" using l by (simp add: view_Swap)
  have A: "set (view ?s) \<subseteq> numbers" using q l by (simp add: v queue_ok_def)
  have "index_ok d \<and> same_but_order s d \<and> heap_but before (view d) n None \<and> view d ! n = view s ! 0"
  proof (cases "n = 0")
    case True
    then have "d = ?s" by (simp add: d hdown.simps)
    then show ?thesis using P True v l by (simp add: heap_but_def nth_lswap)
  next
    case False
    let ?P = "\<lambda>x. index_ok x \<and> same_but_order s x"
    have "?P d" using tq.hdown_keeps [where P = ?P and s = ?s and i = 0 and n = n] P l False
        index_ok_Swap same_but_order_Swap by (simp add: d)
    moreover have "heap_around before (view ?s) n 0"
      using tq.heap_root_swapped [of "view s"] q l unfolding v unfolding n
      by (simp add: queue_ok_def flip: length_view del: length_view)
    then have "heap_but before (view d) n (Some 0)"
      using tq.hdown_heap [OF A, of 0 n] False l by (simp add: d grand_ok_def)
    then have "heap_but before (view d) n None" by (auto simp: heap_but_def)
    moreover have "view d ! n = view ?s ! n"
      using tq.hdown_outside [of 0 n ?s n] False l by (simp add: d)
    then have "view d ! n = view s ! 0" using l by (simp add: v nth_lswap)
    ultimately show ?thesis by simp
  qed
  then show "index_ok d" "same_but_order s d" "heap_but before (view d) n None" "view d ! n = view s ! 0"
    by auto
qed

lemma heap_Pop_ok:
  assumes q: "queue_ok s" and ne: "sm_pq s \<noteq> []"
  obtains p s1 pq mem where "heap_Pop s = Some (p, s1)" "queue_ok s1"
    "s1 = s\<lparr>sm_pq := pq, sm_mem := mem\<rparr>"
    "mset (sm_pq s) = add_mset p (mset pq)"
    "\<And>q. entry_of (mem q) = entry_of (sm_mem s q)"
    "\<And>e. e \<in> set (view s) \<Longrightarrow> \<not> before e (entry_of (sm_mem s p))"
proof -
  define n where "n = length (sm_pq s) - 1"
  define d where "d = fst (hdown Less Swap (Swap s 0 n) 0 n)"
  define p where "p = last (sm_pq d)"
  define s1 where "s1 = d\<lparr>sm_pq := butlast (sm_pq d), sm_mem := set_index (sm_mem d) p (- 1)\<rparr>"
  note r = sift_root [OF q ne n_def d_def]
  have pop: "heap_Pop s = Some (p, s1)"
    using ne by (simp add: heap_Pop_def n_def d_def p_def s1_def Let_def)
  have len: "length (sm_pq d) = Suc n" and e: "\<And>q. entry_of (sm_mem d q) = entry_of (sm_mem s q)"
    and m: "mset (sm_pq d) = mset (sm_pq s)"
    using r(2) ne same_but_order_frame(10) [OF r(2)] by (auto simp: same_but_order_def n_def)
  have dn: "sm_pq d = butlast (sm_pq d) @ [p]" "p = sm_pq d ! n"
  proof -
    have "sm_pq d \<noteq> []" using len by auto
    then show "sm_pq d = butlast (sm_pq d) @ [p]" by (simp add: p_def)
    show "p = sm_pq d ! n" using len \<open>sm_pq d \<noteq> []\<close> by (simp add: p_def last_conv_nth)
  qed
  have pe: "entry_of (sm_mem s p) = view s ! 0"
    using r(4) len by (simp add: view_def dn(2) e)
  have bl: "distinct (butlast (sm_pq d))" "p \<notin> set (butlast (sm_pq d))"
    using r(1) dn(1) by (metis distinct_append index_ok_def not_distinct_conv_prefix distinct_butlast,
        metis distinct_append index_ok_def disjoint_iff list.set_intros(1))
  have ix: "index_ok s1"
    unfolding index_ok_def
  proof (intro conjI allI impI)
    show "distinct (sm_pq s1)" using bl by (simp add: s1_def)
    fix i assume i: "i < length (sm_pq s1)"
    then have "butlast (sm_pq d) ! i \<noteq> p" "butlast (sm_pq d) ! i = sm_pq d ! i"
      using bl(2) nth_mem [of i "butlast (sm_pq d)"] by (auto simp: s1_def nth_butlast)
    then show "ts_index (sm_mem s1 (sm_pq s1 ! i)) = int i"
      using r(1) i by (simp add: s1_def set_index_def index_ok_def)
  qed
  have v1: "view s1 = butlast (view d)"
    by (simp add: view_def s1_def map_butlast)
  have "set (view d) = set (view s)" using same_but_order_frame(12) [OF r(2)] by (metis set_mset_mset)
  then have "set (view s1) \<subseteq> numbers"
    using q in_set_butlastD [of _ "view d"] by (auto simp: v1 queue_ok_def)
  moreover have "is_heap before (view s1)"
    unfolding heap_but_def
  proof (intro allI impI)
    fix k assume k: "k < length (view s1)" "0 < k \<and> Some k \<noteq> None"
    then have "k < n" "(k - 1) div 2 < n" using len by (auto simp: v1)
    then show "\<not> before (view s1 ! k) (view s1 ! ((k - 1) div 2))"
      using r(3) k len by (simp add: v1 nth_butlast heap_but_def)
  qed
  ultimately have qs1: "queue_ok s1" using ix by (simp add: queue_ok_def)
  obtain pq mem where dd: "d = s\<lparr>sm_pq := pq, sm_mem := mem\<rparr>"
    using r(2) by (auto simp: same_but_order_def)
  show thesis
  proof (rule that [OF pop qs1])
    show "s1 = s\<lparr>sm_pq := butlast (sm_pq d), sm_mem := set_index (sm_mem d) p (- 1)\<rparr>"
      by (simp add: s1_def dd)
    show "mset (sm_pq s) = add_mset p (mset (butlast (sm_pq d)))"
      using m dn(1) by (metis add_mset_add_single mset.simps mset_append)
    show "entry_of (set_index (sm_mem d) p (- 1) q) = entry_of (sm_mem s q)" for q
      by (simp add: e)
    show "\<not> before e (entry_of (sm_mem s p))" if "e \<in> set (view s)" for e
      using that q tq.heap_root [of "view s" "length (view s)"] unfolding pe
      by (metis in_set_conv_nth order_refl queue_ok_def)
  qed
qed

section \<open>Refreshing and evicting\<close>

lemma names_okD: "names_ok s \<Longrightarrow> p \<in> set (sm_pq s) \<Longrightarrow> sm_index s (ts_trace (sm_mem s p)) = Some p"
  by (simp add: names_ok_def)

lemma names_distinct:
  assumes "names_ok s" "index_ok s"
  shows "distinct (map fst (view s))"
proof -
  have "inj_on (\<lambda>p. ts_trace (sm_mem s p)) (set (sm_pq s))"
    using assms(1) unfolding names_ok_def inj_on_def by (metis option.inject)
  then show ?thesis
    using assms(2) by (simp add: view_def entry_of_def comp_def distinct_map index_ok_def)
qed

lemma mset_update_named:
  "distinct (map fst xs) \<Longrightarrow> i < length xs \<Longrightarrow> fst (xs ! i) = t \<Longrightarrow>
   mset (xs[i := v]) = add_mset v {#e \<in># mset xs. fst e \<noteq> t#}"
proof (induction xs arbitrary: i)
  case (Cons x xs)
  show ?case
  proof (cases i)
    case 0
    then have "t \<notin> fst ` set xs" using Cons.prems by auto
    then have "\<forall>e \<in> set xs. fst e \<noteq> t" by (metis image_eqI)
    then have "{#e \<in># mset xs. fst e \<noteq> t#} = mset xs" by (simp add: filter_mset_eq_conv)
    then show ?thesis using 0 Cons.prems by simp
  next
    case (Suc k)
    then have "fst x \<noteq> t" using Cons.prems nth_mem [of k xs] by force
    then show ?thesis using Suc Cons by simp
  qed
qed simp

definition same_settings :: "sampler \<Rightarrow> sampler \<Rightarrow> bool" where
  "same_settings s s' \<longleftrightarrow> sm_max s' = sm_max s \<and> sm_rate s' = sm_rate s \<and> sm_seen s' = sm_seen s \<and>
     sm_latency s' = sm_latency s \<and> sm_store s' = sm_store s \<and> sm_tenant s' = sm_tenant s"

lemma touch_existing:
  assumes ok: "sampler_ok s" and num: "score \<noteq> NaN" and p: "sm_index s tid = Some p"
  shows "sampler_ok (touch s tid score now) \<and> same_settings s (touch s tid score now) \<and>
    mset (view (touch s tid score now)) = add_mset (tid, score, now) {#e \<in># mset (view s). fst e \<noteq> tid#}"
proof -
  have nm: "names_ok s" and ix: "index_ok s" and A: "set (view s) \<subseteq> numbers" and hp: "is_heap before (view s)"
    using ok by (auto simp: sampler_ok_def)
  have pin: "p \<in> set (sm_pq s)" "ts_trace (sm_mem s p) = tid" using nm p by (auto simp: names_ok_def)
  then obtain i where i: "i < length (sm_pq s)" "sm_pq s ! i = p" by (auto simp: in_set_conv_nth)
  have idx: "nat (ts_index (sm_mem s p)) = i" using ix i by (auto simp: index_ok_def)
  define s1 where "s1 = s\<lparr>sm_mem := (sm_mem s)(p := (sm_mem s p)\<lparr>ts_score := score, ts_time := now\<rparr>)\<rparr>"
  have t: "touch s tid score now = heap_Fix s1 i" by (simp add: touch_def p s1_def idx Let_def)
  have v1: "view s1 = (view s)[i := (tid, score, now)]"
    using i pin ix by (intro nth_equalityI) (auto simp: view_def s1_def entry_of_def nth_list_update index_ok_def nth_eq_iff_index_eq)
  have pqs1: "sm_pq s1 = sm_pq s" by (simp add: s1_def)
  have ix1: "index_ok s1" using ix by (auto simp: index_ok_def s1_def)
  have A1: "set (view s1) \<subseteq> numbers"
    unfolding v1 using A num
    by (intro order_trans [OF set_update_subset_insert]) (auto simp: numbers_def)
  have F: "queue_ok (heap_Fix s1 i) \<and> same_but_order s1 (heap_Fix s1 i)"
    using tq.heap_update [OF A hp, of i "(tid, score, now)"] i pqs1
    by (intro heap_Fix_ok [OF ix1 A1]) (simp_all add: v1)
  then have sbo: "same_but_order s1 (heap_Fix s1 i)" by simp
  note fr = same_but_order_frame [OF sbo]
  have tr: "ts_trace (sm_mem s1 q) = ts_trace (sm_mem s q)" for q by (simp add: s1_def)
  have "names_ok (heap_Fix s1 i)"
    using nm unfolding names_ok_def fr tr by (simp add: s1_def)
  moreover have "mset (view s1) = add_mset (tid, score, now) {#e \<in># mset (view s). fst e \<noteq> tid#}"
    unfolding v1 using names_distinct [OF nm ix] i pin
    by (intro mset_update_named) (simp_all add: view_def entry_of_def)
  moreover have "same_settings s (heap_Fix s1 i)" by (simp add: same_settings_def fr) (simp add: s1_def)
  ultimately show ?thesis using F fr(12) by (simp add: t sampler_ok_queue)
qed

lemma touch_new:
  assumes ok: "sampler_ok s" and num: "score \<noteq> NaN" and p: "sm_index s tid = None"
  shows "sampler_ok (touch s tid score now) \<and> same_settings s (touch s tid score now) \<and>
    mset (view (touch s tid score now)) = add_mset (tid, score, now) {#e \<in># mset (view s). fst e \<noteq> tid#}"
proof -
  have nm: "names_ok s" and q: "queue_ok s" using ok by (auto simp: sampler_ok_queue)
  define p where "p = sm_next s"
  define t where "t = \<lparr>ts_trace = tid, ts_score = score, ts_time = now, ts_index = 0\<rparr>"
  define s1 where "s1 = s\<lparr>sm_next := p + 1, sm_mem := (sm_mem s)(p := t)\<rparr>"
  have pn: "p \<notin> set (sm_pq s)" using nm by (auto simp: names_ok_def p_def)
  have old: "sm_mem s1 r = sm_mem s r" if "r \<in> set (sm_pq s)" for r
    using that pn by (auto simp: s1_def)
  have v1: "view s1 = view s" using old by (auto simp: view_def s1_def)
  have "index_ok s1" using q old by (simp add: queue_ok_def index_ok_def s1_def)
  then have q1: "queue_ok s1" using q by (simp add: queue_ok_def v1 flip: length_view del: length_view)
  define s2 where "s2 = heap_Push s1 p"
  have P: "queue_ok s2 \<and> same_but_order (s1\<lparr>sm_pq := sm_pq s1 @ [p]\<rparr>) s2"
    unfolding s2_def using pn num by (intro heap_Push_ok [OF q1]) (simp_all add: s1_def t_def)
  then have sbo: "same_but_order (s1\<lparr>sm_pq := sm_pq s1 @ [p]\<rparr>) s2" by simp
  note fr = same_but_order_frame [OF sbo]
  define s3 where "s3 = s2\<lparr>sm_index := (sm_index s2)(tid \<mapsto> p)\<rparr>"
  have touch: "touch s tid score now = s3"
    by (simp add: touch_def assms(3) s3_def s2_def s1_def t_def p_def Let_def)
  have "queue_ok s3" using P by (simp add: queue_ok_def index_ok_def s3_def view_def)
  moreover have "names_ok s3"
    unfolding names_ok_def
  proof (intro conjI allI)
    show "set (sm_pq s3) \<subseteq> {..<sm_next s3}"
      using nm by (auto simp: s3_def fr s1_def names_ok_def p_def)
    fix t' r
    have none: "r \<in> set (sm_pq s) \<Longrightarrow> ts_trace (sm_mem s r) \<noteq> tid"
      using names_okD [OF nm] assms(3) by fastforce
    have tr: "ts_trace (sm_mem s3 r) = (if r = p then tid else ts_trace (sm_mem s r))"
      by (simp add: s3_def fr(11)) (simp add: s1_def t_def)
    have set3: "set (sm_pq s3) = insert p (set (sm_pq s))" by (simp add: s3_def fr(9)) (simp add: s1_def)
    have idx3: "sm_index s3 = (sm_index s)(tid \<mapsto> p)" by (simp add: s3_def fr(3)) (simp add: s1_def)
    show "sm_index s3 t' = Some r \<longleftrightarrow> r \<in> set (sm_pq s3) \<and> ts_trace (sm_mem s3 r) = t'"
      using nm pn none unfolding set3 idx3 tr names_ok_def by (auto split: if_splits)
  qed
  moreover have "mset (view s3) = add_mset (tid, score, now) (mset (view s))"
  proof -
    have "mset (view s3) = mset (view (s1\<lparr>sm_pq := sm_pq s1 @ [p]\<rparr>))"
      using fr(12) by (simp add: s3_def view_def)
    also have "view (s1\<lparr>sm_pq := sm_pq s1 @ [p]\<rparr>) = view s1 @ [(tid, score, now)]"
      by (simp add: view_def s1_def entry_of_def t_def)
    finally show ?thesis by (simp add: v1)
  qed
  moreover have "{#e \<in># mset (view s). fst e \<noteq> tid#} = mset (view s)"
    using names_okD [OF nm] assms(3) unfolding filter_mset_eq_conv
    by (fastforce simp: view_def entry_of_def)
  moreover have "same_settings s s3" by (simp add: same_settings_def s3_def fr) (simp add: s1_def)
  ultimately show ?thesis by (simp add: touch sampler_ok_queue)
qed

lemma touch_ok:
  assumes "sampler_ok s" "score \<noteq> NaN"
  shows "sampler_ok (touch s tid score now) \<and> same_settings s (touch s tid score now) \<and>
    mset (view (touch s tid score now)) = add_mset (tid, score, now) {#e \<in># mset (view s). fst e \<noteq> tid#}"
  using touch_existing [OF assms] touch_new [OF assms] by (cases "sm_index s tid") auto

text \<open>What the eviction loop removes is not after anything it keeps.\<close>

lemma evict_ok:
  assumes "sampler_ok s" "0 \<le> sm_max s"
  shows "\<exists>s' E. evict s = Some s' \<and> sampler_ok s' \<and> same_settings s s' \<and>
    mset (view s) = mset (view s') + E \<and> (\<forall>e \<in># E. \<forall>k \<in># mset (view s'). \<not> before k e) \<and>
    length (sm_pq s') = min (length (sm_pq s)) (nat (sm_max s))"
  using assms
proof (induction s rule: evict.induct)
  case (1 s)
  show ?case
  proof (cases "sm_max s < int (length (sm_pq s))")
    case False
    then show ?thesis using 1 by (subst evict.simps) (auto simp: same_settings_def)
  next
    case True
    have q: "queue_ok s" and nm: "names_ok s" using 1(2) by (auto simp: sampler_ok_queue)
    have "sm_pq s \<noteq> []" using True 1(3) by auto
    then obtain p s1 pq mem where pop: "heap_Pop s = Some (p, s1)" and q1: "queue_ok s1"
      and s1: "s1 = s\<lparr>sm_pq := pq, sm_mem := mem\<rparr>" and m: "mset (sm_pq s) = add_mset p (mset pq)"
      and e: "\<And>q. entry_of (mem q) = entry_of (sm_mem s q)"
      and least: "\<And>e. e \<in> set (view s) \<Longrightarrow> \<not> before e (entry_of (sm_mem s p))"
      using heap_Pop_ok [OF q] by metis
    define s2 where "s2 = s1\<lparr>sm_index := (sm_index s1)(ts_trace (sm_mem s1 p) := None)\<rparr>"
    have view: "mset (view s) = add_mset (entry_of (sm_mem s p)) (mset (view s2))"
      using arg_cong [OF m, of "image_mset (\<lambda>p. entry_of (sm_mem s p))"]
      by (simp add: view_def s2_def s1 e)
    have tr: "ts_trace (mem r) = ts_trace (sm_mem s r)" for r
      using e [of r] by (simp add: entry_of_def)
    have pq: "set (sm_pq s) = insert p (set pq)" using m by (metis set_mset_add_mset_insert set_mset_mset)
    have "distinct (sm_pq s)" using q by (simp add: queue_ok_def index_ok_def)
    then have pn: "p \<notin> set pq"
      using mset_eq_imp_distinct_iff [of "sm_pq s" "p # pq"] m by simp
    have other: "ts_trace (sm_mem s r) \<noteq> ts_trace (sm_mem s p)" if "r \<in> set pq" for r
    proof
      assume eq: "ts_trace (sm_mem s r) = ts_trace (sm_mem s p)"
      have "r \<in> set (sm_pq s)" "p \<in> set (sm_pq s)" unfolding pq using that by blast+
      then have "Some r = Some p"
        using names_okD [OF nm, of r] names_okD [OF nm, of p] unfolding eq by (rule_tac trans [OF sym])
      with that pn show False by blast
    qed
    have "names_ok s2"
      unfolding names_ok_def
    proof (intro conjI allI)
      show "set (sm_pq s2) \<subseteq> {..<sm_next s2}"
        using nm by (simp add: names_ok_def s2_def s1 pq)
      fix t r
      have "sm_index s t = Some r \<longleftrightarrow> r \<in> insert p (set pq) \<and> ts_trace (sm_mem s r) = t"
        using nm unfolding names_ok_def pq by blast
      then show "sm_index s2 t = Some r \<longleftrightarrow> r \<in> set (sm_pq s2) \<and> ts_trace (sm_mem s2 r) = t"
        using other [of r] pn by (auto simp: s2_def s1 tr)
    qed
    moreover have "queue_ok s2" using q1 by (simp add: queue_ok_def index_ok_def s2_def view_def)
    ultimately have ok2: "sampler_ok s2" by (simp add: sampler_ok_queue)
    have len: "length (sm_pq s) = Suc (length (sm_pq s2))"
      using arg_cong [OF m, of size] by (simp add: s2_def s1)
    obtain s' E where ih: "evict s2 = Some s'" "sampler_ok s'" "same_settings s2 s'"
        "mset (view s2) = mset (view s') + E" "\<forall>e \<in># E. \<forall>k \<in># mset (view s'). \<not> before k e"
        "length (sm_pq s') = min (length (sm_pq s2)) (nat (sm_max s2))"
      using 1(1) [OF True pop refl] ok2 1(3) by (auto simp: s2_def s1)
    have "\<not> before k (entry_of (sm_mem s p))" if "k \<in># mset (view s')" for k
      using least [of k] that ih(4) arg_cong [OF view, of set_mset] by auto
    moreover have "same_settings s s'" using ih(3) by (simp add: same_settings_def s2_def s1)
    moreover have "length (sm_pq s') = min (length (sm_pq s)) (nat (sm_max s))"
      using ih(6) len True by (simp add: s2_def s1)
    moreover have "evict s = Some s'" using True pop ih(1) by (subst evict.simps) (simp add: s2_def)
    ultimately show ?thesis using ih view
      by (intro exI [of _ s'] exI [of _ "add_mset (entry_of (sm_mem s p)) E"]) auto
  qed
qed

section \<open>Decisions\<close>

lemma sampler_ok_frame [simp]:
  "sampler_ok (s\<lparr>sm_latency := l\<rparr>) = sampler_ok s" "sampler_ok (s\<lparr>sm_seen := m\<rparr>) = sampler_ok s"
  "view (s\<lparr>sm_latency := l\<rparr>) = view s" "view (s\<lparr>sm_seen := m\<rparr>) = view s"
  by (simp_all add: sampler_ok_def index_ok_def names_ok_def view_def)

text \<open>The entry \<open>Decide\<close> puts into the queue.\<close>

definition new_entry :: "sampler \<Rightarrow> int \<Rightarrow> signal \<Rightarrow> queue_entry" where
  "new_entry s now sg = (attr (sig_attrs sg) ''trace_id'', snd (Score (sm_latency s) sg), now)"

lemma Decide_queue:
  assumes ok: "sampler_ok s" "0 \<le> sm_max s" and sg: "sig_type sg = Trace" "attr (sig_attrs sg) ''trace_id'' \<noteq> []"
  shows "\<exists>s' v E. Decide s now now2 sg = Some (s', v) \<and> sampler_ok s' \<and> sm_max s' = sm_max s \<and>
    sm_latency s' = fst (Score (sm_latency s) sg) \<and> sm_store s' = sm_store s \<and> sm_tenant s' = sm_tenant s \<and>
    mset (view s') + E = add_mset (new_entry s now sg)
      {#e \<in># mset (view s). fst e \<noteq> attr (sig_attrs sg) ''trace_id''#} \<and>
    (\<forall>e \<in># E. \<forall>k \<in># mset (view s'). \<not> before k e) \<and>
    (int (length (sm_pq s')) \<le> sm_max s) \<and> (E = {#} \<or> int (length (sm_pq s')) = sm_max s)"
proof -
  obtain lat score where sc: "Score (sm_latency s) sg = (lat, score)" by fastforce
  define tid where "tid = attr (sig_attrs sg) ''trace_id''"
  define s1 where "s1 = s\<lparr>sm_latency := lat\<rparr>"
  define s2 where "s2 = touch s1 tid score now"
  define s3 where "s3 = s2\<lparr>sm_seen := (sm_seen s2)(tid \<mapsto> now)\<rparr>"
  have num: "score \<noteq> NaN" using nonneg_not_NaN [OF nonneg_Score [of "sm_latency s" sg]] by (simp add: sc)
  have t: "sampler_ok s2" "same_settings s1 s2"
      "mset (view s2) = add_mset (tid, score, now) {#e \<in># mset (view s1). fst e \<noteq> tid#}"
    using touch_ok [of s1 score tid now] ok num by (auto simp: s2_def s1_def)
  have "sampler_ok s3" "0 \<le> sm_max s3" using t ok by (simp_all add: s3_def same_settings_def s1_def)
  from evict_ok [OF this] obtain s' E where ev: "evict s3 = Some s'" "sampler_ok s'" "same_settings s3 s'"
      "mset (view s3) = mset (view s') + E" "\<forall>e \<in># E. \<forall>k \<in># mset (view s'). \<not> before k e"
      "length (sm_pq s') = min (length (sm_pq s3)) (nat (sm_max s3))"
    by blast
  have mx: "sm_max s3 = sm_max s" "sm_max s' = sm_max s" "sm_latency s' = lat"
    "sm_store s' = sm_store s" "sm_tenant s' = sm_tenant s"
    using t(2) ev(3) by (simp_all add: s3_def same_settings_def s1_def)
  have "\<exists>v. Decide s now now2 sg = Some (s', v)"
    unfolding Decide_def sc using sg ev(1)
    by (simp add: tid_def [symmetric] s1_def [symmetric] s2_def [symmetric] s3_def [symmetric] Let_def)
  then obtain v where d: "Decide s now now2 sg = Some (s', v)" ..
  have "size E = length (sm_pq s3) - length (sm_pq s')"
    using arg_cong [OF ev(4), of size] by simp
  then have "E = {#} \<or> int (length (sm_pq s')) = sm_max s"
    using ev(6) mx ok(2) by (cases "length (sm_pq s3) \<le> nat (sm_max s)") auto
  moreover have "int (length (sm_pq s')) \<le> sm_max s" using ev(6) mx ok(2) by simp
  moreover have "mset (view s') + E = add_mset (new_entry s now sg) {#e \<in># mset (view s). fst e \<noteq> tid#}"
    using t(3) ev(4) by (simp add: s3_def s1_def new_entry_def sc tid_def)
  ultimately show ?thesis using d ev mx by (auto simp: tid_def sc)
qed

lemma Decide_other:
  assumes "sig_type sg \<noteq> Trace \<or> attr (sig_attrs sg) ''trace_id'' = []"
  shows "Decide s now now2 sg = Some (s\<lparr>sm_latency := fst (Score (sm_latency s) sg)\<rparr>, Keep)"
  using assms by (auto simp: Decide_def Score_def split: prod.split)

fun sampler_run :: "sampler \<Rightarrow> (int \<times> int \<times> signal) list \<Rightarrow> sampler option" where
  "sampler_run s [] = Some s"
| "sampler_run s ((now, now2, sg) # ops) =
     (case Decide s now now2 sg of None \<Rightarrow> None | Some (s', _) \<Rightarrow> sampler_run s' ops)"

lemma sampler_ok_new: "sampler_ok (NewAdaptiveSamplerWithOptions opts loaded)"
  by (auto simp: NewAdaptiveSamplerWithOptions_def sampler_ok_def index_ok_def names_ok_def view_def
      heap_but_def Let_def split: option.split)

lemma sm_max_new [simp]: "sm_max (NewAdaptiveSamplerWithOptions opts loaded) = op_max opts"
  by (auto simp: NewAdaptiveSamplerWithOptions_def Let_def split: option.split)

lemma sampler_run_ok:
  "sampler_ok s \<Longrightarrow> 0 \<le> sm_max s \<Longrightarrow> int (length (sm_pq s)) \<le> sm_max s \<Longrightarrow>
   \<exists>s'. sampler_run s ops = Some s' \<and> sampler_ok s' \<and> sm_max s' = sm_max s \<and>
     int (length (sm_pq s')) \<le> sm_max s"
proof (induction ops arbitrary: s)
  case (Cons op ops)
  obtain now now2 sg where op: "op = (now, now2, sg)" by (cases op)
  show ?case
  proof (cases "sig_type sg = Trace \<and> attr (sig_attrs sg) ''trace_id'' \<noteq> []")
    case True
    then obtain s' v where d: "Decide s now now2 sg = Some (s', v)" "sampler_ok s'" "sm_max s' = sm_max s"
        "int (length (sm_pq s')) \<le> sm_max s"
      using Decide_queue [OF Cons.prems(1,2), of sg now now2] by blast
    then show ?thesis using Cons.IH [of s'] Cons.prems(2) by (simp add: op)
  next
    case False
    then have d: "Decide s now now2 sg = Some (s\<lparr>sm_latency := fst (Score (sm_latency s) sg)\<rparr>, Keep)"
      by (intro Decide_other) blast
    show ?thesis
      using Cons.IH [of "s\<lparr>sm_latency := fst (Score (sm_latency s) sg)\<rparr>"] Cons.prems by (simp add: op d)
  qed
qed simp

text \<open>
  The sampler's queue is sound whatever the traffic: from a new sampler with a size that is not
  negative, no sequence of signals makes \<open>Decide\<close> panic, the queue never exceeds its size, it is a
  heap, the trace index finds exactly the queued traces, and the position stored in each item is
  its position in the queue.
\<close>

theorem sampler_run_bounded:
  assumes "0 \<le> op_max opts"
  shows "\<exists>s. sampler_run (NewAdaptiveSamplerWithOptions opts loaded) ops = Some s \<and>
    int (length (sm_pq s)) \<le> op_max opts \<and> is_heap before (view s) \<and>
    {(t, p). sm_index s t = Some p} = {(ts_trace (sm_mem s p), p) | p. p \<in> set (sm_pq s)} \<and>
    map (\<lambda>p. ts_index (sm_mem s p)) (sm_pq s) = map int [0..<length (sm_pq s)]"
proof -
  let ?s = "NewAdaptiveSamplerWithOptions opts loaded"
  have "length (sm_pq ?s) = 0"
    by (auto simp: NewAdaptiveSamplerWithOptions_def Let_def split: option.split)
  then obtain s where s: "sampler_run ?s ops = Some s" "sampler_ok s" "int (length (sm_pq s)) \<le> op_max opts"
    using sampler_run_ok [OF sampler_ok_new, of opts loaded ops] assms by auto
  have "map (\<lambda>p. ts_index (sm_mem s p)) (sm_pq s) = map int [0..<length (sm_pq s)]"
    using s(2) by (intro nth_equalityI) (auto simp: sampler_ok_def index_ok_def)
  then show ?thesis using s by (auto simp: sampler_ok_def names_ok_def)
qed

text \<open>
  C39. Eviction follows the scores: after any history, deciding on a trace replaces the trace's entry
  by one with the new score and time; entries only leave when the queue is full, and nothing that
  stays is below (in score, then time) anything that leaves.
\<close>

theorem decide_keeps_best:
  assumes "0 \<le> op_max opts" "sampler_run (NewAdaptiveSamplerWithOptions opts loaded) ops = Some s"
    and "sig_type sg = Trace" "attr (sig_attrs sg) ''trace_id'' \<noteq> []"
  shows "\<exists>s' v E. Decide s now now2 sg = Some (s', v) \<and>
    mset (view s') + E = add_mset (new_entry s now sg)
      {#e \<in># mset (view s). fst e \<noteq> attr (sig_attrs sg) ''trace_id''#} \<and>
    (\<forall>e \<in># E. \<forall>k \<in># mset (view s'). \<not> before k e) \<and>
    (E = {#} \<or> int (length (sm_pq s')) = op_max opts)"
proof -
  have "length (sm_pq (NewAdaptiveSamplerWithOptions opts loaded)) = 0"
    by (auto simp: NewAdaptiveSamplerWithOptions_def Let_def split: option.split)
  then have "sampler_ok s" "sm_max s = op_max opts"
    using sampler_run_ok [OF sampler_ok_new, of opts loaded ops] assms(1,2) by auto
  then show ?thesis using Decide_queue [of s sg now now2] assms by auto
qed

section \<open>Verdicts\<close>

lemma fround_numeral: "fround (numeral k) = Fin (numeral k)" if "(numeral k :: int) < 2 ^ 53"
  using fround_of_int [of "numeral k"] that by simp

lemma fadd_ge:
  assumes "fle (fround c) a" "0 < c" "nonneg b" "fround c = Fin c"
  shows "fle (fround c) (fadd a b)"
proof (cases a; cases b)
  fix x y assume a: "a = Fin x" and b: "b = Fin y"
  have "c \<le> x" using assms a by (auto simp: fle_def)
  then have "fle (fround c) (fround (x + y))" using assms b by (intro fround_mono) auto
  then show ?thesis by (simp add: a b)
qed (use assms in \<open>auto simp: nonneg_def fle_def\<close>)

lemma score_rest:
  assumes "fle (Fin 50) x"
  shows "fle (Fin 50) (if p then fadd x (Fin 20) else x)" "fle (Fin 50) (if p then fadd x (Fin 25) else x)"
  using fadd_ge [of 50 x] assms fround_numeral by auto

definition slow :: "signal \<Rightarrow> bool" where
  "slow sg \<longleftrightarrow> (case sig_attrs sg ''duration_ms'' of None \<Rightarrow> False
     | Some str \<Rightarrow> (case parse_float str of None \<Rightarrow> False | Some d \<Rightarrow> flt (Fin 1000) d))"

lemma latency_part_ge:
  assumes "nonneg x" "fle (Fin 50) x \<or> slow sg"
  shows "fle (Fin 50) (snd (latency_part t sg x))"
proof -
  have 50: "fround 50 = Fin 50" by (rule fround_numeral) simp
  have step: "fle (Fin 50) y \<Longrightarrow> nonneg z \<Longrightarrow> fle (Fin 50) (fadd y z)" for y z
    using fadd_ge [of 50 y z] 50 by simp
  have new: "fle (Fin 50) (fadd x (Fin 50))"
  proof (cases x)
    case (Fin q)
    then have "fle (fround 50) (fround (q + 50))"
      using assms(1) by (intro fround_mono) auto
    then show ?thesis by (simp add: Fin 50)
  qed (use assms(1) in \<open>auto simp: nonneg_def fle_def\<close>)
  show ?thesis
  proof (cases "sig_attrs sg ''duration_ms''")
    case None
    then show ?thesis using assms by (simp add: latency_part_def slow_def)
  next
    case (Some str)
    show ?thesis
    proof (cases "parse_float str")
      case None
      then show ?thesis using assms Some by (simp add: latency_part_def slow_def)
    next
      case d: (Some d)
      have "fle (Fin 50) (if flt (Fin 1000) d then fadd x (Fin 50) else x)"
        using new assms(2) Some d by (auto simp: slow_def)
      then show ?thesis using step nonneg_scale by (auto simp: latency_part_def Some d Let_def)
    qed
  qed
qed

lemma Score_ge:
  assumes "sig_type sg = Trace" "attr (sig_attrs sg) ''severity'' = ''ERROR'' \<or> slow sg"
  shows "fle (Fin 50) (snd (Score t sg))"
proof -
  let ?s0 = "if attr (sig_attrs sg) ''severity'' = ''ERROR'' then fadd (Fin 0) (Fin 100) else Fin 0"
  obtain t1 s1 where l: "latency_part t sg ?s0 = (t1, s1)" by fastforce
  have "fround 100 = Fin 100" by (rule fround_numeral) simp
  then have "nonneg ?s0" "fle (Fin 50) ?s0 \<or> slow sg" using assms(2) by (auto simp: fle_def)
  then have "fle (Fin 50) s1" using latency_part_ge [of ?s0 sg t] l by simp
  then show ?thesis using assms(1) unfolding Score_def Let_def l by (simp add: score_rest)
qed

lemma verdict_Drop: "Drop = verdict score recent n t \<Longrightarrow> \<not> fle (Fin 50) score \<and> \<not> recent \<and> max 1 t < n"
  by (auto simp: verdict_def Let_def split: if_splits)

lemma drop_conditions:
  assumes "Decide s now now2 sg = Some (s', Drop)"
  shows "sig_type sg = Trace \<and> attr (sig_attrs sg) ''trace_id'' \<noteq> [] \<and>
    attr (sig_attrs sg) ''severity'' \<noteq> ''ERROR'' \<and> \<not> slow sg \<and>
    (\<forall>t. sm_seen s (attr (sig_attrs sg) ''trace_id'') = Some t \<longrightarrow> 5 * minute \<le> now2 - t) \<and>
    max 1 (to_int64 (fmul (of_int64 (sm_max s')) (sm_rate s'))) < int (length (sm_pq s'))"
proof -
  have tr: "sig_type sg = Trace" "attr (sig_attrs sg) ''trace_id'' \<noteq> []"
    using assms by (auto simp: Decide_def split: if_splits prod.splits)
  obtain lat score where sc: "Score (sm_latency s) sg = (lat, score)" by fastforce
  define tid where "tid = attr (sig_attrs sg) ''trace_id''"
  define s2 where "s2 = touch (s\<lparr>sm_latency := lat\<rparr>) tid score now"
  define s3 where "s3 = s2\<lparr>sm_seen := (sm_seen s2)(tid \<mapsto> now)\<rparr>"
  obtain s4 where ev: "evict s3 = Some s4"
    using assms tr unfolding Decide_def sc
    by (auto simp: tid_def [symmetric] s2_def [symmetric] s3_def [symmetric] Let_def split: option.splits)
  have d: "Some (s', Drop) = Some (s4, verdict score
      (case sm_seen s tid of Some lastSeen \<Rightarrow> now2 - lastSeen < 5 * minute | None \<Rightarrow> False)
      (int (length (sm_pq s4))) (to_int64 (fmul (of_int64 (sm_max s4)) (sm_rate s4))))"
    using assms tr ev unfolding Decide_def sc
    by (auto simp: tid_def [symmetric] s2_def [symmetric] s3_def [symmetric] Let_def)
  then have s4: "s' = s4" and v: "\<not> fle (Fin 50) score"
      "\<not> (case sm_seen s tid of Some lastSeen \<Rightarrow> now2 - lastSeen < 5 * minute | None \<Rightarrow> False)"
      "max 1 (to_int64 (fmul (of_int64 (sm_max s4)) (sm_rate s4))) < int (length (sm_pq s4))"
    using verdict_Drop by (metis Pair_inject option.inject)+
  have "attr (sig_attrs sg) ''severity'' \<noteq> ''ERROR''" "\<not> slow sg"
    using Score_ge [OF tr(1), of "sm_latency s"] sc v(1) by auto
  moreover have "5 * minute \<le> now2 - t" if "sm_seen s tid = Some t" for t
    using v(2) that by simp
  ultimately show ?thesis using tr v(3) by (simp add: tid_def s4)
qed


section \<open>The baseline over restarts and bad numbers\<close>

definition score_all :: "ewmaTracker \<Rightarrow> signal list \<Rightarrow> ewmaTracker" where
  "score_all t sgs = foldl (\<lambda>t sg. fst (Score t sg)) t sgs"

lemma fst_Score: "sig_type sg = Trace \<Longrightarrow>
  fst (Score t sg) = (case sig_attrs sg ''duration_ms'' of None \<Rightarrow> t
    | Some str \<Rightarrow> (case parse_float str of None \<Rightarrow> t
       | Some d \<Rightarrow> if service_of sg = [] then t else ewma_observe t (service_of sg) d))"
  by (auto simp: Score_def latency_part_def Let_def split: option.split prod.split)

lemma fst_Score_cases: "fst (Score t sg) = t \<or> (\<exists>k d. fst (Score t sg) = ewma_observe t k d)"
proof (cases "sig_type sg = Trace")
  case True
  show ?thesis unfolding fst_Score [OF True] by (auto split: option.split)
qed (simp add: Score_def)

lemma observe_NaN: "ew_mean t k = Some NaN \<Longrightarrow> ew_mean (ewma_observe t j d) k = Some NaN"
  by (cases "ew_mean t j") (auto simp: ewma_observe_def Let_def)

lemma score_all_NaN: "ew_mean t k = Some NaN \<Longrightarrow> ew_mean (score_all t sgs) k = Some NaN"
proof (induction sgs arbitrary: t)
  case (Cons sg sgs)
  then have "ew_mean (fst (Score t sg)) k = Some NaN"
    using fst_Score_cases [of t sg] observe_NaN by metis
  then show ?case using Cons.IH by (simp add: score_all_def)
qed (simp add: score_all_def)

lemma zscore_NaN: "ew_mean t k = Some NaN \<Longrightarrow> \<not> flt (Fin 0) (ewma_zscore t k d)"
  by (auto simp: ewma_zscore_def fget_def Let_def)

text \<open>
  One bad number ends anomaly scoring: after a trace of a service with a known baseline reports
  the duration \<open>NaN\<close>, no later trace of that service ever scores above the baseline, whatever is
  observed in between, and the not-a-number is what a snapshot persists.
\<close>

theorem nan_poisons_baseline:
  assumes "sig_type sg = Trace" "sig_attrs sg ''duration_ms'' = Some str" "parse_float str = Some NaN"
    and "service_of sg \<noteq> []" "ew_mean t (service_of sg) \<noteq> None"
  shows "\<not> flt (Fin 0) (ewma_zscore (score_all t (sg # sgs)) (service_of sg) d) \<and>
    map_option sn_mean (ewma_snapshot (score_all t (sg # sgs)) (service_of sg)) = Some NaN"
proof -
  have "ew_mean (fst (Score t sg)) (service_of sg) = Some NaN"
    using assms by (auto simp: fst_Score ewma_observe_def Let_def)
  then have "ew_mean (score_all t (sg # sgs)) (service_of sg) = Some NaN"
    using score_all_NaN by (simp add: score_all_def)
  then show ?thesis using zscore_NaN by (simp add: ewma_snapshot_def)
qed

definition tracker_ok :: "ewmaTracker \<Rightarrow> bool" where
  "tracker_ok t \<longleftrightarrow> dom (ew_vari t) = dom (ew_mean t) \<and> dom (ew_seen t) = dom (ew_mean t)"

lemma tracker_ok_observe: "tracker_ok t \<Longrightarrow> tracker_ok (ewma_observe t k x)"
  by (auto simp: tracker_ok_def ewma_observe_def Let_def split: option.split)

lemma tracker_ok_Score: "tracker_ok t \<Longrightarrow> tracker_ok (fst (Score t sg))"
  using fst_Score_cases [of t sg] tracker_ok_observe by metis

lemma tracker_ok_new: "tracker_ok (newEWMATracker a)"
  by (simp add: tracker_ok_def newEWMATracker_def)

lemma dom_map_option_comp: "dom (map_option f \<circ> m) = dom m"
  by (auto simp: dom_def)

lemma tracker_ok_restore: "tracker_ok t \<Longrightarrow> tracker_ok (ewma_restore t st)"
  by (simp add: tracker_ok_def ewma_restore_def dom_map_option_comp)

lemma restore_snapshot:
  assumes "tracker_ok t"
  shows "ewma_zscore (ewma_restore (newEWMATracker a) (ewma_snapshot t)) k x = ewma_zscore t k x"
proof -
  have d: "ew_seen t k = None \<longleftrightarrow> ew_mean t k = None" "ew_vari t k = None \<longleftrightarrow> ew_mean t k = None"
    using assms by (auto simp: tracker_ok_def simp flip: domIff)
  have "nget (ew_seen (ewma_restore (newEWMATracker a) (ewma_snapshot t))) k = nget (ew_seen t) k"
    "ew_mean (ewma_restore (newEWMATracker a) (ewma_snapshot t)) k = ew_mean t k"
    "fget (ew_vari (ewma_restore (newEWMATracker a) (ewma_snapshot t))) k = fget (ew_vari t) k"
    using d
    by (auto simp: ewma_restore_def newEWMATracker_def ewma_snapshot_def nget_def fget_def
        map_add_def split: option.split)
  then show ?thesis by (simp add: ewma_zscore_def fget_def)
qed

lemma sampler_run_frame:
  "sampler_ok s \<Longrightarrow> 0 \<le> sm_max s \<Longrightarrow> tracker_ok (sm_latency s) \<Longrightarrow> sampler_run s ops = Some s' \<Longrightarrow>
   tracker_ok (sm_latency s') \<and> sm_store s' = sm_store s \<and> sm_tenant s' = sm_tenant s"
proof (induction ops arbitrary: s)
  case (Cons op ops)
  obtain now now2 sg where op: "op = (now, now2, sg)" by (cases op)
  show ?case
  proof (cases "sig_type sg = Trace \<and> attr (sig_attrs sg) ''trace_id'' \<noteq> []")
    case True
    then obtain s1 v where d: "Decide s now now2 sg = Some (s1, v)" "sampler_ok s1" "sm_max s1 = sm_max s"
        "sm_latency s1 = fst (Score (sm_latency s) sg)" "sm_store s1 = sm_store s" "sm_tenant s1 = sm_tenant s"
      using Decide_queue [OF Cons.prems(1,2), of sg now now2] by blast
    then show ?thesis using Cons.IH [of s1] Cons.prems tracker_ok_Score by (simp add: op)
  next
    case False
    then have d: "Decide s now now2 sg = Some (s\<lparr>sm_latency := fst (Score (sm_latency s) sg)\<rparr>, Keep)"
      by (intro Decide_other) blast
    show ?thesis
      using Cons.IH [of "s\<lparr>sm_latency := fst (Score (sm_latency s) sg)\<rparr>"] Cons.prems tracker_ok_Score
      by (simp add: op d)
  qed
qed simp

lemma new_sampler_latency:
  "tracker_ok (sm_latency (NewAdaptiveSamplerWithOptions opts loaded))"
  "sm_store (NewAdaptiveSamplerWithOptions opts loaded) = op_state opts"
  "sm_tenant (NewAdaptiveSamplerWithOptions opts loaded) = op_tenant opts"
  by (auto simp: NewAdaptiveSamplerWithOptions_def Let_def tracker_ok_new tracker_ok_restore split: option.split)

text \<open>
  Learned baselines survive a restart: when a sampler of a tenant has flushed to the store, a new
  sampler of that tenant over the same store judges every latency of every service as the old one
  did, whatever another tenant has stored in between.
\<close>

theorem baseline_survives_restart:
  assumes "op_state opts" "op_state opts'" "op_tenant opts' = op_tenant opts" "0 \<le> op_max opts"
    and "sampler_run (NewAdaptiveSamplerWithOptions opts loaded) ops = Some s"
    and "tid \<noteq> op_tenant opts"
  shows "ewma_zscore (sm_latency (NewAdaptiveSamplerWithOptions opts'
      (Some (store_Load (store_Save (sampler_flush s d) tid st) (op_tenant opts'))))) service x
    = ewma_zscore (sm_latency s) service x"
proof -
  have s: "tracker_ok (sm_latency s)" "sm_store s" "sm_tenant s = op_tenant opts"
    using sampler_run_frame [OF sampler_ok_new _ new_sampler_latency(1) assms(5)] assms(1,4)
    by (simp_all add: new_sampler_latency)
  have "store_Load (store_Save (sampler_flush s d) tid st) (op_tenant opts') = ewma_snapshot (sm_latency s)"
    using assms(3,6) s by (simp add: store_Load_def store_Save_def sampler_flush_def)
  then show ?thesis
    using assms(2) restore_snapshot [OF s(1)] by (simp add: NewAdaptiveSamplerWithOptions_def Let_def)
qed

section \<open>Examples\<close>

definition demo_options :: SamplerOptions where
  "demo_options = \<lparr>op_rate = Fin 0, op_max = 2, op_alpha = Fin 0, op_tenant = ''acme'', op_state = True, op_flush = 0\<rparr>"

definition demo_trace :: "string \<Rightarrow> string \<Rightarrow> signal" where
  "demo_trace tid dur = \<lparr>sig_tenant = ''acme'', sig_type = Trace, sig_payload = [],
     sig_attrs = [''trace_id'' \<mapsto> tid, ''service.name'' \<mapsto> ''api'', ''duration_ms'' \<mapsto> dur], sig_received = 0\<rparr>"

definition demo_ops :: "(int \<times> int \<times> signal) list" where
  "demo_ops = [(1, 1, demo_trace ''a'' ''20''), (2, 2, demo_trace ''b'' ''5000'')]"

theorem sampler_run_bounded_witness:
  "\<exists>s. sampler_run (NewAdaptiveSamplerWithOptions demo_options None) demo_ops = Some s \<and>
     int (length (sm_pq s)) \<le> 2 \<and> is_heap before (view s)"
  using sampler_run_bounded [of demo_options None demo_ops] by (auto simp: demo_options_def)

lemma demo_sampler: "\<exists>s. sampler_run (NewAdaptiveSamplerWithOptions demo_options None) demo_ops = Some s"
  using sampler_run_ok [OF sampler_ok_new, of demo_options None demo_ops]
  by (auto simp: demo_options_def NewAdaptiveSamplerWithOptions_def Let_def)

theorem decide_keeps_best_witness:
  "\<exists>s s' v E. sampler_run (NewAdaptiveSamplerWithOptions demo_options None) demo_ops = Some s \<and>
     Decide s 3 3 (demo_trace ''c'' ''30'') = Some (s', v) \<and>
     mset (view s') + E = add_mset (new_entry s 3 (demo_trace ''c'' ''30'')) {#e \<in># mset (view s). fst e \<noteq> ''c''#}"
proof -
  obtain s where s: "sampler_run (NewAdaptiveSamplerWithOptions demo_options None) demo_ops = Some s"
    using demo_sampler by blast
  have "0 \<le> op_max demo_options" "sig_type (demo_trace ''c'' ''30'') = Trace"
    "attr (sig_attrs (demo_trace ''c'' ''30'')) ''trace_id'' = ''c''"
    by (simp_all add: demo_options_def demo_trace_def attr_def)
  then show ?thesis using decide_keeps_best [OF _ s, of "demo_trace ''c'' ''30''" 3 3] s by auto
qed

definition plain_trace :: "string \<Rightarrow> signal" where
  "plain_trace tid = \<lparr>sig_tenant = ''acme'', sig_type = Trace, sig_payload = [],
     sig_attrs = [''trace_id'' \<mapsto> tid], sig_received = 0\<rparr>"

lemma demo_drop: "case sampler_run (NewAdaptiveSamplerWithOptions demo_options None) [(1, 1, plain_trace ''a'')] of
    Some s \<Rightarrow> (case Decide s 2 2 (plain_trace ''c'') of Some (_, v) \<Rightarrow> v = Drop | _ \<Rightarrow> False)
  | None \<Rightarrow> False"
  by (simp add: touch_def NewAdaptiveSamplerWithOptions_def demo_options_def heap_Push_def hup.simps
      Let_def Less_def set_index_def Swap_def Decide_def Score_def latency_part_def plain_trace_def
      attr_def evict.simps verdict_def fle_def newEWMATracker_def of_int64_exact to_int64_def)


theorem nan_poisons_baseline_witness:
  "\<not> flt (Fin 0) (ewma_zscore (score_all (ewma_observe (newEWMATracker (Fin 0)) ''api'' (Fin 20))
      [demo_trace ''a'' ''NaN'', demo_trace ''b'' ''9000'']) ''api'' (Fin 9000))"
proof -
  have "parse_float ''NaN'' = Some NaN" by code_simp
  then show ?thesis
    using nan_poisons_baseline [of "demo_trace ''a'' ''NaN''" "''NaN''"
        "ewma_observe (newEWMATracker (Fin 0)) ''api'' (Fin 20)" "[demo_trace ''b'' ''9000'']" "Fin 9000"]
    by (simp add: demo_trace_def service_of_def attr_def ewma_observe_def newEWMATracker_def)
qed

theorem baseline_survives_restart_witness:
  "\<exists>s. sampler_run (NewAdaptiveSamplerWithOptions demo_options None) demo_ops = Some s \<and>
     ewma_zscore (sm_latency (NewAdaptiveSamplerWithOptions demo_options
       (Some (store_Load (store_Save (sampler_flush s NewInMemoryStore) ''other'' Map.empty) ''acme'')))) ''api'' (Fin 7)
     = ewma_zscore (sm_latency s) ''api'' (Fin 7)"
proof -
  obtain s where s: "sampler_run (NewAdaptiveSamplerWithOptions demo_options None) demo_ops = Some s"
    using demo_sampler by blast
  show ?thesis
    using baseline_survives_restart [OF _ _ _ _ s, of demo_options "''other''" NewInMemoryStore Map.empty "''api''" "Fin 7"] s
    by (auto simp: demo_options_def)
qed

end
