(* ===== verification/Backend.thy ===== *)
theory Backend
  imports GoFmt Signals SqlText
begin

text \<open>
  The ClickHouse storage (\<open>pkg/storage/clickhouse\<close>): the buffered backend (\<open>backend.go\<close>) and the
  client that sorts a batch into tables (\<open>client.go\<close>). The driver and the circuit breaker are
  third-party: whether the breaker lets a call through, and how each table's insert ends, are
  inputs; the tables hold the rows of the inserts that were sent. Decoding a metric payload into its
  name and value is the parameter \<open>doc\<close>. \<open>ch_batches\<close> records the batches handed to the client.
\<close>

section \<open>The client\<close>

text \<open>Go's zero time, the start of the year 1, in nanoseconds.\<close>

definition zero_time :: int where "zero_time = - 62135596800 * second"

record metric_row =
  mr_tenant :: string
  mr_name :: string
  mr_time :: int
  mr_value :: f64
  mr_labels :: "string \<rightharpoonup> string"

record log_row =
  lw_tenant :: string
  lw_service :: string
  lw_severity :: string
  lw_body :: "byte list"
  lw_attributes :: "string \<rightharpoonup> string"
  lw_time :: int
  lw_trace :: string
  lw_span :: string

record trace_row =
  tr_tenant :: string
  tr_trace :: string
  tr_span :: string
  tr_parent :: string
  tr_operation :: string
  tr_service :: string
  tr_start :: int
  tr_end :: int
  tr_duration :: int
  tr_attributes :: "string \<rightharpoonup> string"
  tr_status :: string

record clickhouse =
  ch_metrics :: "metric_row list"
  ch_logs :: "log_row list"
  ch_traces :: "trace_row list"
  ch_batches :: "signal list list"

definition is_type :: "signal_type \<Rightarrow> signal \<Rightarrow> bool" where
  "is_type t s \<longleftrightarrow> sig_type s = t"

text \<open>Signals of other types are in none of the three lists.\<close>

definition splitByType :: "signal list \<Rightarrow> signal list \<times> signal list \<times> signal list" where
  "splitByType sigs = (filter (is_type Metric) sigs, filter (is_type Log) sigs, filter (is_type Trace) sigs)"

definition row_time :: "int \<Rightarrow> signal \<Rightarrow> int" where
  "row_time now s = (if sig_received s = zero_time then now else sig_received s)"

definition parseMetricPayload :: "(byte list \<Rightarrow> (string \<times> f64) option) \<Rightarrow> signal \<Rightarrow> string \<times> f64" where
  "parseMetricPayload doc s =
     (let a = attr (sig_attrs s) ''metric_name''; name = (if a = [] then ''unknown'' else a)
      in if sig_payload s = [] then (name, Fin 0)
         else case doc (sig_payload s) of
           None \<Rightarrow> (name, Fin 0)
         | Some (n, v) \<Rightarrow> (if n \<noteq> [] then n else name, v))"

definition metric_row :: "(byte list \<Rightarrow> (string \<times> f64) option) \<Rightarrow> int \<Rightarrow> signal \<Rightarrow> metric_row" where
  "metric_row doc now s =
     \<lparr>mr_tenant = sig_tenant s, mr_name = fst (parseMetricPayload doc s), mr_time = row_time now s,
      mr_value = snd (parseMetricPayload doc s), mr_labels = sig_attrs s\<rparr>"

definition log_row :: "int \<Rightarrow> signal \<Rightarrow> log_row" where
  "log_row now s =
     \<lparr>lw_tenant = sig_tenant s, lw_service = attr (sig_attrs s) ''service_name'',
      lw_severity = attr (sig_attrs s) ''severity'', lw_body = sig_payload s,
      lw_attributes = sig_attrs s, lw_time = row_time now s, lw_trace = attr (sig_attrs s) ''trace_id'',
      lw_span = attr (sig_attrs s) ''span_id''\<rparr>"

text \<open>\<open>strconv.ParseInt(s, 10, 64)\<close> with its error ignored: an unreadable text is 0, one out of range
  the nearest bound.\<close>

definition parse_int_or_zero :: "string \<Rightarrow> int" where
  "parse_int_or_zero s =
     (let neg = has_prefix s ''-''; ds = (if neg \<or> has_prefix s ''+'' then drop 1 s else s)
      in if ds = [] \<or> \<not> list_all is_digit ds then 0
         else
           let v = int (foldl (\<lambda>n c. 10 * n + digit_value c) 0 ds); w = (if neg then - v else v)
           in if w > 2 ^ 63 - 1 then 2 ^ 63 - 1 else if w < - (2 ^ 63) then - (2 ^ 63) else w)"

definition trace_row :: "int \<Rightarrow> signal \<Rightarrow> trace_row" where
  "trace_row now s =
     (let duration = parse_int_or_zero (attr (sig_attrs s) ''duration_ns''); start = row_time now s
      in \<lparr>tr_tenant = sig_tenant s, tr_trace = attr (sig_attrs s) ''trace_id'',
          tr_span = attr (sig_attrs s) ''span_id'', tr_parent = attr (sig_attrs s) ''parent_span_id'',
          tr_operation = attr (sig_attrs s) ''operation_name'',
          tr_service = attr (sig_attrs s) ''service_name'', tr_start = start, tr_end = start + duration,
          tr_duration = duration, tr_attributes = sig_attrs s,
          tr_status = attr (sig_attrs s) ''status_code''\<rparr>)"

text \<open>How the breaker and the three inserts end; an insert that fails anywhere leaves its table alone.\<close>

record outcome =
  oc_admitted :: bool
  oc_metrics :: bool
  oc_logs :: bool
  oc_traces :: bool

definition writeMetrics ::
  "(byte list \<Rightarrow> (string \<times> f64) option) \<Rightarrow> int \<Rightarrow> bool \<Rightarrow> signal list \<Rightarrow> clickhouse \<Rightarrow> clickhouse \<times> bool" where
  "writeMetrics doc now ok sigs c =
     (if sigs = [] then (c, True)
      else if ok then (c\<lparr>ch_metrics := ch_metrics c @ map (metric_row doc now) sigs\<rparr>, True) else (c, False))"

definition writeLogs :: "int \<Rightarrow> bool \<Rightarrow> signal list \<Rightarrow> clickhouse \<Rightarrow> clickhouse \<times> bool" where
  "writeLogs now ok sigs c =
     (if sigs = [] then (c, True)
      else if ok then (c\<lparr>ch_logs := ch_logs c @ map (log_row now) sigs\<rparr>, True) else (c, False))"

definition writeTraces :: "int \<Rightarrow> bool \<Rightarrow> signal list \<Rightarrow> clickhouse \<Rightarrow> clickhouse \<times> bool" where
  "writeTraces now ok sigs c =
     (if sigs = [] then (c, True)
      else if ok then (c\<lparr>ch_traces := ch_traces c @ map (trace_row now) sigs\<rparr>, True) else (c, False))"

definition WriteBatch ::
  "(byte list \<Rightarrow> (string \<times> f64) option) \<Rightarrow> int \<Rightarrow> outcome \<Rightarrow> signal list \<Rightarrow> clickhouse \<Rightarrow> clickhouse \<times> bool" where
  "WriteBatch doc now oc sigs c0 =
     (let c = c0\<lparr>ch_batches := ch_batches c0 @ [sigs]\<rparr>
      in if sigs = [] then (c, True)
         else
           let (metrics, logs, traces) = splitByType sigs
           in if \<not> oc_admitted oc then (c, False)
              else case writeMetrics doc now (oc_metrics oc) metrics c of
                (c1, False) \<Rightarrow> (c1, False)
              | (c1, True) \<Rightarrow>
                  (case writeLogs now (oc_logs oc) logs c1 of
                     (c2, False) \<Rightarrow> (c2, False)
                   | (c2, True) \<Rightarrow> writeTraces now (oc_traces oc) traces c2))"

section \<open>Migrations\<close>

fun split_lines :: "string list \<Rightarrow> string \<Rightarrow> string list" where
  "split_lines [] builder = (if trim_space builder = [] then [] else [trim_space builder])"
| "split_lines (line # ls) builder =
     (let t = trim_space line
      in if t = [] \<or> has_prefix t ''--'' then split_lines ls builder
         else
           let b = (if builder = [] then [] else builder @ '' '') @ t
           in if has_suffix t '';''
              then
                let stmt = (let u = trim_space b in if has_suffix u '';'' then butlast u else u)
                in (if stmt = [] then [] else [stmt]) @ split_lines ls []
              else split_lines ls b)"

definition splitSQLStatements :: "string \<Rightarrow> string list" where
  "splitSQLStatements sql = split_lines (split_byte (char_of (10 :: nat)) sql) []"

definition contains :: "string \<Rightarrow> string \<Rightarrow> bool" where
  "contains s p \<longleftrightarrow> list_ex (\<lambda>i. has_prefix (drop i s) p) [0..<Suc (length s)]"

definition isMissingDiskErr :: "string option \<Rightarrow> bool" where
  "isMissingDiskErr e =
     (case e of None \<Rightarrow> False
      | Some msg \<Rightarrow> contains msg ''NO_AVAILABLE_DISK'' \<or> contains msg ''Code: 243'' \<or>
          contains msg ''is not in the list of disks'' \<or> contains msg ''Cannot find storage policy'')"

text \<open>\<open>exec\<close> is the answer of the database to a statement. The result lists the statements that were
  executed, and the error that stopped the run.\<close>

fun run_statements :: "(string \<Rightarrow> string option) \<Rightarrow> string list \<Rightarrow> string list \<times> string option" where
  "run_statements exec [] = ([], None)"
| "run_statements exec (stmt # rest) =
     (if stmt = [] then run_statements exec rest
      else case exec stmt of
        None \<Rightarrow> (let (done, e) = run_statements exec rest in (stmt # done, e))
      | Some msg \<Rightarrow>
          if isMissingDiskErr (Some msg)
          then (let (done, e) = run_statements exec rest in (stmt # done, e))
          else ([stmt], Some msg))"

definition RunMigrations :: "(string \<Rightarrow> string option) \<Rightarrow> string \<Rightarrow> string list \<times> string option" where
  "RunMigrations exec sql = run_statements exec (splitSQLStatements sql)"

section \<open>The backend\<close>

record backend_options =
  bo_addr :: string
  bo_database :: string
  bo_batch :: int
  bo_flush :: int
  bo_dial :: int
  bo_conns :: int
  bo_migrate :: bool

definition backend_defaults :: "backend_options \<Rightarrow> backend_options" where
  "backend_defaults p =
     p\<lparr>bo_addr := (if bo_addr p = [] then ''localhost:9000'' else bo_addr p),
       bo_database := (if bo_database p = [] then ''observex'' else bo_database p),
       bo_batch := (if bo_batch p \<le> 0 then 5000 else bo_batch p),
       bo_flush := (if bo_flush p \<le> 0 then 100 * millisecond else bo_flush p),
       bo_dial := (if bo_dial p \<le> 0 then 5 * second else bo_dial p),
       bo_conns := (if bo_conns p \<le> 0 then 16 else bo_conns p)\<rparr>"

text \<open>\<open>bk_client\<close> tells whether there is a client: without one the backend is degraded.\<close>

record backend =
  bk_opts :: backend_options
  bk_client :: bool
  bk_buffer :: "signal list"
  bk_closed :: bool
  bk_loop :: bool

text \<open>\<open>reachable\<close>: the connection can be opened; \<open>migrations\<close>: both migration runs succeed.\<close>

definition NewBackend :: "backend_options \<Rightarrow> bool \<Rightarrow> bool \<Rightarrow> backend option" where
  "NewBackend p reachable migrations =
     (let b = \<lparr>bk_opts = backend_defaults p, bk_client = False, bk_buffer = [], bk_closed = False, bk_loop = False\<rparr>
      in if \<not> reachable then Some b
         else if bo_migrate p \<and> \<not> migrations then None
         else Some (b\<lparr>bk_client := True, bk_loop := True\<rparr>))"

type_synonym flush_env = "(byte list \<Rightarrow> (string \<times> f64) option) \<times> int \<times> outcome"

definition flushLocked :: "flush_env \<Rightarrow> backend \<Rightarrow> clickhouse \<Rightarrow> backend \<times> clickhouse \<times> bool" where
  "flushLocked env b c =
     (if bk_buffer b = [] then (b, c, True)
      else case env of (doc, now, oc) \<Rightarrow>
        (case WriteBatch doc now oc (bk_buffer b) c of (c', ok) \<Rightarrow> (b\<lparr>bk_buffer := []\<rparr>, c', ok)))"

definition backend_Write :: "flush_env \<Rightarrow> backend \<Rightarrow> clickhouse \<Rightarrow> signal list \<Rightarrow> backend \<times> clickhouse \<times> bool" where
  "backend_Write env b c sigs =
     (if \<not> bk_client b then (b, c, True)
      else if bk_closed b then (b, c, False)
      else
        let b1 = b\<lparr>bk_buffer := bk_buffer b @ sigs\<rparr>
        in if int (length (bk_buffer b1)) < bo_batch (bk_opts b1) then (b1, c, True)
           else flushLocked env b1 c)"

definition backend_Flush :: "flush_env \<Rightarrow> backend \<Rightarrow> clickhouse \<Rightarrow> backend \<times> clickhouse \<times> bool" where
  "backend_Flush env b c =
     (if \<not> bk_client b then (b, c, True)
      else if bk_closed b then (b, c, True)
      else flushLocked env b c)"

definition flush_tick :: "flush_env \<Rightarrow> backend \<Rightarrow> clickhouse \<Rightarrow> backend \<times> clickhouse" where
  "flush_tick env b c =
     (if bk_loop b then (case backend_Flush env b c of (b', c', _) \<Rightarrow> (b', c')) else (b, c))"

text \<open>\<open>Close\<close> marks the backend closed before it flushes.\<close>

definition backend_Close :: "flush_env \<Rightarrow> backend \<Rightarrow> clickhouse \<Rightarrow> backend \<times> clickhouse" where
  "backend_Close env b c =
     (if bk_closed b then (b, c)
      else
        let b1 = b\<lparr>bk_closed := True\<rparr>
        in if \<not> bk_client b1 then (b1, c)
           else case backend_Flush env (b1\<lparr>bk_loop := False\<rparr>) c of (b2, c2, _) \<Rightarrow> (b2, c2))"

end
