(* ===== verification/BackendProps.thy ===== *)
theory BackendProps
  imports Backend
begin

text \<open>
  The storage backend over sequences of calls: every accepted signal is handed to the client exactly
  once and in order, or still buffered; and a close without a flush discards the buffer.
\<close>

datatype bk_op =
    BWrite flush_env "signal list"
  | BFlush flush_env
  | BTick flush_env
  | BClose flush_env

fun bk_step :: "backend \<times> clickhouse \<Rightarrow> bk_op \<Rightarrow> backend \<times> clickhouse" where
  "bk_step (b, c) (BWrite env sigs) = (case backend_Write env b c sigs of (b', c', _) \<Rightarrow> (b', c'))"
| "bk_step (b, c) (BFlush env) = (case backend_Flush env b c of (b', c', _) \<Rightarrow> (b', c'))"
| "bk_step (b, c) (BTick env) = flush_tick env b c"
| "bk_step (b, c) (BClose env) = backend_Close env b c"

fun bk_accepted :: "backend \<Rightarrow> bk_op \<Rightarrow> signal list" where
  "bk_accepted b (BWrite env sigs) = (if bk_client b \<and> \<not> bk_closed b then sigs else [])"
| "bk_accepted b _ = []"

fun bk_run :: "backend \<times> clickhouse \<Rightarrow> bk_op list \<Rightarrow> (backend \<times> clickhouse) \<times> signal list" where
  "bk_run s [] = (s, [])"
| "bk_run s (x # xs) = (case bk_run (bk_step s x) xs of (s', l) \<Rightarrow> (s', bk_accepted (fst s) x @ l))"

lemma WriteBatch_batches: "ch_batches (fst (WriteBatch doc now oc sigs c)) = ch_batches c @ [sigs]"
  by (auto simp: WriteBatch_def splitByType_def writeMetrics_def writeLogs_def writeTraces_def Let_def)

lemma flushLocked_batches:
  "flushLocked env b c = (b', c', ok) \<Longrightarrow>
   concat (ch_batches c') @ bk_buffer b' = concat (ch_batches c) @ bk_buffer b \<and>
   bk_buffer b' = [] \<and> bk_opts b' = bk_opts b \<and> bk_client b' = bk_client b \<and> bk_closed b' = bk_closed b"
proof (cases "bk_buffer b = []")
  case False
  assume f: "flushLocked env b c = (b', c', ok)"
  obtain doc now oc where env: "env = (doc, now, oc)" by (cases env)
  have "c' = fst (WriteBatch doc now oc (bk_buffer b) c)" "b' = b\<lparr>bk_buffer := []\<rparr>"
    using f False by (auto simp: flushLocked_def env split: prod.splits)
  then show ?thesis by (simp add: WriteBatch_batches)
qed (simp add: flushLocked_def)

definition bk_ok :: "backend \<Rightarrow> bool" where
  "bk_ok b \<longleftrightarrow> int (length (bk_buffer b)) < bo_batch (bk_opts b) \<and> 0 < bo_batch (bk_opts b)"

lemma bk_step_ok:
  assumes "bk_ok b" "bk_step (b, c) x = (b', c')"
  shows "bk_ok b' \<and> concat (ch_batches c') @ bk_buffer b' = concat (ch_batches c) @ bk_buffer b @ bk_accepted b x"
proof -
  have flush: "bk_ok d' \<and> concat (ch_batches e') @ bk_buffer d' = concat (ch_batches e) @ bk_buffer d"
    if "flushLocked env d e = (d', e', ok)" "0 < bo_batch (bk_opts d)" for env d e d' e' ok
    using flushLocked_batches [OF that(1)] that(2) by (auto simp: bk_ok_def)
  have bFlush: "bk_ok d' \<and> concat (ch_batches e') @ bk_buffer d' = concat (ch_batches e) @ bk_buffer d"
    if "backend_Flush env d e = (d', e', ok)" "bk_ok d" for env d e d' e' ok
    using that flush [of env d e d' e' ok] by (auto simp: backend_Flush_def bk_ok_def split: if_splits)
  show ?thesis
  proof (cases x)
    case (BWrite env sigs)
    obtain ok where w: "backend_Write env b c sigs = (b', c', ok)"
      using assms(2) by (auto simp: BWrite split: prod.splits)
    show ?thesis
    proof (cases "bk_client b \<and> \<not> bk_closed b \<and>
        \<not> int (length (bk_buffer b @ sigs)) < bo_batch (bk_opts b)")
      case True
      then have "flushLocked env (b\<lparr>bk_buffer := bk_buffer b @ sigs\<rparr>) c = (b', c', ok)"
        using w by (simp add: backend_Write_def Let_def)
      from flush [OF this] assms(1) True show ?thesis by (simp add: BWrite bk_ok_def)
    next
      case False
      then show ?thesis using w assms(1)
        by (auto simp: BWrite backend_Write_def Let_def bk_ok_def split: if_splits)
    qed
  next
    case (BFlush env)
    then show ?thesis using assms bFlush [of env b c] by (auto split: prod.splits)
  next
    case (BTick env)
    then show ?thesis using assms bFlush [of env b c]
      by (auto simp: flush_tick_def split: prod.splits if_splits)
  next
    case (BClose env)
    then show ?thesis using assms
      by (auto simp: backend_Close_def backend_Flush_def Let_def bk_ok_def split: prod.splits if_splits)
  qed
qed

lemma bk_run_ok:
  "bk_ok b \<Longrightarrow> bk_run (b, c) xs = ((b', c'), l) \<Longrightarrow>
   bk_ok b' \<and> concat (ch_batches c') @ bk_buffer b' = concat (ch_batches c) @ bk_buffer b @ l"
proof (induction xs arbitrary: b c l)
  case (Cons x xs)
  obtain b1 c1 where s: "bk_step (b, c) x = (b1, c1)" by fastforce
  obtain l1 where r: "bk_run (b1, c1) xs = ((b', c'), l1)" "l = bk_accepted b x @ l1"
    using Cons.prems(2) s by (auto split: prod.splits)
  show ?case using Cons.IH [OF _ r(1)] bk_step_ok [OF Cons.prems(1) s] r(2) by simp
qed simp


lemma closed_stays:
  "bk_closed b \<Longrightarrow> bk_client b \<Longrightarrow> bk_run (b, c) xs = ((b', c'), l) \<Longrightarrow>
   c' = c \<and> bk_buffer b' = bk_buffer b \<and> l = []"
proof (induction xs arbitrary: b c l)
  case (Cons x xs)
  obtain b1 c1 where s: "bk_step (b, c) x = (b1, c1)" by fastforce
  have "bk_closed b1 \<and> bk_client b1 \<and> c1 = c \<and> bk_buffer b1 = bk_buffer b \<and> bk_accepted b x = []"
    using s Cons.prems(1,2)
    by (cases x) (auto simp: backend_Write_def backend_Flush_def flush_tick_def backend_Close_def split: if_splits)
  then show ?case using Cons s by (auto split: prod.splits)
qed simp

text \<open>
  Closing does not flush: \<open>Close\<close> on a connected backend hands nothing to the client, and whatever
  was buffered stays in the buffer for ever, although the comment on \<open>Close\<close> says it flushes.
\<close>

theorem close_discards_buffer:
  assumes "bk_client b" "\<not> bk_closed b" "bk_run (backend_Close env b c) xs = ((b', c'), l)"
  shows "c' = c \<and> bk_buffer b' = bk_buffer b"
proof -
  have "backend_Close env b c = (b\<lparr>bk_closed := True, bk_loop := False\<rparr>, c)"
    using assms(1,2) by (simp add: backend_Close_def backend_Flush_def Let_def)
  then show ?thesis using closed_stays [of "b\<lparr>bk_closed := True, bk_loop := False\<rparr>" c xs] assms by auto
qed

definition demo_env :: flush_env where
  "demo_env = (\<lambda>_. None, 0, \<lparr>oc_admitted = True, oc_metrics = True, oc_logs = True, oc_traces = True\<rparr>)"

definition demo_log :: signal where
  "demo_log = \<lparr>sig_tenant = ''acme'', sig_type = Log, sig_payload = [], sig_attrs = Map.empty, sig_received = 0\<rparr>"

definition demo_backend :: backend_options where
  "demo_backend = \<lparr>bo_addr = [], bo_database = [], bo_batch = 2, bo_flush = 0, bo_dial = 0, bo_conns = 0, bo_migrate = True\<rparr>"

definition empty_clickhouse :: clickhouse where
  "empty_clickhouse = \<lparr>ch_metrics = [], ch_logs = [], ch_traces = [], ch_batches = []\<rparr>"


theorem close_discards_buffer_witness:
  "\<exists>b' c' l. bk_run (backend_Close demo_env
        \<lparr>bk_opts = demo_backend, bk_client = True, bk_buffer = [demo_log], bk_closed = False, bk_loop = True\<rparr>
        empty_clickhouse) [BFlush demo_env] = ((b', c'), l) \<and>
     ch_logs c' = [] \<and> bk_buffer b' = [demo_log]"
proof -
  let ?b = "\<lparr>bk_opts = demo_backend, bk_client = True, bk_buffer = [demo_log], bk_closed = False, bk_loop = True\<rparr>"
  obtain b' c' l where r: "bk_run (backend_Close demo_env ?b empty_clickhouse) [BFlush demo_env] = ((b', c'), l)"
    by (metis prod.exhaust)
  then show ?thesis using close_discards_buffer [OF _ _ r] by (simp add: empty_clickhouse_def)
qed

end
