(* ===== verification/Json.thy ===== *)
theory Json
  imports Prelude
begin

text \<open>
  The syntax check of Go's \<open>encoding/json\<close> (\<open>checkValid\<close>), which \<open>json.Unmarshal\<close> runs before
  anything else: the scanner's states and its stack of open arrays and objects, one step per byte.
  Bytes above 127 are only allowed inside strings; nesting is limited to 10000.
\<close>

datatype jstate =
    BeginValue | BeginValueOrEmpty | BeginString | BeginStringOrEmpty | EndValue | EndTop
  | InString | InEsc | InEscU nat
  | Neg | Num0 | Num1 | Dot | Dot0 | ExpE | ExpSign | Exp0
  | Lit string

datatype jctx = ObjKey | ObjVal | Arr

definition jspace :: "char \<Rightarrow> bool" where
  "jspace c \<longleftrightarrow> c = CHR '' '' \<or> of_char c = (9 :: nat) \<or> of_char c = (10 :: nat) \<or> of_char c = (13 :: nat)"

definition jhex :: "char \<Rightarrow> bool" where
  "jhex c \<longleftrightarrow> is_digit c \<or> lower_char c \<in> set ''abcdef''"

definition jpush :: "jctx \<Rightarrow> jstate \<Rightarrow> jctx list \<Rightarrow> (jstate \<times> jctx list) option" where
  "jpush x st stk = (if length stk < 10000 then Some (st, x # stk) else None)"

definition jpop :: "jctx list \<Rightarrow> (jstate \<times> jctx list) option" where
  "jpop stk = Some (if tl stk = [] then EndTop else EndValue, tl stk)"

text \<open>After a value: what may follow depends on the innermost open bracket.\<close>

definition jend_value :: "jctx list \<Rightarrow> char \<Rightarrow> (jstate \<times> jctx list) option" where
  "jend_value stk c =
     (case stk of
        [] \<Rightarrow> if jspace c then Some (EndTop, []) else None
      | x # rest \<Rightarrow>
          if jspace c then Some (EndValue, stk)
          else case x of
            ObjKey \<Rightarrow> if c = CHR '':'' then Some (BeginValue, ObjVal # rest) else None
          | ObjVal \<Rightarrow> if c = CHR '','' then Some (BeginString, ObjKey # rest)
                      else if c = CHR ''}'' then jpop stk else None
          | Arr \<Rightarrow> if c = CHR '','' then Some (BeginValue, stk)
                   else if c = CHR '']'' then jpop stk else None)"

definition jbegin_value :: "jctx list \<Rightarrow> char \<Rightarrow> (jstate \<times> jctx list) option" where
  "jbegin_value stk c =
     (if jspace c then Some (BeginValue, stk)
      else if c = CHR ''{'' then jpush ObjKey BeginStringOrEmpty stk
      else if c = CHR ''['' then jpush Arr BeginValueOrEmpty stk
      else if c = quote_char then Some (InString, stk)
      else if c = CHR ''-'' then Some (Neg, stk)
      else if c = CHR ''0'' then Some (Num0, stk)
      else if c = CHR ''t'' then Some (Lit ''rue'', stk)
      else if c = CHR ''f'' then Some (Lit ''alse'', stk)
      else if c = CHR ''n'' then Some (Lit ''ull'', stk)
      else if is_digit c then Some (Num1, stk)
      else None)"

definition jexp :: "char \<Rightarrow> bool" where
  "jexp c \<longleftrightarrow> c = CHR ''e'' \<or> c = CHR ''E''"

fun jstep :: "jstate \<Rightarrow> jctx list \<Rightarrow> char \<Rightarrow> (jstate \<times> jctx list) option" where
  "jstep BeginValue stk c = jbegin_value stk c"
| "jstep BeginValueOrEmpty stk c =
     (if jspace c then Some (BeginValueOrEmpty, stk)
      else if c = CHR '']'' then jend_value stk c else jbegin_value stk c)"
| "jstep BeginStringOrEmpty stk c =
     (if jspace c then Some (BeginStringOrEmpty, stk)
      else if c = CHR ''}'' then jpop stk
      else if c = quote_char then Some (InString, stk) else None)"
| "jstep BeginString stk c =
     (if jspace c then Some (BeginString, stk)
      else if c = quote_char then Some (InString, stk) else None)"
| "jstep EndValue stk c = jend_value stk c"
| "jstep EndTop stk c = (if jspace c then Some (EndTop, stk) else None)"
| "jstep InString stk c =
     (if c = quote_char then Some (EndValue, stk)
      else if c = backslash then Some (InEsc, stk)
      else if of_char c < (32 :: nat) then None else Some (InString, stk))"
| "jstep InEsc stk c =
     (if c \<in> set ''bfnrt/'' \<or> c = backslash \<or> c = quote_char then Some (InString, stk)
      else if c = CHR ''u'' then Some (InEscU 4, stk) else None)"
| "jstep (InEscU n) stk c =
     (if jhex c then Some (if n \<le> 1 then InString else InEscU (n - 1), stk) else None)"
| "jstep Neg stk c =
     (if c = CHR ''0'' then Some (Num0, stk) else if is_digit c then Some (Num1, stk) else None)"
| "jstep Num1 stk c =
     (if is_digit c then Some (Num1, stk) else if c = CHR ''.'' then Some (Dot, stk)
      else if jexp c then Some (ExpE, stk) else jend_value stk c)"
| "jstep Num0 stk c =
     (if c = CHR ''.'' then Some (Dot, stk) else if jexp c then Some (ExpE, stk) else jend_value stk c)"
| "jstep Dot stk c = (if is_digit c then Some (Dot0, stk) else None)"
| "jstep Dot0 stk c =
     (if is_digit c then Some (Dot0, stk) else if jexp c then Some (ExpE, stk) else jend_value stk c)"
| "jstep ExpE stk c =
     (if c = CHR ''+'' \<or> c = CHR ''-'' then Some (ExpSign, stk)
      else if is_digit c then Some (Exp0, stk) else None)"
| "jstep ExpSign stk c = (if is_digit c then Some (Exp0, stk) else None)"
| "jstep Exp0 stk c = (if is_digit c then Some (Exp0, stk) else jend_value stk c)"
| "jstep (Lit []) stk c = jend_value stk c"
| "jstep (Lit (x # xs)) stk c = (if c = x then Some (if xs = [] then EndValue else Lit xs, stk) else None)"

fun jrun :: "jstate \<Rightarrow> jctx list \<Rightarrow> string \<Rightarrow> (jstate \<times> jctx list) option" where
  "jrun st stk [] = Some (st, stk)"
| "jrun st stk (c # cs) = (case jstep st stk c of None \<Rightarrow> None | Some (st', stk') \<Rightarrow> jrun st' stk' cs)"

text \<open>At the end of the input the scanner is given one more space.\<close>

definition json_valid :: "string \<Rightarrow> bool" where
  "json_valid s =
     (case jrun BeginValue [] s of
        None \<Rightarrow> False
      | Some (st, stk) \<Rightarrow>
          st = EndTop \<or> (case jstep st stk (CHR '' '') of Some (EndTop, _) \<Rightarrow> True | _ \<Rightarrow> False))"

lemma jrun_append: "jrun st stk (xs @ ys) =
    (case jrun st stk xs of None \<Rightarrow> None | Some (st', stk') \<Rightarrow> jrun st' stk' ys)"
  by (induction xs arbitrary: st stk) (auto split: option.split)

lemma json_examples:
  "json_valid ''{}''" "json_valid '' [1, -0.5e3, true, null] ''" "json_valid ''12''" "\<not> json_valid ''hello''"
  "\<not> json_valid ''01''" "\<not> json_valid ''[1,]''" "\<not> json_valid ''''"
  by code_simp+

end
