(* ===== verification/Engine.thy ===== *)
theory Engine
  imports Wal Supervisor Sampling Backend Json
begin

text \<open>
  The processing engine (\<open>pkg/engine/engine.go\<close>) over the models of the components it owns: the
  write-ahead log, the supervisor, the sampler and the storage backend. The channels between the
  goroutines are lists with their capacities; a stage goroutine is idle, holds the signal it is
  about to send, or is done (which closes its output); a worker holds the signal between the parts
  of \<open>handle\<close>. Each function below is what one goroutine does between two points at which others
  may run. A Go panic is \<open>None\<close>. Times, the system calls of the log and the answers of the
  database are inputs. The Prometheus counter of dropped signals is \<open>pe_drops\<close>.
\<close>

section \<open>Pipeline stages\<close>

datatype drop_reason = Overload | BadPayload | NoTenant | ActorFull | SampledOut | WalError

datatype stage = StIdle | StHolds signal | StDone

text \<open>\<open>string(b)\<close>.\<close>

definition text_of :: "byte list \<Rightarrow> string" where
  "text_of bs = map (\<lambda>b. char_of (unat b)) bs"

text \<open>What each stage does with a signal: pass it on, changed or not, or drop it.\<close>

definition DecodeStage :: "signal \<Rightarrow> drop_reason + signal" where
  "DecodeStage sg =
     (if sig_payload sg \<noteq> [] \<and> \<not> json_valid (text_of (sig_payload sg)) then Inl BadPayload else Inr sg)"

definition ValidateStage :: "signal \<Rightarrow> drop_reason + signal" where
  "ValidateStage sg = (if sig_tenant sg = [] then Inl NoTenant else Inr sg)"

definition EnrichStage :: "int \<Rightarrow> signal \<Rightarrow> drop_reason + signal" where
  "EnrichStage now sg =
     Inr (sg\<lparr>sig_attrs := (sig_attrs sg)(''observex.version'' \<mapsto> ''1.0.0'',
                           ''observex.ingested_at'' \<mapsto> rfc3339nano now)\<rparr>)"

definition stage_capacity :: nat where "stage_capacity = 1024"

section \<open>The engine\<close>

record engine_options =
  eo_wal_path :: string
  eo_rate :: f64
  eo_max :: int
  eo_buffer :: int
  eo_workers :: int
  eo_clickhouse :: "backend_options option"
  eo_spillover :: bool

definition engine_defaults :: "int \<Rightarrow> engine_options \<Rightarrow> engine_options" where
  "engine_defaults procs p =
     p\<lparr>eo_rate := (if fle (eo_rate p) (Fin 0) then flit (1 / 10) else eo_rate p),
       eo_max := (if eo_max p \<le> 0 then 1000 else eo_max p),
       eo_buffer := (if eo_buffer p \<le> 0 then 65536 else eo_buffer p),
       eo_workers := (if eo_workers p \<le> 0 then procs else eo_workers p)\<rparr>"

datatype worker = Idle | Routing signal | Deciding signal | Logging signal | Storing signal | Exited

record ProcessingEngine =
  pe_opts :: engine_options
  pe_wal :: wal
  pe_store :: "backend option"
  pe_db :: clickhouse
  pe_sup :: supervisor
  pe_sampler :: sampler
  pe_ingest :: "signal list"
  pe_closed :: bool
  pe_decoded :: "signal list"
  pe_validated :: "signal list"
  pe_enriched :: "signal list"
  pe_decode :: stage
  pe_validate :: stage
  pe_enrich :: stage
  pe_workers :: "worker list"
  pe_received :: int
  pe_dropped :: int
  pe_writes :: int
  pe_drops :: "(string \<times> signal_type \<times> drop_reason) list"
  pe_started :: bool
  pe_stopping :: bool
  pe_cancelled :: bool

definition count_drop :: "drop_reason \<Rightarrow> signal \<Rightarrow> ProcessingEngine \<Rightarrow> ProcessingEngine" where
  "count_drop r sg e =
     e\<lparr>pe_drops := pe_drops e @ [(if r = NoTenant then [] else sig_tenant sg, sig_type sg, r)]\<rparr>"

definition default_sup_options :: "bool \<Rightarrow> sup_options" where
  "default_sup_options spill =
     \<lparr>so_MailboxSize = 0, so_MaxRestarts = 0, so_RestartWindow = 0, so_BackoffMin = 0, so_BackoffMax = 0,
      so_HealthInterval = 0, so_ActorOptions = \<lparr>ao_errorEPS = Fin 0, ao_latencyMS = Fin 0, ao_window = 0, ao_sink = False\<rparr>,
      so_Spillover = spill\<rparr>"

definition default_wal_options :: wal_options where
  "default_wal_options = \<lparr>wo_sync_interval = 0, wo_max_bytes = 0, wo_no_group_commit = False\<rparr>"

datatype engine_error = NoWalPath | EngineWal wal_error | EngineStorage

text \<open>\<open>d\<close> is the log directory as found; \<open>reachable\<close> and \<open>migrations\<close> are the database's answers.\<close>

definition NewProcessingEngineWithOptions ::
  "int \<Rightarrow> os_calls \<Rightarrow> (string \<times> dirent) list \<Rightarrow> bool \<Rightarrow> bool \<Rightarrow> clickhouse \<Rightarrow> engine_options \<Rightarrow>
   engine_error + ProcessingEngine" where
  "NewProcessingEngineWithOptions procs os d reachable migrations db opts0 =
     (let opts = engine_defaults procs opts0
      in if eo_wal_path opts = [] then Inl NoWalPath
         else case NewWAL os d default_wal_options of
           Inl e \<Rightarrow> Inl (EngineWal e)
         | Inr w \<Rightarrow>
             let e = (\<lambda>store. Inr
                   \<lparr>pe_opts = opts, pe_wal = w, pe_store = store, pe_db = db,
                    pe_sup = NewSupervisorWithOptions (default_sup_options (eo_spillover opts)),
                    pe_sampler = NewAdaptiveSampler (eo_rate opts) (eo_max opts),
                    pe_ingest = [], pe_closed = False, pe_decoded = [], pe_validated = [], pe_enriched = [],
                    pe_decode = StIdle, pe_validate = StIdle, pe_enrich = StIdle, pe_workers = [],
                    pe_received = 0, pe_dropped = 0, pe_writes = 0, pe_drops = [],
                    pe_started = False, pe_stopping = False, pe_cancelled = False\<rparr>)
             in (case eo_clickhouse opts of
                   None \<Rightarrow> e None
                 | Some co \<Rightarrow> (case NewBackend co reachable migrations of
                       None \<Rightarrow> Inl EngineStorage
                     | Some b \<Rightarrow> e (Some b))))"

definition eng_Start :: "ProcessingEngine \<Rightarrow> ProcessingEngine" where
  "eng_Start e =
     (if pe_started e then e
      else e\<lparr>pe_sup := sup_Start (pe_sup e),
             pe_workers := replicate (nat (eo_workers (pe_opts e))) Idle, pe_started := True\<rparr>)"

datatype submit = Accepted | Overloaded | SendOnClosed

definition ProcessSignal :: "ProcessingEngine \<Rightarrow> signal \<Rightarrow> ProcessingEngine \<times> submit" where
  "ProcessSignal e sg =
     (let e1 = e\<lparr>pe_received := wrap64 (pe_received e + 1)\<rparr>
      in if pe_closed e then (e1, SendOnClosed)
         else if length (pe_ingest e1) < nat (eo_buffer (pe_opts e1))
         then (e1\<lparr>pe_ingest := pe_ingest e1 @ [sg]\<rparr>, Accepted)
         else (count_drop Overload sg (e1\<lparr>pe_dropped := wrap64 (pe_dropped e1 + 1)\<rparr>), Overloaded))"

section \<open>Stage goroutines\<close>

text \<open>The receive of a stage, with what follows up to the send. The stage that got a signal to drop is
  idle again; the end of a closed and drained input makes it done.\<close>

definition stage_got :: "drop_reason + signal \<Rightarrow> stage" where
  "stage_got r = (case r of Inl _ \<Rightarrow> StIdle | Inr sg \<Rightarrow> StHolds sg)"

definition counted :: "drop_reason + signal \<Rightarrow> signal \<Rightarrow> ProcessingEngine \<Rightarrow> ProcessingEngine" where
  "counted r sg e = (case r of Inl why \<Rightarrow> count_drop why sg e | Inr _ \<Rightarrow> e)"

definition decode_recv :: "ProcessingEngine \<Rightarrow> ProcessingEngine" where
  "decode_recv e =
     (case (pe_decode e, pe_ingest e) of
        (StIdle, sg # rest) \<Rightarrow>
          counted (DecodeStage sg) sg (e\<lparr>pe_ingest := rest, pe_decode := stage_got (DecodeStage sg)\<rparr>)
      | (StIdle, []) \<Rightarrow> if pe_closed e then e\<lparr>pe_decode := StDone\<rparr> else e
      | _ \<Rightarrow> e)"

definition validate_recv :: "ProcessingEngine \<Rightarrow> ProcessingEngine" where
  "validate_recv e =
     (case (pe_validate e, pe_decoded e) of
        (StIdle, sg # rest) \<Rightarrow>
          counted (ValidateStage sg) sg (e\<lparr>pe_decoded := rest, pe_validate := stage_got (ValidateStage sg)\<rparr>)
      | (StIdle, []) \<Rightarrow> if pe_decode e = StDone then e\<lparr>pe_validate := StDone\<rparr> else e
      | _ \<Rightarrow> e)"

definition enrich_recv :: "int \<Rightarrow> ProcessingEngine \<Rightarrow> ProcessingEngine" where
  "enrich_recv now e =
     (case (pe_enrich e, pe_validated e) of
        (StIdle, sg # rest) \<Rightarrow>
          counted (EnrichStage now sg) sg (e\<lparr>pe_validated := rest, pe_enrich := stage_got (EnrichStage now sg)\<rparr>)
      | (StIdle, []) \<Rightarrow> if pe_validate e = StDone then e\<lparr>pe_enrich := StDone\<rparr> else e
      | _ \<Rightarrow> e)"

text \<open>The send of a stage waits for room in its output.\<close>

definition decode_send :: "ProcessingEngine \<Rightarrow> ProcessingEngine" where
  "decode_send e =
     (case pe_decode e of
        StHolds sg \<Rightarrow> if length (pe_decoded e) < stage_capacity
          then e\<lparr>pe_decoded := pe_decoded e @ [sg], pe_decode := StIdle\<rparr> else e
      | _ \<Rightarrow> e)"

definition validate_send :: "ProcessingEngine \<Rightarrow> ProcessingEngine" where
  "validate_send e =
     (case pe_validate e of
        StHolds sg \<Rightarrow> if length (pe_validated e) < stage_capacity
          then e\<lparr>pe_validated := pe_validated e @ [sg], pe_validate := StIdle\<rparr> else e
      | _ \<Rightarrow> e)"

definition enrich_send :: "ProcessingEngine \<Rightarrow> ProcessingEngine" where
  "enrich_send e =
     (case pe_enrich e of
        StHolds sg \<Rightarrow> if length (pe_enriched e) < stage_capacity
          then e\<lparr>pe_enriched := pe_enriched e @ [sg], pe_enrich := StIdle\<rparr> else e
      | _ \<Rightarrow> e)"

text \<open>The other branch of the send's \<open>select\<close>: the context is done, the signal is let go.\<close>

definition stage_abandons :: "bool \<Rightarrow> stage \<Rightarrow> stage" where
  "stage_abandons cancelled st = (case st of StHolds _ \<Rightarrow> if cancelled then StDone else st | _ \<Rightarrow> st)"

section \<open>Workers\<close>

definition handle_route :: "ProcessingEngine \<Rightarrow> signal \<Rightarrow> ProcessingEngine option" where
  "handle_route e sg =
     (case GetOrCreateActor (pe_sup e) (sig_tenant sg) of
        (s, None) \<Rightarrow> None
      | (s, Some a) \<Rightarrow>
          (case try_send (su_acts s ! a) sg of
             SendPanic \<Rightarrow> None
           | Sent act \<Rightarrow> Some (e\<lparr>pe_sup := s\<lparr>su_acts := (su_acts s)[a := act]\<rparr>\<rparr>)
           | MailboxFull \<Rightarrow> Some (count_drop ActorFull sg (e\<lparr>pe_sup := s\<rparr>))))"

definition shouldPersist :: "sampler \<Rightarrow> int \<Rightarrow> int \<Rightarrow> signal \<Rightarrow> (sampler \<times> bool) option" where
  "shouldPersist s now now2 sg =
     (if sig_type sg \<noteq> Trace then Some (s, True)
      else map_option (\<lambda>(s', v). (s', v = Keep)) (Decide s now now2 sg))"

definition handle_decide :: "ProcessingEngine \<Rightarrow> int \<Rightarrow> int \<Rightarrow> signal \<Rightarrow> (ProcessingEngine \<times> bool) option" where
  "handle_decide e now now2 sg =
     (case shouldPersist (pe_sampler e) now now2 sg of
        None \<Rightarrow> None
      | Some (s, keep) \<Rightarrow>
          if keep then Some (e\<lparr>pe_sampler := s\<rparr>, True)
          else Some (count_drop SampledOut sg (e\<lparr>pe_sampler := s\<rparr>), False))"

definition handle_log :: "os_calls \<Rightarrow> 64 word \<Rightarrow> ProcessingEngine \<Rightarrow> signal \<Rightarrow> (ProcessingEngine \<times> bool) option" where
  "handle_log os ts e sg =
     (case wal_Write os ts (sig_payload sg) (pe_wal e) of
        (w, None) \<Rightarrow> Some (e\<lparr>pe_wal := w, pe_writes := wrap64 (pe_writes e + 1)\<rparr>, True)
      | (w, Some WPanic) \<Rightarrow> None
      | (w, Some _) \<Rightarrow> Some (count_drop WalError sg (e\<lparr>pe_wal := w\<rparr>), False))"

definition handle_store :: "flush_env \<Rightarrow> ProcessingEngine \<Rightarrow> signal \<Rightarrow> ProcessingEngine" where
  "handle_store env e sg =
     (case pe_store e of
        None \<Rightarrow> e
      | Some b \<Rightarrow> (case backend_Write env b (pe_db e) [sg] of (b', db, _) \<Rightarrow> e\<lparr>pe_store := Some b', pe_db := db\<rparr>))"

text \<open>\<open>handle\<close> in one go, as \<open>processSingleSignal\<close> calls it.\<close>

definition handle ::
  "os_calls \<Rightarrow> flush_env \<Rightarrow> 64 word \<Rightarrow> int \<Rightarrow> int \<Rightarrow> ProcessingEngine \<Rightarrow> signal \<Rightarrow> ProcessingEngine option" where
  "handle os env ts now now2 e sg =
     (case handle_route e sg of
        None \<Rightarrow> None
      | Some e1 \<Rightarrow>
          (case handle_decide e1 now now2 sg of
             None \<Rightarrow> None
           | Some (e2, False) \<Rightarrow> Some e2
           | Some (e2, True) \<Rightarrow>
               (case handle_log os ts e2 sg of
                  None \<Rightarrow> None
                | Some (e3, False) \<Rightarrow> Some e3
                | Some (e3, True) \<Rightarrow> Some (handle_store env e3 sg))))"

definition set_worker :: "nat \<Rightarrow> worker \<Rightarrow> ProcessingEngine \<Rightarrow> ProcessingEngine" where
  "set_worker i w e = e\<lparr>pe_workers := (pe_workers e)[i := w]\<rparr>"

text \<open>One move of worker \<open>i\<close>: taking a signal or ending, or the next part of \<open>handle\<close>.\<close>

definition worker_move ::
  "os_calls \<Rightarrow> flush_env \<Rightarrow> 64 word \<Rightarrow> int \<Rightarrow> int \<Rightarrow> nat \<Rightarrow> ProcessingEngine \<Rightarrow> ProcessingEngine option" where
  "worker_move os env ts now now2 i e =
     (case pe_workers e ! i of
        Idle \<Rightarrow>
          (case pe_enriched e of
             sg # rest \<Rightarrow> Some (set_worker i (Routing sg) (e\<lparr>pe_enriched := rest\<rparr>))
           | [] \<Rightarrow> Some (if pe_enrich e = StDone then set_worker i Exited e else e))
      | Routing sg \<Rightarrow> map_option (set_worker i (Deciding sg)) (handle_route e sg)
      | Deciding sg \<Rightarrow>
          map_option (\<lambda>(e', keep). set_worker i (if keep then Logging sg else Idle) e') (handle_decide e now now2 sg)
      | Logging sg \<Rightarrow>
          map_option (\<lambda>(e', ok). set_worker i (if ok then Storing sg else Idle) e') (handle_log os ts e sg)
      | Storing sg \<Rightarrow> Some (set_worker i Idle (handle_store env e sg))
      | Exited \<Rightarrow> Some e)"

text \<open>The worker's \<open>select\<close> takes the branch of the cancelled context.\<close>

definition worker_cancel :: "nat \<Rightarrow> ProcessingEngine \<Rightarrow> ProcessingEngine" where
  "worker_cancel i e = (if pe_workers e ! i = Idle \<and> pe_cancelled e then set_worker i Exited e else e)"

section \<open>Stopping\<close>

definition ctx_cancel :: "ProcessingEngine \<Rightarrow> ProcessingEngine" where
  "ctx_cancel e = e\<lparr>pe_cancelled := True\<rparr>"

text \<open>\<open>Stop\<close> up to the wait for the workers, and after it; an engine that was not started only closes
  its log.\<close>

definition stop_begin :: "os_calls \<Rightarrow> ProcessingEngine \<Rightarrow> ProcessingEngine" where
  "stop_begin os e =
     (if pe_stopping e then e
      else if \<not> pe_started e then e\<lparr>pe_stopping := True, pe_wal := fst (wal_Close os (pe_wal e))\<rparr>
      else e\<lparr>pe_stopping := True, pe_closed := True, pe_cancelled := True\<rparr>)"

definition stop_finish :: "os_calls \<Rightarrow> flush_env \<Rightarrow> ProcessingEngine \<Rightarrow> ProcessingEngine" where
  "stop_finish os env e =
     (let e1 = e\<lparr>pe_sup := sup_Stop (pe_sup e)\<rparr>;
          e2 = (case pe_store e1 of
                  None \<Rightarrow> e1
                | Some b \<Rightarrow>
                    (case backend_Flush env b (pe_db e1) of
                       (b1, db1, _) \<Rightarrow>
                         (case backend_Close env b1 db1 of (b2, db2) \<Rightarrow> e1\<lparr>pe_store := Some b2, pe_db := db2\<rparr>)))
      in e2\<lparr>pe_wal := fst (wal_Close os (pe_wal e2))\<rparr>)"

definition eng_Stats :: "ProcessingEngine \<Rightarrow> int \<times> int \<times> int" where
  "eng_Stats e = (pe_received e, pe_dropped e, pe_writes e)"

definition SetAlertSink :: "ProcessingEngine \<Rightarrow> ProcessingEngine" where
  "SetAlertSink e =
     e\<lparr>pe_sup := SetActorOptions (pe_sup e)
       \<lparr>ao_errorEPS = Fin 0, ao_latencyMS = Fin 0, ao_window = 0, ao_sink = True\<rparr>\<rparr>"

end
