(* ===== verification/EngineProps.thy ===== *)
theory EngineProps
  imports Engine WalProps SamplingProps
begin

text \<open>
  The engine as a system of goroutines: any interleaving of submissions, stage and worker moves,
  background work and a stop. Every accepted signal is accounted for, and what was logged is what a
  replay of the log delivers.
\<close>

section \<open>Runs\<close>

datatype eng_op =
    Submit signal
  | DecRecv | ValRecv | EnrRecv int
  | DecSend | ValSend | EnrSend
  | DecAbandon | ValAbandon | EnrAbandon
  | Work nat flush_env "64 word" int int
  | WorkCancel nat
  | SupervisorDoes supervisor
  | StorageTick flush_env
  | LogTick
  | CtxCancel
  | StopBegin
  | StopFinish flush_env

text \<open>The supervisor's goroutines may leave it in any state; a tick of the storage is its flush loop, a
  tick of the log its group commit. \<open>None\<close> is a panic, which ends the process.\<close>

fun eng_do :: "eng_op \<Rightarrow> ProcessingEngine \<Rightarrow> ProcessingEngine option" where
  "eng_do (Submit sg) e = (case ProcessSignal e sg of (e', SendOnClosed) \<Rightarrow> None | (e', _) \<Rightarrow> Some e')"
| "eng_do DecRecv e = Some (decode_recv e)"
| "eng_do ValRecv e = Some (validate_recv e)"
| "eng_do (EnrRecv now) e = Some (enrich_recv now e)"
| "eng_do DecSend e = Some (decode_send e)"
| "eng_do ValSend e = Some (validate_send e)"
| "eng_do EnrSend e = Some (enrich_send e)"
| "eng_do DecAbandon e = Some (e\<lparr>pe_decode := stage_abandons (pe_cancelled e) (pe_decode e)\<rparr>)"
| "eng_do ValAbandon e = Some (e\<lparr>pe_validate := stage_abandons (pe_cancelled e) (pe_validate e)\<rparr>)"
| "eng_do EnrAbandon e = Some (e\<lparr>pe_enrich := stage_abandons (pe_cancelled e) (pe_enrich e)\<rparr>)"
| "eng_do (Work i env ts now now2) e =
     (if i < length (pe_workers e) then worker_move os_ok env ts now now2 i e else Some e)"
| "eng_do (WorkCancel i) e = Some (if i < length (pe_workers e) then worker_cancel i e else e)"
| "eng_do (SupervisorDoes s) e = Some (e\<lparr>pe_sup := s\<rparr>)"
| "eng_do (StorageTick env) e = Some (case pe_store e of None \<Rightarrow> e
     | Some b \<Rightarrow> (case flush_tick env b (pe_db e) of (b', db) \<Rightarrow> e\<lparr>pe_store := Some b', pe_db := db\<rparr>))"
| "eng_do LogTick e = Some (e\<lparr>pe_wal := group_commit_tick os_ok (pe_wal e)\<rparr>)"
| "eng_do CtxCancel e = Some (ctx_cancel e)"
| "eng_do StopBegin e = Some (stop_begin os_ok e)"
| "eng_do (StopFinish env) e =
     Some (if pe_stopping e \<and> (\<forall>w \<in> set (pe_workers e). w = Exited) then stop_finish os_ok env e else e)"

text \<open>What an operation did to signals: accepted, written to the log, dropped with a reason, let go.\<close>

record tally =
  ty_accepted :: "signal list"
  ty_logged :: "(64 word \<times> signal) list"
  ty_dropped :: "(signal \<times> drop_reason) list"
  ty_lost :: "signal list"

definition no_tally :: tally where
  "no_tally = \<lparr>ty_accepted = [], ty_logged = [], ty_dropped = [], ty_lost = []\<rparr>"

definition drop_of :: "stage \<Rightarrow> signal list \<Rightarrow> (signal \<Rightarrow> drop_reason + signal) \<Rightarrow> (signal \<times> drop_reason) list" where
  "drop_of st inp f =
     (case (st, inp) of (StIdle, sg # _) \<Rightarrow> (case f sg of Inl r \<Rightarrow> [(sg, r)] | Inr _ \<Rightarrow> []) | _ \<Rightarrow> [])"

definition lost_of :: "bool \<Rightarrow> stage \<Rightarrow> signal list" where
  "lost_of cancelled st = (case st of StHolds sg \<Rightarrow> if cancelled then [sg] else [] | _ \<Rightarrow> [])"

fun work_tally :: "64 word \<Rightarrow> int \<Rightarrow> int \<Rightarrow> worker \<Rightarrow> ProcessingEngine \<Rightarrow> tally \<Rightarrow> tally" where
  "work_tally ts now now2 (Deciding sg) e g =
     (case handle_decide e now now2 sg of Some (_, False) \<Rightarrow> g\<lparr>ty_dropped := ty_dropped g @ [(sg, SampledOut)]\<rparr> | _ \<Rightarrow> g)"
| "work_tally ts now now2 (Logging sg) e g =
     (case handle_log os_ok ts e sg of
        Some (_, True) \<Rightarrow> g\<lparr>ty_logged := ty_logged g @ [(ts, sg)]\<rparr>
      | Some (_, False) \<Rightarrow> g\<lparr>ty_dropped := ty_dropped g @ [(sg, WalError)]\<rparr>
      | None \<Rightarrow> g)"
| "work_tally ts now now2 _ e g = g"

fun tally_of :: "eng_op \<Rightarrow> ProcessingEngine \<Rightarrow> tally \<Rightarrow> tally" where
  "tally_of (Submit sg) e g =
     (if snd (ProcessSignal e sg) = Accepted then g\<lparr>ty_accepted := ty_accepted g @ [sg]\<rparr> else g)"
| "tally_of DecRecv e g = g\<lparr>ty_dropped := ty_dropped g @ drop_of (pe_decode e) (pe_ingest e) DecodeStage\<rparr>"
| "tally_of ValRecv e g = g\<lparr>ty_dropped := ty_dropped g @ drop_of (pe_validate e) (pe_decoded e) ValidateStage\<rparr>"
| "tally_of DecAbandon e g = g\<lparr>ty_lost := ty_lost g @ lost_of (pe_cancelled e) (pe_decode e)\<rparr>"
| "tally_of ValAbandon e g = g\<lparr>ty_lost := ty_lost g @ lost_of (pe_cancelled e) (pe_validate e)\<rparr>"
| "tally_of EnrAbandon e g = g\<lparr>ty_lost := ty_lost g @ lost_of (pe_cancelled e) (pe_enrich e)\<rparr>"
| "tally_of (Work i env ts now now2) e g =
     (if i < length (pe_workers e) then work_tally ts now now2 (pe_workers e ! i) e g else g)"
| "tally_of _ e g = g"

inductive eng_reach :: "ProcessingEngine \<times> tally \<Rightarrow> bool" where
  start: "NewProcessingEngineWithOptions procs os_ok [] r mg db opts = Inr e \<Longrightarrow> eng_reach (eng_Start e, no_tally)"
| step: "eng_reach (e, g) \<Longrightarrow> eng_do x e = Some e' \<Longrightarrow> eng_reach (e', tally_of x e g)"

section \<open>Conservation\<close>

text \<open>What identifies a signal; enrichment adds attributes.\<close>

definition key :: "signal \<Rightarrow> string \<times> signal_type \<times> byte list \<times> int" where
  "key sg = (sig_tenant sg, sig_type sg, sig_payload sg, sig_received sg)"

definition held :: "stage \<Rightarrow> signal list" where
  "held st = (case st of StHolds sg \<Rightarrow> [sg] | _ \<Rightarrow> [])"

fun working :: "worker \<Rightarrow> signal list" where
  "working (Routing sg) = [sg]"
| "working (Deciding sg) = [sg]"
| "working (Logging sg) = [sg]"
| "working _ = []"

definition in_flight :: "ProcessingEngine \<Rightarrow> signal list" where
  "in_flight e = pe_ingest e @ held (pe_decode e) @ pe_decoded e @ held (pe_validate e) @ pe_validated e @
     held (pe_enrich e) @ pe_enriched e @ concat (map working (pe_workers e))"

definition keys :: "signal list \<Rightarrow> (string \<times> signal_type \<times> byte list \<times> int) multiset" where
  "keys sgs = mset (map key sgs)"

lemma keys_simps [simp]: "keys [] = {#}" "keys (x # xs) = add_mset (key x) (keys xs)"
  "keys (xs @ ys) = keys xs + keys ys"
  by (simp_all add: keys_def)

definition outcomes :: "tally \<Rightarrow> signal list" where
  "outcomes g = map snd (ty_logged g) @ map fst (ty_dropped g) @ ty_lost g"

definition balanced :: "ProcessingEngine \<times> tally \<Rightarrow> bool" where
  "balanced s \<longleftrightarrow> keys (ty_accepted (snd s)) = keys (in_flight (fst s)) + keys (outcomes (snd s))"

lemma working_update:
  "i < length ws \<Longrightarrow> keys (concat (map working (ws[i := w]))) + keys (working (ws ! i)) =
     keys (concat (map working ws)) + keys (working w)"
proof (induction ws arbitrary: i)
  case (Cons x xs)
  then show ?case by (cases i) (auto simp: ac_simps)
qed simp

lemma count_drop_frame [simp]:
  "pe_ingest (count_drop r sg e) = pe_ingest e" "pe_decoded (count_drop r sg e) = pe_decoded e"
  "pe_validated (count_drop r sg e) = pe_validated e" "pe_enriched (count_drop r sg e) = pe_enriched e"
  "pe_decode (count_drop r sg e) = pe_decode e" "pe_validate (count_drop r sg e) = pe_validate e"
  "pe_enrich (count_drop r sg e) = pe_enrich e" "pe_workers (count_drop r sg e) = pe_workers e"
  "pe_wal (count_drop r sg e) = pe_wal e" "pe_cancelled (count_drop r sg e) = pe_cancelled e"
  "pe_writes (count_drop r sg e) = pe_writes e" "pe_sampler (count_drop r sg e) = pe_sampler e"
  "pe_received (count_drop r sg e) = pe_received e" "pe_dropped (count_drop r sg e) = pe_dropped e"
  "pe_closed (count_drop r sg e) = pe_closed e" "pe_opts (count_drop r sg e) = pe_opts e"
  by (simp_all add: count_drop_def)

text \<open>The queues of two engines agree; so do their flights.\<close>

definition same_queues :: "ProcessingEngine \<Rightarrow> ProcessingEngine \<Rightarrow> bool" where
  "same_queues e e' \<longleftrightarrow> pe_ingest e' = pe_ingest e \<and> pe_decoded e' = pe_decoded e \<and>
     pe_validated e' = pe_validated e \<and> pe_enriched e' = pe_enriched e \<and> pe_decode e' = pe_decode e \<and>
     pe_validate e' = pe_validate e \<and> pe_enrich e' = pe_enrich e \<and> pe_workers e' = pe_workers e"

lemma same_flight: "same_queues e e' \<Longrightarrow> in_flight e' = in_flight e"
  by (simp add: same_queues_def in_flight_def)

lemma handle_route_queues: "handle_route e sg = Some e' \<Longrightarrow> same_queues e e' \<and> pe_wal e' = pe_wal e \<and>
    pe_writes e' = pe_writes e \<and> pe_sampler e' = pe_sampler e \<and> pe_cancelled e' = pe_cancelled e"
  by (auto simp: handle_route_def same_queues_def split: prod.splits option.splits send_result.splits)

lemma handle_decide_queues: "handle_decide e now now2 sg = Some (e', k) \<Longrightarrow> same_queues e e' \<and> pe_wal e' = pe_wal e \<and>
    pe_writes e' = pe_writes e \<and> pe_cancelled e' = pe_cancelled e"
  by (auto simp: handle_decide_def same_queues_def split: prod.splits option.splits if_splits)

lemma handle_log_queues: "handle_log os ts e sg = Some (e', k) \<Longrightarrow> same_queues e e' \<and>
    pe_cancelled e' = pe_cancelled e"
  by (auto simp: handle_log_def same_queues_def split: prod.splits option.splits wal_error.splits)

lemma handle_store_queues: "same_queues e (handle_store env e sg) \<and> pe_wal (handle_store env e sg) = pe_wal e \<and>
    pe_writes (handle_store env e sg) = pe_writes e \<and> pe_cancelled (handle_store env e sg) = pe_cancelled e"
  by (auto simp: handle_store_def same_queues_def split: prod.splits option.splits)

lemma flight_worker:
  assumes "i < length (pe_workers e)" "same_queues e e'"
  shows "keys (in_flight (set_worker i w e')) + keys (working (pe_workers e ! i)) = keys (in_flight e) + keys (working w)"
  using assms working_update [OF assms(1), of w]
  by (simp add: in_flight_def set_worker_def same_queues_def ac_simps)

lemma worker_balance:
  assumes "worker_move os_ok env ts now now2 i e = Some e'" "i < length (pe_workers e)"
  shows "keys (in_flight e') + keys (outcomes (work_tally ts now now2 (pe_workers e ! i) e g)) =
    keys (in_flight e) + keys (outcomes g)"
proof (cases "pe_workers e ! i")
  case Idle
  show ?thesis
  proof (cases "pe_enriched e")
    case Nil
    then have "e' = e \<or> e' = set_worker i Exited e" using assms(1) Idle by (auto simp: worker_move_def)
    then show ?thesis using flight_worker [OF assms(2), of e Exited] Idle by (auto simp: same_queues_def)
  next
    case (Cons sg rest)
    then have e': "e' = set_worker i (Routing sg) (e\<lparr>pe_enriched := rest\<rparr>)"
      using assms(1) Idle by (simp add: worker_move_def)
    have "keys (concat (map working ((pe_workers e)[i := Routing sg]))) = add_mset (key sg) (keys (concat (map working (pe_workers e))))"
      using working_update [OF assms(2), of "Routing sg"] Idle by simp
    then show ?thesis using Idle Cons by (simp add: e' in_flight_def set_worker_def)
  qed
next
  case (Routing sg)
  then obtain e1 where h: "handle_route e sg = Some e1" "e' = set_worker i (Deciding sg) e1"
    using assms(1) by (auto simp: worker_move_def)
  then show ?thesis using flight_worker [OF assms(2), of e1 "Deciding sg"] handle_route_queues [OF h(1)] Routing by simp
next
  case (Deciding sg)
  then obtain e1 k where h: "handle_decide e now now2 sg = Some (e1, k)"
      "e' = set_worker i (if k then Logging sg else Idle) e1"
    using assms(1) by (auto simp: worker_move_def)
  have "keys (in_flight e') + {#key sg#} = keys (in_flight e) + keys (working (if k then Logging sg else Idle))"
    using flight_worker [OF assms(2), of e1 "if k then Logging sg else Idle"] handle_decide_queues [OF h(1)] Deciding h(2)
    by simp
  then show ?thesis using Deciding h(1) by (cases k) (auto simp: outcomes_def)
next
  case (Logging sg)
  then obtain e1 k where h: "handle_log os_ok ts e sg = Some (e1, k)"
      "e' = set_worker i (if k then Storing sg else Idle) e1"
    using assms(1) by (auto simp: worker_move_def)
  have "keys (in_flight e') + {#key sg#} = keys (in_flight e)"
    using flight_worker [OF assms(2), of e1 "if k then Storing sg else Idle"] handle_log_queues [OF h(1)] Logging h(2)
    by (cases k) simp_all
  then show ?thesis using Logging h(1) by (cases k) (auto simp: outcomes_def)
next
  case (Storing sg)
  then have "e' = set_worker i Idle (handle_store env e sg)" using assms(1) by (simp add: worker_move_def)
  then show ?thesis
    using flight_worker [OF assms(2), of "handle_store env e sg" Idle] handle_store_queues [of e env sg] Storing by simp
next
  case Exited
  then show ?thesis using assms(1) by (simp add: worker_move_def)
qed

lemma key_enrich: "EnrichStage now sg = Inr sg' \<Longrightarrow> key sg' = key sg"
  by (auto simp: EnrichStage_def key_def)

lemma key_stage: "DecodeStage sg = Inr sg' \<Longrightarrow> sg' = sg" "ValidateStage sg = Inr sg' \<Longrightarrow> sg' = sg"
  by (auto simp: DecodeStage_def ValidateStage_def split: if_splits)

lemma key_decode: "DecodeStage sg = Inr sg' \<Longrightarrow> key sg' = key sg"
  using key_stage(1) by fastforce

lemma key_validate: "ValidateStage sg = Inr sg' \<Longrightarrow> key sg' = key sg"
  using key_stage(2) by fastforce

lemma key_stage_got:
  "(\<And>sg'. r = Inr sg' \<Longrightarrow> key sg' = key sg) \<Longrightarrow>
   keys (held (stage_got r)) + keys (map fst (case r of Inl why \<Rightarrow> [(sg, why)] | Inr _ \<Rightarrow> [])) = {#key sg#}"
  by (cases r) (simp_all add: stage_got_def held_def)

lemma counted_flight: "in_flight (counted r sg e) = in_flight e"
  by (simp add: counted_def in_flight_def split: sum.split)

lemma decode_recv_balance:
  "keys (in_flight (decode_recv e)) + keys (map fst (drop_of (pe_decode e) (pe_ingest e) DecodeStage)) = keys (in_flight e)"
proof (cases "pe_decode e = StIdle \<and> pe_ingest e \<noteq> []")
  case True
  then obtain sg rest where q: "pe_decode e = StIdle" "pe_ingest e = sg # rest" by (cases "pe_ingest e") auto
  then show ?thesis using key_stage_got [of "DecodeStage sg" sg, OF key_decode]
    by (simp add: decode_recv_def drop_of_def counted_flight) (simp add: in_flight_def held_def ac_simps)
next
  case False
  then show ?thesis
    by (cases "pe_decode e"; cases "pe_ingest e") (simp_all add: decode_recv_def drop_of_def in_flight_def held_def)
qed

lemma validate_recv_balance:
  "keys (in_flight (validate_recv e)) + keys (map fst (drop_of (pe_validate e) (pe_decoded e) ValidateStage)) = keys (in_flight e)"
proof (cases "pe_validate e = StIdle \<and> pe_decoded e \<noteq> []")
  case True
  then obtain sg rest where q: "pe_validate e = StIdle" "pe_decoded e = sg # rest" by (cases "pe_decoded e") auto
  then show ?thesis using key_stage_got [of "ValidateStage sg" sg, OF key_validate]
    by (simp add: validate_recv_def drop_of_def counted_flight) (simp add: in_flight_def held_def ac_simps)
next
  case False
  then show ?thesis
    by (cases "pe_validate e"; cases "pe_decoded e") (simp_all add: validate_recv_def drop_of_def in_flight_def held_def)
qed

lemma enrich_recv_balance: "keys (in_flight (enrich_recv now e)) = keys (in_flight e)"
proof (cases "pe_enrich e = StIdle \<and> pe_validated e \<noteq> []")
  case True
  then obtain sg rest where q: "pe_enrich e = StIdle" "pe_validated e = sg # rest" by (cases "pe_validated e") auto
  then show ?thesis
    by (simp add: enrich_recv_def counted_flight) (simp add: in_flight_def held_def stage_got_def EnrichStage_def key_def)
next
  case False
  then show ?thesis
    by (cases "pe_enrich e"; cases "pe_validated e") (simp_all add: enrich_recv_def in_flight_def held_def)
qed

lemma send_balance:
  "keys (in_flight (decode_send e)) = keys (in_flight e)"
  "keys (in_flight (validate_send e)) = keys (in_flight e)"
  "keys (in_flight (enrich_send e)) = keys (in_flight e)"
  by (auto simp: decode_send_def validate_send_def enrich_send_def in_flight_def held_def split: stage.splits)

lemma abandon_held: "keys (held (stage_abandons c st)) + keys (lost_of c st) = keys (held st)"
  by (auto simp: stage_abandons_def lost_of_def held_def split: stage.splits)

lemma abandon_balance:
  "keys (in_flight (e\<lparr>pe_decode := stage_abandons (pe_cancelled e) (pe_decode e)\<rparr>)) +
     keys (lost_of (pe_cancelled e) (pe_decode e)) = keys (in_flight e)"
  "keys (in_flight (e\<lparr>pe_validate := stage_abandons (pe_cancelled e) (pe_validate e)\<rparr>)) +
     keys (lost_of (pe_cancelled e) (pe_validate e)) = keys (in_flight e)"
  "keys (in_flight (e\<lparr>pe_enrich := stage_abandons (pe_cancelled e) (pe_enrich e)\<rparr>)) +
     keys (lost_of (pe_cancelled e) (pe_enrich e)) = keys (in_flight e)"
  using abandon_held [of "pe_cancelled e" "pe_decode e"] abandon_held [of "pe_cancelled e" "pe_validate e"]
    abandon_held [of "pe_cancelled e" "pe_enrich e"]
  by (simp_all add: in_flight_def ac_simps)

lemma cancel_balance:
  "i < length (pe_workers e) \<Longrightarrow> keys (in_flight (worker_cancel i e)) = keys (in_flight e)"
  using flight_worker [of i e e Exited] by (auto simp: worker_cancel_def same_queues_def)

lemma stop_queues: "in_flight (stop_begin os e) = in_flight e" "in_flight (stop_finish os env e) = in_flight e"
  "in_flight (ctx_cancel e) = in_flight e"
  by (auto simp: stop_begin_def stop_finish_def ctx_cancel_def in_flight_def Let_def split: option.split prod.split)

lemma submit_balance:
  "snd (ProcessSignal e sg) = Accepted \<Longrightarrow> keys (in_flight (fst (ProcessSignal e sg))) = add_mset (key sg) (keys (in_flight e))"
  "snd (ProcessSignal e sg) \<noteq> Accepted \<Longrightarrow> in_flight (fst (ProcessSignal e sg)) = in_flight e"
  by (auto simp: ProcessSignal_def Let_def in_flight_def split: if_splits)

lemma keys_outcomes: "keys (outcomes g) = keys (map snd (ty_logged g)) + keys (map fst (ty_dropped g)) + keys (ty_lost g)"
  by (simp add: outcomes_def)

lemma work_accepted: "ty_accepted (work_tally ts now now2 w e g) = ty_accepted g"
  by (cases "(ts, now, now2, w, e, g)" rule: work_tally.cases) (auto split: option.split bool.split)

lemma step_balance:
  assumes "balanced (e, g)" "eng_do x e = Some e'"
  shows "balanced (e', tally_of x e g)"
proof (cases x)
  case (Submit sg)
  then have e': "e' = fst (ProcessSignal e sg)"
    using assms(2) by (auto split: prod.splits submit.splits)
  show ?thesis
    using assms(1) submit_balance [of e sg] by (auto simp: Submit e' balanced_def outcomes_def)
next
  case DecRecv
  then show ?thesis using assms decode_recv_balance [of e]
    by (auto simp: balanced_def keys_outcomes ac_simps)
next
  case ValRecv
  then show ?thesis using assms validate_recv_balance [of e]
    by (auto simp: balanced_def keys_outcomes ac_simps)
next
  case (Work i env ts now now2)
  show ?thesis
  proof (cases "i < length (pe_workers e)")
    case True
    then have "worker_move os_ok env ts now now2 i e = Some e'" using assms(2) Work by simp
    from worker_balance [OF this True, of g] show ?thesis
      using assms(1) True by (simp add: Work balanced_def work_accepted)
  qed (use assms Work in simp)
next
  case DecAbandon
  then show ?thesis using assms abandon_balance(1) [of e]
    by (auto simp: balanced_def keys_outcomes ac_simps)
next
  case ValAbandon
  then show ?thesis using assms abandon_balance(2) [of e]
    by (auto simp: balanced_def keys_outcomes ac_simps)
next
  case EnrAbandon
  then show ?thesis using assms abandon_balance(3) [of e]
    by (auto simp: balanced_def keys_outcomes ac_simps)
next
  case (StorageTick env)
  then have "in_flight e' = in_flight e"
    using assms(2) by (auto simp: in_flight_def split: option.splits prod.splits)
  then show ?thesis using assms(1) StorageTick by (simp add: balanced_def)
next
  case (SupervisorDoes s)
  then have "in_flight e' = in_flight e" using assms(2) by (auto simp: in_flight_def)
  then show ?thesis using assms(1) SupervisorDoes by (simp add: balanced_def)
next
  case LogTick
  then have "in_flight e' = in_flight e" using assms(2) by (auto simp: in_flight_def)
  then show ?thesis using assms(1) LogTick by (simp add: balanced_def)
qed (use assms in \<open>auto simp: balanced_def enrich_recv_balance send_balance cancel_balance stop_queues split: if_splits\<close>)

lemma new_engine_flight:
  "NewProcessingEngineWithOptions procs os d r mg db opts = Inr e \<Longrightarrow>
   in_flight (eng_Start e) = [] \<and> \<not> pe_cancelled (eng_Start e) \<and> pe_writes (eng_Start e) = 0 \<and>
   pe_received (eng_Start e) = 0 \<and> pe_dropped (eng_Start e) = 0 \<and>
   NewWAL os d default_wal_options = Inr (pe_wal (eng_Start e))"
  by (auto simp: NewProcessingEngineWithOptions_def eng_Start_def in_flight_def held_def Let_def
      split: if_splits sum.splits option.splits)

lemma reach_balanced: "eng_reach s \<Longrightarrow> balanced s"
proof (induction rule: eng_reach.induct)
  case (start procs r mg db opts e)
  then show ?case using new_engine_flight [OF start] by (simp add: balanced_def no_tally_def outcomes_def)
next
  case (step e g x e')
  then show ?case by (intro step_balance)
qed

section \<open>What each step does to the log\<close>

definition exited :: "ProcessingEngine \<Rightarrow> bool" where
  "exited e \<longleftrightarrow> (\<forall>w \<in> set (pe_workers e). w = Exited)"

definition log_frame :: "ProcessingEngine \<Rightarrow> ProcessingEngine \<Rightarrow> bool" where
  "log_frame e e' \<longleftrightarrow> pe_wal e' = pe_wal e \<and> pe_writes e' = pe_writes e"

lemma count_drop_log [simp]: "log_frame e (count_drop r sg e')  = log_frame e e'"
  by (simp add: log_frame_def)

lemma recv_frame: "log_frame e (decode_recv e)" "log_frame e (validate_recv e)" "log_frame e (enrich_recv now e)"
  "pe_workers (decode_recv e) = pe_workers e" "pe_workers (validate_recv e) = pe_workers e"
  "pe_workers (enrich_recv now e) = pe_workers e"
  "pe_started (decode_recv e) = pe_started e" "pe_started (validate_recv e) = pe_started e"
  "pe_started (enrich_recv now e) = pe_started e"
  by (simp_all add: decode_recv_def validate_recv_def enrich_recv_def counted_def log_frame_def count_drop_def
      split: stage.split list.split sum.split)

lemma send_frame: "log_frame e (decode_send e)" "log_frame e (validate_send e)" "log_frame e (enrich_send e)"
  "pe_workers (decode_send e) = pe_workers e" "pe_workers (validate_send e) = pe_workers e"
  "pe_workers (enrich_send e) = pe_workers e"
  "pe_started (decode_send e) = pe_started e" "pe_started (validate_send e) = pe_started e"
  "pe_started (enrich_send e) = pe_started e"
  by (simp_all add: decode_send_def validate_send_def enrich_send_def log_frame_def split: stage.split)

lemma handle_frame:
  "handle_route e sg = Some e' \<Longrightarrow> log_frame e e' \<and> pe_started e' = pe_started e"
  "handle_decide e now now2 sg = Some (e', k) \<Longrightarrow> log_frame e e' \<and> pe_started e' = pe_started e"
  by (auto simp: handle_route_def handle_decide_def log_frame_def count_drop_def
      split: prod.splits option.splits send_result.splits if_splits)

lemma store_frame: "log_frame e (handle_store env e sg)" "pe_started (handle_store env e sg) = pe_started e"
  by (auto simp: handle_store_def log_frame_def split: prod.splits option.splits)

lemma log_started: "handle_log os ts e sg = Some (e', k) \<Longrightarrow> pe_started e' = pe_started e"
  by (auto simp: handle_log_def count_drop_def split: prod.splits option.splits wal_error.splits)

lemma set_worker_frame [simp]: "log_frame e (set_worker i w e') = log_frame e e'"
  "pe_started (set_worker i w e') = pe_started e'" "pe_wal (set_worker i w e') = pe_wal e'"
  "pe_writes (set_worker i w e') = pe_writes e'" "pe_workers (set_worker i w e') = (pe_workers e')[i := w]"
  by (simp_all add: set_worker_def log_frame_def)

lemma log_frame_refl [simp]: "log_frame e e"
  by (simp add: log_frame_def)

text \<open>A worker's move leaves the log alone, or it writes the payload it holds.\<close>

lemma worker_log:
  assumes "worker_move os_ok env ts now now2 i e = Some e'" "i < length (pe_workers e)"
  shows "pe_started e' = pe_started e \<and>
    ((log_frame e e' \<and> ty_logged (work_tally ts now now2 (pe_workers e ! i) e g) = ty_logged g) \<or>
    (\<exists>sg e1 k. pe_workers e ! i = Logging sg \<and> handle_log os_ok ts e sg = Some (e1, k) \<and>
       pe_wal e' = pe_wal e1 \<and> pe_writes e' = pe_writes e1 \<and>
       ty_logged (work_tally ts now now2 (pe_workers e ! i) e g) = ty_logged g @ (if k then [(ts, sg)] else [])))"
proof (cases "pe_workers e ! i")
  case Idle
  then show ?thesis using assms by (auto simp: worker_move_def log_frame_def split: list.splits if_splits)
next
  case (Routing sg)
  then show ?thesis using assms(1) handle_frame(1) [of e sg] by (auto simp: worker_move_def)
next
  case (Deciding sg)
  then obtain e1 k where h: "handle_decide e now now2 sg = Some (e1, k)"
      "e' = set_worker i (if k then Logging sg else Idle) e1"
    using assms(1) by (auto simp: worker_move_def)
  then show ?thesis using handle_frame(2) [OF h(1)] Deciding by (cases k) simp_all
next
  case (Logging sg)
  then obtain e1 k where h: "handle_log os_ok ts e sg = Some (e1, k)"
      "e' = set_worker i (if k then Storing sg else Idle) e1"
    using assms(1) by (auto simp: worker_move_def)
  then show ?thesis using log_started [OF h(1)] Logging by (cases k) auto
next
  case (Storing sg)
  then show ?thesis using assms(1) store_frame(1) [of e env sg] store_frame(2) [of env e sg] by (auto simp: worker_move_def)
next
  case Exited
  then show ?thesis using assms(1) by (auto simp: worker_move_def)
qed

lemma worker_exited:
  assumes "worker_move os_ok env ts now now2 i e = Some e'" "i < length (pe_workers e)" "exited e"
  shows "e' = e"
proof -
  have "pe_workers e ! i = Exited" using assms(2,3) by (simp add: exited_def)
  then show ?thesis using assms(1) by (simp add: worker_move_def)
qed

lemma exited_set: "exited e \<Longrightarrow> pe_workers e' = (pe_workers e)[i := Exited] \<Longrightarrow> exited e'"
  by (auto simp: exited_def dest: set_update_subset_insert [THEN subsetD])

section \<open>The log behind the engine\<close>

definition engine_max :: nat where
  "engine_max = nat (wo_max_bytes (wal_defaults default_wal_options))"

lemma engine_max: "engine_max < 2 ^ 32"
  by (simp add: engine_max_def default_wal_options_def wal_defaults_def max_segment_size_def)

definition entries :: "tally \<Rightarrow> entry list" where
  "entries g = map (\<lambda>(ts, sg). (ts, sig_payload sg)) (ty_logged g)"

definition log_ok :: "ProcessingEngine \<Rightarrow> tally \<Rightarrow> bool" where
  "log_ok e g \<longleftrightarrow> pe_started e \<and>
     (\<exists>segs. disk_inv engine_max (w_dir (pe_wal e)) segs \<and> (w_closed (pe_wal e) \<and> exited e \<or> wal_inv (pe_wal e) segs)
        \<and> w_max (pe_wal e) = engine_max \<and> log_of segs = entries g \<and> w_segid (pe_wal e) \<le> Suc (length (ty_logged g)))"

lemma log_ok_frame:
  assumes "log_ok e g" "log_frame e e'" "ty_logged g' = ty_logged g" "pe_started e' = pe_started e"
    "exited e \<Longrightarrow> exited e'"
  shows "log_ok e' g'"
  using assms by (fastforce simp: log_ok_def log_frame_def entries_def)

lemma wal_disk: "wal_inv w segs \<Longrightarrow> disk_inv (w_max w) (w_dir w) segs"
  by (simp add: wal_inv_def)

lemma log_ok_write:
  assumes "log_ok e g" "\<not> exited e" "handle_log os_ok ts e sg = Some (e1, k)" "sig_payload sg \<noteq> []"
    "Suc (Suc (length (ty_logged g))) < 10 ^ 16" "ty_logged g' = ty_logged g @ (if k then [(ts, sg)] else [])"
    "pe_wal e' = pe_wal e1" "pe_started e'"
  shows "log_ok e' g' \<and> (\<not> k \<longrightarrow> engine_max < header_size + length (sig_payload sg))"
proof -
  obtain segs where inv: "wal_inv (pe_wal e) segs" "w_max (pe_wal e) = engine_max" "log_of segs = entries g"
      "w_segid (pe_wal e) \<le> Suc (length (ty_logged g))"
    using assms(1,2) by (auto simp: log_ok_def)
  have room: "Suc (w_segid (pe_wal e)) < 10 ^ 16" using inv(4) assms(5) by simp
  show ?thesis
  proof (cases "header_size + length (sig_payload sg) \<le> engine_max")
    case True
    then obtain w' segs' where w: "wal_Write os_ok ts (sig_payload sg) (pe_wal e) = (w', None)" "wal_inv w' segs'"
        "log_of segs' = log_of segs @ [(ts, sig_payload sg)]" "w_max w' = engine_max" "w_segid w' \<le> Suc (w_segid (pe_wal e))"
      using write_inv [OF inv(1) assms(4) _ room, of ts] inv(2) by auto
    then have e1: "k" "pe_wal e1 = w'" using assms(3) by (auto simp: handle_log_def)
    have "disk_inv engine_max (w_dir w') segs'" using wal_disk [OF w(2)] w(4) by simp
    moreover have "log_of segs' = entries g'" "w_segid w' \<le> Suc (length (ty_logged g'))"
      using w(3,5) inv(3,4) e1 assms(6) by (auto simp: entries_def)
    ultimately show ?thesis using w e1 assms(7,8) unfolding log_ok_def by auto
  next
    case False
    then have "wal_Write os_ok ts (sig_payload sg) (pe_wal e) = (pe_wal e, Some WPayloadTooLarge)"
      using inv(1,2) by (simp add: wal_Write_def write_check_def wal_inv_def)
    then have e1: "\<not> k" "pe_wal e1 = pe_wal e" using assms(3) by (auto simp: handle_log_def)
    have "disk_inv engine_max (w_dir (pe_wal e)) segs" using wal_disk [OF inv(1)] inv(2) by simp
    then show ?thesis using False inv e1 assms(6,7,8) unfolding log_ok_def by (auto simp: entries_def)
  qed
qed

lemma log_ok_sync:
  assumes "log_ok e g" "pe_wal e' = fst (syncLocked os (pe_wal e))" "pe_started e' = pe_started e"
    "exited e \<Longrightarrow> exited e'" "ty_logged g' = ty_logged g"
  shows "log_ok e' g'"
proof -
  have same: "w_dir (pe_wal e') = w_dir (pe_wal e)" "w_segid (pe_wal e') = w_segid (pe_wal e)"
      "w_closed (pe_wal e') = w_closed (pe_wal e)" "w_max (pe_wal e') = w_max (pe_wal e)"
    by (simp_all add: assms(2) syncLocked_def w_max_def)
  show ?thesis using assms sync_inv [of "pe_wal e" _ os] unfolding log_ok_def same entries_def by auto
qed

lemma close_same: "w_dir (fst (wal_Close os w)) = w_dir w" "w_segid (fst (wal_Close os w)) = w_segid w"
  "w_max (fst (wal_Close os w)) = w_max w" "w_closed (fst (wal_Close os w))"
  by (auto simp: wal_Close_def andThen_def syncLocked_def unmapLocked_def w_max_def)

lemma log_ok_close:
  assumes "log_ok e g" "pe_wal e' = fst (wal_Close os (pe_wal e))" "pe_started e' = pe_started e"
    "exited e'" "ty_logged g' = ty_logged g"
  shows "log_ok e' g'"
  using assms close_same [of os "pe_wal e"] unfolding log_ok_def entries_def by auto

lemma stop_finish_frame: "pe_wal (stop_finish os env e) = fst (wal_Close os (pe_wal e))"
  "pe_started (stop_finish os env e) = pe_started e" "pe_workers (stop_finish os env e) = pe_workers e"
  by (auto simp: stop_finish_def Let_def split: option.split prod.split)

lemma logging_in_flight:
  assumes "i < length (pe_workers e)" "pe_workers e ! i = Logging sg"
  shows "sg \<in> set (in_flight e) \<and> \<not> exited e"
proof -
  have "Logging sg \<in> set (pe_workers e)" using assms nth_mem by fastforce
  then show ?thesis by (force simp: in_flight_def exited_def)
qed

lemma step_log:
  assumes "log_ok e g" "eng_do x e = Some e'" "\<forall>sg \<in> set (in_flight e). sig_payload sg \<noteq> []"
    "Suc (Suc (length (ty_logged g))) < 10 ^ 16"
  shows "log_ok e' (tally_of x e g)"
proof (cases x)
  case (Work i env ts now now2)
  show ?thesis
  proof (cases "i < length (pe_workers e)")
    case True
    then have mv: "worker_move os_ok env ts now now2 i e = Some e'" using assms(2) Work by simp
    show ?thesis
      using worker_log [OF mv True, of g]
    proof (elim conjE disjE exE)
      assume "pe_started e' = pe_started e" "log_frame e e'"
        "ty_logged (work_tally ts now now2 (pe_workers e ! i) e g) = ty_logged g"
      then show ?thesis
        using log_ok_frame [OF assms(1), of e' "tally_of x e g"] worker_exited [OF mv True] True Work by auto
    next
      fix sg e1 k
      assume l: "pe_started e' = pe_started e" "pe_workers e ! i = Logging sg" "handle_log os_ok ts e sg = Some (e1, k)"
        "pe_wal e' = pe_wal e1"
        "ty_logged (work_tally ts now now2 (pe_workers e ! i) e g) = ty_logged g @ (if k then [(ts, sg)] else [])"
      have "sig_payload sg \<noteq> []" "\<not> exited e" using logging_in_flight [OF True l(2)] assms(3) by auto
      moreover have "pe_started e'" using l(1) assms(1) by (simp add: log_ok_def)
      ultimately show ?thesis
        using log_ok_write [OF assms(1) _ l(3) _ assms(4) _ l(4), of "tally_of x e g"] l(5) True Work by simp
    qed
  qed (use assms Work in simp)
next
  case (Submit sg)
  then have "e' = fst (ProcessSignal e sg)" using assms(2) by (auto split: prod.splits submit.splits)
  then show ?thesis
    by (intro log_ok_frame [OF assms(1)])
      (auto simp: Submit ProcessSignal_def Let_def log_frame_def exited_def count_drop_def)
next
  case (StorageTick env)
  then show ?thesis using assms(2)
    by (intro log_ok_frame [OF assms(1)]) (auto simp: log_frame_def exited_def split: option.splits prod.splits)
next
  case (WorkCancel i)
  then show ?thesis using assms(2)
    by (intro log_ok_frame [OF assms(1)]) (auto simp: worker_cancel_def intro: exited_set split: if_splits)
next
  case LogTick
  then show ?thesis using assms(2)
    by (intro log_ok_sync [OF assms(1)]) (auto simp: group_commit_tick_def exited_def)
next
  case StopBegin
  have "pe_started e" using assms(1) by (simp add: log_ok_def)
  with StopBegin show ?thesis using assms(2)
    by (intro log_ok_frame [OF assms(1)]) (auto simp: stop_begin_def log_frame_def exited_def split: if_splits)
next
  case (StopFinish env)
  show ?thesis
  proof (cases "pe_stopping e \<and> exited e")
    case True
    then have "e' = stop_finish os_ok env e" using assms(2) StopFinish by (simp add: exited_def)
    then show ?thesis using True StopFinish
      by (intro log_ok_close [OF assms(1)]) (auto simp: stop_finish_frame exited_def)
  next
    case False
    then have "e' = e" using assms(2) StopFinish unfolding exited_def by auto
    then show ?thesis using assms(1) StopFinish by simp
  qed
next
  case DecRecv
  then show ?thesis using assms(2)
    by (intro log_ok_frame [OF assms(1)]) (auto simp: recv_frame exited_def)
next
  case ValRecv
  then show ?thesis using assms(2)
    by (intro log_ok_frame [OF assms(1)]) (auto simp: recv_frame exited_def)
next
  case (EnrRecv now)
  then show ?thesis using assms(2)
    by (intro log_ok_frame [OF assms(1)]) (auto simp: recv_frame exited_def)
next
  case DecSend
  then show ?thesis using assms(2)
    by (intro log_ok_frame [OF assms(1)]) (auto simp: send_frame exited_def)
next
  case ValSend
  then show ?thesis using assms(2)
    by (intro log_ok_frame [OF assms(1)]) (auto simp: send_frame exited_def)
next
  case EnrSend
  then show ?thesis using assms(2)
    by (intro log_ok_frame [OF assms(1)]) (auto simp: send_frame exited_def)
qed (use assms(2) in \<open>(intro log_ok_frame [OF assms(1)]; auto simp: exited_def log_frame_def ctx_cancel_def)+\<close>)

lemma tally_mono: "set (ty_accepted g) \<subseteq> set (ty_accepted (tally_of x e g))"
  "length (ty_logged g) \<le> length (ty_logged (tally_of x e g))"
proof -
  have w: "length (ty_logged g) \<le> length (ty_logged (work_tally ts now now2 w e g))" for ts now now2 w
    by (cases w) (auto split: option.split bool.split)
  show "set (ty_accepted g) \<subseteq> set (ty_accepted (tally_of x e g))"
    by (cases x) (auto simp: work_accepted)
  show "length (ty_logged g) \<le> length (ty_logged (tally_of x e g))"
    using w by (cases x) auto
qed

lemma balanced_payloads:
  assumes "balanced (e, g)" "\<forall>sg \<in> set (ty_accepted g). sig_payload sg \<noteq> []" "sg \<in> set (in_flight e)"
  shows "sig_payload sg \<noteq> []"
proof -
  have "key sg \<in># keys (ty_accepted g)" using assms(1,3) by (auto simp: balanced_def keys_def)
  then obtain sg' where "sg' \<in> set (ty_accepted g)" "key sg' = key sg" by (auto simp: keys_def)
  then show ?thesis using assms(2) by (auto simp: key_def)
qed

lemma reach_log:
  assumes "eng_reach s" "\<forall>sg \<in> set (ty_accepted (snd s)). sig_payload sg \<noteq> []"
    "Suc (Suc (length (ty_logged (snd s)))) < 10 ^ 16"
  shows "log_ok (fst s) (snd s)"
  using assms
proof (induction rule: eng_reach.induct)
  case (start procs r mg db opts e)
  obtain w segs where w: "NewWAL os_ok [] default_wal_options = Inr w" "wal_inv w segs" "log_of segs = []"
      "w_max w = engine_max" "w_segid w = 1"
    using new_inv [of default_wal_options] engine_max unfolding engine_max_def by auto
  then have "pe_wal (eng_Start e) = w" using new_engine_flight [OF start(1)] by simp
  moreover have "pe_started (eng_Start e)" by (simp add: eng_Start_def)
  ultimately show ?case using w wal_disk [OF w(2)] by (auto simp: log_ok_def entries_def no_tally_def)
next
  case (step e g x e')
  have pl: "\<forall>sg \<in> set (ty_accepted g). sig_payload sg \<noteq> []" and n: "Suc (Suc (length (ty_logged g))) < 10 ^ 16"
    using step.prems tally_mono [of g x e] by auto
  have "log_ok e g" using step.IH pl n by simp
  moreover have "balanced (e, g)" using reach_balanced [OF step.hyps(1)] .
  ultimately show ?case
    using step_log [OF _ step.hyps(2)] balanced_payloads [of e g] pl n by simp
qed

section \<open>Reasons\<close>

fun legit :: "signal \<times> drop_reason \<Rightarrow> bool" where
  "legit (sg, BadPayload) = (sig_payload sg \<noteq> [] \<and> \<not> json_valid (text_of (sig_payload sg)))"
| "legit (sg, NoTenant) = (sig_tenant sg = [])"
| "legit (sg, SampledOut) = (sig_type sg = Trace \<and> attr (sig_attrs sg) ''severity'' \<noteq> ''ERROR'' \<and> \<not> slow sg)"
| "legit (sg, WalError) = True"
| "legit (sg, _) = False"

lemma legit_drop_of:
  "x \<in> set (drop_of st inp DecodeStage) \<Longrightarrow> legit x" "x \<in> set (drop_of st inp ValidateStage) \<Longrightarrow> legit x"
  by (auto simp: drop_of_def DecodeStage_def ValidateStage_def split: stage.splits list.splits if_splits)

lemma decide_legit:
  assumes "handle_decide e now now2 sg = Some (e', False)"
  shows "legit (sg, SampledOut)"
proof -
  obtain s' v where d: "Decide (pe_sampler e) now now2 sg = Some (s', v)" "v \<noteq> Keep"
    using assms by (auto simp: handle_decide_def shouldPersist_def split: option.splits if_splits)
  then have "v = Drop" by (cases v) auto
  then show ?thesis using drop_conditions [of "pe_sampler e" now now2 sg s'] d(1) by simp
qed

lemma work_legit: "list_all legit (ty_dropped g) \<Longrightarrow> list_all legit (ty_dropped (work_tally ts now now2 w e g))"
  by (cases w) (auto split: option.split bool.split dest: decide_legit)

lemma work_lost: "ty_lost (work_tally ts now now2 w e g) = ty_lost g"
  by (cases w) (auto split: option.split bool.split)

definition counters_ok :: "ProcessingEngine \<times> tally \<Rightarrow> bool" where
  "counters_ok s \<longleftrightarrow> pe_writes (fst s) = wrap64 (int (length (ty_logged (snd s)))) \<and>
     pe_received (fst s) = wrap64 (int (length (ty_accepted (snd s))) + pe_dropped (fst s))"

definition tidy :: "ProcessingEngine \<times> tally \<Rightarrow> bool" where
  "tidy s \<longleftrightarrow> list_all legit (ty_dropped (snd s)) \<and> (ty_lost (snd s) \<noteq> [] \<longrightarrow> pe_cancelled (fst s))"

definition counts :: "ProcessingEngine \<Rightarrow> int \<times> int \<times> int \<times> bool" where
  "counts e = (pe_writes e, pe_received e, pe_dropped e, pe_cancelled e)"

lemma counts_frames:
  "counts (decode_recv e) = counts e" "counts (validate_recv e) = counts e" "counts (enrich_recv now e) = counts e"
  "counts (decode_send e) = counts e" "counts (validate_send e) = counts e" "counts (enrich_send e) = counts e"
  "counts (handle_store env e sg) = counts e" "counts (set_worker i w e) = counts e" "counts (worker_cancel i e) = counts e"
  "counts (stop_finish os env e) = counts e"
  by (simp_all add: counts_def decode_recv_def validate_recv_def enrich_recv_def counted_def decode_send_def
      validate_send_def enrich_send_def handle_store_def set_worker_def worker_cancel_def stop_finish_def Let_def
      split: stage.split list.split sum.split option.split prod.split)

lemma handle_counts:
  "handle_route e sg = Some e' \<Longrightarrow> counts e' = counts e"
  "handle_decide e now now2 sg = Some (e', k) \<Longrightarrow> counts e' = counts e"
  "handle_log os ts e sg = Some (e', k) \<Longrightarrow>
     counts e' = counts (if k then e\<lparr>pe_writes := wrap64 (pe_writes e + 1)\<rparr> else e)"
  by (auto simp: counts_def handle_route_def handle_decide_def handle_log_def
      split: prod.splits option.splits send_result.splits wal_error.splits if_splits)

lemma worker_counts:
  assumes "worker_move os_ok env ts now now2 i e = Some e'"
  shows "\<exists>k. counts e' = counts (if k then e\<lparr>pe_writes := wrap64 (pe_writes e + 1)\<rparr> else e) \<and>
    length (ty_logged (work_tally ts now now2 (pe_workers e ! i) e g)) = length (ty_logged g) + (if k then 1 else 0)"
proof (cases "pe_workers e ! i")
  case (Logging sg)
  then obtain e1 k where h: "handle_log os_ok ts e sg = Some (e1, k)" "counts e' = counts e1"
    using assms(1) by (auto simp: worker_move_def counts_frames)
  then show ?thesis using handle_counts(3) [OF h(1)] Logging by (intro exI [of _ k]) (cases k; simp)
next
  case (Deciding sg)
  then obtain e1 k where h: "handle_decide e now now2 sg = Some (e1, k)" "counts e' = counts e1"
    using assms(1) by (auto simp: worker_move_def counts_frames)
  then show ?thesis using handle_counts(2) [OF h(1)] Deciding by (intro exI [of _ False]) (cases k; simp)
next
  case (Routing sg)
  then show ?thesis using assms handle_counts(1) [of e sg]
    by (intro exI [of _ False]) (auto simp: worker_move_def counts_frames)
next
  case Idle
  then have "counts e' = counts e"
    using assms by (auto simp: worker_move_def counts_frames split: list.splits if_splits) (simp add: counts_def)
  then show ?thesis using Idle by (intro exI [of _ False]) simp
next
  case (Storing sg)
  then show ?thesis using assms by (intro exI [of _ False]) (auto simp: worker_move_def counts_frames)
next
  case Exited
  then show ?thesis using assms by (intro exI [of _ False]) (auto simp: worker_move_def)
qed

lemma step_tidy:
  assumes "tidy (e, g)" "eng_do x e = Some e'"
  shows "tidy (e', tally_of x e g)"
proof -
  have c: "pe_cancelled e \<Longrightarrow> pe_cancelled e'"
  proof (cases x)
    case (Work i env ts now now2)
    then show "pe_cancelled e \<Longrightarrow> pe_cancelled e'" using assms(2) worker_counts [of env ts now now2 i e e' g]
      by (cases "i < length (pe_workers e)") (auto simp: counts_def split: if_splits)
  next
    case (Submit sg)
    then show "pe_cancelled e \<Longrightarrow> pe_cancelled e'"
      using assms(2) by (auto simp: ProcessSignal_def Let_def split: if_splits)
  qed (use assms(2) counts_frames in \<open>auto simp: counts_def ctx_cancel_def stop_begin_def
      split: option.splits prod.splits if_splits\<close>)
  have lost: "lost_of c st = (if c then held st else [])" for c st
    by (simp add: lost_of_def held_def split: stage.split)
  show ?thesis
    using assms(1) c work_legit [of g]
    by (cases x) (auto simp: tidy_def lost work_lost legit_drop_of list_all_iff)
qed

lemma step_counters:
  assumes "counters_ok (e, g)" "eng_do x e = Some e'"
  shows "counters_ok (e', tally_of x e g)"
proof -
  have keep: "counters_ok (e', g')" if "eng_Stats e' = eng_Stats e" "length (ty_logged g') = length (ty_logged g)"
      "ty_accepted g' = ty_accepted g" for g'
    using assms(1) that by (simp add: counters_ok_def eng_Stats_def)
  show ?thesis
  proof (cases x)
    case (Work i env ts now now2)
    show ?thesis
    proof (cases "i < length (pe_workers e)")
      case True
      then have mv: "worker_move os_ok env ts now now2 i e = Some e'" using assms(2) Work by simp
      obtain k where k: "counts e' = counts (if k then e\<lparr>pe_writes := wrap64 (pe_writes e + 1)\<rparr> else e)"
        "length (ty_logged (tally_of x e g)) = length (ty_logged g) + (if k then 1 else 0)"
        using worker_counts [OF mv, of g] True Work by auto
      then show ?thesis using assms(1) Work True
        by (cases k) (simp_all add: counters_ok_def counts_def work_accepted wrap64_add_left wrap64_add_right ac_simps)
    qed (use assms Work in simp)
  next
    case (Submit sg)
    then show ?thesis using assms
      by (auto simp: counters_ok_def ProcessSignal_def Let_def count_drop_def split: if_splits)
        (simp_all add: wrap64_add_left wrap64_add_right ac_simps)
  qed (use assms(2) counts_frames in \<open>(intro keep; auto simp: eng_Stats_def counts_def ctx_cancel_def stop_begin_def
      split: option.splits prod.splits if_splits)+\<close>)
qed

lemma reach_facts: "eng_reach s \<Longrightarrow> tidy s \<and> counters_ok s"
proof (induction rule: eng_reach.induct)
  case (start procs r mg db opts e)
  then show ?case using new_engine_flight [OF start] by (simp add: tidy_def counters_ok_def no_tally_def)
next
  case (step e g x e')
  then show ?case using step_tidy step_counters by blast
qed

text \<open>
  C3. Nothing disappears: in every run of the engine, under every interleaving of its goroutines, the
  accepted signals are exactly the ones still in its queues, stages and workers, the logged ones, the
  dropped ones and those a cancelled stage let go (up to the attributes enrichment adds). A signal is
  dropped only for a reason that holds of it: a payload that is not JSON, a missing tenant, a trace that
  is no error and not slow, or an error of the log; signals are let go only after cancellation; and the
  counters count the accepted, refused and logged signals.
\<close>

theorem engine_accounts:
  assumes "eng_reach (e, g)"
  shows "keys (ty_accepted g) = keys (in_flight e) + keys (map snd (ty_logged g)) + keys (map fst (ty_dropped g)) +
      keys (ty_lost g) \<and>
    list_all legit (ty_dropped g) \<and> (ty_lost g = [] \<or> pe_cancelled e) \<and>
    eng_Stats e = (wrap64 (int (length (ty_accepted g)) + pe_dropped e), pe_dropped e, wrap64 (int (length (ty_logged g))))"
  using reach_balanced [OF assms] reach_facts [OF assms]
  by (auto simp: balanced_def keys_outcomes tidy_def counters_ok_def eng_Stats_def)


section \<open>A run\<close>

fun eng_run :: "eng_op list \<Rightarrow> ProcessingEngine \<times> tally \<Rightarrow> (ProcessingEngine \<times> tally) option" where
  "eng_run [] s = Some s"
| "eng_run (x # xs) (e, g) = (case eng_do x e of None \<Rightarrow> None | Some e' \<Rightarrow> eng_run xs (e', tally_of x e g))"

lemma eng_run_reach: "eng_reach s \<Longrightarrow> eng_run xs s = Some s' \<Longrightarrow> eng_reach s'"
proof (induction xs s rule: eng_run.induct)
  case (2 x xs e g)
  then show ?case by (cases "eng_do x e") (auto intro: eng_reach.step)
qed simp

definition demo_engine_opts :: engine_options where
  "demo_engine_opts = \<lparr>eo_wal_path = ''w'', eo_rate = Fin 0, eo_max = 0, eo_buffer = 4, eo_workers = 1,
     eo_clickhouse = None, eo_spillover = False\<rparr>"

definition demo_signal :: "byte list \<Rightarrow> signal" where
  "demo_signal p = \<lparr>sig_tenant = ''acme'', sig_type = Log, sig_payload = p, sig_attrs = Map.empty, sig_received = 0\<rparr>"

definition demo_flush :: flush_env where
  "demo_flush = (\<lambda>_. None, 0, \<lparr>oc_admitted = True, oc_metrics = True, oc_logs = True, oc_traces = True\<rparr>)"

definition demo_script :: "eng_op list" where
  "demo_script = [Submit (demo_signal [104, 105]), Submit (demo_signal [55]), DecRecv, DecRecv, DecSend,
     ValRecv, ValSend, EnrRecv 0, EnrSend,
     Work 0 demo_flush 1 0 0, Work 0 demo_flush 1 0 0, Work 0 demo_flush 1 0 0]"

lemma demo_json: "json_valid (text_of [55])" "\<not> json_valid (text_of [104, 105])"
  by code_simp+

lemma demo_new:
  obtains w segs e where "NewProcessingEngineWithOptions 1 os_ok [] True True db demo_engine_opts = Inr e"
    "NewWAL os_ok [] default_wal_options = Inr w" "wal_inv w segs" "w_max w = engine_max" "w_segid w = 1"
    "pe_wal e = w" "pe_ingest e = []" "pe_closed e = False" "pe_decode e = StIdle" "pe_validate e = StIdle"
    "pe_enrich e = StIdle" "pe_decoded e = []" "pe_validated e = []" "pe_enriched e = []" "pe_started e = False"
    "eo_buffer (pe_opts e) = 4" "eo_workers (pe_opts e) = 1"
    "pe_sup e = NewSupervisorWithOptions (default_sup_options False)"
proof -
  obtain w segs where w: "NewWAL os_ok [] default_wal_options = Inr w" "wal_inv w segs" "w_max w = engine_max" "w_segid w = 1"
    using new_inv [of default_wal_options] engine_max unfolding engine_max_def by auto
  then have "\<exists>e. NewProcessingEngineWithOptions 1 os_ok [] True True db demo_engine_opts = Inr e \<and>
    pe_wal e = w \<and> pe_ingest e = [] \<and> pe_closed e = False \<and> pe_decode e = StIdle \<and> pe_validate e = StIdle \<and>
    pe_enrich e = StIdle \<and> pe_decoded e = [] \<and> pe_validated e = [] \<and> pe_enriched e = [] \<and> pe_started e = False \<and>
    eo_buffer (pe_opts e) = 4 \<and> eo_workers (pe_opts e) = 1 \<and> pe_sup e = NewSupervisorWithOptions (default_sup_options False)"
    by (simp add: NewProcessingEngineWithOptions_def demo_engine_opts_def engine_defaults_def Let_def)
  with w that show ?thesis by blast
qed

lemma demo_decode: "DecodeStage (demo_signal [104, 105]) = Inl BadPayload"
  "DecodeStage (demo_signal [55]) = Inr (demo_signal [55])" "ValidateStage (demo_signal [55]) = Inr (demo_signal [55])"
  by (simp_all add: DecodeStage_def ValidateStage_def demo_json) (simp_all add: demo_signal_def demo_json)

definition demo_enriched :: signal where
  "demo_enriched = (demo_signal [55])\<lparr>sig_attrs := Map.empty(''observex.version'' \<mapsto> ''1.0.0'',
     ''observex.ingested_at'' \<mapsto> rfc3339nano 0)\<rparr>"

lemma demo_enrich: "EnrichStage 0 (demo_signal [55]) = Inr demo_enriched"
  by (simp add: EnrichStage_def demo_enriched_def demo_signal_def)

lemma demo_route:
  "\<exists>s. handle_route (e\<lparr>pe_sup := sup_Start (NewSupervisorWithOptions (default_sup_options False))\<rparr>) demo_enriched =
     Some (e\<lparr>pe_sup := s\<rparr>)"
  by (simp add: handle_route_def GetOrCreateActor_def getOrCreate_def sup_Start_def NewSupervisorWithOptions_def
      new_actor_of_def try_send_def default_sup_options_def sup_defaults_def) (rule exI, rule refl)

lemma demo_logging:
  obtains w segs e g where "eng_reach (e, g)" "wal_inv w segs" "w_max w = engine_max" "w_segid w = 1" "pe_wal e = w"
    "pe_workers e = [Logging demo_enriched]" "ty_accepted g = [demo_signal [104, 105], demo_signal [55]]"
    "ty_dropped g = [(demo_signal [104, 105], BadPayload)]" "ty_logged g = []"
proof -
  obtain w segs e0 where e0: "NewProcessingEngineWithOptions 1 os_ok [] True True
        \<lparr>ch_metrics = [], ch_logs = [], ch_traces = [], ch_batches = []\<rparr> demo_engine_opts = Inr e0"
    "NewWAL os_ok [] default_wal_options = Inr w" "wal_inv w segs" "w_max w = engine_max" "w_segid w = 1"
    "pe_wal e0 = w" "pe_ingest e0 = []" "pe_closed e0 = False" "pe_decode e0 = StIdle" "pe_validate e0 = StIdle"
    "pe_enrich e0 = StIdle" "pe_decoded e0 = []" "pe_validated e0 = []" "pe_enriched e0 = []" "pe_started e0 = False"
    "eo_buffer (pe_opts e0) = 4" "eo_workers (pe_opts e0) = 1"
    "pe_sup e0 = NewSupervisorWithOptions (default_sup_options False)"
    by (rule demo_new [of "\<lparr>ch_metrics = [], ch_logs = [], ch_traces = [], ch_batches = []\<rparr>"])
  define s0 where "s0 = sup_Start (NewSupervisorWithOptions (default_sup_options False))"
  obtain f where f: "\<And>e. handle_route (e\<lparr>pe_sup := s0\<rparr>) demo_enriched = Some (e\<lparr>pe_sup := f e\<rparr>)"
    using demo_route unfolding s0_def by metis
  have s0: "eng_Start e0 = e0\<lparr>pe_workers := [Idle], pe_started := True, pe_sup := s0\<rparr>"
    by (simp add: eng_Start_def e0 s0_def numeral_eq_Suc)
  have route: "handle_route e demo_enriched = Some (e\<lparr>pe_sup := f e\<rparr>)" if "pe_sup e = s0" for e
  proof -
    have "e\<lparr>pe_sup := s0\<rparr> = e" using that by (cases e) simp
    then show ?thesis using f [of e] by simp
  qed
  have ty: "sig_type demo_enriched = Log" by (simp add: demo_enriched_def demo_signal_def)
  have "\<exists>e g. eng_run demo_script (eng_Start e0, no_tally) = Some (e, g) \<and> pe_wal e = w \<and>
    pe_workers e = [Logging demo_enriched] \<and> ty_accepted g = [demo_signal [104, 105], demo_signal [55]] \<and>
    ty_dropped g = [(demo_signal [104, 105], BadPayload)] \<and> ty_logged g = []"
    unfolding demo_script_def s0
    by (simp add: e0 ProcessSignal_def no_tally_def decode_recv_def counted_def stage_got_def drop_of_def demo_decode
        count_drop_def decode_send_def stage_capacity_def validate_recv_def validate_send_def enrich_recv_def
        demo_enrich enrich_send_def worker_move_def set_worker_def route handle_decide_def shouldPersist_def ty)
  with e0(3-5) that eng_run_reach [OF eng_reach.start [OF e0(1)]] show ?thesis by blast
qed

lemma demo_logged:
  obtains e g where "eng_reach (e, g)" "ty_logged g = [(1, demo_enriched)]"
    "ty_accepted g = [demo_signal [104, 105], demo_signal [55]]" "ty_dropped g = [(demo_signal [104, 105], BadPayload)]"
proof -
  obtain w segs e g where r: "eng_reach (e, g)" "wal_inv w segs" "w_max w = engine_max" "w_segid w = 1" "pe_wal e = w"
    "pe_workers e = [Logging demo_enriched]" "ty_accepted g = [demo_signal [104, 105], demo_signal [55]]"
    "ty_dropped g = [(demo_signal [104, 105], BadPayload)]" "ty_logged g = []"
    by (rule demo_logging)
  have pl: "sig_payload demo_enriched = [55]" by (simp add: demo_enriched_def demo_signal_def)
  have "header_size + length ([55] :: byte list) \<le> w_max w"
    by (simp add: r(3) engine_max_def default_wal_options_def wal_defaults_def max_segment_size_def header_size_def)
  then obtain w' where w': "wal_Write os_ok 1 [55] w = (w', None)"
    using write_inv [OF r(2), of "[55]" 1] r(4) by auto
  then have "handle_log os_ok 1 e demo_enriched = Some (e\<lparr>pe_wal := w', pe_writes := wrap64 (pe_writes e + 1)\<rparr>, True)"
    by (simp add: handle_log_def r(5) pl)
  then show ?thesis
    using eng_reach.step [OF r(1), of "Work 0 demo_flush 1 0 0"] r(6-9) that
    by (auto simp: worker_move_def)
qed

theorem engine_accounts_witness:
  "\<exists>e g. eng_reach (e, g) \<and> keys (in_flight e) + keys (ty_lost g) = {#} \<and> legit (demo_signal [104, 105], BadPayload)"
proof -
  obtain e g where r: "eng_reach (e, g)" "ty_logged g = [(1, demo_enriched)]"
    "ty_accepted g = [demo_signal [104, 105], demo_signal [55]]" "ty_dropped g = [(demo_signal [104, 105], BadPayload)]"
    by (rule demo_logged)
  have "key demo_enriched = key (demo_signal [55])" by (simp add: demo_enriched_def key_def)
  then show ?thesis using engine_accounts [OF r(1)] r by auto
qed


end
