(* ===== verification/Otlp.thy ===== *)
theory Otlp
  imports GoFmt Signals
begin

text \<open>
  The OTLP decoder of the ingest gateway (\<open>internal/otlp/decoder.go\<close>). The protobuf messages are the
  records and datatypes below, with the fields the decoder reads (an absent message is \<open>None\<close>, and
  \<open>NilValue\<close> for an attribute value); the protobuf parser itself is third-party code and a
  parameter: \<open>parse\<close> for the wrapped request, \<open>parse_alt\<close> for the single resource message.
  Attribute maps are the maps of the internal signal.
\<close>

section \<open>Messages\<close>

datatype any_value =
    NilValue
  | StringValue string
  | BoolValue bool
  | IntValue int
  | DoubleValue f64
  | BytesValue "byte list"
  | ArrayValue "any_value list"
  | OtherValue

type_synonym key_value = "(string \<times> any_value) option"

record span =
  sp_trace_id :: "byte list"
  sp_span_id :: "byte list"
  sp_parent :: "byte list"
  sp_name :: string
  sp_kind :: string
  sp_start :: nat
  sp_end :: nat
  sp_status :: "(bool \<times> string) option"
  sp_attrs :: "key_value list"

record number_point =
  np_attrs :: "key_value list"
  np_value :: "(f64 + int) option"
  np_time :: nat

record histogram_point =
  hp_attrs :: "key_value list"
  hp_count :: nat
  hp_sum :: f64
  hp_time :: nat

datatype metric_data =
    Gauge "number_point list"
  | Sum "number_point list" string
  | Histogram "histogram_point list"
  | ExpHistogram "histogram_point list"
  | Summary "histogram_point list"
  | NoData

record otlp_metric =
  om_name :: string
  om_unit :: string
  om_description :: string
  om_data :: metric_data

record log_record =
  lr_severity_text :: string
  lr_severity_number :: int
  lr_trace_id :: "byte list"
  lr_span_id :: "byte list"
  lr_body :: any_value
  lr_time :: nat
  lr_attrs :: "key_value list"

text \<open>A resource with its attributes (\<open>None\<close> for no resource) and its scopes, named by strings.\<close>

record 'a resource_group =
  rg_resource :: "key_value list option"
  rg_scopes :: "(string \<times> 'a list) list"

section \<open>Attributes\<close>

type_synonym attrs = "string \<rightharpoonup> string"

definition hex_of :: "byte list \<Rightarrow> string" where
  "hex_of bs = hex_encode (map unat bs)"

fun anyValueString :: "any_value \<Rightarrow> string" where
  "anyValueString NilValue = []"
| "anyValueString (StringValue s) = s"
| "anyValueString (BoolValue b) = (if b then ''true'' else ''false'')"
| "anyValueString (IntValue i) = show_int i"
| "anyValueString (DoubleValue x) = fmt_shortest x"
| "anyValueString (BytesValue bs) = hex_of bs"
| "anyValueString (ArrayValue vs) = ''['' @ join '','' (map anyValueString vs) @ '']''"
| "anyValueString OtherValue = []"

definition kvToMap :: "key_value list \<Rightarrow> attrs" where
  "kvToMap kvs =
     foldl (\<lambda>m kv. case kv of
         None \<Rightarrow> m
       | Some (k, v) \<Rightarrow> if k = [] then m else m(k \<mapsto> anyValueString v)) Map.empty kvs"

definition attrsToMap :: "key_value list option \<Rightarrow> attrs" where
  "attrsToMap r = (case r of None \<Rightarrow> Map.empty | Some kvs \<Rightarrow> kvToMap kvs)"

definition mergeAttrs :: "attrs \<Rightarrow> attrs \<Rightarrow> attrs" where
  "mergeAttrs base overlay = base ++ overlay"

definition put_if :: "bool \<Rightarrow> string \<Rightarrow> string \<Rightarrow> attrs \<Rightarrow> attrs" where
  "put_if b k v m = (if b then m(k \<mapsto> v) else m)"

section \<open>Traces\<close>

definition duration_text :: "nat \<Rightarrow> nat \<Rightarrow> string" where
  "duration_text start end = fmt_fixed 3 (fdiv (fround (of_nat (end - start))) (flit 1000000))"

definition span_attrs :: "attrs \<Rightarrow> string \<Rightarrow> span \<Rightarrow> attrs" where
  "span_attrs resource scope sp =
     (let a0 = mergeAttrs resource (kvToMap (sp_attrs sp));
          a1 = put_if (scope \<noteq> []) ''otel.scope.name'' scope a0;
          a2 = a1(''trace_id'' \<mapsto> hex_of (sp_trace_id sp), ''span_id'' \<mapsto> hex_of (sp_span_id sp));
          a3 = put_if (sp_parent sp \<noteq> []) ''parent_span_id'' (hex_of (sp_parent sp)) a2;
          a4 = a3(''span.name'' \<mapsto> sp_name sp, ''span.kind'' \<mapsto> sp_kind sp);
          a5 = put_if (sp_start sp < sp_end sp) ''duration_ms'' (duration_text (sp_start sp) (sp_end sp)) a4
      in case sp_status sp of
           None \<Rightarrow> a5
         | Some (is_error, msg) \<Rightarrow>
             put_if (msg \<noteq> []) ''status.message'' msg (put_if is_error ''severity'' ''ERROR'' a5))"

definition span_signal :: "string \<Rightarrow> int \<Rightarrow> attrs \<Rightarrow> string \<Rightarrow> span \<Rightarrow> signal" where
  "span_signal tid now resource scope sp =
     \<lparr>sig_tenant = tid, sig_type = Trace, sig_payload = [],
      sig_attrs = span_attrs resource scope sp, sig_received = now\<rparr>"

text \<open>The three nested loops every decoder has.\<close>

definition flatten :: "(attrs \<Rightarrow> string \<Rightarrow> 'a \<Rightarrow> signal list) \<Rightarrow> 'a resource_group list \<Rightarrow> signal list" where
  "flatten f gs =
     concat (map (\<lambda>g. concat (map (\<lambda>(scope, xs). concat (map (f (attrsToMap (rg_resource g)) scope) xs))
       (rg_scopes g))) gs)"

definition parse_either ::
  "(byte list \<Rightarrow> 'a resource_group list option) \<Rightarrow> (byte list \<Rightarrow> 'a resource_group option) \<Rightarrow>
   byte list \<Rightarrow> 'a resource_group list option" where
  "parse_either parse parse_alt body =
     (case parse body of Some gs \<Rightarrow> Some gs | None \<Rightarrow> map_option (\<lambda>g. [g]) (parse_alt body))"

definition DecodeTraces ::
  "(byte list \<Rightarrow> span resource_group list option) \<Rightarrow> (byte list \<Rightarrow> span resource_group option) \<Rightarrow>
   string \<Rightarrow> byte list \<Rightarrow> int \<Rightarrow> signal list option" where
  "DecodeTraces parse parse_alt tid body now =
     map_option (flatten (\<lambda>res scope sp. [span_signal tid now res scope sp])) (parse_either parse parse_alt body)"

section \<open>Metrics\<close>

definition numberDPValue :: "number_point \<Rightarrow> string" where
  "numberDPValue dp =
     (case np_value dp of None \<Rightarrow> [] | Some (Inl x) \<Rightarrow> fmt_shortest x | Some (Inr i) \<Rightarrow> show_int i)"

definition makeMetric :: "string \<Rightarrow> attrs \<Rightarrow> nat \<Rightarrow> int \<Rightarrow> signal" where
  "makeMetric tid a ts fallback =
     \<lparr>sig_tenant = tid, sig_type = Metric, sig_payload = [], sig_attrs = a,
      sig_received = (if 0 < ts then wrap64 (int ts) else fallback)\<rparr>"

definition base_attrs :: "attrs \<Rightarrow> string \<Rightarrow> otlp_metric \<Rightarrow> attrs" where
  "base_attrs resource scope mt =
     put_if (om_description mt \<noteq> []) ''metric_description'' (om_description mt)
      (put_if (om_unit mt \<noteq> []) ''metric_unit'' (om_unit mt)
       ((put_if (scope \<noteq> []) ''otel.scope.name'' scope (mergeAttrs resource Map.empty))
         (''metric_name'' \<mapsto> om_name mt)))"

definition histogram_signal :: "string \<Rightarrow> int \<Rightarrow> attrs \<Rightarrow> histogram_point \<Rightarrow> signal" where
  "histogram_signal tid now base dp =
     makeMetric tid ((mergeAttrs base (kvToMap (hp_attrs dp)))
       (''count'' \<mapsto> show_nat (hp_count dp), ''sum'' \<mapsto> fmt_shortest (hp_sum dp))) (hp_time dp) now"

definition metric_signals :: "string \<Rightarrow> int \<Rightarrow> attrs \<Rightarrow> string \<Rightarrow> otlp_metric \<Rightarrow> signal list" where
  "metric_signals tid now resource scope mt =
     (let base = base_attrs resource scope mt
      in case om_data mt of
           Gauge dps \<Rightarrow> map (\<lambda>dp. makeMetric tid
             ((mergeAttrs base (kvToMap (np_attrs dp)))(''value'' \<mapsto> numberDPValue dp)) (np_time dp) now) dps
         | Sum dps tmp \<Rightarrow> map (\<lambda>dp. makeMetric tid
             ((mergeAttrs base (kvToMap (np_attrs dp)))
               (''value'' \<mapsto> numberDPValue dp, ''temporality'' \<mapsto> tmp)) (np_time dp) now) dps
         | Histogram dps \<Rightarrow> map (histogram_signal tid now base) dps
         | ExpHistogram dps \<Rightarrow> map (histogram_signal tid now base) dps
         | Summary dps \<Rightarrow> map (histogram_signal tid now base) dps
         | NoData \<Rightarrow> [])"

definition DecodeMetrics ::
  "(byte list \<Rightarrow> otlp_metric resource_group list option) \<Rightarrow> (byte list \<Rightarrow> otlp_metric resource_group option) \<Rightarrow>
   string \<Rightarrow> byte list \<Rightarrow> int \<Rightarrow> signal list option" where
  "DecodeMetrics parse parse_alt tid body now =
     map_option (flatten (metric_signals tid now)) (parse_either parse parse_alt body)"

section \<open>Logs\<close>

text \<open>\<open>SEVERITY_NUMBER_ERROR\<close>.\<close>

definition severity_error :: int where "severity_error = 17"

definition log_attrs :: "attrs \<Rightarrow> string \<Rightarrow> log_record \<Rightarrow> attrs" where
  "log_attrs resource scope r =
     (let a0 = mergeAttrs resource (kvToMap (lr_attrs r));
          a1 = put_if (scope \<noteq> []) ''otel.scope.name'' scope a0;
          a2 = (if lr_severity_text r \<noteq> [] then a1(''severity'' \<mapsto> lr_severity_text r)
                else put_if (severity_error \<le> lr_severity_number r) ''severity'' ''ERROR'' a1);
          a3 = put_if (lr_trace_id r \<noteq> []) ''trace_id'' (hex_of (lr_trace_id r)) a2
      in put_if (lr_span_id r \<noteq> []) ''span_id'' (hex_of (lr_span_id r)) a3)"

text \<open>\<open>[]byte(s)\<close>.\<close>

definition bytes_of :: "string \<Rightarrow> byte list" where
  "bytes_of s = map (\<lambda>c. of_nat (of_char c)) s"

definition log_signal :: "string \<Rightarrow> int \<Rightarrow> attrs \<Rightarrow> string \<Rightarrow> log_record \<Rightarrow> signal" where
  "log_signal tid now resource scope r =
     \<lparr>sig_tenant = tid, sig_type = Log, sig_payload = bytes_of (anyValueString (lr_body r)),
      sig_attrs = log_attrs resource scope r,
      sig_received = (if 0 < lr_time r then wrap64 (int (lr_time r)) else now)\<rparr>"

definition DecodeLogs ::
  "(byte list \<Rightarrow> log_record resource_group list option) \<Rightarrow> (byte list \<Rightarrow> log_record resource_group option) \<Rightarrow>
   string \<Rightarrow> byte list \<Rightarrow> int \<Rightarrow> signal list option" where
  "DecodeLogs parse parse_alt tid body now =
     map_option (flatten (\<lambda>res scope r. [log_signal tid now res scope r])) (parse_either parse parse_alt body)"

end
