(* ===== verification/Statsd.thy ===== *)
theory Statsd
  imports GoFmt Signals
begin

text \<open>
  The StatsD receiver (\<open>internal/receiver/statsd_receiver.go\<close>): the line parser and the conversion of a
  packet into signals. The UDP socket is left out; a packet is its bytes as a string.
\<close>

record statsdMetric =
  sd_name :: string
  sd_value :: string
  sd_type :: string
  sd_rate :: f64
  sd_tags :: "string \<rightharpoonup> string"

datatype statsd_error = NoColon | NoType | UnknownType string

text \<open>\<open>strings.SplitN(pair, ":", 2)\<close>: a pair without a colon is a tag with the empty value.\<close>

definition add_tag :: "(string \<rightharpoonup> string) \<Rightarrow> string \<Rightarrow> (string \<rightharpoonup> string)" where
  "add_tag m pair =
     (case index_byte (CHR '':'') pair of
        Some i \<Rightarrow> m(take i pair \<mapsto> drop (Suc i) pair)
      | None \<Rightarrow> m(pair \<mapsto> []))"

definition optional_part :: "statsdMetric \<Rightarrow> string \<Rightarrow> statsdMetric" where
  "optional_part m part =
     (if has_prefix part ''@'' then
        (case parse_float (drop 1 part) of Some r \<Rightarrow> m\<lparr>sd_rate := r\<rparr> | None \<Rightarrow> m)
      else if has_prefix part ''#'' then
        m\<lparr>sd_tags := foldl add_tag (sd_tags m) (split_byte (CHR '','') (drop 1 part))\<rparr>
      else m)"

definition parseStatsDLine :: "string \<Rightarrow> statsd_error + statsdMetric" where
  "parseStatsDLine line =
     (case index_byte (CHR '':'') line of
        Some (Suc k) \<Rightarrow>
          (let name = take (Suc k) line; rest = drop (Suc (Suc k)) line
           in case split_byte (CHR ''|'') rest of
                value # mtype # opts \<Rightarrow>
                  if mtype \<notin> {''c'', ''g'', ''ms'', ''h'', ''s''} then Inl (UnknownType mtype)
                  else Inr (foldl optional_part
                    \<lparr>sd_name = name, sd_value = value, sd_type = mtype, sd_rate = Fin 0, sd_tags = Map.empty\<rparr> opts)
              | _ \<Rightarrow> Inl NoType)
      | _ \<Rightarrow> Inl NoColon)"

definition statsd_payload :: "statsdMetric \<Rightarrow> string" where
  "statsd_payload m =
     ''{\"name\":\"'' @ sd_name m @ ''\",\"value\":'' @ sd_value m @ '',\"type\":\"'' @ sd_type m @ ''\"}''"

text \<open>The tags under their prefix; a tag cannot collide with the fixed attributes.\<close>

definition tag_attrs :: "(string \<rightharpoonup> string) \<Rightarrow> string \<rightharpoonup> string" where
  "tag_attrs tags = (\<lambda>k. if has_prefix k ''tag.'' then tags (drop 4 k) else None)"

definition statsd_signal :: "string \<Rightarrow> int \<Rightarrow> statsdMetric \<Rightarrow> signal" where
  "statsd_signal tid now m =
     \<lparr>sig_tenant = tid, sig_type = Metric,
      sig_payload = map (\<lambda>c. of_nat (of_char c)) (statsd_payload m),
      sig_attrs =
        (let a = [''metric_name'' \<mapsto> sd_name m, ''metric_type'' \<mapsto> sd_type m, ''source'' \<mapsto> ''statsd'']
                   ++ tag_attrs (sd_tags m)
         in if flt (Fin 0) (sd_rate m) \<and> flt (sd_rate m) (Fin 1)
            then a(''sample_rate'' \<mapsto> fmt_shortest (sd_rate m)) else a),
      sig_received = now\<rparr>"

text \<open>\<open>processPacket\<close> up to \<open>ProcessSignal\<close>: the signals of the lines that parse, in order.\<close>

definition packet_signals :: "string \<Rightarrow> int \<Rightarrow> string \<Rightarrow> signal list" where
  "packet_signals tid now pkt =
     concat (map (\<lambda>line.
       let l = trim_space line
       in if l = [] then []
          else case parseStatsDLine l of Inl _ \<Rightarrow> [] | Inr m \<Rightarrow> [statsd_signal tid now m])
       (split_byte (char_of (10 :: nat)) pkt))"

end
