(* ===== verification/PipelineProps.thy ===== *)
theory PipelineProps
  imports EngineProps Otlp Statsd
begin

text \<open>
  The engine composed with its ends: what \<open>Stop\<close> leaves behind, and what becomes of the signals the
  OTLP and StatsD front ends produce once they reach the stages, the sampler and the log.
\<close>

section \<open>Stopping\<close>

lemma eng_run_append: "eng_run (xs @ ys) s = (case eng_run xs s of None \<Rightarrow> None | Some s' \<Rightarrow> eng_run ys s')"
  by (induction xs s rule: eng_run.induct) (auto split: option.split)

lemma cancel_workers:
  assumes "pe_cancelled e" "\<forall>w \<in> set (pe_workers e). w = Idle" "k \<le> length (pe_workers e)"
  shows "eng_run (map WorkCancel [0..<k]) (e, g) =
    Some (e\<lparr>pe_workers := replicate k Exited @ drop k (pe_workers e)\<rparr>, g)"
  using assms(3)
proof (induction k)
  case (Suc k)
  have "pe_workers e ! k = Idle" using assms(2) Suc.prems by simp
  moreover have "(replicate k Exited @ drop k (pe_workers e))[k := Exited] =
      replicate (Suc k) Exited @ drop (Suc k) (pe_workers e)"
    using Suc.prems by (simp add: list_update_append replicate_append_same flip: Cons_nth_drop_Suc)
  ultimately show ?case using Suc assms(1)
    by (simp add: eng_run_append worker_cancel_def set_worker_def nth_append)
qed simp

text \<open>
  \<open>Stop\<close> does not drain: from any state with idle workers there is a run, the context's branch
  winning each worker's \<open>select\<close>, in which \<open>Stop\<close> completes and closes the log while every accepted
  signal that was in a queue or a stage is still there: not logged, not stored, not counted as dropped.
  The next submission panics (a send on a closed channel).
\<close>

theorem stop_loses_accepted:
  assumes "pe_started e" "\<not> pe_stopping e" "\<forall>w \<in> set (pe_workers e). w = Idle"
  shows "\<exists>e'. eng_run (StopBegin # map WorkCancel [0..<length (pe_workers e)] @ [StopFinish env]) (e, g) = Some (e', g) \<and>
    in_flight e' = in_flight e \<and> w_closed (pe_wal e') \<and> w_dir (pe_wal e') = w_dir (pe_wal e) \<and>
    pe_drops e' = pe_drops e \<and> eng_Stats e' = eng_Stats e \<and> eng_do (Submit sg) e' = None"
proof -
  define e1 where "e1 = e\<lparr>pe_stopping := True, pe_closed := True, pe_cancelled := True\<rparr>"
  define e2 where "e2 = e1\<lparr>pe_workers := replicate (length (pe_workers e)) Exited\<rparr>"
  have "eng_do StopBegin e = Some e1" using assms(1,2) by (simp add: stop_begin_def e1_def)
  moreover have "eng_run (map WorkCancel [0..<length (pe_workers e)]) (e1, g) = Some (e2, g)"
    using cancel_workers [of e1 "length (pe_workers e)" g] assms(3) by (simp add: e1_def e2_def)
  moreover have "eng_do (StopFinish env) e2 = Some (stop_finish os_ok env e2)"
    by (simp add: e1_def e2_def)
  ultimately have run: "eng_run (StopBegin # map WorkCancel [0..<length (pe_workers e)] @ [StopFinish env]) (e, g) =
      Some (stop_finish os_ok env e2, g)"
    by (simp add: eng_run_append)
  have "concat (map working (pe_workers e)) = []" using assms(3) by (simp add: concat_eq_Nil_conv) force
  then have fl: "in_flight e2 = in_flight e" by (simp add: in_flight_def e2_def e1_def)
  have st: "pe_drops (stop_finish os_ok env e2) = pe_drops e" "eng_Stats (stop_finish os_ok env e2) = eng_Stats e"
    "pe_closed (stop_finish os_ok env e2)"
    by (simp_all add: stop_finish_def Let_def e2_def e1_def eng_Stats_def split: option.split prod.split)
  show ?thesis
    using run fl st close_same(1,4) [of os_ok "pe_wal e"]
    by (intro exI [of _ "stop_finish os_ok env e2"])
      (simp add: stop_queues stop_finish_frame ProcessSignal_def, simp add: e2_def e1_def)
qed

section \<open>OTLP\<close>

lemma text_bytes [simp]: "text_of (bytes_of s) = s"
proof -
  have "char_of (unat (of_nat (of_char c) :: byte)) = c" for c
  proof -
    have "unat (of_nat (of_char c) :: byte) = of_char c" by (simp add: unat_of_nat)
    then show ?thesis by simp
  qed
  then show ?thesis by (simp add: text_of_def bytes_of_def map_idI)
qed

lemma flatten_set: "sg \<in> set (flatten f gs) \<Longrightarrow> \<exists>res scope x. sg \<in> set (f res scope x)"
  by (fastforce simp: flatten_def)

lemma metric_payload: "sg \<in> set (metric_signals tid now res scope mt) \<Longrightarrow> sig_payload sg = [] \<and> sig_tenant sg = tid \<and> sig_type sg = Metric"
  by (auto simp: metric_signals_def histogram_signal_def makeMetric_def Let_def split: metric_data.splits)

lemma log_one:
  assumes "wal_Write os_ok ts (sig_payload sg) (pe_wal e) = (w, None)"
  shows "handle_log os_ok ts e sg = Some (e\<lparr>pe_wal := w, pe_writes := wrap64 (pe_writes e + 1)\<rparr>, True)"
  using assms by (simp add: handle_log_def)

text \<open>
  C15. OTLP traces and metrics are not durable: every signal the decoder makes of them has an empty
  payload, so the worker's log entry for it ends the segment for readers. The signal and the next one
  are both counted as logged, and a replay of the log delivers neither: only what was there before.
\<close>

theorem otlp_spans_not_durable:
  assumes "DecodeTraces parse parse_alt tid body now = Some sgs \<and> sg \<in> set sgs \<or>
      DecodeMetrics parse' parse_alt' tid body now = Some sgs \<and> sg \<in> set sgs"
    and "wal_inv (pe_wal e) segs"
    and "w_offset (pe_wal e) + 2 * header_size + length (sig_payload sg2) \<le> w_max (pe_wal e)"
  shows "\<exists>e1 e2. handle_log os_ok ts e sg = Some (e1, True) \<and> handle_log os_ok ts2 e1 sg2 = Some (e2, True) \<and>
    pe_writes e2 = wrap64 (pe_writes e + 2) \<and>
    Walk os_ok (pe_wal e2) (\<lambda>acc x. (acc @ [x], None)) [] = (log_of segs, None)"
proof -
  have pl: "sig_payload sg = []"
    using assms(1) by (auto simp: DecodeTraces_def DecodeMetrics_def span_signal_def dest!: flatten_set metric_payload)
  obtain w1 w2 where w: "wal_Write os_ok ts [] (pe_wal e) = (w1, None)"
    "wal_Write os_ok ts2 (sig_payload sg2) w1 = (w2, None)"
    "Walk os_ok w2 (\<lambda>acc x. (acc @ [x], None)) [] = (log_of segs, None)"
    using empty_entry_hides [OF assms(2,3), of ts ts2] by auto
  define e1 where "e1 = e\<lparr>pe_wal := w1, pe_writes := wrap64 (pe_writes e + 1)\<rparr>"
  have "handle_log os_ok ts e sg = Some (e1, True)" using log_one [of ts sg e w1] w(1) pl by (simp add: e1_def)
  moreover have "handle_log os_ok ts2 e1 sg2 = Some (e1\<lparr>pe_wal := w2, pe_writes := wrap64 (pe_writes e1 + 1)\<rparr>, True)"
    using log_one [of ts2 sg2 e1 w2] w(2) by (simp add: e1_def)
  moreover have "wrap64 (pe_writes e1 + 1) = wrap64 (pe_writes e + 2)" by (simp add: e1_def wrap64_add_left) (simp add: ac_simps)
  ultimately show ?thesis using w(3)
    by (intro exI [of _ e1] exI [of _ "e1\<lparr>pe_wal := w2, pe_writes := wrap64 (pe_writes e1 + 1)\<rparr>"]) simp
qed

text \<open>
  OTLP log records with a plain text body are dropped: the decode stage passes a record on exactly
  when its body is empty or happens to be JSON.
\<close>

theorem otlp_text_logs_dropped:
  "DecodeStage (log_signal tid now res scope (r\<lparr>lr_body := StringValue body\<rparr>)) =
     (if body = [] \<or> json_valid body then Inr (log_signal tid now res scope (r\<lparr>lr_body := StringValue body\<rparr>))
      else Inl BadPayload)"
proof -
  have "bytes_of body = [] \<longleftrightarrow> body = []" by (simp add: bytes_of_def)
  then show ?thesis by (simp add: DecodeStage_def log_signal_def)
qed

lemma error_span_severity:
  "sp_status sp = Some (True, msg) \<Longrightarrow> attr (span_attrs res scope sp) ''severity'' = ''ERROR''"
  by (simp add: span_attrs_def put_if_def attr_def Let_def)

text \<open>
  An error span survives sampling: whatever the state of the sampler, the enriched signal the
  decoder makes of a span with an error status is never sampled out.
\<close>

theorem otlp_error_spans_kept:
  assumes "sp_status sp = Some (True, msg)"
    "EnrichStage t (span_signal tid rt res scope sp) = Inr sg"
  shows "handle_decide e now now2 sg \<noteq> Some (e', False)"
proof
  assume "handle_decide e now now2 sg = Some (e', False)"
  then have "attr (sig_attrs sg) ''severity'' \<noteq> ''ERROR''" using decide_legit by fastforce
  moreover have "attr (sig_attrs sg) ''severity'' = attr (span_attrs res scope sp) ''severity''"
    using assms(2) by (auto simp: EnrichStage_def span_signal_def attr_def)
  ultimately show False using error_span_severity [OF assms(1)] by simp
qed

section \<open>OTLP in the database\<close>

lemma split_metrics: "\<forall>sg \<in> set sgs. sig_type sg = Metric \<Longrightarrow> splitByType sgs = (sgs, [], [])"
  by (induction sgs) (auto simp: splitByType_def is_type_def)

text \<open>
  Every OTLP metric is stored with the value zero: a batch the decoder makes of a metrics body that
  is inserted successfully adds one row per data point, of the right tenant, and all of them have
  value 0, because the inserter reads the payload and the decoder puts the value in an attribute.
\<close>

theorem otlp_metrics_stored_zero:
  assumes "DecodeMetrics parse parse_alt tid body now = Some sgs" "WriteBatch doc t oc sgs c = (c', True)"
  shows "\<exists>rows. ch_metrics c' = ch_metrics c @ rows \<and> length rows = length sgs \<and>
    ch_logs c' = ch_logs c \<and> ch_traces c' = ch_traces c \<and>
    list_all (\<lambda>r. mr_value r = Fin 0 \<and> mr_tenant r = tid) rows"
proof -
  have each: "sig_type sg = Metric \<and> sig_payload sg = [] \<and> sig_tenant sg = tid" if "sg \<in> set sgs" for sg
    using that assms(1) by (auto simp: DecodeMetrics_def dest!: flatten_set metric_payload)
  have row: "list_all (\<lambda>r. mr_value r = Fin 0 \<and> mr_tenant r = tid) (map (metric_row doc t) sgs)"
    using each by (auto simp: list_all_iff metric_row_def parseMetricPayload_def Let_def)
  have sp: "splitByType sgs = (sgs, [], [])" using each by (intro split_metrics) auto
  show ?thesis
  proof (cases "sgs = []")
    case True
    then show ?thesis using assms(2) by (auto simp: WriteBatch_def)
  next
    case False
    then show ?thesis using assms(2) row
      by (intro exI [of _ "map (metric_row doc t) sgs"])
        (auto simp: WriteBatch_def sp writeMetrics_def writeLogs_def writeTraces_def Let_def split: if_splits)
  qed
qed

text \<open>
  An OTLP span loses its name, start and duration in the traces table: unless the sender also set
  attributes with the column names, the row of a span has an empty operation, starts when the gateway
  received it and ends at once, whatever the span's own name, start and end are.
\<close>

theorem otlp_span_row_flat:
  assumes "res ''duration_ns'' = None" "kvToMap (sp_attrs sp) ''duration_ns'' = None"
    "res ''operation_name'' = None" "kvToMap (sp_attrs sp) ''operation_name'' = None" "rt \<noteq> zero_time"
  shows "tr_operation (trace_row t (span_signal tid rt res scope sp)) = [] \<and>
    tr_start (trace_row t (span_signal tid rt res scope sp)) = rt \<and>
    tr_end (trace_row t (span_signal tid rt res scope sp)) = rt \<and>
    tr_duration (trace_row t (span_signal tid rt res scope sp)) = 0"
proof -
  have "span_attrs res scope sp ''duration_ns'' = mergeAttrs res (kvToMap (sp_attrs sp)) ''duration_ns''"
    "span_attrs res scope sp ''operation_name'' = mergeAttrs res (kvToMap (sp_attrs sp)) ''operation_name''"
    by (simp_all add: span_attrs_def put_if_def Let_def split: option.split)
  then have "attr (span_attrs res scope sp) ''duration_ns'' = []" "attr (span_attrs res scope sp) ''operation_name'' = []"
    using assms(1-4) by (simp_all add: attr_def mergeAttrs_def map_add_def)
  then show ?thesis using assms(5)
    by (simp add: trace_row_def span_signal_def row_time_def parse_int_or_zero_def Let_def)
qed

section \<open>StatsD\<close>

definition plain_char :: "char \<Rightarrow> bool" where
  "plain_char c \<longleftrightarrow> c \<noteq> quote_char \<and> c \<noteq> backslash \<and> 32 \<le> (of_char c :: nat)"

lemma jrun_plain: "list_all plain_char name \<Longrightarrow> jrun InString stk name = Some (InString, stk)"
  by (induction name) (auto simp: plain_char_def)

lemma jrun_digits: "list_all is_digit ds \<Longrightarrow> jrun Num1 stk ds = Some (Num1, stk)"
  by (induction ds) auto

lemma digit_begins:
  assumes "is_digit c" "c \<noteq> CHR ''0''"
  shows "jbegin_value stk c = Some (Num1, stk)"
proof -
  have "48 \<le> (of_char c :: nat)" "of_char c \<le> (57 :: nat)" using assms(1) by (simp_all add: is_digit_def)
  then have "\<not> jspace c" "c \<noteq> CHR ''{''" "c \<noteq> CHR ''[''" "c \<noteq> quote_char" "c \<noteq> CHR ''-''" "c \<noteq> CHR ''t''"
    "c \<noteq> CHR ''f''" "c \<noteq> CHR ''n''"
    by (auto simp: jspace_def)
  then show ?thesis using assms by (simp add: jbegin_value_def)
qed

lemma statsd_prefix:
  assumes "list_all plain_char (sd_name m)"
  shows "jrun BeginValue [] (statsd_payload m) =
    jrun BeginValue [ObjVal] (sd_value m @ '',\"type\":\"'' @ sd_type m @ ''\"}'')"
proof -
  have "jrun BeginValue [] ''{\"name\":\"'' = Some (InString, [ObjVal])"
    "jrun InString [ObjVal] ''\",\"value\":'' = Some (BeginValue, [ObjVal])"
    by code_simp+
  then show ?thesis using jrun_plain [OF assms, of "[ObjVal]"]
    unfolding statsd_payload_def by (simp only: jrun_append option.case prod.case)
qed

lemma statsd_suffix:
  assumes "t \<in> {''c'', ''g'', ''ms'', ''h'', ''s''}" "st = Num0 \<or> st = Num1"
  shows "jrun st [ObjVal] ('',\"type\":\"'' @ t @ ''\"}'') = Some (EndTop, [])"
proof -
  have "list_all (\<lambda>t. jrun Num0 [ObjVal] ('',\"type\":\"'' @ t @ ''\"}'') = Some (EndTop, []) \<and>
      jrun Num1 [ObjVal] ('',\"type\":\"'' @ t @ ''\"}'') = Some (EndTop, [])) [''c'', ''g'', ''ms'', ''h'', ''s'']"
    by code_simp
  then have "jrun Num0 [ObjVal] ('',\"type\":\"'' @ t @ ''\"}'') = Some (EndTop, []) \<and>
      jrun Num1 [ObjVal] ('',\"type\":\"'' @ t @ ''\"}'') = Some (EndTop, [])"
    using assms(1) unfolding list.pred_inject insert_iff empty_iff by blast
  then show ?thesis using assms(2) by blast
qed

definition starts_json :: "char \<Rightarrow> bool" where
  "starts_json c \<longleftrightarrow> jspace c \<or> is_digit c \<or> c \<in> set ''0{[-tfn'' \<or> c = quote_char"

lemma begin_value_fails: "\<not> starts_json c \<Longrightarrow> jbegin_value stk c = None"
  by (simp add: starts_json_def jbegin_value_def)

lemma statsd_text: "text_of (sig_payload (statsd_signal tid now m)) = statsd_payload m"
  using text_bytes [of "statsd_payload m"] by (simp add: statsd_signal_def bytes_of_def)

lemma statsd_nonempty: "sig_payload (statsd_signal tid now m) \<noteq> []"
  by (simp add: statsd_signal_def statsd_payload_def)

text \<open>
  Which StatsD metrics survive the decode stage: with a plain name, a metric whose value is an
  unsigned decimal integer passes, and one whose value cannot start a JSON value (the set member
  \<open>alice\<close>, the gauge delta \<open>+5\<close>, the empty value) is dropped as malformed, because the value is
  copied into the payload unquoted.
\<close>

theorem statsd_decode_outcome:
  assumes "list_all plain_char (sd_name m)" "sd_type m \<in> {''c'', ''g'', ''ms'', ''h'', ''s''}"
  shows "(sd_value m = ''0'' \<or> (sd_value m \<noteq> [] \<and> list_all is_digit (sd_value m) \<and> hd (sd_value m) \<noteq> CHR ''0'') \<longrightarrow>
      DecodeStage (statsd_signal tid now m) = Inr (statsd_signal tid now m)) \<and>
    (sd_value m = [] \<or> \<not> starts_json (hd (sd_value m)) \<longrightarrow>
      DecodeStage (statsd_signal tid now m) = Inl BadPayload)"
proof (intro conjI impI)
  assume v: "sd_value m = ''0'' \<or> (sd_value m \<noteq> [] \<and> list_all is_digit (sd_value m) \<and> hd (sd_value m) \<noteq> CHR ''0'')"
  have "\<exists>st. (st = Num0 \<or> st = Num1) \<and> jrun BeginValue [ObjVal] (sd_value m) = Some (st, [ObjVal])"
  proof (cases "sd_value m = ''0''")
    case True
    moreover have "jrun BeginValue [ObjVal] ''0'' = Some (Num0, [ObjVal])" by code_simp
    ultimately show ?thesis by auto
  next
    case False
    then obtain c ds where c: "sd_value m = c # ds" "is_digit c" "list_all is_digit ds" "c \<noteq> CHR ''0''"
      using v by (cases "sd_value m") auto
    have "jbegin_value [ObjVal] c = Some (Num1, [ObjVal])" by (rule digit_begins [OF c(2,4)])
    then show ?thesis using c jrun_digits [of ds "[ObjVal]"] by simp
  qed
  then obtain st where st: "st = Num0 \<or> st = Num1" "jrun BeginValue [ObjVal] (sd_value m) = Some (st, [ObjVal])"
    by blast
  have "jrun BeginValue [] (statsd_payload m) = Some (EndTop, [])"
    unfolding statsd_prefix [OF assms(1)] jrun_append [of _ _ "sd_value m"] st(2) option.case prod.case
    by (rule statsd_suffix [OF assms(2) st(1)])
  then have "json_valid (statsd_payload m)" by (simp add: json_valid_def)
  then show "DecodeStage (statsd_signal tid now m) = Inr (statsd_signal tid now m)"
    by (simp add: DecodeStage_def statsd_text)
next
  assume v: "sd_value m = [] \<or> \<not> starts_json (hd (sd_value m))"
  have comma: "\<not> starts_json (CHR '','')" by code_simp
  have "jrun BeginValue [ObjVal] (sd_value m @ '','' @ rest) = None" for rest
    using v comma begin_value_fails by (cases "sd_value m") simp_all
  from this [of "''\"type\":\"'' @ sd_type m @ ''\"}''"]
  have "jrun BeginValue [ObjVal] (sd_value m @ '',\"type\":\"'' @ sd_type m @ ''\"}'') = None"
    by (simp only: append.simps)
  then have "\<not> json_valid (statsd_payload m)" using statsd_prefix [OF assms(1)] by (simp add: json_valid_def)
  then show "DecodeStage (statsd_signal tid now m) = Inl BadPayload"
    using statsd_nonempty by (simp add: DecodeStage_def statsd_text)
qed

section \<open>Concrete instances\<close>

theorem stop_loses_accepted_witness:
  "\<exists>e g e'. eng_reach (e, g) \<and> eng_run [StopBegin, WorkCancel 0, StopFinish demo_flush] (e, g) = Some (e', g) \<and>
     in_flight e' = [demo_signal [55]] \<and> eng_do (Submit (demo_signal [])) e' = None"
proof -
  obtain w segs e0 where e0: "NewProcessingEngineWithOptions 1 os_ok [] True True
        \<lparr>ch_metrics = [], ch_logs = [], ch_traces = [], ch_batches = []\<rparr> demo_engine_opts = Inr e0"
    "NewWAL os_ok [] default_wal_options = Inr w" "wal_inv w segs" "w_max w = engine_max" "w_segid w = 1"
    "pe_wal e0 = w" "pe_ingest e0 = []" "pe_closed e0 = False" "pe_decode e0 = StIdle" "pe_validate e0 = StIdle"
    "pe_enrich e0 = StIdle" "pe_decoded e0 = []" "pe_validated e0 = []" "pe_enriched e0 = []" "pe_started e0 = False"
    "eo_buffer (pe_opts e0) = 4" "eo_workers (pe_opts e0) = 1"
    "pe_sup e0 = NewSupervisorWithOptions (default_sup_options False)"
    by (rule demo_new [of "\<lparr>ch_metrics = [], ch_logs = [], ch_traces = [], ch_batches = []\<rparr>"])
  have st: "pe_stopping e0 = False"
    using e0(1) by (auto simp: NewProcessingEngineWithOptions_def demo_engine_opts_def Let_def engine_defaults_def
        split: sum.splits if_splits)
  define e1 where "e1 = (eng_Start e0)\<lparr>pe_received := wrap64 (pe_received e0 + 1), pe_ingest := [demo_signal [55]]\<rparr>"
  have "eng_do (Submit (demo_signal [55])) (eng_Start e0) = Some e1"
    by (simp add: ProcessSignal_def Let_def eng_Start_def e0 e1_def)
  from eng_reach.step [OF eng_reach.start [OF e0(1)] this] obtain g where r: "eng_reach (e1, g)" by blast
  have f: "pe_started e1" "\<not> pe_stopping e1" "pe_workers e1 = [Idle]" "in_flight e1 = [demo_signal [55]]"
    by (simp_all add: e1_def eng_Start_def e0 st in_flight_def held_def numeral_eq_Suc)
  show ?thesis
    using stop_loses_accepted [of e1 demo_flush g "demo_signal []"] f r
    by (auto simp del: eng_run.simps eng_do.simps)
qed

definition demo_span :: span where
  "demo_span = \<lparr>sp_trace_id = [1], sp_span_id = [2], sp_parent = [], sp_name = ''GET'', sp_kind = ''SERVER'',
     sp_start = 0, sp_end = 0, sp_status = Some (True, ''boom''), sp_attrs = []\<rparr>"

definition demo_parse :: "byte list \<Rightarrow> span resource_group list option" where
  "demo_parse body = Some [\<lparr>rg_resource = None, rg_scopes = [([], [demo_span])]\<rparr>]"

theorem otlp_spans_not_durable_witness:
  "\<exists>e g e1 e2. eng_reach (e, g) \<and>
     handle_log os_ok 1 e (span_signal ''acme'' 0 Map.empty [] demo_span) = Some (e1, True) \<and>
     handle_log os_ok 2 e1 (demo_signal [55]) = Some (e2, True) \<and>
     Walk os_ok (pe_wal e2) (\<lambda>acc x. (acc @ [x], None)) [] = ([], None)"
proof -
  obtain w segs e g where r: "eng_reach (e, g)" "wal_inv w segs" "w_max w = engine_max" "w_segid w = 1" "pe_wal e = w"
    "pe_workers e = [Logging demo_enriched]" "ty_accepted g = [demo_signal [104, 105], demo_signal [55]]"
    "ty_dropped g = [(demo_signal [104, 105], BadPayload)]" "ty_logged g = []"
    by (rule demo_logging)
  have "log_ok e g" using reach_log [OF r(1)] r(7,9) by (simp add: demo_signal_def)
  then obtain segs' where s: "wal_inv w segs'" "log_of segs' = []"
    using r(5,6,9) by (auto simp: log_ok_def exited_def entries_def)
  then have "fst (snd (last segs')) = []"
    by (cases segs' rule: rev_cases) (auto simp: log_of_def wal_inv_def disk_inv_def)
  then have off: "w_offset w = 0" using s(1) by (simp add: wal_inv_def enc_all_def)
  have room: "w_offset (pe_wal e) + 2 * header_size + length (sig_payload (demo_signal [55])) \<le> w_max (pe_wal e)"
    by (simp add: r(3,5) off engine_max_def default_wal_options_def wal_defaults_def max_segment_size_def
        header_size_def demo_signal_def)
  have d: "DecodeTraces demo_parse (\<lambda>_. None) ''acme'' [] 0 = Some [span_signal ''acme'' 0 Map.empty [] demo_span]"
    by (simp add: DecodeTraces_def parse_either_def demo_parse_def flatten_def attrsToMap_def)
  have inv: "wal_inv (pe_wal e) segs'" using s(1) r(5) by simp
  have "\<exists>e1 e2. handle_log os_ok 1 e (span_signal ''acme'' 0 Map.empty [] demo_span) = Some (e1, True) \<and>
      handle_log os_ok 2 e1 (demo_signal [55]) = Some (e2, True) \<and> pe_writes e2 = wrap64 (pe_writes e + 2) \<and>
      Walk os_ok (pe_wal e2) (\<lambda>acc x. (acc @ [x], None)) [] = (log_of segs', None)"
    using d by (intro otlp_spans_not_durable [OF _ inv room]) auto
  then show ?thesis using r(1) s(2) by auto
qed

theorem otlp_error_spans_kept_witness:
  "\<forall>e e'. handle_decide e 1 1 (case EnrichStage 0 (span_signal ''acme'' 0 Map.empty [] demo_span) of Inr sg \<Rightarrow> sg) \<noteq>
     Some (e', False)"
proof (intro allI)
  fix e e'
  show "handle_decide e 1 1 (case EnrichStage 0 (span_signal ''acme'' 0 Map.empty [] demo_span) of Inr sg \<Rightarrow> sg) \<noteq>
     Some (e', False)"
    by (rule otlp_error_spans_kept [of demo_span "''boom''" 0 "''acme''" 0 Map.empty "[]"])
      (simp_all add: demo_span_def EnrichStage_def)
qed

theorem otlp_metrics_stored_zero_witness:
  "\<exists>c'. WriteBatch (\<lambda>_. None) 0 \<lparr>oc_admitted = True, oc_metrics = True, oc_logs = True, oc_traces = True\<rparr>
       [makeMetric ''acme'' [''metric_name'' \<mapsto> ''cpu'', ''value'' \<mapsto> ''42''] 0 7]
       \<lparr>ch_metrics = [], ch_logs = [], ch_traces = [], ch_batches = []\<rparr> = (c', True) \<and>
     length (ch_metrics c') = 1 \<and> mr_value (hd (ch_metrics c')) = Fin 0"
proof -
  let ?parse = "\<lambda>_. Some [\<lparr>rg_resource = None, rg_scopes = [([], [\<lparr>om_name = ''cpu'', om_unit = [], om_description = [],
      om_data = Gauge [\<lparr>np_attrs = [], np_value = Some (Inr 42), np_time = 0\<rparr>]\<rparr>])]\<rparr>]"
  let ?sgs = "[makeMetric ''acme'' [''metric_name'' \<mapsto> ''cpu'', ''value'' \<mapsto> ''42''] 0 7]"
  let ?c = "\<lparr>ch_metrics = [], ch_logs = [], ch_traces = [], ch_batches = []\<rparr>"
  have show42: "show_int 42 = ''42''" by code_simp
  have d: "DecodeMetrics ?parse (\<lambda>_. None) ''acme'' [] 7 = Some ?sgs"
    by (simp add: DecodeMetrics_def parse_either_def flatten_def attrsToMap_def metric_signals_def base_attrs_def
        put_if_def mergeAttrs_def kvToMap_def numberDPValue_def Let_def show42)
  obtain c' where w: "WriteBatch (\<lambda>_. None) 0 \<lparr>oc_admitted = True, oc_metrics = True, oc_logs = True, oc_traces = True\<rparr>
       ?sgs ?c = (c', True)"
    by (simp add: WriteBatch_def splitByType_def is_type_def makeMetric_def writeMetrics_def writeLogs_def writeTraces_def)
  obtain rows where r: "ch_metrics c' = ch_metrics ?c @ rows" "length rows = length ?sgs"
      "list_all (\<lambda>r. mr_value r = Fin 0 \<and> mr_tenant r = ''acme'') rows"
    using otlp_metrics_stored_zero [OF d w] by blast
  then show ?thesis using w by (cases rows) auto
qed

theorem otlp_span_row_flat_witness:
  "tr_duration (trace_row 0 (span_signal ''acme'' 5 Map.empty [] (demo_span\<lparr>sp_start := 0, sp_end := 3000000\<rparr>))) = 0"
  using otlp_span_row_flat [of Map.empty "demo_span\<lparr>sp_start := 0, sp_end := 3000000\<rparr>" 5 0 "''acme''" "[]"]
  by (simp add: demo_span_def kvToMap_def zero_time_def second_def)

theorem statsd_decode_outcome_witness:
  "DecodeStage (statsd_signal ''acme'' 0 \<lparr>sd_name = ''users'', sd_value = ''alice'', sd_type = ''s'', sd_rate = Fin 0,
      sd_tags = Map.empty\<rparr>) = Inl BadPayload"
proof -
  let ?m = "\<lparr>sd_name = ''users'', sd_value = ''alice'', sd_type = ''s'', sd_rate = Fin 0, sd_tags = Map.empty\<rparr>"
  have "list_all plain_char (sd_name ?m)" "\<not> starts_json (hd (sd_value ?m))" by code_simp+
  then show ?thesis using statsd_decode_outcome [of ?m "''acme''" 0] by simp
qed

end
