(* ===== verification/Retention.thy ===== *)
theory Retention
  imports Prelude
begin

text \<open>
  Per-tenant retention (\<open>pkg/retention/retention.go\<close>): the checks on a specification and the TTL
  statements sent to ClickHouse. The database is a parameter: \<open>exec\<close> answers a statement, \<open>True\<close> when
  it was executed. An operation returns the statements that were executed, in order, and its error.
\<close>

section \<open>Specifications\<close>

record Spec =
  rs_tenant :: string
  rs_metrics_hot :: int
  rs_logs_hot :: int
  rs_traces_hot :: int
  rs_metrics_total :: int
  rs_logs_total :: int
  rs_traces_total :: int

datatype retention_error =
    TenantRequired
  | HotOutOfRange string
  | TotalOutOfRange string
  | TotalBelowHot string
  | TenantLength
  | TenantCharacter
  | ExecFailed string

definition check_row :: "string \<times> int \<times> int \<times> int \<Rightarrow> retention_error option" where
  "check_row c =
     (case c of (name, hot, tot, maxDay) \<Rightarrow>
        if hot < 0 \<or> maxDay < hot then Some (HotOutOfRange name)
        else if tot < 0 \<or> maxDay < tot then Some (TotalOutOfRange name)
        else if 0 < hot \<and> 0 < tot \<and> tot < hot then Some (TotalBelowHot name)
        else None)"

fun first_error :: "('a \<Rightarrow> 'e option) \<Rightarrow> 'a list \<Rightarrow> 'e option" where
  "first_error f [] = None"
| "first_error f (x # xs) = (case f x of Some e \<Rightarrow> Some e | None \<Rightarrow> first_error f xs)"

definition spec_checks :: "Spec \<Rightarrow> (string \<times> int \<times> int \<times> int) list" where
  "spec_checks s =
     [(''metrics'', rs_metrics_hot s, rs_metrics_total s, 3650),
      (''logs'', rs_logs_hot s, rs_logs_total s, 730),
      (''traces'', rs_traces_hot s, rs_traces_total s, 730)]"

definition Spec_Validate :: "Spec \<Rightarrow> retention_error option" where
  "Spec_Validate s =
     (if trim_space (rs_tenant s) = [] then Some TenantRequired else first_error check_row (spec_checks s))"

text \<open>\<open>range\<close> over the runes: a byte above 127 is never one of the allowed runes.\<close>

definition tenant_char :: "char \<Rightarrow> bool" where
  "tenant_char c \<longleftrightarrow> is_lower c \<or> is_digit c \<or> c = CHR ''_'' \<or> c = CHR ''-''"

definition safeTenantID :: "string \<Rightarrow> retention_error option" where
  "safeTenantID i =
     (if i = [] \<or> 63 < length i then Some TenantLength
      else if list_all tenant_char i then None else Some TenantCharacter)"

section \<open>Statements\<close>

definition sql_quote :: char where "sql_quote = char_of (39 :: nat)"

definition ttl_clause :: "string \<Rightarrow> int \<Rightarrow> string \<Rightarrow> string \<Rightarrow> string" where
  "ttl_clause col days what tid =
     ''toDateTime('' @ col @ '') + INTERVAL '' @ show_int days @ '' DAY '' @ what @ '' WHERE tenant_id = '' @
     [sql_quote] @ tid @ [sql_quote]"

definition ttl_clauses :: "string \<Rightarrow> string \<Rightarrow> int \<Rightarrow> int \<Rightarrow> string list" where
  "ttl_clauses col tid hotDays totalDays =
     (if 0 < hotDays
      then [ttl_clause col hotDays (''TO DISK '' @ [sql_quote] @ ''cold_s3'' @ [sql_quote]) tid] else []) @
     (if 0 < totalDays then [ttl_clause col totalDays ''DELETE'' tid] else [])"

definition buildTTLStatement :: "string \<Rightarrow> string \<Rightarrow> string \<Rightarrow> int \<Rightarrow> int \<Rightarrow> string" where
  "buildTTLStatement table col tid hotDays totalDays =
     ''ALTER TABLE '' @ table @ '' MODIFY TTL '' @ join '', '' (ttl_clauses col tid hotDays totalDays)"

definition ttl_rows :: "Spec \<Rightarrow> (string \<times> string \<times> int \<times> int) list" where
  "ttl_rows s =
     [(''metrics'', ''timestamp'', rs_metrics_hot s, rs_metrics_total s),
      (''logs'', ''timestamp'', rs_logs_hot s, rs_logs_total s),
      (''traces'', ''start_time'', rs_traces_hot s, rs_traces_total s)]"

fun apply_rows ::
  "(string \<Rightarrow> bool) \<Rightarrow> string \<Rightarrow> (string \<times> string \<times> int \<times> int) list \<Rightarrow> string list \<times> retention_error option" where
  "apply_rows exec tid [] = ([], None)"
| "apply_rows exec tid ((table, col, hot, tot) # rows) =
     (if hot = 0 \<and> tot = 0 then apply_rows exec tid rows
      else
        let stmt = buildTTLStatement table col tid hot tot
        in if exec stmt then (let (done, e) = apply_rows exec tid rows in (stmt # done, e))
           else ([], Some (ExecFailed table)))"

definition retention_Apply :: "(string \<Rightarrow> bool) \<Rightarrow> Spec \<Rightarrow> string list \<times> retention_error option" where
  "retention_Apply exec s =
     (case Spec_Validate s of
        Some e \<Rightarrow> ([], Some e)
      | None \<Rightarrow>
          (case safeTenantID (rs_tenant s) of
             Some e \<Rightarrow> ([], Some e)
           | None \<Rightarrow> apply_rows exec (rs_tenant s) (ttl_rows s)))"

definition default_spec :: "string \<Rightarrow> Spec" where
  "default_spec tid =
     \<lparr>rs_tenant = tid, rs_metrics_hot = 30, rs_logs_hot = 14, rs_traces_hot = 7,
      rs_metrics_total = 90, rs_logs_total = 30, rs_traces_total = 30\<rparr>"

definition retention_Drop :: "(string \<Rightarrow> bool) \<Rightarrow> string \<Rightarrow> string list \<times> retention_error option" where
  "retention_Drop exec tid =
     (case safeTenantID tid of Some e \<Rightarrow> ([], Some e) | None \<Rightarrow> retention_Apply exec (default_spec tid))"

section \<open>What reaches the database\<close>

lemma tenant_char_graph: "tenant_char c \<Longrightarrow> graph c"
  by (auto simp: tenant_char_def graph_def is_lower_def is_digit_def)

lemma sql_quote_code [simp]: "(of_char sql_quote :: nat) = 39"
  by (simp add: sql_quote_def)

lemma tenant_char_quote: "tenant_char c \<Longrightarrow> c \<noteq> sql_quote"
proof -
  have "\<not> tenant_char sql_quote" by code_simp
  then show "tenant_char c \<Longrightarrow> c \<noteq> sql_quote" by auto
qed

lemma safe_tenant:
  "safeTenantID i = None \<longleftrightarrow> i \<noteq> [] \<and> length i \<le> 63 \<and> list_all tenant_char i"
  by (auto simp: safeTenantID_def)

lemma safe_trim: "safeTenantID i = None \<Longrightarrow> trim_space i \<noteq> []"
proof -
  assume s: "safeTenantID i = None"
  then have "list_all graph i" "i \<noteq> []" by (auto simp: safe_tenant list_all_iff tenant_char_graph)
  then show ?thesis using trim_space_graph [of i] by (auto simp: list_all_iff)
qed

definition coherent :: "int \<Rightarrow> int \<Rightarrow> int \<Rightarrow> bool" where
  "coherent maxDay hot tot \<longleftrightarrow> 0 \<le> hot \<and> hot \<le> maxDay \<and> 0 \<le> tot \<and> tot \<le> maxDay \<and>
     (hot = 0 \<or> tot = 0 \<or> hot \<le> tot)"

lemma check_row_None: "check_row (n, hot, tot, mx) = None \<longleftrightarrow> coherent mx hot tot"
  by (auto simp: check_row_def coherent_def)

lemma Spec_Validate_None:
  "Spec_Validate s = None \<longleftrightarrow> trim_space (rs_tenant s) \<noteq> [] \<and>
     coherent 3650 (rs_metrics_hot s) (rs_metrics_total s) \<and> coherent 730 (rs_logs_hot s) (rs_logs_total s) \<and>
     coherent 730 (rs_traces_hot s) (rs_traces_total s)"
proof -
  have "first_error f [a, b, c] = None \<longleftrightarrow> f a = None \<and> f b = None \<and> f c = None"
    for f :: "string \<times> int \<times> int \<times> int \<Rightarrow> retention_error option" and a b c
    by (simp split: option.split)
  then show ?thesis by (simp add: Spec_Validate_def spec_checks_def check_row_None)
qed

lemma apply_rows_stmts:
  "\<forall>q \<in> set (fst (apply_rows exec tid rows)).
     \<exists>table col hot tot. (table, col, hot, tot) \<in> set rows \<and> (hot \<noteq> 0 \<or> tot \<noteq> 0) \<and>
       q = buildTTLStatement table col tid hot tot"
proof (induction rows)
  case (Cons r rows)
  obtain table col hot tot where r: "r = (table, col, hot, tot)" by (cases r) auto
  have IH: "\<exists>table col hot tot. (table, col, hot, tot) \<in> set (r # rows) \<and> (hot \<noteq> 0 \<or> tot \<noteq> 0) \<and>
      q = buildTTLStatement table col tid hot tot" if "q \<in> set (fst (apply_rows exec tid rows))" for q
    using Cons that by (meson list.set_intros(2))
  show ?case
  proof
    fix q
    assume "q \<in> set (fst (apply_rows exec tid (r # rows)))"
    then consider "q \<in> set (fst (apply_rows exec tid rows))"
      | "q = buildTTLStatement table col tid hot tot" "hot \<noteq> 0 \<or> tot \<noteq> 0"
      by (auto simp: r Let_def split: if_splits prod.splits)
    then show "\<exists>table col hot tot. (table, col, hot, tot) \<in> set (r # rows) \<and> (hot \<noteq> 0 \<or> tot \<noteq> 0) \<and>
      q = buildTTLStatement table col tid hot tot"
      by cases (use IH r in auto)
  qed
qed simp

lemma quotes_join: "count_list (join '', '' xs) sql_quote = sum_list (map (\<lambda>x. count_list x sql_quote) xs)"
proof (induction xs rule: induct_list012)
  case (3 x y xs)
  have "CHR '','' \<noteq> sql_quote" "CHR '' '' \<noteq> sql_quote" by code_simp+
  then show ?case using 3 by (simp add: count_list_append)
qed simp_all

lemma quotes_show: "count_list (show_int i) sql_quote = 0"
proof -
  have "sql_quote \<notin> set (show_int i)"
    using show_int_chars [of sql_quote i] by (auto simp: is_digit_def) code_simp
  then show ?thesis by (simp add: count_list_0_iff)
qed

lemma quotes_clause:
  assumes "count_list col sql_quote = 0" "sql_quote \<notin> set tid"
  shows "count_list (ttl_clause col days what tid) sql_quote = count_list what sql_quote + 2"
proof -
  have c: "count_list ''toDateTime('' sql_quote = 0" "count_list '') + INTERVAL '' sql_quote = 0"
    "count_list '' DAY '' sql_quote = 0" "count_list '' WHERE tenant_id = '' sql_quote = 0"
    by code_simp+
  have t: "count_list tid sql_quote = 0" using assms(2) by (simp add: count_list_0_iff)
  show ?thesis unfolding ttl_clause_def count_list_append c t assms(1) quotes_show by simp
qed

text \<open>Every quote of a statement opens or closes a literal the package wrote.\<close>

lemma quotes_statement:
  assumes "count_list table sql_quote = 0" "count_list col sql_quote = 0" "sql_quote \<notin> set tid"
  shows "count_list (buildTTLStatement table col tid hot tot) sql_quote =
    (if 0 < hot then 4 else 0) + (if 0 < tot then 2 else 0)"
proof -
  have c: "count_list ''ALTER TABLE '' sql_quote = 0" "count_list '' MODIFY TTL '' sql_quote = 0"
    "count_list (''TO DISK '' @ [sql_quote] @ ''cold_s3'' @ [sql_quote]) sql_quote = 2" "count_list ''DELETE'' sql_quote = 0"
    by code_simp+
  show ?thesis
    unfolding buildTTLStatement_def count_list_append c quotes_join
    using quotes_clause [OF assms(2,3)] c(3,4) by (simp add: ttl_clauses_def assms(1))
qed

text \<open>
  Nothing of a request can leave its place in a TTL statement: whatever the specification and the
  answers of the database, each statement executed is a statement for one of the three tables with
  windows in their range and in order, its tenant id is made of the allowed characters, and its quotes
  are exactly those the package writes.
\<close>

theorem retention_statements_safe:
  assumes "q \<in> set (fst (retention_Apply exec s))"
  shows "\<exists>table col hot tot mx. (table, col, hot, tot) \<in> set (ttl_rows s) \<and>
    q = buildTTLStatement table col (rs_tenant s) hot tot \<and> coherent mx hot tot \<and> mx \<le> 3650 \<and>
    list_all tenant_char (rs_tenant s) \<and> length (rs_tenant s) \<le> 63 \<and>
    count_list q sql_quote = (if 0 < hot then 4 else 0) + (if 0 < tot then 2 else 0)"
proof -
  have v: "Spec_Validate s = None" "safeTenantID (rs_tenant s) = None"
    and q: "q \<in> set (fst (apply_rows exec (rs_tenant s) (ttl_rows s)))"
    using assms by (auto simp: retention_Apply_def split: option.splits)
  obtain table col hot tot where r: "(table, col, hot, tot) \<in> set (ttl_rows s)"
      "q = buildTTLStatement table col (rs_tenant s) hot tot"
    using apply_rows_stmts q by blast
  have co: "coherent 3650 (rs_metrics_hot s) (rs_metrics_total s)" "coherent 730 (rs_logs_hot s) (rs_logs_total s)"
    "coherent 730 (rs_traces_hot s) (rs_traces_total s)"
    using v(1) by (simp_all add: Spec_Validate_None)
  have "(table, col) \<in> {(''metrics'', ''timestamp''), (''logs'', ''timestamp''), (''traces'', ''start_time'')} \<and>
      (coherent 3650 hot tot \<or> coherent 730 hot tot)"
    using r(1) co by (auto simp: ttl_rows_def)
  moreover have "list_all (\<lambda>x. count_list x sql_quote = 0) [''metrics'', ''logs'', ''traces'', ''timestamp'', ''start_time'']"
    by code_simp
  ultimately have p: "count_list table sql_quote = 0" "count_list col sql_quote = 0" "\<exists>mx. coherent mx hot tot \<and> mx \<le> 3650"
    by auto
  have "sql_quote \<notin> set (rs_tenant s)"
    using v(2) tenant_char_quote by (auto simp: safe_tenant list_all_iff)
  then have n: "count_list q sql_quote = (if 0 < hot then 4 else 0) + (if 0 < tot then 2 else 0)"
    using quotes_statement [OF p(1,2)] r(2) by simp
  obtain mx where "coherent mx hot tot" "mx \<le> 3650" using p(3) by blast
  with n r v(2) show ?thesis unfolding safe_tenant by blast
qed

section \<open>One TTL per table\<close>

text \<open>\<open>run\<close> executes a statement on a database state and \<open>ttl\<close> reads a table's TTL; that \<open>MODIFY TTL\<close>
  replaces the TTL of its table, and of no other, is what the package's comment relies on.\<close>

lemma apply_rows_all:
  "(\<And>q. exec q) \<Longrightarrow> fst (apply_rows exec tid rows) =
     concat (map (\<lambda>(table, col, hot, tot). if hot = 0 \<and> tot = 0 then [] else [buildTTLStatement table col tid hot tot]) rows)"
  by (induction rows) (auto simp: Let_def split: prod.split)

text \<open>
  The retention of one tenant replaces everyone's: since a table has one TTL and every statement
  sets it to the clauses of its own tenant only, after a tenant with windows for all tables the three
  TTLs are that tenant's clauses, whatever was applied for other tenants before. \<open>Drop\<close> does the same.
\<close>

theorem retention_overwrites_others:
  fixes run :: "'db \<Rightarrow> string \<Rightarrow> 'db" and ttl :: "'db \<Rightarrow> string \<Rightarrow> string"
  assumes "\<And>d t u e. t \<in> {''metrics'', ''logs'', ''traces''} \<Longrightarrow> u \<in> {''metrics'', ''logs'', ''traces''} \<Longrightarrow>
      ttl (run d (''ALTER TABLE '' @ t @ '' MODIFY TTL '' @ e)) u = (if u = t then e else ttl d u)"
    and "safeTenantID b = None" "\<And>q. exec q"
  shows "ttl (foldl run d (fst (retention_Apply exec a) @ fst (retention_Drop exec b))) ''metrics'' =
      join '', '' (ttl_clauses ''timestamp'' b 30 90) \<and>
    ttl (foldl run d (fst (retention_Apply exec a) @ fst (retention_Drop exec b))) ''traces'' =
      join '', '' (ttl_clauses ''start_time'' b 7 30)"
proof -
  have "Spec_Validate (default_spec b) = None"
    using safe_trim [OF assms(2)] by (simp add: Spec_Validate_None default_spec_def coherent_def)
  then have d: "fst (retention_Drop exec b) = [buildTTLStatement ''metrics'' ''timestamp'' b 30 90,
      buildTTLStatement ''logs'' ''timestamp'' b 14 30, buildTTLStatement ''traces'' ''start_time'' b 7 30]"
    using assms(2) apply_rows_all [of exec b "ttl_rows (default_spec b)", OF assms(3)]
    by (simp add: retention_Drop_def retention_Apply_def ttl_rows_def default_spec_def)
  let ?s = "\<lambda>t e. ''ALTER TABLE '' @ t @ '' MODIFY TTL '' @ e"
  have m: "ttl (run d (?s ''metrics'' e)) ''metrics'' = e" "ttl (run d (?s ''logs'' e)) ''metrics'' = ttl d ''metrics''"
    "ttl (run d (?s ''traces'' e)) ''metrics'' = ttl d ''metrics''" "ttl (run d (?s ''traces'' e)) ''traces'' = e" for d e
    using assms(1) [of "''metrics''" "''metrics''" d e] assms(1) [of "''logs''" "''metrics''" d e]
      assms(1) [of "''traces''" "''metrics''" d e] assms(1) [of "''traces''" "''traces''" d e] by simp_all
  show ?thesis unfolding foldl_append d foldl_Cons foldl_Nil buildTTLStatement_def m by simp
qed

definition demo_run :: "(string \<Rightarrow> string) \<Rightarrow> string \<Rightarrow> (string \<Rightarrow> string)" where
  "demo_run d q =
     (if has_prefix q ''ALTER TABLE metrics MODIFY TTL '' then d(''metrics'' := drop 31 q)
      else if has_prefix q ''ALTER TABLE logs MODIFY TTL '' then d(''logs'' := drop 28 q)
      else if has_prefix q ''ALTER TABLE traces MODIFY TTL '' then d(''traces'' := drop 30 q) else d)"

definition demo_spec :: Spec where
  "demo_spec = \<lparr>rs_tenant = ''acme'', rs_metrics_hot = 0, rs_logs_hot = 0, rs_traces_hot = 0,
     rs_metrics_total = 365, rs_logs_total = 0, rs_traces_total = 0\<rparr>"

theorem retention_statements_safe_witness:
  "\<exists>q. fst (retention_Apply (\<lambda>_. True) demo_spec) = [q] \<and> count_list q sql_quote = 2"
proof -
  have "Spec_Validate demo_spec = None" by code_simp
  moreover have "safeTenantID ''acme'' = None" by code_simp
  ultimately have q: "fst (retention_Apply (\<lambda>_. True) demo_spec) = [buildTTLStatement ''metrics'' ''timestamp'' ''acme'' 0 365]"
    by (simp add: retention_Apply_def demo_spec_def ttl_rows_def)
  then show ?thesis
    using retention_statements_safe [of "buildTTLStatement ''metrics'' ''timestamp'' ''acme'' 0 365" "\<lambda>_. True" demo_spec]
      quotes_statement [of "''metrics''" "''timestamp''" "''acme''" 0 365]
    by (auto simp: demo_spec_def ttl_rows_def) code_simp+
qed

theorem retention_overwrites_others_witness:
  "foldl demo_run (\<lambda>_. []) (fst (retention_Apply (\<lambda>_. True) demo_spec) @ fst (retention_Drop (\<lambda>_. True) ''globex'')) ''metrics'' =
     join '', '' (ttl_clauses ''timestamp'' ''globex'' 30 90)"
proof -
  have run: "demo_run d (''ALTER TABLE '' @ t @ '' MODIFY TTL '' @ e) u = (if u = t then e else d u)"
    if "t \<in> {''metrics'', ''logs'', ''traces''}" "u \<in> {''metrics'', ''logs'', ''traces''}" for d t u e
    using that by (auto simp: demo_run_def has_prefix_def)
  have "safeTenantID ''globex'' = None" by code_simp
  then show ?thesis using retention_overwrites_others [of "\<lambda>d. d" demo_run, OF run] by simp
qed

end
