(* ===== verification/AuditProps.thy ===== *)
theory AuditProps
  imports AuditLog "HOL-Library.Multiset"
begin

text \<open>
  The audit export loses no record it has taken on: the S3 exporter under any interleaving of appends
  and flushes, and the buffered wrapper over any exporter that keeps what it accepts. The checksum is
  the base64 of RFC 4648.
\<close>

section \<open>Base64\<close>

text \<open>The reference: the bits of the bytes, most significant first, in groups of six, the last one
  filled with zero bits, and as many \<open>=\<close> as bring the text to a multiple of four.\<close>

definition byte_bits :: "byte \<Rightarrow> bool list" where
  "byte_bits b = map (bit b) (rev [0..<8])"

fun sextets :: "bool list \<Rightarrow> bool list list" where
  "sextets [] = []"
| "sextets (x # xs) = take 6 ((x # xs) @ replicate 5 False) # sextets (drop 6 (x # xs))"

definition sextet_char :: "bool list \<Rightarrow> char" where
  "sextet_char bs = b64_alphabet ! unat (horner_sum of_bool 2 (rev bs) :: 32 word)"

definition base64 :: "byte list \<Rightarrow> string" where
  "base64 bs =
     (let cs = map sextet_char (sextets (concat (map byte_bits bs)))
      in cs @ replicate ((4 - length cs mod 4) mod 4) (CHR ''=''))"

lemma byte_bits_list: "byte_bits b = [bit b 7, bit b 6, bit b 5, bit b 4, bit b 3, bit b 2, bit b 1, bit b 0]"
  by (simp add: byte_bits_def upt_rec numeral_eq_Suc)

lemma b64_word:
  assumes "\<And>n. n < 6 \<Longrightarrow> bit v n = rev bs ! n" "length bs = 6"
  shows "b64_char v = sextet_char bs"
proof -
  have "v AND 0x3F = horner_sum of_bool 2 (rev bs)"
  proof (rule bit_word_eqI)
    fix n assume "n < LENGTH(32)"
    have m: "(0x3F :: 32 word) = mask 6" by (simp add: mask_eq_exp_minus_1)
    show "bit (v AND 0x3F) n = bit (horner_sum of_bool 2 (rev bs) :: 32 word) n"
      unfolding m using assms \<open>n < LENGTH(32)\<close> by (auto simp: bit_simps)
  qed
  then show ?thesis by (simp add: b64_char_def sextet_char_def)
qed

lemma b64_bits:
  assumes "bit v 5 = b5" "bit v 4 = b4" "bit v 3 = b3" "bit v 2 = b2" "bit v 1 = b1" "bit v 0 = b0"
  shows "b64_char v = sextet_char [b5, b4, b3, b2, b1, b0]"
proof (rule b64_word)
  fix n :: nat
  assume "n < 6"
  then have "n = 0 \<or> n = 1 \<or> n = 2 \<or> n = 3 \<or> n = 4 \<or> n = 5" by arith
  then show "bit v n = rev [b5, b4, b3, b2, b1, b0] ! n" using assms by (elim disjE) (simp_all add: numeral_eq_Suc)
qed simp

lemma no_high_bit: "8 \<le> n \<Longrightarrow> \<not> bit (b :: byte) n"
  using bit_imp_le_length [of b n] by auto

lemma triple_chars:
  fixes a b c :: byte
  defines "v \<equiv> push_bit 16 (u32 a) OR push_bit 8 (u32 b) OR u32 c"
  shows "b64_char (drop_bit 18 v) = sextet_char [bit a 7, bit a 6, bit a 5, bit a 4, bit a 3, bit a 2]"
    "b64_char (drop_bit 12 v) = sextet_char [bit a 1, bit a 0, bit b 7, bit b 6, bit b 5, bit b 4]"
    "b64_char (drop_bit 6 v) = sextet_char [bit b 3, bit b 2, bit b 1, bit b 0, bit c 7, bit c 6]"
    "b64_char v = sextet_char [bit c 5, bit c 4, bit c 3, bit c 2, bit c 1, bit c 0]"
  by (rule b64_bits; simp add: v_def u32_def bit_simps no_high_bit numeral_2_eq_2 [symmetric])+

lemma pair_chars:
  fixes a b :: byte
  defines "v \<equiv> push_bit 8 (u32 a) OR u32 b"
  shows "b64_char (drop_bit 10 v) = sextet_char [bit a 7, bit a 6, bit a 5, bit a 4, bit a 3, bit a 2]"
    "b64_char (drop_bit 4 v) = sextet_char [bit a 1, bit a 0, bit b 7, bit b 6, bit b 5, bit b 4]"
    "b64_char (push_bit 2 v) = sextet_char [bit b 3, bit b 2, bit b 1, bit b 0, False, False]"
  by (rule b64_bits; simp add: v_def u32_def bit_simps no_high_bit numeral_2_eq_2 [symmetric])+

lemma sextets_24:
  "sextets (byte_bits a @ byte_bits b @ byte_bits c @ r) =
     [bit a 7, bit a 6, bit a 5, bit a 4, bit a 3, bit a 2] #
     [bit a 1, bit a 0, bit b 7, bit b 6, bit b 5, bit b 4] #
     [bit b 3, bit b 2, bit b 1, bit b 0, bit c 7, bit c 6] #
     [bit c 5, bit c 4, bit c 3, bit c 2, bit c 1, bit c 0] # sextets r"
  by (simp add: byte_bits_list)

lemma sextets_16:
  "sextets (byte_bits a @ byte_bits b) =
     [[bit a 7, bit a 6, bit a 5, bit a 4, bit a 3, bit a 2],
      [bit a 1, bit a 0, bit b 7, bit b 6, bit b 5, bit b 4],
      [bit b 3, bit b 2, bit b 1, bit b 0, False, False]]"
  by (simp add: byte_bits_list eval_nat_numeral)

lemma base64_triple: "base64 (a # b # c # r) = map sextet_char (sextets (byte_bits a @ byte_bits b @ byte_bits c)) @ base64 r"
  using sextets_24 [of a b c "concat (map byte_bits r)"] sextets_24 [of a b c "[]"]
  by (simp add: base64_def Let_def)

text \<open>
  The hand-written encoder of the checksum is base64: on every input whose length is not one more
  than a multiple of three, the 32 bytes of a digest among them, it gives the RFC 4648 encoding.
\<close>

theorem checksum_is_base64:
  "length bs mod 3 \<noteq> 1 \<Longrightarrow> hexToBase64SHA256 bs = base64 bs"
proof (induction bs rule: hexToBase64SHA256.induct)
  case (1 a b c rest)
  then have "hexToBase64SHA256 rest = base64 rest" by simp
  then show ?case using triple_chars [of a b c] sextets_24 [of a b c "[]"]
    by (simp add: base64_triple Let_def)
next
  case (2 a b)
  then show ?case using pair_chars [of a b] by (simp add: base64_def Let_def sextets_16)
qed (simp_all add: base64_def)

section \<open>Exporters\<close>

text \<open>What a client may rely on: an append that reports success has kept the record, none gives up a
  record kept before, and none makes up a record. A retaining exporter keeps a valid record even when
  it reports an error.\<close>

locale exporter =
  fixes append :: "'e \<Rightarrow> 's \<Rightarrow> audit_record \<Rightarrow> 's \<times> audit_error option"
    and holds :: "'s \<Rightarrow> audit_record multiset"
  assumes kept: "append env s r = (s', None) \<Longrightarrow> add_mset r (holds s) \<subseteq># holds s'"
    and monotone: "append env s r = (s', err) \<Longrightarrow> holds s \<subseteq># holds s'"
    and honest: "append env s r = (s', err) \<Longrightarrow> set_mset (holds s') \<subseteq> insert r (set_mset (holds s))"

locale retaining_exporter = exporter append holds
  for append :: "'e \<Rightarrow> 's \<Rightarrow> audit_record \<Rightarrow> 's \<times> audit_error option" and holds +
  fixes valid :: "audit_record \<Rightarrow> bool"
  assumes retained: "valid r \<Longrightarrow> append env s r = (s', err) \<Longrightarrow> add_mset r (holds s) \<subseteq># holds s'"

datatype 'e buf_op = BufAppend 'e audit_record | BufRun 'e | BufStop

fun buf_do ::
  "('e \<Rightarrow> 's \<Rightarrow> audit_record \<Rightarrow> 's \<times> audit_error option) \<Rightarrow> 'e buf_op \<Rightarrow> 's buffered \<Rightarrow> 's buffered" where
  "buf_do app (BufAppend env r) b = fst (buf_Append (app env) b r)"
| "buf_do app (BufRun env) b = buf_run (app env) b"
| "buf_do app BufStop b = buf_stop b"

fun appended :: "'e buf_op list \<Rightarrow> audit_record list" where
  "appended [] = []"
| "appended (BufAppend env r # ops) = r # appended ops"
| "appended (_ # ops) = appended ops"

context exporter
begin

definition total_holds :: "'s buffered \<Rightarrow> audit_record multiset" where
  "total_holds b = holds (bx_inner b) + mset (bx_buf b)"

lemma buf_accepts:
  assumes "buf_Append (append env) b r = (b', None)"
  shows "add_mset r (total_holds b) \<subseteq># total_holds b'"
proof (cases "length (bx_buf b) < bx_cap b")
  case True
  then show ?thesis using assms by (auto simp: buf_Append_def total_holds_def)
next
  case False
  then obtain s where s: "append env (bx_inner b) r = (s, None)" "b' = b\<lparr>bx_inner := s\<rparr>"
    using assms by (auto simp: buf_Append_def split: prod.splits)
  then show ?thesis using mset_subset_eq_mono_add [OF kept [OF s(1)] subset_mset.order_refl [of "mset (bx_buf b)"]]
    by (simp add: total_holds_def)
qed

end

context retaining_exporter
begin

lemma buf_step:
  assumes "\<forall>r \<in> set (bx_buf b). valid r" "\<And>env r. x = BufAppend env r \<Longrightarrow> valid r"
  shows "(\<forall>r \<in> set (bx_buf (buf_do append x b)). valid r) \<and>
    total_holds b + mset (appended [x]) \<subseteq># total_holds (buf_do append x b)"
proof (cases x)
  case (BufAppend env r)
  show ?thesis
  proof (cases "length (bx_buf b) < bx_cap b")
    case True
    then show ?thesis using assms BufAppend by (auto simp: buf_Append_def total_holds_def)
  next
    case False
    obtain s e where s: "append env (bx_inner b) r = (s, e)" by fastforce
    have "add_mset r (holds (bx_inner b)) \<subseteq># holds s" using retained [OF _ s] assms(2) BufAppend by simp
    from mset_subset_eq_mono_add [OF this subset_mset.order_refl [of "mset (bx_buf b)"]] show ?thesis
      using assms(1) BufAppend False s by (simp add: buf_Append_def total_holds_def)
  qed
next
  case (BufRun env)
  show ?thesis
  proof (cases "bx_exited b \<or> bx_buf b = []")
    case True
    then show ?thesis using assms(1) BufRun by (auto simp: buf_run_def total_holds_def split: list.split)
  next
    case False
    then obtain r rest where q: "bx_buf b = r # rest" "\<not> bx_exited b" by (cases "bx_buf b") auto
    obtain s e where s: "append env (bx_inner b) r = (s, e)" by fastforce
    have "add_mset r (holds (bx_inner b)) \<subseteq># holds s" using retained [OF _ s] assms(1) q by simp
    from mset_subset_eq_mono_add [OF this subset_mset.order_refl [of "mset rest"]] show ?thesis
      using assms(1) BufRun q s by (simp add: buf_run_def total_holds_def)
  qed
next
  case BufStop
  then show ?thesis using assms(1) by (simp add: buf_stop_def total_holds_def)
qed

lemma buf_keeps:
  assumes "\<forall>r \<in> set (bx_buf b). valid r" "\<forall>r \<in> set (appended ops). valid r"
  shows "total_holds b + mset (appended ops) \<subseteq># total_holds (foldl (\<lambda>b x. buf_do append x b) b ops)"
  using assms
proof (induction ops arbitrary: b)
  case (Cons x ops)
  let ?b = "buf_do append x b"
  have app: "appended (x # ops) = appended [x] @ appended ops" by (cases x) simp_all
  have v: "valid r" if "x = BufAppend env r" for env r using Cons.prems(2) that by simp
  have ops: "\<forall>r \<in> set (appended ops). valid r" using Cons.prems(2) app by auto
  have st: "(\<forall>r \<in> set (bx_buf ?b). valid r) \<and> total_holds b + mset (appended [x]) \<subseteq># total_holds ?b"
    by (rule buf_step [OF Cons.prems(1)]) (rule v)
  have "total_holds ?b + mset (appended ops) \<subseteq># total_holds (foldl (\<lambda>b x. buf_do append x b) ?b ops)"
    by (rule Cons.IH) (use st ops in simp_all)
  moreover have "total_holds b + mset (appended [x]) + mset (appended ops) \<subseteq># total_holds ?b + mset (appended ops)"
    using st by simp
  ultimately show ?case unfolding app foldl_Cons mset_append union_assoc by (rule subset_mset.order_trans [rotated])
qed simp

end

section \<open>The exporters of the package\<close>

definition file_holds :: "file_exporter \<Rightarrow> audit_record multiset" where
  "file_holds e = mset (fx_lines e)"

interpretation fx: exporter file_Append file_holds
  by unfold_locales (auto simp: file_Append_def file_holds_def split: option.splits if_splits)

definition s3_holds :: "s3_exporter \<Rightarrow> audit_record multiset" where
  "s3_holds e = mset (sx_pending e) + mset (concat (sx_flying e)) + mset (concat (map ob_records (sx_objects e)))"

lemma take_holds: "s3_take e = (e', b) \<Longrightarrow> s3_holds e' = s3_holds e"
  by (auto simp: s3_take_def s3_holds_def)

lemma concat_remove1: "b \<in> set bs \<Longrightarrow> mset (concat bs) = mset b + mset (concat (remove1 b bs))"
  by (induction bs) auto

lemma put_holds:
  assumes "s3_put t now res b e = (e', err)" "b \<in> set (sx_flying e)"
  shows "s3_holds e' = s3_holds e + (if res = StoredButFailed then mset b else {#})"
  using assms(1) concat_remove1 [OF assms(2)]
  by (cases res) (auto simp: s3_put_def Let_def s3_holds_def ac_simps)

lemma flush_holds:
  assumes "s3_flush env e = (e', err)"
  shows "s3_holds e \<subseteq># s3_holds e' \<and> set_mset (s3_holds e') = set_mset (s3_holds e)"
proof (cases "sx_pending e = []")
  case True
  then have "e' = e\<lparr>sx_pending := []\<rparr>" using assms by (simp add: s3_flush_def s3_take_def)
  then show ?thesis using True by (simp add: s3_holds_def)
next
  case False
  obtain e1 b where t: "s3_take e = (e1, b)" by fastforce
  obtain tm now res where env: "env = (tm, now, res)" by (cases env) auto
  have b: "b = sx_pending e" "b \<noteq> []" "b \<in> set (sx_flying e1)" using t False by (auto simp: s3_take_def)
  then have p: "s3_put tm now res b e1 = (e', err)"
  proof -
    obtain x xs where "b = x # xs" using b(2) by (cases b) auto
    then show ?thesis using assms t env by (simp add: s3_flush_def)
  qed
  have "set b \<subseteq> set_mset (s3_holds e)" using b by (auto simp: s3_holds_def)
  then show ?thesis using put_holds [OF p b(3)] take_holds [OF t] by auto
qed

lemma s3_append_holds:
  assumes "s3_Append env e r = (e', err)"
  shows "(Record_Validate r = None \<longrightarrow> add_mset r (s3_holds e) \<subseteq># s3_holds e') \<and> s3_holds e \<subseteq># s3_holds e' \<and>
    set_mset (s3_holds e') \<subseteq> insert r (set_mset (s3_holds e))"
proof (cases "Record_Validate r")
  case None
  obtain e1 k where q: "s3_enqueue e r = (e1, k)" by fastforce
  have h: "s3_holds e1 = add_mset r (s3_holds e)" using q by (auto simp: s3_enqueue_def s3_holds_def Let_def)
  have "s3_holds e1 \<subseteq># s3_holds e' \<and> set_mset (s3_holds e') = set_mset (s3_holds e1)"
    using assms None q flush_holds [of env e1 e' err] by (cases k) (auto simp: s3_Append_def)
  then show ?thesis using h by (auto intro: subset_mset.order_trans [of _ "add_mset r (s3_holds e)"])
next
  case (Some x)
  then have "e' = e" using assms by (simp add: s3_Append_def)
  then show ?thesis using Some by auto
qed

definition valid_record :: "audit_record \<Rightarrow> bool" where
  "valid_record r \<longleftrightarrow> Record_Validate r = None"

lemma s3_append_ok: "s3_Append env e r = (e', None) \<Longrightarrow> Record_Validate r = None"
  by (auto simp: s3_Append_def split: option.splits)

interpretation sx: retaining_exporter s3_Append s3_holds valid_record
  by unfold_locales (use s3_append_holds s3_append_ok in \<open>fastforce simp: valid_record_def\<close>)+

text \<open>The exporter under concurrency: appends, the two halves of any number of overlapping flushes
  (from appends, the ticker or a close), each with any result.\<close>

inductive s3_step :: "s3_exporter \<times> audit_record list \<Rightarrow> s3_exporter \<times> audit_record list \<Rightarrow> bool" where
  enqueue: "Record_Validate r = None \<Longrightarrow> s3_enqueue e r = (e', k) \<Longrightarrow> s3_step (e, l) (e', l @ [r])"
| taken: "s3_take e = (e', b) \<Longrightarrow> s3_step (e, l) (e', l)"
| ended: "b \<in> set (sx_flying e) \<Longrightarrow> s3_put t now res b e = (e', err) \<Longrightarrow> s3_step (e, l) (e', l)"
| stopped: "s3_step (e, l) (e\<lparr>sx_stopped := True\<rparr>, l)"

definition s3_good :: "s3_exporter \<times> audit_record list \<Rightarrow> bool" where
  "s3_good s \<longleftrightarrow> mset (snd s) \<subseteq># s3_holds (fst s) \<and> set_mset (s3_holds (fst s)) \<subseteq> set (snd s) \<and>
     list_all (\<lambda>ob. ob_lock ob = None \<longleftrightarrow> sx_mode (fst s) = []) (sx_objects (fst s))"

lemma put_objects:
  "s3_put t now res b e = (e', err) \<Longrightarrow> sx_mode e' = sx_mode e \<and>
     (sx_objects e' = sx_objects e \<or> (\<exists>ob. sx_objects e' = sx_objects e @ [ob] \<and> (ob_lock ob = None \<longleftrightarrow> sx_mode e = [])))"
  by (auto simp: s3_put_def Let_def split: put_result.splits)

lemma s3_step_good: "s3_step s s' \<Longrightarrow> s3_good s \<Longrightarrow> s3_good s'"
proof (induction rule: s3_step.induct)
  case (enqueue r e e' k l)
  then have "s3_holds e' = add_mset r (s3_holds e)" "sx_objects e' = sx_objects e" "sx_mode e' = sx_mode e"
    by (auto simp: s3_enqueue_def s3_holds_def Let_def)
  then show ?case using enqueue.prems by (auto simp: s3_good_def)
next
  case (taken e e' b l)
  then show ?case using take_holds [OF taken(1)] by (auto simp: s3_good_def s3_take_def)
next
  case (ended b e t now res e' err l)
  have "set b \<subseteq> set_mset (s3_holds e)" using ended(1) by (auto simp: s3_holds_def)
  moreover have "s3_holds e \<subseteq># s3_holds e'" using put_holds [OF ended(2,1)] by simp
  ultimately show ?case
    using put_holds [OF ended(2,1)] put_objects [OF ended(2)] ended.prems
    by (auto simp: s3_good_def intro: subset_mset.order_trans split: if_splits)
next
  case (stopped e l)
  then show ?case by (simp add: s3_good_def s3_holds_def)
qed


text \<open>
  The buffered wrapper over S3 drops nothing: after any sequence of appends of valid records,
  worker turns and a stop, with any results of the uploads, every appended record is in the buffer or
  with the exporter, also when the buffer was full or an upload failed.
\<close>

theorem buffered_export_complete:
  assumes "NewS3Exporter c opts = Some e0" "list_all (\<lambda>r. Record_Validate r = None) (appended ops)"
  shows "mset (appended ops) \<subseteq># mset (bx_buf (foldl (\<lambda>b x. buf_do s3_Append x b) (NewBufferedExporter e0 n) ops)) +
    s3_holds (bx_inner (foldl (\<lambda>b x. buf_do s3_Append x b) (NewBufferedExporter e0 n) ops))"
proof -
  have "sx.total_holds (NewBufferedExporter e0 n) = {#}"
    using assms(1) by (auto simp: sx.total_holds_def NewBufferedExporter_def NewS3Exporter_def Let_def s3_holds_def split: if_splits)
  moreover have "\<forall>r \<in> set (bx_buf (NewBufferedExporter e0 n)). valid_record r" by (simp add: NewBufferedExporter_def)
  moreover have "\<forall>r \<in> set (appended ops). valid_record r" using assms(2) by (simp add: list_all_iff valid_record_def)
  ultimately show ?thesis
    using sx.buf_keeps [of "NewBufferedExporter e0 n" ops] by (simp add: sx.total_holds_def add.commute)
qed

text \<open>
  What is appended after the worker has ended is lost in silence: while the buffer has room the
  append reports success, and no later turn of the worker takes the record out of the buffer again.
\<close>

theorem append_after_close_stranded:
  assumes "bx_exited b" "length (bx_buf b) < bx_cap b"
  shows "\<exists>b'. buf_Append (s3_Append env) b r = (b', None) \<and> bx_inner b' = bx_inner b \<and>
    ((\<lambda>b. buf_run (s3_Append env2) b) ^^ n) b' = b' \<and> r \<in> set (bx_buf b')"
proof -
  define b' where "b' = b\<lparr>bx_buf := bx_buf b @ [r]\<rparr>"
  have "((\<lambda>b. buf_run (s3_Append env2) b) ^^ n) b' = b'"
    by (induction n) (simp_all add: buf_run_def b'_def assms(1))
  moreover have "buf_Append (s3_Append env) b r = (b', None)" using assms(2) by (simp add: buf_Append_def b'_def)
  ultimately show ?thesis by (intro exI [of _ b']) (simp add: b'_def)
qed

definition demo_record :: audit_record where
  "demo_record = \<lparr>au_id = [], au_tenant = ''acme'', au_actor = ''admin'', au_action = ''tenant.create'',
     au_details = Map.empty, au_source = [], au_at = 1\<rparr>"

definition demo_s3 :: s3_options where
  "demo_s3 = \<lparr>s3_bucket = ''audit'', s3_prefix = [], s3_lock_mode = ''compliance'', s3_retain = 0,
     s3_flush_interval = 0, s3_flush_at = 1\<rparr>"

lemma demo_valid: "Record_Validate demo_record = None"
  by (simp add: Record_Validate_def demo_record_def second_def)

lemma demo_exporter: "\<exists>e. NewS3Exporter True demo_s3 = Some e \<and> sx_flush_at e = 1 \<and> sx_pending e = [] \<and> sx_flying e = []
    \<and> sx_objects e = [] \<and> sx_mode e = ''COMPLIANCE''"
proof -
  have "map upper_char ''compliance'' = ''COMPLIANCE''" by code_simp
  then show ?thesis by (simp add: NewS3Exporter_def demo_s3_def s3_defaults_def Let_def)
qed

theorem checksum_is_base64_witness:
  "hexToBase64SHA256 [77, 97, 110, 0, 255] = base64 [77, 97, 110, 0, 255]"
  by (rule checksum_is_base64) simp


theorem buffered_export_complete_witness:
  "\<exists>e0 b. NewS3Exporter True demo_s3 = Some e0 \<and>
     b = foldl (\<lambda>b x. buf_do s3_Append x b) (NewBufferedExporter e0 1)
       [BufAppend (0, 0, Stored) demo_record, BufAppend (0, 0, Failed) demo_record, BufRun (0, 0, StoredButFailed)] \<and>
     mset [demo_record, demo_record] \<subseteq># mset (bx_buf b) + s3_holds (bx_inner b)"
proof -
  obtain e0 where e0: "NewS3Exporter True demo_s3 = Some e0" using demo_exporter by blast
  let ?ops = "[BufAppend (0, 0, Stored) demo_record, BufAppend (0, 0, Failed) demo_record, BufRun (0, 0, StoredButFailed)]
    :: (int \<times> int \<times> put_result) buf_op list"
  have "list_all (\<lambda>r. Record_Validate r = None) (appended ?ops)" using demo_valid by simp
  from buffered_export_complete [OF e0 this, of 1] show ?thesis using e0 by (intro exI conjI) simp_all
qed

theorem append_after_close_stranded_witness:
  "\<exists>e0 b'. NewS3Exporter True demo_s3 = Some e0 \<and>
     buf_Append (s3_Append (0, 0, Stored)) ((NewBufferedExporter e0 4)\<lparr>bx_exited := True\<rparr>) demo_record = (b', None) \<and>
     ((\<lambda>b. buf_run (s3_Append (0, 0, Stored)) b) ^^ 7) b' = b' \<and> bx_buf b' \<noteq> []"
proof -
  obtain e0 where e0: "NewS3Exporter True demo_s3 = Some e0" using demo_exporter by blast
  have h: "bx_exited ((NewBufferedExporter e0 4)\<lparr>bx_exited := True\<rparr>)"
    "length (bx_buf ((NewBufferedExporter e0 4)\<lparr>bx_exited := True\<rparr>)) < bx_cap ((NewBufferedExporter e0 4)\<lparr>bx_exited := True\<rparr>)"
    by (simp_all add: NewBufferedExporter_def)
  show ?thesis using append_after_close_stranded [OF h, of "(0, 0, Stored)" demo_record 7 "(0, 0, Stored)"] e0 by fastforce
qed

end
