(* ===== verification/Oidc.thy ===== *)
theory Oidc
  imports Prelude
begin

text \<open>
  Operator authentication (\<open>pkg/oidc\<close>): discovery, the key set with its refreshes, the validation of a
  token and the middlewares. The JWT library is a parameter: \<open>parse\<close> gives the key ids of a token's
  headers, \<open>verify\<close> the claims of a token under a key, \<open>std_ok\<close> is \<open>ValidateWithLeeway\<close>. What the
  issuer's endpoints answer is an input, \<open>None\<close> for any failure.
\<close>

section \<open>Configuration and discovery\<close>

record oidc_config =
  oc_Issuer :: string
  oc_Audience :: string
  oc_AdminGroups :: "string list"
  oc_GroupClaim :: string
  oc_Skew :: int
  oc_JWKSRefresh :: int

definition oidc_defaults :: "oidc_config \<Rightarrow> oidc_config" where
  "oidc_defaults c =
     c\<lparr>oc_Skew := (if oc_Skew c \<le> 0 then 60 * second else oc_Skew c),
       oc_JWKSRefresh := (if oc_JWKSRefresh c \<le> 0 then 15 * minute else oc_JWKSRefresh c),
       oc_GroupClaim := (if oc_GroupClaim c = [] then ''groups'' else oc_GroupClaim c)\<rparr>"

record discoveryDoc =
  dd_issuer :: string
  dd_jwks_uri :: string

record 'k jwk =
  jk_kid :: string
  jk_key :: 'k

record 'k validator =
  vd_cfg :: oidc_config
  vd_jwksURI :: string
  vd_keys :: "'k jwk list option"
  vd_keysAt :: int

datatype oidc_error = IssuerRequired | AudienceRequired | DiscoveryFailed | IssuerMismatch | JWKSFailed
  | InvalidToken | InsufficientGroup

definition fetchDiscovery :: "discoveryDoc option \<Rightarrow> discoveryDoc option" where
  "fetchDiscovery answer =
     (case answer of
        None \<Rightarrow> None
      | Some d \<Rightarrow> if dd_issuer d = [] \<or> dd_jwks_uri d = [] then None else Some d)"

definition refreshKeys :: "int \<Rightarrow> 'k jwk list option \<Rightarrow> 'k validator \<Rightarrow> 'k validator \<times> bool" where
  "refreshKeys now answer v =
     (case answer of
        None \<Rightarrow> (v, False)
      | Some keys \<Rightarrow> (v\<lparr>vd_keys := Some keys, vd_keysAt := now\<rparr>, True))"

definition NewValidator ::
  "int \<Rightarrow> discoveryDoc option \<Rightarrow> 'k jwk list option \<Rightarrow> oidc_config \<Rightarrow> oidc_error + 'k validator" where
  "NewValidator now disco jwks c0 =
     (let c = oidc_defaults c0
      in if oc_Issuer c = [] then Inl IssuerRequired
         else if oc_Audience c = [] then Inl AudienceRequired
         else case fetchDiscovery disco of
           None \<Rightarrow> Inl DiscoveryFailed
         | Some d \<Rightarrow>
             if dd_issuer d \<noteq> oc_Issuer c then Inl IssuerMismatch
             else (case refreshKeys now jwks
                     \<lparr>vd_cfg = c, vd_jwksURI = dd_jwks_uri d, vd_keys = None, vd_keysAt = 0\<rparr> of
                     (v, True) \<Rightarrow> Inr v
                   | (v, False) \<Rightarrow> Inl JWKSFailed))"

section \<open>Tokens\<close>

text \<open>Claim values as \<open>encoding/json\<close> decodes them: the elements of an array that are no strings are
  \<open>None\<close>.\<close>

datatype claim = CString string | CArray "string option list" | COther

record std_claims =
  sc_issuer :: string
  sc_subject :: string
  sc_audience :: "string list"
  sc_expiry :: "int option"
  sc_issued :: "int option"

record oidc_claims =
  cl_Subject :: string
  cl_Email :: string
  cl_Issuer :: string
  cl_Groups :: "string list"
  cl_IssuedAt :: "int option"
  cl_Expires :: "int option"

fun fields_of :: "string \<Rightarrow> string list \<Rightarrow> string \<Rightarrow> string list" where
  "fields_of cur acc [] = (if cur = [] then acc else acc @ [cur])"
| "fields_of cur acc (c # cs) =
     (if c = CHR '' '' \<or> c = CHR '','' then fields_of [] (if cur = [] then acc else acc @ [cur]) cs
      else fields_of (cur @ [c]) acc cs)"

definition splitNonEmpty :: "string \<Rightarrow> string list" where
  "splitNonEmpty s = filter (\<lambda>p. p \<noteq> []) (fields_of [] [] s)"

definition extractGroups :: "(string \<rightharpoonup> claim) \<Rightarrow> string \<Rightarrow> string list" where
  "extractGroups claims k =
     (case claims k of
        None \<Rightarrow> []
      | Some (CArray xs) \<Rightarrow> List.map_filter id xs
      | Some (CString s) \<Rightarrow> splitNonEmpty s
      | Some COther \<Rightarrow> [])"

definition overlap :: "string list \<Rightarrow> string list \<Rightarrow> bool" where
  "overlap a b \<longleftrightarrow> list_ex (\<lambda>x. x \<in> set b) a"

definition lookupKey :: "'k jwk list option \<Rightarrow> string \<Rightarrow> 'k jwk option" where
  "lookupKey ks kid =
     (case ks of
        None \<Rightarrow> None
      | Some xs \<Rightarrow>
          (case List.find (\<lambda>k. jk_kid k = kid) xs of
             Some k \<Rightarrow> Some k
           | None \<Rightarrow> if kid = [] \<and> length xs = 1 then Some (hd xs) else None))"

text \<open>\<open>answer\<close> is what the endpoint would answer if it is asked.\<close>

definition resolveKey ::
  "int \<Rightarrow> 'k jwk list option \<Rightarrow> 'k validator \<Rightarrow> string list \<Rightarrow> 'k validator \<times> 'k option" where
  "resolveKey now answer v headers =
     (case headers of
        [] \<Rightarrow> (v, None)
      | kid # _ \<Rightarrow>
          (case lookupKey (vd_keys v) kid of
             Some k \<Rightarrow> (v, Some (jk_key k))
           | None \<Rightarrow>
               (case refreshKeys now answer v of
                  (v', True) \<Rightarrow> (v', map_option jk_key (lookupKey (vd_keys v') kid))
                | (v', False) \<Rightarrow> (v', None))))"

record 'k jwt_library =
  jl_parse :: "string \<Rightarrow> string list option"
  jl_verify :: "'k \<Rightarrow> string \<Rightarrow> (std_claims \<times> (string \<rightharpoonup> claim)) option"
  jl_std_ok :: "string \<Rightarrow> string \<Rightarrow> int \<Rightarrow> int \<Rightarrow> std_claims \<Rightarrow> bool"

definition oidc_Validate ::
  "'k jwt_library \<Rightarrow> int \<Rightarrow> 'k jwk list option \<Rightarrow> 'k validator \<Rightarrow> string \<Rightarrow>
   'k validator \<times> (oidc_error + oidc_claims)" where
  "oidc_Validate lib now answer v raw =
     (case jl_parse lib raw of
        None \<Rightarrow> (v, Inl InvalidToken)
      | Some headers \<Rightarrow>
          (case resolveKey now answer v headers of
             (v', None) \<Rightarrow> (v', Inl InvalidToken)
           | (v', Some key) \<Rightarrow>
               (v', case jl_verify lib key raw of
                  None \<Rightarrow> Inl InvalidToken
                | Some (std, claims) \<Rightarrow>
                    if \<not> jl_std_ok lib (oc_Issuer (vd_cfg v)) (oc_Audience (vd_cfg v)) now (oc_Skew (vd_cfg v)) std
                    then Inl InvalidToken
                    else
                      let groups = extractGroups claims (oc_GroupClaim (vd_cfg v))
                      in if oc_AdminGroups (vd_cfg v) \<noteq> [] \<and> \<not> overlap groups (oc_AdminGroups (vd_cfg v))
                         then Inl InsufficientGroup
                         else Inr
                           \<lparr>cl_Subject = sc_subject std,
                            cl_Email = (case claims ''email'' of Some (CString e) \<Rightarrow> e | _ \<Rightarrow> []),
                            cl_Issuer = sc_issuer std, cl_Groups = groups,
                            cl_IssuedAt = sc_issued std, cl_Expires = sc_expiry std\<rparr>)))"

definition IsAuthn :: "oidc_error \<Rightarrow> bool" where "IsAuthn e \<longleftrightarrow> e = InvalidToken"

definition IsAuthz :: "oidc_error \<Rightarrow> bool" where "IsAuthz e \<longleftrightarrow> e = InsufficientGroup"

section \<open>Middlewares\<close>

definition bearerFromHeader :: "string \<Rightarrow> string" where
  "bearerFromHeader h = (if has_prefix h ''Bearer '' then drop 7 h else [])"

text \<open>A request as far as the middleware reads or writes it; an absent header is the empty string.\<close>

record operator_request =
  or_authorization :: string
  or_subject :: string
  or_email :: string
  or_actor :: string
  or_claims :: "oidc_claims option"

datatype operator_reply = Denied nat string | Admitted operator_request

definition WithClaims :: "oidc_claims \<Rightarrow> operator_request \<Rightarrow> operator_request" where
  "WithClaims c r = r\<lparr>or_claims := Some c\<rparr>"

definition oidc_Middleware ::
  "'k jwt_library \<Rightarrow> int \<Rightarrow> 'k jwk list option \<Rightarrow> 'k validator \<Rightarrow> operator_request \<Rightarrow>
   'k validator \<times> operator_reply" where
  "oidc_Middleware lib now answer v r =
     (let token = bearerFromHeader (or_authorization r)
      in if token = [] then (v, Denied 401 ''missing bearer token'')
         else case oidc_Validate lib now answer v token of
           (v', Inl e) \<Rightarrow>
             (v', if IsAuthz e then Denied 403 ''operator not in admin group'' else Denied 401 ''invalid token'')
         | (v', Inr c) \<Rightarrow>
             (let r1 = r\<lparr>or_subject := cl_Subject c\<rparr>;
                  r2 = (if cl_Email c \<noteq> [] then r1\<lparr>or_email := cl_Email c\<rparr> else r1)
              in (v', Admitted (WithClaims c r2))))"

section \<open>Facts\<close>

lemma lookup_in: "lookupKey ks kid = Some k \<Longrightarrow> \<exists>xs. ks = Some xs \<and> k \<in> set xs \<and> (jk_kid k = kid \<or> kid = [] \<and> xs = [k])"
proof -
  assume k: "lookupKey ks kid = Some k"
  then obtain xs where xs: "ks = Some xs" by (auto simp: lookupKey_def split: option.splits)
  show ?thesis
  proof (cases "List.find (\<lambda>k. jk_kid k = kid) xs")
    case None
    then have "kid = []" "length xs = 1" "k = hd xs" using k xs by (auto simp: lookupKey_def split: if_splits)
    then show ?thesis using xs by (cases xs) auto
  next
    case (Some k')
    then have "k' = k" using k xs by (simp add: lookupKey_def)
    moreover have "k' \<in> set xs \<and> jk_kid k' = kid" using Some nth_mem by (fastforce simp: find_Some_iff)
    ultimately show ?thesis using xs by simp
  qed
qed

lemma fields_nonempty: "[] \<notin> set acc \<Longrightarrow> [] \<notin> set (fields_of cur acc s)"
  by (induction cur acc s rule: fields_of.induct) auto

lemma fields_no_sep:
  "list_all (\<lambda>p. CHR '' '' \<notin> set p \<and> CHR '','' \<notin> set p) (cur # acc) \<Longrightarrow>
   list_all (\<lambda>p. CHR '' '' \<notin> set p \<and> CHR '','' \<notin> set p) (fields_of cur acc s)"
  by (induction cur acc s rule: fields_of.induct) auto

lemma split_fields: "splitNonEmpty s = fields_of [] [] s"
  using fields_nonempty [of "[]" "[]" s] by (auto simp: splitNonEmpty_def filter_id_conv)

end
