(* ===== verification/OidcProps.thy ===== *)
theory OidcProps
  imports Oidc
begin

text \<open>
  Who gets past the operator login: only holders of a token that a key of the last key set verifies,
  of the configured issuer and audience, and in an admin group. The key set as a state machine over
  refreshes and validations, and the headers the middleware forwards.
\<close>

section \<open>The key set\<close>

datatype 'k oidc_event = Tick int "'k jwk list option" | Login int "'k jwk list option" string

fun oidc_do :: "'k jwt_library \<Rightarrow> 'k oidc_event \<Rightarrow> 'k validator \<Rightarrow> 'k validator" where
  "oidc_do lib (Tick now answer) v = fst (refreshKeys now answer v)"
| "oidc_do lib (Login now answer raw) v = fst (oidc_Validate lib now answer v raw)"

definition oidc_run :: "'k jwt_library \<Rightarrow> 'k oidc_event list \<Rightarrow> 'k validator \<Rightarrow> 'k validator" where
  "oidc_run lib evs v = foldl (\<lambda>v x. oidc_do lib x v) v evs"

text \<open>The answers the issuer can have given in a history.\<close>

fun answers :: "'k oidc_event list \<Rightarrow> 'k jwk list set" where
  "answers [] = {}"
| "answers (Tick _ a # evs) = set_option a \<union> answers evs"
| "answers (Login _ a _ # evs) = set_option a \<union> answers evs"

lemma refresh_frame: "vd_cfg (fst (refreshKeys now a v)) = vd_cfg v"
  by (cases a) (simp_all add: refreshKeys_def)

lemma refresh_keys: "vd_keys (fst (refreshKeys now a v)) = (case a of None \<Rightarrow> vd_keys v | Some ks \<Rightarrow> Some ks)"
  by (cases a) (simp_all add: refreshKeys_def)

lemma resolve_state:
  "fst (resolveKey now a v hs) = v \<or> fst (resolveKey now a v hs) = fst (refreshKeys now a v)"
  by (cases hs) (auto simp: resolveKey_def split: option.split prod.split bool.split)

lemma validate_state:
  "fst (oidc_Validate lib now a v raw) = v \<or> fst (oidc_Validate lib now a v raw) = fst (refreshKeys now a v)"
proof (cases "jl_parse lib raw")
  case (Some hs)
  have "fst (oidc_Validate lib now a v raw) = fst (resolveKey now a v hs)"
    by (simp add: oidc_Validate_def Some split: prod.split option.split)
  then show ?thesis using resolve_state [of now a v hs] by simp
qed (simp add: oidc_Validate_def)

lemma run_keys:
  "vd_keys (oidc_run lib evs v) \<in> insert (vd_keys v) (Some ` answers evs) \<and> vd_cfg (oidc_run lib evs v) = vd_cfg v"
proof (induction evs rule: rev_induct)
  case (snoc x evs)
  let ?v = "oidc_run lib evs v"
  have app: "answers (evs @ [x]) = answers evs \<union> answers [x]" by (induction evs rule: answers.induct) auto
  have run: "oidc_run lib (evs @ [x]) v = oidc_do lib x ?v" by (simp add: oidc_run_def)
  have "vd_keys (oidc_do lib x ?v) \<in> insert (vd_keys ?v) (Some ` answers [x]) \<and> vd_cfg (oidc_do lib x ?v) = vd_cfg ?v"
  proof (cases x)
    case (Tick now a)
    then show ?thesis by (cases a) (simp_all add: refreshKeys_def)
  next
    case (Login now a raw)
    then show ?thesis using validate_state [of lib now a ?v raw] refresh_frame [of now a ?v] refresh_keys [of now a ?v]
      by (cases a) auto
  qed
  then show ?case using snoc unfolding run app by auto
qed (simp add: oidc_run_def)

text \<open>
  C24. Only genuine operators are admitted: after any history of key refreshes and logins, the
  middleware admits a request only when its bearer token parses, a key the issuer has published in
  that history (or at the start) verifies it, the claims are accepted for the configured issuer,
  audience, time and leeway, and, with admin groups configured, one of them is among the token's
  groups; the forwarded subject is the token's.
\<close>

theorem oidc_admits_genuine:
  assumes "oidc_Middleware lib now a (oidc_run lib evs v) r = (v', Admitted r')"
  shows "\<exists>key std claims ks. jl_verify lib key (bearerFromHeader (or_authorization r)) = Some (std, claims) \<and>
    ks \<in> answers evs \<union> set_option (vd_keys v) \<union> set_option a \<and> key \<in> jk_key ` set ks \<and>
    jl_std_ok lib (oc_Issuer (vd_cfg v)) (oc_Audience (vd_cfg v)) now (oc_Skew (vd_cfg v)) std \<and>
    (oc_AdminGroups (vd_cfg v) = [] \<or>
      set (extractGroups claims (oc_GroupClaim (vd_cfg v))) \<inter> set (oc_AdminGroups (vd_cfg v)) \<noteq> {}) \<and>
    or_subject r' = sc_subject std"
proof -
  define w where "w = oidc_run lib evs v"
  define tok where "tok = bearerFromHeader (or_authorization r)"
  have w: "vd_keys w \<in> insert (vd_keys v) (Some ` answers evs)" "vd_cfg w = vd_cfg v"
    using run_keys [of lib evs v] by (simp_all add: w_def)
  obtain c where c: "oidc_Validate lib now a w tok = (v', Inr c)" "or_subject r' = cl_Subject c"
    using assms by (auto simp: oidc_Middleware_def Let_def WithClaims_def w_def [symmetric] tok_def [symmetric]
        split: if_splits prod.splits sum.splits)
  obtain hs key where k: "jl_parse lib tok = Some hs" "resolveKey now a w hs = (v', Some key)"
    using c(1) by (auto simp: oidc_Validate_def split: option.splits prod.splits)
  obtain std claims where s: "jl_verify lib key tok = Some (std, claims)"
      "jl_std_ok lib (oc_Issuer (vd_cfg w)) (oc_Audience (vd_cfg w)) now (oc_Skew (vd_cfg w)) std"
      "oc_AdminGroups (vd_cfg w) = [] \<or> overlap (extractGroups claims (oc_GroupClaim (vd_cfg w))) (oc_AdminGroups (vd_cfg w))"
      "cl_Subject c = sc_subject std"
    using c(1) k by (auto simp: oidc_Validate_def Let_def split: option.splits prod.splits if_splits)
  obtain kid hs' where hs: "hs = kid # hs'" using k(2) by (cases hs) (auto simp: resolveKey_def)
  have "\<exists>ks. (Some ks = vd_keys w \<or> Some ks = a) \<and> key \<in> jk_key ` set ks"
  proof (cases "lookupKey (vd_keys w) kid")
    case (Some j)
    then have "key = jk_key j" using k(2) by (simp add: hs resolveKey_def)
    then show ?thesis using lookup_in [OF Some] by force
  next
    case None
    then obtain ks j where j: "a = Some ks" "lookupKey (Some ks) kid = Some j" "key = jk_key j"
      using k(2) by (cases a) (auto simp: hs resolveKey_def refreshKeys_def)
    then show ?thesis using lookup_in [OF j(2)] by force
  qed
  then obtain ks where ks: "Some ks = vd_keys w \<or> Some ks = a" "key \<in> jk_key ` set ks" by blast
  have "ks \<in> answers evs \<union> set_option (vd_keys v) \<union> set_option a" using ks(1) w(1) by auto
  moreover have "set (extractGroups claims g) \<inter> set gs \<noteq> {}" if "overlap (extractGroups claims g) gs" for g gs
    using that by (auto simp: overlap_def list_ex_iff)
  ultimately show ?thesis using s c(2) ks(2) w(2) unfolding tok_def by metis
qed

text \<open>
  A withdrawn key dies with the next successful refresh, and not before: right after a refresh
  that answered with a set without its key id, and as long as no later answer brings it back, a token
  of that key id is refused; while refreshes fail, the key set in use does not change.
\<close>

theorem oidc_key_rotation:
  assumes "jl_parse lib raw = Some (kid # hs)" "kid \<noteq> []" "\<forall>k \<in> set ks. jk_kid k \<noteq> kid"
    "\<forall>ks' \<in> answers evs \<union> set_option a. \<forall>k \<in> set ks'. jk_kid k \<noteq> kid"
  shows "snd (oidc_Validate lib now a (oidc_run lib (Tick t (Some ks) # evs) v) raw) = Inl InvalidToken \<and>
    vd_keys (oidc_run lib (map (\<lambda>t. Tick t None) ts) v) = vd_keys v"
proof -
  define w where "w = oidc_run lib (Tick t (Some ks) # evs) v"
  have w: "vd_keys w \<in> insert (Some ks) (Some ` answers evs)"
    using run_keys [of lib evs "v\<lparr>vd_keys := Some ks, vd_keysAt := t\<rparr>"] by (simp add: w_def oidc_run_def refreshKeys_def)
  have none: "lookupKey x kid = None" if "\<forall>ks' \<in> set_option x. \<forall>k \<in> set ks'. jk_kid k \<noteq> kid" for x
  proof (rule ccontr)
    assume "lookupKey x kid \<noteq> None"
    then obtain k where "lookupKey x kid = Some k" by auto
    from lookup_in [OF this] show False using that assms(2) by auto
  qed
  have l: "lookupKey (vd_keys w) kid = None" by (rule none) (use w assms(3,4) in auto)
  have "lookupKey a kid = None" by (rule none) (use assms(4) in auto)
  then have "snd (resolveKey now a w (kid # hs)) = None"
    using l by (cases a) (simp_all add: resolveKey_def refreshKeys_def)
  then have "snd (oidc_Validate lib now a w raw) = Inl InvalidToken"
    using assms(1) by (auto simp: oidc_Validate_def split: prod.split)
  moreover have "vd_keys (oidc_run lib (map (\<lambda>t. Tick t None) ts) v) = vd_keys v"
    by (induction ts arbitrary: v) (simp_all add: oidc_run_def refreshKeys_def)
  ultimately show ?thesis by (simp add: w_def)
qed

text \<open>
  The operator's e-mail can be forged: when the token has no e-mail claim, an admitted request
  keeps whatever e-mail header its sender wrote.
\<close>

theorem oidc_email_forgeable:
  assumes "oidc_Middleware lib now a v r = (v', Admitted r')"
    "oidc_Validate lib now a v (bearerFromHeader (or_authorization r)) = (v', Inr c)"
  shows "or_email r' = (if cl_Email c = [] then or_email r else cl_Email c) \<and> or_actor r' = or_actor r"
  using assms by (auto simp: oidc_Middleware_def Let_def WithClaims_def split: if_splits)

definition demo_lib :: "nat jwt_library" where
  "demo_lib = \<lparr>jl_parse = (\<lambda>t. if t = ''t'' then Some [''k1''] else None),
     jl_verify = (\<lambda>k t. if k = 7 then Some (\<lparr>sc_issuer = ''idp'', sc_subject = ''alice'', sc_audience = [''observex''],
       sc_expiry = Some 100, sc_issued = None\<rparr>, [''groups'' \<mapsto> CString ''dev,ops'']) else None),
     jl_std_ok = (\<lambda>iss aud now skew c. sc_issuer c = iss \<and> aud \<in> set (sc_audience c) \<and>
       (case sc_expiry c of None \<Rightarrow> True | Some x \<Rightarrow> now \<le> x + skew))\<rparr>"

definition demo_cfg :: oidc_config where
  "demo_cfg = \<lparr>oc_Issuer = ''idp'', oc_Audience = ''observex'', oc_AdminGroups = [''ops''], oc_GroupClaim = [],
     oc_Skew = 0, oc_JWKSRefresh = 0\<rparr>"

definition demo_validator :: "nat validator" where
  "demo_validator = \<lparr>vd_cfg = oidc_defaults demo_cfg, vd_jwksURI = ''u'', vd_keys = Some [\<lparr>jk_kid = ''k1'', jk_key = 7\<rparr>],
     vd_keysAt = 0\<rparr>"

definition demo_request :: operator_request where
  "demo_request = \<lparr>or_authorization = ''Bearer t'', or_subject = [], or_email = ''root@corp'', or_actor = [],
     or_claims = None\<rparr>"

lemma demo_validates:
  "\<exists>c. oidc_Validate demo_lib 1 None demo_validator ''t'' = (demo_validator, Inr c) \<and> cl_Subject c = ''alice'' \<and> cl_Email c = []"
proof -
  have g: "splitNonEmpty ''dev,ops'' = [''dev'', ''ops'']" by code_simp
  show ?thesis
    by (simp add: oidc_Validate_def demo_lib_def demo_validator_def resolveKey_def lookupKey_def demo_cfg_def
        oidc_defaults_def extractGroups_def g overlap_def Let_def second_def)
qed

lemma demo_admitted:
  "\<exists>r'. oidc_Middleware demo_lib 1 None demo_validator demo_request = (demo_validator, Admitted r') \<and>
     or_subject r' = ''alice''"
proof -
  have b: "bearerFromHeader (or_authorization demo_request) = ''t''" by code_simp
  show ?thesis using demo_validates by (auto simp: oidc_Middleware_def b Let_def WithClaims_def)
qed

theorem oidc_admits_genuine_witness:
  "\<exists>r'. oidc_Middleware demo_lib 1 None (oidc_run demo_lib [] demo_validator) demo_request = (demo_validator, Admitted r') \<and>
     or_subject r' = ''alice'' \<and> set_option (vd_keys demo_validator) \<noteq> {}"
proof -
  obtain r' where r: "oidc_Middleware demo_lib 1 None (oidc_run demo_lib [] demo_validator) demo_request = (demo_validator, Admitted r')"
      "or_subject r' = ''alice''"
    using demo_admitted by (auto simp: oidc_run_def)
  show ?thesis using oidc_admits_genuine [OF r(1)] r by auto
qed

theorem oidc_key_rotation_witness:
  "snd (oidc_Validate demo_lib 1 None (oidc_run demo_lib [Tick 5 (Some [])] demo_validator) ''t'') = Inl InvalidToken"
  using oidc_key_rotation [of demo_lib "''t''" "''k1''" "[]" "[]" "[]" None 1 5 demo_validator "[]"]
  by (simp add: demo_lib_def)

theorem oidc_email_forgeable_witness:
  "\<exists>r'. oidc_Middleware demo_lib 1 None demo_validator demo_request = (demo_validator, Admitted r') \<and>
     or_subject r' = ''alice'' \<and> or_email r' = ''root@corp''"
proof -
  obtain r' where r: "oidc_Middleware demo_lib 1 None demo_validator demo_request = (demo_validator, Admitted r')"
      "or_subject r' = ''alice''"
    using demo_admitted by blast
  have b: "bearerFromHeader (or_authorization demo_request) = ''t''" by code_simp
  obtain c where c: "oidc_Validate demo_lib 1 None demo_validator ''t'' = (demo_validator, Inr c)" "cl_Email c = []"
    using demo_validates by blast
  show ?thesis using oidc_email_forgeable [OF r(1), of c] b c r by (simp add: demo_request_def)
qed

end
