(* ===== verification/TenantStore.thy ===== *)
theory TenantStore
  imports Auth
begin

text \<open>
  The control-plane repository (\<open>services/tenant-api/store/store.go\<close>) over the tables its migrations
  create: tenants, audit log and dashboards, with their keys and checks. The database's clock, the
  identifiers it generates and its failures (the text of the error, \<open>None\<close> when it works) are inputs;
  a violated constraint is an error with its SQLSTATE. Rows with equal sort keys keep their order. A layout
  is kept as the text that was sent (the database normalises its white space and key order).
\<close>

section \<open>Tables\<close>

record tenant =
  te_ID :: string
  te_DisplayName :: string
  te_Tier :: string
  te_RetentionDays :: int
  te_QuotaEPS :: int
  te_CreatedAt :: int
  te_DeletedAt :: "int option"

record audit_row =
  ar_tenant :: "string option"
  ar_actor :: string
  ar_action :: string
  ar_details :: "string \<rightharpoonup> string"
  ar_source :: string
  ar_created :: int

record dashboard =
  da_ID :: string
  da_TenantID :: string
  da_Name :: string
  da_Layout :: string
  da_CreatedBy :: string
  da_CreatedAt :: int
  da_UpdatedAt :: int

record tenant_db =
  db_tenants :: "tenant list"
  db_audit :: "audit_row list"
  db_dashboards :: "dashboard list"

text \<open>\<open>StoreFailed\<close> is any other error.\<close>

datatype store_error = ErrTenantNotFound | ErrTenantExists | ErrDashboardNotFound | ErrDashboardExists
  | FieldsRequired | StoreFailed

section \<open>Errors of the database\<close>

definition pg_message :: "string \<Rightarrow> string" where
  "pg_message code = ''ERROR (SQLSTATE '' @ code @ '')''"

text \<open>The substring search the package writes out by hand.\<close>

definition indexOf :: "string \<Rightarrow> string \<Rightarrow> int" where
  "indexOf s sub =
     (case List.find (\<lambda>i. take (length sub) (drop i s) = sub) [0..<Suc (length s) - length sub] of
        Some i \<Rightarrow> int i | None \<Rightarrow> -1)"

definition contains_text :: "string \<Rightarrow> string \<Rightarrow> bool" where
  "contains_text haystack needle \<longleftrightarrow>
     length needle \<le> length haystack \<and>
     (haystack = needle \<or>
      (length needle < length haystack \<and>
       (take (length needle) haystack = needle \<or>
        drop (length haystack - length needle) haystack = needle \<or>
        0 \<le> indexOf haystack needle)))"

definition isUniqueViolation :: "string option \<Rightarrow> bool" where
  "isUniqueViolation e =
     (case e of None \<Rightarrow> False | Some msg \<Rightarrow> contains_text msg ''23505'' \<or> contains_text msg ''duplicate key'')"

definition store_error_of :: "store_error \<Rightarrow> string \<Rightarrow> store_error" where
  "store_error_of exists msg = (if isUniqueViolation (Some msg) then exists else StoreFailed)"

section \<open>Tenants\<close>

definition tenant_checks :: "tenant \<Rightarrow> bool" where
  "tenant_checks t \<longleftrightarrow> te_Tier t \<in> {''free'', ''pro'', ''enterprise''} \<and>
     1 \<le> te_RetentionDays t \<and> te_RetentionDays t \<le> 365 \<and> 0 \<le> te_QuotaEPS t"

text \<open>The error of the insert, if any.\<close>

definition insert_tenant_error :: "string option \<Rightarrow> tenant_db \<Rightarrow> tenant \<Rightarrow> string option" where
  "insert_tenant_error fault db t =
     (case fault of
        Some msg \<Rightarrow> Some msg
      | None \<Rightarrow>
          if \<not> tenant_checks t then Some (pg_message ''23514'')
          else if te_ID t \<in> te_ID ` set (db_tenants db) then Some (pg_message ''23505'') else None)"

definition CreateTenant :: "string option \<Rightarrow> int \<Rightarrow> tenant_db \<Rightarrow> tenant \<Rightarrow> tenant_db \<times> (store_error + tenant)" where
  "CreateTenant fault now db t =
     (case insert_tenant_error fault db t of
        Some msg \<Rightarrow> (db, Inl (store_error_of ErrTenantExists msg))
      | None \<Rightarrow>
          (let t' = t\<lparr>te_CreatedAt := now, te_DeletedAt := None\<rparr>
           in (db\<lparr>db_tenants := db_tenants db @ [t']\<rparr>, Inr (t\<lparr>te_CreatedAt := now\<rparr>))))"

definition live_tenant :: "tenant \<Rightarrow> bool" where
  "live_tenant t \<longleftrightarrow> te_DeletedAt t = None"

definition GetTenant :: "string option \<Rightarrow> tenant_db \<Rightarrow> string \<Rightarrow> store_error + tenant" where
  "GetTenant fault db i =
     (case fault of
        Some _ \<Rightarrow> Inl StoreFailed
      | None \<Rightarrow> (case List.find (\<lambda>t. te_ID t = i \<and> live_tenant t) (db_tenants db) of
          None \<Rightarrow> Inl ErrTenantNotFound | Some t \<Rightarrow> Inr t))"

definition clamp_list :: "int \<Rightarrow> int" where
  "clamp_list limit = (if limit \<le> 0 \<or> 500 < limit then 100 else limit)"

definition ListTenants :: "string option \<Rightarrow> tenant_db \<Rightarrow> int \<Rightarrow> int \<Rightarrow> store_error + tenant list" where
  "ListTenants fault db limit offset =
     (if fault \<noteq> None \<or> offset < 0 then Inl StoreFailed
      else Inr (take (nat (clamp_list limit)) (drop (nat offset)
             (sort_key (\<lambda>t. - te_CreatedAt t) (filter live_tenant (db_tenants db))))))"

definition SoftDeleteTenant :: "string option \<Rightarrow> int \<Rightarrow> tenant_db \<Rightarrow> string \<Rightarrow> tenant_db \<times> store_error option" where
  "SoftDeleteTenant fault now db i =
     (if fault \<noteq> None then (db, Some StoreFailed)
      else if \<not> list_ex (\<lambda>t. te_ID t = i \<and> live_tenant t) (db_tenants db) then (db, Some ErrTenantNotFound)
      else (db\<lparr>db_tenants := map (\<lambda>t. if te_ID t = i \<and> live_tenant t then t\<lparr>te_DeletedAt := Some now\<rparr> else t)
                              (db_tenants db)\<rparr>, None))"

section \<open>Keys and audit log\<close>

definition ListKeys :: "string option \<Rightarrow> PostgresKeyStore \<Rightarrow> string \<Rightarrow> store_error + key_row list" where
  "ListKeys fault ks tid =
     (if fault \<noteq> None then Inl StoreFailed
      else Inr (sort_key (\<lambda>r. - kr_created r) (filter (\<lambda>r. kr_tenant r = tid) (pg_rows ks))))"

definition WriteAudit :: "string option \<Rightarrow> tenant_db \<Rightarrow> audit_row \<Rightarrow> tenant_db \<times> store_error option" where
  "WriteAudit fault db r =
     (if fault \<noteq> None then (db, Some StoreFailed) else (db\<lparr>db_audit := db_audit db @ [r]\<rparr>, None))"

definition clamp_audit :: "int \<Rightarrow> int" where
  "clamp_audit limit = (let l = (if limit < 1 then 100 else limit) in if 500 < l then 500 else l)"

text \<open>The ids of the log are serial, so the newest entry is the last one.\<close>

definition ListAudit :: "string option \<Rightarrow> tenant_db \<Rightarrow> string \<Rightarrow> int \<Rightarrow> store_error + audit_row list" where
  "ListAudit fault db tid limit =
     (if fault \<noteq> None then Inl StoreFailed
      else Inr (take (nat (clamp_audit limit))
             (rev (if tid = [] then db_audit db else filter (\<lambda>r. ar_tenant r = Some tid) (db_audit db)))))"

section \<open>Dashboards\<close>

text \<open>\<open>uuid\<close> is the cast of the database: the canonical form of a text, \<open>None\<close> for an error with
  SQLSTATE 22P02.\<close>

definition ListDashboards :: "string option \<Rightarrow> tenant_db \<Rightarrow> string \<Rightarrow> store_error + dashboard list" where
  "ListDashboards fault db tid =
     (if tid = [] then Inl FieldsRequired
      else if fault \<noteq> None then Inl StoreFailed
      else Inr (take 200 (sort_key (\<lambda>d. - da_UpdatedAt d) (filter (\<lambda>d. da_TenantID d = tid) (db_dashboards db)))))"

definition GetDashboard ::
  "(string \<Rightarrow> string option) \<Rightarrow> string option \<Rightarrow> tenant_db \<Rightarrow> string \<Rightarrow> store_error + dashboard" where
  "GetDashboard uuid fault db i =
     (if fault \<noteq> None then Inl StoreFailed
      else case uuid i of
        None \<Rightarrow> Inl StoreFailed
      | Some u \<Rightarrow> (case List.find (\<lambda>d. da_ID d = u) (db_dashboards db) of
          None \<Rightarrow> Inl ErrDashboardNotFound | Some d \<Rightarrow> Inr d))"

definition name_taken :: "tenant_db \<Rightarrow> string \<Rightarrow> string \<Rightarrow> string \<Rightarrow> bool" where
  "name_taken db i tid name \<longleftrightarrow> list_ex (\<lambda>d. da_ID d \<noteq> i \<and> da_TenantID d = tid \<and> da_Name d = name) (db_dashboards db)"

definition insert_dashboard_error :: "string option \<Rightarrow> tenant_db \<Rightarrow> string \<Rightarrow> dashboard \<Rightarrow> string option" where
  "insert_dashboard_error fault db i d =
     (case fault of
        Some msg \<Rightarrow> Some msg
      | None \<Rightarrow>
          if i \<in> da_ID ` set (db_dashboards db) \<or> name_taken db i (da_TenantID d) (da_Name d)
          then Some (pg_message ''23505'')
          else if da_TenantID d \<notin> te_ID ` set (db_tenants db) then Some (pg_message ''23503'') else None)"

definition CreateDashboard ::
  "string option \<Rightarrow> string \<Rightarrow> int \<Rightarrow> tenant_db \<Rightarrow> dashboard \<Rightarrow> tenant_db \<times> (store_error + dashboard)" where
  "CreateDashboard fault i now db d =
     (if da_TenantID d = [] \<or> da_Name d = [] \<or> da_Layout d = [] then (db, Inl FieldsRequired)
      else case insert_dashboard_error fault db i d of
        Some msg \<Rightarrow> (db, Inl (store_error_of ErrDashboardExists msg))
      | None \<Rightarrow>
          (let d' = d\<lparr>da_ID := i, da_CreatedAt := now, da_UpdatedAt := now\<rparr>
           in (db\<lparr>db_dashboards := db_dashboards db @ [d']\<rparr>, Inr d')))"

text \<open>The result carries the fields of the argument, and what the statement returns.\<close>

definition UpdateDashboard ::
  "(string \<Rightarrow> string option) \<Rightarrow> string option \<Rightarrow> int \<Rightarrow> tenant_db \<Rightarrow> dashboard \<Rightarrow>
   tenant_db \<times> (store_error + dashboard)" where
  "UpdateDashboard uuid fault now db d =
     (if da_ID d = [] \<or> da_Name d = [] \<or> da_Layout d = [] then (db, Inl FieldsRequired)
      else case fault of
        Some msg \<Rightarrow> (db, Inl (store_error_of ErrDashboardExists msg))
      | None \<Rightarrow>
          (case uuid (da_ID d) of
             None \<Rightarrow> (db, Inl StoreFailed)
           | Some u \<Rightarrow>
               (case List.find (\<lambda>x. da_ID x = u) (db_dashboards db) of
                  None \<Rightarrow> (db, Inl ErrDashboardNotFound)
                | Some old \<Rightarrow>
                    if name_taken db u (da_TenantID old) (da_Name d)
                    then (db, Inl (store_error_of ErrDashboardExists (pg_message ''23505'')))
                    else (db\<lparr>db_dashboards := map (\<lambda>x. if da_ID x = u
                             then x\<lparr>da_Name := da_Name d, da_Layout := da_Layout d, da_UpdatedAt := now\<rparr> else x)
                             (db_dashboards db)\<rparr>,
                          Inr (d\<lparr>da_TenantID := da_TenantID old, da_CreatedAt := da_CreatedAt old,
                                 da_UpdatedAt := now\<rparr>)))))"

definition DeleteDashboard ::
  "(string \<Rightarrow> string option) \<Rightarrow> string option \<Rightarrow> tenant_db \<Rightarrow> string \<Rightarrow> tenant_db \<times> store_error option" where
  "DeleteDashboard uuid fault db i =
     (if fault \<noteq> None then (db, Some StoreFailed)
      else case uuid i of
        None \<Rightarrow> (db, Some StoreFailed)
      | Some u \<Rightarrow>
          if \<not> list_ex (\<lambda>d. da_ID d = u) (db_dashboards db) then (db, Some ErrDashboardNotFound)
          else (db\<lparr>db_dashboards := filter (\<lambda>d. da_ID d \<noteq> u) (db_dashboards db)\<rparr>, None))"

section \<open>The substring search\<close>

lemma indexOf_nonneg: "0 \<le> indexOf s sub \<longleftrightarrow> (\<exists>i. i + length sub \<le> length s \<and> take (length sub) (drop i s) = sub)"
proof -
  have "(\<exists>i < Suc (length s) - length sub. take (length sub) (drop i s) = sub) \<longleftrightarrow>
      (\<exists>i. i + length sub \<le> length s \<and> take (length sub) (drop i s) = sub)"
    by (auto simp: less_diff_conv less_Suc_eq_le)
  then show ?thesis
    by (auto simp: indexOf_def find_Some_iff find_None_iff split: option.split)
qed

lemma contains_text_iff: "contains_text h n \<longleftrightarrow> (\<exists>a b. h = a @ n @ b)"
proof
  assume "\<exists>a b. h = a @ n @ b"
  then obtain a b where h: "h = a @ n @ b" by blast
  have "length a + length n \<le> length h \<and> take (length n) (drop (length a) h) = n" by (simp add: h)
  then have "0 \<le> indexOf h n" unfolding indexOf_nonneg by blast
  then show "contains_text h n" using h by (cases "h = n") (auto simp: contains_text_def)
next
  assume c: "contains_text h n"
  then consider "h = n" | "take (length n) h = n" | "drop (length h - length n) h = n"
    | i where "take (length n) (drop i h) = n"
    unfolding contains_text_def indexOf_nonneg by blast
  then show "\<exists>a b. h = a @ n @ b"
  proof cases
    case 1
    then show ?thesis by (intro exI [of _ "[]"]) simp
  next
    case 2
    then show ?thesis using append_take_drop_id [of "length n" h] by (metis append_Nil)
  next
    case 3
    then show ?thesis using append_take_drop_id [of "length h - length n" h] by (metis append_Nil2)
  next
    case (4 i)
    then have "h = take i h @ n @ drop (length n) (drop i h)" by (metis append_take_drop_id)
    then show ?thesis by blast
  qed
qed

lemma unique_messages: "isUniqueViolation (Some (pg_message ''23505''))" "\<not> isUniqueViolation (Some (pg_message ''23514''))"
  "\<not> isUniqueViolation (Some (pg_message ''23503''))"
  by code_simp+

end
