(* ===== verification/TenantApi.thy ===== *)
theory TenantApi
  imports TenantStore Oidc Retention Json GoNum
begin

text \<open>
  The control-plane service (\<open>services/tenant-api/cmd/main.go\<close>): administrator authentication and the
  handlers over the repository, the key store, the retention statements and the audit export. The
  framework's JSON binding is an input (\<open>None\<close> when it fails); a response is its status and body. A
  failed \<open>BindJSON\<close> has already sent status 400, which later statuses cannot change (the documented
  behaviour of the framework), so the status of a response is the first one written.
\<close>

section \<open>The server\<close>

record export_record =
  ex_TenantID :: string
  ex_Actor :: string
  ex_Action :: string
  ex_Details :: "string \<rightharpoonup> string"
  ex_SourceIP :: string
  ex_OccurredAt :: int

text \<open>\<open>sv_exported\<close> lists what was handed to the audit exporter, \<open>sv_ddl\<close> the statements ClickHouse
  executed.\<close>

record server =
  sv_adminToken :: string
  sv_oidc :: bool
  sv_db :: tenant_db
  sv_keys :: PostgresKeyStore
  sv_exporting :: bool
  sv_exported :: "export_record list"
  sv_clickhouse :: bool
  sv_ddl :: "string list"

text \<open>What a request meets: the clock, the failure of each database statement (the handler's first one,
  its second one, and the one of the audit entry), the peer's address and the request's headers.\<close>

record environment =
  en_now :: int
  en_fault :: "string option"
  en_fault2 :: "string option"
  en_audit_fault :: "string option"
  en_ip :: string
  en_headers :: operator_request

datatype body = NoBody | ErrorBody string | TenantBody tenant | TenantsBody "tenant list"
  | KeyBody IssuedKey | KeysBody "key_row list" | AuditBody "audit_row list" | AppliedBody string
  | DashboardBody dashboard | DashboardsBody "dashboard list"

type_synonym response = "nat \<times> body"

section \<open>Helpers\<close>

definition orDefault :: "string \<Rightarrow> string \<Rightarrow> string" where
  "orDefault s d = (if s = [] then d else s)"

definition ifZero :: "int \<Rightarrow> int \<Rightarrow> int" where
  "ifZero n d = (if n = 0 then d else n)"

definition splitCSV :: "string \<Rightarrow> string list" where
  "splitCSV s = (if s = [] then [] else filter (\<lambda>p. p \<noteq> []) (map trim_space (split_byte (CHR '','') s)))"

text \<open>\<open>json.Unmarshal\<close> into a map: a syntactically valid text whose first byte opens an object, or the
  literal \<open>null\<close>, which decodes into a nil map.\<close>

definition first_token :: "string \<Rightarrow> string" where
  "first_token s = dropWhile jspace s"

definition isJSONObject :: "string \<Rightarrow> bool" where
  "isJSONObject raw \<longleftrightarrow> raw \<noteq> [] \<and> json_valid raw \<and>
     (has_prefix (first_token raw) ''{'' \<or> has_prefix (first_token raw) ''null'')"

section \<open>Authentication\<close>

definition check_admin_token :: "string \<Rightarrow> string \<Rightarrow> (nat \<times> string) option" where
  "check_admin_token token header =
     (if length header \<le> 7 \<or> take 7 header \<noteq> ''Bearer '' then Some (401, ''missing admin token'')
      else if drop 7 header \<noteq> token then Some (403, ''invalid admin token'') else None)"

definition requireAdmin ::
  "'k jwt_library \<Rightarrow> int \<Rightarrow> 'k jwk list option \<Rightarrow> server \<Rightarrow> 'k validator \<Rightarrow> operator_request \<Rightarrow>
   'k validator \<times> operator_reply" where
  "requireAdmin lib now answer sv v r =
     (if sv_oidc sv then oidc_Middleware lib now answer v r
      else (v, case check_admin_token (sv_adminToken sv) (or_authorization r) of
                 Some (status, msg) \<Rightarrow> Denied status msg | None \<Rightarrow> Admitted r))"

section \<open>Audit\<close>

definition audit_actor :: "server \<Rightarrow> operator_request \<Rightarrow> string \<Rightarrow> string" where
  "audit_actor sv h actor = (if sv_oidc sv \<and> or_subject h \<noteq> [] then or_subject h else actor)"

definition audit_details ::
  "server \<Rightarrow> operator_request \<Rightarrow> (string \<rightharpoonup> string) \<Rightarrow> (string \<rightharpoonup> string)" where
  "audit_details sv h details =
     (if sv_oidc sv \<and> or_subject h \<noteq> [] \<and> or_email h \<noteq> [] then details(''actor_email'' \<mapsto> or_email h) else details)"

definition audit ::
  "environment \<Rightarrow> string option \<Rightarrow> string \<Rightarrow> string \<Rightarrow> (string \<rightharpoonup> string) \<Rightarrow> server \<Rightarrow> server" where
  "audit en tid actor action details sv =
     (let who = audit_actor sv (en_headers en) actor; det = audit_details sv (en_headers en) details;
          db = fst (WriteAudit (en_audit_fault en) (sv_db sv)
                 \<lparr>ar_tenant = tid, ar_actor = who, ar_action = action, ar_details = det,
                  ar_source = en_ip en, ar_created = en_now en\<rparr>);
          rec = \<lparr>ex_TenantID = (case tid of None \<Rightarrow> [] | Some t \<Rightarrow> t), ex_Actor = who, ex_Action = action,
                 ex_Details = det, ex_SourceIP = en_ip en, ex_OccurredAt = en_now en\<rparr>
      in sv\<lparr>sv_db := db, sv_exported := (if sv_exporting sv then sv_exported sv @ [rec] else sv_exported sv)\<rparr>)"

section \<open>Tenants\<close>

record createTenantReq =
  ct_ID :: string
  ct_DisplayName :: string
  ct_Tier :: string
  ct_RetentionDays :: int
  ct_QuotaEPS :: int

definition createTenant :: "environment \<Rightarrow> createTenantReq option \<Rightarrow> server \<Rightarrow> server \<times> response" where
  "createTenant en req sv =
     (case req of
        None \<Rightarrow> (sv, (400, ErrorBody ''bind''))
      | Some q \<Rightarrow>
          if ct_ID q = [] \<or> ct_DisplayName q = [] then (sv, (400, ErrorBody ''id and display_name are required''))
          else
            (case CreateTenant (en_fault en) (en_now en) (sv_db sv)
                    \<lparr>te_ID = ct_ID q, te_DisplayName = ct_DisplayName q, te_Tier = orDefault (ct_Tier q) ''free'',
                     te_RetentionDays = ifZero (ct_RetentionDays q) 14, te_QuotaEPS = ifZero (ct_QuotaEPS q) 1000,
                     te_CreatedAt = 0, te_DeletedAt = None\<rparr> of
               (db, Inl ErrTenantExists) \<Rightarrow> (sv, (409, ErrorBody ''tenant already exists''))
             | (db, Inl _) \<Rightarrow> (sv, (500, ErrorBody ''create failed''))
             | (db, Inr out) \<Rightarrow>
                 (audit en (Some (te_ID out)) ''admin'' ''tenant.create'' [''tier'' \<mapsto> te_Tier out] (sv\<lparr>sv_db := db\<rparr>),
                  (201, TenantBody out))))"

definition getTenant :: "environment \<Rightarrow> string \<Rightarrow> server \<Rightarrow> response" where
  "getTenant en i sv =
     (case GetTenant (en_fault en) (sv_db sv) i of
        Inl ErrTenantNotFound \<Rightarrow> (404, ErrorBody ''not found'')
      | Inl _ \<Rightarrow> (500, ErrorBody ''lookup failed'')
      | Inr t \<Rightarrow> (200, TenantBody t))"

definition listTenants :: "environment \<Rightarrow> string \<Rightarrow> string \<Rightarrow> server \<Rightarrow> response" where
  "listTenants en limit offset sv =
     (case ListTenants (en_fault en) (sv_db sv) (atoi_or_zero limit) (atoi_or_zero offset) of
        Inl _ \<Rightarrow> (500, ErrorBody ''list failed'')
      | Inr ts \<Rightarrow> (200, TenantsBody ts))"

definition deleteTenant :: "environment \<Rightarrow> string \<Rightarrow> server \<Rightarrow> server \<times> response" where
  "deleteTenant en i sv =
     (case SoftDeleteTenant (en_fault en) (en_now en) (sv_db sv) i of
        (db, Some ErrTenantNotFound) \<Rightarrow> (sv, (404, ErrorBody ''not found''))
      | (db, Some _) \<Rightarrow> (sv, (500, ErrorBody ''delete failed''))
      | (db, None) \<Rightarrow> (audit en (Some i) ''admin'' ''tenant.delete'' Map.empty (sv\<lparr>sv_db := db\<rparr>), (204, NoBody)))"

section \<open>API keys\<close>

text \<open>The request as the binding left it, and whether the binding succeeded.\<close>

record issueKeyReq =
  iq_bound :: bool
  iq_ExpiresAt :: "int option"
  iq_Scopes :: "string list"

text \<open>The scopes a key gets, from the request's list; \<open>rnd\<close> is the random part of the key.\<close>

definition issueAPIKey ::
  "environment \<Rightarrow> (string \<times> string \<times> string) option \<Rightarrow> string \<Rightarrow> issueKeyReq \<Rightarrow> server \<Rightarrow> server \<times> response" where
  "issueAPIKey en rnd tid req sv =
     (let first = (\<lambda>status. if iq_bound req then status else 400)
      in case GetTenant (en_fault en) (sv_db sv) tid of
           Inl _ \<Rightarrow> (sv, (404, ErrorBody ''tenant not found''))
         | Inr _ \<Rightarrow>
             (case ParseScopes (iq_Scopes req) of
                Inl _ \<Rightarrow> (sv, (400, ErrorBody ''unknown scope''))
              | Inr scopes \<Rightarrow>
                  (case IssueKeyWithScopes (sv_keys sv) rnd (en_fault2 en = None) (en_now en) tid scopes (iq_ExpiresAt req) of
                     (ks, Inl _) \<Rightarrow> (sv, (first 500, ErrorBody ''issue failed''))
                   | (ks, Inr issued) \<Rightarrow>
                       (audit en (Some tid) ''admin'' ''api_key.issue''
                          [''kid'' \<mapsto> ik_kid issued, ''prefix'' \<mapsto> ik_prefix issued,
                           ''scopes'' \<mapsto> join '','' (ScopesAsStrings (ik_scopes issued))] (sv\<lparr>sv_keys := ks\<rparr>),
                        (first 201, KeyBody issued)))))"

definition listAPIKeys :: "environment \<Rightarrow> string \<Rightarrow> server \<Rightarrow> response" where
  "listAPIKeys en tid sv =
     (case ListKeys (en_fault en) (sv_keys sv) tid of
        Inl _ \<Rightarrow> (500, ErrorBody ''list failed'') | Inr ks \<Rightarrow> (200, KeysBody ks))"

definition revokeAPIKey :: "environment \<Rightarrow> string \<Rightarrow> string \<Rightarrow> server \<Rightarrow> server \<times> response" where
  "revokeAPIKey en tid kid sv =
     (case RevokeKey (sv_keys sv) (en_fault en = None) (en_now en) tid kid of
        (ks, Some ErrKeyRevoked) \<Rightarrow> (sv, (410, ErrorBody ''already revoked''))
      | (ks, Some _) \<Rightarrow> (sv, (500, ErrorBody ''revoke failed''))
      | (ks, None) \<Rightarrow>
          (audit en (Some tid) ''admin'' ''api_key.revoke'' [''kid'' \<mapsto> kid] (sv\<lparr>sv_keys := ks\<rparr>), (204, NoBody)))"

section \<open>Audit log and retention\<close>

definition listAudit :: "environment \<Rightarrow> string \<Rightarrow> string option \<Rightarrow> server \<Rightarrow> response" where
  "listAudit en tid limit sv =
     (case ListAudit (en_fault en) (sv_db sv) tid
             (atoi_or_zero (case limit of None \<Rightarrow> ''100'' | Some l \<Rightarrow> l)) of
        Inl _ \<Rightarrow> (500, ErrorBody ''list audit'') | Inr rs \<Rightarrow> (200, AuditBody rs))"

text \<open>\<open>exec\<close> answers a TTL statement.\<close>

definition putRetention ::
  "environment \<Rightarrow> (string \<Rightarrow> bool) \<Rightarrow> string \<Rightarrow> Spec option \<Rightarrow> server \<Rightarrow> server \<times> response" where
  "putRetention en exec tid req sv =
     (if \<not> sv_clickhouse sv then (sv, (501, ErrorBody ''retention API requires clickhouse''))
      else case GetTenant (en_fault en) (sv_db sv) tid of
        Inl _ \<Rightarrow> (sv, (404, ErrorBody ''tenant not found''))
      | Inr _ \<Rightarrow>
          (case req of
             None \<Rightarrow> (sv, (400, ErrorBody ''bind''))
           | Some spec \<Rightarrow>
               (case retention_Apply exec (spec\<lparr>rs_tenant := tid\<rparr>) of
                  (done, Some _) \<Rightarrow> (sv\<lparr>sv_ddl := sv_ddl sv @ done\<rparr>, (400, ErrorBody ''retention''))
                | (done, None) \<Rightarrow>
                    (audit en (Some tid) ''admin'' ''retention.update''
                       [''metrics_hot_days'' \<mapsto> show_int (rs_metrics_hot spec),
                        ''metrics_total_days'' \<mapsto> show_int (rs_metrics_total spec),
                        ''logs_hot_days'' \<mapsto> show_int (rs_logs_hot spec),
                        ''logs_total_days'' \<mapsto> show_int (rs_logs_total spec),
                        ''traces_hot_days'' \<mapsto> show_int (rs_traces_hot spec),
                        ''traces_total_days'' \<mapsto> show_int (rs_traces_total spec)]
                       (sv\<lparr>sv_ddl := sv_ddl sv @ done\<rparr>),
                     (200, AppliedBody tid)))))"

definition dropRetention :: "environment \<Rightarrow> (string \<Rightarrow> bool) \<Rightarrow> string \<Rightarrow> server \<Rightarrow> server \<times> response" where
  "dropRetention en exec tid sv =
     (if \<not> sv_clickhouse sv then (sv, (501, ErrorBody ''retention API requires clickhouse''))
      else case retention_Drop exec tid of
        (done, Some _) \<Rightarrow> (sv\<lparr>sv_ddl := sv_ddl sv @ done\<rparr>, (500, ErrorBody ''retention''))
      | (done, None) \<Rightarrow>
          (audit en (Some tid) ''admin'' ''retention.drop'' Map.empty (sv\<lparr>sv_ddl := sv_ddl sv @ done\<rparr>), (204, NoBody)))"

section \<open>Dashboards\<close>

record dashboardReq =
  dr_TenantID :: string
  dr_Name :: string
  dr_Layout :: string

definition listDashboards :: "environment \<Rightarrow> string \<Rightarrow> server \<Rightarrow> response" where
  "listDashboards en tid sv =
     (if tid = [] then (400, ErrorBody ''tenant_id required'')
      else case ListDashboards (en_fault en) (sv_db sv) tid of
        Inl _ \<Rightarrow> (500, ErrorBody ''list'') | Inr ds \<Rightarrow> (200, DashboardsBody ds))"

definition getDashboard :: "(string \<Rightarrow> string option) \<Rightarrow> environment \<Rightarrow> string \<Rightarrow> server \<Rightarrow> response" where
  "getDashboard uuid en i sv =
     (case GetDashboard uuid (en_fault en) (sv_db sv) i of
        Inl ErrDashboardNotFound \<Rightarrow> (404, ErrorBody ''not found'')
      | Inl _ \<Rightarrow> (500, ErrorBody ''get'')
      | Inr d \<Rightarrow> (200, DashboardBody d))"

definition blank_dashboard :: dashboard where
  "blank_dashboard = \<lparr>da_ID = [], da_TenantID = [], da_Name = [], da_Layout = [], da_CreatedBy = [],
     da_CreatedAt = 0, da_UpdatedAt = 0\<rparr>"

definition createDashboard :: "environment \<Rightarrow> string \<Rightarrow> dashboardReq option \<Rightarrow> server \<Rightarrow> server \<times> response" where
  "createDashboard en i req sv =
     (case req of
        None \<Rightarrow> (sv, (400, ErrorBody ''bad json''))
      | Some q \<Rightarrow>
          if dr_TenantID q = [] \<or> dr_Name q = [] \<or> dr_Layout q = []
          then (sv, (400, ErrorBody ''tenant_id, name, layout required''))
          else if \<not> isJSONObject (dr_Layout q) then (sv, (400, ErrorBody ''layout must be a JSON object''))
          else
            (case CreateDashboard (en_fault en) i (en_now en) (sv_db sv)
                    (blank_dashboard\<lparr>da_TenantID := dr_TenantID q, da_Name := dr_Name q, da_Layout := dr_Layout q,
                       da_CreatedBy := or_actor (en_headers en)\<rparr>) of
               (db, Inl ErrDashboardExists) \<Rightarrow> (sv, (409, ErrorBody ''dashboard name already used''))
             | (db, Inl _) \<Rightarrow> (sv, (500, ErrorBody ''create''))
             | (db, Inr d) \<Rightarrow> (sv\<lparr>sv_db := db\<rparr>, (201, DashboardBody d))))"

definition updateDashboard ::
  "(string \<Rightarrow> string option) \<Rightarrow> environment \<Rightarrow> string \<Rightarrow> dashboardReq option \<Rightarrow> server \<Rightarrow> server \<times> response" where
  "updateDashboard uuid en i req sv =
     (case req of
        None \<Rightarrow> (sv, (400, ErrorBody ''bad json''))
      | Some q \<Rightarrow>
          if dr_Name q = [] \<or> dr_Layout q = [] then (sv, (400, ErrorBody ''name, layout required''))
          else if \<not> isJSONObject (dr_Layout q) then (sv, (400, ErrorBody ''layout must be a JSON object''))
          else
            (case UpdateDashboard uuid (en_fault en) (en_now en) (sv_db sv)
                    (blank_dashboard\<lparr>da_ID := i, da_Name := dr_Name q, da_Layout := dr_Layout q\<rparr>) of
               (db, Inl ErrDashboardNotFound) \<Rightarrow> (sv, (404, ErrorBody ''not found''))
             | (db, Inl ErrDashboardExists) \<Rightarrow> (sv, (409, ErrorBody ''dashboard name already used''))
             | (db, Inl _) \<Rightarrow> (sv, (500, ErrorBody ''update''))
             | (db, Inr d) \<Rightarrow> (sv\<lparr>sv_db := db\<rparr>, (200, DashboardBody d))))"

definition deleteDashboard ::
  "(string \<Rightarrow> string option) \<Rightarrow> environment \<Rightarrow> string \<Rightarrow> server \<Rightarrow> server \<times> response" where
  "deleteDashboard uuid en i sv =
     (case DeleteDashboard uuid (en_fault en) (sv_db sv) i of
        (db, Some ErrDashboardNotFound) \<Rightarrow> (sv, (404, ErrorBody ''not found''))
      | (db, Some _) \<Rightarrow> (sv, (500, ErrorBody ''delete''))
      | (db, None) \<Rightarrow> (sv\<lparr>sv_db := db\<rparr>, (204, NoBody)))"

section \<open>The router\<close>

text \<open>The routes behind the authentication. The identifiers and random parts the database and the
  library choose are arguments of the calls that use them.\<close>

datatype api_call = PostTenant "createTenantReq option" | GetTenants string string | GetTenantBy string
  | DeleteTenantBy string | GetKeys string | PostKey "(string \<times> string \<times> string) option" string issueKeyReq
  | DeleteKey string string | PutRetention string "Spec option" | DeleteRetention string
  | GetAudit string "string option" | GetDashboards string | GetDashboardBy string
  | PostDashboard string "dashboardReq option" | PutDashboard string "dashboardReq option"
  | DeleteDashboardBy string

fun dispatch ::
  "(string \<Rightarrow> string option) \<Rightarrow> (string \<Rightarrow> bool) \<Rightarrow> environment \<Rightarrow> api_call \<Rightarrow> server \<Rightarrow> server \<times> response" where
  "dispatch uuid exec en (PostTenant q) sv = createTenant en q sv"
| "dispatch uuid exec en (GetTenants limit offset) sv = (sv, listTenants en limit offset sv)"
| "dispatch uuid exec en (GetTenantBy i) sv = (sv, getTenant en i sv)"
| "dispatch uuid exec en (DeleteTenantBy i) sv = deleteTenant en i sv"
| "dispatch uuid exec en (GetKeys tid) sv = (sv, listAPIKeys en tid sv)"
| "dispatch uuid exec en (PostKey rnd tid q) sv = issueAPIKey en rnd tid q sv"
| "dispatch uuid exec en (DeleteKey tid kid) sv = revokeAPIKey en tid kid sv"
| "dispatch uuid exec en (PutRetention tid q) sv = putRetention en exec tid q sv"
| "dispatch uuid exec en (DeleteRetention tid) sv = dropRetention en exec tid sv"
| "dispatch uuid exec en (GetAudit tid limit) sv = (sv, listAudit en tid limit sv)"
| "dispatch uuid exec en (GetDashboards tid) sv = (sv, listDashboards en tid sv)"
| "dispatch uuid exec en (GetDashboardBy i) sv = (sv, getDashboard uuid en i sv)"
| "dispatch uuid exec en (PostDashboard i q) sv = createDashboard en i q sv"
| "dispatch uuid exec en (PutDashboard i q) sv = updateDashboard uuid en i q sv"
| "dispatch uuid exec en (DeleteDashboardBy i) sv = deleteDashboard uuid en i sv"

definition router ::
  "'k jwt_library \<Rightarrow> (string \<Rightarrow> string option) \<Rightarrow> (string \<Rightarrow> bool) \<Rightarrow> 'k jwk list option \<Rightarrow> environment \<Rightarrow>
   api_call \<Rightarrow> 'k validator \<times> server \<Rightarrow> ('k validator \<times> server) \<times> response" where
  "router lib uuid exec answer en call st =
     (case requireAdmin lib (en_now en) answer (snd st) (fst st) (en_headers en) of
        (v, Denied status msg) \<Rightarrow> ((v, snd st), (status, ErrorBody msg))
      | (v, Admitted h) \<Rightarrow>
          (case dispatch uuid exec (en\<lparr>en_headers := h\<rparr>) call (snd st) of (sv, resp) \<Rightarrow> ((v, sv), resp)))"

end
