(* ===== verification/TenantProps.thy ===== *)
theory TenantProps
  imports TenantApi OidcProps
begin

text \<open>
  Properties of the control plane: what the database invariant is and that every request keeps it, what
  the audit log records of a request, who is admitted, and what a deletion leaves behind.
\<close>

section \<open>Frames\<close>

lemma WriteAudit_eq:
  "fst (WriteAudit f db r) = db\<lparr>db_audit := db_audit db @ (if f = None then [r] else [])\<rparr>"
  by (simp add: WriteAudit_def)

lemma audit_frame [simp]:
  "sv_keys (audit en tid a act det sv) = sv_keys sv"
  "sv_ddl (audit en tid a act det sv) = sv_ddl sv"
  "sv_adminToken (audit en tid a act det sv) = sv_adminToken sv"
  "sv_oidc (audit en tid a act det sv) = sv_oidc sv"
  "sv_exporting (audit en tid a act det sv) = sv_exporting sv"
  "db_tenants (sv_db (audit en tid a act det sv)) = db_tenants (sv_db sv)"
  "db_dashboards (sv_db (audit en tid a act det sv)) = db_dashboards (sv_db sv)"
  by (simp_all add: audit_def Let_def WriteAudit_eq)

text \<open>The entry an operation leaves, and the record handed to the exporter.\<close>

definition entry_row :: "environment \<Rightarrow> server \<Rightarrow> string \<Rightarrow> string \<Rightarrow> (string \<rightharpoonup> string) \<Rightarrow> audit_row" where
  "entry_row en sv tid action det =
     \<lparr>ar_tenant = Some tid, ar_actor = audit_actor sv (en_headers en) ''admin'', ar_action = action,
      ar_details = det, ar_source = en_ip en, ar_created = en_now en\<rparr>"

definition entry_record :: "environment \<Rightarrow> server \<Rightarrow> string \<Rightarrow> string \<Rightarrow> (string \<rightharpoonup> string) \<Rightarrow> export_record" where
  "entry_record en sv tid action det =
     \<lparr>ex_TenantID = tid, ex_Actor = audit_actor sv (en_headers en) ''admin'', ex_Action = action,
      ex_Details = det, ex_SourceIP = en_ip en, ex_OccurredAt = en_now en\<rparr>"

fun call_tenant :: "api_call \<Rightarrow> string" where
  "call_tenant (PostTenant (Some q)) = ct_ID q"
| "call_tenant (DeleteTenantBy i) = i"
| "call_tenant (PostKey rnd tid q) = tid"
| "call_tenant (DeleteKey tid kid) = tid"
| "call_tenant (PutRetention tid q) = tid"
| "call_tenant (DeleteRetention tid) = tid"
| "call_tenant _ = []"

fun call_action :: "api_call \<Rightarrow> string" where
  "call_action (PostTenant q) = ''tenant.create''"
| "call_action (DeleteTenantBy i) = ''tenant.delete''"
| "call_action (PostKey rnd tid q) = ''api_key.issue''"
| "call_action (DeleteKey tid kid) = ''api_key.revoke''"
| "call_action (PutRetention tid q) = ''retention.update''"
| "call_action (DeleteRetention tid) = ''retention.drop''"
| "call_action _ = []"

text \<open>Either nothing of the tenants and keys changes and nothing is logged, or one entry is.\<close>

definition unlogged :: "server \<Rightarrow> server \<Rightarrow> bool" where
  "unlogged sv sv' \<longleftrightarrow> db_tenants (sv_db sv') = db_tenants (sv_db sv) \<and> sv_keys sv' = sv_keys sv \<and>
     db_audit (sv_db sv') = db_audit (sv_db sv) \<and> sv_exported sv' = sv_exported sv"

definition logged_once :: "environment \<Rightarrow> string \<Rightarrow> string \<Rightarrow> server \<Rightarrow> server \<Rightarrow> bool" where
  "logged_once en tid action sv sv' \<longleftrightarrow>
     (\<exists>det. db_audit (sv_db sv') =
            db_audit (sv_db sv) @ (if en_audit_fault en = None then [entry_row en sv tid action det] else []) \<and>
          sv_exported sv' =
            sv_exported sv @ (if sv_exporting sv then [entry_record en sv tid action det] else [])) \<and>
     db_dashboards (sv_db sv') = db_dashboards (sv_db sv)"

lemma unlogged_refl [simp]: "unlogged sv sv"
  by (simp add: unlogged_def)

lemma audit_logs:
  assumes "db_audit (sv_db s0) = db_audit (sv_db sv)" "sv_exported s0 = sv_exported sv"
    "sv_exporting s0 = sv_exporting sv" "sv_oidc s0 = sv_oidc sv" "db_dashboards (sv_db s0) = db_dashboards (sv_db sv)"
  shows "logged_once en tid act sv (audit en (Some tid) ''admin'' act det s0)"
proof -
  have who: "audit_actor s0 = audit_actor sv" by (intro ext) (simp add: audit_actor_def assms(4))
  show ?thesis
    unfolding logged_once_def
    by (intro conjI exI [of _ "audit_details s0 (en_headers en) det"])
      (simp_all add: assms who audit_def Let_def WriteAudit_eq entry_row_def entry_record_def)
qed

section \<open>What each handler logs\<close>

lemma CreateTenant_cases:
  obtains e where "CreateTenant f now db t = (db, Inl e)"
  | "CreateTenant f now db t =
      (db\<lparr>db_tenants := db_tenants db @ [t\<lparr>te_CreatedAt := now, te_DeletedAt := None\<rparr>]\<rparr>, Inr (t\<lparr>te_CreatedAt := now\<rparr>))"
    "tenant_checks t" "te_ID t \<notin> te_ID ` set (db_tenants db)"
proof (cases "insert_tenant_error f db t")
  case None
  then have "tenant_checks t" "te_ID t \<notin> te_ID ` set (db_tenants db)"
    by (auto simp: insert_tenant_error_def split: option.splits if_splits)
  then show ?thesis using None that(2) by (simp add: CreateTenant_def Let_def)
qed (use that(1) in \<open>simp add: CreateTenant_def\<close>)

lemma createTenant_cases:
  obtains resp where "createTenant en q sv = (sv, resp)" "fst resp \<noteq> 201"
  | r t db out where "q = Some r" "te_ID t = ct_ID r" "ct_ID r \<noteq> []" "te_DisplayName t \<noteq> []"
      "CreateTenant (en_fault en) (en_now en) (sv_db sv) t = (db, Inr out)" "te_ID out = ct_ID r"
      "createTenant en q sv =
         (audit en (Some (ct_ID r)) ''admin'' ''tenant.create'' [''tier'' \<mapsto> te_Tier out] (sv\<lparr>sv_db := db\<rparr>),
          (201, TenantBody out))"
proof (cases q)
  case None
  then show ?thesis using that(1) by (simp add: createTenant_def)
next
  case (Some r)
  let ?t = "\<lparr>te_ID = ct_ID r, te_DisplayName = ct_DisplayName r, te_Tier = orDefault (ct_Tier r) ''free'',
    te_RetentionDays = ifZero (ct_RetentionDays r) 14, te_QuotaEPS = ifZero (ct_QuotaEPS r) 1000,
    te_CreatedAt = 0, te_DeletedAt = None\<rparr>"
  show ?thesis
  proof (cases "ct_ID r = [] \<or> ct_DisplayName r = []")
    case True
    then show ?thesis using Some that(1) by (simp add: createTenant_def)
  next
    case False
    show ?thesis
    proof (cases rule: CreateTenant_cases [of "en_fault en" "en_now en" "sv_db sv" ?t])
      case (1 e)
      then show ?thesis using Some False that(1) [of "(if e = ErrTenantExists then (409, ErrorBody ''tenant already exists'')
        else (500, ErrorBody ''create failed''))"]
        by (cases e) (simp_all add: createTenant_def)
    next
      case 2
      show ?thesis
        by (rule that(2) [OF Some _ _ _ 2(1)]) (use 2(1) False in \<open>simp_all add: createTenant_def Some\<close>)
    qed
  qed
qed


lemma createTenant_logs:
  "createTenant en q sv = (sv', resp) \<Longrightarrow>
   unlogged sv sv' \<and> db_dashboards (sv_db sv') = db_dashboards (sv_db sv) \<or>
   logged_once en (call_tenant (PostTenant q)) ''tenant.create'' sv sv'"
proof (cases rule: createTenant_cases [of en q sv])
  case (2 r t db out)
  then have "db_audit db = db_audit (sv_db sv)" "db_dashboards db = db_dashboards (sv_db sv)"
    by (auto simp: CreateTenant_def Let_def split: option.splits)
  moreover assume "createTenant en q sv = (sv', resp)"
  ultimately show ?thesis
    using 2 by (auto intro!: audit_logs)
qed auto

lemma deleteTenant_logs:
  assumes "deleteTenant en i sv = (sv', resp)"
  shows "unlogged sv sv' \<and> db_dashboards (sv_db sv') = db_dashboards (sv_db sv) \<or>
    logged_once en i ''tenant.delete'' sv sv'"
proof (cases "SoftDeleteTenant (en_fault en) (en_now en) (sv_db sv) i")
  case (Pair db e)
  then have f: "db_audit db = db_audit (sv_db sv)" "db_dashboards db = db_dashboards (sv_db sv)"
    by (auto simp: SoftDeleteTenant_def split: if_splits)
  show ?thesis
  proof (cases e)
    case None
    then have "sv' = audit en (Some i) ''admin'' ''tenant.delete'' Map.empty (sv\<lparr>sv_db := db\<rparr>)"
      using assms Pair by (simp add: deleteTenant_def)
    then show ?thesis using f by (simp add: audit_logs)
  next
    case (Some x)
    then have "sv' = sv" using assms Pair by (cases x) (simp_all add: deleteTenant_def)
    then show ?thesis by simp
  qed
qed

lemma issueAPIKey_logs:
  assumes "issueAPIKey en rnd tid q sv = (sv', resp)"
  shows "unlogged sv sv' \<and> db_dashboards (sv_db sv') = db_dashboards (sv_db sv) \<or>
    logged_once en tid ''api_key.issue'' sv sv'"
proof -
  consider "sv' = sv" | ks det where "sv' = audit en (Some tid) ''admin'' ''api_key.issue'' det (sv\<lparr>sv_keys := ks\<rparr>)"
    using assms by (auto simp: issueAPIKey_def Let_def split: sum.splits prod.splits)
  then show ?thesis by cases (auto intro!: audit_logs)
qed

lemma revokeAPIKey_logs:
  assumes "revokeAPIKey en tid kid sv = (sv', resp)"
  shows "unlogged sv sv' \<and> db_dashboards (sv_db sv') = db_dashboards (sv_db sv) \<or>
    logged_once en tid ''api_key.revoke'' sv sv'"
proof -
  consider "sv' = sv" | ks det where "sv' = audit en (Some tid) ''admin'' ''api_key.revoke'' det (sv\<lparr>sv_keys := ks\<rparr>)"
    using assms by (auto simp: revokeAPIKey_def split: prod.splits option.splits auth_error.splits)
  then show ?thesis by cases (auto intro!: audit_logs)
qed

lemma putRetention_logs:
  assumes "putRetention en exec tid q sv = (sv', resp)"
  shows "unlogged sv sv' \<and> db_dashboards (sv_db sv') = db_dashboards (sv_db sv) \<or>
    logged_once en tid ''retention.update'' sv sv'"
proof -
  consider "sv' = sv" | ddl where "sv' = sv\<lparr>sv_ddl := ddl\<rparr>"
    | ddl det where "sv' = audit en (Some tid) ''admin'' ''retention.update'' det (sv\<lparr>sv_ddl := ddl\<rparr>)"
    using assms
    by (cases "\<not> sv_clickhouse sv") (auto simp: putRetention_def split: sum.splits prod.splits option.splits)
  then show ?thesis by cases (auto intro!: audit_logs simp: unlogged_def)
qed

lemma dropRetention_logs:
  assumes "dropRetention en exec tid sv = (sv', resp)"
  shows "unlogged sv sv' \<and> db_dashboards (sv_db sv') = db_dashboards (sv_db sv) \<or>
    logged_once en tid ''retention.drop'' sv sv'"
proof -
  consider "sv' = sv" | ddl where "sv' = sv\<lparr>sv_ddl := ddl\<rparr>"
    | ddl det where "sv' = audit en (Some tid) ''admin'' ''retention.drop'' det (sv\<lparr>sv_ddl := ddl\<rparr>)"
    using assms
    by (cases "\<not> sv_clickhouse sv") (auto simp: dropRetention_def split: sum.splits prod.splits option.splits)
  then show ?thesis by cases (auto intro!: audit_logs simp: unlogged_def)
qed

lemma createDashboard_logs: "createDashboard en i q sv = (sv', resp) \<Longrightarrow> unlogged sv sv'"
  by (auto simp: createDashboard_def CreateDashboard_def unlogged_def Let_def
      split: option.splits if_splits prod.splits sum.splits store_error.splits)

lemma UpdateDashboard_frame:
  "UpdateDashboard uuid f now db d = (db', r) \<Longrightarrow> db_tenants db' = db_tenants db \<and> db_audit db' = db_audit db"
  by (auto simp: UpdateDashboard_def split: option.splits if_splits)

lemma updateDashboard_logs: "updateDashboard uuid en i q sv = (sv', resp) \<Longrightarrow> unlogged sv sv'"
  using UpdateDashboard_frame
  by (fastforce simp: updateDashboard_def unlogged_def
      split: option.splits if_splits prod.splits sum.splits store_error.splits)

lemma deleteDashboard_logs: "deleteDashboard uuid en i sv = (sv', resp) \<Longrightarrow> unlogged sv sv'"
  by (auto simp: deleteDashboard_def DeleteDashboard_def unlogged_def
      split: option.splits if_splits prod.splits store_error.splits)

lemmas handler_logs = createTenant_logs deleteTenant_logs issueAPIKey_logs revokeAPIKey_logs putRetention_logs
  dropRetention_logs createDashboard_logs updateDashboard_logs deleteDashboard_logs

lemma dispatch_logs:
  assumes "dispatch uuid exec en call sv = (sv', resp)"
  shows "unlogged sv sv' \<or> logged_once en (call_tenant call) (call_action call) sv sv'"
  using assms handler_logs by (cases call) (auto dest: handler_logs)


section \<open>Accountability\<close>

lemma router_cases:
  assumes "router lib uuid exec answer en call (v, sv) = ((v', sv'), resp)"
  obtains st msg where "requireAdmin lib (en_now en) answer sv v (en_headers en) = (v', Denied st msg)" "sv' = sv"
      "resp = (st, ErrorBody msg)"
  | h where "requireAdmin lib (en_now en) answer sv v (en_headers en) = (v', Admitted h)"
      "dispatch uuid exec (en\<lparr>en_headers := h\<rparr>) call sv = (sv', resp)"
  using assms by (auto simp: router_def split: prod.splits operator_reply.splits)

text \<open>
  C13. Accountability of the control plane. A request either leaves the tenants and keys, the audit log
  and the export as they were, or it was admitted and appends exactly one entry to the audit log (unless
  that very statement fails) and hands exactly one record to the exporter: with the instant, the peer's
  address, the tenant and the action of the request, and the operator the authentication established.
  Operations on dashboards are never logged: a request that changes them appends no entry.
\<close>

theorem control_plane_audited:
  assumes "router lib uuid exec answer en call (v, sv) = ((v', sv'), resp)"
  shows "unlogged sv sv' \<or>
    (\<exists>h. requireAdmin lib (en_now en) answer sv v (en_headers en) = (v', Admitted h) \<and>
         logged_once (en\<lparr>en_headers := h\<rparr>) (call_tenant call) (call_action call) sv sv')"
  using assms
proof (cases rule: router_cases)
  case (2 h)
  then show ?thesis using dispatch_logs by blast
qed simp

section \<open>The database invariant\<close>

definition db_ok :: "tenant_db \<Rightarrow> bool" where
  "db_ok db \<longleftrightarrow> distinct (map te_ID (db_tenants db)) \<and> list_all tenant_checks (db_tenants db) \<and>
     list_all (\<lambda>t. te_ID t \<noteq> [] \<and> te_DisplayName t \<noteq> []) (db_tenants db) \<and>
     distinct (map da_ID (db_dashboards db)) \<and>
     distinct (map (\<lambda>d. (da_TenantID d, da_Name d)) (db_dashboards db)) \<and>
     list_all (\<lambda>d. da_Name d \<noteq> [] \<and> isJSONObject (da_Layout d) \<and> da_TenantID d \<in> te_ID ` set (db_tenants db))
       (db_dashboards db)"

definition server_ok :: "server \<Rightarrow> bool" where
  "server_ok sv \<longleftrightarrow> db_ok (sv_db sv) \<and> distinct (map kr_kid (pg_rows (sv_keys sv))) \<and>
     kr_tenant ` set (pg_rows (sv_keys sv)) \<subseteq> te_ID ` set (db_tenants (sv_db sv))"

lemma db_ok_cong:
  "db_tenants db = db_tenants db' \<Longrightarrow> db_dashboards db = db_dashboards db' \<Longrightarrow> db_ok db = db_ok db'"
  by (simp add: db_ok_def)

lemma server_ok_audit [simp]: "server_ok (audit en tid a act det sv) = server_ok sv"
  by (simp add: server_ok_def db_ok_def)

lemma tenant_checks_created [simp]:
  "tenant_checks (t\<lparr>te_CreatedAt := a\<rparr>) = tenant_checks t" "tenant_checks (t\<lparr>te_DeletedAt := d\<rparr>) = tenant_checks t"
  by (simp_all add: tenant_checks_def)

lemma createTenant_ok:
  assumes "server_ok sv" "createTenant en q sv = (sv', resp)"
  shows "server_ok sv'"
proof (cases rule: createTenant_cases [of en q sv])
  case (2 r t db out)
  let ?t = "t\<lparr>te_CreatedAt := en_now en, te_DeletedAt := None\<rparr>"
  have t: "db = (sv_db sv)\<lparr>db_tenants := db_tenants (sv_db sv) @ [?t]\<rparr>" "tenant_checks t"
      "te_ID t \<notin> te_ID ` set (db_tenants (sv_db sv))"
    using CreateTenant_cases [of "en_fault en" "en_now en" "sv_db sv" t] 2(5) by auto
  have "server_ok (sv\<lparr>sv_db := db\<rparr>)" using assms(1) t 2(2-4) by (auto simp: server_ok_def db_ok_def list_all_iff)
  moreover have "sv' = audit en (Some (ct_ID r)) ''admin'' ''tenant.create'' [''tier'' \<mapsto> te_Tier out] (sv\<lparr>sv_db := db\<rparr>)"
    using 2(7) assms(2) by simp
  ultimately show ?thesis by simp
qed (use assms in simp)

lemma server_ok_tenants:
  assumes "server_ok sv" "map te_ID ts = map te_ID (db_tenants (sv_db sv))" "list_all tenant_checks ts"
    "list_all (\<lambda>t. te_ID t \<noteq> [] \<and> te_DisplayName t \<noteq> []) ts"
  shows "server_ok (sv\<lparr>sv_db := (sv_db sv)\<lparr>db_tenants := ts\<rparr>\<rparr>)"
proof -
  have "te_ID ` set ts = te_ID ` set (db_tenants (sv_db sv))"
    using arg_cong [OF assms(2), of set] by simp
  then show ?thesis using assms by (simp add: server_ok_def db_ok_def)
qed

lemma server_ok_keys:
  assumes "server_ok sv" "map kr_kid rs = map kr_kid (pg_rows (sv_keys sv))"
    "map kr_tenant rs = map kr_tenant (pg_rows (sv_keys sv))"
  shows "server_ok (sv\<lparr>sv_keys := (sv_keys sv)\<lparr>pg_rows := rs\<rparr>\<rparr>)"
proof -
  have "kr_tenant ` set rs = kr_tenant ` set (pg_rows (sv_keys sv))"
    using arg_cong [OF assms(3), of set] by simp
  then show ?thesis using assms by (simp add: server_ok_def)
qed

lemma deleteTenant_ok:
  assumes "server_ok sv" "deleteTenant en i sv = (sv', resp)"
  shows "server_ok sv'"
proof -
  define f where "f = (\<lambda>t. if te_ID t = i \<and> live_tenant t then t\<lparr>te_DeletedAt := Some (en_now en)\<rparr> else t)"
  have f: "map te_ID (map f ts) = map te_ID ts" "list_all tenant_checks (map f ts) = list_all tenant_checks ts"
    "list_all (\<lambda>t. te_ID t \<noteq> [] \<and> te_DisplayName t \<noteq> []) (map f ts) = list_all (\<lambda>t. te_ID t \<noteq> [] \<and> te_DisplayName t \<noteq> []) ts" for ts
    by (induction ts) (auto simp: f_def)
  have "server_ok (sv\<lparr>sv_db := (sv_db sv)\<lparr>db_tenants := map f (db_tenants (sv_db sv))\<rparr>\<rparr>)"
    using assms(1) by (intro server_ok_tenants assms(1)) (simp_all only: f server_ok_def db_ok_def)
  moreover have "sv' = sv \<or> sv' = audit en (Some i) ''admin'' ''tenant.delete'' Map.empty
      (sv\<lparr>sv_db := (sv_db sv)\<lparr>db_tenants := map f (db_tenants (sv_db sv))\<rparr>\<rparr>)"
    using assms(2) by (auto simp: deleteTenant_def SoftDeleteTenant_def f_def split: if_splits)
  ultimately show ?thesis using assms(1) by auto
qed

lemma GetTenant_found: "GetTenant f db i = Inr t \<Longrightarrow> i \<in> te_ID ` set (db_tenants db)"
  by (auto simp: GetTenant_def find_Some_iff split: option.splits)

lemma issueAPIKey_cases:
  obtains resp where "issueAPIKey en rnd tid q sv = (sv, resp)" "\<forall>k. snd resp \<noteq> KeyBody k"
  | t scopes ks issued where "GetTenant (en_fault en) (sv_db sv) tid = Inr t" "ParseScopes (iq_Scopes q) = Inr scopes"
      "IssueKeyWithScopes (sv_keys sv) rnd (en_fault2 en = None) (en_now en) tid scopes (iq_ExpiresAt q) = (ks, Inr issued)"
      "issueAPIKey en rnd tid q sv =
         (audit en (Some tid) ''admin'' ''api_key.issue''
            [''kid'' \<mapsto> ik_kid issued, ''prefix'' \<mapsto> ik_prefix issued,
             ''scopes'' \<mapsto> join '','' (ScopesAsStrings (ik_scopes issued))] (sv\<lparr>sv_keys := ks\<rparr>),
          (if iq_bound q then 201 else 400, KeyBody issued))"
proof (cases "GetTenant (en_fault en) (sv_db sv) tid")
  case (Inl e)
  then show ?thesis using that(1) by (simp add: issueAPIKey_def)
next
  case t: (Inr t)
  show ?thesis
  proof (cases "ParseScopes (iq_Scopes q)")
    case (Inl e)
    then show ?thesis using t that(1) by (simp add: issueAPIKey_def)
  next
    case sc: (Inr scopes)
    obtain ks r where i: "IssueKeyWithScopes (sv_keys sv) rnd (en_fault2 en = None) (en_now en) tid scopes (iq_ExpiresAt q) = (ks, r)"
      by fastforce
    show ?thesis
    proof (cases r)
      case (Inl e)
      then show ?thesis using t sc i that(1) by (simp add: issueAPIKey_def)
    next
      case (Inr issued)
      show ?thesis
        by (rule that(2) [OF t sc i [unfolded Inr]]) (simp add: issueAPIKey_def t sc i Inr)
    qed
  qed
qed

lemma issue_rows:
  assumes "IssueKeyWithScopes st rnd up now tid scopes expires = (ks, Inr issued)"
  obtains r where "pg_rows ks = pg_rows st @ [r]" "kr_tenant r = tid" "kr_kid r \<notin> kr_kid ` set (pg_rows st)"
  using assms by (auto simp: IssueKeyWithScopes_def Let_def split: if_splits option.splits)

lemma issueAPIKey_ok:
  assumes "server_ok sv" "issueAPIKey en rnd tid q sv = (sv', resp)"
  shows "server_ok sv'"
proof (cases rule: issueAPIKey_cases [of en rnd tid q sv])
  case (2 t scopes ks issued)
  obtain r where r: "pg_rows ks = pg_rows (sv_keys sv) @ [r]" "kr_tenant r = tid"
      "kr_kid r \<notin> kr_kid ` set (pg_rows (sv_keys sv))"
    by (rule issue_rows [OF 2(3)])
  have "server_ok (sv\<lparr>sv_keys := ks\<rparr>)"
    using assms(1) r GetTenant_found [OF 2(1)] by (simp add: server_ok_def)
  moreover have "fst (issueAPIKey en rnd tid q sv) = sv'" using assms(2) by simp
  ultimately show ?thesis by (auto simp: 2(4))
qed (use assms in simp)

lemma revokeAPIKey_ok:
  assumes "server_ok sv" "revokeAPIKey en tid kid sv = (sv', resp)"
  shows "server_ok sv'"
proof -
  define f where "f = (\<lambda>r. if matches_active tid kid r then r\<lparr>kr_revoked := Some (en_now en)\<rparr> else r)"
  have f: "map kr_kid (map f rs) = map kr_kid rs" "map kr_tenant (map f rs) = map kr_tenant rs" for rs
    by (induction rs) (auto simp: f_def)
  have "server_ok (sv\<lparr>sv_keys := (sv_keys sv)\<lparr>pg_rows := map f (pg_rows (sv_keys sv))\<rparr>\<rparr>)"
    by (intro server_ok_keys assms(1) f)
  moreover have "sv' = sv \<or> sv' = audit en (Some tid) ''admin'' ''api_key.revoke'' [''kid'' \<mapsto> kid]
      (sv\<lparr>sv_keys := (sv_keys sv)\<lparr>pg_rows := map f (pg_rows (sv_keys sv))\<rparr>\<rparr>)"
    using assms(2) by (auto simp: revokeAPIKey_def RevokeKey_def f_def split: if_splits)
  ultimately show ?thesis using assms(1) by auto
qed

lemma server_ok_ddl [simp]: "server_ok (sv\<lparr>sv_ddl := d\<rparr>) = server_ok sv"
  by (simp add: server_ok_def)

lemma retention_ok:
  "server_ok sv \<Longrightarrow> putRetention en exec tid q sv = (sv', resp) \<Longrightarrow> server_ok sv'"
  "server_ok sv \<Longrightarrow> dropRetention en exec tid sv = (sv', resp) \<Longrightarrow> server_ok sv'"
  by (auto simp: putRetention_def dropRetention_def split: if_splits sum.splits prod.splits option.splits)


lemma server_ok_dashboards:
  assumes "server_ok sv" "db_tenants db = db_tenants (sv_db sv)" "db_ok db"
  shows "server_ok (sv\<lparr>sv_db := db\<rparr>)"
  using assms by (simp add: server_ok_def)

lemma CreateDashboard_ok:
  assumes "db_ok db" "CreateDashboard f i now db d = (db', Inr d')" "isJSONObject (da_Layout d)"
  shows "db_ok db' \<and> db_tenants db' = db_tenants db"
proof -
  have e: "insert_dashboard_error f db i d = None" "da_Name d \<noteq> []"
      "db' = db\<lparr>db_dashboards := db_dashboards db @ [d\<lparr>da_ID := i, da_CreatedAt := now, da_UpdatedAt := now\<rparr>]\<rparr>"
    using assms(2) by (auto simp: CreateDashboard_def Let_def split: if_splits option.splits)
  then have n: "i \<notin> da_ID ` set (db_dashboards db)" "\<not> name_taken db i (da_TenantID d) (da_Name d)"
      "da_TenantID d \<in> te_ID ` set (db_tenants db)"
    by (auto simp: insert_dashboard_error_def split: option.splits if_splits)
  then have "(da_TenantID d, da_Name d) \<notin> (\<lambda>d. (da_TenantID d, da_Name d)) ` set (db_dashboards db)"
    by (auto simp: name_taken_def list_ex_iff)
  then show ?thesis using assms(1,3) e n by (simp add: db_ok_def)
qed

lemma distinct_renamed:
  assumes "distinct (map k xs)" "distinct (map p xs)" "\<forall>x \<in> set xs. k x \<noteq> u \<longrightarrow> p x \<noteq> new"
    "\<forall>x \<in> set xs. k x = u \<longrightarrow> p (g x) = new"
  shows "distinct (map p (map (\<lambda>x. if k x = u then g x else x) xs))"
  using assms
proof (induction xs)
  case (Cons x xs)
  have IH: "distinct (map p (map (\<lambda>x. if k x = u then g x else x) xs))" using Cons by simp
  show ?case
  proof (cases "k x = u")
    case True
    then have u: "k y \<noteq> u" if "y \<in> set xs" for y using Cons.prems(1) that by (auto simp: image_iff)
    then have "map (\<lambda>x. if k x = u then g x else x) xs = xs" by (simp add: map_idI)
    moreover have "new \<notin> p ` set xs" using u Cons.prems(3) by auto
    ultimately show ?thesis using Cons.prems True by simp
  next
    case False
    then have "p x \<noteq> new" using Cons.prems(3) by auto
    then have "p x \<noteq> p (if k y = u then g y else y)" if "y \<in> set xs" for y using Cons.prems(2,4) that by auto
    then show ?thesis using IH False by auto
  qed
qed simp

lemma UpdateDashboard_ok:
  assumes "db_ok db" "UpdateDashboard uuid f now db d = (db', Inr d')" "isJSONObject (da_Layout d)"
  shows "db_ok db' \<and> db_tenants db' = db_tenants db"
proof -
  obtain u old where o: "List.find (\<lambda>x. da_ID x = u) (db_dashboards db) = Some old" "da_Name d \<noteq> []"
      "\<not> name_taken db u (da_TenantID old) (da_Name d)"
      "db' = db\<lparr>db_dashboards := map (\<lambda>x. if da_ID x = u
         then x\<lparr>da_Name := da_Name d, da_Layout := da_Layout d, da_UpdatedAt := now\<rparr> else x) (db_dashboards db)\<rparr>"
    using assms(2) by (auto simp: UpdateDashboard_def split: if_splits option.splits)
  define g where "g = (\<lambda>x :: dashboard. x\<lparr>da_Name := da_Name d, da_Layout := da_Layout d, da_UpdatedAt := now\<rparr>)"
  define ds where "ds = db_dashboards db"
  have old: "old \<in> set ds" "da_ID old = u" using o(1) by (auto simp: find_Some_iff ds_def)
  have only: "x = old" if "x \<in> set ds" "da_ID x = u" for x
    using assms(1) old that by (auto simp: db_ok_def ds_def distinct_map inj_on_def)
  have ids: "map da_ID (map (\<lambda>x. if da_ID x = u then g x else x) ds) = map da_ID ds"
    by (induction ds) (auto simp: g_def)
  let ?p = "\<lambda>d. (da_TenantID d, da_Name d)"
  have names: "distinct (map ?p (map (\<lambda>x. if da_ID x = u then g x else x) ds))"
  proof (rule distinct_renamed)
    show "distinct (map da_ID ds)" "distinct (map ?p ds)" using assms(1) by (simp_all add: db_ok_def ds_def)
    show "\<forall>x \<in> set ds. da_ID x \<noteq> u \<longrightarrow> ?p x \<noteq> (da_TenantID old, da_Name d)"
      using o(3) by (auto simp: name_taken_def list_ex_iff ds_def)
    show "\<forall>x \<in> set ds. da_ID x = u \<longrightarrow> ?p (g x) = (da_TenantID old, da_Name d)"
      using only by (auto simp: g_def)
  qed
  have rows: "list_all (\<lambda>d. da_Name d \<noteq> [] \<and> isJSONObject (da_Layout d) \<and> da_TenantID d \<in> te_ID ` set (db_tenants db))
      (map (\<lambda>x. if da_ID x = u then g x else x) ds)"
    using assms(1,3) o(2) by (auto simp: db_ok_def ds_def list_all_iff g_def)
  have db': "db_dashboards db' = map (\<lambda>x. if da_ID x = u then g x else x) ds" "db_tenants db' = db_tenants db"
    using o(4) by (simp_all add: g_def ds_def)
  show ?thesis using assms(1) names rows ids unfolding db_ok_def db' ds_def by (simp only: simp_thms)
qed


lemma createDashboard_cases:
  assumes "createDashboard en i q sv = (sv', resp)"
  obtains "sv' = sv" | d db d' where "CreateDashboard (en_fault en) i (en_now en) (sv_db sv) d = (db, Inr d')" "isJSONObject (da_Layout d)" "sv' = sv\<lparr>sv_db := db\<rparr>"
proof (cases q)
  case None
  then show ?thesis using assms that(1) by (simp add: createDashboard_def)
next
  case (Some r)
  show ?thesis
  proof (cases "(dr_TenantID r = [] \<or> dr_Name r = [] \<or> dr_Layout r = []) \<or> \<not> isJSONObject (dr_Layout r)")
    case True
    then show ?thesis using assms Some that(1) by (auto simp: createDashboard_def split: if_splits)
  next
    case False
    let ?d = "blank_dashboard\<lparr>da_TenantID := dr_TenantID r, da_Name := dr_Name r, da_Layout := dr_Layout r, da_CreatedBy := or_actor (en_headers en)\<rparr>"
    obtain db res where c: "CreateDashboard (en_fault en) i (en_now en) (sv_db sv) ?d = (db, res)" by fastforce
    show ?thesis
    proof (cases res)
      case (Inl e)
      then show ?thesis using assms Some False c that(1) by (cases e) (simp_all add: createDashboard_def)
    next
      case (Inr d')
      show ?thesis
        by (rule that(2) [OF c [unfolded Inr]]) (use assms Some False c Inr in \<open>simp_all add: createDashboard_def\<close>)
    qed
  qed
qed

lemma updateDashboard_cases:
  assumes "updateDashboard uuid en i q sv = (sv', resp)"
  obtains "sv' = sv" | d db d' where "UpdateDashboard uuid (en_fault en) (en_now en) (sv_db sv) d = (db, Inr d')" "isJSONObject (da_Layout d)" "sv' = sv\<lparr>sv_db := db\<rparr>"
proof (cases q)
  case None
  then show ?thesis using assms that(1) by (simp add: updateDashboard_def)
next
  case (Some r)
  show ?thesis
  proof (cases "(dr_Name r = [] \<or> dr_Layout r = []) \<or> \<not> isJSONObject (dr_Layout r)")
    case True
    then show ?thesis using assms Some that(1) by (auto simp: updateDashboard_def split: if_splits)
  next
    case False
    let ?d = "blank_dashboard\<lparr>da_ID := i, da_Name := dr_Name r, da_Layout := dr_Layout r\<rparr>"
    obtain db res where c: "UpdateDashboard uuid (en_fault en) (en_now en) (sv_db sv) ?d = (db, res)" by fastforce
    show ?thesis
    proof (cases res)
      case (Inl e)
      then show ?thesis using assms Some False c that(1) by (cases e) (simp_all add: updateDashboard_def)
    next
      case (Inr d')
      show ?thesis
        by (rule that(2) [OF c [unfolded Inr]]) (use assms Some False c Inr in \<open>simp_all add: updateDashboard_def\<close>)
    qed
  qed
qed

lemma dashboards_ok:
  assumes "server_ok sv"
  shows "createDashboard en i q sv = (sv', resp) \<Longrightarrow> server_ok sv'"
    and "updateDashboard uuid en i q sv = (sv', resp) \<Longrightarrow> server_ok sv'"
    and "deleteDashboard uuid en i sv = (sv', resp) \<Longrightarrow> server_ok sv'"
proof -
  have ok: "db_ok (sv_db sv)" using assms by (simp add: server_ok_def)
  have set_db: "server_ok (sv\<lparr>sv_db := db\<rparr>)" if "db_ok db \<and> db_tenants db = db_tenants (sv_db sv)" for db
    using assms that by (simp add: server_ok_dashboards)
  show "server_ok sv'" if "createDashboard en i q sv = (sv', resp)"
    using that by (cases rule: createDashboard_cases) (simp_all add: assms set_db CreateDashboard_ok [OF ok])
  show "server_ok sv'" if "updateDashboard uuid en i q sv = (sv', resp)"
    using that by (cases rule: updateDashboard_cases) (simp_all add: assms set_db UpdateDashboard_ok [OF ok])
  have d: "db_ok (db\<lparr>db_dashboards := filter P (db_dashboards db)\<rparr>)" if "db_ok db" for db P
    using that by (auto simp: db_ok_def list_all_iff distinct_map_filter)
  show "server_ok sv'" if "deleteDashboard uuid en i sv = (sv', resp)"
  proof -
    have "sv' = sv \<or> (\<exists>u. sv' = sv\<lparr>sv_db := (sv_db sv)\<lparr>db_dashboards := filter (\<lambda>d. da_ID d \<noteq> u) (db_dashboards (sv_db sv))\<rparr>\<rparr>)"
      using that unfolding deleteDashboard_def DeleteDashboard_def by (auto split: if_splits option.splits)
    then show ?thesis
    proof (elim disjE exE)
      fix u
      assume "sv' = sv\<lparr>sv_db := (sv_db sv)\<lparr>db_dashboards := filter (\<lambda>d. da_ID d \<noteq> u) (db_dashboards (sv_db sv))\<rparr>\<rparr>"
      then show ?thesis by (simp add: set_db d [OF ok])
    qed (simp add: assms)
  qed
qed

lemma dispatch_ok:
  assumes "server_ok sv" "dispatch uuid exec en call sv = (sv', resp)"
  shows "server_ok sv'"
  using assms
  by (cases call)
    (auto dest: createTenant_ok deleteTenant_ok issueAPIKey_ok revokeAPIKey_ok retention_ok dashboards_ok)

definition router_run ::
  "'k jwt_library \<Rightarrow> (string \<Rightarrow> string option) \<Rightarrow> ('k jwk list option \<times> environment \<times> (string \<Rightarrow> bool) \<times> api_call) list \<Rightarrow>
   'k validator \<times> server \<Rightarrow> 'k validator \<times> server" where
  "router_run lib uuid reqs st = foldl (\<lambda>st (answer, en, exec, call). fst (router lib uuid exec answer en call st)) st reqs"

lemma router_ok: "server_ok (snd st) \<Longrightarrow> server_ok (snd (fst (router lib uuid exec answer en call st)))"
proof -
  assume ok: "server_ok (snd st)"
  obtain v sv v' sv' resp where st: "st = (v, sv)" "router lib uuid exec answer en call (v, sv) = ((v', sv'), resp)"
    by (metis surj_pair)
  show ?thesis using st(2) by (cases rule: router_cases) (use ok st dispatch_ok in auto)
qed


text \<open>
  C37. The invariant of the control plane. Whatever sequence of requests, identity-provider answers and
  database failures, tenant ids stay distinct and non-empty with their tier, retention and quota within
  the checks, dashboards keep distinct ids and a name that is unique for their tenant, belong to a tenant
  and hold a layout the guard accepts, and every API key has a distinct kid and belongs to a tenant.
\<close>

theorem control_plane_invariant:
  assumes "server_ok (snd st)"
  shows "server_ok (snd (router_run lib uuid reqs st))"
  using assms
proof (induction reqs arbitrary: st)
  case (Cons r reqs)
  obtain answer en exec call where r: "r = (answer, en, exec, call)" by (cases r) auto
  have "router_run lib uuid (r # reqs) st = router_run lib uuid reqs (fst (router lib uuid exec answer en call st))"
    by (simp add: router_run_def r)
  then show ?case using Cons.IH [OF router_ok [OF Cons.prems]] by simp
qed (simp add: router_run_def)

section \<open>Who is admitted\<close>

lemma bearer_eq: "7 < length h \<and> take 7 h = ''Bearer '' \<and> drop 7 h = t \<longleftrightarrow> h = ''Bearer '' @ t \<and> t \<noteq> []"
proof -
  have "take 7 (''Bearer '' @ t) = ''Bearer ''" "drop 7 (''Bearer '' @ t) = t" for t :: string by simp_all
  moreover have "h = ''Bearer '' @ drop 7 h" if "take 7 h = ''Bearer ''"
    using append_take_drop_id [of 7 h] that by metis
  ultimately show ?thesis by fastforce
qed

text \<open>
  Without an identity provider, a request is served exactly when its header is \<open>Bearer \<close> followed by
  the administrator token; the empty token admits nobody. Any other request is answered 401 or 403
  and changes nothing.
\<close>

theorem admin_token_gate:
  assumes "\<not> sv_oidc sv"
  shows "router lib uuid exec answer en call (v, sv) =
    (let h = or_authorization (en_headers en)
     in if h = ''Bearer '' @ sv_adminToken sv \<and> sv_adminToken sv \<noteq> []
        then (case dispatch uuid exec en call sv of (sv', resp) \<Rightarrow> ((v, sv'), resp))
        else if 7 < length h \<and> take 7 h = ''Bearer '' then ((v, sv), (403, ErrorBody ''invalid admin token''))
        else ((v, sv), (401, ErrorBody ''missing admin token'')))"
proof -
  let ?h = "or_authorization (en_headers en)"
  have en: "en\<lparr>en_headers := en_headers en\<rparr> = en" by simp
  consider "length ?h \<le> 7 \<or> take 7 ?h \<noteq> ''Bearer ''"
    | "7 < length ?h" "take 7 ?h = ''Bearer ''" "drop 7 ?h \<noteq> sv_adminToken sv"
    | "7 < length ?h" "take 7 ?h = ''Bearer ''" "drop 7 ?h = sv_adminToken sv" by fastforce
  then show ?thesis
  proof cases
    case 1
    then have n: "\<not> (?h = ''Bearer '' @ sv_adminToken sv \<and> sv_adminToken sv \<noteq> [])"
      using bearer_eq [of ?h "sv_adminToken sv"] by linarith
    show ?thesis
      using 1 assms unfolding Let_def if_not_P [OF n] by (auto simp: router_def requireAdmin_def check_admin_token_def)
  next
    case 2
    then have n: "\<not> (?h = ''Bearer '' @ sv_adminToken sv \<and> sv_adminToken sv \<noteq> [])"
      using bearer_eq [of ?h "sv_adminToken sv"] by blast
    show ?thesis
      using 2 assms unfolding Let_def if_not_P [OF n] by (auto simp: router_def requireAdmin_def check_admin_token_def)
  next
    case 3
    then have p: "?h = ''Bearer '' @ sv_adminToken sv \<and> sv_adminToken sv \<noteq> []"
      using bearer_eq [of ?h "sv_adminToken sv"] by blast
    show ?thesis
      using 3 assms unfolding Let_def if_P [OF p] by (simp add: router_def requireAdmin_def check_admin_token_def en)
  qed
qed

section \<open>After a deletion\<close>

lemma deleted_rows:
  assumes "deleteTenant en tid sv = (sv', (204, NoBody))"
  shows "sv_keys sv' = sv_keys sv" "\<forall>t \<in> set (db_tenants (sv_db sv')). te_ID t = tid \<longrightarrow> te_DeletedAt t \<noteq> None"
    "tid \<in> te_ID ` set (db_tenants (sv_db sv'))" "sv_clickhouse sv' = sv_clickhouse sv"
proof -
  define f where "f = (\<lambda>t. if te_ID t = tid \<and> live_tenant t then t\<lparr>te_DeletedAt := Some (en_now en)\<rparr> else t)"
  define db where "db = (sv_db sv)\<lparr>db_tenants := map f (db_tenants (sv_db sv))\<rparr>"
  have soft: "SoftDeleteTenant (en_fault en) (en_now en) (sv_db sv) tid =
      (if en_fault en \<noteq> None then (sv_db sv, Some StoreFailed)
       else if list_ex (\<lambda>t. te_ID t = tid \<and> live_tenant t) (db_tenants (sv_db sv)) then (db, None)
       else (sv_db sv, Some ErrTenantNotFound))"
    by (simp add: SoftDeleteTenant_def db_def f_def)
  have ok: "en_fault en = None" "list_ex (\<lambda>t. te_ID t = tid \<and> live_tenant t) (db_tenants (sv_db sv))"
    using assms unfolding deleteTenant_def soft by (auto split: if_splits)
  have d: "sv' = audit en (Some tid) ''admin'' ''tenant.delete'' Map.empty (sv\<lparr>sv_db := db\<rparr>)"
    using assms unfolding deleteTenant_def soft by (simp add: ok)
  have "te_ID (f t) = te_ID t" for t by (simp add: f_def)
  then have ids: "te_ID ` set (map f ts) = te_ID ` set ts" for ts by (simp add: image_image)
  have gone: "te_DeletedAt (f t) \<noteq> None" if "te_ID (f t) = tid" for t
    using that by (cases "te_ID t = tid"; cases "live_tenant t") (simp_all add: f_def live_tenant_def)
  have rows: "db_tenants (sv_db sv') = map f (db_tenants (sv_db sv))" by (simp add: d db_def)
  show "sv_keys sv' = sv_keys sv" by (simp add: d)
  show "sv_clickhouse sv' = sv_clickhouse sv" by (simp add: d audit_def Let_def)
  show "\<forall>t \<in> set (db_tenants (sv_db sv')). te_ID t = tid \<longrightarrow> te_DeletedAt t \<noteq> None"
    unfolding rows using gone by auto
  show "tid \<in> te_ID ` set (db_tenants (sv_db sv'))"
    unfolding rows ids using ok(2) unfolding list_ex_iff by blast
qed

lemma GetTenant_gone:
  "\<forall>t \<in> set (db_tenants db). te_ID t = tid \<longrightarrow> te_DeletedAt t \<noteq> None \<Longrightarrow>
   GetTenant f db tid = (if f = None then Inl ErrTenantNotFound else Inl StoreFailed)"
  by (cases f) (auto simp: GetTenant_def live_tenant_def find_Some_iff split: option.split)

lemma CreateTenant_taken:
  "te_ID t \<in> te_ID ` set (db_tenants db) \<Longrightarrow> tenant_checks t \<Longrightarrow> CreateTenant None now db t = (db, Inl ErrTenantExists)"
  by (simp add: CreateTenant_def insert_tenant_error_def store_error_of_def unique_messages)

definition request_tenant :: "createTenantReq \<Rightarrow> tenant" where
  "request_tenant q = \<lparr>te_ID = ct_ID q, te_DisplayName = ct_DisplayName q, te_Tier = orDefault (ct_Tier q) ''free'',
     te_RetentionDays = ifZero (ct_RetentionDays q) 14, te_QuotaEPS = ifZero (ct_QuotaEPS q) 1000,
     te_CreatedAt = 0, te_DeletedAt = None\<rparr>"

text \<open>
  What a deletion leaves. After a tenant is deleted (status 204) its id is gone from lookups and no key
  can be issued for it (404), and the id can never be used again (409 for a request with a correct
  tenant); but every API key of the tenant keeps validating exactly as before, at any instant and for
  any key and cache: the deletion revokes nothing.
\<close>

theorem deleted_tenant_keys_valid:
  assumes "deleteTenant en tid sv = (sv', (204, NoBody))" and "en_fault en' = None"
    and "ct_ID q = tid" "tid \<noteq> []" "ct_DisplayName q \<noteq> []" "tenant_checks (request_tenant q)"
  shows "pg_validate b3 argon (sv_keys sv') order up now key = pg_validate b3 argon (sv_keys sv) order up now key \<and>
    getTenant en' tid sv' = (404, ErrorBody ''not found'') \<and>
    issueAPIKey en' rnd tid k sv' = (sv', (404, ErrorBody ''tenant not found'')) \<and>
    createTenant en' (Some q) sv' = (sv', (409, ErrorBody ''tenant already exists''))"
proof -
  note rows = deleted_rows [OF assms(1)]
  have get: "GetTenant (en_fault en') (sv_db sv') tid = Inl ErrTenantNotFound"
    using GetTenant_gone [OF rows(2)] assms(2) by simp
  have "CreateTenant (en_fault en') (en_now en') (sv_db sv') (request_tenant q) = (sv_db sv', Inl ErrTenantExists)"
    unfolding assms(2) by (rule CreateTenant_taken) (use rows(3) assms(3,6) in \<open>simp_all add: request_tenant_def\<close>)
  then have "createTenant en' (Some q) sv' = (sv', (409, ErrorBody ''tenant already exists''))"
    using assms(3-5) by (simp add: createTenant_def request_tenant_def)
  then show ?thesis using rows(1) get by (simp add: getTenant_def issueAPIKey_def)
qed

section \<open>Keys that cannot be used\<close>

lemma split_byte_append_length: "length (split_byte c (a @ c # b)) = length (split_byte c a) + length (split_byte c b)"
proof (induction a)
  case (Cons x a)
  have "split_byte c (a @ c # b) \<noteq> []" "split_byte c a \<noteq> []" by simp_all
  then show ?case using Cons by (auto split: list.splits)
qed simp

lemma split_byte_one: "length (split_byte c a) = 1 \<Longrightarrow> c \<notin> set a"
  using split_byte_no_sep [of a c a] join_split_byte [of c a]
  by (cases "split_byte c a") auto

text \<open>
  A key of a tenant whose id holds a colon never validates: whatever the store, its cache and the
  hashes, the wire form the service shows once is not split into three parts. Creation of the tenant and
  issue of the key do not check the id, and both succeed.
\<close>

theorem colon_tenant_keys_useless:
  assumes "issueAPIKey en rnd tid q sv = (sv', (201, KeyBody issued))" "colon \<in> set tid"
  shows "pg_validate b3 argon st order up now (ik_raw issued) = (st, None)"
proof (cases rule: issueAPIKey_cases [of en rnd tid q sv])
  case (2 t scopes ks k)
  then have "k = issued" using assms(1) by simp
  then obtain kid sec where raw: "ik_raw issued = tid @ colon # kid @ colon # sec"
    using 2(3) by (auto simp: IssueKeyWithScopes_def Let_def colon_def split: if_splits option.splits)
  have pos: "1 \<le> length (split_byte colon s)" for s
    using split_byte_neq_Nil [of colon s] by (cases "split_byte colon s") simp_all
  have "2 \<le> length (split_byte colon tid)"
    using pos [of tid] split_byte_one [of colon tid] assms(2) by fastforce
  then have "4 \<le> length (split_byte colon (ik_raw issued))"
    unfolding raw split_byte_append_length using pos [of kid] pos [of sec] by linarith
  then have "splitWireKey (ik_raw issued) = None"
    by (auto simp: splitWireKey_def split: list.splits)
  then show ?thesis by (simp add: pg_validate_def)
next
  case (1 resp)
  then have "resp = (201, KeyBody issued)" using assms(1) by simp
  with 1(2) show ?thesis by simp
qed

text \<open>
  The substring search the repository writes out by hand finds a text exactly when there is an
  occurrence; so an error of the database is taken for a violated unique constraint exactly when its
  message holds \<open>23505\<close> or \<open>duplicate key\<close> somewhere, wherever that text came from.
\<close>

theorem unique_violation_search:
  "(contains_text h n \<longleftrightarrow> (\<exists>a b. h = a @ n @ b)) \<and>
   (isUniqueViolation (Some m) \<longleftrightarrow>
      (\<exists>a b. m = a @ ''23505'' @ b) \<or> (\<exists>a b. m = a @ ''duplicate key'' @ b))"
  by (simp_all add: contains_text_iff isUniqueViolation_def)


section \<open>Concrete runs\<close>

definition demo_server :: server where
  "demo_server = \<lparr>sv_adminToken = ''secret'', sv_oidc = False,
     sv_db = \<lparr>db_tenants = [], db_audit = [], db_dashboards = []\<rparr>,
     sv_keys = NewPostgresKeyStore [] \<lparr>po_CacheSize = 0, po_CacheTTL = 0, po_LastUsedDebounce = 0\<rparr>,
     sv_exporting = True, sv_exported = [], sv_clickhouse = False, sv_ddl = []\<rparr>"

definition demo_env :: "int \<Rightarrow> environment" where
  "demo_env now = \<lparr>en_now = now, en_fault = None, en_fault2 = None, en_audit_fault = None, en_ip = ''10.0.0.1'',
     en_headers = \<lparr>or_authorization = ''Bearer secret'', or_subject = [], or_email = [], or_actor = [], or_claims = None\<rparr>\<rparr>"

definition demo_tenant :: "string \<Rightarrow> createTenantReq" where
  "demo_tenant i = \<lparr>ct_ID = i, ct_DisplayName = ''Acme'', ct_Tier = [], ct_RetentionDays = 0, ct_QuotaEPS = 0\<rparr>"

definition demo_created :: "string \<Rightarrow> server" where
  "demo_created i = fst (createTenant (demo_env 1) (Some (demo_tenant i)) demo_server)"

lemma demo_router:
  "fst (snd (router demo_lib Some (\<lambda>_. True) None (demo_env 1) (PostTenant (Some (demo_tenant ''acme'')))
     (demo_validator, demo_server))) = 201"
  "db_tenants (sv_db (snd (fst (router demo_lib Some (\<lambda>_. True) None (demo_env 1)
     (PostTenant (Some (demo_tenant ''acme''))) (demo_validator, demo_server))))) \<noteq> []"
  by code_simp+

theorem control_plane_audited_witness:
  "\<exists>v' sv' resp h. router demo_lib Some (\<lambda>_. True) None (demo_env 1) (PostTenant (Some (demo_tenant ''acme'')))
       (demo_validator, demo_server) = ((v', sv'), resp) \<and> fst resp = 201 \<and>
     logged_once ((demo_env 1)\<lparr>en_headers := h\<rparr>) ''acme'' ''tenant.create'' demo_server sv'"
proof -
  obtain v' sv' resp where r: "router demo_lib Some (\<lambda>_. True) None (demo_env 1)
      (PostTenant (Some (demo_tenant ''acme''))) (demo_validator, demo_server) = ((v', sv'), resp)"
    by (metis surj_pair)
  have "db_tenants (sv_db sv') \<noteq> []" "fst resp = 201" using demo_router r by simp_all
  then have "\<not> unlogged demo_server sv'" "fst resp = 201" by (simp_all add: unlogged_def demo_server_def)
  then show ?thesis
    using control_plane_audited [OF r] r by (auto simp: demo_tenant_def)
qed

lemma demo_server_ok: "server_ok demo_server"
  by (simp add: server_ok_def db_ok_def demo_server_def NewPostgresKeyStore_def Let_def)

theorem control_plane_invariant_witness:
  "server_ok (snd (router_run demo_lib Some
     [(None, demo_env 1, \<lambda>_. True, PostTenant (Some (demo_tenant ''acme''))),
      (None, demo_env 2, \<lambda>_. True, PostDashboard ''d1'' (Some \<lparr>dr_TenantID = ''acme'', dr_Name = ''n'', dr_Layout = ''null''\<rparr>))]
     (demo_validator, demo_server)))"
  by (rule control_plane_invariant) (simp add: demo_server_ok)

theorem admin_token_gate_witness:
  "router demo_lib Some (\<lambda>_. True) None ((demo_env 1)\<lparr>en_headers := (en_headers (demo_env 1))\<lparr>or_authorization := ''Bearer '' @ []\<rparr>\<rparr>)
     (DeleteTenantBy ''acme'') (demo_validator, demo_server\<lparr>sv_adminToken := []\<rparr>) =
   ((demo_validator, demo_server\<lparr>sv_adminToken := []\<rparr>), (401, ErrorBody ''missing admin token''))"
  by (subst admin_token_gate) (simp_all add: demo_server_def demo_env_def)

lemma demo_deleted:
  "snd (deleteTenant (demo_env 2) ''acme'' (demo_created ''acme'')) = (204, NoBody)"
proof -
  have "fst (snd (deleteTenant (demo_env 2) ''acme'' (demo_created ''acme''))) = 204 \<and>
      (case snd (snd (deleteTenant (demo_env 2) ''acme'' (demo_created ''acme''))) of NoBody \<Rightarrow> True | _ \<Rightarrow> False)"
    by code_simp
  then show ?thesis by (auto split: body.splits intro: prod_eqI)
qed

theorem deleted_tenant_keys_valid_witness:
  "createTenant (demo_env 3) (Some (demo_tenant ''acme''))
     (fst (deleteTenant (demo_env 2) ''acme'' (demo_created ''acme''))) =
   (fst (deleteTenant (demo_env 2) ''acme'' (demo_created ''acme'')), (409, ErrorBody ''tenant already exists''))"
proof -
  have "deleteTenant (demo_env 2) ''acme'' (demo_created ''acme'') =
      (fst (deleteTenant (demo_env 2) ''acme'' (demo_created ''acme'')), (204, NoBody))"
    using demo_deleted by (metis prod.collapse)
  moreover have "tenant_checks (request_tenant (demo_tenant ''acme''))" by code_simp
  ultimately show ?thesis
    using deleted_tenant_keys_valid [of "demo_env 2" "''acme''" "demo_created ''acme''" _ "demo_env 3" "demo_tenant ''acme''"]
    by (simp add: demo_env_def demo_tenant_def)
qed

definition demo_request_key :: issueKeyReq where
  "demo_request_key = \<lparr>iq_bound = True, iq_ExpiresAt = None, iq_Scopes = [''ingest'']\<rparr>"

lemma demo_issued:
  "\<exists>k. snd (issueAPIKey (demo_env 2) (Some (''kid'', ''sec'', ''h'')) ''a:b'' demo_request_key (demo_created ''a:b'')) =
     (201, KeyBody k) \<and> ik_raw k = ''a:b:kid:sec''"
proof -
  let ?r = "snd (issueAPIKey (demo_env 2) (Some (''kid'', ''sec'', ''h'')) ''a:b'' demo_request_key (demo_created ''a:b''))"
  have "fst ?r = 201 \<and> (case snd ?r of KeyBody k \<Rightarrow> ik_raw k = ''a:b:kid:sec'' | _ \<Rightarrow> False)"
    by code_simp
  then show ?thesis by (auto split: body.splits simp: prod_eq_iff)
qed

theorem colon_tenant_keys_useless_witness:
  "\<exists>k. snd (issueAPIKey (demo_env 2) (Some (''kid'', ''sec'', ''h'')) ''a:b'' demo_request_key (demo_created ''a:b'')) =
     (201, KeyBody k) \<and>
   pg_validate id (\<lambda>_ _. True) (sv_keys demo_server) [] True 3 (ik_raw k) = (sv_keys demo_server, None)"
proof -
  obtain k where k: "snd (issueAPIKey (demo_env 2) (Some (''kid'', ''sec'', ''h'')) ''a:b'' demo_request_key
      (demo_created ''a:b'')) = (201, KeyBody k)"
    using demo_issued by blast
  have "issueAPIKey (demo_env 2) (Some (''kid'', ''sec'', ''h'')) ''a:b'' demo_request_key (demo_created ''a:b'') =
      (fst (issueAPIKey (demo_env 2) (Some (''kid'', ''sec'', ''h'')) ''a:b'' demo_request_key (demo_created ''a:b'')), (201, KeyBody k))"
    using k by (metis prod.collapse)
  from colon_tenant_keys_useless [OF this] k show ?thesis by (simp add: colon_def)
qed

end
