(* ===== verification/QueryEngine.thy ===== *)
theory QueryEngine
  imports PromLower LogQL ObserveQL Auth GoNum
begin

text \<open>
  The read path (\<open>services/query-engine\<close>): the query and export handlers, the NDJSON executor, the
  Prometheus and Loki shims and the live tail of logs. The database is a parameter that answers a
  statement with its bound arguments by rows, \<open>None\<close> for an error; the clock is an input. A handler
  returns the statements it executed and its reply.
\<close>

section \<open>Rows and requests\<close>

text \<open>\<open>CellOther\<close> is a value of another dynamic type, given by its default format.\<close>

datatype cell = CellTime int | CellTimePtr "int option" | CellString string | CellOther string

type_synonym db_row = "string \<rightharpoonup> cell"
type_synonym statement = "string \<times> sql_arg list"
type_synonym database = "string \<Rightarrow> sql_arg list \<Rightarrow> db_row list option"

text \<open>The functions of other packages the handlers use: \<open>regexp.Compile\<close>, \<open>%g\<close>, \<open>Sscanf\<close>,
  \<open>time.ParseDuration\<close>, \<open>Duration.String\<close>, \<open>time.Parse\<close> with the RFC 3339 layouts, \<open>%v\<close> of a time, and the
  generated parser of ObserveQL.\<close>

record query_lib =
  ql_re_ok :: "string \<Rightarrow> bool"
  ql_fmtg :: "f64 \<Rightarrow> string"
  ql_scan_ok :: "string \<Rightarrow> bool"
  ql_parse_dur :: "string \<Rightarrow> int option"
  ql_show_dur :: "int \<Rightarrow> string"
  ql_parse_time :: "string \<Rightarrow> int option"
  ql_show_time :: "int \<Rightarrow> string"
  ql_parse :: "string \<Rightarrow> oq_query option"

text \<open>\<open>hq_body\<close>: the JSON body, \<open>None\<close> when it does not bind.\<close>

record queryReq =
  qr_Query :: string
  qr_MaxRows :: int
  qr_TimeoutSecs :: int

record http_query =
  hq_tenant :: string
  hq_query :: "string \<rightharpoonup> string"
  hq_form :: "string \<rightharpoonup> string"
  hq_accept :: string
  hq_body :: "queryReq option"

text \<open>\<open>c.DefaultQuery(k, c.PostForm(k))\<close> and \<open>c.Query\<close>.\<close>

definition param_of :: "http_query \<Rightarrow> string \<Rightarrow> string" where
  "param_of r k = (case hq_query r k of Some v \<Rightarrow> v
     | None \<Rightarrow> (case hq_form r k of Some v \<Rightarrow> v | None \<Rightarrow> []))"

definition query_of :: "http_query \<Rightarrow> string \<Rightarrow> string" where
  "query_of r k = (case hq_query r k of Some v \<Rightarrow> v | None \<Rightarrow> [])"

section \<open>Parameters\<close>

definition parseTimeParam :: "query_lib \<Rightarrow> string \<Rightarrow> int \<Rightarrow> int" where
  "parseTimeParam lib s fallback =
     (if s = [] then fallback
      else case parse_float s of
        Some f \<Rightarrow>
          (let sec = to_int64 f; nsec = to_int64 (fmul (fsub f (of_int64 sec)) (flit (10 ^ 9)))
           in sec * second + nsec)
      | None \<Rightarrow> (case ql_parse_time lib s of Some t \<Rightarrow> t | None \<Rightarrow> fallback))"

definition parseDurParam :: "query_lib \<Rightarrow> string \<Rightarrow> int \<Rightarrow> int" where
  "parseDurParam lib s fallback =
     (if s = [] then fallback
      else case ql_parse_dur lib s of
        Some d \<Rightarrow> d
      | None \<Rightarrow> (case parse_float s of
          Some f \<Rightarrow> to_int64 (fmul f (of_int64 second))
        | None \<Rightarrow> fallback))"

definition tenantOf :: "http_query \<Rightarrow> string" where
  "tenantOf r = (if hq_tenant r \<noteq> [] then hq_tenant r else query_of r ''tenant_id'')"

definition withTenant :: "string \<Rightarrow> string \<Rightarrow> sql_arg list \<Rightarrow> statement" where
  "withTenant sql tenant args =
     (if tenant = [] then (sql, args)
      else (''SELECT * FROM ('' @ sql @ '') WHERE tenant_id = ?'', args @ [AStr tenant]))"

definition timestampOf :: "query_lib \<Rightarrow> cell option \<Rightarrow> int option" where
  "timestampOf lib v =
     (case v of
        Some (CellTime t) \<Rightarrow> Some t
      | Some (CellTimePtr p) \<Rightarrow> p
      | Some (CellString s) \<Rightarrow> if s = [] then None else ql_parse_time lib s
      | _ \<Rightarrow> None)"

text \<open>\<open>%v\<close>.\<close>

definition show_cell :: "query_lib \<Rightarrow> cell option \<Rightarrow> string" where
  "show_cell lib v =
     (case v of
        None \<Rightarrow> ''<nil>''
      | Some (CellTime t) \<Rightarrow> ql_show_time lib t
      | Some (CellTimePtr p) \<Rightarrow> (case p of None \<Rightarrow> ''<nil>'' | Some t \<Rightarrow> ql_show_time lib t)
      | Some (CellString s) \<Rightarrow> s
      | Some (CellOther s) \<Rightarrow> s)"

definition zero_time :: int where "zero_time = - 62135596800 * second"

section \<open>The Prometheus shim\<close>

datatype shim_reply = ShimError nat | Matrix "(int \<times> string) list" | Vector "(int \<times> string) option"
  | Streams "((string \<times> string) \<times> (int \<times> string) list) list"

definition matrix_values :: "query_lib \<Rightarrow> db_row list \<Rightarrow> (int \<times> string) list" where
  "matrix_values lib rows =
     List.map_filter (\<lambda>r. map_option (\<lambda>t. (t div second, show_cell lib (r ''v''))) (timestampOf lib (r ''t''))) rows"

definition runProm ::
  "query_lib \<Rightarrow> database \<Rightarrow> int \<Rightarrow> http_query \<Rightarrow> query_params \<Rightarrow> bool \<Rightarrow> statement list \<times> shim_reply" where
  "runProm lib db now r p isMatrix =
     (case Translate (ql_re_ok lib) (ql_fmtg lib) now p of
        Inl _ \<Rightarrow> ([], ShimError 400)
      | Inr res \<Rightarrow>
          (let tenant = tenantOf r in
           if tenant = [] then ([], ShimError 401)
           else
             let (sql, args) = withTenant (pr_sql res) tenant (pr_args res)
             in ([(sql, args)],
                 case db sql args of
                   None \<Rightarrow> ShimError 500
                 | Some rows \<Rightarrow>
                     if isMatrix then Matrix (matrix_values lib rows)
                     else if rows = [] then Vector None
                     else
                       let l = last rows;
                           ts = (case timestampOf lib (l ''t'') of Some t \<Rightarrow> t | None \<Rightarrow> zero_time)
                       in Vector (Some (ts div second, show_cell lib (l ''v''))))))"

definition promInstantHandler ::
  "query_lib \<Rightarrow> database \<Rightarrow> int \<Rightarrow> http_query \<Rightarrow> statement list \<times> shim_reply" where
  "promInstantHandler lib db now r =
     (let ts = parseTimeParam lib (param_of r ''time'') now
      in runProm lib db now r
           \<lparr>qp_query = param_of r ''query'', qp_start = Some ts, qp_end = Some ts, qp_step = 30 * second\<rparr> False)"

definition promRangeHandler ::
  "query_lib \<Rightarrow> database \<Rightarrow> int \<Rightarrow> http_query \<Rightarrow> statement list \<times> shim_reply" where
  "promRangeHandler lib db now r =
     runProm lib db now r
       \<lparr>qp_query = param_of r ''query'',
        qp_start = Some (parseTimeParam lib (param_of r ''start'') (now - hour)),
        qp_end = Some (parseTimeParam lib (param_of r ''end'') now),
        qp_step = parseDurParam lib (param_of r ''step'') (30 * second)\<rparr> True"

section \<open>The Loki shim\<close>

definition lokiParams :: "query_lib \<Rightarrow> int \<Rightarrow> http_query \<Rightarrow> bool \<Rightarrow> lq_params" where
  "lokiParams lib now r isRange =
     (let l = atoi_or_zero (param_of r ''limit''); limit = (if l \<le> 0 then 1000 else l);
          step = parseDurParam lib (param_of r ''step'') (30 * second);
          ts = parseTimeParam lib (param_of r ''time'') now
      in \<lparr>lqp_query = param_of r ''query'',
          lqp_start = Some (if isRange then parseTimeParam lib (param_of r ''start'') (now - hour) else ts - hour),
          lqp_end = Some (if isRange then parseTimeParam lib (param_of r ''end'') now else ts),
          lqp_step = step, lqp_limit = limit\<rparr>)"

text \<open>The groups in the order of their first row (the code walks a Go map, in any order).\<close>

fun add_to_group :: "'k \<Rightarrow> 'v \<Rightarrow> ('k \<times> 'v list) list \<Rightarrow> ('k \<times> 'v list) list" where
  "add_to_group k v [] = [(k, [v])]"
| "add_to_group k v ((k', vs) # gs) =
     (if k' = k then (k', vs @ [v]) # gs else (k', vs) # add_to_group k v gs)"

text \<open>The group key is the text \<open>service|severity\<close>; the labels are those of its first row.\<close>

definition stream_of :: "query_lib \<Rightarrow> db_row \<Rightarrow> string \<times> string" where
  "stream_of lib r = (show_cell lib (r ''service_name''), show_cell lib (r ''severity''))"

definition stream_key :: "query_lib \<Rightarrow> db_row \<Rightarrow> string" where
  "stream_key lib r = fst (stream_of lib r) @ ''|'' @ snd (stream_of lib r)"

definition stream_entry :: "query_lib \<Rightarrow> db_row \<Rightarrow> int \<times> string" where
  "stream_entry lib r =
     ((case timestampOf lib (r ''timestamp'') of Some t \<Rightarrow> t | None \<Rightarrow> zero_time), show_cell lib (r ''body''))"

fun labels_of :: "query_lib \<Rightarrow> db_row list \<Rightarrow> string \<Rightarrow> string \<times> string" where
  "labels_of lib [] k = ([], [])"
| "labels_of lib (r # rs) k = (if stream_key lib r = k then stream_of lib r else labels_of lib rs k)"

definition loki_streams ::
  "query_lib \<Rightarrow> db_row list \<Rightarrow> ((string \<times> string) \<times> (int \<times> string) list) list" where
  "loki_streams lib rows =
     map (\<lambda>(k, vs). (labels_of lib rows k, vs))
       (fold (\<lambda>r. add_to_group (stream_key lib r) (stream_entry lib r)) rows [])"

definition runLoki ::
  "query_lib \<Rightarrow> database \<Rightarrow> int \<Rightarrow> http_query \<Rightarrow> lq_params \<Rightarrow> statement list \<times> shim_reply" where
  "runLoki lib db now r p =
     (case lq_Translate (ql_re_ok lib) (ql_scan_ok lib) now p of
        Inl _ \<Rightarrow> ([], ShimError 400)
      | Inr res \<Rightarrow>
          (let tenant = tenantOf r in
           if tenant = [] then ([], ShimError 401)
           else
             let (sql, args) = withTenant (lqr_sql res) tenant (lqr_args res)
             in ([(sql, args)],
                 case db sql args of
                   None \<Rightarrow> ShimError 500
                 | Some rows \<Rightarrow>
                     if lqr_is_logs res then Streams (loki_streams lib rows) else Matrix (matrix_values lib rows))))"

definition lokiInstantHandler ::
  "query_lib \<Rightarrow> database \<Rightarrow> int \<Rightarrow> http_query \<Rightarrow> statement list \<times> shim_reply" where
  "lokiInstantHandler lib db now r = runLoki lib db now r (lokiParams lib now r False)"

definition lokiRangeHandler ::
  "query_lib \<Rightarrow> database \<Rightarrow> int \<Rightarrow> http_query \<Rightarrow> statement list \<times> shim_reply" where
  "lokiRangeHandler lib db now r = runLoki lib db now r (lokiParams lib now r True)"

section \<open>The native query\<close>

text \<open>The lines of an NDJSON stream. \<open>stop i\<close>: at row \<open>i\<close> the context is done or the client is gone.\<close>

datatype ndjson = Header string "string list" int string | RowLine db_row | Trailer nat | ErrorLine

definition planColumns :: "(db_row \<Rightarrow> string list) \<Rightarrow> db_row list \<Rightarrow> string list" where
  "planColumns keys rows = (case rows of [] \<Rightarrow> [] | r # _ \<Rightarrow> keys r)"

fun execute_rows :: "(nat \<Rightarrow> bool) \<Rightarrow> nat \<Rightarrow> db_row list \<Rightarrow> ndjson list \<times> nat \<times> bool" where
  "execute_rows stop n [] = ([Trailer n], n, True)"
| "execute_rows stop n (r # rs) =
     (if stop n then ([], n, False)
      else case execute_rows stop (Suc n) rs of (ls, k, ok) \<Rightarrow> (RowLine r # ls, k, ok))"

text \<open>The rows written and whether there was no error; \<open>keys\<close> walks the keys of a map.\<close>

definition Execute ::
  "(db_row \<Rightarrow> string list) \<Rightarrow> database \<Rightarrow> bool \<Rightarrow> (nat \<Rightarrow> bool) \<Rightarrow> plan \<Rightarrow> ndjson list \<times> nat \<times> bool" where
  "Execute keys db header_ok stop pl =
     (case db (pl_sql pl) (pl_params pl) of
        None \<Rightarrow> ([], 0, False)
      | Some rows \<Rightarrow>
          if \<not> header_ok then ([], 0, False)
          else (case execute_rows stop 0 rows of (ls, k, ok) \<Rightarrow>
            (Header (pl_source pl) (planColumns keys rows) (pl_limit pl) (pl_estimate pl) # ls, k, ok)))"

definition oq_Parse :: "query_lib \<Rightarrow> string \<Rightarrow> oq_error option + oq_query" where
  "oq_Parse lib s =
     (case ql_parse lib s of
        None \<Rightarrow> Inl None
      | Some q \<Rightarrow> (case oq_normalise q of Inl e \<Rightarrow> Inl (Some e) | Inr q' \<Rightarrow> Inr q'))"

text \<open>The plan of a request for \<open>tenant\<close>, or the status of the rejection. The export handler does not
  check for an empty query (\<open>strict\<close>).\<close>

definition plan_request :: "query_lib \<Rightarrow> int \<Rightarrow> bool \<Rightarrow> string \<Rightarrow> queryReq option \<Rightarrow> nat + plan" where
  "plan_request lib now strict tenant body =
     (if tenant = [] then Inl 401
      else case body of
        None \<Rightarrow> Inl 400
      | Some q \<Rightarrow>
          if strict \<and> qr_Query q = [] then Inl 400
          else (case oq_Parse lib (qr_Query q) of
            Inl _ \<Rightarrow> Inl 400
          | Inr ast \<Rightarrow>
              (case PlanQuery (ql_parse_dur lib) (ql_show_dur lib) now ast
                      \<lparr>po_tenant = tenant, po_max_rows = qr_MaxRows q, po_default_since = 0\<rparr> of
                 Inl _ \<Rightarrow> Inl 400
               | Inr pl \<Rightarrow> Inr pl)))"

definition query_timeout :: "int \<Rightarrow> int \<Rightarrow> int \<Rightarrow> int" where
  "query_timeout dflt bound secs = (if 0 < secs \<and> secs < bound then secs * second else dflt)"

datatype query_reply = QueryError nat | Ndjson "ndjson list" | ArrowStream "db_row list" bool
  | Parquet string "db_row list"

definition has_text :: "string \<Rightarrow> string \<Rightarrow> bool" where
  "has_text s sub \<longleftrightarrow> list_ex (\<lambda>i. has_prefix (drop i s) sub) [0..<Suc (length s)]"

definition ArrowMediaType :: string where
  "ArrowMediaType = ''application/vnd.apache.arrow.stream''"

text \<open>With Arrow the rows of the database go to the columnar encoder; a failing query leaves the
  response empty.\<close>

definition queryHandler ::
  "query_lib \<Rightarrow> (db_row \<Rightarrow> string list) \<Rightarrow> database \<Rightarrow> bool \<Rightarrow> (nat \<Rightarrow> bool) \<Rightarrow> int \<Rightarrow> http_query \<Rightarrow>
   statement list \<times> query_reply" where
  "queryHandler lib keys db header_ok stop now r =
     (case plan_request lib now True (hq_tenant r) (hq_body r) of
        Inl status \<Rightarrow> ([], QueryError status)
      | Inr pl \<Rightarrow>
          ([(pl_sql pl, pl_params pl)],
           if has_text (hq_accept r) ArrowMediaType
           then (case db (pl_sql pl) (pl_params pl) of None \<Rightarrow> ArrowStream [] False | Some rows \<Rightarrow> ArrowStream rows True)
           else (case Execute keys db header_ok stop pl of
             (ls, _, True) \<Rightarrow> Ndjson ls | (ls, _, False) \<Rightarrow> Ndjson (ls @ [ErrorLine]))))"

definition exportHandler ::
  "query_lib \<Rightarrow> database \<Rightarrow> int \<Rightarrow> http_query \<Rightarrow> statement list \<times> query_reply" where
  "exportHandler lib db now r =
     (case plan_request lib now False (hq_tenant r) (hq_body r) of
        Inl status \<Rightarrow> ([], QueryError status)
      | Inr pl \<Rightarrow>
          ([(pl_sql pl, pl_params pl)],
           case db (pl_sql pl) (pl_params pl) of
             None \<Rightarrow> QueryError 500 | Some rows \<Rightarrow> Parquet (''observex-'' @ hq_tenant r @ ''.parquet'') rows))"

section \<open>The live tail of logs\<close>

datatype frame = LogFrame db_row | HeartbeatFrame int | ErrorFrame

text \<open>\<open>tl_writes\<close>: how many writes to the client will still succeed.\<close>

record log_tail =
  tl_tenant :: string
  tl_service :: string
  tl_severity :: string
  tl_cursor :: int
  tl_writes :: nat
  tl_frames :: "frame list"
  tl_over :: bool

definition logsTailBatchCap :: int where "logsTailBatchCap = 200"

definition tail_sql :: "string \<Rightarrow> string \<Rightarrow> string" where
  "tail_sql service severity =
     ''SELECT timestamp, severity, service_name, body, trace_id, span_id, attributes '' @
     ''FROM logs WHERE tenant_id = ? AND timestamp > ?'' @
     (if service \<noteq> [] then '' AND service_name = ?'' else []) @
     (if severity \<noteq> [] then '' AND severity = ?'' else []) @ '' ORDER BY timestamp ASC LIMIT ?''"

definition tail_args :: "string \<Rightarrow> int \<Rightarrow> string \<Rightarrow> string \<Rightarrow> sql_arg list" where
  "tail_args tenant cursor service severity =
     [AStr tenant, ATime cursor] @ (if service \<noteq> [] then [AStr service] else []) @
     (if severity \<noteq> [] then [AStr severity] else []) @ [AInt logsTailBatchCap]"

text \<open>The request, \<open>None\<close> for status 400.\<close>

definition tail_open :: "int \<Rightarrow> nat \<Rightarrow> http_query \<Rightarrow> log_tail option" where
  "tail_open now writes r =
     (if tenantOf r = [] then None
      else Some \<lparr>tl_tenant = tenantOf r, tl_service = query_of r ''service'', tl_severity = query_of r ''severity'',
                 tl_cursor = now - 5 * second, tl_writes = writes, tl_frames = [], tl_over = False\<rparr>)"

definition writeSSE :: "frame \<Rightarrow> log_tail \<Rightarrow> log_tail \<times> bool" where
  "writeSSE f t =
     (case tl_writes t of 0 \<Rightarrow> (t, False) | Suc n \<Rightarrow> (t\<lparr>tl_writes := n, tl_frames := tl_frames t @ [f]\<rparr>, True))"

definition advance :: "query_lib \<Rightarrow> db_row \<Rightarrow> log_tail \<Rightarrow> log_tail" where
  "advance lib r t =
     (case timestampOf lib (r ''timestamp'') of
        Some ts \<Rightarrow> if tl_cursor t < ts then t\<lparr>tl_cursor := ts\<rparr> else t
      | None \<Rightarrow> t)"

text \<open>\<open>js\<close>: whether \<open>json.Marshal\<close> encodes the row.\<close>

fun tail_rows :: "query_lib \<Rightarrow> (db_row \<Rightarrow> bool) \<Rightarrow> db_row list \<Rightarrow> log_tail \<Rightarrow> log_tail" where
  "tail_rows lib js [] t = t"
| "tail_rows lib js (r # rs) t =
     (let t1 = advance lib r t in
      if \<not> js r then tail_rows lib js rs t1
      else case writeSSE (LogFrame r) t1 of
        (t2, True) \<Rightarrow> tail_rows lib js rs t2
      | (t2, False) \<Rightarrow> t2\<lparr>tl_over := True\<rparr>)"

definition tail_tick :: "query_lib \<Rightarrow> (db_row \<Rightarrow> bool) \<Rightarrow> database \<Rightarrow> log_tail \<Rightarrow> log_tail" where
  "tail_tick lib js db t =
     (if tl_over t then t
      else case db (tail_sql (tl_service t) (tl_severity t))
                   (tail_args (tl_tenant t) (tl_cursor t) (tl_service t) (tl_severity t)) of
        None \<Rightarrow> (fst (writeSSE ErrorFrame t))\<lparr>tl_over := True\<rparr>
      | Some rows \<Rightarrow> tail_rows lib js rows t)"

definition tail_heartbeat :: "int \<Rightarrow> log_tail \<Rightarrow> log_tail" where
  "tail_heartbeat now t =
     (if tl_over t then t
      else case writeSSE (HeartbeatFrame now) t of (t', True) \<Rightarrow> t' | (t', False) \<Rightarrow> t'\<lparr>tl_over := True\<rparr>)"

section \<open>Routes\<close>

datatype read_route = RouteQuery | RouteExport | RouteTail | PromInstant | PromRange | LokiInstant | LokiRange

datatype read_reply = Refused nat | ReplyQuery query_reply | ReplyShim shim_reply | ReplyTail log_tail

text \<open>A route behind authentication and the check of the query scope. Opening a tail executes nothing;
  its ticks do.\<close>

definition read_route ::
  "query_lib \<Rightarrow> (db_row \<Rightarrow> string list) \<Rightarrow> database \<Rightarrow> bool \<Rightarrow> (nat \<Rightarrow> bool) \<Rightarrow> nat \<Rightarrow> int \<Rightarrow> read_route \<Rightarrow> http_query \<Rightarrow>
   statement list \<times> read_reply" where
  "read_route lib keys db header_ok stop writes now route r =
     (case route of
        RouteQuery \<Rightarrow> map_prod id ReplyQuery (queryHandler lib keys db header_ok stop now r)
      | RouteExport \<Rightarrow> map_prod id ReplyQuery (exportHandler lib db now r)
      | RouteTail \<Rightarrow> ([], case tail_open now writes r of None \<Rightarrow> Refused 400 | Some t \<Rightarrow> ReplyTail t)
      | PromInstant \<Rightarrow> map_prod id ReplyShim (promInstantHandler lib db now r)
      | PromRange \<Rightarrow> map_prod id ReplyShim (promRangeHandler lib db now r)
      | LokiInstant \<Rightarrow> map_prod id ReplyShim (lokiInstantHandler lib db now r)
      | LokiRange \<Rightarrow> map_prod id ReplyShim (lokiRangeHandler lib db now r))"

definition buildRouter ::
  "query_lib \<Rightarrow> (db_row \<Rightarrow> string list) \<Rightarrow> database \<Rightarrow> bool \<Rightarrow> (nat \<Rightarrow> bool) \<Rightarrow> nat \<Rightarrow> (string \<Rightarrow> store_answer) \<Rightarrow> int \<Rightarrow>
   read_route \<Rightarrow> string \<Rightarrow> http_query \<Rightarrow> statement list \<times> read_reply" where
  "buildRouter lib keys db header_ok stop writes validate now route authorization r =
     (case AuthMiddleware validate
             \<lparr>rq_authorization = authorization, rq_tenant_header = hq_tenant r, rq_scopes = None\<rparr> of
        Rejected status _ \<Rightarrow> ([], Refused status)
      | Forwarded rq \<Rightarrow>
          (case fst (GinRequireScope [ScopeQuery] rq) of
             Rejected status _ \<Rightarrow> ([], Refused status)
           | Forwarded rq' \<Rightarrow>
               read_route lib keys db header_ok stop writes now route (r\<lparr>hq_tenant := rq_tenant_header rq'\<rparr>)))"

end
