(* ===== verification/QueryProps.thy ===== *)
theory QueryProps
  imports QueryEngine PromProps LogQLProps ObserveQLProps AuthProps "HOL-Library.Multiset"
begin

text \<open>
  Properties of the read path: which tenant a statement is bound to, what the shims make of it, the
  framing of a result stream, and what the live tail delivers.
\<close>

section \<open>The columns a translated statement returns\<close>

definition select_item :: "string \<times> string \<Rightarrow> string" where
  "select_item c = (if fst c = [] then snd c else fst c @ '' AS '' @ snd c)"

definition selects :: "string \<Rightarrow> (string \<times> string) list \<Rightarrow> bool" where
  "selects sql cols \<longleftrightarrow>
     (\<exists>rest. sql = ''SELECT '' @ join '', '' (map select_item cols) @ '' FROM '' @ rest)"

definition shim_column :: "string \<Rightarrow> bool" where
  "shim_column c \<longleftrightarrow> c \<in> {''t'', ''v'', ''timestamp'', ''severity'', ''service_name'', ''body'', ''trace_id'',
     ''span_id'', ''attributes''} \<or> has_prefix c ''lbl_''"

lemma shim_column_simps [simp]: "shim_column ''t''" "shim_column ''v''" "shim_column (labelCol l)"
  "\<not> shim_column ''tenant_id''"
  by (simp_all add: shim_column_def labelCol_def has_prefix_def)

lemma lowerAggr_selects:
  assumes "lowerAggr re_ok fmtg op arg by_labels phi p = Inr r"
  shows "\<exists>cols. selects (pr_sql r) cols \<and> list_all shim_column (map snd cols)"
proof -
  obtain wheres aggExpr where a: "aggr_expr fmtg op phi = Inr aggExpr"
    and r: "pr_sql r = ''SELECT '' @ join '', '' ([bucket_expr (step_seconds p), aggExpr @ '' AS v''] @ map by_column by_labels)
      @ '' FROM metrics WHERE '' @ join '' AND '' wheres @ '' GROUP BY '' @ join '', '' (''t'' # map labelCol by_labels) @ '' ORDER BY t''"
    using assms by (fastforce simp: lowerAggr_def bindE_eq_Inr Let_def)
  note sql = r
  have agg: "aggExpr \<noteq> []" using a by (auto simp: aggr_expr_def split: if_splits option.splits)
  define cols where "cols = [(''toStartOfInterval(timestamp, INTERVAL '' @ show_int (step_seconds p) @ '' SECOND)'', ''t''),
     (aggExpr, ''v'')] @ map (\<lambda>l. (attr_col (sqlEscape l), labelCol l)) by_labels"
  have items: "map select_item cols = [bucket_expr (step_seconds p), aggExpr @ '' AS v''] @ map by_column by_labels"
    using agg by (simp add: cols_def select_item_def bucket_expr_def by_column_def attr_col_def)
  have "selects (pr_sql r) cols"
    unfolding selects_def sql items
    by (rule exI [of _ "''metrics WHERE '' @ join '' AND '' wheres @ '' GROUP BY '' @ join '', '' (''t'' # map labelCol by_labels) @ '' ORDER BY t''"]) simp
  moreover have "list_all shim_column (map snd cols)" by (simp add: cols_def list_all_iff)
  ultimately show ?thesis by blast
qed

lemma lowerRange_selects:
  assumes "lowerRange re_ok name vs p = Inr r"
  shows "\<exists>cols. selects (pr_sql r) cols \<and> list_all shim_column (map snd cols)"
proof -
  obtain wheres where sql: "pr_sql r = ''SELECT '' @ bucket_expr (step_seconds p) @ '', '' @ rate_expr name (step_seconds p)
      @ '' AS v FROM metrics WHERE '' @ join '' AND '' wheres @ '' GROUP BY t ORDER BY t''"
    using assms by (auto simp: lowerRange_def bindE_eq_Inr)
  let ?cols = "[(''toStartOfInterval(timestamp, INTERVAL '' @ show_int (step_seconds p) @ '' SECOND)'', ''t''),
     (rate_expr name (step_seconds p), ''v'')]"
  have "rate_expr name (step_seconds p) \<noteq> []" by (simp add: rate_expr_def)
  then have "selects (pr_sql r) ?cols"
    unfolding selects_def sql
    by (intro exI [of _ "''metrics WHERE '' @ join '' AND '' wheres @ '' GROUP BY t ORDER BY t''"])
      (simp add: select_item_def bucket_expr_def)
  then show ?thesis by (intro exI [of _ ?cols]) simp
qed

lemma lowerCall_selects:
  assumes "lowerCall re_ok fmtg name args p = Inr r"
  shows "\<exists>cols. selects (pr_sql r) cols \<and> list_all shim_column (map snd cols)"
  by (rule lowerCall_cases [OF assms]) (auto intro: lowerAggr_selects lowerRange_selects)

lemma wrapBin_selects:
  assumes "wrapBin fmtg op s sw inner = Inr r"
  shows "\<exists>cols. selects (pr_sql r) cols \<and> list_all shim_column (map snd cols)"
proof -
  have "(\<exists>e rest. e \<noteq> [] \<and> pr_sql r = ''SELECT t, '' @ e @ '' AS v FROM '' @ rest) \<or>
      (\<exists>rest. pr_sql r = ''SELECT t, v FROM '' @ rest)"
  proof (cases "is_arith_op op")
    case True
    let ?e = "if sw then ''('' @ fmtg s @ '' '' @ op @ '' v)'' else ''(v '' @ op @ '' '' @ fmtg s @ '')''"
    have "?e \<noteq> [] \<and> pr_sql r = ''SELECT t, '' @ ?e @ '' AS v FROM '' @ (''('' @ pr_sql inner @ '')'')"
      using assms True unfolding wrapBin_def Let_def if_P [OF True] by auto
    then show ?thesis by blast
  next
    case False
    then obtain c where "pr_sql r = ''SELECT t, v FROM '' @ ''('' @ pr_sql inner @ '') WHERE '' @ c"
      using assms unfolding wrapBin_def Let_def if_not_P [OF False] by (auto split: if_splits)
    then show ?thesis by blast
  qed
  then consider e rest where "e \<noteq> []" "pr_sql r = ''SELECT t, '' @ e @ '' AS v FROM '' @ rest"
    | rest where "pr_sql r = ''SELECT t, v FROM '' @ rest" by blast
  then show ?thesis
  proof cases
    case (1 e rest)
    then have "selects (pr_sql r) [([], ''t''), (e, ''v'')]" by (simp add: selects_def select_item_def)
    then show ?thesis by (intro exI [of _ "[([], ''t''), (e, ''v'')]"]) simp
  next
    case (2 rest)
    then have "selects (pr_sql r) [([], ''t''), ([], ''v'')]" by (simp add: selects_def select_item_def)
    then show ?thesis by (intro exI [of _ "[([], ''t''), ([], ''v'')]"]) simp
  qed
qed

lemma lower_selects:
  assumes "lower re_ok fmtg ast p = Inr r"
  shows "\<exists>cols. selects (pr_sql r) cols \<and> list_all shim_column (map snd cols)"
proof (cases ast)
  case (Bin op l rt)
  then show ?thesis using lower_Bin_cases [OF assms [unfolded Bin]] wrapBin_selects by metis
qed (use assms in \<open>auto intro: lowerAggr_selects lowerCall_selects\<close>)

lemma lq_selects:
  assumes "lq_Translate re_ok scan_ok now p = Inr r"
  shows "\<exists>cols. selects (lqr_sql r) cols \<and> list_all shim_column (map snd cols)"
proof -
  consider rest where "lqr_sql r = ''SELECT timestamp, severity, service_name, body, trace_id, span_id, attributes FROM '' @ rest"
    | step name rest where "lqr_sql r = ''SELECT toStartOfInterval(timestamp, INTERVAL '' @ show_int step
        @ '' SECOND) AS t, '' @ metric_expr name step @ '' AS v FROM '' @ rest"
    using assms
    by (auto simp: lq_Translate_def translateLogs_def translateMetric_def Let_def bindE_eq_Inr
        split: option.splits if_splits)
  then show ?thesis
  proof cases
    case (1 rest)
    let ?cols = "map (Pair []) [''timestamp'', ''severity'', ''service_name'', ''body'', ''trace_id'', ''span_id'', ''attributes'']"
    have "selects (lqr_sql r) ?cols" using 1 by (simp add: selects_def select_item_def)
    then show ?thesis by (intro exI [of _ ?cols]) (simp add: shim_column_def)
  next
    case (2 step name rest)
    let ?cols = "[(''toStartOfInterval(timestamp, INTERVAL '' @ show_int step @ '' SECOND)'', ''t''), (metric_expr name step, ''v'')]"
    have "metric_expr name step \<noteq> []" by (simp add: metric_expr_def)
    then have "selects (lqr_sql r) ?cols" using 2 by (simp add: selects_def select_item_def)
    then show ?thesis by (intro exI [of _ ?cols]) simp
  qed
qed

lemma runProm_executes:
  assumes "runProm lib db now r p m = ([(sql, args)], rep)"
  obtains res where "Translate (ql_re_ok lib) (ql_fmtg lib) now p = Inr res" "tenantOf r \<noteq> []"
    "sql = ''SELECT * FROM ('' @ pr_sql res @ '') WHERE tenant_id = ?''" "args = pr_args res @ [AStr (tenantOf r)]"
    "db sql args = None \<longrightarrow> rep = ShimError 500"
proof (cases "Translate (ql_re_ok lib) (ql_fmtg lib) now p")
  case (Inl e)
  then show ?thesis using assms by (simp add: runProm_def)
next
  case (Inr res)
  have t: "tenantOf r \<noteq> []" using assms Inr by (cases "tenantOf r = []") (simp_all add: runProm_def)
  obtain rep' where "runProm lib db now r p m =
      ([(''SELECT * FROM ('' @ pr_sql res @ '') WHERE tenant_id = ?'', pr_args res @ [AStr (tenantOf r)])], rep')"
      "db (''SELECT * FROM ('' @ pr_sql res @ '') WHERE tenant_id = ?'') (pr_args res @ [AStr (tenantOf r)]) = None \<longrightarrow>
         rep' = ShimError 500"
    using t Inr by (simp add: runProm_def withTenant_def Let_def)
  then show ?thesis using that [OF Inr t] assms by simp
qed

lemma runLoki_executes:
  assumes "runLoki lib db now r p = ([(sql, args)], rep)"
  obtains res where "lq_Translate (ql_re_ok lib) (ql_scan_ok lib) now p = Inr res" "tenantOf r \<noteq> []"
    "sql = ''SELECT * FROM ('' @ lqr_sql res @ '') WHERE tenant_id = ?''" "args = lqr_args res @ [AStr (tenantOf r)]"
    "db sql args = None \<longrightarrow> rep = ShimError 500"
proof (cases "lq_Translate (ql_re_ok lib) (ql_scan_ok lib) now p")
  case (Inl e)
  then show ?thesis using assms by (simp add: runLoki_def)
next
  case (Inr res)
  have t: "tenantOf r \<noteq> []" using assms Inr by (cases "tenantOf r = []") (simp_all add: runLoki_def)
  obtain rep' where "runLoki lib db now r p =
      ([(''SELECT * FROM ('' @ lqr_sql res @ '') WHERE tenant_id = ?'', lqr_args res @ [AStr (tenantOf r)])], rep')"
      "db (''SELECT * FROM ('' @ lqr_sql res @ '') WHERE tenant_id = ?'') (lqr_args res @ [AStr (tenantOf r)]) = None \<longrightarrow>
         rep' = ShimError 500"
    using t Inr by (simp add: runLoki_def withTenant_def Let_def)
  then show ?thesis using that [OF Inr t] assms by simp
qed

lemma no_tenant_column: "list_all shim_column (map snd cols) \<Longrightarrow> ''tenant_id'' \<notin> snd ` set cols"
  using shim_column_simps(4) by (auto simp only: list_all_iff set_map)

lemma Translate_selects:
  assumes "Translate re_ok fmtg now p = Inr r"
  shows "\<exists>cols. selects (pr_sql r) cols \<and> ''tenant_id'' \<notin> snd ` set cols"
proof -
  obtain ast where "lower re_ok fmtg ast (bounds_of now p) = Inr r"
    using assms by (auto simp: Translate_def bindE_eq_Inr split: if_splits)
  from lower_selects [OF this] show ?thesis using no_tenant_column by blast
qed

lemma lq_Translate_selects:
  assumes "lq_Translate re_ok scan_ok now p = Inr r"
  shows "\<exists>cols. selects (lqr_sql r) cols \<and> ''tenant_id'' \<notin> snd ` set cols"
  using lq_selects [OF assms] no_tenant_column by blast



section \<open>Which tenant a statement is bound to\<close>

text \<open>The placeholder of a \<open>tenant_id = ?\<close> in the statement is bound to the tenant.\<close>

definition bound_to :: "string \<Rightarrow> statement \<Rightarrow> bool" where
  "bound_to tenant st \<longleftrightarrow>
     (\<exists>pre post. fst st = pre @ ''tenant_id = ?'' @ post \<and> marks pre < length (snd st) \<and>
        snd st ! marks pre = AStr tenant)"

lemma guarded_bound:
  assumes "marks inner = length args"
  shows "bound_to tenant (''SELECT * FROM ('' @ inner @ '') WHERE tenant_id = ?'', args @ [AStr tenant])"
  unfolding bound_to_def
  by (rule exI [of _ "''SELECT * FROM ('' @ inner @ '') WHERE ''"], rule exI [of _ "[]"]) (simp add: assms)

lemma runProm_bound:
  assumes "\<And>v. marks (ql_fmtg lib v) = 0" "runProm lib db now r p m = (stmts, rep)"
  shows "list_all (bound_to (tenantOf r)) stmts"
proof (cases stmts)
  case (Cons st rest)
  have "rest = []" using assms(2) Cons by (auto simp: runProm_def Let_def split: sum.splits if_splits prod.splits)
  then obtain sql args where st: "stmts = [(sql, args)]" using Cons by (cases st) simp
  with assms(2) obtain res where res: "Translate (ql_re_ok lib) (ql_fmtg lib) now p = Inr res" "tenantOf r \<noteq> []"
      "sql = ''SELECT * FROM ('' @ pr_sql res @ '') WHERE tenant_id = ?''" "args = pr_args res @ [AStr (tenantOf r)]"
    using runProm_executes [of lib db now r p m sql args rep] by metis
  have "marks (pr_sql res) = length (pr_args res)"
    by (rule Translate_Inr [OF res(1)]) (rule lower_marks [OF assms(1)])
  then show ?thesis by (simp add: st res(3,4) guarded_bound del: append.simps append_assoc)
qed simp

lemma lq_Translate_marks: "lq_Translate re_ok scan_ok now p = Inr r \<Longrightarrow> marks (lqr_sql r) = length (lqr_args r)"
  using translateLogs_marks translateMetric_marks
  by (auto simp: lq_Translate_def Let_def split: if_splits option.splits)

lemma runLoki_bound:
  assumes "runLoki lib db now r p = (stmts, rep)"
  shows "list_all (bound_to (tenantOf r)) stmts"
proof (cases stmts)
  case (Cons st rest)
  have "rest = []" using assms Cons by (auto simp: runLoki_def Let_def split: sum.splits if_splits prod.splits)
  then obtain sql args where st: "stmts = [(sql, args)]" using Cons by (cases st) simp
  with assms obtain res where res: "lq_Translate (ql_re_ok lib) (ql_scan_ok lib) now p = Inr res" "tenantOf r \<noteq> []"
      "sql = ''SELECT * FROM ('' @ lqr_sql res @ '') WHERE tenant_id = ?''" "args = lqr_args res @ [AStr (tenantOf r)]"
    using runLoki_executes [of lib db now r p sql args rep] by metis
  then show ?thesis
    using lq_Translate_marks [OF res(1)] by (simp add: st res(3,4) guarded_bound del: append.simps append_assoc)
qed simp

lemma plan_bound:
  assumes "wf_query q" "PlanQuery pd sd now q opts = Inr pl"
  shows "bound_to (po_tenant opts) (pl_sql pl, pl_params pl)"
proof (rule PlanQuery_Inr [OF assms(2)])
  fix src sel selectParts whereParts params since timeCol groups tbl
  assume *: "select_parts (allowedColumns src) sel = Inr selectParts"
    "where_clause (allowedColumns src) (po_tenant opts) (oq_where q) = Inr (whereParts, params)"
    "identQuote src = Inr tbl"
    "pl_sql pl = ''SELECT '' @ join '', '' selectParts @ '' FROM '' @ tbl @ '' WHERE ''
        @ join '' AND '' (whereParts @ [timeCol @ '' >= ?''])
        @ (if groups \<noteq> [] then '' GROUP BY '' @ join '', '' groups else [])
        @ '' ORDER BY '' @ timeCol @ '' DESC LIMIT ?''"
    "pl_params pl = params @ [ATime (now - since), AInt (pl_limit pl)]"
  have w: "whereParts \<noteq> []" "hd whereParts = ''tenant_id = ?''" "params \<noteq> []" "hd params = AStr (po_tenant opts)"
    using where_clause_sound [OF assms(1) *(2)] by simp_all
  then obtain ws where ws: "whereParts = ''tenant_id = ?'' # ws" by (cases whereParts) auto
  obtain rest where j: "join '' AND '' (whereParts @ [timeCol @ '' >= ?'']) = ''tenant_id = ?'' @ rest"
    using join_Cons [of "ws @ [timeCol @ '' >= ?'']" "'' AND ''" "''tenant_id = ?''"] unfolding ws append_Cons by blast
  have "marks tbl = 0" using *(3) by (auto dest: identQuote_calm calm_marks)
  then have m: "marks (''SELECT '' @ join '', '' selectParts @ '' FROM '' @ tbl @ '' WHERE '') = 0"
    using select_parts_marks [OF *(1)] by simp
  show ?thesis
    unfolding bound_to_def
    by (rule exI [of _ "''SELECT '' @ join '', '' selectParts @ '' FROM '' @ tbl @ '' WHERE ''"], rule exI)
      (use m w(3,4) in \<open>simp add: *(4,5) j nth_append hd_conv_nth\<close>)
qed

lemma plan_request_bound:
  assumes "\<And>s q. ql_parse lib s = Some q \<Longrightarrow> wf_query q" "plan_request lib now strict tenant body = Inr pl"
  shows "bound_to tenant (pl_sql pl, pl_params pl)"
proof -
  obtain b where b: "body = Some b" "tenant \<noteq> []" "\<not> (strict \<and> qr_Query b = [])"
    using assms(2) by (cases body) (auto simp: plan_request_def split: if_splits)
  define s where "s = qr_Query b"
  define opts where "opts = \<lparr>po_tenant = tenant, po_max_rows = qr_MaxRows b, po_default_since = 0\<rparr>"
  obtain ast where p: "oq_Parse lib s = Inr ast"
    using assms(2) b by (cases "oq_Parse lib s") (auto simp: plan_request_def s_def)
  have pl: "po_tenant opts = tenant" "PlanQuery (ql_parse_dur lib) (ql_show_dur lib) now ast opts = Inr pl"
    using assms(2) b p by (auto simp: plan_request_def s_def opts_def split: sum.splits)
  obtain q where q: "ql_parse lib s = Some q" "oq_where ast = oq_where q"
    using p by (auto simp: oq_Parse_def oq_normalise_def Let_def split: option.splits if_splits sum.splits)
  have "wf_query ast" using assms(1) [OF q(1)] q(2) by (simp add: wf_query_def)
  from plan_bound [OF this pl(2)] pl(1) show ?thesis by simp
qed

lemma tail_bound: "bound_to tenant (tail_sql service severity, tail_args tenant cursor service severity)"
  unfolding bound_to_def
  by (rule exI [of _ "''SELECT timestamp, severity, service_name, body, trace_id, span_id, attributes FROM logs WHERE ''"])
    (simp add: tail_sql_def tail_args_def)


lemma map_prod_fst: "map_prod id f x = (a, b) \<Longrightarrow> \<exists>c. x = (a, c)"
  by (cases x) simp

lemma handlers_bound:
  assumes "\<And>v. marks (ql_fmtg lib v) = 0" "\<And>s q. ql_parse lib s = Some q \<Longrightarrow> wf_query q" "hq_tenant r = tenant" "tenant \<noteq> []"
    and "read_route lib keys db ho stop writes now route r = (stmts, rep)"
  shows "list_all (bound_to tenant) stmts"
proof -
  have t: "tenantOf r = tenant" using assms(3,4) by (simp add: tenantOf_def)
  note prom = runProm_bound [where lib = lib and db = db and now = now and r = r, OF assms(1), unfolded t]
  note loki = runLoki_bound [where lib = lib and db = db and now = now and r = r, unfolded t]
  note plan = plan_request_bound [where lib = lib and now = now and tenant = tenant, OF assms(2)]
  show ?thesis
  proof (cases route)
    case RouteQuery
    then show ?thesis
      using assms(3,5) plan by (auto simp: read_route_def queryHandler_def split: sum.splits)
  next
    case RouteExport
    then show ?thesis
      using assms(3,5) plan by (auto simp: read_route_def exportHandler_def split: sum.splits)
  next
    case PromInstant
    then show ?thesis
      using assms(5) prom by (auto simp: read_route_def promInstantHandler_def Let_def dest!: map_prod_fst)
  next
    case PromRange
    then show ?thesis
      using assms(5) prom by (auto simp: read_route_def promRangeHandler_def Let_def dest!: map_prod_fst)
  next
    case LokiInstant
    then show ?thesis using assms(5) loki by (auto simp: read_route_def lokiInstantHandler_def dest!: map_prod_fst)
  next
    case LokiRange
    then show ?thesis using assms(5) loki by (auto simp: read_route_def lokiRangeHandler_def dest!: map_prod_fst)
  qed (use assms(5) in \<open>simp add: read_route_def\<close>)
qed

lemma tail_opened:
  "read_route lib keys db ho stop writes now route r = (stmts, ReplyTail lt) \<Longrightarrow> tl_tenant lt = tenantOf r"
  by (cases route) (auto simp: read_route_def tail_open_def map_prod_def split: option.splits if_splits prod.splits)

lemma pg_tenant_nonempty:
  "snd (pg_validate b a st order up now key) = Some m \<Longrightarrow> md_tenant m \<noteq> []"
  by (auto simp: pg_validate_def splitWireKey_def pg_lookup_def Let_def split: option.splits list.splits if_splits prod.splits)

text \<open>
  C8. Tenant isolation of the read path. With the Postgres key store in any state, every statement a route
  executes for a request binds a placeholder of \<open>tenant_id = ?\<close> to the one tenant the request's key
  names, and that key carries the query scope; neither headers nor parameters of the request can choose
  another tenant. The same holds for every statement of a live tail it opens. (A formatted number has no
  question mark and the grammar of ObserveQL captures only its six comparison operators.)
\<close>

theorem read_route_tenant_bound:
  assumes "\<And>v. marks (ql_fmtg lib v) = 0" "\<And>s q. ql_parse lib s = Some q \<Longrightarrow> wf_query q"
    and "buildRouter lib keys db ho stop writes (\<lambda>key. Aware (snd (pg_validate b a st order up t key))) now route authz r = (stmts, rep)"
  shows "stmts = [] \<and> (\<exists>status. rep = Refused status) \<or>
    (\<exists>key md. authz = ''Bearer '' @ key \<and> names_tenant key (md_tenant md) \<and>
       snd (pg_validate b a st order up t key) = Some md \<and> HasScope (ScopesFromContext (Some (md_scopes md))) [ScopeQuery] \<and>
       list_all (bound_to (md_tenant md)) stmts \<and>
       (\<forall>lt cursor. rep = ReplyTail lt \<longrightarrow>
          bound_to (md_tenant md) (tail_sql (tl_service lt) (tl_severity lt),
            tail_args (tl_tenant lt) cursor (tl_service lt) (tl_severity lt))))"
proof -
  define rq where "rq = \<lparr>rq_authorization = authz, rq_tenant_header = hq_tenant r, rq_scopes = None\<rparr>"
  define validate where "validate = (\<lambda>key. Aware (snd (pg_validate b a st order up t key)))"
  note run = assms(3) [folded validate_def rq_def, unfolded buildRouter_def, folded rq_def]
  show ?thesis
  proof (cases "AuthMiddleware validate rq")
    case (Rejected status msg)
    then have "stmts = []" "rep = Refused status" using run by simp_all
    then show ?thesis by blast
  next
    case (Forwarded rq')
    define key where "key = drop (length ''Bearer '') authz"
    obtain md where md: "snd (pg_validate b a st order up t key) = Some md" "authz \<noteq> []" "has_prefix authz ''Bearer ''"
        "rq' = rq\<lparr>rq_tenant_header := md_tenant md, rq_scopes := Some (md_scopes md)\<rparr>"
      using Forwarded unfolding AuthMiddleware_def validate_def rq_def key_def Let_def
      by (auto split: if_splits option.splits)
    have key: "authz = ''Bearer '' @ key"
      using md(3) unfolding has_prefix_def key_def by (metis append_take_drop_id)
    show ?thesis
    proof (cases "HasScope (ScopesFromContext (Some (md_scopes md))) [ScopeQuery]")
      case False
      then have "stmts = []" "rep = Refused 403" using run Forwarded md(4) by (simp_all add: GinRequireScope_def)
      then show ?thesis by blast
    next
      case True
      define r' where "r' = r\<lparr>hq_tenant := md_tenant md\<rparr>"
      have rt: "read_route lib keys db ho stop writes now route r' = (stmts, rep)"
        using run Forwarded md(4) True by (simp add: GinRequireScope_def r'_def)
      have ne: "md_tenant md \<noteq> []" by (rule pg_tenant_nonempty [OF md(1)])
      have "list_all (bound_to (md_tenant md)) stmts"
        by (rule handlers_bound [OF assms(1,2) _ ne rt]) (simp_all add: r'_def)
      moreover have "tl_tenant lt = md_tenant md" if "rep = ReplyTail lt" for lt
        using tail_opened [of lib keys db ho stop writes now route r' stmts lt] rt that ne
        by (simp add: tenantOf_def r'_def)
      ultimately show ?thesis
        using key md(1) True pg_validate_tenant [OF md(1)] tail_bound by metis
    qed
  qed
qed

section \<open>The framing of a result stream\<close>

lemma execute_rows_out:
  assumes "execute_rows stop n rows = (ls, k, ok)"
  shows "\<exists>j \<le> length rows. k = n + j \<and> (ok \<longleftrightarrow> j = length rows) \<and> (\<forall>i < j. \<not> stop (n + i)) \<and>
    (j < length rows \<longrightarrow> stop (n + j)) \<and> ls = map RowLine (take j rows) @ (if ok then [Trailer k] else [])"
  using assms
proof (induction rows arbitrary: n ls)
  case (Cons r rows)
  show ?case
  proof (cases "stop n")
    case True
    then show ?thesis using Cons.prems by (intro exI [of _ 0]) auto
  next
    case False
    obtain ls' where ls': "execute_rows stop (Suc n) rows = (ls', k, ok)" "ls = RowLine r # ls'"
      using Cons.prems False by (auto split: prod.splits)
    obtain j where j: "j \<le> length rows" "k = Suc n + j" "ok \<longleftrightarrow> j = length rows" "\<forall>i < j. \<not> stop (Suc n + i)"
        "j < length rows \<longrightarrow> stop (Suc n + j)" "ls' = map RowLine (take j rows) @ (if ok then [Trailer k] else [])"
      using Cons.IH [OF ls'(1)] by blast
    have "\<forall>i < Suc j. \<not> stop (n + i)" using j(4) False by (auto simp: less_Suc_eq_0_disj)
    then show ?thesis using j ls'(2) by (intro exI [of _ "Suc j"]) auto
  qed
qed simp

text \<open>
  The framing of a query's stream. A plan that reaches the database is answered by a well-framed NDJSON
  stream: a header, the first rows of the answer in order up to the first one the context or the client
  stops at, then the trailer with their exact number when and only when every row was written, otherwise
  an error line; a failing database gives the error line alone. So a client can tell a complete result
  from a truncated one.
\<close>

theorem query_stream_framed:
  assumes "plan_request lib now True (hq_tenant r) (hq_body r) = Inr pl"
    and "\<not> has_text (hq_accept r) ArrowMediaType"
  shows "\<exists>lines. queryHandler lib keys db True stop now r = ([(pl_sql pl, pl_params pl)], Ndjson lines) \<and>
    (case db (pl_sql pl) (pl_params pl) of
       None \<Rightarrow> lines = [ErrorLine]
     | Some rows \<Rightarrow>
         (\<exists>k \<le> length rows. (\<forall>i < k. \<not> stop i) \<and> (k < length rows \<longrightarrow> stop k) \<and>
            lines = Header (pl_source pl) (planColumns keys rows) (pl_limit pl) (pl_estimate pl) #
              map RowLine (take k rows) @ [if k = length rows then Trailer k else ErrorLine]))"
proof (cases "db (pl_sql pl) (pl_params pl)")
  case None
  then show ?thesis using assms by (simp add: queryHandler_def Execute_def)
next
  case (Some rows)
  obtain ls k ok where e: "execute_rows stop 0 rows = (ls, k, ok)" by (metis surj_pair)
  from execute_rows_out [OF e] have k: "k \<le> length rows" "ok \<longleftrightarrow> k = length rows" "\<forall>i < k. \<not> stop i"
      "k < length rows \<longrightarrow> stop k" "ls = map RowLine (take k rows) @ (if ok then [Trailer k] else [])"
    by auto
  have "queryHandler lib keys db True stop now r = ([(pl_sql pl, pl_params pl)],
      Ndjson (Header (pl_source pl) (planColumns keys rows) (pl_limit pl) (pl_estimate pl) #
              map RowLine (take k rows) @ [if k = length rows then Trailer k else ErrorLine]))"
    using assms Some e k(2,5) by (cases ok) (simp_all add: queryHandler_def Execute_def)
  then show ?thesis using Some k(1,3,4) by auto
qed


section \<open>The live tail\<close>

text \<open>The table of logs and what it answers to the statement of a tail; \<open>bind\<close> is the instant the driver
  passes for a time argument.\<close>

record log_row =
  lo_tenant :: string
  lo_at :: int
  lo_service :: string
  lo_severity :: string
  lo_body :: string
  lo_trace :: string
  lo_span :: string
  lo_attributes :: string

definition row_of :: "log_row \<Rightarrow> db_row" where
  "row_of l = [''timestamp'' \<mapsto> CellTime (lo_at l), ''severity'' \<mapsto> CellString (lo_severity l),
     ''service_name'' \<mapsto> CellString (lo_service l), ''body'' \<mapsto> CellString (lo_body l),
     ''trace_id'' \<mapsto> CellString (lo_trace l), ''span_id'' \<mapsto> CellString (lo_span l),
     ''attributes'' \<mapsto> CellOther (lo_attributes l)]"

definition wanted :: "log_tail \<Rightarrow> log_row \<Rightarrow> bool" where
  "wanted lt l \<longleftrightarrow> lo_tenant l = tl_tenant lt \<and> (tl_service lt = [] \<or> lo_service l = tl_service lt) \<and>
     (tl_severity lt = [] \<or> lo_severity l = tl_severity lt)"

definition page :: "(int \<Rightarrow> int) \<Rightarrow> log_row list \<Rightarrow> log_tail \<Rightarrow> log_row list" where
  "page bind tbl lt = take 200 (sort_key lo_at (filter (\<lambda>l. wanted lt l \<and> bind (tl_cursor lt) < lo_at l) tbl))"

definition serves :: "(int \<Rightarrow> int) \<Rightarrow> log_row list \<Rightarrow> database \<Rightarrow> bool" where
  "serves bind tbl db \<longleftrightarrow>
     (\<forall>lt. db (tail_sql (tl_service lt) (tl_severity lt))
            (tail_args (tl_tenant lt) (tl_cursor lt) (tl_service lt) (tl_severity lt)) = Some (map row_of (page bind tbl lt)))"

fun tail_run :: "query_lib \<Rightarrow> database list \<Rightarrow> log_tail \<Rightarrow> log_tail" where
  "tail_run lib [] lt = lt"
| "tail_run lib (db # dbs) lt = tail_run lib dbs (tail_tick lib (\<lambda>_. True) db lt)"

definition max_at :: "int \<Rightarrow> log_row list \<Rightarrow> int" where
  "max_at c ls = fold max (map lo_at ls) c"

lemma max_at_simps [simp]: "max_at c [] = c" "max_at c (l # ls) = max_at (max (lo_at l) c) ls"
  by (simp_all add: max_at_def)

lemma max_at_start: "c \<le> max_at c ls"
  by (induction ls arbitrary: c) (auto intro: order_trans [OF max.cobounded2])

lemma max_at_ge: "l \<in> set ls \<Longrightarrow> lo_at l \<le> max_at c ls"
proof (induction ls arbitrary: c)
  case (Cons k ls)
  show ?case
  proof (cases "l = k")
    case True
    then show ?thesis using max_at_start [of "max (lo_at k) c" ls] by simp
  qed (use Cons in simp)
qed simp

lemma max_at_in: "max_at c ls = c \<or> max_at c ls \<in> lo_at ` set ls"
proof (induction ls arbitrary: c)
  case (Cons k ls)
  from Cons.IH [of "max (lo_at k) c"] show ?case by (auto simp: max_def split: if_splits)
qed simp

lemma max_at_append: "max_at c (a @ b) = max_at (max_at c a) b"
  by (simp add: max_at_def)

text \<open>As long as the client takes its frames, a tick sends its page and moves the cursor to its end.\<close>

definition sends :: "log_row list \<Rightarrow> log_tail \<Rightarrow> log_tail" where
  "sends ls lt = lt\<lparr>tl_cursor := max_at (tl_cursor lt) ls, tl_writes := tl_writes lt - length ls,
     tl_frames := tl_frames lt @ map (LogFrame \<circ> row_of) ls\<rparr>"

lemma tail_rows_sends:
  "length ls \<le> tl_writes lt \<Longrightarrow> tail_rows lib (\<lambda>_. True) (map row_of ls) lt = sends ls lt"
proof (induction ls arbitrary: lt)
  case (Cons l ls)
  obtain n where n: "tl_writes lt = Suc n" using Cons.prems by (cases "tl_writes lt") auto
  have adv: "advance lib (row_of l) lt = lt\<lparr>tl_cursor := max (lo_at l) (tl_cursor lt)\<rparr>"
    by (simp add: advance_def row_of_def timestampOf_def)
  show ?case using Cons n by (simp add: adv writeSSE_def sends_def)
qed (simp add: sends_def)

lemma tail_tick_sends:
  assumes "serves bind tbl db" "\<not> tl_over lt" "length (page bind tbl lt) \<le> tl_writes lt"
  shows "tail_tick lib (\<lambda>_. True) db lt = sends (page bind tbl lt) lt"
  using assms tail_rows_sends [OF assms(3)] by (simp add: tail_tick_def serves_def)


lemma sends_simps [simp]:
  "tl_cursor (sends ls lt) = max_at (tl_cursor lt) ls" "tl_writes (sends ls lt) = tl_writes lt - length ls"
  "tl_over (sends ls lt) = tl_over lt" "wanted (sends ls lt) = wanted lt" "sends [] lt = lt"
  "sends b (sends a lt) = sends (a @ b) lt"
  by (auto simp: sends_def wanted_def max_at_append)

lemma page_in:
  "set (page bind tbl lt) \<subseteq> {l \<in> set tbl. wanted lt l \<and> bind (tl_cursor lt) < lo_at l}"
  "length (page bind tbl lt) \<le> 200" "sorted (map lo_at (page bind tbl lt))"
  using set_take_subset [of 200 "sort_key lo_at (filter (\<lambda>l. wanted lt l \<and> bind (tl_cursor lt) < lo_at l) tbl)"]
  by (auto simp: page_def sorted_wrt_take simp flip: take_map)

lemma page_mset: "mset (page bind tbl lt) \<subseteq># mset (filter (wanted lt) tbl)"
proof -
  define xs where "xs = sort_key lo_at (filter (\<lambda>l. wanted lt l \<and> bind (tl_cursor lt) < lo_at l) tbl)"
  have "mset (take 200 xs) \<subseteq># mset xs"
    using append_take_drop_id [of 200 xs] by (metis mset_append mset_subset_eq_add_left)
  also have "mset xs = filter_mset (\<lambda>l. bind (tl_cursor lt) < lo_at l) (mset (filter (wanted lt) tbl))"
    by (simp add: xs_def filter_filter_mset conj_commute)
  also have "\<dots> \<subseteq># mset (filter (wanted lt) tbl)" by (rule multiset_filter_subset)
  finally show ?thesis by (simp add: page_def xs_def)
qed

text \<open>
  The live tail never sends a row twice and never reaches back. Whatever the table holds at each tick
  (rows are inserted meanwhile), the tail sends one page per tick: each is a part of the rows of its tenant
  and filters in the table of that tick, in the order of their times, and every row of a page is later than
  every row of the pages before it and than the start of the tail.
\<close>

theorem tail_moves_forward:
  assumes "list_all2 (serves id) tbls dbs" "\<not> tl_over lt" "200 * length dbs \<le> tl_writes lt"
  shows "\<exists>pages. tail_run lib dbs lt = sends (concat pages) lt \<and>
    list_all2 (\<lambda>p tbl. mset p \<subseteq># mset (filter (wanted lt) tbl) \<and> sorted (map lo_at p)) pages tbls \<and>
    sorted_wrt (\<lambda>p q. \<forall>l \<in> set p. \<forall>k \<in> set q. lo_at l < lo_at k) pages \<and>
    (\<forall>l \<in> set (concat pages). tl_cursor lt < lo_at l)"
  using assms
proof (induction tbls dbs arbitrary: lt rule: list_all2_induct)
  case (Cons tbl tbls db dbs)
  define p where "p = page id tbl lt"
  have len: "length p \<le> tl_writes lt" "length p \<le> 200" using page_in(2) [of id tbl lt] Cons.prems(2) by (auto simp: p_def)
  have tick: "tail_tick lib (\<lambda>_. True) db lt = sends p lt"
    unfolding p_def by (rule tail_tick_sends [OF Cons.hyps(1) Cons.prems(1)]) (use len in \<open>simp add: p_def\<close>)
  have w: "200 * length dbs \<le> tl_writes (sends p lt)" using Cons.prems(2) len(2) by simp
  obtain pages where pages: "tail_run lib dbs (sends p lt) = sends (concat pages) (sends p lt)"
      "list_all2 (\<lambda>p tbl. mset p \<subseteq># mset (filter (wanted lt) tbl) \<and> sorted (map lo_at p)) pages tbls"
      "sorted_wrt (\<lambda>p q. \<forall>l \<in> set p. \<forall>k \<in> set q. lo_at l < lo_at k) pages"
      "\<forall>l \<in> set (concat pages). max_at (tl_cursor lt) p < lo_at l"
    using Cons.IH [of "sends p lt", OF _ w] Cons.prems(1) unfolding sends_simps(1,3,4) by blast
  have later: "lo_at l < lo_at k" if "l \<in> set p" "k \<in> set (concat pages)" for l k
    using max_at_ge [OF that(1), of "tl_cursor lt"] pages(4) that(2) by fastforce
  have "\<forall>l \<in> set (concat (p # pages)). tl_cursor lt < lo_at l"
    using page_in(1) [of id tbl lt] pages(4) max_at_start [of "tl_cursor lt" p] by (fastforce simp: p_def)
  moreover have "sorted_wrt (\<lambda>p q. \<forall>l \<in> set p. \<forall>k \<in> set q. lo_at l < lo_at k) (p # pages)"
    using pages(3) later by auto
  moreover have "tail_run lib (db # dbs) lt = sends (concat (p # pages)) lt" using tick pages(1) by simp
  ultimately show ?case
    using pages(2) page_mset [of id tbl lt] page_in(3) [of id tbl lt]
    by (intro exI [of _ "p # pages"] conjI) (simp_all add: p_def)
qed auto


lemma sort_filter_page:
  "page id tbl lt = take 200 (filter (\<lambda>l. tl_cursor lt < lo_at l) (sort_key lo_at (filter (wanted lt) tbl)))"
  by (simp add: page_def filter_sort conj_commute)

text \<open>In a strictly sorted list, what is later than the first \<open>k\<close> elements is the rest.\<close>

lemma later_drop:
  assumes "sorted_wrt (\<lambda>a b. lo_at a < lo_at b) xs" "\<forall>l \<in> set xs. c < lo_at l"
  shows "filter (\<lambda>l. max_at c (take k xs) < lo_at l) xs = drop k xs"
proof -
  define a where "a = take k xs"
  have xs: "xs = a @ drop k xs" by (simp add: a_def)
  have "\<forall>l \<in> set a. \<not> max_at c a < lo_at l" using max_at_ge by (metis not_less)
  then have "filter (\<lambda>l. max_at c a < lo_at l) a = []" by (simp add: filter_empty_conv)
  moreover have "max_at c a < lo_at l" if "l \<in> set (drop k xs)" for l
  proof -
    have "\<forall>x \<in> set a. lo_at x < lo_at l" using assms(1) that by (subst (asm) xs) (auto simp: sorted_wrt_append)
    moreover have "c < lo_at l" using assms(2) in_set_dropD [OF that] by blast
    ultimately show ?thesis using max_at_in [of c a] by auto
  qed
  ultimately show ?thesis
    unfolding a_def [symmetric] by (subst xs) (simp add: filter_id_conv)
qed

text \<open>The rows a tail still has to send.\<close>

definition remaining :: "log_row list \<Rightarrow> log_tail \<Rightarrow> log_row list" where
  "remaining tbl lt = filter (\<lambda>l. tl_cursor lt < lo_at l) (sort_key lo_at (filter (wanted lt) tbl))"

lemma remaining_step:
  assumes "distinct (map lo_at (filter (wanted lt) tbl))"
  shows "remaining tbl (sends (page id tbl lt) lt) = drop 200 (remaining tbl lt)"
proof -
  define S where "S = sort_key lo_at (filter (wanted lt) tbl)"
  have "sorted (map lo_at S)" "distinct (map lo_at S)" using assms by (simp_all add: S_def distinct_map)
  then have "sorted_wrt (<) (map lo_at S)" by (simp add: strict_sorted_iff)
  then have S: "sorted_wrt (\<lambda>a b. lo_at a < lo_at b) S" by (simp add: sorted_wrt_map)
  define R where "R = filter (\<lambda>l. tl_cursor lt < lo_at l) S"
  have R: "sorted_wrt (\<lambda>a b. lo_at a < lo_at b) R" "\<forall>l \<in> set R. tl_cursor lt < lo_at l"
    using S by (auto simp: R_def sorted_wrt_filter)
  have p: "page id tbl lt = take 200 R" by (simp add: sort_filter_page R_def S_def)
  have "remaining tbl (sends (page id tbl lt) lt) = filter (\<lambda>l. max_at (tl_cursor lt) (take 200 R) < lo_at l) S"
    by (simp add: remaining_def p S_def)
  also have "\<dots> = filter (\<lambda>l. max_at (tl_cursor lt) (take 200 R) < lo_at l) R"
    using max_at_start [of "tl_cursor lt" "take 200 R"] by (auto simp: R_def intro: filter_cong)
  also have "\<dots> = drop 200 R" by (rule later_drop [OF R])
  finally show ?thesis by (simp add: remaining_def R_def S_def)
qed


lemma sort_key_same: "\<forall>x \<in> set xs. f x = c \<Longrightarrow> sort_key f xs = xs"
  by (induction xs) (simp_all add: insort_is_Cons)

lemma tail_idle:
  assumes "serves bind tbl db" "\<not> tl_over lt" "page bind tbl lt = []"
  shows "tail_run lib (replicate n db) lt = lt"
  using tail_tick_sends [OF assms(1,2)] assms(3) by (induction n) simp_all

text \<open>
  A page boundary inside one instant loses rows. When more than 200 rows of the tenant share one time,
  a tail sends the first 200 of them and none of the others, at any number of ticks.
\<close>

theorem tail_loses_ties:
  assumes "serves id tbl db" "\<forall>l \<in> set (filter (wanted lt) tbl). lo_at l = ts" "tl_cursor lt < ts"
    "\<not> tl_over lt" "200 \<le> tl_writes lt"
  shows "tail_run lib (replicate (Suc n) db) lt = sends (take 200 (filter (wanted lt) tbl)) lt"
proof -
  define W where "W = filter (wanted lt) tbl"
  have "sort_key lo_at W = W" using assms(2) by (intro sort_key_same [of _ _ ts]) (simp add: W_def)
  moreover have "filter (\<lambda>l. tl_cursor lt < lo_at l) W = W" using assms(2,3) by (intro filter_True) (simp add: W_def)
  ultimately have p: "page id tbl lt = take 200 W" by (simp add: sort_filter_page W_def)
  have first: "tail_tick lib (\<lambda>_. True) db lt = sends (take 200 W) lt"
    using tail_tick_sends [OF assms(1,4)] assms(5) by (simp add: p)
  have gone: "page id tbl (sends (take 200 W) lt) = []"
  proof (cases W)
    case (Cons w W')
    then have "ts \<le> max_at (tl_cursor lt) (take 200 W)"
      using max_at_ge [of w "take 200 W"] assms(2) by (auto simp: W_def)
    then show ?thesis using assms(2) by (auto simp: page_def filter_empty_conv)
  qed (auto simp: page_def W_def filter_empty_conv)
  have "tail_run lib (replicate (Suc n) db) lt = tail_run lib (replicate n db) (sends (take 200 W) lt)"
    by (simp add: first)
  also have "\<dots> = sends (take 200 W) lt" by (rule tail_idle [OF assms(1) _ gone]) (simp add: assms(4))
  finally show ?thesis by (simp add: W_def)
qed

text \<open>
  The cursor needs the driver's full precision. If the driver passes a time argument to the second, a row
  whose time is not on a whole second is sent again at every tick for as long as it is the latest one.
\<close>

theorem tail_repeats_when_truncated:
  assumes "serves (\<lambda>t. t div second * second) [l] db" "wanted lt l" "tl_cursor lt < lo_at l" "lo_at l mod second \<noteq> 0"
    "\<not> tl_over lt" "n \<le> tl_writes lt"
  shows "tail_run lib (replicate n db) lt = sends (replicate n l) lt"
proof -
  have below: "c div second * second < lo_at l" if "c \<le> lo_at l" for c
  proof -
    have "c div second * second \<le> lo_at l div second * second"
      using that by (intro mult_right_mono zdiv_mono1) (simp_all add: second_def)
    moreover have "lo_at l div second * second < lo_at l"
      using assms(4) pos_mod_sign [of second "lo_at l"] div_mult_mod_eq [of "lo_at l" second]
      by (simp only: second_def)
    ultimately show ?thesis by linarith
  qed
  have "tail_run lib (replicate n db) lt = sends (replicate n l) lt" if "wanted lt l" "tl_cursor lt \<le> lo_at l"
      "\<not> tl_over lt" "n \<le> tl_writes lt" for lt
    using that
  proof (induction n arbitrary: lt)
    case (Suc n)
    have page: "page (\<lambda>t. t div second * second) [l] lt = [l]"
      using Suc.prems(1) below [OF Suc.prems(2)] by (simp add: page_def)
    have tick: "tail_tick lib (\<lambda>_. True) db lt = sends [l] lt"
      using tail_tick_sends [OF assms(1) Suc.prems(3)] Suc.prems(4) by (simp add: page)
    have "tail_run lib (replicate n db) (sends [l] lt) = sends (replicate n l) (sends [l] lt)"
      using Suc.prems by (intro Suc.IH) auto
    then show ?case using tick by simp
  qed simp
  then show ?thesis using assms(2,3,5,6) by simp
qed


section \<open>Concrete runs\<close>

definition demo_ql :: query_lib where
  "demo_ql = \<lparr>ql_re_ok = accept_all, ql_fmtg = fmt_zero, ql_scan_ok = accept_all, ql_parse_dur = no_dur, ql_show_dur = no_text,
     ql_parse_time = no_dur, ql_show_time = no_text, ql_parse = (\<lambda>_. Some sample_oq)\<rparr>"

definition demo_hq :: http_query where
  "demo_hq = \<lparr>hq_tenant = ''acme'', hq_query = [''query'' \<mapsto> ''up''], hq_form = Map.empty, hq_accept = [],
     hq_body = Some \<lparr>qr_Query = ''q'', qr_MaxRows = 0, qr_TimeoutSecs = 0\<rparr>\<rparr>"


lemma demo_planned: "\<exists>pl. plan_request demo_ql 0 True ''acme'' (hq_body demo_hq) = Inr pl"
proof -
  have "\<not> isl (plan_request demo_ql 0 True ''acme'' (hq_body demo_hq))" by code_simp
  then show ?thesis by (cases "plan_request demo_ql 0 True ''acme'' (hq_body demo_hq)") auto
qed

theorem read_route_tenant_bound_witness:
  "\<exists>st. fst (buildRouter demo_ql (\<lambda>_. []) (\<lambda>_ _. None) True (\<lambda>_. False) 0
      (\<lambda>key. Aware (snd (pg_validate id (=) (NewPostgresKeyStore [demo_row] demo_opts) [] True 3 key))) 0 RouteQuery
      ''Bearer acme:k1:s'' (demo_hq\<lparr>hq_tenant := ''evil''\<rparr>)) = [st] \<and> bound_to ''acme'' st"
proof -
  let ?run = "buildRouter demo_ql (\<lambda>_. []) (\<lambda>_ _. None) True (\<lambda>_. False) 0
      (\<lambda>key. Aware (snd (pg_validate id (=) (NewPostgresKeyStore [demo_row] demo_opts) [] True 3 key))) 0 RouteQuery
      ''Bearer acme:k1:s'' (demo_hq\<lparr>hq_tenant := ''evil''\<rparr>)"
  have v: "snd (pg_validate id (=) (NewPostgresKeyStore [demo_row] demo_opts) [] True 3 ''acme:k1:s'') =
      Some \<lparr>md_tenant = ''acme'', md_scopes = [''query'']\<rparr>"
    by code_simp
  have scope: "HasScope (ScopesFromContext (Some [''query''])) [ScopeQuery]" by code_simp
  obtain pl where pl: "plan_request demo_ql 0 True ''acme'' (hq_body demo_hq) = Inr pl" using demo_planned by blast
  have st: "fst ?run = [(pl_sql pl, pl_params pl)]"
    using v scope pl
    by (simp add: buildRouter_def AuthMiddleware_def has_prefix_def GinRequireScope_def read_route_def queryHandler_def)
  have "?run = ([(pl_sql pl, pl_params pl)], snd ?run)" using st by (metis prod.collapse)
  from read_route_tenant_bound [OF _ _ this] have "bound_to ''acme'' (pl_sql pl, pl_params pl)"
    using v by (auto simp: demo_ql_def fmt_zero_def sample_oq_wf)
  with st show ?thesis by blast
qed

theorem query_stream_framed_witness:
  "\<exists>h. snd (queryHandler demo_ql (\<lambda>_. []) (\<lambda>_ _. Some [Map.empty, Map.empty]) True (\<lambda>i. i = 1) 0 demo_hq) =
     Ndjson [h, RowLine Map.empty, ErrorLine]"
proof -
  obtain pl where pl: "plan_request demo_ql 0 True (hq_tenant demo_hq) (hq_body demo_hq) = Inr pl"
    using demo_planned by (auto simp: demo_hq_def)
  have a: "\<not> has_text (hq_accept demo_hq) ArrowMediaType" by code_simp
  let ?rows = "[Map.empty, Map.empty :: db_row]"
  obtain lines k where k: "queryHandler demo_ql (\<lambda>_. []) (\<lambda>_ _. Some ?rows) True (\<lambda>i. i = 1) 0 demo_hq =
        ([(pl_sql pl, pl_params pl)], Ndjson lines)"
      "k \<le> length ?rows" "\<forall>i < k. i \<noteq> 1" "k < length ?rows \<longrightarrow> k = 1"
      "lines = Header (pl_source pl) (planColumns (\<lambda>_. []) ?rows) (pl_limit pl) (pl_estimate pl) #
          map RowLine (take k ?rows) @ [if k = length ?rows then Trailer k else ErrorLine]"
    using query_stream_framed [OF pl a, where keys = "\<lambda>_. []" and db = "\<lambda>_ _. Some ?rows" and stop = "\<lambda>i. i = 1"] unfolding option.case by blast
  have "k = 1" using k(3) [THEN spec, of 1] k(2,4) by (cases "k = 2") auto
  then have "lines = [Header (pl_source pl) (planColumns (\<lambda>_. []) ?rows) (pl_limit pl) (pl_estimate pl), RowLine Map.empty, ErrorLine]"
    using k(5) by simp
  then show ?thesis using k(1) by (metis snd_conv)
qed

text \<open>A database that answers the statements of tails.\<close>

definition demo_table_db :: "(int \<Rightarrow> int) \<Rightarrow> log_row list \<Rightarrow> database" where
  "demo_table_db bind tbl sql args =
     (case args of
        AStr t # ATime c # rest \<Rightarrow>
          (let s = (if sql = tail_sql [] [] \<or> sql = tail_sql [] ''x'' then [] else (case rest of AStr s # _ \<Rightarrow> s | _ \<Rightarrow> []));
               v = (if sql = tail_sql [] [] \<or> sql = tail_sql ''x'' [] then []
                    else (case rev rest of _ # AStr v # _ \<Rightarrow> v | _ \<Rightarrow> []))
           in Some (map row_of (page bind tbl \<lparr>tl_tenant = t, tl_service = s, tl_severity = v, tl_cursor = c,
                tl_writes = 0, tl_frames = [], tl_over = False\<rparr>)))
      | _ \<Rightarrow> None)"

lemma demo_table_serves: "serves bind tbl (demo_table_db bind tbl)"
proof -
  have p: "page bind tbl \<lparr>tl_tenant = tl_tenant lt, tl_service = s, tl_severity = v,
      tl_cursor = tl_cursor lt, tl_writes = 0, tl_frames = [], tl_over = False\<rparr> = page bind tbl lt"
    if "s = tl_service lt" "v = tl_severity lt" for s v lt
    using that by (simp add: page_def wanted_def)
  show ?thesis
    unfolding serves_def
  proof
    fix lt
    show "demo_table_db bind tbl (tail_sql (tl_service lt) (tl_severity lt))
        (tail_args (tl_tenant lt) (tl_cursor lt) (tl_service lt) (tl_severity lt)) = Some (map row_of (page bind tbl lt))"
      by (cases "tl_service lt = []"; cases "tl_severity lt = []")
        (simp_all add: demo_table_db_def tail_args_def tail_sql_def Let_def p)
  qed
qed

definition demo_log :: "int \<Rightarrow> log_row" where
  "demo_log t = \<lparr>lo_tenant = ''acme'', lo_at = t, lo_service = ''web'', lo_severity = ''INFO'', lo_body = ''b'', lo_trace = [],
     lo_span = [], lo_attributes = []\<rparr>"

definition demo_tail :: log_tail where
  "demo_tail = \<lparr>tl_tenant = ''acme'', tl_service = [], tl_severity = ''INFO'', tl_cursor = 0, tl_writes = 1000, tl_frames = [], tl_over = False\<rparr>"

lemma demo_wanted [simp]: "wanted demo_tail (demo_log t)"
  by (simp add: wanted_def demo_tail_def demo_log_def)

theorem tail_moves_forward_witness:
  "\<exists>pages. tail_run demo_ql [demo_table_db id [demo_log 7], demo_table_db id [demo_log 3, demo_log 7, demo_log 9]] demo_tail =
     sends (concat pages) demo_tail \<and> length pages = 2"
proof -
  have "list_all2 (serves id) [[demo_log 7], [demo_log 3, demo_log 7, demo_log 9]]
      [demo_table_db id [demo_log 7], demo_table_db id [demo_log 3, demo_log 7, demo_log 9]]"
    using demo_table_serves by simp
  note go = this
  have "\<not> tl_over demo_tail" "200 * length [demo_table_db id [demo_log 7], demo_table_db id [demo_log 3, demo_log 7, demo_log 9]] \<le> tl_writes demo_tail"
    by (simp_all add: demo_tail_def)
  from tail_moves_forward [OF go this] obtain pages where
    "tail_run demo_ql [demo_table_db id [demo_log 7], demo_table_db id [demo_log 3, demo_log 7, demo_log 9]] demo_tail =
       sends (concat pages) demo_tail"
    "list_all2 (\<lambda>p tbl. mset p \<subseteq># mset (filter (wanted demo_tail) tbl) \<and> sorted (map lo_at p)) pages
       [[demo_log 7], [demo_log 3, demo_log 7, demo_log 9]]"
    by blast
  then show ?thesis using list_all2_lengthD by fastforce
qed


theorem tail_loses_ties_witness:
  "tail_run demo_ql (replicate (Suc 9) (demo_table_db id (replicate 201 (demo_log 7)))) demo_tail =
     sends (replicate 200 (demo_log 7)) demo_tail"
proof -
  have "filter (wanted demo_tail) (replicate 201 (demo_log 7)) = replicate 201 (demo_log 7)" by (simp add: filter_replicate)
  moreover have "take 200 (replicate 201 (demo_log 7)) = replicate 200 (demo_log 7)" by (simp add: take_replicate)
  ultimately show ?thesis
    using tail_loses_ties [OF demo_table_serves, of demo_tail "replicate 201 (demo_log 7)" 7 demo_ql 9]
    by (simp add: demo_log_def demo_tail_def del: replicate_Suc)
qed

theorem tail_repeats_when_truncated_witness:
  "tail_run demo_ql (replicate 3 (demo_table_db (\<lambda>t. t div second * second) [demo_log 7])) demo_tail =
     sends (replicate 3 (demo_log 7)) demo_tail"
  by (rule tail_repeats_when_truncated [OF demo_table_serves])
    (simp_all add: demo_log_def demo_tail_def wanted_def second_def)

end
