(* ===== verification/Ingest.thy ===== *)
theory Ingest
  imports Engine Otlp Auth ObserveQL
begin

text \<open>
  The front ends of the ingest gateway (\<open>services/ingest-gateway\<close>): the OTLP handlers over HTTP and
  gRPC, the JSON endpoint, the older gRPC service, the interceptor and the router. A handler returns
  the engine, what the client gets and the signals the engine has accepted. Other goroutines run
  between two submissions of one request; what they do to the engine before the n-th is \<open>other n\<close>.
  The protobuf library is the parameter \<open>otlp_lib\<close>, the gzip reader the function \<open>gunzip\<close>.
\<close>

section \<open>Handing a batch to the engine\<close>

type_synonym interference = "nat \<Rightarrow> ProcessingEngine \<Rightarrow> ProcessingEngine"

datatype batch_end = AllAccepted | BatchOverloaded | BatchPanic

definition batch_end_of :: "submit \<Rightarrow> batch_end" where
  "batch_end_of r = (case r of Accepted \<Rightarrow> AllAccepted | Overloaded \<Rightarrow> BatchOverloaded | SendOnClosed \<Rightarrow> BatchPanic)"

text \<open>\<open>ingestAll\<close>: the first error ends the batch.\<close>

fun ingestAll ::
  "interference \<Rightarrow> nat \<Rightarrow> ProcessingEngine \<Rightarrow> signal list \<Rightarrow> ProcessingEngine \<times> signal list \<times> batch_end" where
  "ingestAll other n e [] = (e, [], AllAccepted)"
| "ingestAll other n e (sg # sgs) =
     (case ProcessSignal (other n e) sg of (e1, r) \<Rightarrow>
        if r = Accepted then (case ingestAll other (Suc n) e1 sgs of (e2, acc, b) \<Rightarrow> (e2, sg # acc, b))
        else (e1, [], batch_end_of r))"

section \<open>Reading a body\<close>

definition MaxRequestBytes :: nat where "MaxRequestBytes = 8388608"

datatype read_error = ReadFailed | BodyTooLarge

text \<open>\<open>raw\<close> is what the connection delivers and \<open>whole\<close> whether it ends without an error. The limit
  is on the bytes read from the connection; a gzip stream is expanded in full before its length is
  compared. \<open>gunzip\<close> is \<open>None\<close> for a stream that is not valid or not complete.\<close>

definition ReadBody ::
  "(byte list \<Rightarrow> byte list option) \<Rightarrow> byte list \<Rightarrow> bool \<Rightarrow> string \<Rightarrow> read_error + byte list" where
  "ReadBody gunzip raw whole encoding =
     (let limited = take (MaxRequestBytes + 1) raw;
          failed = (\<not> whole \<and> length raw \<le> MaxRequestBytes);
          data = (if failed then None else if encoding = ''gzip'' then gunzip limited else Some limited)
      in case data of
           None \<Rightarrow> Inl ReadFailed
         | Some d \<Rightarrow> if MaxRequestBytes < length d then Inl BodyTooLarge else Inr d)"

section \<open>OTLP over HTTP\<close>

record otlp_lib =
  ol_traces :: "byte list \<Rightarrow> span resource_group list option"
  ol_trace_group :: "byte list \<Rightarrow> span resource_group option"
  ol_metrics :: "byte list \<Rightarrow> otlp_metric resource_group list option"
  ol_metric_group :: "byte list \<Rightarrow> otlp_metric resource_group option"
  ol_logs :: "byte list \<Rightarrow> log_record resource_group list option"
  ol_log_group :: "byte list \<Rightarrow> log_record resource_group option"
  ol_put_traces :: "span resource_group list \<Rightarrow> byte list option"
  ol_put_metrics :: "otlp_metric resource_group list \<Rightarrow> byte list option"
  ol_put_logs :: "log_record resource_group list \<Rightarrow> byte list option"
  ol_gunzip :: "byte list \<Rightarrow> byte list option"

record http_post =
  hp_tenant :: string
  hp_ctype :: string
  hp_encoding :: string
  hp_raw :: "byte list"
  hp_complete :: bool

type_synonym outcome = "ProcessingEngine \<times> nat \<times> signal list"

text \<open>The body of the reply is empty in every successful case (the marshalled empty response), so a
  reply is its status. A panic is answered by gin's recovery with 500.\<close>

definition handle ::
  "interference \<Rightarrow> otlp_lib \<Rightarrow> (string \<Rightarrow> byte list \<Rightarrow> signal list option) \<Rightarrow> http_post \<Rightarrow> ProcessingEngine \<Rightarrow> outcome" where
  "handle other lib decode r e =
     (if hp_tenant r = [] then (e, 401, [])
      else if hp_ctype r \<noteq> ''application/x-protobuf'' \<and> hp_ctype r \<noteq> ''application/protobuf'' then (e, 415, [])
      else case ReadBody (ol_gunzip lib) (hp_raw r) (hp_complete r) (hp_encoding r) of
        Inl BodyTooLarge \<Rightarrow> (e, 413, [])
      | Inl ReadFailed \<Rightarrow> (e, 400, [])
      | Inr body \<Rightarrow>
          (case decode (hp_tenant r) body of
             None \<Rightarrow> (e, 400, [])
           | Some sigs \<Rightarrow>
               (case ingestAll other 0 e sigs of (e', acc, b) \<Rightarrow>
                  (e', case b of AllAccepted \<Rightarrow> 200 | BatchOverloaded \<Rightarrow> 429 | BatchPanic \<Rightarrow> 500, acc))))"

datatype otlp_kind = OtlpTraces | OtlpMetrics | OtlpLogs

definition otlp_decode :: "otlp_lib \<Rightarrow> int \<Rightarrow> otlp_kind \<Rightarrow> string \<Rightarrow> byte list \<Rightarrow> signal list option" where
  "otlp_decode lib now k tid body =
     (case k of
        OtlpTraces \<Rightarrow> DecodeTraces (ol_traces lib) (ol_trace_group lib) tid body now
      | OtlpMetrics \<Rightarrow> DecodeMetrics (ol_metrics lib) (ol_metric_group lib) tid body now
      | OtlpLogs \<Rightarrow> DecodeLogs (ol_logs lib) (ol_log_group lib) tid body now)"

definition HandleTraces :: "interference \<Rightarrow> otlp_lib \<Rightarrow> int \<Rightarrow> http_post \<Rightarrow> ProcessingEngine \<Rightarrow> outcome" where
  "HandleTraces other lib now = handle other lib (otlp_decode lib now OtlpTraces)"

definition HandleMetrics :: "interference \<Rightarrow> otlp_lib \<Rightarrow> int \<Rightarrow> http_post \<Rightarrow> ProcessingEngine \<Rightarrow> outcome" where
  "HandleMetrics other lib now = handle other lib (otlp_decode lib now OtlpMetrics)"

definition HandleLogs :: "interference \<Rightarrow> otlp_lib \<Rightarrow> int \<Rightarrow> http_post \<Rightarrow> ProcessingEngine \<Rightarrow> outcome" where
  "HandleLogs other lib now = handle other lib (otlp_decode lib now OtlpLogs)"

text \<open>The entry point kept for older callers. \<open>None\<close> is a nil engine.\<close>

datatype payload_error = NilEngine | MissingTenant | BadTraces | EngineOverloaded | EnginePanic

definition HandleTracePayload ::
  "interference \<Rightarrow> otlp_lib \<Rightarrow> int \<Rightarrow> ProcessingEngine option \<Rightarrow> string \<Rightarrow> byte list \<Rightarrow>
   ProcessingEngine option \<times> payload_error option" where
  "HandleTracePayload other lib now eng tid payload =
     (case eng of
        None \<Rightarrow> (None, Some NilEngine)
      | Some e \<Rightarrow>
          if tid = [] then (eng, Some MissingTenant)
          else case otlp_decode lib now OtlpTraces tid payload of
            None \<Rightarrow> (eng, Some BadTraces)
          | Some sigs \<Rightarrow>
              (case ingestAll other 0 e sigs of (e', _, b) \<Rightarrow>
                 (Some e', case b of AllAccepted \<Rightarrow> None | BatchOverloaded \<Rightarrow> Some EngineOverloaded
                           | BatchPanic \<Rightarrow> Some EnginePanic)))"

section \<open>The JSON endpoint\<close>

record ingest_req =
  iq_tenant :: string
  iq_type :: signal_type
  iq_payload :: "byte list"
  iq_attrs :: "string \<rightharpoonup> string"

text \<open>\<open>body\<close> is \<open>None\<close> when it does not bind to the request's structure.\<close>

definition ingestHandler ::
  "interference \<Rightarrow> int \<Rightarrow> string \<Rightarrow> ingest_req option \<Rightarrow> ProcessingEngine \<Rightarrow> outcome" where
  "ingestHandler other now tid body e =
     (case body of
        None \<Rightarrow> (e, 400, [])
      | Some q \<Rightarrow>
          if tid = [] then (e, 401, [])
          else if iq_tenant q \<noteq> [] \<and> iq_tenant q \<noteq> tid then (e, 400, [])
          else
            let sg = \<lparr>sig_tenant = tid, sig_type = iq_type q, sig_payload = iq_payload q,
                      sig_attrs = iq_attrs q, sig_received = now\<rparr>
            in case ProcessSignal (other 0 e) sg of
                 (e', Accepted) \<Rightarrow> (e', 202, [sg])
               | (e', Overloaded) \<Rightarrow> (e', 429, [])
               | (e', SendOnClosed) \<Rightarrow> (e', 500, []))"

section \<open>gRPC\<close>

datatype grpc_code = GrpcOK | Unauthenticated | PermissionDenied | InvalidArgument | ResourceExhausted
  | Internal | GrpcPanic

datatype grpc_request =
    ExportTraces "span resource_group list"
  | ExportMetrics "otlp_metric resource_group list"
  | ExportLogs "log_record resource_group list"

definition remarshal :: "otlp_lib \<Rightarrow> grpc_request \<Rightarrow> otlp_kind \<times> byte list option" where
  "remarshal lib rq =
     (case rq of
        ExportTraces gs \<Rightarrow> (OtlpTraces, ol_put_traces lib gs)
      | ExportMetrics gs \<Rightarrow> (OtlpMetrics, ol_put_metrics lib gs)
      | ExportLogs gs \<Rightarrow> (OtlpLogs, ol_put_logs lib gs))"

type_synonym grpc_outcome = "ProcessingEngine \<times> grpc_code \<times> signal list"

text \<open>\<open>Export\<close> of the three services; \<open>tid\<close> is the tenant in the context. There is no recovery on
  this server: a panic ends the process.\<close>

definition grpc_Export ::
  "interference \<Rightarrow> otlp_lib \<Rightarrow> int \<Rightarrow> string \<Rightarrow> grpc_request \<Rightarrow> ProcessingEngine \<Rightarrow> grpc_outcome" where
  "grpc_Export other lib now tid rq e =
     (if tid = [] then (e, Unauthenticated, [])
      else case remarshal lib rq of
        (_, None) \<Rightarrow> (e, Internal, [])
      | (k, Some body) \<Rightarrow>
          (case otlp_decode lib now k tid body of
             None \<Rightarrow> (e, InvalidArgument, [])
           | Some sigs \<Rightarrow>
               (case ingestAll other 0 e sigs of (e', acc, b) \<Rightarrow>
                  (e', case b of AllAccepted \<Rightarrow> GrpcOK | BatchOverloaded \<Rightarrow> ResourceExhausted
                       | BatchPanic \<Rightarrow> GrpcPanic, acc))))"

text \<open>What a key store says of a key, to the interceptors as to the middleware.\<close>

definition key_answer :: "store_answer \<Rightarrow> KeyMetadata option" where
  "key_answer a =
     (case a of
        Aware m \<Rightarrow> m
      | Plain (Some t) \<Rightarrow> Some \<lparr>md_tenant = t, md_scopes = DefaultScopes\<rparr>
      | Plain None \<Rightarrow> None)"

text \<open>The interceptor of the server: \<open>md\<close> are the values of the \<open>authorization\<close> metadata (\<open>None\<close>: no
  metadata). The tenant it hands on is in the context and in the metadata.\<close>

definition authInterceptor :: "(string \<Rightarrow> store_answer) \<Rightarrow> string list option \<Rightarrow> grpc_code + string" where
  "authInterceptor validate md =
     (case md of
        None \<Rightarrow> Inl Unauthenticated
      | Some [] \<Rightarrow> Inl Unauthenticated
      | Some (h # _) \<Rightarrow>
          if \<not> has_prefix h ''Bearer '' then Inl Unauthenticated
          else case key_answer (validate (drop (length ''Bearer '') h)) of
            None \<Rightarrow> Inl PermissionDenied
          | Some m \<Rightarrow> if HasScope (md_scopes m) [ScopeIngest] then Inr (md_tenant m) else Inl PermissionDenied)"

text \<open>The interceptor of the \<open>otlp\<close> package, which takes the first value that has the scheme.\<close>

fun bearerFromMetadata :: "string list \<Rightarrow> string" where
  "bearerFromMetadata [] = []"
| "bearerFromMetadata (v # vs) =
     (if has_prefix v ''Bearer '' then drop (length ''Bearer '') v else bearerFromMetadata vs)"

definition AuthInterceptor :: "(string \<Rightarrow> store_answer) \<Rightarrow> string list option \<Rightarrow> grpc_code + string" where
  "AuthInterceptor validate md =
     (case md of
        None \<Rightarrow> Inl Unauthenticated
      | Some vs \<Rightarrow>
          if bearerFromMetadata vs = [] then Inl Unauthenticated
          else case key_answer (validate (bearerFromMetadata vs)) of
            None \<Rightarrow> Inl PermissionDenied
          | Some m \<Rightarrow> if HasScope (md_scopes m) [ScopeIngest] then Inr (md_tenant m) else Inl PermissionDenied)"

section \<open>The older gRPC service\<close>

record ingest_signal =
  is_tenant :: string
  is_type :: string
  is_payload :: "byte list"
  is_attrs :: "string \<rightharpoonup> string"
  is_trace :: string
  is_span :: string

text \<open>\<open>strings.ToUpper\<close>, as far as the comparison with ASCII words can see it: the dotless i and the long
  s are the only characters outside ASCII whose upper case is in it.\<close>

definition ascii_upper :: "char \<Rightarrow> char" where
  "ascii_upper c = (if 97 \<le> (of_char c :: nat) \<and> (of_char c :: nat) \<le> 122 then char_of ((of_char c :: nat) - 32) else c)"

fun to_upper :: "string \<Rightarrow> string" where
  "to_upper [] = []"
| "to_upper (c # cs) =
     (if take 2 (codes (c # cs)) = [196, 177] then CHR ''I'' # to_upper (drop 1 cs)
      else if take 2 (codes (c # cs)) = [197, 191] then CHR ''S'' # to_upper (drop 1 cs)
      else ascii_upper c # to_upper cs)"

definition parseSignalType :: "string \<Rightarrow> signal_type" where
  "parseSignalType t =
     (let u = to_upper t
      in if u \<in> {''METRIC'', ''SIGNAL_TYPE_METRIC'', ''1''} then Metric
         else if u \<in> {''LOG'', ''SIGNAL_TYPE_LOG'', ''2''} then Log
         else if u \<in> {''TRACE'', ''SIGNAL_TYPE_TRACE'', ''3''} then Trace
         else if u \<in> {''PROFILE'', ''SIGNAL_TYPE_PROFILE'', ''4''} then Profile
         else Metric)"

definition legacy_signal :: "string \<Rightarrow> int \<Rightarrow> ingest_signal \<Rightarrow> signal" where
  "legacy_signal tid now s =
     \<lparr>sig_tenant = (if tid = [] then is_tenant s else tid), sig_type = parseSignalType (is_type s),
      sig_payload = is_payload s, sig_attrs = is_attrs s, sig_received = now\<rparr>"

text \<open>The loop of \<open>Export\<close>: a signal the engine refuses is skipped. \<open>None\<close> is the panic of a send on
  the closed channel.\<close>

fun legacy_loop ::
  "interference \<Rightarrow> (nat \<Rightarrow> int) \<Rightarrow> string \<Rightarrow> nat \<Rightarrow> ingest_signal list \<Rightarrow> ProcessingEngine \<Rightarrow>
   ProcessingEngine \<times> signal list \<times> bool" where
  "legacy_loop other clock tid n [] e = (e, [], True)"
| "legacy_loop other clock tid n (s # ss) e =
     (let sg = legacy_signal tid (clock n) s
      in case ProcessSignal (other n e) sg of
           (e1, Accepted) \<Rightarrow>
             (case legacy_loop other clock tid (Suc n) ss e1 of (e2, acc, ok) \<Rightarrow> (e2, sg # acc, ok))
         | (e1, Overloaded) \<Rightarrow> legacy_loop other clock tid (Suc n) ss e1
         | (e1, SendOnClosed) \<Rightarrow> (e1, [], False))"

record ingest_response =
  ires_success :: bool
  ires_accepted :: int

definition legacy_Export ::
  "interference \<Rightarrow> (nat \<Rightarrow> int) \<Rightarrow> string \<Rightarrow> ingest_signal list \<Rightarrow> ProcessingEngine \<Rightarrow>
   ProcessingEngine \<times> ingest_response option \<times> signal list" where
  "legacy_Export other clock tid ss e =
     (case legacy_loop other clock tid 0 ss e of (e', acc, ok) \<Rightarrow>
        (e', if ok then Some \<lparr>ires_success = True, ires_accepted = int (length acc)\<rparr> else None, acc))"

section \<open>The router and the server\<close>

datatype ingest_call =
    PostIngest "ingest_req option"
  | PostOtlp otlp_kind http_post
  | GrpcOtlp grpc_request
  | GrpcLegacy "ingest_signal list option"

datatype ingest_reply = HttpStatus nat | GrpcStatus grpc_code | GrpcResponse ingest_response

definition http_route ::
  "interference \<Rightarrow> otlp_lib \<Rightarrow> int \<Rightarrow> string \<Rightarrow> ingest_call \<Rightarrow> ProcessingEngine \<Rightarrow> outcome" where
  "http_route other lib now tid call e =
     (case call of
        PostIngest body \<Rightarrow> ingestHandler other now tid body e
      | PostOtlp OtlpTraces p \<Rightarrow> HandleTraces other lib now (p\<lparr>hp_tenant := tid\<rparr>) e
      | PostOtlp OtlpMetrics p \<Rightarrow> HandleMetrics other lib now (p\<lparr>hp_tenant := tid\<rparr>) e
      | PostOtlp OtlpLogs p \<Rightarrow> HandleLogs other lib now (p\<lparr>hp_tenant := tid\<rparr>) e
      | _ \<Rightarrow> (e, 404, []))"

text \<open>An HTTP request through the middleware, the check of the scope and its handler. \<open>auth\<close> and
  \<open>claimed\<close> are the \<open>Authorization\<close> and \<open>X-Tenant-ID\<close> headers the client sent.\<close>

definition gateway_router ::
  "(string \<Rightarrow> store_answer) \<Rightarrow> interference \<Rightarrow> otlp_lib \<Rightarrow> int \<Rightarrow> string \<Rightarrow> string \<Rightarrow> ingest_call \<Rightarrow> ProcessingEngine \<Rightarrow>
   outcome" where
  "gateway_router validate other lib now auth claimed call e =
     (case AuthMiddleware validate
             \<lparr>rq_authorization = auth, rq_tenant_header = claimed, rq_scopes = None\<rparr> of
        Rejected status _ \<Rightarrow> (e, status, [])
      | Forwarded rq \<Rightarrow>
          (case fst (GinRequireScope [ScopeIngest] rq) of
             Rejected status _ \<Rightarrow> (e, status, [])
           | Forwarded rq' \<Rightarrow> http_route other lib now (rq_tenant_header rq') call e))"

text \<open>A gRPC call. The older service decodes its message before the interceptor runs; \<open>None\<close> is a
  message that does not decode.\<close>

definition grpc_server ::
  "(string \<Rightarrow> store_answer) \<Rightarrow> interference \<Rightarrow> otlp_lib \<Rightarrow> (nat \<Rightarrow> int) \<Rightarrow> string list option \<Rightarrow> ingest_call \<Rightarrow>
   ProcessingEngine \<Rightarrow> ProcessingEngine \<times> ingest_reply \<times> signal list" where
  "grpc_server validate other lib clock md call e =
     (case call of
        GrpcLegacy None \<Rightarrow> (e, GrpcStatus Internal, [])
      | GrpcLegacy (Some ss) \<Rightarrow>
          (case authInterceptor validate md of
             Inl c \<Rightarrow> (e, GrpcStatus c, [])
           | Inr tid \<Rightarrow>
               (case legacy_Export other clock tid ss e of
                  (e', Some r, acc) \<Rightarrow> (e', GrpcResponse r, acc)
                | (e', None, acc) \<Rightarrow> (e', GrpcStatus GrpcPanic, acc)))
      | GrpcOtlp rq \<Rightarrow>
          (case authInterceptor validate md of
             Inl c \<Rightarrow> (e, GrpcStatus c, [])
           | Inr tid \<Rightarrow>
               (case grpc_Export other lib (clock 0) tid rq e of (e', c, acc) \<Rightarrow> (e', GrpcStatus c, acc)))
      | _ \<Rightarrow> (e, GrpcStatus Internal, []))"

definition gateway ::
  "(string \<Rightarrow> store_answer) \<Rightarrow> interference \<Rightarrow> otlp_lib \<Rightarrow> (nat \<Rightarrow> int) \<Rightarrow> string list \<Rightarrow> string \<Rightarrow> ingest_call \<Rightarrow>
   ProcessingEngine \<Rightarrow> ProcessingEngine \<times> ingest_reply \<times> signal list" where
  "gateway validate other lib clock auths claimed call e =
     (case call of
        GrpcOtlp _ \<Rightarrow> grpc_server validate other lib clock (Some auths) call e
      | GrpcLegacy _ \<Rightarrow> grpc_server validate other lib clock (Some auths) call e
      | _ \<Rightarrow> (case gateway_router validate other lib (clock 0) (case auths of [] \<Rightarrow> [] | h # _ \<Rightarrow> h) claimed call e of
                (e', st, acc) \<Rightarrow> (e', HttpStatus st, acc)))"

section \<open>The HTTP receiver that is not mounted\<close>

record receiver_body =
  rb_tenant :: string
  rb_type :: string
  rb_data :: "byte list"
  rb_attrs :: "string \<rightharpoonup> string"

definition signal_type_of :: "string \<Rightarrow> signal_type" where
  "signal_type_of t =
     (if t = ''METRIC'' then Metric else if t = ''LOG'' then Log else if t = ''TRACE'' then Trace
      else if t = ''PROFILE'' then Profile else OtherType t)"

text \<open>The channel holds \<open>cap\<close> signals; \<open>gone\<close> says that the request's context is done, and \<open>pick\<close> which
  of two ready cases the \<open>select\<close> takes.\<close>

definition ServeHTTP ::
  "nat \<Rightarrow> bool \<Rightarrow> bool \<Rightarrow> string \<Rightarrow> receiver_body option \<Rightarrow> signal list \<Rightarrow> signal list \<times> nat" where
  "ServeHTTP cap gone pick meth body ch =
     (if meth \<noteq> ''POST'' then (ch, 405)
      else case body of
        None \<Rightarrow> (ch, 400)
      | Some b \<Rightarrow>
          let sg = \<lparr>sig_tenant = rb_tenant b, sig_type = signal_type_of (rb_type b), sig_payload = rb_data b,
                    sig_attrs = rb_attrs b, sig_received = - 62135596800 * second\<rparr>
          in if length ch < cap \<and> (\<not> gone \<or> pick) then (ch @ [sg], 202)
             else if gone then (ch, 408) else (ch, 503))"

section \<open>Configuration\<close>

type_synonym env_vars = "string \<rightharpoonup> string"

definition getEnv :: "env_vars \<Rightarrow> string \<Rightarrow> string \<Rightarrow> string" where
  "getEnv env k fallback = (case env k of Some v \<Rightarrow> if v \<noteq> [] then v else fallback | None \<Rightarrow> fallback)"

definition envFloat :: "env_vars \<Rightarrow> string \<Rightarrow> f64 \<Rightarrow> f64" where
  "envFloat env k fallback =
     (case env k of
        Some v \<Rightarrow> if v \<noteq> [] then (case parse_float v of Some f \<Rightarrow> f | None \<Rightarrow> fallback) else fallback
      | None \<Rightarrow> fallback)"

definition envInt :: "env_vars \<Rightarrow> string \<Rightarrow> int \<Rightarrow> int" where
  "envInt env k fallback =
     (case env k of
        Some v \<Rightarrow> if v \<noteq> [] then (case atoi v of Some n \<Rightarrow> n | None \<Rightarrow> fallback) else fallback
      | None \<Rightarrow> fallback)"

definition gateway_options :: "env_vars \<Rightarrow> engine_options" where
  "gateway_options env =
     \<lparr>eo_wal_path = getEnv env ''OBSERVE_X_WAL_PATH'' ''/tmp/observex/wal'',
      eo_rate = envFloat env ''OBSERVE_X_SAMPLING_RATE'' (flit (1 / 10)),
      eo_max = envInt env ''OBSERVE_X_TRACE_QUEUE'' 1000, eo_buffer = 0, eo_workers = 0,
      eo_clickhouse = Some \<lparr>bo_addr = getEnv env ''OBSERVE_X_CLICKHOUSE_ADDR'' ''localhost:9000'',
        bo_database = getEnv env ''OBSERVE_X_CLICKHOUSE_DB'' ''observex'', bo_batch = 0, bo_flush = 0,
        bo_dial = 0, bo_conns = 0, bo_migrate = True\<rparr>,
      eo_spillover = False\<rparr>"

datatype key_store_choice = UsePostgres string | UseStateless string

definition initKeyStore :: "env_vars \<Rightarrow> (string \<Rightarrow> bool) \<Rightarrow> unit + key_store_choice" where
  "initKeyStore env connects =
     (let dsn = getEnv env ''OBSERVE_X_POSTGRES_URL'' []; secret = getEnv env ''OBSERVE_X_API_SECRET'' []
      in if dsn \<noteq> [] then (if connects dsn then Inr (UsePostgres dsn) else Inl ())
         else if secret = [] then Inl () else Inr (UseStateless secret))"

end
