(* ===== verification/IngestProps.thy ===== *)
theory IngestProps
  imports Ingest EngineProps Sloburn
begin

text \<open>
  Properties of the ingest front ends: whose tenant a signal is given, that the two OTLP transports
  agree, what becomes of a batch the engine cannot take in full, and the limits on a body.
\<close>

section \<open>Batches\<close>

lemma ingestAll_subset:
  assumes "ingestAll other n e sigs = (e', acc, b)"
  shows "set acc \<subseteq> set sigs"
  using assms
proof (induction sigs arbitrary: n e e' acc b)
  case (Cons sg sigs)
  obtain e1 r where p: "ProcessSignal (other n e) sg = (e1, r)" by fastforce
  show ?case
  proof (cases "r = Accepted")
    case True
    obtain e2 acc2 b2 where q: "ingestAll other (Suc n) e1 sigs = (e2, acc2, b2)" using prod_cases3 by blast
    have "acc = sg # acc2" using Cons.prems p q True by simp
    then show ?thesis using Cons.IH [OF q] by auto
  next
    case False
    then show ?thesis using Cons.prems p by simp
  qed
qed simp

lemma legacy_loop_subset:
  assumes "legacy_loop other clock tid n ss e = (e', acc, ok)"
  shows "\<forall>sg \<in> set acc. \<exists>s \<in> set ss. \<exists>now. sg = legacy_signal tid now s"
  using assms
proof (induction ss arbitrary: n e e' acc ok)
  case (Cons s ss)
  obtain e1 r where p: "ProcessSignal (other n e) (legacy_signal tid (clock n) s) = (e1, r)" by fastforce
  obtain e2 acc2 ok2 where q: "legacy_loop other clock tid (Suc n) ss e1 = (e2, acc2, ok2)" using prod_cases3 by blast
  note IH = Cons.IH [OF q]
  have "set acc \<subseteq> insert (legacy_signal tid (clock n) s) (set acc2)"
    using Cons.prems p q by (cases r) auto
  then show ?case using IH by (metis insertE list.set_intros subsetD)
qed simp

lemma flatten_all: "sg \<in> set (flatten f gs) \<Longrightarrow> \<exists>res scope x. sg \<in> set (f res scope x)"
  by (fastforce simp: flatten_def)

lemma metric_signals_tenant: "sg \<in> set (metric_signals tid now res scope mt) \<Longrightarrow> sig_tenant sg = tid"
  by (auto simp: metric_signals_def histogram_signal_def makeMetric_def Let_def split: metric_data.splits)

lemma otlp_decode_tenant:
  assumes "otlp_decode lib now k tid body = Some sigs" "sg \<in> set sigs"
  shows "sig_tenant sg = tid"
  using assms
  by (cases k) (auto simp: otlp_decode_def DecodeTraces_def DecodeMetrics_def DecodeLogs_def span_signal_def
      log_signal_def dest!: flatten_all intro: metric_signals_tenant)

lemma handle_accepts:
  assumes "handle other lib decode p e = (e', st, acc)" "sg \<in> set acc"
  shows "hp_tenant p \<noteq> [] \<and> (\<exists>body sigs. decode (hp_tenant p) body = Some sigs \<and> sg \<in> set sigs)"
  using assms ingestAll_subset
  by (fastforce simp: handle_def split: if_splits sum.splits read_error.splits option.splits prod.splits)

lemma ingestHandler_accepts:
  assumes "ingestHandler other now tid body e = (e', st, acc)" "sg \<in> set acc"
  shows "sig_tenant sg = tid"
  using assms by (auto simp: ingestHandler_def Let_def split: option.splits if_splits prod.splits submit.splits)

lemma http_route_accepts:
  assumes r: "http_route other lib now tid call e = (e', st, acc)" and sg: "sg \<in> set acc"
  shows "sig_tenant sg = tid"
proof (cases call)
  case (PostIngest body)
  then show ?thesis using r sg ingestHandler_accepts by (simp add: http_route_def)
next
  case (PostOtlp k p)
  then have "handle other lib (otlp_decode lib now k) (p\<lparr>hp_tenant := tid\<rparr>) e = (e', st, acc)"
    using r by (cases k) (simp_all add: http_route_def HandleTraces_def HandleMetrics_def HandleLogs_def)
  from handle_accepts [OF this sg] show ?thesis using otlp_decode_tenant by auto
qed (use r sg in \<open>simp_all add: http_route_def\<close>)

lemma grpc_Export_accepts:
  assumes "grpc_Export other lib now tid rq e = (e', c, acc)" "sg \<in> set acc"
  shows "sig_tenant sg = tid"
proof -
  obtain k body sigs b where "otlp_decode lib now k tid body = Some sigs" "ingestAll other 0 e sigs = (e', acc, b)"
    using assms by (auto simp: grpc_Export_def split: if_splits prod.splits option.splits)
  then show ?thesis using assms(2) ingestAll_subset otlp_decode_tenant by blast
qed

section \<open>Whose tenant\<close>

lemma bearer_drop: "drop (length ''Bearer '') = (drop 7 :: string \<Rightarrow> string)"
  by (simp add: eval_nat_numeral)

lemma AuthMiddleware_eq:
  "AuthMiddleware validate rq =
     (if \<not> has_prefix (rq_authorization rq) ''Bearer ''
      then Rejected 401 (if rq_authorization rq = [] then ''missing authorization header'' else ''invalid authorization scheme'')
      else case key_answer (validate (drop 7 (rq_authorization rq))) of
        None \<Rightarrow> Rejected 403 ''invalid api key''
      | Some m \<Rightarrow> Forwarded (rq\<lparr>rq_tenant_header := md_tenant m, rq_scopes := Some (md_scopes m)\<rparr>))"
  unfolding AuthMiddleware_def bearer_drop
  by (auto simp: key_answer_def has_prefix_def Let_def split: store_answer.split option.split)

lemma HasScope_ingest [simp]: "HasScope sc [ScopeIngest] \<longleftrightarrow> ScopeIngest \<in> set sc"
  by (simp add: HasScope_def)

lemma context_ingest [simp]: "ScopeIngest \<in> set (ScopesFromContext (Some sc)) \<longleftrightarrow> sc = [] \<or> ScopeIngest \<in> set sc"
  by (simp add: ScopesFromContext_def DefaultScopes_def)

lemma gateway_router_eq:
  "gateway_router validate other lib now auth claimed call e =
     (if \<not> has_prefix auth ''Bearer '' then (e, 401, [])
      else case key_answer (validate (drop 7 auth)) of
        None \<Rightarrow> (e, 403, [])
      | Some m \<Rightarrow> if md_scopes m = [] \<or> ScopeIngest \<in> set (md_scopes m)
                  then http_route other lib now (md_tenant m) call e else (e, 403, []))"
  by (auto simp: gateway_router_def AuthMiddleware_eq GinRequireScope_def split: option.split)

lemma authInterceptor_eq:
  "authInterceptor validate (Some (h # hs)) =
     (if \<not> has_prefix h ''Bearer '' then Inl Unauthenticated
      else case key_answer (validate (drop 7 h)) of
        None \<Rightarrow> Inl PermissionDenied
      | Some m \<Rightarrow> if ScopeIngest \<in> set (md_scopes m) then Inr (md_tenant m) else Inl PermissionDenied)"
  unfolding authInterceptor_def bearer_drop by (simp split: option.split)

lemma authInterceptor_Inr:
  assumes "authInterceptor validate (Some hs) = Inr tid"
  obtains h rest m where "hs = h # rest" "has_prefix h ''Bearer ''" "key_answer (validate (drop 7 h)) = Some m"
    "ScopeIngest \<in> set (md_scopes m)" "tid = md_tenant m"
proof (cases hs)
  case (Cons h rest)
  then show ?thesis using assms that by (auto simp: authInterceptor_eq split: if_splits option.splits)
qed (use assms in \<open>simp add: authInterceptor_def\<close>)

text \<open>Whether a call comes over gRPC, and whether it is one to the older service.\<close>

definition over_grpc :: "ingest_call \<Rightarrow> bool" where
  "over_grpc call = (case call of GrpcOtlp _ \<Rightarrow> True | GrpcLegacy _ \<Rightarrow> True | _ \<Rightarrow> False)"

definition legacy_call :: "ingest_call \<Rightarrow> bool" where
  "legacy_call call = (case call of GrpcLegacy _ \<Rightarrow> True | _ \<Rightarrow> False)"


section \<open>A batch the engine cannot take in full\<close>

definition room :: "ProcessingEngine \<Rightarrow> nat" where
  "room e = nat (eo_buffer (pe_opts e)) - length (pe_ingest e)"

abbreviation alone :: interference where "alone \<equiv> (\<lambda>_ e. e)"

lemma submit_room:
  assumes "\<not> pe_closed e"
  shows "room e = 0 \<Longrightarrow> ProcessSignal e sg =
      (count_drop Overload sg (e\<lparr>pe_received := wrap64 (pe_received e + 1), pe_dropped := wrap64 (pe_dropped e + 1)\<rparr>), Overloaded)"
    "0 < room e \<Longrightarrow> ProcessSignal e sg =
      (e\<lparr>pe_received := wrap64 (pe_received e + 1), pe_ingest := pe_ingest e @ [sg]\<rparr>, Accepted)"
  using assms by (simp_all add: ProcessSignal_def room_def Let_def)

lemma ingestAll_alone:
  assumes "\<not> pe_closed e" "ingestAll alone n e sigs = (e', acc, b)"
  shows "acc = take (room e) sigs \<and> pe_ingest e' = pe_ingest e @ take (room e) sigs \<and>
    b = (if length sigs \<le> room e then AllAccepted else BatchOverloaded) \<and>
    wrap64 (pe_received e') = wrap64 (pe_received e + int (min (length sigs) (room e + 1))) \<and>
    wrap64 (pe_dropped e') = wrap64 (pe_dropped e + (if length sigs \<le> room e then 0 else 1)) \<and>
    pe_closed e' = pe_closed e \<and> pe_opts e' = pe_opts e"
  using assms
proof (induction sigs arbitrary: n e e' acc b)
  case (Cons sg sigs)
  show ?case
  proof (cases "room e = 0")
    case True
    then show ?thesis using Cons.prems submit_room(1) [OF Cons.prems(1) True]
      by (auto simp: batch_end_of_def count_drop_def)
  next
    case False
    define e1 where "e1 = e\<lparr>pe_received := wrap64 (pe_received e + 1), pe_ingest := pe_ingest e @ [sg]\<rparr>"
    have p: "ProcessSignal e sg = (e1, Accepted)" using submit_room(2) [OF Cons.prems(1)] False by (simp add: e1_def)
    obtain e2 acc2 b2 where q: "ingestAll alone (Suc n) e1 sigs = (e2, acc2, b2)" using prod_cases3 by blast
    have r: "e' = e2" "acc = sg # acc2" "b = b2" using Cons.prems(2) p q by simp_all
    have c: "\<not> pe_closed e1" using Cons.prems(1) by (simp add: e1_def)
    have k: "room e = Suc (room e1)" using False by (simp add: room_def e1_def)
    have w: "wrap64 (wrap64 (pe_received e + 1) + x) = wrap64 (pe_received e + (1 + x))" for x
      by (simp add: wrap64_add_left add.assoc)
    have f: "pe_received e1 = wrap64 (pe_received e + 1)" "pe_ingest e1 = pe_ingest e @ [sg]"
      "pe_dropped e1 = pe_dropped e" "pe_closed e1 = pe_closed e" "pe_opts e1 = pe_opts e"
      by (simp_all add: e1_def)
    show ?thesis using Cons.IH [OF c q] by (simp add: r k f w)
  qed
qed simp

text \<open>
  C40. Admission of an OTLP batch, with nothing else running: with room for \<open>k\<close> signals in the ingest
  buffer exactly the first \<open>k\<close> of the batch are queued. If that is the whole batch the answer is 200.
  Otherwise it is 429, which asks the client to send the batch again, although its beginning has
  been accepted; only one of the signals left out is counted as received and dropped.
\<close>

theorem batch_admission:
  assumes "\<not> pe_closed e" "hp_tenant p \<noteq> []" "hp_ctype p = ''application/x-protobuf''"
    "ReadBody (ol_gunzip lib) (hp_raw p) (hp_complete p) (hp_encoding p) = Inr body"
    "otlp_decode lib now k (hp_tenant p) body = Some sigs"
  shows "\<exists>e' st. handle alone lib (otlp_decode lib now k) p e = (e', st, take (room e) sigs) \<and>
    pe_ingest e' = pe_ingest e @ take (room e) sigs \<and>
    st = (if length sigs \<le> room e then 200 else 429) \<and>
    wrap64 (pe_received e') = wrap64 (pe_received e + int (min (length sigs) (room e + 1))) \<and>
    wrap64 (pe_dropped e') = wrap64 (pe_dropped e + (if length sigs \<le> room e then 0 else 1))"
proof -
  obtain e' acc b where q: "ingestAll alone 0 e sigs = (e', acc, b)" using prod_cases3 by blast
  from ingestAll_alone [OF assms(1) q] show ?thesis
    using assms(2-5) q by (intro exI [of _ e']) (auto simp: handle_def)
qed

lemma full_room: "room e = 0 \<Longrightarrow> take (room e) xs = []" by simp

text \<open>
  Sending an overloaded batch again duplicates its beginning: if the buffer has been drained in
  between, the queue ends with the accepted beginning and then the whole batch.
\<close>

theorem retry_duplicates:
  assumes "\<not> pe_closed e" "room e < length sigs" "ingestAll alone 0 e sigs = (e1, acc, b)"
    "length sigs \<le> room (e1\<lparr>pe_ingest := []\<rparr>)" "ingestAll alone 0 (e1\<lparr>pe_ingest := []\<rparr>) sigs = (e2, acc2, b2)"
  shows "b = BatchOverloaded \<and> b2 = AllAccepted \<and> acc @ acc2 = take (room e) sigs @ sigs"
  using ingestAll_alone [OF assms(1,3)] ingestAll_alone [OF _ assms(5)] assms(1,2,4) by simp

section \<open>The older service\<close>

lemma legacy_loop_alone:
  assumes "\<not> pe_closed e" "legacy_loop alone clock tid n ss e = (e', acc, ok)"
  shows "ok \<and> length acc = min (length ss) (room e)"
  using assms
proof (induction ss arbitrary: n e e' acc ok)
  case (Cons s ss)
  define sg where "sg = legacy_signal tid (clock n) s"
  show ?case
  proof (cases "room e = 0")
    case True
    define e1 where "e1 = count_drop Overload sg (e\<lparr>pe_received := wrap64 (pe_received e + 1), pe_dropped := wrap64 (pe_dropped e + 1)\<rparr>)"
    have p: "ProcessSignal e sg = (e1, Overloaded)" using submit_room(1) [OF Cons.prems(1) True] by (simp add: e1_def)
    have "legacy_loop alone clock tid (Suc n) ss e1 = (e', acc, ok)" using Cons.prems(2) p by (simp add: sg_def)
    moreover have "\<not> pe_closed e1" "room e1 = 0" using Cons.prems(1) True by (simp_all add: e1_def count_drop_def room_def)
    ultimately show ?thesis using Cons.IH [of e1 "Suc n" e' acc ok] True by simp
  next
    case False
    define e1 where "e1 = e\<lparr>pe_received := wrap64 (pe_received e + 1), pe_ingest := pe_ingest e @ [sg]\<rparr>"
    have p: "ProcessSignal e sg = (e1, Accepted)" using submit_room(2) [OF Cons.prems(1)] False by (simp add: e1_def)
    obtain e2 acc2 ok2 where q: "legacy_loop alone clock tid (Suc n) ss e1 = (e2, acc2, ok2)" using prod_cases3 by blast
    have r: "acc = sg # acc2" "ok = ok2" using Cons.prems(2) p q by (simp_all add: sg_def)
    have c: "\<not> pe_closed e1" using Cons.prems(1) by (simp add: e1_def)
    have k: "room e = Suc (room e1)" using False by (simp add: room_def e1_def)
    show ?thesis using Cons.IH [OF c q] by (simp add: r k)
  qed
qed simp

text \<open>What the client wrote into the two identifiers of a signal does not matter.\<close>

lemma legacy_ids: "legacy_loop other clock tid n (map (\<lambda>s. s\<lparr>is_trace := f s, is_span := g s\<rparr>) ss) e =
  legacy_loop other clock tid n ss e"
  by (induction ss arbitrary: n e) (simp_all add: legacy_signal_def Let_def split: prod.split submit.split)

text \<open>
  The older gRPC service answers success whatever happens to the signals: on an engine that is
  not stopped the reply has \<open>Success\<close> set and counts the signals there was room for, none when the
  buffer is full. The trace and span identifiers the client sends have no effect at all.
\<close>

theorem legacy_always_success:
  assumes "\<not> pe_closed e"
  shows "\<exists>e' acc. legacy_Export alone clock tid ss e =
      (e', Some \<lparr>ires_success = True, ires_accepted = int (min (length ss) (room e))\<rparr>, acc) \<and>
    legacy_Export alone clock tid (map (\<lambda>s. s\<lparr>is_trace := f s, is_span := g s\<rparr>) ss) e =
      legacy_Export alone clock tid ss e"
proof -
  obtain e' acc ok where q: "legacy_loop alone clock tid 0 ss e = (e', acc, ok)" using prod_cases3 by blast
  from legacy_loop_alone [OF assms q] show ?thesis
    by (intro exI [of _ e'] exI [of _ acc]) (simp add: legacy_Export_def legacy_ids q)
qed

section \<open>The two OTLP transports\<close>

definition kind_of :: "grpc_request \<Rightarrow> otlp_kind" where
  "kind_of rq = (case rq of ExportTraces _ \<Rightarrow> OtlpTraces | ExportMetrics _ \<Rightarrow> OtlpMetrics | ExportLogs _ \<Rightarrow> OtlpLogs)"

text \<open>The bytes are an encoding of the message.\<close>

definition encodes :: "otlp_lib \<Rightarrow> grpc_request \<Rightarrow> byte list \<Rightarrow> bool" where
  "encodes lib rq bs =
     (case rq of ExportTraces gs \<Rightarrow> ol_traces lib bs = Some gs | ExportMetrics gs \<Rightarrow> ol_metrics lib bs = Some gs
      | ExportLogs gs \<Rightarrow> ol_logs lib bs = Some gs)"

text \<open>What the protobuf library documents: a message is marshalled to an encoding of it.\<close>

definition marshals :: "otlp_lib \<Rightarrow> grpc_request \<Rightarrow> bool" where
  "marshals lib rq = (\<exists>bs. snd (remarshal lib rq) = Some bs \<and> encodes lib rq bs)"

lemma encodes_decode:
  "encodes lib rq a \<Longrightarrow> encodes lib rq b \<Longrightarrow> otlp_decode lib now (kind_of rq) tid a = otlp_decode lib now (kind_of rq) tid b"
  by (cases rq) (auto simp: encodes_def kind_of_def otlp_decode_def DecodeTraces_def DecodeMetrics_def DecodeLogs_def
      parse_either_def)

fun status_of :: "grpc_code \<Rightarrow> nat" where
  "status_of GrpcOK = 200"
| "status_of Unauthenticated = 401"
| "status_of PermissionDenied = 403"
| "status_of InvalidArgument = 400"
| "status_of ResourceExhausted = 429"
| "status_of Internal = 500"
| "status_of GrpcPanic = 500"

definition otlp_post :: "byte list \<Rightarrow> http_post" where
  "otlp_post bs = \<lparr>hp_tenant = [], hp_ctype = ''application/x-protobuf'', hp_encoding = [], hp_raw = bs, hp_complete = True\<rparr>"

lemma read_plain: "length bs \<le> MaxRequestBytes \<Longrightarrow> ReadBody gz bs True [] = Inr bs"
  by (simp add: ReadBody_def Let_def)

lemma export_as_http:
  assumes "marshals lib rq" "encodes lib rq bs" "length bs \<le> MaxRequestBytes"
  shows "\<exists>e' c acc. grpc_Export other lib now tid rq e = (e', c, acc) \<and>
    http_route other lib now tid (PostOtlp (kind_of rq) (otlp_post bs)) e = (e', status_of c, acc)"
proof -
  obtain b where b: "remarshal lib rq = (kind_of rq, Some b)" "encodes lib rq b"
    using assms(1) by (cases rq) (auto simp: marshals_def remarshal_def kind_of_def)
  have h: "http_route other lib now tid (PostOtlp (kind_of rq) (otlp_post bs)) e =
      handle other lib (otlp_decode lib now (kind_of rq)) ((otlp_post bs)\<lparr>hp_tenant := tid\<rparr>) e"
    by (cases rq) (simp_all add: http_route_def kind_of_def HandleTraces_def HandleMetrics_def HandleLogs_def)
  note d = encodes_decode [OF assms(2) b(2), of now tid]
  show ?thesis
  proof (cases "tid = []")
    case True
    have "handle other lib f ((otlp_post bs)\<lparr>hp_tenant := tid\<rparr>) e = (e, 401, [])" for f
      by (simp add: handle_def True)
    then show ?thesis unfolding h by (simp add: grpc_Export_def True)
  next
    case False
    show ?thesis
    proof (cases "otlp_decode lib now (kind_of rq) tid b")
      case None
      then show ?thesis using False d unfolding h
        by (simp add: grpc_Export_def handle_def b(1) otlp_post_def read_plain [OF assms(3)])
    next
      case (Some sigs)
      obtain e' acc r where q: "ingestAll other 0 e sigs = (e', acc, r)" using prod_cases3 by blast
      show ?thesis using False d Some q unfolding h
        by (cases r) (simp_all add: grpc_Export_def handle_def b(1) otlp_post_def read_plain [OF assms(3)])
    qed
  qed
qed


text \<open>
  The transports do not agree on a key without scopes (which is what a row of the key table with
  an unknown scope yields): gRPC refuses it, HTTP lets it write, because the scopes read back from
  the request default to the ingest scope when there are none.
\<close>

theorem unscoped_key_writes:
  assumes "ParseScopes (kr_scopes r) = Inl unknown"
    "validate k = Aware (Some \<lparr>md_tenant = kr_tenant r, md_scopes = row_scopes r\<rparr>)"
  shows "gateway validate other lib clock [''Bearer '' @ k] claimed (GrpcOtlp rq) e = (e, GrpcStatus PermissionDenied, []) \<and>
    gateway validate other lib clock [''Bearer '' @ k] claimed (PostIngest body) e =
      (case ingestHandler other (clock 0) (kr_tenant r) body e of (e', st, acc) \<Rightarrow> (e', HttpStatus st, acc))"
proof
  have p: "has_prefix (''Bearer '' @ k) ''Bearer ''" "drop 7 (''Bearer '' @ k) = k"
    by (simp_all add: has_prefix_def eval_nat_numeral)
  have a: "key_answer (validate k) = Some \<lparr>md_tenant = kr_tenant r, md_scopes = []\<rparr>"
    using assms by (simp add: key_answer_def row_scopes_def)
  show "gateway validate other lib clock [''Bearer '' @ k] claimed (GrpcOtlp rq) e = (e, GrpcStatus PermissionDenied, [])"
    using p a unfolding gateway_def grpc_server_def authInterceptor_eq by simp
  show "gateway validate other lib clock [''Bearer '' @ k] claimed (PostIngest body) e =
      (case ingestHandler other (clock 0) (kr_tenant r) body e of (e', st, acc) \<Rightarrow> (e', HttpStatus st, acc))"
    using p a unfolding gateway_def gateway_router_eq by (simp add: http_route_def)
qed

section \<open>Concrete requests\<close>

definition demo_spans :: "nat \<Rightarrow> span resource_group list" where
  "demo_spans n = [\<lparr>rg_resource = None, rg_scopes = [([], replicate n
     \<lparr>sp_trace_id = [1], sp_span_id = [2], sp_parent = [], sp_name = ''GET'', sp_kind = ''SERVER'',
      sp_start = 0, sp_end = 0, sp_status = None, sp_attrs = []\<rparr>)]\<rparr>]"

text \<open>A library for one message: \<open>n\<close> spans, whatever the bytes.\<close>

definition demo_otlp :: "nat \<Rightarrow> otlp_lib" where
  "demo_otlp n = \<lparr>ol_traces = (\<lambda>_. Some (demo_spans n)), ol_trace_group = (\<lambda>_. None), ol_metrics = (\<lambda>_. None),
     ol_metric_group = (\<lambda>_. None), ol_logs = (\<lambda>_. None), ol_log_group = (\<lambda>_. None), ol_put_traces = (\<lambda>_. Some []),
     ol_put_metrics = (\<lambda>_. None), ol_put_logs = (\<lambda>_. None), ol_gunzip = Some\<rparr>"

definition demo_keys :: "string \<Rightarrow> store_answer" where
  "demo_keys k = Aware (if k = ''k1'' then Some \<lparr>md_tenant = ''acme'', md_scopes = [ScopeIngest]\<rparr> else None)"

lemma demo_key: "has_prefix ''Bearer k1'' ''Bearer ''"
  "key_answer (demo_keys (drop 7 ''Bearer k1'')) = Some \<lparr>md_tenant = ''acme'', md_scopes = [ScopeIngest]\<rparr>"
  by (simp_all add: has_prefix_def demo_keys_def key_answer_def eval_nat_numeral)

lemma demo_otlp_decode: "\<exists>sigs. length sigs = n \<and> otlp_decode (demo_otlp n) now OtlpTraces tid body = Some sigs"
  by (simp add: otlp_decode_def demo_otlp_def DecodeTraces_def parse_either_def flatten_def demo_spans_def length_concat
      comp_def map_replicate_const sum_list_replicate)

lemma demo_room: "\<exists>e. \<not> pe_closed e \<and> pe_ingest e = [] \<and> eo_buffer (pe_opts e) = 4 \<and> room e = 4"
proof (rule demo_new [where db = undefined])
  fix e :: ProcessingEngine
  assume "pe_ingest e = []" "pe_closed e = False" "eo_buffer (pe_opts e) = 4"
  then show ?thesis by (intro exI [of _ e]) (simp add: room_def)
qed


theorem batch_admission_witness:
  "\<exists>e p sigs e'. length sigs = 5 \<and> handle alone (demo_otlp 5) (otlp_decode (demo_otlp 5) 0 OtlpTraces) p e =
     (e', 429, take 4 sigs) \<and> pe_ingest e' = take 4 sigs"
proof -
  obtain e where e: "\<not> pe_closed e" "pe_ingest e = []" "room e = 4" using demo_room by blast
  obtain sigs where s: "length sigs = 5" "otlp_decode (demo_otlp 5) 0 OtlpTraces ''acme'' [] = Some sigs"
    using demo_otlp_decode by blast
  have r: "ReadBody (ol_gunzip (demo_otlp 5)) [] True [] = Inr []" by (simp add: read_plain)
  let ?p = "(otlp_post [])\<lparr>hp_tenant := ''acme''\<rparr>"
  obtain e' st where x: "handle alone (demo_otlp 5) (otlp_decode (demo_otlp 5) 0 OtlpTraces) ?p e = (e', st, take (room e) sigs)"
    "pe_ingest e' = pe_ingest e @ take (room e) sigs" "st = (if length sigs \<le> room e then 200 else 429)"
    using batch_admission [OF e(1), of ?p "demo_otlp 5" "[]" 0 OtlpTraces sigs] s r by (auto simp: otlp_post_def)
  have f: "st = 429" "pe_ingest e' = take 4 sigs" using x(2,3) e(2,3) s(1) by simp_all
  show ?thesis using x(1) [unfolded f(1) e(3)] f(2) s(1) by blast
qed

theorem retry_duplicates_witness:
  "\<exists>e e1 acc b e2 acc2 b2 sigs. length sigs = 4 \<and> ingestAll alone 0 e sigs = (e1, acc, b) \<and>
     ingestAll alone 0 (e1\<lparr>pe_ingest := []\<rparr>) sigs = (e2, acc2, b2) \<and> acc @ acc2 = take 3 sigs @ sigs"
proof -
  obtain e0 :: ProcessingEngine where e0: "\<not> pe_closed e0" "eo_buffer (pe_opts e0) = 4" using demo_room by blast
  obtain sigs where s: "length sigs = 4" "otlp_decode (demo_otlp 4) 0 OtlpTraces ''acme'' [] = Some sigs"
    using demo_otlp_decode by blast
  define e where "e = e0\<lparr>pe_ingest := [demo_signal []]\<rparr>"
  have e: "\<not> pe_closed e" "room e = 3" using e0 by (simp_all add: e_def room_def)
  have lt: "room e < length sigs" by (simp add: e(2) s(1))
  obtain e1 acc b where q: "ingestAll alone 0 e sigs = (e1, acc, b)" using prod_cases3 by blast
  have r: "length sigs \<le> room (e1\<lparr>pe_ingest := []\<rparr>)"
    using ingestAll_alone [OF e(1) q] e0(2) s(1) by (simp add: room_def e_def)
  obtain e2 acc2 b2 where q2: "ingestAll alone 0 (e1\<lparr>pe_ingest := []\<rparr>) sigs = (e2, acc2, b2)" using prod_cases3 by blast
  have "acc @ acc2 = take 3 sigs @ sigs" using retry_duplicates [OF e(1) lt q r q2] unfolding e(2) by blast
  then show ?thesis using q q2 s(1) by blast
qed

theorem legacy_always_success_witness:
  "\<exists>e e' acc. legacy_Export alone (\<lambda>_. 0) ''acme''
     (replicate 6 \<lparr>is_tenant = [], is_type = ''LOG'', is_payload = [], is_attrs = Map.empty, is_trace = [], is_span = []\<rparr>) e =
     (e', Some \<lparr>ires_success = True, ires_accepted = 4\<rparr>, acc)"
proof -
  obtain e where e: "\<not> pe_closed e" "room e = 4" using demo_room by blast
  have m: "int (min (length (replicate 6 x)) (room e)) = 4" for x :: ingest_signal by (simp add: e(2))
  show ?thesis
    using legacy_always_success [OF e(1), where ss = "replicate 6 \<lparr>is_tenant = [], is_type = ''LOG'',
        is_payload = [], is_attrs = Map.empty, is_trace = [], is_span = []\<rparr>" and clock = "\<lambda>_. 0" and tid = "''acme''"]
    unfolding m by blast
qed

lemma demo_keys_scoped: "key_answer (demo_keys t) = Some m \<Longrightarrow> md_scopes m \<noteq> []"
  by (auto simp: demo_keys_def key_answer_def split: if_splits)


theorem unscoped_key_writes_witness:
  "\<exists>e e' acc. gateway (\<lambda>k. Aware (Some \<lparr>md_tenant = ''acme'', md_scopes = []\<rparr>)) alone (demo_otlp 2) (\<lambda>_. 0) [''Bearer k1''] []
       (GrpcOtlp (ExportTraces (demo_spans 2))) e = (e, GrpcStatus PermissionDenied, []) \<and>
     gateway (\<lambda>k. Aware (Some \<lparr>md_tenant = ''acme'', md_scopes = []\<rparr>)) alone (demo_otlp 2) (\<lambda>_. 0) [''Bearer k1''] []
       (PostIngest (Some \<lparr>iq_tenant = [], iq_type = Metric, iq_payload = [], iq_attrs = Map.empty\<rparr>)) e = (e', HttpStatus 202, acc)"
proof -
  obtain e where e: "\<not> pe_closed e" "room e = 4" using demo_room by blast
  let ?r = "\<lparr>kr_kid = [], kr_tenant = ''acme'', kr_hash = [], kr_prefix = [], kr_scopes = [''write''], kr_created = 0,
    kr_expires = None, kr_revoked = None\<rparr>"
  have p: "ParseScopes (kr_scopes ?r) = Inl ''write''" by code_simp
  then have m: "row_scopes ?r = []" by (simp add: row_scopes_def)
  have p0: "0 < room e" using e(2) by simp
  note u = unscoped_key_writes [OF p, of "\<lambda>k. Aware (Some \<lparr>md_tenant = ''acme'', md_scopes = []\<rparr>)" "''k1''" alone "demo_otlp 2"
    "\<lambda>_. 0" "[]" "ExportTraces (demo_spans 2)" e "Some \<lparr>iq_tenant = [], iq_type = Metric, iq_payload = [], iq_attrs = Map.empty\<rparr>"]
  have "\<exists>e' acc. (case ingestHandler alone 0 ''acme'' (Some \<lparr>iq_tenant = [], iq_type = Metric, iq_payload = [],
      iq_attrs = Map.empty\<rparr>) e of (e', st, acc) \<Rightarrow> (e', HttpStatus st, acc)) = (e', HttpStatus 202, acc)"
    using submit_room(2) [OF e(1) p0] by (simp add: ingestHandler_def Let_def)
  then show ?thesis using u m by fastforce
qed

end
