(* ===== verification/AlertSink.thy ===== *)
theory AlertSink
  imports AlertManager Actor
begin

text \<open>
  The sink that carries the events of the actors to the alert manager (\<open>pkg/alertsink/sink.go\<close>):
  buffer, worker, retries and the translation of an event, and the far end as it receives the
  request. The far end is a function of its state and the request, which answers with a status or
  not at all. The order in which a map is ranged over is the input \<open>order\<close>.
\<close>

section \<open>Formatting\<close>

text \<open>\<open>%v\<close> of a float: format \<open>'g'\<close> with the shortest digits, in exponent form when the
  decimal exponent is below -4 or at least 6.\<close>

definition exponent_text :: "int \<Rightarrow> string" where
  "exponent_text x = ''e'' @ (if x < 0 then ''-'' else ''+'') @ pad_zeros 2 (show_nat (nat \<bar>x\<bar>))"

definition fmt_g :: "f64 \<Rightarrow> string" where
  "fmt_g a =
     (case a of
        Fin x \<Rightarrow>
          if x = 0 then ''0''
          else
            let (v, e) = shortest_from \<bar>x\<bar> (fdigits \<bar>x\<bar>) 18;
                ds = show_nat (nat v); ex = int (length ds) + e - 1
            in if ex < - 4 \<or> 6 \<le> ex
               then GoFmt.signed x (take 1 ds @ (if length ds = 1 then [] else CHR ''.'' # drop 1 ds) @ exponent_text ex)
               else fmt_shortest a
      | PInf \<Rightarrow> ''+Inf'' | NInf \<Rightarrow> ''-Inf'' | NaN \<Rightarrow> ''NaN'')"

definition show_value :: "event_value \<Rightarrow> string" where
  "show_value v = (case v of VStr s \<Rightarrow> s | VFloat x \<Rightarrow> fmt_g x)"

section \<open>The translation of an event\<close>

definition event_name :: "event_type \<Rightarrow> string" where
  "event_name t = (case t of HighErrorRate \<Rightarrow> ''HIGH_ERROR_RATE'' | HighLatency \<Rightarrow> ''HIGH_LATENCY'')"

record wire_event =
  we_rule :: string
  we_severity :: string
  we_title :: string
  we_description :: string
  we_labels :: labels
  we_annotations :: "(string \<times> event_value) list"
  we_occurred :: string

type_synonym range_order = "(string \<times> event_value) list \<Rightarrow> (string \<times> event_value) list"

definition describeEvent :: "range_order \<Rightarrow> event \<Rightarrow> string" where
  "describeEvent order ev = concat (map (\<lambda>(k, v). k @ ''='' @ show_value v @ '' '') (order (ev_data ev)))"

text \<open>\<open>ev.Data["service"].(string)\<close>, empty when there is none.\<close>

definition event_service :: "event \<Rightarrow> string" where
  "event_service ev = (case map_of (ev_data ev) ''service'' of Some (VStr s) \<Rightarrow> s | _ \<Rightarrow> [])"

definition eventToWire :: "range_order \<Rightarrow> event \<Rightarrow> wire_event" where
  "eventToWire order ev =
     \<lparr>we_rule = ''cep:'' @ event_name (ev_type ev),
      we_severity = (if ev_type ev = HighErrorRate then ''critical'' else ''warning''),
      we_title = event_name (ev_type ev) @ '' on '' @ event_service ev,
      we_description = describeEvent order ev,
      we_labels = (''event_type'', event_name (ev_type ev)) #
        (if event_service ev \<noteq> [] then [(''service'', event_service ev)] else []),
      we_annotations = ev_data ev, we_occurred = rfc3339nano (int (ev_time ev))\<rparr>"

text \<open>\<open>json.Marshal\<close> refuses the floats that are not finite.\<close>

definition marshals_json :: "wire_event \<Rightarrow> bool" where
  "marshals_json w = list_all (\<lambda>(k, v). case v of VStr _ \<Rightarrow> True | VFloat x \<Rightarrow> (case x of Fin _ \<Rightarrow> True | _ \<Rightarrow> False))
     (we_annotations w)"

section \<open>The sink\<close>

record sink_options =
  sk_endpoint :: string
  sk_apiKey :: string
  sk_tenantHeader :: string
  sk_buffer :: int
  sk_timeout :: int

definition sink_defaults :: "sink_options \<Rightarrow> sink_options" where
  "sink_defaults o1 =
     o1\<lparr>sk_buffer := (if sk_buffer o1 \<le> 0 then 4096 else sk_buffer o1),
        sk_timeout := (if sk_timeout o1 \<le> 0 then 3 * second else sk_timeout o1)\<rparr>"

record http_sink =
  hs_opts :: sink_options
  hs_buf :: "event list"
  hs_closed :: bool
  hs_done :: bool
  hs_published :: int
  hs_dropped :: int
  hs_failed :: int

definition NewHTTPSink :: "sink_options \<Rightarrow> http_sink" where
  "NewHTTPSink o1 =
     \<lparr>hs_opts = sink_defaults o1, hs_buf = [], hs_closed = False, hs_done = False, hs_published = 0,
      hs_dropped = 0, hs_failed = 0\<rparr>"

text \<open>\<open>None\<close> is the panic of a send on the channel that \<open>Stop\<close> has closed.\<close>

definition sink_Publish :: "event \<Rightarrow> http_sink \<Rightarrow> http_sink option" where
  "sink_Publish ev s =
     (if hs_closed s then None
      else if length (hs_buf s) < nat (sk_buffer (hs_opts s))
      then Some (s\<lparr>hs_buf := hs_buf s @ [ev], hs_published := wrap64 (hs_published s + 1)\<rparr>)
      else Some (s\<lparr>hs_dropped := wrap64 (hs_dropped s + 1)\<rparr>))"

text \<open>The closing part of \<open>Stop\<close>; it then waits until the worker is done.\<close>

definition sink_Stop :: "http_sink \<Rightarrow> http_sink" where
  "sink_Stop s = s\<lparr>hs_closed := True\<rparr>"

definition sink_Stats :: "http_sink \<Rightarrow> int \<times> int \<times> int" where
  "sink_Stats s = (hs_published s, hs_dropped s, hs_failed s)"

record sink_request =
  sq_url :: string
  sq_auth :: string
  sq_tenant :: string
  sq_body :: wire_event

definition sink_request_of :: "sink_options \<Rightarrow> range_order \<Rightarrow> event \<Rightarrow> sink_request" where
  "sink_request_of o1 order ev =
     \<lparr>sq_url = sk_endpoint o1,
      sq_auth = (if sk_apiKey o1 \<noteq> [] then ''Bearer '' @ sk_apiKey o1 else []),
      sq_tenant = (if sk_tenantHeader o1 \<noteq> [] then sk_tenantHeader o1 else ev_tenant ev),
      sq_body = eventToWire order ev\<rparr>"

type_synonym 'm peer = "sink_request \<Rightarrow> 'm \<Rightarrow> 'm \<times> nat option"

text \<open>\<open>send\<close>: whether it returned without an error.\<close>

definition sink_send :: "'m peer \<Rightarrow> sink_options \<Rightarrow> range_order \<Rightarrow> event \<Rightarrow> 'm \<Rightarrow> 'm \<times> bool" where
  "sink_send peer o1 order ev m =
     (if \<not> marshals_json (eventToWire order ev) then (m, False)
      else case peer (sink_request_of o1 order ev) m of
        (m', None) \<Rightarrow> (m', False)
      | (m', Some st) \<Rightarrow> (m', st < 400))"

fun send_attempts :: "nat \<Rightarrow> 'm peer \<Rightarrow> sink_options \<Rightarrow> range_order \<Rightarrow> event \<Rightarrow> 'm \<Rightarrow> 'm \<times> bool" where
  "send_attempts 0 peer o1 order ev m = (m, False)"
| "send_attempts (Suc k) peer o1 order ev m =
     (case sink_send peer o1 order ev m of
        (m', True) \<Rightarrow> (m', True)
      | (m', False) \<Rightarrow> send_attempts k peer o1 order ev m')"

definition sendWithRetry :: "'m peer \<Rightarrow> sink_options \<Rightarrow> range_order \<Rightarrow> event \<Rightarrow> 'm \<Rightarrow> 'm \<times> bool" where
  "sendWithRetry = send_attempts 3"

text \<open>One round of the worker: it takes an event and sends it, or ends when the channel is closed and
  drained.\<close>

definition sink_run :: "'m peer \<Rightarrow> range_order \<Rightarrow> http_sink \<Rightarrow> 'm \<Rightarrow> http_sink \<times> 'm" where
  "sink_run peer order s m =
     (case hs_buf s of
        [] \<Rightarrow> (if hs_closed s then s\<lparr>hs_done := True\<rparr> else s, m)
      | ev # rest \<Rightarrow>
          (case sendWithRetry peer (hs_opts s) order ev m of
             (m', ok) \<Rightarrow>
               (s\<lparr>hs_buf := rest, hs_failed := (if ok then hs_failed s else wrap64 (hs_failed s + 1))\<rparr>, m')))"

section \<open>The alert manager as it receives the request\<close>

text \<open>\<open>ShouldBindJSON\<close> into \<open>incomingEvent\<close>, whose annotations are strings: a number is an error.\<close>

definition bind_annotations :: "(string \<times> event_value) list \<Rightarrow> labels option" where
  "bind_annotations kvs =
     (if list_all (\<lambda>(k, v). case v of VStr _ \<Rightarrow> True | VFloat _ \<Rightarrow> False) kvs
      then Some (map (\<lambda>(k, v). (k, show_value v)) kvs) else None)"

definition bind_event :: "(string \<Rightarrow> int option) \<Rightarrow> wire_event \<Rightarrow> incomingEvent option" where
  "bind_event parse_time w =
     map_option (\<lambda>an. \<lparr>ie_rule = we_rule w, ie_severity = we_severity w, ie_title = we_title w,
        ie_description = we_description w, ie_labels = we_labels w, ie_annotations = an, ie_resolved = False,
        ie_occurred = parse_time (we_occurred w)\<rparr>) (bind_annotations (we_annotations w))"

definition reply_status :: "am_reply \<Rightarrow> nat" where
  "reply_status r =
     (case r of Failed st \<Rightarrow> st | AcceptedResolved _ \<Rightarrow> 202 | Received _ _ _ _ \<Rightarrow> 202 | Observed _ _ _ \<Rightarrow> 200
      | SLOCreated \<Rightarrow> 201 | SilenceCreated _ \<Rightarrow> 201 | Alerts _ \<Rightarrow> 200 | Streaming _ \<Rightarrow> 200)"

text \<open>\<open>heard\<close>: the answer reached the sink.\<close>

definition events_peer ::
  "(string \<Rightarrow> store_answer) \<Rightarrow> (string \<Rightarrow> string) \<Rightarrow> (f64 \<Rightarrow> nat \<Rightarrow> string) \<Rightarrow> (string \<Rightarrow> int option) \<Rightarrow> am_env \<Rightarrow>
   bool \<Rightarrow> manager peer" where
  "events_peer validate sha fmtf parse_time en heard rq m =
     (case am_router validate sha fmtf en (sq_auth rq) (sq_tenant rq) (PostEvents (bind_event parse_time (sq_body rq))) m of
        (m', r) \<Rightarrow> (m', if heard then Some (reply_status r) else None))"

end
