(* ===== verification/AlertSinkProps.thy ===== *)
theory AlertSinkProps
  imports AlertSink AlertProps
begin

text \<open>
  The path of an event from an actor to the alert store and on to the notifiers: what the alert
  manager makes of the requests of the sink, whose alerts its routes can change, and what becomes of
  a notification that fails.
\<close>

section \<open>The sink\<close>

text \<open>Delivering again and again, with the number of events that got through.\<close>

fun sink_rounds :: "nat \<Rightarrow> 'm peer \<Rightarrow> range_order \<Rightarrow> http_sink \<times> 'm \<Rightarrow> http_sink \<times> 'm" where
  "sink_rounds 0 peer order sm = sm"
| "sink_rounds (Suc n) peer order (s, m) = sink_rounds n peer order (sink_run peer order s m)"

lemma sink_run_frame:
  assumes "sink_run peer order s m = (s', m')"
  shows "hs_closed s' = hs_closed s" "hs_buf s' = drop 1 (hs_buf s)" "hs_published s' = hs_published s"
    "hs_dropped s' = hs_dropped s" "hs_opts s' = hs_opts s"
    "hs_done s' = (hs_done s \<or> hs_closed s \<and> hs_buf s = [])"
  using assms by (auto simp: sink_run_def split: list.splits if_splits prod.splits)

text \<open>
  \<open>Stop\<close> drains: whatever the far end answers, a stopped sink with \<open>n\<close> buffered events is empty and
  its worker done after \<open>n + 1\<close> rounds, so \<open>Stop\<close> returns; an event published after \<open>Stop\<close> panics.
\<close>

theorem sink_drains:
  shows "(let s' = fst (sink_rounds (length (hs_buf s) + 1) peer order (sink_Stop s, m))
      in hs_done s' \<and> hs_buf s' = [] \<and> hs_published s' = hs_published s \<and> hs_dropped s' = hs_dropped s) \<and>
    sink_Publish ev (sink_Stop s) = None"
proof -
  obtain s2 m2 where e: "sink_rounds (length (hs_buf s) + 1) peer order (sink_Stop s, m) = (s2, m2)" by fastforce
  have "hs_closed s \<Longrightarrow> n = length (hs_buf s) \<Longrightarrow> sink_rounds (n + 1) peer order (s, m) = (s', m') \<Longrightarrow>
      hs_done s' \<and> hs_buf s' = [] \<and> hs_published s' = hs_published s \<and> hs_dropped s' = hs_dropped s" for n s s' and m m'
  proof (induction n arbitrary: s m)
    case 0
    then show ?case by (auto simp: sink_run_def)
  next
    case (Suc n)
    obtain s1 m1 where r: "sink_run peer order s m = (s1, m1)" by fastforce
    note f = sink_run_frame [OF r]
    have "sink_rounds (n + 1) peer order (s1, m1) = (s', m')" using Suc.prems(3) r by simp
    moreover have "hs_closed s1" "n = length (hs_buf s1)" using f Suc.prems(1,2) by simp_all
    ultimately show ?case using Suc.IH [of s1 m1] f by simp
  qed
  from this [of "sink_Stop s" "length (hs_buf s)" m s2 m2] e show ?thesis
    by (simp add: sink_Stop_def sink_Publish_def del: sink_rounds.simps)
qed

section \<open>What the alert manager makes of an event\<close>

definition has_float :: "(string \<times> event_value) list \<Rightarrow> bool" where
  "has_float kvs = list_ex (\<lambda>(k, v). case v of VFloat _ \<Rightarrow> True | VStr _ \<Rightarrow> False) kvs"

lemma error_eval_float: "error_eval r now sg = (r', Some ev) \<Longrightarrow> has_float (ev_data ev)"
  by (auto simp: has_float_def error_eval_def Let_def split: if_splits)

lemma latency_eval_float: "latency_eval r now sg = (r', Some ev) \<Longrightarrow> has_float (ev_data ev)"
  by (auto simp: has_float_def latency_eval_def Let_def split: if_splits option.splits)

lemma rule_eval_float: "rule_eval r now sg = (r', Some ev) \<Longrightarrow> has_float (ev_data ev)"
  by (cases r) (auto split: prod.splits dest: error_eval_float latency_eval_float)

lemma Process_float: "Process eng clock sg = (eng', Some ev) \<Longrightarrow> has_float (ev_data ev)"
proof (induction eng clock sg arbitrary: eng' rule: Process.induct)
  case (2 r rs now sg)
  obtain r1 e1 where r: "rule_eval r (now 0) sg = (r1, e1)" by fastforce
  obtain rs1 e2 where q: "Process rs (\<lambda>i. now (Suc i)) sg = (rs1, e2)" by fastforce
  show ?case
  proof (cases e1)
    case None
    then show ?thesis using 2 r q by simp
  next
    case (Some v)
    then have "v = ev" using 2(2) r by simp
    then show ?thesis using rule_eval_float r Some by blast
  qed
qed simp

lemma bind_float: "has_float kvs \<Longrightarrow> bind_annotations kvs = None"
  by (force simp: has_float_def bind_annotations_def list_all_iff list_ex_iff split: event_value.splits)

lemma router_no_body:
  "\<exists>st. am_router validate sha fmtf en auth claimed (PostEvents None) m = (m, Failed st) \<and> 400 \<le> st"
  by (simp add: am_router_def AuthMiddleware_def GinRequireScope_def am_handler_def eventsHandler_def Let_def
      split: option.split store_answer.split)

lemma events_peer_float:
  assumes "has_float (we_annotations (sq_body rq))"
  shows "\<exists>a. events_peer validate sha fmtf parse_time en heard rq m = (m, a) \<and> (\<forall>st. a = Some st \<longrightarrow> 400 \<le> st)"
proof -
  have "bind_event parse_time (sq_body rq) = None" by (simp add: bind_event_def bind_float [OF assms])
  with router_no_body [of validate sha fmtf en "sq_auth rq" "sq_tenant rq" m]
  show ?thesis by (auto simp: events_peer_def reply_status_def)
qed

lemma attempts_float:
  assumes "has_float (ev_data ev)"
  shows "send_attempts k (events_peer validate sha fmtf parse_time en heard) opts order ev m = (m, False)"
proof (induction k)
  case (Suc k)
  have "has_float (we_annotations (sq_body (sink_request_of opts order ev)))"
    using assms by (simp add: sink_request_of_def eventToWire_def)
  from events_peer_float [OF this, of validate sha fmtf parse_time en heard m]
  have "sink_send (events_peer validate sha fmtf parse_time en heard) opts order ev m = (m, False)"
    by (auto simp: sink_send_def split: option.split)
  then show ?case using Suc by simp
qed simp

text \<open>
  C14. No event of the rules ever becomes an alert: whatever the credentials, the alert manager refuses
  the request for each event a tenant's rule engine produces (its data holds floats, where the request
  must have strings, and the whole body is refused), so all attempts fail, the event is counted as
  failed and the manager has not changed.
\<close>

theorem cep_events_rejected:
  assumes "Process eng clock sg = (eng', Some ev)" "hs_buf s = ev # rest"
  shows "sink_run (events_peer validate sha fmtf parse_time en heard) order s m =
    (s\<lparr>hs_buf := rest, hs_failed := wrap64 (hs_failed s + 1)\<rparr>, m)"
  using attempts_float [OF Process_float [OF assms(1)]] assms(2) by (simp add: sink_run_def sendWithRetry_def)

lemma router_claimed: "am_router validate sha fmtf en auth claimed c m = am_router validate sha fmtf en auth claimed' c m"
  by (simp add: am_router_def AuthMiddleware_def GinRequireScope_def Let_def split: option.split store_answer.split)

lemma attempts_tenant:
  "send_attempts k (events_peer validate sha fmtf parse_time en heard) opts order (ev\<lparr>ev_tenant := t\<rparr>) m =
   send_attempts k (events_peer validate sha fmtf parse_time en heard) opts order ev m"
proof (induction k arbitrary: m)
  case (Suc k)
  have w: "eventToWire order (ev\<lparr>ev_tenant := t\<rparr>) = eventToWire order ev"
    by (simp add: eventToWire_def event_service_def describeEvent_def)
  have "events_peer validate sha fmtf parse_time en heard (sink_request_of opts order (ev\<lparr>ev_tenant := t\<rparr>)) m =
      events_peer validate sha fmtf parse_time en heard (sink_request_of opts order ev) m"
    unfolding events_peer_def using router_claimed by (simp add: sink_request_of_def w) metis
  then have "sink_send (events_peer validate sha fmtf parse_time en heard) opts order (ev\<lparr>ev_tenant := t\<rparr>) m =
      sink_send (events_peer validate sha fmtf parse_time en heard) opts order ev m"
    by (simp add: sink_send_def w)
  then show ?case using Suc by (simp split: prod.split bool.split)
qed simp

text \<open>
  The tenant of an event is lost on the way: the alert manager is left in the same state whatever
  the tenant in the event, because the header the sink sets is replaced by the tenant of the sink's one
  API key. Alerts of all tenants are filed under that tenant, and those of two tenants with the same
  service and rule are one alert.
\<close>

theorem sink_tenant_ignored:
  shows "sink_run (events_peer validate sha fmtf parse_time en heard) order (s\<lparr>hs_buf := ev\<lparr>ev_tenant := t\<rparr> # rest\<rparr>) m =
    sink_run (events_peer validate sha fmtf parse_time en heard) order (s\<lparr>hs_buf := ev # rest\<rparr>) m"
  by (simp add: sink_run_def sendWithRetry_def attempts_tenant split: prod.split)

section \<open>Whose alerts a request can change\<close>

text \<open>What a request of one tenant may do to the manager: silences, pending notifications and audit
  records are added, all the tenant's; the hub gets an event or a subscriber of the tenant; only alerts
  whose fingerprint is one of the tenant's change, and new ones carry the tenant.\<close>

definition task_tenant :: "task \<Rightarrow> string \<times> string" where
  "task_tenant t = (case t of TFiring x n \<Rightarrow> (x, no_tenant n) | TResolved x n \<Rightarrow> (x, no_tenant n))"

definition alerts_of :: "(string \<Rightarrow> string) \<Rightarrow> string \<Rightarrow> alert_store \<Rightarrow> alert_store \<Rightarrow> bool" where
  "alerts_of sha tid st st' \<longleftrightarrow>
     (\<forall>fp. (\<forall>r l. fp \<noteq> Fingerprint sha tid r l) \<longrightarrow> find_alert st' fp = find_alert st fp) \<and>
     (\<forall>fp a. find_alert st fp = None \<longrightarrow> find_alert st' fp = Some a \<longrightarrow> al_tenant a = tid)"

definition confined :: "(string \<Rightarrow> string) \<Rightarrow> string \<Rightarrow> manager \<Rightarrow> manager \<Rightarrow> bool" where
  "confined sha tid m m' \<longleftrightarrow>
     alerts_of sha tid (am_store m) (am_store m') \<and>
     (\<exists>new. as_silences (am_store m') = as_silences (am_store m) @ new \<and> list_all (\<lambda>s. si_tenant s = tid) new) \<and>
     (\<exists>new. am_tasks m' = am_tasks m @ new \<and> list_all (\<lambda>t. task_tenant t = (tid, tid)) new) \<and>
     (\<exists>new. am_audit m' = am_audit m @ new \<and> list_all (\<lambda>r. au_tenant r = tid) new) \<and>
     (am_hub m' = am_hub m \<or> am_hub m' = fst (subscribe (am_hub m) tid) \<or>
        (\<exists>e. am_hub m' = Publish (am_hub m) e \<and> ev_tenant_id e = tid))"

lemma store_silences [simp]: "as_silences (update_alert st fp f) = as_silences st"
  "as_silences (add_history st h) = as_silences st"
  "as_silences (history_for st fp ev) = as_silences st"
  by (simp_all add: update_alert_def add_history_def history_for_def split: option.split)

lemma Upsert_alerts:
  assumes "UpsertFiring st up a = Some (st', fresh)" "al_tenant a = tid" "al_fingerprint a = Fingerprint sha tid r l"
  shows "alerts_of sha tid st st' \<and> as_silences st' = as_silences st"
proof (cases "find_alert st (al_fingerprint a)")
  case None
  then have "st' = add_history (st\<lparr>as_alerts := as_alerts st @ [a\<lparr>al_state := Firing,
      al_resolved := None, al_notified := None, al_notify_count := 0\<rparr>]\<rparr>)
      \<lparr>hi_fingerprint = al_fingerprint a, hi_tenant = al_tenant a, hi_event = Created,
       hi_severity = Some (al_severity a)\<rparr>"
    using assms(1) by (auto simp: UpsertFiring_def split: if_splits)
  then show ?thesis
    using None assms(2,3) by (auto simp: alerts_of_def find_alert_def add_history_def find_append split: option.splits if_splits)
next
  case (Some e)
  have "find_alert st' fp = (if fp = al_fingerprint a then find_alert st' fp else find_alert st fp) \<and>
      as_silences st' = as_silences st" for fp
    using assms(1) Some
    by (auto simp: UpsertFiring_def find_update split: if_splits alert_state.splits)
  then show ?thesis using assms(3) Some unfolding alerts_of_def by (metis option.distinct(1))
qed

lemma Resolve_alerts:
  assumes "Resolve st up (Fingerprint sha tid r l) t = Some st'"
  shows "alerts_of sha tid st st' \<and> as_silences st' = as_silences st"
  using assms by (auto simp: Resolve_def alerts_of_def find_update split: if_splits)

lemma alerts_of_refl [simp]: "alerts_of sha tid st st" by (simp add: alerts_of_def)

lemma handled_confined:
  assumes "handled sha m tid m'"
  shows "confined sha tid m m'"
  using assms
proof (cases rule: handled.cases)
  case (resolved up fp t r l n e)
  then show ?thesis using Resolve_alerts [of "am_store m" up sha tid r l t "am_store m'"]
    by (auto simp: confined_def task_tenant_def)
next
  case (upsert up a fresh r l)
  then show ?thesis using Upsert_alerts [OF upsert(1-3)] by (auto simp: confined_def)
next
  case (fired up a r l n e)
  then show ?thesis using Upsert_alerts [OF fired(1-3)] by (auto simp: confined_def task_tenant_def)
qed (simp add: confined_def)

lemma handler_confined: "confined sha tid m (fst (am_handler sha fmtf en tid c m))"
proof (cases c)
  case (PostEvents body)
  then show ?thesis using handled_confined events_handled by (simp add: am_handler_def)
next
  case (PostObservations body)
  then show ?thesis using handled_confined observations_handled by (simp add: am_handler_def)
next
  case (PostSilences uid body)
  have created: "CreateSilence st up now sil = (st', Inr i) \<Longrightarrow>
      alerts_of sha tid st st' \<and> as_silences st' = as_silences st @ [sil]" for st up now sil st' i
    by (auto simp: CreateSilence_def alerts_of_def find_alert_def split: if_splits)
  show ?thesis
    unfolding PostSilences am_handler_def createSilenceHandler_def
    by (auto simp: emitAudit_def confined_def Let_def dest!: created split: option.split sum.split prod.split)
next
  case (PostSLOs body)
  then show ?thesis
    by (auto simp: am_handler_def registerSLOHandler_def emitAudit_def confined_def split: option.split sum.split)
next
  case GetStream
  then show ?thesis by (auto simp: am_handler_def confined_def split: prod.split)
qed (simp add: am_handler_def confined_def)


section \<open>A notification that fails\<close>

text \<open>
  A failed notification is lost: when one notifier of the dispatcher fails, the alert is not marked
  as notified, and as long as nobody resolves it no further dispatch is ever started for it, whatever
  else is requested; the alert stays firing.
\<close>

theorem failed_dispatch_lost:
  assumes "firing (am_store m) fp" "i < length (am_tasks m)" "am_tasks m ! i = TFiring tid n" "no_fingerprint n = fp"
    "j < length (dp_notifiers (am_dispatcher m))" "Send post (clock j) (dp_notifiers (am_dispatcher m) ! j) n \<noteq> None"
    "\<forall>x \<in> set ops. \<not> resolves sha fp x"
  shows "am_store (am_step sha fmtf m (OpTask i post clock ups t)) = am_store m \<and>
    firing_count fp (dispatches sha fmtf (am_step sha fmtf m (OpTask i post clock ups t)) ops) = 0 \<and>
    firing (am_store (am_run sha fmtf (am_step sha fmtf m (OpTask i post clock ups t)) ops)) fp"
proof -
  have "Dispatch post clock (am_dispatcher m) n \<noteq> []" using assms(5,6) by (auto simp: Dispatch_Nil)
  then have "am_store (am_step sha fmtf m (OpTask i post clock ups t)) = am_store m"
    using assms(2,3) by (simp add: run_task_def dispatchFiring_def)
  then show ?thesis
    using run_firing_none [OF _ assms(7), of "am_step sha fmtf m (OpTask i post clock ups t)" fmtf] assms(1) by simp
qed

section \<open>Concrete runs\<close>

definition demo_rules :: engine where
  "demo_rules = [RLatency (NewHighLatencyRule ''acme'' minute (Fin 5))]"

definition demo_slow :: signal where
  "demo_slow = \<lparr>sig_tenant = ''acme'', sig_type = Trace, sig_payload = [],
     sig_attrs = Map.empty(''duration_ms'' \<mapsto> ''5''), sig_received = 0\<rparr>"

lemma demo_duration: "trace_duration demo_slow = Some (Fin 5)"
proof -
  have "parse_float ''5'' = Some (Fin 5)" by code_simp
  then show ?thesis by (simp add: trace_duration_def demo_slow_def)
qed

lemma demo_fires: "\<exists>eng' ev. Process demo_rules (\<lambda>_. 0) demo_slow = (eng', Some ev)"
  by (simp add: demo_rules_def latency_eval_def demo_duration NewHighLatencyRule_def latency_observe_def get_or_def
      window_peak_def newLatencyTracker_def window_shape_def observe_def maxIn_def epoch_of_def live_def Let_def
      minute_def second_def fle_def)

definition demo_sink :: http_sink where
  "demo_sink = NewHTTPSink \<lparr>sk_endpoint = ''u'', sk_apiKey = ''k'', sk_tenantHeader = [], sk_buffer = 0, sk_timeout = 0\<rparr>"

definition demo_alert_key :: "string \<Rightarrow> store_answer" where
  "demo_alert_key k = Aware (Some \<lparr>md_tenant = ''acme'', md_scopes = [ScopeAlertWrite]\<rparr>)"

definition demo_env :: am_env where
  "demo_env = \<lparr>ae_now = 20, ae_ip = ''ip'', ae_ups = (True, True)\<rparr>"

theorem cep_events_rejected_witness:
  "\<exists>eng' ev. Process demo_rules (\<lambda>_. 0) demo_slow = (eng', Some ev) \<and>
     sink_run (events_peer demo_alert_key id (\<lambda>_ _. []) (\<lambda>_. None) demo_env True) id (demo_sink\<lparr>hs_buf := [ev]\<rparr>) demo_manager =
       (demo_sink\<lparr>hs_buf := [], hs_failed := 1\<rparr>, demo_manager)"
proof -
  obtain eng' ev where p: "Process demo_rules (\<lambda>_. 0) demo_slow = (eng', Some ev)"
    using demo_fires by (cases "Process demo_rules (\<lambda>_. 0) demo_error") auto
  have w: "wrap64 (hs_failed demo_sink + 1) = 1" by (simp add: demo_sink_def NewHTTPSink_def wrap64_def)
  have "sink_run (events_peer demo_alert_key id (\<lambda>_ _. []) (\<lambda>_. None) demo_env True) id (demo_sink\<lparr>hs_buf := [ev]\<rparr>) demo_manager =
       (demo_sink\<lparr>hs_buf := [], hs_failed := 1\<rparr>, demo_manager)"
    using cep_events_rejected [OF p, of "demo_sink\<lparr>hs_buf := [ev]\<rparr>" "[]"] w by simp
  then show ?thesis using p by blast
qed


text \<open>The event comes after the silence has expired; the webhook does not answer.\<close>

theorem failed_dispatch_lost_witness:
  "let m = fst (eventsHandler id demo_manager ''acme'' 20 (True, True) (Some demo_event));
       m1 = am_step id (\<lambda>_ _. []) m (OpTask 0 (\<lambda>_. None) (\<lambda>_. 30) (True, True) 30);
       later = OpEvent ''acme'' 40 (True, True) (Some demo_event)
   in firing (am_store m1) (Fingerprint id ''acme'' ''r'' []) \<and> am_store m1 = am_store m \<and>
      firing_count (Fingerprint id ''acme'' ''r'' []) (dispatches id (\<lambda>_ _. []) m1 [later]) = 0"
proof -
  let ?m = "fst (eventsHandler id demo_manager ''acme'' 20 (True, True) (Some demo_event))"
  let ?fp = "Fingerprint id ''acme'' ''r'' []"
  let ?n = "event_notification ''acme'' ?fp demo_event 20 None"
  have e: "eventsHandler id demo_manager ''acme'' 20 (True, True) (Some demo_event) =
      (?m, Received ?fp True False True)" "am_tasks ?m = [TFiring ''acme'' ?n]" "firing (am_store ?m) ?fp"
    "am_dispatcher ?m = NewDispatcher [Webhook ''h'' []] None"
    by (simp_all add: eventsHandler_def demo_event_def demo_manager_def Let_def IsSilenced_def
        labelsSubset_def UpsertFiring_def find_alert_def firing_def add_history_def)
  have d: "Send (\<lambda>_. None) 30 (dp_notifiers (am_dispatcher ?m) ! 0) ?n \<noteq> None"
    by (simp add: e(4) NewDispatcher_def Send_def request_of_def do_post_def)
  have "\<forall>x \<in> set [OpEvent ''acme'' 40 (True, True) (Some demo_event)]. \<not> resolves id ?fp x"
    by (simp add: demo_event_def)
  note f = failed_dispatch_lost [OF e(3) _ _ _ _ d this, where fmtf = "\<lambda>_ _. []" and i = 0 and tid = "''acme''" and ups = "(True, True)" and t = 30]
  have "0 < length (am_tasks ?m)" "am_tasks ?m ! 0 = TFiring ''acme'' ?n" by (simp_all add: e(2))
  moreover have "no_fingerprint ?n = ?fp" by (simp add: event_notification_def)
  moreover have "0 < length (dp_notifiers (am_dispatcher ?m))" by (simp add: e(4) NewDispatcher_def Let_def)
  ultimately show ?thesis using f e(3) unfolding Let_def by simp
qed

end
