(* ===== verification/UiServer.thy ===== *)
theory UiServer
  imports Oidc QueryEngine TenantApi Ingest
begin

text \<open>
  The operator console (\<open>services/ui-server/cmd/main.go\<close>): the routes, the reverse proxies behind the
  OIDC middleware, the public configuration with its cache and the exchange of an authorization code.
  What the identity provider answers is an input. The part of the standard library's reverse proxy that
  adds the client's address is written out.
\<close>

section \<open>Configuration\<close>

record ui_config =
  uc_Addr :: string
  uc_TenantAPIURL :: string
  uc_QueryEngineURL :: string
  uc_AlertManagerURL :: string
  uc_OIDCIssuer :: string
  uc_OIDCAudience :: string
  uc_OIDCAdminGroups :: "string list"
  uc_OIDCClientID :: string
  uc_OIDCClientSecret :: string
  uc_OIDCAuthorizeURL :: string
  uc_OIDCTokenURL :: string

definition loadConfig :: "env_vars \<Rightarrow> ui_config" where
  "loadConfig env =
     \<lparr>uc_Addr = getEnv env ''OBSERVE_X_UI_ADDR'' '':8080'',
      uc_TenantAPIURL = getEnv env ''OBSERVE_X_TENANT_API_URL'' ''http://tenant-api:8081'',
      uc_QueryEngineURL = getEnv env ''OBSERVE_X_QUERY_ENGINE_URL'' ''http://query-engine:8082'',
      uc_AlertManagerURL = getEnv env ''OBSERVE_X_ALERT_MANAGER_URL'' ''http://alert-manager:8083'',
      uc_OIDCIssuer = getEnv env ''OBSERVE_X_OIDC_ISSUER'' [],
      uc_OIDCAudience = getEnv env ''OBSERVE_X_OIDC_AUDIENCE'' ''observex'',
      uc_OIDCAdminGroups = splitCSV (getEnv env ''OBSERVE_X_OIDC_ADMIN_GROUPS'' []),
      uc_OIDCClientID = getEnv env ''OBSERVE_X_OIDC_CLIENT_ID'' ''observex'',
      uc_OIDCClientSecret = getEnv env ''OBSERVE_X_OIDC_CLIENT_SECRET'' [],
      uc_OIDCAuthorizeURL = getEnv env ''OBSERVE_X_OIDC_AUTHORIZE_URL'' [],
      uc_OIDCTokenURL = getEnv env ''OBSERVE_X_OIDC_TOKEN_URL'' []\<rparr>"

section \<open>The application's files\<close>

text \<open>\<open>exists\<close> says which paths are embedded files; the second result is the path the file server gets.\<close>

datatype spa_reply = BadPath | ServePath string

definition trim_prefix :: "string \<Rightarrow> string \<Rightarrow> string" where
  "trim_prefix s p = (if has_prefix s p then drop (length p) s else s)"

definition spaHandler :: "(string \<Rightarrow> bool) \<Rightarrow> string \<Rightarrow> spa_reply" where
  "spaHandler exists url =
     (if has_text url ''..'' then BadPath
      else
        let p = trim_prefix url ''/''; path = (if p = [] then ''index.html'' else p)
        in ServePath (if exists path then url else ''/''))"

section \<open>The reverse proxies\<close>

record ui_request =
  ur_method :: string
  ur_path :: string
  ur_remote :: string
  ur_forwarded :: "string list option"
  ur_operator :: operator_request

record upstream_request =
  up_target :: string
  up_path :: string
  up_forwarded :: string
  up_proto :: string
  up_operator :: operator_request

text \<open>Up to the last colon.\<close>

definition remoteIP :: "string \<Rightarrow> string" where
  "remoteIP a = (if CHR '':'' \<in> set a then rev (drop 1 (dropWhile (\<lambda>c. c \<noteq> CHR '':'') (rev a))) else a)"

definition director_forwarded :: "string list option \<Rightarrow> string \<Rightarrow> string" where
  "director_forwarded prior remote =
     (case prior of
        Some vs \<Rightarrow> join '', '' vs @ '', '' @ remoteIP remote
      | None \<Rightarrow> remoteIP remote)"

text \<open>\<open>net.SplitHostPort\<close> of the client's address as the reverse proxy uses it; brackets go.\<close>

definition client_host :: "string \<Rightarrow> string" where
  "client_host a = filter (\<lambda>c. c \<noteq> CHR ''['' \<and> c \<noteq> CHR '']'') (remoteIP a)"

text \<open>\<open>directorFor\<close>, then what the reverse proxy does after its director: it appends the client's
  address once more.\<close>

definition directorFor :: "string \<Rightarrow> string \<Rightarrow> ui_request \<Rightarrow> upstream_request" where
  "directorFor target prefix r =
     (let p = trim_prefix (ur_path r) prefix
      in \<lparr>up_target = target, up_path = (if p = [] then ''/'' else p),
          up_forwarded = director_forwarded (ur_forwarded r) (ur_remote r) @ '', '' @ client_host (ur_remote r),
          up_proto = ''https'', up_operator = ur_operator r\<rparr>)"

datatype ui_reply = UiStatus nat | UiSpa spa_reply | UiForward upstream_request | UiConfig "(string \<times> string) list"
  | UiToken string | UiRedirect string

record 'k ui_world =
  uw_lib :: "'k jwt_library"
  uw_now :: int
  uw_keys :: "'k jwk list option"

definition proxyHandler ::
  "'k ui_world \<Rightarrow> string \<Rightarrow> string \<Rightarrow> 'k validator option \<Rightarrow> ui_request \<Rightarrow> 'k validator option \<times> ui_reply" where
  "proxyHandler w target prefix v r =
     (case v of
        None \<Rightarrow> (None, UiForward (directorFor target prefix r))
      | Some vd \<Rightarrow>
          (case oidc_Middleware (uw_lib w) (uw_now w) (uw_keys w) vd (ur_operator r) of
             (vd', Denied st _) \<Rightarrow> (Some vd', UiStatus st)
           | (vd', Admitted h) \<Rightarrow> (Some vd', UiForward (directorFor target prefix (r\<lparr>ur_operator := h\<rparr>)))))"

section \<open>The public configuration\<close>

definition trim_right_slash :: "string \<Rightarrow> string" where
  "trim_right_slash s = rev (dropWhile (\<lambda>c. c = CHR ''/'') (rev s))"

text \<open>What the discovery document of an address says: the two endpoints, or no usable answer.\<close>

type_synonym discovery = "string \<Rightarrow> (string \<times> string) option"

definition discoverOIDCEndpoints :: "discovery \<Rightarrow> string \<Rightarrow> (string \<times> string) option" where
  "discoverOIDCEndpoints ask issuer = ask (trim_right_slash issuer @ ''/.well-known/openid-configuration'')"

definition buildConfigJSON :: "discovery \<Rightarrow> ui_config \<Rightarrow> (string \<times> string) list" where
  "buildConfigJSON ask cfg =
     (let authz = uc_OIDCAuthorizeURL cfg; token = uc_OIDCTokenURL cfg;
          (a, t) = (if uc_OIDCIssuer cfg \<noteq> [] \<and> (authz = [] \<or> token = [])
                    then (case discoverOIDCEndpoints ask (uc_OIDCIssuer cfg) of
                            None \<Rightarrow> (authz, token)
                          | Some (x, y) \<Rightarrow> (if authz = [] then x else authz, if token = [] then y else token))
                    else (authz, token))
      in [(''version'', ''1.0.0''), (''oidc_issuer'', uc_OIDCIssuer cfg), (''oidc_audience'', uc_OIDCAudience cfg),
          (''oidc_client_id'', uc_OIDCClientID cfg), (''authorize_endpoint'', a), (''token_endpoint'', t)])"

text \<open>The handler with its cache.\<close>

definition configHandler ::
  "discovery \<Rightarrow> ui_config \<Rightarrow> (string \<times> string) list option \<Rightarrow> (string \<times> string) list option \<times> (string \<times> string) list" where
  "configHandler ask cfg cached =
     (case cached of
        Some c \<Rightarrow> (cached, c)
      | None \<Rightarrow> (Some (buildConfigJSON ask cfg), buildConfigJSON ask cfg))"

section \<open>The exchange of a code\<close>

record exchange_body =
  eb_code :: string
  eb_verifier :: string
  eb_redirect :: string

record token_request =
  tq_url :: string
  tq_form :: "(string \<times> string) list"

text \<open>The identity provider: status and body, \<open>None\<close> when it cannot be reached.\<close>

type_synonym idp = "token_request \<Rightarrow> (nat \<times> string) option"

definition exchange_request :: "ui_config \<Rightarrow> string \<Rightarrow> exchange_body \<Rightarrow> token_request" where
  "exchange_request cfg url b =
     \<lparr>tq_url = url,
      tq_form = [(''grant_type'', ''authorization_code''), (''code'', eb_code b), (''code_verifier'', eb_verifier b),
        (''redirect_uri'', eb_redirect b), (''client_id'', uc_OIDCClientID cfg)] @
        (if uc_OIDCClientSecret cfg \<noteq> [] then [(''client_secret'', uc_OIDCClientSecret cfg)] else [])\<rparr>"

text \<open>The second result lists the requests made to the identity provider's token endpoint.\<close>

definition oidcExchangeHandler ::
  "discovery \<Rightarrow> idp \<Rightarrow> ui_config \<Rightarrow> string \<Rightarrow> exchange_body option \<Rightarrow> ui_reply \<times> token_request list" where
  "oidcExchangeHandler ask provider cfg meth body =
     (if meth \<noteq> ''POST'' then (UiStatus 405, [])
      else if uc_OIDCIssuer cfg = [] then (UiStatus 503, [])
      else case body of
        None \<Rightarrow> (UiStatus 400, [])
      | Some b \<Rightarrow>
          if eb_code b = [] \<or> eb_verifier b = [] \<or> eb_redirect b = [] then (UiStatus 400, [])
          else
            let url = (if uc_OIDCTokenURL cfg \<noteq> [] then Some (uc_OIDCTokenURL cfg)
                       else map_option snd (discoverOIDCEndpoints ask (uc_OIDCIssuer cfg)))
            in case url of
                 None \<Rightarrow> (UiStatus 502, [])
               | Some u \<Rightarrow>
                   let q = exchange_request cfg u b
                   in (case provider q of
                         None \<Rightarrow> UiStatus 502
                       | Some (st, tok) \<Rightarrow> if st div 100 \<noteq> 2 then UiStatus 401 else UiToken tok, [q]))"

section \<open>The routes\<close>

text \<open>For a path the multiplexer need not clean: the root of a subtree without its slash is redirected.\<close>

record 'k ui_server =
  us_config :: ui_config
  us_validator :: "'k validator option"
  us_cache :: "(string \<times> string) list option"

definition ui_mux ::
  "'k ui_world \<Rightarrow> discovery \<Rightarrow> idp \<Rightarrow> (string \<Rightarrow> bool) \<Rightarrow> ui_request \<Rightarrow> exchange_body option \<Rightarrow> 'k ui_server \<Rightarrow>
   'k ui_server \<times> ui_reply" where
  "ui_mux w ask provider exists r body s =
     (let cfg = us_config s;
          proxy = (\<lambda>target prefix. map_prod (\<lambda>v. s\<lparr>us_validator := v\<rparr>) id (proxyHandler w target prefix (us_validator s) r))
      in if ur_path r \<in> {''/healthz'', ''/readyz'', ''/metrics''} then (s, UiStatus 200)
         else if has_prefix (ur_path r) ''/api/tenant/'' then proxy (uc_TenantAPIURL cfg) ''/api/tenant''
         else if has_prefix (ur_path r) ''/api/query/'' then proxy (uc_QueryEngineURL cfg) ''/api/query''
         else if has_prefix (ur_path r) ''/api/alert/'' then proxy (uc_AlertManagerURL cfg) ''/api/alert''
         else if ur_path r = ''/oidc/exchange'' then (s, fst (oidcExchangeHandler ask provider cfg (ur_method r) body))
         else if ur_path r = ''/config'' then
           (case configHandler ask cfg (us_cache s) of (c, j) \<Rightarrow> (s\<lparr>us_cache := c\<rparr>, UiConfig j))
         else if ur_path r \<in> {''/api/tenant'', ''/api/query'', ''/api/alert''} then (s, UiRedirect (ur_path r @ ''/''))
         else (s, UiSpa (spaHandler exists (ur_path r))))"

end
