(* ===== verification/UiProps.thy ===== *)
theory UiProps
  imports UiServer AlertManager OidcProps
begin

text \<open>
  Properties of the operator console: what reaches an upstream service, what the services that know
  tenants by their API keys make of an operator's token, and what its configuration endpoint says.
\<close>

section \<open>What is forwarded\<close>

text \<open>The upstream of a path and the prefix that is removed.\<close>

definition upstream_of :: "ui_config \<Rightarrow> string \<Rightarrow> (string \<times> string) option" where
  "upstream_of cfg p =
     (if has_prefix p ''/api/tenant/'' then Some (uc_TenantAPIURL cfg, ''/api/tenant'')
      else if has_prefix p ''/api/query/'' then Some (uc_QueryEngineURL cfg, ''/api/query'')
      else if has_prefix p ''/api/alert/'' then Some (uc_AlertManagerURL cfg, ''/api/alert'') else None)"

lemma mux_forward:
  assumes "ui_mux w ask provider exists r body s = (s', UiForward u)"
  shows "\<exists>target prefix v'. upstream_of (us_config s) (ur_path r) = Some (target, prefix) \<and>
    proxyHandler w target prefix (us_validator s) r = (v', UiForward u)"
proof -
  have "fst (oidcExchangeHandler ask provider (us_config s) (ur_method r) body) \<noteq> UiForward u"
    by (simp add: oidcExchangeHandler_def Let_def split: option.split)
  then show ?thesis
    using assms by (auto simp: ui_mux_def upstream_of_def Let_def map_prod_def split: if_splits prod.splits)
qed

lemma middleware_admits:
  assumes "oidc_Middleware lib now answer v h = (v', Admitted h')"
  shows "\<exists>c. oidc_Validate lib now answer v (bearerFromHeader (or_authorization h)) = (v', Inr c) \<and>
    or_subject h' = cl_Subject c \<and> or_claims h' = Some c \<and> or_authorization h' = or_authorization h"
  using assms by (auto simp: oidc_Middleware_def WithClaims_def Let_def split: if_splits prod.splits sum.splits)

lemma director_frame [simp]:
  "up_target (directorFor target prefix r) = target" "up_operator (directorFor target prefix r) = ur_operator r"
  by (simp_all add: directorFor_def Let_def)

text \<open>
  C30. With OIDC configured nothing reaches an upstream service but the requests of operators: a
  request is forwarded only when the validator accepts its bearer token, it goes to the service its path
  names with the prefix removed, and it carries the operator's own header with the subject of the
  validated claims.
\<close>

theorem ui_forwards_operators:
  assumes "ui_mux w ask provider exists r body s = (s', UiForward u)" "us_validator s = Some v"
  shows "\<exists>v' c prefix. oidc_Validate (uw_lib w) (uw_now w) (uw_keys w) v
        (bearerFromHeader (or_authorization (ur_operator r))) = (v', Inr c) \<and>
    or_authorization (up_operator u) = or_authorization (ur_operator r) \<and>
    or_subject (up_operator u) = cl_Subject c \<and>
    upstream_of (us_config s) (ur_path r) = Some (up_target u, prefix) \<and>
    ur_path r = prefix @ up_path u"
proof -
  obtain target prefix v' where up: "upstream_of (us_config s) (ur_path r) = Some (target, prefix)"
    and p: "proxyHandler w target prefix (Some v) r = (v', UiForward u)"
    using mux_forward [OF assms(1)] assms(2) by auto
  obtain vd h where m: "oidc_Middleware (uw_lib w) (uw_now w) (uw_keys w) v (ur_operator r) = (vd, Admitted h)"
    and u: "u = directorFor target prefix (r\<lparr>ur_operator := h\<rparr>)"
    using p by (auto simp: proxyHandler_def split: prod.splits operator_reply.splits)
  have "\<exists>rest. ur_path r = prefix @ ''/'' @ rest"
    using up by (auto simp: upstream_of_def has_prefix_def split: if_splits) (metis append_Cons append_take_drop_id)+
  then have "ur_path r = prefix @ up_path u"
    unfolding u by (auto simp: directorFor_def trim_prefix_def has_prefix_def Let_def)
  then show ?thesis using middleware_admits [OF m] up unfolding u by auto
qed

section \<open>Operators and API keys\<close>

text \<open>The key stores a service can be started with.\<close>

inductive key_store :: "(string \<Rightarrow> store_answer) \<Rightarrow> bool" where
  stateless: "key_store (\<lambda>k. Aware (stateless_validate blake3 secret k))"
| memory: "key_store (\<lambda>k. Aware (memory_validate st k))"
| postgres: "key_store (\<lambda>k. Aware (snd (pg_validate blake3 argon pg order up now k)))"

lemma no_colon_split: "c \<notin> set s \<Longrightarrow> split_byte c s = [s]" "c \<notin> set s \<Longrightarrow> split_byte2 c s = [s]"
  by (simp_all add: split_byte_id split_byte2_def index_byte_None [THEN iffD2])

lemma no_colon_unknown:
  assumes "key_store validate" "colon \<notin> set k"
  shows "validate k = Aware None"
  using assms
  by (cases rule: key_store.cases) (simp_all add: stateless_validate_def memory_validate_def pg_validate_def
      splitWireKey_def no_colon_split)


section \<open>The public configuration\<close>

text \<open>The answers to a sequence of requests; the identity provider may answer each differently.\<close>

fun config_run :: "ui_config \<Rightarrow> (string \<times> string) list option \<Rightarrow> discovery list \<Rightarrow> (string \<times> string) list list" where
  "config_run cfg cache [] = []"
| "config_run cfg cache (ask # asks) =
     (case configHandler ask cfg cache of (cache', j) \<Rightarrow> j # config_run cfg cache' asks)"

lemma config_cached: "config_run cfg (Some j) asks = replicate (length asks) j"
  by (induction asks) (simp_all add: configHandler_def)

text \<open>
  The first answer of the configuration endpoint is the answer for good: whatever the identity
  provider says later, every request gets the configuration built for the first one. If the discovery
  failed then, the endpoints that are not configured stay empty until the console is restarted.
\<close>

theorem config_sticks:
  "config_run cfg None (ask # asks) = replicate (Suc (length asks)) (buildConfigJSON ask cfg) \<and>
   map_of (buildConfigJSON (\<lambda>_. None) cfg) ''token_endpoint'' = Some (uc_OIDCTokenURL cfg)"
  by (simp add: configHandler_def config_cached buildConfigJSON_def discoverOIDCEndpoints_def Let_def)

section \<open>A concrete request\<close>

definition demo_ui_request :: ui_request where
  "demo_ui_request = \<lparr>ur_method = ''GET'', ur_path = ''/api/alert/v1/alerts'', ur_remote = ''10.0.0.9:5000'',
     ur_forwarded = None, ur_operator = demo_request\<rparr>"

definition demo_ui_world :: "nat ui_world" where
  "demo_ui_world = \<lparr>uw_lib = demo_lib, uw_now = 1, uw_keys = None\<rparr>"

definition demo_ui :: "nat ui_server" where
  "demo_ui = \<lparr>us_config = loadConfig (Map.empty(''OBSERVE_X_OIDC_ISSUER'' \<mapsto> ''i'')), us_validator = Some demo_validator,
     us_cache = None\<rparr>"

lemma demo_forwarded:
  "\<exists>u. proxyHandler demo_ui_world target prefix (Some demo_validator) demo_ui_request = (Some demo_validator, UiForward u)"
  using demo_admitted by (auto simp: proxyHandler_def demo_ui_world_def demo_ui_request_def)

theorem ui_forwards_operators_witness:
  "\<exists>s' u. ui_mux demo_ui_world (\<lambda>_. None) (\<lambda>_. None) (\<lambda>_. False) demo_ui_request None demo_ui = (s', UiForward u) \<and>
     up_target u = ''http://alert-manager:8083'' \<and> up_path u = ''/v1/alerts''"
proof -
  obtain u where u: "proxyHandler demo_ui_world ''http://alert-manager:8083'' ''/api/alert'' (Some demo_validator) demo_ui_request =
      (Some demo_validator, UiForward u)"
    using demo_forwarded by blast
  have c: "uc_AlertManagerURL (us_config demo_ui) = ''http://alert-manager:8083''"
    by (simp add: demo_ui_def loadConfig_def getEnv_def)
  obtain s' where m: "ui_mux demo_ui_world (\<lambda>_. None) (\<lambda>_. None) (\<lambda>_. False) demo_ui_request None demo_ui = (s', UiForward u)"
    using u c by (auto simp: ui_mux_def demo_ui_request_def demo_ui_def has_prefix_def Let_def)
  have "us_validator demo_ui = Some demo_validator" by (simp add: demo_ui_def)
  from ui_forwards_operators [OF m this] obtain prefix where
    "upstream_of (us_config demo_ui) (ur_path demo_ui_request) = Some (up_target u, prefix)"
    "ur_path demo_ui_request = prefix @ up_path u" by blast
  then show ?thesis using m c by (auto simp: upstream_of_def demo_ui_request_def has_prefix_def)
qed


end
