(* ===== verification/Anomaly.thy ===== *)
theory Anomaly
  imports Ingest
begin

text \<open>
  Anomaly scoring: the z-score predictor and the ONNX adapter behind the predictor interface
  (\<open>pkg/mlruntime\<close>), the older detector (\<open>services/ml-anomaly-detector/internal/detector\<close>), and the
  service that feeds a predictor from \<open>POST /v1/observations\<close>. What an inference session answers is a
  parameter; \<open>None\<close> as the result of an operation is a Go panic where the text says so.
\<close>

section \<open>Samples and decisions (\<open>mlruntime.go\<close>)\<close>

record sample =
  sp_tenant :: string
  sp_metric :: string
  sp_value :: f64
  sp_features :: "f64 list option"
  sp_at :: int

definition FeatureVector :: "sample \<Rightarrow> f64 list" where
  "FeatureVector s = (case sp_features s of Some fs \<Rightarrow> fs | None \<Rightarrow> [sp_value s])"

record decision =
  de_anomaly :: bool
  de_score :: f64
  de_baseline :: f64
  de_threshold :: f64

definition fabs :: "f64 \<Rightarrow> f64" where
  "fabs a = (case a of Fin x \<Rightarrow> Fin \<bar>x\<bar> | PInf \<Rightarrow> PInf | NInf \<Rightarrow> PInf | NaN \<Rightarrow> NaN)"

definition series_key :: "string \<Rightarrow> string \<Rightarrow> string" where
  "series_key tenant metric = tenant @ ''::'' @ metric"

section \<open>The z-score predictor (\<open>zscore.go\<close>)\<close>

record zscore_options =
  zo_warmup :: int
  zo_threshold :: f64
  zo_alpha :: f64

definition zscore_defaults :: "zscore_options \<Rightarrow> zscore_options" where
  "zscore_defaults o0 =
     (let o1 = (if zo_warmup o0 \<le> 0 then o0\<lparr>zo_warmup := 50\<rparr> else o0);
          o2 = (if fle (zo_threshold o1) (Fin 0) then o1\<lparr>zo_threshold := Fin 3\<rparr> else o1)
      in if fle (zo_alpha o2) (Fin 0) \<or> flt (Fin 1) (zo_alpha o2) then o2\<lparr>zo_alpha := flit (5 / 100)\<rparr> else o2)"

record zEntry =
  ze_mean :: f64
  ze_vari :: f64
  ze_count :: nat

record zscore =
  zp_opts :: zscore_options
  zp_stats :: "string \<rightharpoonup> zEntry"

definition NewZScorePredictor :: "zscore_options \<Rightarrow> zscore" where
  "NewZScorePredictor o0 = \<lparr>zp_opts = zscore_defaults o0, zp_stats = Map.empty\<rparr>"

definition zentry_update :: "f64 \<Rightarrow> zEntry \<Rightarrow> f64 \<Rightarrow> zEntry" where
  "zentry_update alpha e x =
     (let prev = ze_mean e;
          e1 = (if ze_count e = 0 then e\<lparr>ze_mean := x\<rparr>
                else
                  let diff = fsub x prev
                  in e\<lparr>ze_mean := fadd prev (fmul alpha diff),
                       ze_vari := fmul (fsub (Fin 1) alpha) (fadd (ze_vari e) (fmul (fmul alpha diff) diff))\<rparr>)
      in e1\<lparr>ze_count := (ze_count e1 + 1) mod 2 ^ 64\<rparr>)"

definition zscore_verdict :: "zscore_options \<Rightarrow> zEntry \<Rightarrow> f64 \<Rightarrow> decision" where
  "zscore_verdict opts e x =
     (let std = fsqrt (ze_vari e);
          d = \<lparr>de_anomaly = False, de_score = Fin 0, de_baseline = ze_mean e, de_threshold = zo_threshold opts\<rparr>
      in if ze_count e < nat (zo_warmup opts) \<or> flt std (flit (1 / 10 ^ 9)) then d
         else
           let z = fdiv (fsub x (ze_mean e)) std; d' = d\<lparr>de_score := z\<rparr>
           in if fle (zo_threshold opts) (fabs z) then d'\<lparr>de_anomaly := True\<rparr> else d')"

definition zscore_Observe :: "zscore \<Rightarrow> sample \<Rightarrow> zscore \<times> decision" where
  "zscore_Observe p s =
     (let key = series_key (sp_tenant s) (sp_metric s);
          e = (case zp_stats p key of Some e \<Rightarrow> e | None \<Rightarrow> \<lparr>ze_mean = Fin 0, ze_vari = Fin 0, ze_count = 0\<rparr>);
          e' = zentry_update (zo_alpha (zp_opts p)) e (sp_value s)
      in (p\<lparr>zp_stats := (zp_stats p)(key \<mapsto> e')\<rparr>, zscore_verdict (zp_opts p) e' (sp_value s)))"

definition zscore_SeriesCount :: "zscore \<Rightarrow> nat" where
  "zscore_SeriesCount p = card (dom (zp_stats p))"

section \<open>The detector (\<open>detector.go\<close>)\<close>

record anomaly =
  an_TenantID :: string
  an_Metric :: string
  an_Value :: f64
  an_ZScore :: f64
  an_Mean :: f64
  an_Threshold :: f64
  an_At :: int

record detector_options =
  dt_warmup :: int
  dt_threshold :: f64
  dt_alpha :: f64

definition detector_defaults :: "detector_options \<Rightarrow> detector_options" where
  "detector_defaults o0 =
     (let o1 = (if dt_warmup o0 \<le> 0 then o0\<lparr>dt_warmup := 50\<rparr> else o0);
          o2 = (if fle (dt_threshold o1) (Fin 0) then o1\<lparr>dt_threshold := Fin 3\<rparr> else o1)
      in if fle (dt_alpha o2) (Fin 0) \<or> flt (Fin 1) (dt_alpha o2) then o2\<lparr>dt_alpha := flit (5 / 100)\<rparr> else o2)"

record serieStats =
  ss_mean :: f64
  ss_vari :: f64
  ss_count :: nat

record detector =
  dt_opts :: detector_options
  dt_stats :: "string \<rightharpoonup> serieStats"

definition NewDetector :: "detector_options \<Rightarrow> detector" where
  "NewDetector o0 = \<lparr>dt_opts = detector_defaults o0, dt_stats = Map.empty\<rparr>"

definition detector_Observe :: "detector \<Rightarrow> string \<Rightarrow> string \<Rightarrow> f64 \<Rightarrow> int \<Rightarrow> detector \<times> anomaly option" where
  "detector_Observe d tenant metric x t =
     (let k = series_key tenant metric;
          s = (case dt_stats d k of Some s \<Rightarrow> s | None \<Rightarrow> \<lparr>ss_mean = Fin 0, ss_vari = Fin 0, ss_count = 0\<rparr>);
          prev = ss_mean s;
          diff = fsub x prev;
          alpha = dt_alpha (dt_opts d);
          s' = (if ss_count s = 0 then \<lparr>ss_mean = x, ss_vari = ss_vari s, ss_count = (ss_count s + 1) mod 2 ^ 64\<rparr>
                else \<lparr>ss_mean = fadd prev (fmul alpha diff),
                      ss_vari = fmul (fsub (Fin 1) alpha) (fadd (ss_vari s) (fmul (fmul alpha diff) diff)),
                      ss_count = (ss_count s + 1) mod 2 ^ 64\<rparr>);
          d' = d\<lparr>dt_stats := (dt_stats d)(k \<mapsto> s')\<rparr>;
          std = fsqrt (ss_vari s')
      in if ss_count s' < nat (dt_warmup (dt_opts d)) then (d', None)
         else if flt std (flit (1 / 10 ^ 9)) then (d', None)
         else
           let z = fdiv (fsub x (ss_mean s')) std
           in if flt (fabs z) (dt_threshold (dt_opts d)) then (d', None)
              else (d', Some \<lparr>an_TenantID = tenant, an_Metric = metric, an_Value = x, an_ZScore = z,
                     an_Mean = ss_mean s', an_Threshold = dt_threshold (dt_opts d), an_At = t\<rparr>))"

definition detector_SeriesCount :: "detector \<Rightarrow> nat" where
  "detector_SeriesCount d = card (dom (dt_stats d))"

section \<open>The ONNX adapter (\<open>onnx_runtime.go\<close>, \<open>onnx_stub.go\<close>)\<close>

text \<open>\<open>float32(x)\<close>, as the value it has.\<close>

definition to_f32 :: "f64 \<Rightarrow> f64" where
  "to_f32 a =
     (case a of
        Fin x \<Rightarrow>
          if x = 0 then Fin 0
          else
            let e = max (- 149) (flog2 \<bar>x\<bar> - 23);
                y = of_int (round_half_even (\<bar>x\<bar> / 2 powi e)) * 2 powi e
            in if 2 ^ 128 \<le> y then (if 0 < x then PInf else NInf) else Fin (sgn x * y)
      | _ \<Rightarrow> a)"

record onnx_options =
  oo_path :: string
  oo_input :: string
  oo_features :: int
  oo_output :: int
  oo_threshold :: f64

record onnx =
  ox_opts :: onnx_options
  ox_open :: bool

datatype predictor_error = OnnxUnsupported | OnnxPathRequired | OnnxSetup | OnnxRun | UnknownModel

text \<open>\<open>tagged\<close>: the build has the \<open>onnx\<close> tag; \<open>ready\<close>: the file and the native library are usable.\<close>

definition NewOnnxPredictor :: "bool \<Rightarrow> (onnx_options \<Rightarrow> bool) \<Rightarrow> onnx_options \<Rightarrow> predictor_error + onnx" where
  "NewOnnxPredictor tagged ready opts =
     (if \<not> tagged then Inl OnnxUnsupported
      else if oo_path opts = [] then Inl OnnxPathRequired
      else
        let o1 = (if oo_input opts = [] then opts\<lparr>oo_input := ''float_input''\<rparr> else opts);
            o2 = (if oo_features o1 \<le> 0 then o1\<lparr>oo_features := 1\<rparr> else o1)
        in if ready o2 then Inr \<lparr>ox_opts = o2, ox_open = True\<rparr> else Inl OnnxSetup)"

definition onnx_input :: "nat \<Rightarrow> f64 list \<Rightarrow> f64 list" where
  "onnx_input width feats = map (\<lambda>i. if i < length feats then to_f32 (feats ! i) else Fin 0) [0..<width]"

text \<open>\<open>run\<close> is the session: the output tensor for an input, or an error. The tensor has one element; after
  \<open>Close\<close> the tensors are gone and the call panics.\<close>

definition onnx_Observe :: "(f64 list \<Rightarrow> f64 option) \<Rightarrow> onnx \<Rightarrow> sample \<Rightarrow> (predictor_error + decision) option" where
  "onnx_Observe run p s =
     (if \<not> ox_open p then None
      else Some (case run (onnx_input (nat (oo_features (ox_opts p))) (FeatureVector s)) of
        None \<Rightarrow> Inl OnnxRun
      | Some y \<Rightarrow>
          let outs = [y]; idx = oo_output (ox_opts p);
              i = (if idx < 0 \<or> int (length outs) \<le> idx then 0 else idx); score = outs ! nat i
          in Inr \<lparr>de_anomaly = fle (oo_threshold (ox_opts p)) score, de_score = score, de_baseline = Fin 0,
                  de_threshold = oo_threshold (ox_opts p)\<rparr>))"

definition onnx_Close :: "onnx \<Rightarrow> onnx" where
  "onnx_Close p = p\<lparr>ox_open := False\<rparr>"

section \<open>The predictor interface and its counters\<close>

datatype predictor = ZScore zscore | Onnx onnx

definition predictor_Name :: "predictor \<Rightarrow> string" where
  "predictor_Name p = (case p of ZScore _ \<Rightarrow> ''zscore-ewma'' | Onnx q \<Rightarrow> ''onnx:'' @ oo_path (ox_opts q))"

definition predictor_Observe ::
  "(f64 list \<Rightarrow> f64 option) \<Rightarrow> predictor \<Rightarrow> sample \<Rightarrow> (predictor \<times> (predictor_error + decision)) option" where
  "predictor_Observe run p s =
     (case p of
        ZScore z \<Rightarrow> (case zscore_Observe z s of (z', d) \<Rightarrow> Some (ZScore z', Inr d))
      | Onnx q \<Rightarrow> map_option (\<lambda>r. (p, r)) (onnx_Observe run q s))"

record instrumented =
  in_inner :: predictor
  in_samples :: nat
  in_anomalies :: nat
  in_errors :: nat

definition WithCounters :: "predictor \<Rightarrow> instrumented" where
  "WithCounters p = \<lparr>in_inner = p, in_samples = 0, in_anomalies = 0, in_errors = 0\<rparr>"

definition instrumented_Observe ::
  "(f64 list \<Rightarrow> f64 option) \<Rightarrow> instrumented \<Rightarrow> sample \<Rightarrow> (instrumented \<times> (predictor_error + decision)) option" where
  "instrumented_Observe run i s =
     (let i1 = i\<lparr>in_samples := in_samples i + 1\<rparr>
      in case predictor_Observe run (in_inner i1) s of
           None \<Rightarrow> None
         | Some (p, Inl e) \<Rightarrow> Some (i1\<lparr>in_inner := p, in_errors := in_errors i1 + 1\<rparr>, Inl e)
         | Some (p, Inr d) \<Rightarrow>
             Some (i1\<lparr>in_inner := p, in_anomalies := in_anomalies i1 + (if de_anomaly d then 1 else 0)\<rparr>, Inr d))"

section \<open>The service (\<open>cmd/main.go\<close>)\<close>

definition buildPredictor ::
  "bool \<Rightarrow> (onnx_options \<Rightarrow> bool) \<Rightarrow> env_vars \<Rightarrow> predictor_error + predictor" where
  "buildPredictor tagged ready env =
     (let model = getEnv env ''OBSERVE_X_ML_MODEL'' []
      in if model = [] \<or> model = ''zscore'' then
           Inr (ZScore (NewZScorePredictor
             \<lparr>zo_warmup = envInt env ''OBSERVE_X_ANOMALY_WARMUP'' 50,
              zo_threshold = envFloat env ''OBSERVE_X_ANOMALY_Z'' (Fin 3),
              zo_alpha = envFloat env ''OBSERVE_X_ANOMALY_ALPHA'' (flit (5 / 100))\<rparr>))
         else if model = ''onnx'' then
           map_sum id Onnx (NewOnnxPredictor tagged ready
             \<lparr>oo_path = getEnv env ''OBSERVE_X_ML_MODEL_PATH'' [],
              oo_input = getEnv env ''OBSERVE_X_ML_INPUT_NAME'' ''float_input'',
              oo_features = envInt env ''OBSERVE_X_ML_INPUT_FEATURES'' 1, oo_output = 0,
              oo_threshold = envFloat env ''OBSERVE_X_ML_SCORE_THRESHOLD'' (flit (1 / 2))\<rparr>)
         else Inl UnknownModel)"

record observation =
  ob_tenant :: string
  ob_metric :: string
  ob_value :: f64
  ob_features :: "f64 list option"
  ob_timestamp :: "int option"

datatype observation_reply = ObBadRequest | ObFailed | ObNone | ObAnomaly string string f64 decision string int

record anomaly_service =
  as_predictor :: instrumented
  as_observed :: nat
  as_fired :: "string \<Rightarrow> nat"

definition new_service :: "predictor \<Rightarrow> anomaly_service" where
  "new_service p = \<lparr>as_predictor = WithCounters p, as_observed = 0, as_fired = (\<lambda>_. 0)\<rparr>"

text \<open>\<open>POST /v1/observations\<close>. The body is \<open>None\<close> when it does not bind; its timestamp is \<open>None\<close> when it is
  absent or does not parse. A panic of the predictor is recovered by the router and answered with 500. An
  anomaly is the document handed to the JSON renderer, which cannot print a score that is not finite.\<close>

definition observations ::
  "(f64 list \<Rightarrow> f64 option) \<Rightarrow> int \<Rightarrow> anomaly_service \<Rightarrow> observation option \<Rightarrow> anomaly_service \<times> observation_reply" where
  "observations run now sv body =
     (case body of
        None \<Rightarrow> (sv, ObBadRequest)
      | Some r \<Rightarrow>
          if ob_tenant r = [] \<or> ob_metric r = [] then (sv, ObBadRequest)
          else
            let t = (case ob_timestamp r of Some t \<Rightarrow> t | None \<Rightarrow> now);
                sv1 = sv\<lparr>as_observed := as_observed sv + 1\<rparr>;
                s = \<lparr>sp_tenant = ob_tenant r, sp_metric = ob_metric r, sp_value = ob_value r,
                     sp_features = ob_features r, sp_at = t\<rparr>
            in case instrumented_Observe run (as_predictor sv1) s of
                 None \<Rightarrow> (sv1\<lparr>as_predictor := (as_predictor sv1)\<lparr>in_samples := in_samples (as_predictor sv1) + 1\<rparr>\<rparr>, ObFailed)
               | Some (i, Inl e) \<Rightarrow> (sv1\<lparr>as_predictor := i\<rparr>, ObFailed)
               | Some (i, Inr d) \<Rightarrow>
                   if de_anomaly d then
                     (sv1\<lparr>as_predictor := i, as_fired := (as_fired sv1)(ob_tenant r := as_fired sv1 (ob_tenant r) + 1)\<rparr>,
                      ObAnomaly (ob_tenant r) (ob_metric r) (ob_value r) d (predictor_Name (in_inner i)) t)
                   else (sv1\<lparr>as_predictor := i\<rparr>, ObNone))"

end
