(* ===== verification/AnomalyProps.thy ===== *)
theory AnomalyProps
  imports Anomaly
begin

text \<open>
  Properties of anomaly scoring: the predictor against the detector it replaces, what series keep from
  each other, the configurations and the samples under which nothing is ever reported, and the
  counters.
\<close>

section \<open>Runs\<close>

fun zscore_run :: "zscore \<Rightarrow> sample list \<Rightarrow> decision list" where
  "zscore_run p [] = []"
| "zscore_run p (s # ss) = (case zscore_Observe p s of (p', d) \<Rightarrow> d # zscore_run p' ss)"

fun detector_run :: "detector \<Rightarrow> sample list \<Rightarrow> anomaly option list" where
  "detector_run d [] = []"
| "detector_run d (s # ss) =
     (case detector_Observe d (sp_tenant s) (sp_metric s) (sp_value s) (sp_at s) of (d', a) \<Rightarrow> a # detector_run d' ss)"

fun service_run ::
  "(f64 list \<Rightarrow> f64 option) \<Rightarrow> anomaly_service \<Rightarrow> (int \<times> observation option) list \<Rightarrow> anomaly_service \<times> observation_reply list" where
  "service_run run sv [] = (sv, [])"
| "service_run run sv ((now, b) # bs) =
     (case observations run now sv b of (sv', r) \<Rightarrow> (case service_run run sv' bs of (sv'', rs) \<Rightarrow> (sv'', r # rs)))"

section \<open>The predictor and the detector\<close>

definition to_detector_options :: "zscore_options \<Rightarrow> detector_options" where
  "to_detector_options o0 = \<lparr>dt_warmup = zo_warmup o0, dt_threshold = zo_threshold o0, dt_alpha = zo_alpha o0\<rparr>"

definition to_serie :: "zEntry \<Rightarrow> serieStats" where
  "to_serie e = \<lparr>ss_mean = ze_mean e, ss_vari = ze_vari e, ss_count = ze_count e\<rparr>"

definition to_detector :: "zscore \<Rightarrow> detector" where
  "to_detector p = \<lparr>dt_opts = to_detector_options (zp_opts p), dt_stats = map_option to_serie \<circ> zp_stats p\<rparr>"

lemma to_serie_sel [simp]:
  "ss_mean (to_serie e) = ze_mean e" "ss_vari (to_serie e) = ze_vari e" "ss_count (to_serie e) = ze_count e"
  by (simp_all add: to_serie_def)

lemma defaults_correspond: "detector_defaults (to_detector_options o0) = to_detector_options (zscore_defaults o0)"
  by (simp add: detector_defaults_def zscore_defaults_def to_detector_options_def Let_def)

lemma detector_state:
  "fst (detector_Observe (to_detector p) (sp_tenant s) (sp_metric s) (sp_value s) t) = to_detector (fst (zscore_Observe p s))"
  by (auto simp: detector_Observe_def zscore_Observe_def to_detector_def zentry_update_def to_serie_def
      to_detector_options_def Let_def fun_eq_iff split: option.split)

lemma fabs_NaN [simp]: "fabs a = NaN \<longleftrightarrow> a = NaN"
  by (cases a) (simp_all add: fabs_def)

lemma not_flt_fle: "a \<noteq> NaN \<Longrightarrow> b \<noteq> NaN \<Longrightarrow> \<not> flt a b \<longleftrightarrow> fle b a"
  using fle_total fle_not_flt flt_not_fle by blast

text \<open>How the two verdicts on a sample compare.\<close>

definition verdicts_agree :: "decision \<Rightarrow> anomaly option \<Rightarrow> bool" where
  "verdicts_agree d a \<longleftrightarrow>
     (if de_score d = NaN then \<not> de_anomaly d \<and> a \<noteq> None
      else case a of
        None \<Rightarrow> \<not> de_anomaly d
      | Some x \<Rightarrow> de_anomaly d \<and> an_ZScore x = de_score d \<and> an_Mean x = de_baseline d \<and> an_Threshold x = de_threshold d)"

lemma detector_verdict:
  assumes "zo_threshold (zp_opts p) \<noteq> NaN"
  shows "verdicts_agree (snd (zscore_Observe p s))
    (snd (detector_Observe (to_detector p) (sp_tenant s) (sp_metric s) (sp_value s) t))"
proof -
  obtain e' where e': "snd (zscore_Observe p s) = zscore_verdict (zp_opts p) e' (sp_value s)"
    "dt_stats (to_detector (fst (zscore_Observe p s))) (series_key (sp_tenant s) (sp_metric s)) = Some (to_serie e')"
    by (simp add: zscore_Observe_def to_detector_def Let_def)
  define d where "d = detector_Observe (to_detector p) (sp_tenant s) (sp_metric s) (sp_value s) t"
  have st: "dt_stats (fst d) (series_key (sp_tenant s) (sp_metric s)) = Some (to_serie e')"
    unfolding d_def detector_state by (rule e'(2))
  let ?std = "fsqrt (ze_vari e')" let ?z = "fdiv (fsub (sp_value s) (ze_mean e')) ?std"
  have d: "snd d = (if ze_count e' < nat (zo_warmup (zp_opts p)) \<or> flt ?std (flit (1 / 10 ^ 9)) \<or>
        flt (fabs ?z) (zo_threshold (zp_opts p)) then None
      else Some \<lparr>an_TenantID = sp_tenant s, an_Metric = sp_metric s, an_Value = sp_value s, an_ZScore = ?z,
        an_Mean = ze_mean e', an_Threshold = zo_threshold (zp_opts p), an_At = t\<rparr>)"
    using st unfolding d_def detector_Observe_def
    by (auto simp: Let_def to_detector_def to_detector_options_def to_serie_def split: if_splits)
  show ?thesis
  proof (cases "?z = NaN")
    case True
    then show ?thesis unfolding e'(1) d [unfolded d_def] verdicts_agree_def zscore_verdict_def Let_def
      by (simp add: fabs_def)
  next
    case False
    have "\<not> flt (fabs ?z) (zo_threshold (zp_opts p)) \<longleftrightarrow> fle (zo_threshold (zp_opts p)) (fabs ?z)"
      by (rule not_flt_fle) (simp_all add: False assms)
    then show ?thesis unfolding e'(1) d [unfolded d_def] verdicts_agree_def zscore_verdict_def Let_def
      using False by simp
  qed
qed

lemma zscore_opts [simp]: "zp_opts (fst (zscore_Observe p s)) = zp_opts p"
  by (simp add: zscore_Observe_def Let_def)

lemma runs_agree:
  "zo_threshold (zp_opts p) \<noteq> NaN \<Longrightarrow> list_all2 verdicts_agree (zscore_run p ss) (detector_run (to_detector p) ss)"
proof (induction ss arbitrary: p)
  case (Cons s ss)
  obtain p' d where z: "zscore_Observe p s = (p', d)" by (cases "zscore_Observe p s")
  obtain q a where q: "detector_Observe (to_detector p) (sp_tenant s) (sp_metric s) (sp_value s) (sp_at s) = (q, a)"
    by (cases "detector_Observe (to_detector p) (sp_tenant s) (sp_metric s) (sp_value s) (sp_at s)")
  have "q = to_detector p'" using detector_state [of p s "sp_at s"] by (simp add: z q)
  moreover have "zp_opts p' = zp_opts p" using zscore_opts [of p s] by (simp add: z)
  ultimately show ?case using Cons detector_verdict [OF Cons.prems, of s "sp_at s"] by (simp add: z q)
qed simp

text \<open>
  C27. The predictor is the detector it replaces, but for undefined scores: started with the same
  options and fed the same samples, the two report the same samples with the same score, baseline and
  threshold, as long as the score is a number. Where it is not, the detector reports every sample past
  its warm-up and the predictor none.
\<close>

theorem predictor_equals_detector:
  assumes "zo_threshold o0 \<noteq> NaN"
  shows "list_all2 verdicts_agree (zscore_run (NewZScorePredictor o0) ss)
    (detector_run (NewDetector (to_detector_options o0)) ss)"
proof -
  have "to_detector (NewZScorePredictor o0) = NewDetector (to_detector_options o0)"
    by (simp add: NewZScorePredictor_def NewDetector_def to_detector_def defaults_correspond fun_eq_iff)
  moreover have "zo_threshold (zp_opts (NewZScorePredictor o0)) \<noteq> NaN"
    using assms by (simp add: NewZScorePredictor_def zscore_defaults_def Let_def)
  ultimately show ?thesis using runs_agree [of "NewZScorePredictor o0" ss] by simp
qed

section \<open>What series keep from each other\<close>

lemma series_key_inject:
  assumes "CHR '':'' \<notin> set t" "CHR '':'' \<notin> set t'"
  shows "series_key t m = series_key t' m' \<longleftrightarrow> t = t' \<and> m = m'"
proof
  assume k: "series_key t m = series_key t' m'"
  have tw: "takeWhile (\<lambda>c. c \<noteq> CHR '':'') (series_key u n) = u" if "CHR '':'' \<notin> set u" for u n
    unfolding series_key_def using that by (subst takeWhile_append2) auto
  have "t = t'" using tw [OF assms(1), of m] tw [OF assms(2), of m'] k by simp
  then show "t = t' \<and> m = m'" using k by (simp add: series_key_def)
qed simp

lemma other_series:
  "key \<noteq> series_key (sp_tenant s) (sp_metric s) \<Longrightarrow> zp_stats (fst (zscore_Observe p s)) key = zp_stats p key"
  by (simp add: zscore_Observe_def Let_def)

lemma same_series:
  "zp_stats p (series_key (sp_tenant s) (sp_metric s)) = zp_stats q (series_key (sp_tenant s) (sp_metric s)) \<Longrightarrow>
   zp_opts p = zp_opts q \<Longrightarrow>
   snd (zscore_Observe p s) = snd (zscore_Observe q s) \<and>
   zp_stats (fst (zscore_Observe p s)) (series_key (sp_tenant s) (sp_metric s)) =
     zp_stats (fst (zscore_Observe q s)) (series_key (sp_tenant s) (sp_metric s))"
  by (simp add: zscore_Observe_def Let_def)

text \<open>The decisions on the samples of a tenant, in a run.\<close>

definition tenant_decisions :: "string \<Rightarrow> zscore \<Rightarrow> sample list \<Rightarrow> decision list" where
  "tenant_decisions t p ss = map snd (filter (\<lambda>(s, d). sp_tenant s = t) (zip ss (zscore_run p ss)))"

lemma tenant_decisions_simps [simp]:
  "tenant_decisions t p [] = []"
  "tenant_decisions t p (s # ss) =
     (if sp_tenant s = t then snd (zscore_Observe p s) # tenant_decisions t (fst (zscore_Observe p s)) ss
      else tenant_decisions t (fst (zscore_Observe p s)) ss)"
  by (simp_all add: tenant_decisions_def split: prod.splits)

lemma tenant_isolated:
  assumes "\<And>m. zp_stats p (series_key t m) = zp_stats q (series_key t m)" "zp_opts p = zp_opts q"
    "CHR '':'' \<notin> set t" "\<And>s. s \<in> set ss \<Longrightarrow> CHR '':'' \<notin> set (sp_tenant s)"
  shows "tenant_decisions t p ss = zscore_run q (filter (\<lambda>s. sp_tenant s = t) ss)"
  using assms
proof (induction ss arbitrary: p q)
  case (Cons s ss)
  let ?p = "fst (zscore_Observe p s)" let ?q = "fst (zscore_Observe q s)"
  have nc: "CHR '':'' \<notin> set (sp_tenant s)" using Cons.prems by simp
  show ?case
  proof (cases "sp_tenant s = t")
    case True
    have same: "snd (zscore_Observe p s) = snd (zscore_Observe q s)"
      "zp_stats ?p (series_key t (sp_metric s)) = zp_stats ?q (series_key t (sp_metric s))"
      using same_series [of p s q] Cons.prems(1,2) True by auto
    have "zp_stats ?p (series_key t m) = zp_stats ?q (series_key t m)" for m
    proof (cases "m = sp_metric s")
      case False
      then have "series_key t m \<noteq> series_key (sp_tenant s) (sp_metric s)"
        using series_key_inject [OF Cons.prems(3) nc] True by simp
      then show ?thesis using Cons.prems(1) other_series by simp
    qed (simp add: same)
    then have "tenant_decisions t ?p ss = zscore_run ?q (filter (\<lambda>s. sp_tenant s = t) ss)"
      using Cons by (intro Cons.IH) auto
    then show ?thesis using True same by (simp split: prod.splits)
  next
    case False
    have "zp_stats ?p (series_key t m) = zp_stats q (series_key t m)" for m
      using other_series series_key_inject [OF Cons.prems(3) nc] False Cons.prems(1) by simp
    then have "tenant_decisions t ?p ss = zscore_run q (filter (\<lambda>s. sp_tenant s = t) ss)"
      using Cons by (intro Cons.IH) auto
    then show ?thesis using False by simp
  qed
qed simp

text \<open>
  Tenants do not influence each other's scores as long as no tenant id has a colon: the decisions
  on the samples of a tenant, in a run with samples of any tenants, are those of a run with its own
  samples alone.
\<close>

theorem scores_isolated:
  assumes "CHR '':'' \<notin> set t" "\<forall>s \<in> set ss. CHR '':'' \<notin> set (sp_tenant s)"
  shows "tenant_decisions t (NewZScorePredictor o0) ss =
    zscore_run (NewZScorePredictor o0) (filter (\<lambda>s. sp_tenant s = t) ss)"
  using assms by (intro tenant_isolated) auto

section \<open>Series that are never reported\<close>

text \<open>A property of the entry of a series that its samples preserve, and under which nothing is reported,
  holds through a run of the service.\<close>

definition series_of :: "observation \<Rightarrow> string" where
  "series_of r = series_key (ob_tenant r) (ob_metric r)"

definition silent :: "observation_reply \<Rightarrow> bool" where
  "silent r \<longleftrightarrow> r \<in> {ObBadRequest, ObNone}"

lemma observations_zscore:
  assumes "in_inner (as_predictor sv) = ZScore p"
  shows "\<exists>q. in_inner (as_predictor (fst (observations run now sv (Some r)))) = ZScore q \<and> zp_opts q = zp_opts p \<and>
    (if ob_tenant r = [] \<or> ob_metric r = [] then q = p \<and> snd (observations run now sv (Some r)) = ObBadRequest
     else
       let e = (case zp_stats p (series_of r) of Some e \<Rightarrow> e | None \<Rightarrow> \<lparr>ze_mean = Fin 0, ze_vari = Fin 0, ze_count = 0\<rparr>);
           e' = zentry_update (zo_alpha (zp_opts p)) e (ob_value r)
       in zp_stats q = (zp_stats p)(series_of r \<mapsto> e') \<and>
          (silent (snd (observations run now sv (Some r))) \<longleftrightarrow> \<not> de_anomaly (zscore_verdict (zp_opts p) e' (ob_value r))))"
  using assms
  by (simp add: observations_def instrumented_Observe_def predictor_Observe_def zscore_Observe_def series_of_def silent_def Let_def)

lemma series_step:
  assumes "in_inner (as_predictor sv) = ZScore p" "ob_tenant r \<noteq> []" "ob_metric r \<noteq> []"
    "observations run now sv (Some r) = (sv', a)"
  shows "\<exists>q. in_inner (as_predictor sv') = ZScore q \<and> zp_opts q = zp_opts p \<and>
    zp_stats q (series_of r) = Some (zentry_update (zo_alpha (zp_opts p))
      (case zp_stats p (series_of r) of Some e \<Rightarrow> e | None \<Rightarrow> \<lparr>ze_mean = Fin 0, ze_vari = Fin 0, ze_count = 0\<rparr>) (ob_value r))"
  using observations_zscore [OF assms(1), of run now r, unfolded assms(4) Let_def] assms(2,3) by auto

lemma service_silent:
  assumes "in_inner (as_predictor sv) = ZScore p" "P (zp_stats p key)" "zp_opts p = opts"
    "\<And>e x. P e \<Longrightarrow>
      let e' = zentry_update (zo_alpha opts) (case e of Some e \<Rightarrow> e | None \<Rightarrow> \<lparr>ze_mean = Fin 0, ze_vari = Fin 0, ze_count = 0\<rparr>) x
      in P (Some e') \<and> \<not> de_anomaly (zscore_verdict opts e' x)"
  shows "\<forall>(b, r) \<in> set (zip (map snd bs) (snd (service_run run sv bs))).
    case b of Some o1 \<Rightarrow> series_of o1 = key \<longrightarrow> silent r | None \<Rightarrow> silent r"
  using assms(1-3)
proof (induction bs arbitrary: sv p)
  case (Cons nb bs)
  obtain now b where nb: "nb = (now, b)" by (cases nb)
  obtain sv' r where o1: "observations run now sv b = (sv', r)" by (cases "observations run now sv b")
  obtain sv'' rs where rs: "service_run run sv' bs = (sv'', rs)" by (cases "service_run run sv' bs")
  have "\<exists>q. in_inner (as_predictor sv') = ZScore q \<and> zp_opts q = opts \<and> P (zp_stats q key) \<and>
    (case b of Some o1 \<Rightarrow> series_of o1 = key \<longrightarrow> silent r | None \<Rightarrow> silent r)"
  proof (cases b)
    case None
    then show ?thesis using o1 Cons.prems by (simp add: observations_def silent_def)
  next
    case (Some x)
    let ?e = "case zp_stats p (series_of x) of Some e \<Rightarrow> e | None \<Rightarrow> \<lparr>ze_mean = Fin 0, ze_vari = Fin 0, ze_count = 0\<rparr>"
    let ?e' = "zentry_update (zo_alpha (zp_opts p)) ?e (ob_value x)"
    obtain q where q: "in_inner (as_predictor sv') = ZScore q" "zp_opts q = zp_opts p"
      and alt: "if ob_tenant x = [] \<or> ob_metric x = [] then q = p \<and> r = ObBadRequest
        else zp_stats q = (zp_stats p)(series_of x \<mapsto> ?e') \<and>
          (silent r \<longleftrightarrow> \<not> de_anomaly (zscore_verdict (zp_opts p) ?e' (ob_value x)))"
      using observations_zscore [OF Cons.prems(1), of run now x, unfolded o1 [unfolded Some] fst_conv snd_conv Let_def]
      by blast
    have k: "P (Some ?e') \<and> \<not> de_anomaly (zscore_verdict (zp_opts p) ?e' (ob_value x))" if "series_of x = key"
      using assms(4) [of "zp_stats p key" "ob_value x"] Cons.prems that by (simp add: Let_def)
    show ?thesis
    proof (cases "ob_tenant x = [] \<or> ob_metric x = []")
      case True
      then show ?thesis using alt q Some Cons.prems by (auto simp: silent_def)
    next
      case False
      then show ?thesis using alt q Some Cons.prems k by (cases "series_of x = key") auto
    qed
  qed
  then obtain q where q: "in_inner (as_predictor sv') = ZScore q" "P (zp_stats q key)" "zp_opts q = opts"
    and r: "case b of Some o1 \<Rightarrow> series_of o1 = key \<longrightarrow> silent r | None \<Rightarrow> silent r" by blast
  have "\<forall>(b, r) \<in> set (zip (map snd bs) rs). case b of Some o1 \<Rightarrow> series_of o1 = key \<longrightarrow> silent r | None \<Rightarrow> silent r"
    using Cons.IH [OF q] by (simp add: rs)
  then show ?case using r by (simp add: nb o1 rs)
qed simp

lemma verdict_NaN:
  "fdiv (fsub x (ze_mean e)) (fsqrt (ze_vari e)) = NaN \<Longrightarrow> \<not> de_anomaly (zscore_verdict opts e x)"
  unfolding zscore_verdict_def Let_def by (simp add: fabs_def)

lemma fsqrt_simps [simp]: "fsqrt NaN = NaN" "fsqrt PInf = PInf" "fsqrt (Fin 0) = Fin 0"
  by (simp_all add: fsqrt_def)

text \<open>The two values: the largest finite number and its negative.\<close>

definition huge :: f64 where
  "huge = Fin (2 ^ 1024 - 2 ^ 971)"

lemma fround_below:
  assumes "2 ^ 1024 \<le> x"
  shows "fround (- x) = NInf"
proof -
  have pos: "(0::rat) < 2 ^ 1024" by (rule zero_less_power) simp
  have top: "rounded (2 ^ 1024) = 2 ^ 1024"
  proof -
    have p: "(2::rat) ^ 1024 = 2 powi 1024" by (simp only: power_int_numeral)
    have "(2::rat) powi 1024 < 2 powi (1024 + 1)" by (rule power_int_strict_increasing) simp_all
    then have f: "flog2 (2 ^ 1024) = 1024"
      unfolding p by (intro flog2_unique) (simp_all only: zero_less_power_int zero_less_numeral order_refl)
    have "(2::rat) powi 1024 / 2 powi 972 = 2 powi (1024 - 972)" by (rule power_int_diff [symmetric]) simp
    also have "\<dots> = of_int (2 ^ 52)" by simp
    finally have q: "(2::rat) powi 1024 / 2 powi 972 = of_int (2 ^ 52)" .
    have m: "max (- 1074) (1024 - 52 :: int) = 972" by simp
    have "of_int (2 ^ 52) * 2 powi 972 = (2::rat) powi 52 * 2 powi 972" by simp
    also have "\<dots> = 2 powi (52 + 972)" by (rule power_int_add [symmetric]) simp
    also have "\<dots> = 2 powi 1024" by (simp only: arith_simps)
    finally have "of_int (2 ^ 52) * 2 powi 972 = (2::rat) powi 1024" .
    then show ?thesis unfolding rounded_def f Let_def m unfolding p q round_half_even_int .
  qed
  have "x > 0" using assms pos by (rule less_le_trans [rotated])
  moreover have "max_finite_bound \<le> rounded x"
    using rounded_mono [OF pos assms] top by (simp only: max_finite_bound_def)
  ultimately show ?thesis by (simp add: fround_def rounded_def Let_def)
qed

lemma huge_overflow: "fsub (fneg huge) huge = NInf"
proof -
  have "(2::rat) ^ 972 \<le> 2 ^ 1024" by (rule power_increasing) simp_all
  moreover have "2 ^ 1025 = (2::rat) * 2 ^ 1024" "2 ^ 972 = (2::rat) * 2 ^ 971"
    by (simp_all only: power_Suc [symmetric] Suc_numeral arith_simps)
  ultimately have "(2::rat) ^ 1024 \<le> 2 * 2 ^ 1024 - 2 * 2 ^ 971" by linarith
  from fround_below [OF this] have "fround (- (2 * 2 ^ 1024 - 2 * 2 ^ 971)) = NInf" .
  moreover have "- (a - b) + - (a - b) = - (2 * a - 2 * b)" for a b :: rat by simp
  ultimately show ?thesis by (simp only: fsub_def fneg_def huge_def f64.case fadd.simps)
qed

text \<open>The entry of a series that has seen the two values: after them its mean is infinite, then undefined,
  and its variance infinite, then undefined for good.\<close>

definition poisoned :: "zEntry option \<Rightarrow> bool" where
  "poisoned e \<longleftrightarrow> (case e of
     None \<Rightarrow> False
   | Some e \<Rightarrow> ze_vari e = NaN \<or> (ze_count e = 2 \<and> ze_mean e = NInf \<and> ze_vari e = PInf) \<or>
       (ze_count e = 3 \<and> ze_mean e = NaN))"

lemma alpha_defaults:
  "zo_alpha (zscore_defaults o0) =
     (if fle (zo_alpha o0) (Fin 0) \<or> flt (Fin 1) (zo_alpha o0) then flit (5 / 100) else zo_alpha o0)"
  by (simp add: zscore_defaults_def Let_def)

lemma alpha_default:
  "zo_alpha (zscore_defaults o0) = NaN \<or> (\<exists>a. zo_alpha (zscore_defaults o0) = Fin a \<and> 0 < a \<and> a \<le> 1)"
proof -
  have "\<exists>a. flit (5 / 100) = Fin a \<and> 0 < a \<and> a \<le> 1"
    by (rule exI [of _ "3602879701896397 / 72057594037927936"]) code_simp
  then show ?thesis
    unfolding alpha_defaults by (cases "zo_alpha o0") (auto simp: fle_def)
qed

lemma finf_simps [simp]: "0 < a \<Longrightarrow> finf a = PInf" "a < 0 \<Longrightarrow> finf a = NInf" "finf 0 = NaN"
  by (simp_all add: finf_def)

lemma fadd_NaN_left [simp]: "fadd NaN b = NaN" "fmul NaN b = NaN" "fdiv NaN b = NaN"
  by (cases b; simp)+

lemma zentry_sel:
  "ze_count (zentry_update alpha e x) = (ze_count e + 1) mod 2 ^ 64"
  "ze_mean (zentry_update alpha e x) =
     (if ze_count e = 0 then x else fadd (ze_mean e) (fmul alpha (fsub x (ze_mean e))))"
  "ze_vari (zentry_update alpha e x) =
     (if ze_count e = 0 then ze_vari e
      else fmul (fsub (Fin 1) alpha) (fadd (ze_vari e) (fmul (fmul alpha (fsub x (ze_mean e))) (fsub x (ze_mean e)))))"
  by (simp_all add: zentry_update_def Let_def)

lemma poisoned_stays:
  assumes "alpha = NaN \<or> (\<exists>a. alpha = Fin a \<and> 0 < a \<and> a \<le> 1)" "poisoned (Some e)"
  shows "poisoned (Some (zentry_update alpha e x))"
    "\<not> de_anomaly (zscore_verdict opts (zentry_update alpha e x) x)"
proof -
  let ?e = "zentry_update alpha e x"
  have c: "ze_vari ?e = NaN \<or> (ze_count ?e = 3 \<and> ze_mean ?e = NaN)"
  proof -
    consider "ze_vari e = NaN" | "ze_count e = 2" "ze_mean e = NInf" "ze_vari e = PInf" | "ze_count e = 3" "ze_mean e = NaN"
      using assms(2) by (auto simp: poisoned_def)
    then show ?thesis
    proof cases
      case 2
      have "fsub x NInf = NaN \<or> fsub x NInf = PInf" by (cases x) (simp_all add: fsub_def fneg_def)
      then have "ze_mean ?e = NaN" using assms(1) 2 by (auto simp: zentry_sel)
      then show ?thesis using 2 by (simp add: zentry_sel)
    qed (simp_all add: zentry_sel)
  qed
  then show "poisoned (Some ?e)" by (auto simp: poisoned_def)
  have "fdiv (fsub x (ze_mean ?e)) (fsqrt (ze_vari ?e)) = NaN" using c by auto
  then show "\<not> de_anomaly (zscore_verdict opts ?e x)" by (rule verdict_NaN)
qed

lemma rounded_nonneg: "0 < x \<Longrightarrow> 0 \<le> rounded x"
proof -
  assume "0 < x"
  then have "round_half_even 0 \<le> round_half_even (x / 2 powi (max (- 1074) (flog2 x - 52)))"
    by (intro round_half_even_mono) simp
  then show ?thesis using round_half_even_int [of 0] by (simp add: rounded_def Let_def)
qed

lemma huge_entry:
  assumes "alpha = NaN \<or> (\<exists>a. alpha = Fin a \<and> 0 < a \<and> a \<le> 1)"
  shows "poisoned (Some (zentry_update alpha \<lparr>ze_mean = huge, ze_vari = Fin 0, ze_count = 1\<rparr> (fneg huge)))"
    "\<not> de_anomaly (zscore_verdict opts (zentry_update alpha \<lparr>ze_mean = huge, ze_vari = Fin 0, ze_count = 1\<rparr> (fneg huge)) (fneg huge))"
proof -
  let ?e = "zentry_update alpha \<lparr>ze_mean = huge, ze_vari = Fin 0, ze_count = 1\<rparr> (fneg huge)"
  have n: "ze_count ?e = 2" by (simp add: zentry_sel)
  have h: "fadd huge NInf = NInf" "fsub (fneg huge) NInf = PInf" by (simp_all add: huge_def fsub_def fneg_def)
  have e: "ze_vari ?e = NaN \<or> (ze_mean ?e = NInf \<and> ze_vari ?e = PInf)"
  proof (cases "alpha = NaN")
    case False
    then obtain a where a: "alpha = Fin a" "0 < a" "a \<le> 1" using assms by blast
    have v: "ze_vari ?e = fmul (fsub (Fin 1) alpha) PInf" "ze_mean ?e = NInf"
      using a by (simp_all add: zentry_sel huge_overflow h)
    have "fmul (fsub (Fin 1) (Fin a)) PInf \<in> {NaN, PInf}"
    proof (cases "a = 1")
      case False
      then have "0 < 1 - a" using a by simp
      then have "fround (1 - a) = PInf \<or> (\<exists>y\<ge>0. fround (1 - a) = Fin y)"
        using fround_pos [of "1 - a"] rounded_nonneg by auto
      then show ?thesis by (auto simp: fsub_def fneg_def finf_def split: if_splits)
    qed (simp add: fsub_def fneg_def)
    then show ?thesis using v a by auto
  qed (simp add: zentry_sel)
  then show "poisoned (Some ?e)" using n by (auto simp: poisoned_def)
  have "fdiv (fsub (fneg huge) (ze_mean ?e)) (fsqrt (ze_vari ?e)) = NaN" using e by (auto simp: h)
  then show "\<not> de_anomaly (zscore_verdict opts ?e (fneg huge))" by (rule verdict_NaN)
qed

lemma first_entry:
  "zentry_update alpha \<lparr>ze_mean = Fin 0, ze_vari = Fin 0, ze_count = 0\<rparr> x = \<lparr>ze_mean = x, ze_vari = Fin 0, ze_count = 1\<rparr>"
  by (simp add: zentry_update_def Let_def)

lemma flit_pos:
  assumes "2 powi (- 1000) \<le> x"
  shows "flt (Fin 0) (flit x)"
proof -
  define e where "e = max (- 1074) (flog2 x - 52)"
  have x: "0 < x" by (rule less_le_trans [OF _ assms]) (rule zero_less_power_int, simp)
  have "(2::rat) powi - 1000 < 2 powi (flog2 x + 1)" using flog2_bounds(2) [OF x] assms by (rule le_less_trans [rotated])
  then have "- 1000 < flog2 x + 1" by (rule powi_less_imp_less)
  then have "(2::rat) powi e \<le> 2 powi flog2 x" by (intro power_int_increasing) (simp_all add: e_def)
  then have "2 powi e \<le> x" using flog2_bounds(1) [OF x] by (rule order_trans)
  then have "2 powi 0 \<le> x / 2 powi e" by (simp add: pos_le_divide_eq)
  then have "1 \<le> round_half_even (x / 2 powi e)" using round_half_even_powi(2) [of 0] by simp
  then have "0 < rounded x" by (simp add: rounded_def Let_def flip: e_def)
  then show ?thesis using x by (simp add: flit_def fround_pos)
qed

lemma constant_silent: "ze_vari e = Fin 0 \<Longrightarrow> \<not> de_anomaly (zscore_verdict opts e x)"
proof -
  assume v: "ze_vari e = Fin 0"
  have "(2::rat) powi - 1000 \<le> 2 powi - 40" by (rule power_int_increasing) simp_all
  moreover have "(2::rat) powi - 40 \<le> 1 / 10 ^ 9" by (simp add: power_int_def power_one_over)
  ultimately have "flt (Fin 0) (flit (1 / 10 ^ 9))" using flit_pos order_trans by blast
  then show ?thesis by (simp add: v zscore_verdict_def Let_def)
qed

lemma built_zscore:
  "buildPredictor tagged ready env = Inr (ZScore p) \<Longrightarrow>
   \<exists>o0. p = NewZScorePredictor o0 \<and> zo_alpha o0 = envFloat env ''OBSERVE_X_ANOMALY_ALPHA'' (flit (5 / 100))"
  by (auto simp: buildPredictor_def Let_def split: if_splits sum.splits)
     (auto simp: map_sum_def split: sum.splits)


text \<open>
  The weight of new samples may be set to one, and then the detector reports nothing at all: every
  sample becomes its own baseline.
\<close>

theorem alpha_one_reports_nothing:
  assumes "buildPredictor tagged ready env = Inr (ZScore p)"
    "envFloat env ''OBSERVE_X_ANOMALY_ALPHA'' (flit (5 / 100)) = Fin 1"
  shows "\<forall>(b, r) \<in> set (zip (map snd bs) (snd (service_run run (new_service (ZScore p)) bs))). silent r"
proof -
  obtain o0 where p: "p = NewZScorePredictor o0" "zo_alpha o0 = Fin 1"
    using built_zscore [OF assms(1)] assms(2) by auto
  have al: "zo_alpha (zscore_defaults o0) = Fin 1" by (simp add: alpha_defaults p fle_def)
  define flat where "flat = (\<lambda>e :: zEntry option. case e of None \<Rightarrow> True | Some e \<Rightarrow> ze_vari e \<in> {Fin 0, NaN})"
  have step: "let e' = zentry_update (zo_alpha (zscore_defaults o0)) (case e of Some e \<Rightarrow> e
      | None \<Rightarrow> \<lparr>ze_mean = Fin 0, ze_vari = Fin 0, ze_count = 0\<rparr>) x
    in flat (Some e') \<and> \<not> de_anomaly (zscore_verdict (zscore_defaults o0) e' x)" if f: "flat e" for e x
  proof -
    let ?e = "case e of Some e \<Rightarrow> e | None \<Rightarrow> \<lparr>ze_mean = Fin 0, ze_vari = Fin 0, ze_count = 0\<rparr>"
    have one: "fsub (Fin 1) (Fin 1) = Fin 0" by (simp add: fsub_def fneg_def)
    have z: "fmul (Fin 0) y \<in> {Fin 0, NaN}" for y by (cases y) simp_all
    have "ze_vari ?e \<in> {Fin 0, NaN}" using f by (auto simp: flat_def split: option.splits)
    then have v: "ze_vari (zentry_update (Fin 1) ?e x) \<in> {Fin 0, NaN}"
      using z by (auto simp: zentry_sel one)
    then have "\<not> de_anomaly (zscore_verdict (zscore_defaults o0) (zentry_update (Fin 1) ?e x) x)"
      using constant_silent verdict_NaN by auto
    then show ?thesis using v by (simp add: Let_def al flat_def)
  qed
  have "silent r" if "(b, r) \<in> set (zip (map snd bs) (snd (service_run run (new_service (ZScore p)) bs)))" for b r
  proof -
    have "in_inner (as_predictor (new_service (ZScore p))) = ZScore p" "zp_opts p = zscore_defaults o0"
      "flat (zp_stats p k)" for k
      by (simp_all add: new_service_def WithCounters_def p NewZScorePredictor_def flat_def)
    from bspec [OF service_silent [where bs = bs and run = run and P = flat and
        key = "case b of Some o1 \<Rightarrow> series_of o1 | None \<Rightarrow> []", OF this(1,3,2) step] that]
    show ?thesis by (cases b) simp_all
  qed
  then show ?thesis by auto
qed

section \<open>The counters\<close>

definition accepted :: "observation option \<Rightarrow> bool" where
  "accepted b \<longleftrightarrow> (case b of Some r \<Rightarrow> ob_tenant r \<noteq> [] \<and> ob_metric r \<noteq> [] | None \<Rightarrow> False)"

fun reported_to :: "observation_reply \<Rightarrow> string option" where
  "reported_to (ObAnomaly t m x d n w) = Some t"
| "reported_to r = None"

lemma instrumented_counts:
  assumes "instrumented_Observe run i s = Some (i', d)"
  shows "in_samples i' = in_samples i + 1 \<and>
    in_anomalies i' = in_anomalies i + (case d of Inr x \<Rightarrow> if de_anomaly x then 1 else 0 | Inl e \<Rightarrow> 0)"
proof (cases "predictor_Observe run (in_inner i) s")
  case (Some pd)
  obtain p y where "pd = (p, y)" by (cases pd)
  then show ?thesis using assms Some by (cases y) (auto simp: instrumented_Observe_def Let_def)
qed (use assms in \<open>simp add: instrumented_Observe_def\<close>)

lemma observations_counts:
  assumes "observations run now sv b = (sv', r)"
  shows "as_observed sv' = as_observed sv + (if accepted b then 1 else 0) \<and>
    in_samples (as_predictor sv') = in_samples (as_predictor sv) + (if accepted b then 1 else 0) \<and>
    in_anomalies (as_predictor sv') = in_anomalies (as_predictor sv) + (if reported_to r \<noteq> None then 1 else 0) \<and>
    as_fired sv' t = as_fired sv t + (if reported_to r = Some t then 1 else 0)"
proof (cases "accepted b")
  case False
  then show ?thesis using assms by (auto simp: observations_def accepted_def Let_def split: option.splits if_splits)
next
  case True
  then obtain x where x: "b = Some x" "ob_tenant x \<noteq> []" "ob_metric x \<noteq> []" by (auto simp: accepted_def split: option.splits)
  define s where "s = \<lparr>sp_tenant = ob_tenant x, sp_metric = ob_metric x, sp_value = ob_value x,
    sp_features = ob_features x, sp_at = (case ob_timestamp x of Some t \<Rightarrow> t | None \<Rightarrow> now)\<rparr>"
  have o1: "observations run now sv b = (let sv1 = sv\<lparr>as_observed := as_observed sv + 1\<rparr> in
      case instrumented_Observe run (as_predictor sv) s of
         None \<Rightarrow> (sv1\<lparr>as_predictor := (as_predictor sv1)\<lparr>in_samples := in_samples (as_predictor sv1) + 1\<rparr>\<rparr>, ObFailed)
       | Some (i, Inl e) \<Rightarrow> (sv1\<lparr>as_predictor := i\<rparr>, ObFailed)
       | Some (i, Inr d) \<Rightarrow>
           if de_anomaly d then
             (sv1\<lparr>as_predictor := i, as_fired := (as_fired sv1)(ob_tenant x := as_fired sv1 (ob_tenant x) + 1)\<rparr>,
              ObAnomaly (ob_tenant x) (ob_metric x) (ob_value x) d (predictor_Name (in_inner i))
                (case ob_timestamp x of Some t \<Rightarrow> t | None \<Rightarrow> now))
           else (sv1\<lparr>as_predictor := i\<rparr>, ObNone))"
    using x by (simp add: observations_def s_def Let_def)
  show ?thesis
  proof (cases "instrumented_Observe run (as_predictor sv) s")
    case None
    then show ?thesis using assms True by (auto simp: o1)
  next
    case (Some id)
    obtain i d where id: "id = (i, d)" by (cases id)
    show ?thesis using assms True instrumented_counts [OF Some [unfolded id]]
      by (cases d) (auto simp: o1 Some id split: if_splits)
  qed
qed

lemma service_counts:
  "service_run run s0 bs = (sv, rs) \<Longrightarrow>
    as_observed sv = as_observed s0 + length (filter (accepted \<circ> snd) bs) \<and>
    in_samples (as_predictor sv) = in_samples (as_predictor s0) + length (filter (accepted \<circ> snd) bs) \<and>
    in_anomalies (as_predictor sv) = in_anomalies (as_predictor s0) + length (filter (\<lambda>r. reported_to r \<noteq> None) rs) \<and>
    as_fired sv t = as_fired s0 t + length (filter (\<lambda>r. reported_to r = Some t) rs)"
proof (induction bs arbitrary: s0 rs)
  case (Cons nb bs)
  obtain now b where nb: "nb = (now, b)" by (cases nb)
  obtain s1 r where o1: "observations run now s0 b = (s1, r)" by (cases "observations run now s0 b")
  obtain s2 rs' where r: "service_run run s1 bs = (s2, rs')" by (cases "service_run run s1 bs")
  have e: "s2 = sv" "rs = r # rs'" using Cons.prems by (simp_all add: nb o1 r)
  show ?case
    using Cons.IH [OF r [unfolded e(1)]] observations_counts [OF o1, of t] by (simp add: e(2) nb)
qed simp

text \<open>
  The counters say what happened: over any sequence of requests the observations are counted once
  for each accepted body, the anomalies once for each that is reported, and the anomalies of a tenant
  once for each that is reported to it.
\<close>

theorem counters_exact:
  "case service_run run (new_service p) bs of (sv, rs) \<Rightarrow>
   as_observed sv = length (filter (accepted \<circ> snd) bs) \<and>
   in_samples (as_predictor sv) = as_observed sv \<and>
   in_anomalies (as_predictor sv) = length (filter (\<lambda>r. reported_to r \<noteq> None) rs) \<and>
   as_fired sv t = length (filter (\<lambda>r. reported_to r = Some t) rs)"
  using service_counts [of run "new_service p" bs]
  by (auto simp: new_service_def WithCounters_def split: prod.split)

section \<open>Concrete requests\<close>

theorem predictor_equals_detector_witness:
  "list_all2 verdicts_agree
     (zscore_run (NewZScorePredictor \<lparr>zo_warmup = 1, zo_threshold = Fin 1, zo_alpha = Fin (1 / 2)\<rparr>)
       (replicate 3 \<lparr>sp_tenant = ''t'', sp_metric = ''m'', sp_value = Fin 1, sp_features = None, sp_at = 0\<rparr>))
     (detector_run (NewDetector \<lparr>dt_warmup = 1, dt_threshold = Fin 1, dt_alpha = Fin (1 / 2)\<rparr>)
       (replicate 3 \<lparr>sp_tenant = ''t'', sp_metric = ''m'', sp_value = Fin 1, sp_features = None, sp_at = 0\<rparr>))"
  using predictor_equals_detector [of "\<lparr>zo_warmup = 1, zo_threshold = Fin 1, zo_alpha = Fin (1 / 2)\<rparr>"]
  by (simp add: to_detector_options_def)

theorem scores_isolated_witness:
  "tenant_decisions ''a'' (NewZScorePredictor \<lparr>zo_warmup = 1, zo_threshold = Fin 1, zo_alpha = Fin (1 / 2)\<rparr>)
     [\<lparr>sp_tenant = ''b'', sp_metric = ''m'', sp_value = Fin 9, sp_features = None, sp_at = 0\<rparr>,
      \<lparr>sp_tenant = ''a'', sp_metric = ''m'', sp_value = Fin 1, sp_features = None, sp_at = 0\<rparr>] =
   zscore_run (NewZScorePredictor \<lparr>zo_warmup = 1, zo_threshold = Fin 1, zo_alpha = Fin (1 / 2)\<rparr>)
     [\<lparr>sp_tenant = ''a'', sp_metric = ''m'', sp_value = Fin 1, sp_features = None, sp_at = 0\<rparr>]"
  by (subst scores_isolated) simp_all

lemma default_built: "\<exists>p. buildPredictor False (\<lambda>_. False) Map.empty = Inr (ZScore p)"
  by (simp add: buildPredictor_def getEnv_def)

definition demo_observation :: "f64 \<Rightarrow> observation" where
  "demo_observation x = \<lparr>ob_tenant = ''t'', ob_metric = ''m'', ob_value = x, ob_features = None, ob_timestamp = None\<rparr>"


theorem alpha_one_reports_nothing_witness:
  "\<exists>p. buildPredictor False (\<lambda>_. False) (Map.empty(''OBSERVE_X_ANOMALY_ALPHA'' \<mapsto> ''1'')) = Inr (ZScore p) \<and>
    (\<forall>r \<in> set (snd (service_run (\<lambda>_. None) (new_service (ZScore p)) [(0, Some (demo_observation (Fin 7)))])). silent r)"
proof -
  obtain p where p: "buildPredictor False (\<lambda>_. False) (Map.empty(''OBSERVE_X_ANOMALY_ALPHA'' \<mapsto> ''1'')) = Inr (ZScore p)"
    by (simp add: buildPredictor_def getEnv_def)
  have "parse_float ''1'' = Some (Fin 1)" by code_simp
  then have a: "envFloat (Map.empty(''OBSERVE_X_ANOMALY_ALPHA'' \<mapsto> ''1'')) ''OBSERVE_X_ANOMALY_ALPHA'' (flit (5 / 100)) = Fin 1"
    by (simp add: envFloat_def)
  from alpha_one_reports_nothing [OF p a, of "[(0, Some (demo_observation (Fin 7)))]" "\<lambda>_. None"]
  show ?thesis using p by (auto split: prod.splits)
qed

end
