(* ===== verification/Spillover.thy ===== *)
theory Spillover
  imports Supervisor Retention
begin

text \<open>
  The durable side-car of the supervisor (\<open>pkg/spillover/spillover.go\<close>): signals that find a full mailbox
  are published under a subject of their tenant and routed again later. The stream of the message server
  is the list of messages it holds; whether a connection or a publication succeeds is an input. A signal's
  JSON document is the value it encodes, for texts in UTF-8.
\<close>

section \<open>Subjects\<close>

definition subject_char :: "char \<Rightarrow> bool" where
  "subject_char c \<longleftrightarrow> is_lower c \<or> is_upper c \<or> is_digit c \<or> c = CHR ''-'' \<or> c = CHR ''_''"

definition sanitise :: "string \<Rightarrow> string" where
  "sanitise s =
     (let out = map (\<lambda>c. if subject_char c then c else CHR ''_'') s in if out = [] then ''anon'' else out)"

definition stripPrefix :: "string \<Rightarrow> string \<Rightarrow> string" where
  "stripPrefix s p = (if length p \<le> length s \<and> take (length p) s = p then drop (length p) s else s)"

definition spill_prefix :: string where
  "spill_prefix = ''observex.spillover.''"

section \<open>The side-car\<close>

record spill_options =
  sl_URL :: string
  sl_StreamName :: string
  sl_MaxAge :: int
  sl_MaxBytes :: int

definition spill_defaults :: "spill_options \<Rightarrow> spill_options" where
  "spill_defaults o0 =
     (let o1 = (if sl_StreamName o0 = [] then o0\<lparr>sl_StreamName := ''OBSERVEX_SPILLOVER''\<rparr> else o0);
          o2 = (if sl_MaxAge o1 \<le> 0 then o1\<lparr>sl_MaxAge := 3600 * second\<rparr> else o1)
      in if sl_MaxBytes o2 \<le> 0 then o2\<lparr>sl_MaxBytes := 2 ^ 30\<rparr> else o2)"

text \<open>\<open>SignalDoc\<close> is the JSON document of a signal, whose strings are UTF-8.\<close>

datatype spill_payload = SignalDoc signal | BadDoc

record spillover =
  spl_cfg :: spill_options
  spl_stream :: "(string \<times> spill_payload) list"
  spl_publishOK :: int
  spl_publishErr :: int
  spl_consumeOK :: int
  spl_consumeErr :: int
  spl_closed :: bool

datatype spill_error = SpillConnect | SpillDisabled | SpillMarshal | SpillPublish

text \<open>\<open>reachable\<close>: the server can be reached and the stream created; \<open>held\<close>: what it holds. The result is
  \<open>None\<close> when spilling is disabled.\<close>

definition spill_New ::
  "bool \<Rightarrow> (string \<times> spill_payload) list \<Rightarrow> spill_options \<Rightarrow> spill_error + spillover option" where
  "spill_New reachable held opts =
     (if sl_URL opts = [] then Inr None
      else if \<not> reachable then Inl SpillConnect
      else Inr (Some \<lparr>spl_cfg = spill_defaults opts, spl_stream = held, spl_publishOK = 0, spl_publishErr = 0,
             spl_consumeOK = 0, spl_consumeErr = 0, spl_closed = False\<rparr>))"

text \<open>\<open>json.Marshal\<close> refuses a time whose year does not have four digits.\<close>

definition json_time_ok :: "int \<Rightarrow> bool" where
  "json_time_ok t \<longleftrightarrow> - 62167219200 * second \<le> t \<and> t < 253402300800 * second"

definition spill_Push ::
  "bool \<Rightarrow> string \<Rightarrow> signal \<Rightarrow> spillover option \<Rightarrow> spillover option \<times> spill_error option" where
  "spill_Push up tid sg so =
     (case so of
        None \<Rightarrow> (None, Some SpillDisabled)
      | Some s \<Rightarrow>
          if \<not> json_time_ok (sig_received sg) then (Some s, Some SpillMarshal)
          else if \<not> up then (Some (s\<lparr>spl_publishErr := spl_publishErr s + 1\<rparr>), Some SpillPublish)
          else (Some (s\<lparr>spl_stream := spl_stream s @ [(spill_prefix @ sanitise tid, SignalDoc sg)],
                        spl_publishOK := spl_publishOK s + 1\<rparr>), None))"

text \<open>One message of \<open>Consume\<close>: what is routed, if anything. A message is gone once it is handled: \<open>Ack\<close>
  after the routing, \<open>Term\<close> when it does not decode.\<close>

definition consume_one :: "spillover \<Rightarrow> spillover \<times> (string \<times> signal) option" where
  "consume_one s =
     (case spl_stream s of
        [] \<Rightarrow> (s, None)
      | (subj, BadDoc) # ms \<Rightarrow> (s\<lparr>spl_stream := ms, spl_consumeErr := spl_consumeErr s + 1\<rparr>, None)
      | (subj, SignalDoc sg) # ms \<Rightarrow>
          (s\<lparr>spl_stream := ms, spl_consumeOK := spl_consumeOK s + 1\<rparr>, Some (stripPrefix subj spill_prefix, sg)))"

fun consume_all :: "nat \<Rightarrow> spillover \<Rightarrow> spillover \<times> (string \<times> signal) list" where
  "consume_all 0 s = (s, [])"
| "consume_all (Suc n) s =
     (case consume_one s of (s', r) \<Rightarrow> (case consume_all n s' of (s'', rs) \<Rightarrow>
        (s'', (case r of Some x \<Rightarrow> x # rs | None \<Rightarrow> rs))))"

definition spill_Stats :: "spillover option \<Rightarrow> int \<times> int \<times> int \<times> int" where
  "spill_Stats so = (case so of None \<Rightarrow> (0, 0, 0, 0)
     | Some s \<Rightarrow> (spl_publishOK s, spl_publishErr s, spl_consumeOK s, spl_consumeErr s))"

definition spill_Close :: "spillover option \<Rightarrow> spillover option" where
  "spill_Close so = map_option (\<lambda>s. s\<lparr>spl_closed := True\<rparr>) so"

section \<open>With the supervisor\<close>

text \<open>The supervisor asks the side-car when the mailbox of the tenant is full.\<close>

definition mailbox_full :: "supervisor \<Rightarrow> string \<Rightarrow> signal \<Rightarrow> bool" where
  "mailbox_full sv tid sg =
     (case getOrCreate sv tid of
        (s', Some m) \<Rightarrow> try_send (su_acts s' ! ma_actor (su_mans s' ! m)) sg = MailboxFull
      | (s', None) \<Rightarrow> False)"

definition route_spilling ::
  "bool \<Rightarrow> string \<Rightarrow> signal \<Rightarrow> supervisor \<times> spillover option \<Rightarrow> (supervisor \<times> spillover option) option" where
  "route_spilling up tid sg st =
     (case st of (sv, so) \<Rightarrow>
        if mailbox_full sv tid sg \<and> so_Spillover (su_opts sv) then
          (case spill_Push up tid sg so of (so', e) \<Rightarrow> map_option (\<lambda>s. (s, so')) (RouteToTenant sv tid sg (e = None)))
        else map_option (\<lambda>s. (s, so)) (RouteToTenant sv tid sg False))"

section \<open>Spilled signals come back\<close>

lemma strip_subject [simp]: "stripPrefix (spill_prefix @ t) spill_prefix = t"
  by (simp add: stripPrefix_def)

lemma sanitise_id: "sanitise t = t \<longleftrightarrow> t \<noteq> [] \<and> list_all subject_char t"
proof -
  have "subject_char (CHR ''_'')" by (simp add: subject_char_def)
  then have "map (\<lambda>c. if subject_char c then c else CHR ''_'') t = t \<longleftrightarrow> list_all subject_char t"
    by (induction t) (auto simp: list_all_iff)
  then show ?thesis by (cases t) (auto simp: sanitise_def Let_def)
qed

lemma safe_subject: "safeTenantID t = None \<Longrightarrow> sanitise t = t"
  unfolding sanitise_id
  by (auto simp: safeTenantID_def list_all_iff tenant_char_def subject_char_def split: if_splits)

fun push_all :: "(string \<times> signal) list \<Rightarrow> spillover option \<Rightarrow> spillover option" where
  "push_all [] s = s"
| "push_all ((t, sg) # ps) s = push_all ps (fst (spill_Push True t sg s))"

lemma push_all_stream:
  assumes "\<forall>(t, sg) \<in> set ps. json_time_ok (sig_received sg)"
  shows "push_all ps (Some s) = Some (s\<lparr>spl_stream := spl_stream s @
      map (\<lambda>(t, sg). (spill_prefix @ sanitise t, SignalDoc sg)) ps, spl_publishOK := spl_publishOK s + int (length ps)\<rparr>)"
  using assms by (induction ps arbitrary: s) (auto simp: spill_Push_def)

lemma consume_stream:
  "spl_stream s = map (\<lambda>(t, sg). (spill_prefix @ t, SignalDoc sg)) rs \<Longrightarrow>
   consume_all (length rs) s = (s\<lparr>spl_stream := [], spl_consumeOK := spl_consumeOK s + int (length rs)\<rparr>, rs)"
proof (induction rs arbitrary: s)
  case (Cons r rs)
  obtain t sg where r: "r = (t, sg)" by (cases r)
  have "consume_one s = (s\<lparr>spl_stream := map (\<lambda>(t, sg). (spill_prefix @ t, SignalDoc sg)) rs,
      spl_consumeOK := spl_consumeOK s + 1\<rparr>, Some (t, sg))"
    using Cons.prems by (simp add: consume_one_def r)
  then show ?case using Cons.IH by (simp add: r algebra_simps)
qed simp


text \<open>
  A signal comes back under the id its subject has room for: what was spilled for a tenant is routed
  to the actor of the tenant if and only if its id is not empty and has letters, digits, hyphens and
  underscores only; otherwise it is handed to another tenant's actor.
\<close>

theorem spilled_tenant:
  "snd (consume_one (the (fst (spill_Push True t sg (Some (s\<lparr>spl_stream := []\<rparr>)))))) =
     (if json_time_ok (sig_received sg) then Some (sanitise t, sg) else None) \<and>
   (sanitise t = t \<longleftrightarrow> t \<noteq> [] \<and> list_all subject_char t)"
  by (auto simp: spill_Push_def consume_one_def sanitise_id)

lemma create_frame:
  "getOrCreate sv t = (sv', q) \<Longrightarrow> su_opts sv' = su_opts sv \<and> su_totalDropped sv' = su_totalDropped sv"
  by (auto simp: getOrCreate_def split: option.splits if_splits)

text \<open>
  A full mailbox loses nothing while the server is up: a signal for it is published, counted as
  spilled and not as dropped, and the stream ends with it.
\<close>

theorem full_mailbox_spills:
  assumes "mailbox_full sv t sg" "so_Spillover (su_opts sv)" "json_time_ok (sig_received sg)"
  shows "\<exists>sv' s'. route_spilling True t sg (sv, Some s) = Some (sv', Some s') \<and>
    su_totalDropped sv' = su_totalDropped sv \<and> su_totalSpilled sv' = wrap64 (su_totalSpilled (fst (getOrCreate sv t)) + 1) \<and>
    spl_stream s' = spl_stream s @ [(spill_prefix @ sanitise t, SignalDoc sg)]"
proof -
  obtain s1 q where g: "getOrCreate sv t = (s1, q)" by (cases "getOrCreate sv t")
  then obtain m where m: "q = Some m" "try_send (su_acts s1 ! ma_actor (su_mans s1 ! m)) sg = MailboxFull"
    using assms(1) by (auto simp: mailbox_full_def split: option.splits)
  have "RouteToTenant sv t sg True = Some (s1\<lparr>su_totalSpilled := wrap64 (su_totalSpilled s1 + 1)\<rparr>)"
    using m assms(2) create_frame [OF g] by (simp add: RouteToTenant_def g route_send_def)
  then show ?thesis
    using assms create_frame [OF g] by (simp add: route_spilling_def spill_Push_def g)
qed

lemma sanitise_merges: "sanitise ''a.b'' = ''a_b'' \<and> sanitise ''a_b'' = ''a_b'' \<and> sanitise [] = ''anon''"
  by code_simp


text \<open>A supervisor whose only actor has room for one signal, and holds it.\<close>

definition demo_signal :: signal where
  "demo_signal = \<lparr>sig_tenant = ''t'', sig_type = Log, sig_payload = [], sig_attrs = Map.empty, sig_received = 5\<rparr>"

definition crowded :: supervisor where
  "crowded = the (RouteToTenant (NewSupervisorWithOptions
     \<lparr>so_MailboxSize = 1, so_MaxRestarts = 0, so_RestartWindow = 0, so_BackoffMin = 0, so_BackoffMax = 0, so_HealthInterval = 0,
      so_ActorOptions = \<lparr>ao_errorEPS = Fin 0, ao_latencyMS = Fin 0, ao_window = 0, ao_sink = False\<rparr>,
      so_Spillover = True\<rparr>) ''t'' demo_signal False)"

lemma crowded_full: "mailbox_full crowded ''t'' demo_signal \<and> so_Spillover (su_opts crowded) \<and> json_time_ok (sig_received demo_signal)"
  by (simp add: mailbox_full_def crowded_def RouteToTenant_def route_send_def getOrCreate_def NewSupervisorWithOptions_def
      sup_defaults_def new_actor_of_def actor_start_def NewTenantActorWithOptions_def try_send_def demo_signal_def
      json_time_ok_def second_def AddRule_def Let_def)

theorem full_mailbox_spills_witness:
  "\<exists>sv' s'. route_spilling True ''t'' demo_signal (crowded, Some \<lparr>spl_cfg = \<lparr>sl_URL = ''u'', sl_StreamName = [], sl_MaxAge = 0,
      sl_MaxBytes = 0\<rparr>, spl_stream = [], spl_publishOK = 0, spl_publishErr = 0, spl_consumeOK = 0, spl_consumeErr = 0,
      spl_closed = False\<rparr>) = Some (sv', Some s') \<and> length (spl_stream s') = 1"
  using full_mailbox_spills [of crowded "''t''" demo_signal] crowded_full by fastforce

end
