(* ===== verification/Migrate.thy ===== *)
theory Migrate
  imports Prelude "HOL-Library.List_Lexorder" "HOL-Library.Char_ord"
begin

text \<open>
  The two runners of the control plane's migrations (\<open>services/tenant-api/store/migrate.go\<close>,
  \<open>services/alert-manager/store/migrate.go\<close>): the embedded files in lexicographic order, one transaction
  each, recorded in \<open>schema_migrations\<close>. What a file's SQL does to the schema is a parameter; whether the
  database answers is an input.
\<close>

section \<open>The database\<close>

text \<open>The schema and the rows of \<open>schema_migrations\<close>, in the order they were committed.\<close>

record 'd mig_db =
  md_schema :: 'd
  md_versions :: "string list"

text \<open>Which of the three exchanges of a transaction around the statements of the file succeed.\<close>

record tx_answer =
  tx_begin :: bool
  tx_insert :: bool
  tx_commit :: bool

definition tx_ok :: tx_answer where
  "tx_ok = \<lparr>tx_begin = True, tx_insert = True, tx_commit = True\<rparr>"

text \<open>A transaction that does not commit leaves nothing. The version is the primary key.\<close>

definition applyOne ::
  "(string \<Rightarrow> 'd \<Rightarrow> 'd option) \<Rightarrow> tx_answer \<Rightarrow> string \<Rightarrow> string \<Rightarrow> 'd mig_db \<Rightarrow> 'd mig_db \<times> bool" where
  "applyOne exec a version body db =
     (if \<not> tx_begin a then (db, False)
      else case exec body (md_schema db) of
        None \<Rightarrow> (db, False)
      | Some d \<Rightarrow>
          if \<not> tx_insert a \<or> version \<in> set (md_versions db) then (db, False)
          else if \<not> tx_commit a then (db, False)
          else (db\<lparr>md_schema := d, md_versions := md_versions db @ [version]\<rparr>, True))"

fun apply_files ::
  "(string \<Rightarrow> 'd \<Rightarrow> 'd option) \<Rightarrow> (string \<Rightarrow> tx_answer) \<Rightarrow> string set \<Rightarrow> (string \<times> string) list \<Rightarrow> 'd mig_db \<Rightarrow>
   'd mig_db \<times> bool" where
  "apply_files exec ans applied [] db = (db, True)"
| "apply_files exec ans applied ((v, body) # fs) db =
     (if v \<in> applied then apply_files exec ans applied fs db
      else case applyOne exec (ans v) v body db of
        (db', True) \<Rightarrow> apply_files exec ans applied fs db'
      | (db', False) \<Rightarrow> (db', False))"

section \<open>The runners\<close>

text \<open>The embedded directory: names, whether they are directories, and contents.\<close>

record embedded =
  em_name :: string
  em_dir :: bool
  em_body :: string

definition trim_suffix :: "string \<Rightarrow> string \<Rightarrow> string" where
  "trim_suffix s p = (if has_suffix s p then take (length s - length p) s else s)"

definition listMigrations :: "embedded list \<Rightarrow> string list" where
  "listMigrations es = sort (map em_name (filter (\<lambda>e. \<not> em_dir e \<and> has_suffix (em_name e) ''.sql'') es))"

definition read_file :: "embedded list \<Rightarrow> string \<Rightarrow> string" where
  "read_file es n = (case find (\<lambda>e. em_name e = n) es of Some e \<Rightarrow> em_body e | None \<Rightarrow> [])"

text \<open>\<open>boot\<close> and \<open>load\<close>: the first two statements succeed. The table of versions is read once.\<close>

definition tenant_files :: "embedded list \<Rightarrow> (string \<times> string) list" where
  "tenant_files es = map (\<lambda>n. (trim_suffix n ''.sql'', read_file es n)) (listMigrations es)"

definition ApplyMigrations ::
  "embedded list \<Rightarrow> (string \<Rightarrow> 'd \<Rightarrow> 'd option) \<Rightarrow> bool \<Rightarrow> bool \<Rightarrow> (string \<Rightarrow> tx_answer) \<Rightarrow> 'd mig_db \<Rightarrow> 'd mig_db \<times> bool" where
  "ApplyMigrations es exec boot load ans db =
     (if \<not> boot \<or> \<not> load then (db, False)
      else apply_files exec ans (set (md_versions db)) (tenant_files es) db)"

text \<open>The alert manager records the whole name of the file.\<close>

definition alert_files :: "embedded list \<Rightarrow> (string \<times> string) list" where
  "alert_files es = map (\<lambda>n. (n, read_file es n)) (listMigrations es)"

definition Migrate ::
  "embedded list \<Rightarrow> (string \<Rightarrow> 'd \<Rightarrow> 'd option) \<Rightarrow> bool \<Rightarrow> bool \<Rightarrow> (string \<Rightarrow> tx_answer) \<Rightarrow> 'd mig_db \<Rightarrow> 'd mig_db \<times> bool" where
  "Migrate es exec boot load ans db =
     (if \<not> boot \<or> \<not> load then (db, False)
      else apply_files exec ans (set (md_versions db)) (alert_files es) db)"

section \<open>What a run leaves\<close>

fun run_bodies :: "(string \<Rightarrow> 'd \<Rightarrow> 'd option) \<Rightarrow> (string \<times> string) list \<Rightarrow> 'd \<Rightarrow> 'd option" where
  "run_bodies exec [] d = Some d"
| "run_bodies exec ((v, b) # fs) d = Option.bind (exec b d) (run_bodies exec fs)"

lemma run_bodies_append: "run_bodies exec (fs @ gs) d = Option.bind (run_bodies exec fs d) (run_bodies exec gs)"
  by (induction fs arbitrary: d) (auto split: bind_splits)

definition pending :: "string set \<Rightarrow> (string \<times> string) list \<Rightarrow> (string \<times> string) list" where
  "pending applied fs = filter (\<lambda>(v, b). v \<notin> applied) fs"

lemma applyOne_cases:
  "(\<exists>d. exec body (md_schema db) = Some d \<and> v \<notin> set (md_versions db) \<and>
      applyOne exec a v body db = (db\<lparr>md_schema := d, md_versions := md_versions db @ [v]\<rparr>, True)) \<or>
   applyOne exec a v body db = (db, False)"
  by (simp add: applyOne_def split: option.splits)

lemma apply_files_prefix:
  "\<exists>n \<le> length (pending applied fs). run_bodies exec (take n (pending applied fs)) (md_schema db) =
      Some (md_schema (fst (apply_files exec ans applied fs db))) \<and>
    md_versions (fst (apply_files exec ans applied fs db)) = md_versions db @ map fst (take n (pending applied fs)) \<and>
    snd (apply_files exec ans applied fs db) = (n = length (pending applied fs))"
proof (induction fs arbitrary: db)
  case (Cons f fs)
  obtain v b where f: "f = (v, b)" by (cases f)
  show ?case
  proof (cases "v \<in> applied")
    case True
    then show ?thesis using Cons.IH [of db] by (simp add: f pending_def)
  next
    case False
    then have p: "pending applied (f # fs) = (v, b) # pending applied fs" by (simp add: f pending_def)
    consider (committed) d where "exec b (md_schema db) = Some d"
        "applyOne exec (ans v) v b db = (db\<lparr>md_schema := d, md_versions := md_versions db @ [v]\<rparr>, True)"
      | (failed) "applyOne exec (ans v) v b db = (db, False)"
      using applyOne_cases [of exec b db v "ans v"] by blast
    then show ?thesis
    proof cases
      case (committed d)
      let ?db = "db\<lparr>md_schema := d, md_versions := md_versions db @ [v]\<rparr>"
      obtain n where "n \<le> length (pending applied fs)"
        "run_bodies exec (take n (pending applied fs)) d = Some (md_schema (fst (apply_files exec ans applied fs ?db)))"
        "md_versions (fst (apply_files exec ans applied fs ?db)) = (md_versions db @ [v]) @ map fst (take n (pending applied fs))"
        "snd (apply_files exec ans applied fs ?db) = (n = length (pending applied fs))"
        using Cons.IH [of ?db] by auto
      then show ?thesis unfolding p by (intro exI [of _ "Suc n"]) (simp add: f False committed)
    next
      case failed
      then show ?thesis unfolding p by (intro exI [of _ 0]) (simp add: f False)
    qed
  qed
qed (simp add: pending_def)

lemma apply_files_ok:
  assumes "run_bodies exec (pending applied fs) (md_schema db) = Some d" "distinct (map fst fs)"
    "\<forall>v \<in> set (md_versions db). v \<in> applied \<or> v \<notin> fst ` set fs"
  shows "apply_files exec (\<lambda>_. tx_ok) applied fs db =
    (\<lparr>md_schema = d, md_versions = md_versions db @ map fst (pending applied fs)\<rparr>, True)"
  using assms
proof (induction fs arbitrary: db)
  case (Cons f fs)
  obtain v b where f: "f = (v, b)" by (cases f)
  show ?case
  proof (cases "v \<in> applied")
    case True
    then have "pending applied (f # fs) = pending applied fs" by (simp add: f pending_def)
    then show ?thesis using Cons.IH [of db] Cons.prems True by (auto simp: f)
  next
    case False
    then obtain d1 where d1: "exec b (md_schema db) = Some d1" "run_bodies exec (pending applied fs) d1 = Some d"
      using Cons.prems by (auto simp: f pending_def bind_eq_Some_conv)
    have "v \<notin> set (md_versions db)" using False Cons.prems(3) by (auto simp: f)
    then have "applyOne exec tx_ok v b db = (\<lparr>md_schema = d1, md_versions = md_versions db @ [v]\<rparr>, True)"
      using d1 by (cases db) (simp add: applyOne_def tx_ok_def)
    moreover have "apply_files exec (\<lambda>_. tx_ok) applied fs \<lparr>md_schema = d1, md_versions = md_versions db @ [v]\<rparr> =
        (\<lparr>md_schema = d, md_versions = (md_versions db @ [v]) @ map fst (pending applied fs)\<rparr>, True)"
      using Cons.IH [of "\<lparr>md_schema = d1, md_versions = md_versions db @ [v]\<rparr>"] Cons.prems d1 f by auto
    ultimately show ?thesis using False by (simp add: f pending_def)
  qed
qed (cases db, simp add: pending_def)

lemma apply_files_success:
  assumes "apply_files exec ans applied fs db = (db', True)"
  shows "run_bodies exec (pending applied fs) (md_schema db) = Some (md_schema db') \<and>
    md_versions db' = md_versions db @ map fst (pending applied fs)"
  using apply_files_prefix [of applied fs exec db ans] assms by auto

lemma trim_suffix_inj: "has_suffix a p \<Longrightarrow> has_suffix b p \<Longrightarrow> trim_suffix a p = trim_suffix b p \<Longrightarrow> a = b"
  by (metis append_take_drop_id has_suffix_def trim_suffix_def)

lemma files_distinct:
  assumes "distinct (map em_name es)"
  shows "distinct (map fst (tenant_files es))" "distinct (map fst (alert_files es))"
proof -
  have d: "distinct (listMigrations es)" using assms by (simp add: listMigrations_def distinct_map inj_on_def)
  have s: "\<forall>n \<in> set (listMigrations es). has_suffix n ''.sql''" by (auto simp: listMigrations_def)
  have "inj_on (\<lambda>n. trim_suffix n ''.sql'') (set (listMigrations es))"
    using s trim_suffix_inj by (intro inj_onI) blast
  then show "distinct (map fst (tenant_files es))"
    using d by (simp add: tenant_files_def comp_def distinct_map)
  show "distinct (map fst (alert_files es))" using d by (simp add: alert_files_def comp_def)
qed

text \<open>
  However a run of the migrations ends, the database is at a version: the files that are not yet
  recorded have been applied in the order of their names up to some point, each completely and with its
  record, nothing of a later one is left, and the run succeeds exactly when the point is the end.
\<close>

theorem migrations_apply_prefix:
  "\<exists>n \<le> length (pending (set (md_versions db)) (tenant_files es)).
     run_bodies exec (take n (pending (set (md_versions db)) (tenant_files es))) (md_schema db) =
       Some (md_schema (fst (ApplyMigrations es exec boot load ans db))) \<and>
     md_versions (fst (ApplyMigrations es exec boot load ans db)) =
       md_versions db @ map fst (take n (pending (set (md_versions db)) (tenant_files es))) \<and>
     snd (ApplyMigrations es exec boot load ans db) =
       (boot \<and> load \<and> n = length (pending (set (md_versions db)) (tenant_files es)))"
proof (cases "boot \<and> load")
  case True
  then show ?thesis using apply_files_prefix [of "set (md_versions db)" "tenant_files es" exec db ans]
    by (simp add: ApplyMigrations_def)
next
  case False
  then show ?thesis by (intro exI [of _ 0]) (auto simp: ApplyMigrations_def)
qed

text \<open>
  A run that was cut short is taken up by the next one: if the migrations go through when the database
  answers, then after any interrupted run they go through to the same database, and after that a run
  changes nothing.
\<close>

theorem migrations_resume:
  assumes "ApplyMigrations es exec True True (\<lambda>_. tx_ok) db = (db', True)" "distinct (map em_name es)"
  shows "ApplyMigrations es exec True True (\<lambda>_. tx_ok) (fst (ApplyMigrations es exec boot load ans db)) = (db', True) \<and>
    ApplyMigrations es exec True True a2 db' = (db', True)"
proof -
  let ?fs = "tenant_files es" let ?p = "pending (set (md_versions db)) ?fs"
  let ?db1 = "fst (ApplyMigrations es exec boot load ans db)"
  have full: "run_bodies exec ?p (md_schema db) = Some (md_schema db')" "md_versions db' = md_versions db @ map fst ?p"
    using apply_files_success [of exec "\<lambda>_. tx_ok" "set (md_versions db)" ?fs db db'] assms(1)
    by (simp_all add: ApplyMigrations_def)
  obtain n where n: "n \<le> length ?p" "run_bodies exec (take n ?p) (md_schema db) = Some (md_schema ?db1)"
    "md_versions ?db1 = md_versions db @ map fst (take n ?p)"
    using apply_files_prefix [of "set (md_versions db)" ?fs exec db ans]
    by (cases "boot \<and> load") (auto simp: ApplyMigrations_def intro: that that [of 0])
  have dp: "distinct (map fst ?p)"
    using files_distinct(1) [OF assms(2)] by (simp add: pending_def distinct_map_filter)
  have rest: "run_bodies exec (drop n ?p) (md_schema ?db1) = Some (md_schema db')"
    using full(1) run_bodies_append [of exec "take n ?p" "drop n ?p"] n(2) by simp
  have dj: "set (map fst (take n ?p)) \<inter> set (map fst (drop n ?p)) = {}"
    using dp by (metis append_take_drop_id distinct_append map_append)
  have pd: "pending (set (md_versions ?db1)) ?fs = drop n ?p"
  proof -
    have "pending (set (md_versions ?db1)) ?fs = filter (\<lambda>(v, b). v \<notin> fst ` set (take n ?p)) ?p"
      unfolding n(3) by (auto simp: pending_def intro!: filter_cong)
    also have "\<dots> = filter (\<lambda>(v, b). v \<notin> fst ` set (take n ?p)) (take n ?p) @
        filter (\<lambda>(v, b). v \<notin> fst ` set (take n ?p)) (drop n ?p)"
      by (metis append_take_drop_id filter_append)
    also have "filter (\<lambda>(v, b). v \<notin> fst ` set (take n ?p)) (take n ?p) = []"
      by (force simp: filter_empty_conv)
    also have "filter (\<lambda>(v, b). v \<notin> fst ` set (take n ?p)) (drop n ?p) = drop n ?p"
      using dj by (force simp: filter_id_conv)
    finally show ?thesis by simp
  qed
  have "apply_files exec (\<lambda>_. tx_ok) (set (md_versions ?db1)) ?fs ?db1 =
      (\<lparr>md_schema = md_schema db', md_versions = md_versions ?db1 @ map fst (drop n ?p)\<rparr>, True)"
    using apply_files_ok [OF rest [folded pd] files_distinct(1) [OF assms(2)]] pd by auto
  moreover have "md_versions ?db1 @ map fst (drop n ?p) = md_versions db'"
    unfolding n(3) full(2) by (simp flip: map_append)
  ultimately have 1: "ApplyMigrations es exec True True (\<lambda>_. tx_ok) ?db1 = (db', True)"
    by (simp add: ApplyMigrations_def)
  have "pending (set (md_versions db')) ?fs = []"
    unfolding full(2) by (force simp: pending_def filter_empty_conv)
  then have "apply_files exec a2 (set (md_versions db')) fs db' = (db', True)" if "pending (set (md_versions db')) fs = []" for fs
    using that by (induction fs) (auto simp: pending_def split: if_splits)
  then show ?thesis using 1 \<open>pending (set (md_versions db')) ?fs = []\<close> by (simp add: ApplyMigrations_def)
qed

section \<open>Several runners on one database\<close>

text \<open>Replicas and services that start together: each has read the versions, or not yet, and goes through its
  own files; a transaction is one step.\<close>

datatype runner = Waiting | Applying "string set" "(string \<times> string) list" | Ended bool

inductive mig_step ::
  "(string \<Rightarrow> 'd \<Rightarrow> 'd option) \<Rightarrow> (string \<times> string) list list \<Rightarrow> 'd mig_db \<times> runner list \<Rightarrow> 'd mig_db \<times> runner list \<Rightarrow> bool"
  for exec fss where
  load: "i < length rs \<Longrightarrow> rs ! i = Waiting \<Longrightarrow>
    mig_step exec fss (db, rs) (db, rs[i := Applying (set (md_versions db)) (fss ! i)])"
| load_fails: "i < length rs \<Longrightarrow> rs ! i = Waiting \<Longrightarrow> mig_step exec fss (db, rs) (db, rs[i := Ended False])"
| skip: "i < length rs \<Longrightarrow> rs ! i = Applying ap ((v, b) # gs) \<Longrightarrow> v \<in> ap \<Longrightarrow>
    mig_step exec fss (db, rs) (db, rs[i := Applying ap gs])"
| commit: "i < length rs \<Longrightarrow> rs ! i = Applying ap ((v, b) # gs) \<Longrightarrow> v \<notin> ap \<Longrightarrow>
    applyOne exec a v b db = (db', True) \<Longrightarrow> mig_step exec fss (db, rs) (db', rs[i := Applying ap gs])"
| abort: "i < length rs \<Longrightarrow> rs ! i = Applying ap ((v, b) # gs) \<Longrightarrow> v \<notin> ap \<Longrightarrow>
    applyOne exec a v b db = (db', False) \<Longrightarrow> mig_step exec fss (db, rs) (db', rs[i := Ended False])"
| finish: "i < length rs \<Longrightarrow> rs ! i = Applying ap [] \<Longrightarrow> mig_step exec fss (db, rs) (db, rs[i := Ended True])"

inductive mig_reach ::
  "(string \<Rightarrow> 'd \<Rightarrow> 'd option) \<Rightarrow> (string \<times> string) list list \<Rightarrow> 'd mig_db \<Rightarrow> 'd mig_db \<times> runner list \<Rightarrow> bool"
  for exec fss db0 where
  start: "mig_reach exec fss db0 (db0, replicate (length fss) Waiting)"
| more: "mig_reach exec fss db0 st \<Longrightarrow> mig_step exec fss st st' \<Longrightarrow> mig_reach exec fss db0 st'"

definition runner_ok :: "(string \<times> string) list \<Rightarrow> string set \<Rightarrow> runner \<Rightarrow> bool" where
  "runner_ok fs vs r \<longleftrightarrow>
     (case r of
        Waiting \<Rightarrow> True
      | Applying ap gs \<Rightarrow> ap \<subseteq> vs \<and> (\<exists>hs. fs = hs @ gs \<and> fst ` set hs \<subseteq> vs)
      | Ended ok \<Rightarrow> ok \<longrightarrow> fst ` set fs \<subseteq> vs)"

definition committed_from :: "(string \<Rightarrow> 'd \<Rightarrow> 'd option) \<Rightarrow> (string \<times> string) list list \<Rightarrow> 'd mig_db \<Rightarrow> 'd mig_db \<Rightarrow> bool" where
  "committed_from exec fss db0 db \<longleftrightarrow> (\<exists>cs. set cs \<subseteq> \<Union> (set ` set fss) \<and>
     md_versions db = md_versions db0 @ map fst cs \<and> run_bodies exec cs (md_schema db0) = Some (md_schema db))"

lemma runner_ok_mono: "runner_ok fs vs r \<Longrightarrow> vs \<subseteq> ws \<Longrightarrow> runner_ok fs ws r"
  by (auto simp: runner_ok_def split: runner.splits)

lemma committed_grows:
  assumes "committed_from exec fss db0 db" "exec b (md_schema db) = Some d" "(v, b) \<in> set fs" "fs \<in> set fss"
  shows "committed_from exec fss db0 (db\<lparr>md_schema := d, md_versions := md_versions db @ [v]\<rparr>)"
proof -
  obtain cs where "set cs \<subseteq> \<Union> (set ` set fss)" "md_versions db = md_versions db0 @ map fst cs"
    "run_bodies exec cs (md_schema db0) = Some (md_schema db)" using assms(1) by (auto simp: committed_from_def)
  then have "set (cs @ [(v, b)]) \<subseteq> \<Union> (set ` set fss)" "md_versions db @ [v] = md_versions db0 @ map fst (cs @ [(v, b)])"
    "run_bodies exec (cs @ [(v, b)]) (md_schema db0) = Some d"
    using assms by (auto simp: run_bodies_append)
  then show ?thesis unfolding committed_from_def by (intro exI [of _ "cs @ [(v, b)]"]) simp
qed

definition mig_inv :: "(string \<Rightarrow> 'd \<Rightarrow> 'd option) \<Rightarrow> (string \<times> string) list list \<Rightarrow> 'd mig_db \<Rightarrow> 'd mig_db \<times> runner list \<Rightarrow> bool" where
  "mig_inv exec fss db0 st \<longleftrightarrow>
     (case st of (db, rs) \<Rightarrow> length rs = length fss \<and> distinct (md_versions db) \<and> committed_from exec fss db0 db \<and>
        (\<forall>i < length rs. runner_ok (fss ! i) (set (md_versions db)) (rs ! i)))"

lemma mig_inv_update:
  assumes "mig_inv exec fss db0 (db, rs)" "distinct (md_versions db')" "committed_from exec fss db0 db'"
    "set (md_versions db) \<subseteq> set (md_versions db')" "i < length rs \<Longrightarrow> runner_ok (fss ! i) (set (md_versions db')) r"
  shows "mig_inv exec fss db0 (db', rs[i := r])"
proof -
  have "runner_ok (fss ! j) (set (md_versions db')) (rs[i := r] ! j)" if j: "j < length rs" for j
  proof (cases "j = i")
    case False
    have "runner_ok (fss ! j) (set (md_versions db)) (rs ! j)" using assms(1) j by (auto simp: mig_inv_def)
    then show ?thesis using runner_ok_mono [OF _ assms(4)] False by simp
  qed (use assms(5) j in simp)
  then show ?thesis using assms(1-3) by (simp add: mig_inv_def)
qed

lemma mig_step_inv:
  assumes "mig_step exec fss st st'" "mig_inv exec fss db0 st"
  shows "mig_inv exec fss db0 st'"
  using assms
proof cases
  case (commit i rs ap v b gs a db db')
  have ok: "runner_ok (fss ! i) (set (md_versions db)) (Applying ap ((v, b) # gs))" "fss ! i \<in> set fss"
    using assms(2) commit by (force simp: mig_inv_def)+
  then obtain hs where hs: "fss ! i = hs @ (v, b) # gs" "fst ` set hs \<subseteq> set (md_versions db)" "ap \<subseteq> set (md_versions db)"
    by (auto simp: runner_ok_def)
  obtain d where d: "exec b (md_schema db) = Some d" "v \<notin> set (md_versions db)"
    "db' = db\<lparr>md_schema := d, md_versions := md_versions db @ [v]\<rparr>"
    using applyOne_cases [of exec b db v a] commit by auto
  have inv: "distinct (md_versions db)" "committed_from exec fss db0 db" using assms(2) commit by (auto simp: mig_inv_def)
  have "(v, b) \<in> set (fss ! i)" using hs by simp
  then have "committed_from exec fss db0 db'" unfolding d(3) using committed_grows [OF inv(2) d(1)] ok(2) by blast
  moreover have "runner_ok (fss ! i) (set (md_versions db')) (Applying ap gs)"
    unfolding runner_ok_def using hs d by (auto intro!: exI [of _ "hs @ [(v, b)]"])
  moreover have "mig_inv exec fss db0 (db, rs)" "distinct (md_versions db')" "set (md_versions db) \<subseteq> set (md_versions db')"
    using assms(2) commit inv d by auto
  ultimately show ?thesis unfolding commit(2) by (intro mig_inv_update)
next
  case (abort i rs ap v b gs a db db')
  then have "db' = db" using applyOne_cases [of exec b db v a] by auto
  then show ?thesis using mig_inv_update [of exec fss db0 db rs db i] assms(2) abort
    by (simp add: runner_ok_def) (simp add: mig_inv_def)
next
  case (skip i rs ap v b gs db)
  then have "runner_ok (fss ! i) (set (md_versions db)) (Applying ap ((v, b) # gs))"
    using assms(2) by (force simp: mig_inv_def)
  then have "runner_ok (fss ! i) (set (md_versions db)) (Applying ap gs)"
    using skip unfolding runner_ok_def by (auto intro: exI [of _ "_ @ [(v, b)]"])
  then show ?thesis using mig_inv_update [of exec fss db0 db rs db i] assms(2) skip by (simp add: mig_inv_def)
next
  case (finish i rs ap db)
  then have "runner_ok (fss ! i) (set (md_versions db)) (Applying ap [])" using assms(2) by (force simp: mig_inv_def)
  then show ?thesis using mig_inv_update [of exec fss db0 db rs db i] assms(2) finish
    by (simp add: runner_ok_def) (simp add: mig_inv_def)
qed (auto intro!: mig_inv_update simp: runner_ok_def mig_inv_def nth_list_update)

text \<open>
  C31. However many replicas and services run their migrations at once on a database, no file takes effect
  twice: at every moment the schema is what the files recorded since the start make of the first one, in
  the order they were committed and each once, and a runner that has succeeded finds all of its files
  recorded.
\<close>

theorem migrations_once:
  assumes "mig_reach exec fss db0 (db, rs)" "distinct (md_versions db0)"
  shows "distinct (md_versions db) \<and> committed_from exec fss db0 db \<and>
    (\<forall>i < length rs. rs ! i = Ended True \<longrightarrow> fst ` set (fss ! i) \<subseteq> set (md_versions db))"
proof -
  have "mig_inv exec fss db0 st" if "mig_reach exec fss db0 st" for st
    using that
  proof (induction rule: mig_reach.induct)
    case start
    show ?case using assms(2)
      by (auto simp: mig_inv_def committed_from_def runner_ok_def intro!: exI [of _ "[]"])
  qed (rule mig_step_inv)
  from this [OF assms(1)] have inv: "mig_inv exec fss db0 (db, rs)" .
  have "fst ` set (fss ! i) \<subseteq> set (md_versions db)" if "i < length rs" "rs ! i = Ended True" for i
  proof -
    have "runner_ok (fss ! i) (set (md_versions db)) (rs ! i)" using inv that(1) by (auto simp: mig_inv_def)
    then show ?thesis using that(2) by (simp add: runner_ok_def)
  qed
  then show ?thesis using inv by (simp add: mig_inv_def)
qed

section \<open>Concrete runs\<close>

text \<open>A schema that is the list of the statements that made it; the second file of the example fails.\<close>

definition demo_exec :: "string \<Rightarrow> string list \<Rightarrow> string list option" where
  "demo_exec b d = (if b = ''bad'' then None else Some (d @ [b]))"

definition demo_files :: "embedded list" where
  "demo_files = [\<lparr>em_name = ''002_dashboards.sql'', em_dir = False, em_body = ''two''\<rparr>,
     \<lparr>em_name = ''001_initial_schema.sql'', em_dir = False, em_body = ''one''\<rparr>,
     \<lparr>em_name = ''README'', em_dir = False, em_body = []\<rparr>]"

lemma demo_tenant_files: "tenant_files demo_files = [(''001_initial_schema'', ''one''), (''002_dashboards'', ''two'')]"
  by code_simp

lemma demo_run:
  "ApplyMigrations demo_files demo_exec True True (\<lambda>_. tx_ok) \<lparr>md_schema = [], md_versions = []\<rparr> =
     (\<lparr>md_schema = [''one'', ''two''], md_versions = [''001_initial_schema'', ''002_dashboards'']\<rparr>, True)"
  unfolding ApplyMigrations_def demo_tenant_files by (simp add: applyOne_def tx_ok_def demo_exec_def)

theorem migrations_resume_witness:
  "ApplyMigrations demo_files demo_exec True True (\<lambda>_. tx_ok)
     (fst (ApplyMigrations demo_files demo_exec True True (\<lambda>v. if v = ''002_dashboards'' then tx_ok\<lparr>tx_commit := False\<rparr> else tx_ok)
        \<lparr>md_schema = [], md_versions = []\<rparr>)) =
     (\<lparr>md_schema = [''one'', ''two''], md_versions = [''001_initial_schema'', ''002_dashboards'']\<rparr>, True)"
  using migrations_resume [OF demo_run] by (simp add: demo_files_def)

lemma two_runners:
  "mig_reach demo_exec [[(''v'', ''one'')], [(''v'', ''one'')]] \<lparr>md_schema = [], md_versions = []\<rparr>
     (\<lparr>md_schema = [''one''], md_versions = [''v'']\<rparr>, [Ended True, Ended False])"
proof -
  let ?f = "[[(''v'', ''one'')], [(''v'', ''one'')]]" let ?S = "mig_step demo_exec ?f"
  let ?d0 = "\<lparr>md_schema = [], md_versions = []\<rparr> :: string list mig_db"
  let ?d1 = "\<lparr>md_schema = [''one''], md_versions = [''v'']\<rparr>" let ?p = "Applying {} [(''v'', ''one'')]"
  have "?S (?d0, [Waiting, Waiting]) (?d0, [?p, Waiting])"
    using mig_step.load [where i = 0 and rs = "[Waiting, Waiting]" and db = ?d0 and fss = ?f and exec = demo_exec] by simp
  moreover have "?S (?d0, [?p, Waiting]) (?d0, [?p, ?p])"
    using mig_step.load [where i = 1 and rs = "[?p, Waiting]" and db = ?d0 and fss = ?f and exec = demo_exec] by simp
  moreover have "?S (?d0, [?p, ?p]) (?d1, [Applying {} [], ?p])"
    using mig_step.commit [where i = 0 and rs = "[?p, ?p]" and db = ?d0 and db' = ?d1 and fss = ?f and exec = demo_exec and
      ap = "{}" and v = "''v''" and b = "''one''" and gs = "[]" and a = tx_ok]
    by (simp add: applyOne_def tx_ok_def demo_exec_def)
  moreover have "?S (?d1, [Applying {} [], ?p]) (?d1, [Applying {} [], Ended False])"
    using mig_step.abort [where i = 1 and rs = "[Applying {} [], ?p]" and db = ?d1 and db' = ?d1 and fss = ?f and exec = demo_exec and
      ap = "{}" and v = "''v''" and b = "''one''" and gs = "[]" and a = tx_ok]
    by (simp add: applyOne_def tx_ok_def demo_exec_def)
  moreover have "?S (?d1, [Applying {} [], Ended False]) (?d1, [Ended True, Ended False])"
    using mig_step.finish [where i = 0 and rs = "[Applying {} [], Ended False]" and db = ?d1 and fss = ?f and exec = demo_exec and ap = "{}"]
    by simp
  moreover have "mig_reach demo_exec ?f ?d0 (?d0, [Waiting, Waiting])"
    using mig_reach.start [of demo_exec ?f ?d0] by (simp add: numeral_2_eq_2)
  ultimately show ?thesis using mig_reach.more [of demo_exec ?f ?d0] by metis
qed

theorem migrations_once_witness:
  "fst ` {(''v'', ''one'')} \<subseteq> set (md_versions \<lparr>md_schema = [''one''], md_versions = [''v'']\<rparr>)"
  using migrations_once [OF two_runners] by auto

end
