(* ===== verification/ColdTier.thy ===== *)
theory ColdTier
  imports Ingest
begin

text \<open>
  The observer of the storage tiers (\<open>services/cold-tier/cmd/main.go\<close>): the loop that reads the parts of
  every table and disk from the database and shows them as gauges. What the database answers to each
  query is an input, and so is \<open>time.ParseDuration\<close>.
\<close>

section \<open>Configuration\<close>

record cold_config =
  cc_addr :: string
  cc_db :: string
  cc_http :: string
  cc_user :: string
  cc_interval :: int

definition cold_loadConfig :: "(string \<Rightarrow> int option) \<Rightarrow> env_vars \<Rightarrow> cold_config" where
  "cold_loadConfig parse_dur env =
     (let i = (case parse_dur (getEnv env ''OBSERVE_X_COLD_TIER_INTERVAL'' ''60s'') of Some d \<Rightarrow> d | None \<Rightarrow> 0)
      in \<lparr>cc_addr = getEnv env ''OBSERVE_X_CLICKHOUSE_ADDR'' ''localhost:9000'',
          cc_db = getEnv env ''OBSERVE_X_CLICKHOUSE_DB'' ''observex'',
          cc_http = getEnv env ''OBSERVE_X_COLD_TIER_ADDR'' '':7800'',
          cc_user = getEnv env ''OBSERVE_X_CLICKHOUSE_USER'' ''default'',
          cc_interval = (if i < 10 * second then 10 * second else i)\<rparr>)"

section \<open>One scrape\<close>

record part_row =
  pr_Table :: string
  pr_Disk :: string
  pr_Parts :: nat
  pr_Bytes :: nat

text \<open>An answer: \<open>None\<close> when the query fails; else the rows that arrive, \<open>None\<close> for one that does not scan,
  and whether the rows ended in an error.\<close>

type_synonym scrape_answer = "(part_row option list \<times> bool) option"

record cold_gauges =
  cg_parts :: "string \<times> string \<Rightarrow> f64 option"
  cg_bytes :: "string \<times> string \<Rightarrow> f64 option"

definition cold_start :: cold_gauges where
  "cold_start = \<lparr>cg_parts = (\<lambda>_. None), cg_bytes = (\<lambda>_. None)\<rparr>"

definition set_row :: "cold_gauges \<Rightarrow> part_row \<Rightarrow> cold_gauges" where
  "set_row g r =
     g\<lparr>cg_parts := (cg_parts g)((pr_Table r, pr_Disk r) \<mapsto> of_int64 (int (pr_Parts r))),
       cg_bytes := (cg_bytes g)((pr_Table r, pr_Disk r) \<mapsto> of_int64 (int (pr_Bytes r)))\<rparr>"

fun snapshot :: "part_row option list \<Rightarrow> part_row list" where
  "snapshot [] = []"
| "snapshot (None # rs) = snapshot rs"
| "snapshot (Some r # rs) = r # snapshot rs"

definition scrapeOnce :: "scrape_answer \<Rightarrow> cold_gauges \<Rightarrow> cold_gauges" where
  "scrapeOnce a g =
     (case a of
        None \<Rightarrow> g
      | Some (rows, broken) \<Rightarrow> foldl set_row (g\<lparr>cg_parts := (\<lambda>_. None), cg_bytes := (\<lambda>_. None)\<rparr>) (snapshot rows))"

text \<open>\<open>scrapeLoop\<close>: one scrape at the start and one for every tick until the context is done.\<close>

fun scrapeLoop :: "scrape_answer list \<Rightarrow> cold_gauges \<Rightarrow> cold_gauges" where
  "scrapeLoop [] g = g"
| "scrapeLoop (a # as) g = scrapeLoop as (scrapeOnce a g)"

section \<open>What the gauges show\<close>

lemma scrape_frame: "scrapeOnce (Some (rows, broken)) g = scrapeOnce (Some (rows, broken)) h"
proof -
  have "g\<lparr>cg_parts := (\<lambda>_. None), cg_bytes := (\<lambda>_. None)\<rparr> = h\<lparr>cg_parts := (\<lambda>_. None), cg_bytes := (\<lambda>_. None)\<rparr>"
    by (cases g; cases h) simp
  then show ?thesis by (simp only: scrapeOnce_def option.case prod.case)
qed

lemma fold_rows:
  "cg_parts (foldl set_row g rs) k = (case find (\<lambda>r. (pr_Table r, pr_Disk r) = k) (rev rs) of
      Some r \<Rightarrow> Some (of_int64 (int (pr_Parts r))) | None \<Rightarrow> cg_parts g k)"
  "cg_bytes (foldl set_row g rs) k = (case find (\<lambda>r. (pr_Table r, pr_Disk r) = k) (rev rs) of
      Some r \<Rightarrow> Some (of_int64 (int (pr_Bytes r))) | None \<Rightarrow> cg_bytes g k)"
  by (induction rs rule: rev_induct) (simp_all add: set_row_def split: option.splits)

lemma snapshot_set: "r \<in> set (snapshot rows) \<longleftrightarrow> Some r \<in> set rows"
  by (induction rows rule: snapshot.induct) auto

text \<open>
  The gauges are those of the last query that was answered, however many fail before and after it: a
  failed query changes nothing, and of an answer they show exactly the rows that could be read, also when
  the answer broke off, so that what had not arrived by then disappears.
\<close>

theorem gauges_last_answer:
  "scrapeLoop (bs @ Some (rows, broken) # replicate n None) g = scrapeOnce (Some (rows, broken)) cold_start \<and>
   (cg_parts (scrapeLoop (bs @ Some (rows, broken) # replicate n None) g) (t, d) = None \<longleftrightarrow>
     \<not> (\<exists>p b. Some \<lparr>pr_Table = t, pr_Disk = d, pr_Parts = p, pr_Bytes = b\<rparr> \<in> set rows))"
proof -
  have app: "scrapeLoop (xs @ ys) h = scrapeLoop ys (scrapeLoop xs h)" for xs ys h
    by (induction xs arbitrary: h) simp_all
  have none: "scrapeLoop (replicate m None) h = h" for m h
    by (induction m arbitrary: h) (simp_all add: scrapeOnce_def)
  have run: "scrapeLoop (bs @ Some (rows, broken) # replicate n None) g = scrapeOnce (Some (rows, broken)) cold_start"
    by (simp add: app none) (rule scrape_frame)
  have "cg_parts (scrapeOnce (Some (rows, broken)) cold_start) (t, d) = None \<longleftrightarrow>
      find (\<lambda>r. (pr_Table r, pr_Disk r) = (t, d)) (rev (snapshot rows)) = None"
    unfolding scrapeOnce_def option.case prod.case fold_rows(1)
    by (cases "find (\<lambda>r. (pr_Table r, pr_Disk r) = (t, d)) (rev (snapshot rows))") simp_all
  also have "\<dots> \<longleftrightarrow> (\<forall>r. Some r \<in> set rows \<longrightarrow> \<not> (pr_Table r = t \<and> pr_Disk r = d))"
    by (auto simp: find_None_iff snapshot_set)
  also have "\<dots> \<longleftrightarrow> \<not> (\<exists>p b. Some \<lparr>pr_Table = t, pr_Disk = d, pr_Parts = p, pr_Bytes = b\<rparr> \<in> set rows)"
  proof -
    have "Some \<lparr>pr_Table = t, pr_Disk = d, pr_Parts = pr_Parts r, pr_Bytes = pr_Bytes r\<rparr> \<in> set rows"
      if "Some r \<in> set rows" "pr_Table r = t" "pr_Disk r = d" for r using that by (cases r) simp
    then have "(\<exists>r. Some r \<in> set rows \<and> pr_Table r = t \<and> pr_Disk r = d) \<longleftrightarrow>
        (\<exists>p b. Some \<lparr>pr_Table = t, pr_Disk = d, pr_Parts = p, pr_Bytes = b\<rparr> \<in> set rows)" (is "?a \<longleftrightarrow> ?b")
    proof (intro iffI)
      assume ?b
      then obtain p b where "Some \<lparr>pr_Table = t, pr_Disk = d, pr_Parts = p, pr_Bytes = b\<rparr> \<in> set rows" by blast
      moreover have "pr_Table \<lparr>pr_Table = t, pr_Disk = d, pr_Parts = p, pr_Bytes = b\<rparr> = t"
        "pr_Disk \<lparr>pr_Table = t, pr_Disk = d, pr_Parts = p, pr_Bytes = b\<rparr> = d" by simp_all
      ultimately show ?a by blast
    qed blast
    then show ?thesis by blast
  qed
  finally show ?thesis using run by simp
qed

end
