(* ===== verification/Columnar.thy ===== *)
theory Columnar
  imports GoNum "HOL-Library.Multiset" "HOL-Library.List_Lexorder" "HOL-Library.Char_ord"
begin

text \<open>
  Query results as columns: the Parquet writer (\<open>pkg/parquetexport/parquetexport.go\<close>) and the Arrow stream
  of the query engine (\<open>executor/arrow.go\<close>). Both infer a schema from the first row and convert every value
  to its column's type. The Arrow and Parquet libraries receive typed batches; what they do with them is
  their own, and whether a batch can be written is an input. \<open>%v\<close> of a value is a parameter.
\<close>

section \<open>Values and columns\<close>

text \<open>The dynamic types the code tells apart. \<open>VUint\<close> is an unsigned value of up to 64 bits, \<open>VTime\<close> nanoseconds
  since 1970; \<open>VOther\<close> is any other type, strings included, given by its default format.\<close>

datatype cell_value = VNil | VBool bool | VInt int | VUint int | VFloat f64 | VTime int | VOther string

datatype col_type = CBool | CInt64 | CFloat64 | CTimestamp | CString

datatype entry = ENull | EBool bool | EInt int | EFloat f64 | ETime int | EString string

text \<open>A row is a Go map; the list is some order of its distinct keys.\<close>

type_synonym row_map = "(string \<times> cell_value) list"

definition cell :: "row_map \<Rightarrow> string \<Rightarrow> cell_value" where
  "cell r c = (case map_of r c of Some v \<Rightarrow> v | None \<Rightarrow> VNil)"

definition arrowTypeFor :: "cell_value \<Rightarrow> col_type" where
  "arrowTypeFor v =
     (case v of VBool _ \<Rightarrow> CBool | VInt _ \<Rightarrow> CInt64 | VUint _ \<Rightarrow> CInt64 | VFloat _ \<Rightarrow> CFloat64 | VTime _ \<Rightarrow> CTimestamp
      | _ \<Rightarrow> CString)"

text \<open>The insertion sort of the column names: each is moved left past the greater ones before it.\<close>

fun sink :: "string \<Rightarrow> string list \<Rightarrow> string list" where
  "sink x [] = [x]"
| "sink x (y # ys) = (if x < y then y # sink x ys else x # y # ys)"

definition sort_cols :: "string list \<Rightarrow> string list" where
  "sort_cols xs = foldl (\<lambda>cols x. rev (sink x (rev cols))) [] xs"

definition inferSchema :: "row_map \<Rightarrow> (string \<times> col_type) list" where
  "inferSchema r = map (\<lambda>c. (c, arrowTypeFor (cell r c))) (sort_cols (map fst r))"

text \<open>\<open>toInt64\<close> of the two packages differ on values of 2^63 and more.\<close>

definition parquet_toInt64 :: "cell_value \<Rightarrow> int" where
  "parquet_toInt64 v = (case v of VInt i \<Rightarrow> i | VUint u \<Rightarrow> wrap64 u | _ \<Rightarrow> 0)"

definition arrow_toInt64 :: "cell_value \<Rightarrow> int" where
  "arrow_toInt64 v = (case v of VInt i \<Rightarrow> i | VUint u \<Rightarrow> if 2 ^ 63 - 1 < u then 2 ^ 63 - 1 else u | _ \<Rightarrow> 0)"

definition toFloat64 :: "(cell_value \<Rightarrow> int) \<Rightarrow> cell_value \<Rightarrow> f64" where
  "toFloat64 toInt v = (case v of VFloat f \<Rightarrow> f | _ \<Rightarrow> of_int64 (toInt v))"

definition appendValue :: "(cell_value \<Rightarrow> int) \<Rightarrow> (cell_value \<Rightarrow> string) \<Rightarrow> col_type \<Rightarrow> cell_value \<Rightarrow> entry" where
  "appendValue toInt fmtv t v =
     (if v = VNil then ENull
      else case t of
        CBool \<Rightarrow> (case v of VBool b \<Rightarrow> EBool b | _ \<Rightarrow> ENull)
      | CInt64 \<Rightarrow> EInt (toInt v)
      | CFloat64 \<Rightarrow> EFloat (toFloat64 toInt v)
      | CTimestamp \<Rightarrow> (case v of VTime n \<Rightarrow> ETime (wrap64 n) | _ \<Rightarrow> ENull)
      | CString \<Rightarrow> EString (fmtv v))"

definition convert_row :: "(cell_value \<Rightarrow> int) \<Rightarrow> (cell_value \<Rightarrow> string) \<Rightarrow> (string \<times> col_type) list \<Rightarrow> row_map \<Rightarrow> entry list" where
  "convert_row toInt fmtv schema r = map (\<lambda>(c, t). appendValue toInt fmtv t (cell r c)) schema"

section \<open>The Parquet writer\<close>

definition row_group_size :: "int \<Rightarrow> nat" where
  "row_group_size n = nat (if n \<le> 0 then 64 * 1024 else n)"

text \<open>What \<open>Next\<close> returns, one after the other; \<open>io.EOF\<close> at the end.\<close>

datatype source_item = Row row_map | NextError

datatype write_error = FirstRow | NewWriter | Cancelled | NextFailed | BatchFailed

text \<open>\<open>alive i\<close>: the context is not done at the i-th turn of the loop; \<open>wok k\<close>: the k-th batch can be written.
  The result is the count returned, the error, and the batches written.\<close>

fun write_loop ::
  "(nat \<Rightarrow> bool) \<Rightarrow> (nat \<Rightarrow> bool) \<Rightarrow> nat \<Rightarrow> (row_map \<Rightarrow> entry list) \<Rightarrow> nat \<Rightarrow> nat \<Rightarrow> entry list list \<Rightarrow> entry list list list \<Rightarrow>
   source_item list \<Rightarrow> nat \<times> write_error option \<times> entry list list list" where
  "write_loop alive wok rg conv i cnt buf out [] =
     (if \<not> alive i then (cnt, Some Cancelled, out)
      else if buf = [] then (cnt, None, out)
      else if wok (length out) then (cnt, None, out @ [buf]) else (cnt, Some BatchFailed, out))"
| "write_loop alive wok rg conv i cnt buf out (NextError # src) =
     (if \<not> alive i then (cnt, Some Cancelled, out) else (cnt, Some NextFailed, out))"
| "write_loop alive wok rg conv i cnt buf out (Row r # src) =
     (if \<not> alive i then (cnt, Some Cancelled, out)
      else
        let buf' = buf @ [conv r]
        in if rg \<le> length buf' then
             (if wok (length out) then write_loop alive wok rg conv (i + 1) (cnt + 1) [] (out @ [buf']) src
              else (cnt + 1, Some BatchFailed, out))
           else write_loop alive wok rg conv (i + 1) (cnt + 1) buf' out src)"

record parquet_file =
  pf_schema :: "(string \<times> col_type) list"
  pf_batches :: "entry list list list"

text \<open>The file is \<open>None\<close> when nothing at all is written: for an empty source, and before the first row.\<close>

definition parquet_Write ::
  "(cell_value \<Rightarrow> string) \<Rightarrow> (nat \<Rightarrow> bool) \<Rightarrow> (nat \<Rightarrow> bool) \<Rightarrow> bool \<Rightarrow> int \<Rightarrow> source_item list \<Rightarrow>
   nat \<times> write_error option \<times> parquet_file option" where
  "parquet_Write fmtv alive wok writer_ok n0 src =
     (case src of
        [] \<Rightarrow> (0, None, None)
      | NextError # _ \<Rightarrow> (0, Some FirstRow, None)
      | Row r # rest \<Rightarrow>
          let schema = inferSchema r; conv = convert_row parquet_toInt64 fmtv schema
          in if \<not> writer_ok then (0, Some NewWriter, None)
             else (case write_loop alive wok (row_group_size n0) conv 0 1 [conv r] [] rest of
               (n, e, out) \<Rightarrow> (n, e, Some \<lparr>pf_schema = schema, pf_batches = out\<rparr>)))"

section \<open>The Arrow stream\<close>

text \<open>\<open>ExecuteArrow\<close> on the rows of the query: one record batch; an empty result has no columns.\<close>

definition arrow_schema :: "row_map list \<Rightarrow> (string \<times> col_type) list" where
  "arrow_schema rows = (case rows of [] \<Rightarrow> [] | r # _ \<Rightarrow> inferSchema r)"

datatype arrow_error = ArrowQuery | ArrowCancelled | ArrowWrite

definition ExecuteArrow ::
  "(cell_value \<Rightarrow> string) \<Rightarrow> (nat \<Rightarrow> bool) \<Rightarrow> bool \<Rightarrow> row_map list option \<Rightarrow>
   arrow_error + nat \<times> (string \<times> col_type) list \<times> entry list list" where
  "ExecuteArrow fmtv alive write_ok answer =
     (case answer of
        None \<Rightarrow> Inl ArrowQuery
      | Some rows \<Rightarrow>
          if list_ex (\<lambda>i. \<not> alive i) [0..<length rows] then Inl ArrowCancelled
          else if \<not> write_ok then Inl ArrowWrite
          else Inr (length rows, arrow_schema rows, map (convert_row arrow_toInt64 fmtv (arrow_schema rows)) rows))"

section \<open>The column order\<close>

lemma sink_mset: "mset (sink x ys) = add_mset x (mset ys)"
  by (induction ys) auto

lemma sink_sorted: "sorted (rev ys) \<Longrightarrow> sorted (rev (sink x ys))"
proof (induction ys)
  case (Cons y ys)
  have "set (sink x ys) = insert x (set ys)"
    by (metis sink_mset set_mset_mset set_mset_add_mset_insert)
  then show ?case using Cons by (auto simp: sorted_append)
qed simp

lemma sort_cols_sort: "sort_cols xs = sort xs"
proof -
  have "mset (foldl (\<lambda>cols x. rev (sink x (rev cols))) acc xs) = mset acc + mset xs \<and>
      (sorted acc \<longrightarrow> sorted (foldl (\<lambda>cols x. rev (sink x (rev cols))) acc xs))" for acc
    by (induction xs arbitrary: acc) (simp_all add: sink_mset sink_sorted)
  from this [of "[]"] have "mset (sort_cols xs) = mset xs" "sorted (sort_cols xs)" by (simp_all add: sort_cols_def)
  then show ?thesis by (metis properties_for_sort)
qed

section \<open>What is written\<close>

lemma write_loop_rows:
  assumes "length buf < max rg 2" "0 < rg"
  shows "\<exists>out'. write_loop (\<lambda>_. True) (\<lambda>_. True) rg conv i cnt buf out (map Row rs) = (cnt + length rs, None, out @ out') \<and>
    concat out' = buf @ map conv rs \<and> (\<forall>b \<in> set out'. b \<noteq> [] \<and> length b \<le> max rg 2)"
  using assms(1)
proof (induction rs arbitrary: i cnt buf out)
  case Nil
  then show ?case using assms by (cases "buf = []") (auto intro: exI [of _ "[buf]"])
next
  case (Cons r rs)
  let ?buf = "buf @ [conv r]"
  show ?case
  proof (cases "rg \<le> length ?buf")
    case True
    have "length [] < max rg 2" by simp
    from Cons.IH [OF this, of "i + 1" "cnt + 1" "out @ [?buf]"] obtain out' where o: "write_loop (\<lambda>_. True) (\<lambda>_. True) rg conv (i + 1) (cnt + 1) [] (out @ [?buf]) (map Row rs) =
        (cnt + 1 + length rs, None, (out @ [?buf]) @ out')" "concat out' = [] @ map conv rs"
      "\<forall>b \<in> set out'. b \<noteq> [] \<and> length b \<le> max rg 2" by auto
    have "length ?buf \<le> max rg 2" using Cons.prems by simp
    then show ?thesis using o True by (intro exI [of _ "?buf # out'"]) (simp add: Let_def)
  next
    case False
    then have "length ?buf < max rg 2" by simp
    from Cons.IH [OF this, of "i + 1" "cnt + 1" out] show ?thesis using False by (auto simp: Let_def)
  qed
qed

lemma row_group_pos: "0 < row_group_size n"
  by (simp add: row_group_size_def)

text \<open>
  A source that ends is written completely: every row once, in order, converted to the types of the
  first one, in batches that are not empty and hold at most as many rows as configured (two, when it is
  one), and their number is returned.
\<close>

theorem parquet_writes_all:
  "\<exists>out. parquet_Write fmtv (\<lambda>_. True) (\<lambda>_. True) True n0 (map Row (r # rs)) =
      (Suc (length rs), None, Some \<lparr>pf_schema = inferSchema r, pf_batches = out\<rparr>) \<and>
    concat out = map (convert_row parquet_toInt64 fmtv (inferSchema r)) (r # rs) \<and>
    (\<forall>b \<in> set out. b \<noteq> [] \<and> length b \<le> max (row_group_size n0) 2)"
proof -
  let ?c = "convert_row parquet_toInt64 fmtv (inferSchema r)"
  have "length [?c r] < max (row_group_size n0) 2" by simp
  from write_loop_rows [OF this row_group_pos, of ?c 0 1 "[]" rs]
  obtain out where "write_loop (\<lambda>_. True) (\<lambda>_. True) (row_group_size n0) ?c 0 1 [?c r] [] (map Row rs) = (1 + length rs, None, out)"
    "concat out = [?c r] @ map ?c rs" "\<forall>b \<in> set out. b \<noteq> [] \<and> length b \<le> max (row_group_size n0) 2" by auto
  then show ?thesis by (intro exI [of _ out]) (simp add: parquet_Write_def Let_def)
qed

fun rows_of :: "source_item list \<Rightarrow> row_map list" where
  "rows_of [] = []"
| "rows_of (Row r # src) = r # rows_of src"
| "rows_of (NextError # src) = []"

lemma write_loop_prefix:
  assumes "write_loop alive wok rg conv i cnt buf out src = (n, e, res)"
  shows "\<exists>m lost out'. n = cnt + m \<and> m \<le> length (rows_of src) \<and> res = out @ out' \<and>
    concat out' @ lost = buf @ map conv (take m (rows_of src)) \<and> (e = None \<longrightarrow> lost = [] \<and> m = length src)"
  using assms
proof (induction src arbitrary: i cnt buf out)
  case Nil
  then show ?case by (auto split: if_splits intro: exI [of _ 0])
next
  case (Cons s src)
  show ?case
  proof (cases s)
    case NextError
    then show ?thesis using Cons.prems by (auto split: if_splits)
  next
    case (Row r)
    let ?buf = "buf @ [conv r]"
    consider (stop) "(n, res) = (cnt, out)" "e \<noteq> None" | (bad) "(n, res) = (cnt + 1, out)" "e \<noteq> None"
      | (group) "write_loop alive wok rg conv (i + 1) (cnt + 1) [] (out @ [?buf]) src = (n, e, res)"
      | (more) "write_loop alive wok rg conv (i + 1) (cnt + 1) ?buf out src = (n, e, res)"
      using Cons.prems Row by (auto simp: Let_def split: if_splits)
    then show ?thesis
    proof cases
      case stop
      then show ?thesis using Row by (intro exI [of _ 0] exI [of _ buf] exI [of _ "[]"]) simp
    next
      case bad
      then show ?thesis using Row by (intro exI [of _ 1] exI [of _ ?buf] exI [of _ "[]"]) simp
    next
      case group
      from Cons.IH [OF this] obtain m lost out' where "n = cnt + 1 + m" "m \<le> length (rows_of src)"
        "res = (out @ [?buf]) @ out'" "concat out' @ lost = map conv (take m (rows_of src))"
        "e = None \<longrightarrow> lost = [] \<and> m = length src" by auto
      then show ?thesis using Row by (intro exI [of _ "Suc m"] exI [of _ lost] exI [of _ "?buf # out'"]) simp
    next
      case more
      from Cons.IH [OF this] obtain m lost out' where "n = cnt + 1 + m" "m \<le> length (rows_of src)" "res = out @ out'"
        "concat out' @ lost = ?buf @ map conv (take m (rows_of src))" "e = None \<longrightarrow> lost = [] \<and> m = length src" by auto
      then show ?thesis using Row by (intro exI [of _ "Suc m"] exI [of _ lost] exI [of _ out']) simp
    qed
  qed
qed

text \<open>
  However the writing ends, the file holds a prefix of the rows of the source, never a gap and never a
  row twice; without an error it holds all of them, and with one the count that is returned may include
  rows that were read and are lost.
\<close>

theorem parquet_prefix:
  assumes "parquet_Write fmtv alive wok writer_ok n0 src = (n, e, Some f)"
  shows "\<exists>lost. concat (pf_batches f) @ lost =
      map (convert_row parquet_toInt64 fmtv (pf_schema f)) (take n (rows_of src)) \<and> n \<le> length (rows_of src) \<and>
    (e = None \<longrightarrow> lost = [] \<and> n = length src)"
proof -
  obtain r rest where s: "src = Row r # rest" using assms
    by (auto simp: parquet_Write_def split: list.splits source_item.splits)
  let ?c = "convert_row parquet_toInt64 fmtv (inferSchema r)"
  obtain out where w: "write_loop alive wok (row_group_size n0) ?c 0 1 [?c r] [] rest = (n, e, out)"
    and f: "f = \<lparr>pf_schema = inferSchema r, pf_batches = out\<rparr>"
    using assms by (auto simp: s parquet_Write_def Let_def split: if_splits prod.splits)
  from write_loop_prefix [OF w] obtain m lost out' where "n = 1 + m" "m \<le> length (rows_of rest)" "out = out'"
    "concat out' @ lost = [?c r] @ map ?c (take m (rows_of rest))" "e = None \<longrightarrow> lost = [] \<and> m = length rest" by auto
  then show ?thesis by (intro exI [of _ lost]) (simp add: s f)
qed

section \<open>The two encodings\<close>

definition fits_int64 :: "cell_value \<Rightarrow> bool" where
  "fits_int64 v \<longleftrightarrow> (case v of VUint u \<Rightarrow> 0 \<le> u \<and> u < 2 ^ 63 | _ \<Rightarrow> True)"

lemma toInt64_agree: "fits_int64 v \<Longrightarrow> parquet_toInt64 v = arrow_toInt64 v"
  by (cases v) (auto simp: fits_int64_def parquet_toInt64_def arrow_toInt64_def wrap64_id)

lemma convert_agree:
  assumes "\<forall>(c, v) \<in> set r. fits_int64 v"
  shows "convert_row parquet_toInt64 fmtv sch r = convert_row arrow_toInt64 fmtv sch r"
proof -
  have fits: "fits_int64 (cell r c)" for c using assms
    by (auto simp: cell_def fits_int64_def split: option.split dest!: map_of_SomeD)
  have "appendValue parquet_toInt64 fmtv t v = appendValue arrow_toInt64 fmtv t v" if "fits_int64 v" for v t
    using toInt64_agree [OF that] by (cases t; cases v) (simp_all add: appendValue_def toFloat64_def)
  then have "appendValue parquet_toInt64 fmtv t (cell r c) = appendValue arrow_toInt64 fmtv t (cell r c)" for c t
    using fits by blast
  then show ?thesis by (simp add: convert_row_def)
qed

text \<open>
  A result reads the same in both formats: the rows of a Parquet export are those of the Arrow stream,
  with the same columns in the same order, unless a value is an unsigned integer of 2^63 or more; such a
  value is the largest integer in Arrow and a negative one in Parquet.
\<close>

theorem parquet_equals_arrow:
  assumes "\<forall>r \<in> set (r0 # rs). \<forall>(c, v) \<in> set r. fits_int64 v"
  shows "\<exists>out. parquet_Write fmtv (\<lambda>_. True) (\<lambda>_. True) True n0 (map Row (r0 # rs)) =
      (length (r0 # rs), None, Some \<lparr>pf_schema = inferSchema r0, pf_batches = out\<rparr>) \<and>
    ExecuteArrow fmtv (\<lambda>_. True) True (Some (r0 # rs)) = Inr (length (r0 # rs), inferSchema r0, concat out) \<and>
    parquet_toInt64 (VUint (2 ^ 63)) = - (2 ^ 63) \<and> arrow_toInt64 (VUint (2 ^ 63)) = 2 ^ 63 - 1"
proof -
  let ?p = "convert_row parquet_toInt64 fmtv (inferSchema r0)" let ?a = "convert_row arrow_toInt64 fmtv (inferSchema r0)"
  have eq: "map ?p (r0 # rs) = map ?a (r0 # rs)" using assms convert_agree by (intro map_cong) blast+
  have "length [?p r0] < max (row_group_size n0) 2" by simp
  then have "\<exists>out. write_loop (\<lambda>_. True) (\<lambda>_. True) (row_group_size n0) ?p 0 1 [?p r0] [] (map Row rs) = (1 + length rs, None, out) \<and>
      concat out = map ?p (r0 # rs)"
    using write_loop_rows [of "[?p r0]" "row_group_size n0" ?p 0 1 "[]" rs] row_group_pos by auto
  then obtain out where out: "write_loop (\<lambda>_. True) (\<lambda>_. True) (row_group_size n0) ?p 0 1 [?p r0] [] (map Row rs) = (1 + length rs, None, out)"
    "concat out = map ?a (r0 # rs)" using eq by auto
  have "\<not> list_ex (\<lambda>i. \<not> True) [0..<length (r0 # rs)]" by (simp add: list_ex_iff)
  then show ?thesis using out
    by (intro exI [of _ out]) (simp add: parquet_Write_def Let_def ExecuteArrow_def arrow_schema_def parquet_toInt64_def
        arrow_toInt64_def wrap64_def)
qed

text \<open>
  The first row decides: where it has no value the column is a text column, and every number of the
  rest becomes the text of it; where it has an integer, every other kind of value becomes zero; a column
  it does not have is left out.
\<close>

theorem first_row_decides:
  "(cell r0 c = VNil \<longrightarrow> appendValue parquet_toInt64 fmtv (arrowTypeFor (cell r0 c)) (VInt i) = EString (fmtv (VInt i))) \<and>
   (cell r0 c = VInt j \<longrightarrow> appendValue parquet_toInt64 fmtv (arrowTypeFor (cell r0 c)) (VFloat f) = EInt 0 \<and>
     appendValue parquet_toInt64 fmtv (arrowTypeFor (cell r0 c)) (VOther t) = EInt 0) \<and>
   map fst (inferSchema r0) = sort (map fst r0)"
  by (simp add: appendValue_def arrowTypeFor_def parquet_toInt64_def inferSchema_def sort_cols_sort comp_def)

section \<open>A concrete result\<close>

theorem parquet_prefix_witness:
  "\<exists>f. parquet_Write (\<lambda>_. []) (\<lambda>_. True) (\<lambda>_. True) True 2 [Row [(''a'', VInt 1)], Row [(''a'', VInt 2)], Row [(''a'', VInt 3)], NextError] =
      (3, Some NextFailed, Some f) \<and> pf_batches f = [[[EInt 1], [EInt 2]]] \<and>
    (\<exists>lost. concat (pf_batches f) @ lost = [[EInt 1], [EInt 2], [EInt 3]])"
proof -
  let ?f = "\<lparr>pf_schema = [(''a'', CInt64)], pf_batches = [[[EInt 1], [EInt 2]]]\<rparr>"
  have w: "parquet_Write (\<lambda>_. []) (\<lambda>_. True) (\<lambda>_. True) True 2
      [Row [(''a'', VInt 1)], Row [(''a'', VInt 2)], Row [(''a'', VInt 3)], NextError] = (3, Some NextFailed, Some ?f)"
    by (simp add: parquet_Write_def inferSchema_def sort_cols_def row_group_size_def cell_def arrowTypeFor_def convert_row_def
        appendValue_def parquet_toInt64_def Let_def)
  from parquet_prefix [OF w] show ?thesis
    using w by (auto simp: convert_row_def appendValue_def cell_def parquet_toInt64_def)
qed

theorem parquet_equals_arrow_witness:
  "\<exists>out. ExecuteArrow (\<lambda>_. []) (\<lambda>_. True) True (Some [[(''a'', VUint 7)]]) = Inr (1, [(''a'', CInt64)], concat out)"
  using parquet_equals_arrow [of "[(''a'', VUint 7)]" "[]" "\<lambda>_. []" 0]
  by (auto simp: fits_int64_def inferSchema_def sort_cols_def cell_def arrowTypeFor_def)

end
