(* ===== verification/Federation.thy ===== *)
theory Federation
  imports Columnar
begin

text \<open>
  Queries over several stores (\<open>pkg/federation\<close>): the router from sources to backends, the union of the
  answers of several sources, and the DuckDB adapter. A backend is a parameter that answers a statement by
  rows or by an error; the goroutines of a union only write their own slots, so their order does not
  matter. \<open>%v\<close> is a parameter.
\<close>

section \<open>The router\<close>

type_synonym fed_params = "cell_value list"
type_synonym fed_backend = "string \<Rightarrow> fed_params \<Rightarrow> string + row_map list"

datatype fed_error = NoBackend string | BackendError string | FromSource string fed_error | DuckUnsupported | DuckOpen | DuckPragma string

record fed_router =
  fr_backends :: "string \<rightharpoonup> fed_backend"
  fr_defaults :: "fed_backend option"

definition NewRouter :: "fed_backend option \<Rightarrow> fed_router" where
  "NewRouter d = \<lparr>fr_backends = Map.empty, fr_defaults = d\<rparr>"

definition Register :: "string \<Rightarrow> fed_backend \<Rightarrow> fed_router \<Rightarrow> fed_router" where
  "Register src b r = r\<lparr>fr_backends := (fr_backends r)(src \<mapsto> b)\<rparr>"

definition fed_Execute :: "fed_router \<Rightarrow> string \<Rightarrow> string \<Rightarrow> fed_params \<Rightarrow> fed_error + row_map list" where
  "fed_Execute r src sql ps =
     (case (case fr_backends r src of Some b \<Rightarrow> Some b | None \<Rightarrow> fr_defaults r) of
        None \<Rightarrow> Inl (NoBackend src)
      | Some b \<Rightarrow> map_sum BackendError id (b sql ps))"

text \<open>\<open>tsKey\<close>: the text of the first of four columns a row has.\<close>

definition tsKey :: "(cell_value \<Rightarrow> string) \<Rightarrow> row_map \<Rightarrow> string" where
  "tsKey fmtv m =
     (case find (\<lambda>k. map_of m k \<noteq> None) [''_ts'', ''timestamp'', ''start_time'', ''ts''] of
        Some k \<Rightarrow> fmtv (the (map_of m k))
      | None \<Rightarrow> [])"

text \<open>The slots in the order of the sources: the rows up to the first error, and that error.\<close>

fun collect :: "(string \<times> (fed_error + row_map list)) list \<Rightarrow> fed_error option \<Rightarrow> row_map list \<Rightarrow> fed_error option \<times> row_map list" where
  "collect [] e out = (e, out)"
| "collect ((src, Inl x) # slots) e out = collect slots (if e = None then Some (FromSource src x) else e) out"
| "collect ((src, Inr rows) # slots) e out = collect slots e (if e = None then out @ rows else out)"

definition ExecuteUnion ::
  "(cell_value \<Rightarrow> string) \<Rightarrow> fed_router \<Rightarrow> string list \<Rightarrow> string \<Rightarrow> fed_params \<Rightarrow> fed_error + row_map list" where
  "ExecuteUnion fmtv r sources sql ps =
     (if sources = [] then Inr []
      else
        (case collect (map (\<lambda>s. (s, fed_Execute r s sql ps)) sources) None [] of
           (Some e, _) \<Rightarrow> Inl e
         | (None, out) \<Rightarrow> Inr (sort_key (tsKey fmtv) out)))"

section \<open>The DuckDB adapter\<close>

record duck_options =
  do_S3Region :: string
  do_S3Endpoint :: string
  do_HTTPSOnly :: bool
  do_MaxMemoryMB :: int
  do_Threads :: int

definition single_quote :: char where
  "single_quote = char_of (39 :: nat)"

definition duck_pragmas :: "duck_options \<Rightarrow> string list" where
  "duck_pragmas p =
     [''INSTALL httpfs'', ''LOAD httpfs''] @
     (if do_S3Region p \<noteq> [] then [''SET s3_region='' @ [single_quote] @ do_S3Region p @ [single_quote]] else []) @
     (if do_S3Endpoint p \<noteq> [] then [''SET s3_endpoint='' @ [single_quote] @ do_S3Endpoint p @ [single_quote]] else []) @
     (if \<not> do_HTTPSOnly p then [''SET s3_use_ssl=false''] else []) @
     (if 0 < do_MaxMemoryMB p then [''PRAGMA memory_limit='' @ [single_quote] @ show_int (do_MaxMemoryMB p) @ ''MB'' @ [single_quote]] else []) @
     (if 0 < do_Threads p then [''PRAGMA threads='' @ show_int (do_Threads p)] else [])"

text \<open>\<open>tagged\<close>: the build has the \<open>duckdb\<close> tag; \<open>exec\<close> says whether a statement succeeds. A row that is read is
  the list of its values; where two columns have one name the later one stays.\<close>

definition NewDuckDBBackend :: "bool \<Rightarrow> bool \<Rightarrow> (string \<Rightarrow> bool) \<Rightarrow> duck_options \<Rightarrow> fed_error + unit" where
  "NewDuckDBBackend tagged opens exec p =
     (if \<not> tagged then Inl DuckUnsupported
      else if \<not> opens then Inl DuckOpen
      else case find (\<lambda>s. \<not> exec s) (duck_pragmas p) of Some s \<Rightarrow> Inl (DuckPragma s) | None \<Rightarrow> Inr ())"

fun row_of_columns :: "string list \<Rightarrow> cell_value list \<Rightarrow> row_map" where
  "row_of_columns (c # cs) (v # vs) =
     (let r = row_of_columns cs vs in if map_of r c = None then (c, v) # r else r)"
| "row_of_columns _ _ = []"

definition duck_Execute ::
  "(string \<Rightarrow> fed_params \<Rightarrow> (string list \<times> cell_value list option list \<times> bool) option) \<Rightarrow> fed_backend" where
  "duck_Execute query sql ps =
     (case query sql ps of
        None \<Rightarrow> Inl ''query''
      | Some (cols, rows, ended) \<Rightarrow>
          (case those rows of
             None \<Rightarrow> Inl ''scan''
           | Some vs \<Rightarrow> if ended then Inr (map (row_of_columns cols) vs) else Inl ''rows''))"

section \<open>The union\<close>

lemma collect_ok: "map snd slots = map Inr rss \<Longrightarrow> collect slots None out = (None, out @ concat rss)"
proof (induction slots arbitrary: rss out)
  case (Cons s slots)
  then obtain rs rss' where "rss = rs # rss'" "snd s = Inr rs" "map snd slots = map Inr rss'" by (cases rss) auto
  then show ?case using Cons.IH [of rss' "out @ rs"] by (cases s) simp
qed simp

lemma collect_stuck: "collect slots (Some e) out = (Some e, out)"
  by (induction slots "Some e" out rule: collect.induct) simp_all

lemma collect_first:
  "\<forall>u \<in> set us. \<exists>rs. snd u = Inr rs \<Longrightarrow> fst (collect (us @ (src, Inl x) # vs) None out) = Some (FromSource src x)"
proof (induction us arbitrary: out)
  case (Cons u us)
  then obtain rs where "snd u = Inr rs" by auto
  then show ?case using Cons by (cases u) simp
qed (simp add: collect_stuck)

text \<open>
  A union is all or nothing: when every source answers, the result has every row of every source
  once, ordered by the text of their time column, rows with the same text in the order of the sources;
  when some source fails, the result is the error of the first one that does, in the order they were named.
\<close>

theorem union_merges:
  "case ExecuteUnion fmtv r sources sql ps of
     Inr out \<Rightarrow> \<exists>rss. map (\<lambda>s. fed_Execute r s sql ps) sources = map Inr rss \<and> sorted (map (tsKey fmtv) out) \<and>
       mset out = mset (concat rss) \<and>
       (\<forall>k. filter (\<lambda>m. tsKey fmtv m = k) out = filter (\<lambda>m. tsKey fmtv m = k) (concat rss))
   | Inl e \<Rightarrow> \<exists>us s x vs. sources = us @ s # vs \<and> fed_Execute r s sql ps = Inl x \<and> e = FromSource s x \<and>
       list_all (\<lambda>u. \<exists>rs. fed_Execute r u sql ps = Inr rs) us"
proof (cases "list_all (\<lambda>u. \<exists>rs. fed_Execute r u sql ps = Inr rs) sources")
  case True
  define rss where "rss = map (\<lambda>s. projr (fed_Execute r s sql ps)) sources"
  have rss: "map (\<lambda>s. fed_Execute r s sql ps) sources = map Inr rss"
    using True by (auto simp: rss_def list_all_iff)
  then have "collect (map (\<lambda>s. (s, fed_Execute r s sql ps)) sources) None [] = (None, concat rss)"
    using collect_ok [of "map (\<lambda>s. (s, fed_Execute r s sql ps)) sources" rss "[]"] by (simp add: comp_def)
  then have "ExecuteUnion fmtv r sources sql ps = Inr (sort_key (tsKey fmtv) (concat rss))"
    using rss by (cases "sources = []") (simp_all add: ExecuteUnion_def)
  then show ?thesis using rss sort_key_stable by auto
next
  case False
  then have "\<exists>s \<in> set sources. \<not> (\<exists>rs. fed_Execute r s sql ps = Inr rs)" by (auto simp: list_all_iff)
  then obtain us s vs where s: "sources = us @ s # vs" "\<not> (\<exists>rs. fed_Execute r s sql ps = Inr rs)"
    "\<forall>u \<in> set us. \<exists>rs. fed_Execute r u sql ps = Inr rs"
    using split_list_first_prop [of sources "\<lambda>s. \<not> (\<exists>rs. fed_Execute r s sql ps = Inr rs)"] by blast
  obtain x where x: "fed_Execute r s sql ps = Inl x" using s(2) by (cases "fed_Execute r s sql ps") auto
  have "fst (collect (map (\<lambda>s. (s, fed_Execute r s sql ps)) sources) None []) = Some (FromSource s x)"
    unfolding s(1) using collect_first [of "map (\<lambda>s. (s, fed_Execute r s sql ps)) us" s x] s(3) by (simp add: x)
  then have "ExecuteUnion fmtv r sources sql ps = Inl (FromSource s x)"
    using s(1) by (cases "collect (map (\<lambda>s. (s, fed_Execute r s sql ps)) sources) None []") (simp add: ExecuteUnion_def)
  then show ?thesis using s x by (auto simp: list_all_iff)
qed

text \<open>
  The order of a union is that of texts: a row with the number 9 in its time column comes after one
  with the number 10.
\<close>

theorem union_orders_texts:
  "ExecuteUnion (\<lambda>v. case v of VInt i \<Rightarrow> show_int i | _ \<Rightarrow> []) (NewRouter (Some (\<lambda>_ _. Inr [[(''ts'', VInt 9)], [(''ts'', VInt 10)]])))
     [''metrics''] sql ps = Inr [[(''ts'', VInt 10)], [(''ts'', VInt 9)]]"
proof -
  have "show_int 9 = ''9''" "show_int 10 = ''10''" by code_simp+
  then show ?thesis by (simp add: ExecuteUnion_def NewRouter_def fed_Execute_def tsKey_def)
qed

end
