(* ===== verification/PluginHost.thy ===== *)
theory PluginHost
  imports Bytes Json
begin

text \<open>
  The host of WebAssembly plugins (\<open>pkg/plugin/host.go\<close>): loading, and the call that hands a document to a
  plugin and reads its answer from the guest's memory. The WebAssembly runtime is a parameter: what the
  exported functions do to the guest, and what becomes of an attempt to instantiate a module. A trap, a
  fault and a deadline that passes are the answer \<open>None\<close> of a function. A Go panic is \<open>None\<close>.
\<close>

section \<open>Options\<close>

record plugin_options =
  po_MemoryPages :: nat
  po_CallTimeout :: int

definition plugin_defaults :: "plugin_options \<Rightarrow> plugin_options" where
  "plugin_defaults o0 =
     (let o1 = (if po_MemoryPages o0 = 0 then o0\<lparr>po_MemoryPages := 256\<rparr> else o0)
      in if po_CallTimeout o1 \<le> 0 then o1\<lparr>po_CallTimeout := 50000000\<rparr> else o1)"

section \<open>Packed pointers\<close>

definition PackPtrLen :: "32 word \<Rightarrow> 32 word \<Rightarrow> 64 word" where
  "PackPtrLen p n = push_bit 32 (ucast p) OR ucast n"

definition UnpackPtrLen :: "64 word \<Rightarrow> 32 word \<times> 32 word" where
  "UnpackPtrLen u = (ucast (drop_bit 32 u), ucast (u AND 0xFFFFFFFF))"

section \<open>The guest\<close>

record 'g guest =
  gm_mem :: "byte list"
  gm_open :: bool
  gm_state :: 'g

record 'g guest_code =
  gc_alloc :: "'g guest \<Rightarrow> 32 word \<Rightarrow> 'g guest \<times> 32 word option"
  gc_free :: "'g guest \<Rightarrow> 32 word \<Rightarrow> 32 word \<Rightarrow> 'g guest"
  gc_enrich :: "'g guest \<Rightarrow> 32 word \<Rightarrow> 32 word \<Rightarrow> 'g guest \<times> 64 word option"

definition mem_read :: "'g guest \<Rightarrow> 32 word \<Rightarrow> 32 word \<Rightarrow> byte list option" where
  "mem_read g p n = (if unat p + unat n \<le> length (gm_mem g) then Some (take (unat n) (drop (unat p) (gm_mem g))) else None)"

definition mem_write :: "'g guest \<Rightarrow> 32 word \<Rightarrow> byte list \<Rightarrow> 'g guest option" where
  "mem_write g p bs =
     (if unat p + length bs \<le> length (gm_mem g)
      then Some (g\<lparr>gm_mem := take (unat p) (gm_mem g) @ bs @ drop (unat p + length bs) (gm_mem g)\<rparr>) else None)"

section \<open>The host\<close>

text \<open>\<open>ph_plugins\<close> is \<open>None\<close> once the host is closed (a nil map); \<open>ph_names\<close> are the names of the modules the
  runtime has instantiated.\<close>

record 'g host =
  ph_opts :: plugin_options
  ph_plugins :: "(string \<rightharpoonup> 'g guest_code \<times> 'g guest) option"
  ph_names :: "string list"

definition NewHost :: "plugin_options \<Rightarrow> 'g host" where
  "NewHost o0 = \<lparr>ph_opts = plugin_defaults o0, ph_plugins = Some Map.empty, ph_names = [''env'']\<rparr>"

definition host_Close :: "'g host \<Rightarrow> 'g host" where
  "host_Close h = h\<lparr>ph_plugins := None, ph_names := []\<rparr>"

text \<open>What instantiating a module gives: \<open>exports\<close> says whether the three functions and the memory are there.\<close>

datatype 'g inst_answer = NoCompile | NoInstance | Instance bool "'g guest_code" "'g guest"

datatype load_error = NameRequired | Compile | Instantiate | MissingExports

definition Load ::
  "(string list \<Rightarrow> string \<Rightarrow> byte list \<Rightarrow> 'g inst_answer) \<Rightarrow> string \<Rightarrow> byte list \<Rightarrow> 'g host \<Rightarrow>
   ('g host \<times> (load_error + unit)) option" where
  "Load runtime name bytes h =
     (if name = [] then Some (h, Inl NameRequired)
      else case runtime (ph_names h) name bytes of
        NoCompile \<Rightarrow> Some (h, Inl Compile)
      | NoInstance \<Rightarrow> Some (h, Inl Instantiate)
      | Instance exports code g \<Rightarrow>
          if \<not> exports then Some (h, Inl MissingExports)
          else (case ph_plugins h of
            None \<Rightarrow> None
          | Some ps \<Rightarrow>
              let names = (if ps name \<noteq> None then remove1 name (ph_names h) else ph_names h)
              in Some (h\<lparr>ph_plugins := Some (ps(name \<mapsto> (code, g))), ph_names := name # names\<rparr>, Inr ())))"

definition host_Get :: "'g host \<Rightarrow> string \<Rightarrow> ('g guest_code \<times> 'g guest) option" where
  "host_Get h name = (case ph_plugins h of Some ps \<Rightarrow> ps name | None \<Rightarrow> None)"

section \<open>What a plugin may call\<close>

text \<open>The name a callback is stamped with; the calls to \<open>free\<close> and the start function of a module run without
  the one of the plugin.\<close>

definition pluginName :: "string option \<Rightarrow> string" where
  "pluginName v = (case v of Some n \<Rightarrow> if n = [] then ''unknown'' else n | None \<Rightarrow> ''unknown'')"

text \<open>\<open>log_info\<close> and \<open>metric_inc\<close>: what the hook is handed, if there is a hook.\<close>

definition env_hook_call ::
  "bool \<Rightarrow> string option \<Rightarrow> 'g guest \<Rightarrow> 32 word \<Rightarrow> 32 word \<Rightarrow> (string \<times> byte list) option" where
  "env_hook_call hooked ctx g p n =
     (if \<not> hooked then None
      else case mem_read g p n of None \<Rightarrow> None | Some buf \<Rightarrow> Some (pluginName ctx, buf))"

section \<open>\<open>EnrichSignal\<close>\<close>

datatype guest_call = CallAlloc "32 word" | CallEnrich "32 word" "32 word" | CallFree "32 word" "32 word"

datatype plugin_error = NotLoaded | MarshalInput | AllocTrap | WriteInput | EnrichTrap | ReadOutput | InvalidOutput

datatype enrichment = PassThrough | Enriched "byte list"

text \<open>\<open>json.Unmarshal\<close> into a map, for numbers in the range of a float.\<close>

definition json_object :: "byte list \<Rightarrow> bool" where
  "json_object bs =
     (let s = map (\<lambda>b. char_of (unat b)) bs; body = dropWhile jspace s
      in json_valid s \<and> (take 1 body = ''{'' \<or> take 4 body = ''null''))"

definition put_guest :: "string \<Rightarrow> 'g guest_code \<Rightarrow> 'g guest \<Rightarrow> 'g host \<Rightarrow> 'g host" where
  "put_guest name code g h = h\<lparr>ph_plugins := map_option (\<lambda>ps. ps(name \<mapsto> (code, g))) (ph_plugins h)\<rparr>"

text \<open>The part after the input is in place: the guest, the calls made, and the result. The output is freed
  before the input (deferred calls run last first).\<close>

definition call_enrich ::
  "'g guest_code \<Rightarrow> 'g guest \<Rightarrow> 32 word \<Rightarrow> 32 word \<Rightarrow> 'g guest \<times> guest_call list \<times> (plugin_error + enrichment)" where
  "call_enrich code g p n =
     (case gc_enrich code g p n of
        (g1, None) \<Rightarrow> (g1, [CallEnrich p n], Inl EnrichTrap)
      | (g1, Some packed) \<Rightarrow>
          let q = ucast (drop_bit 32 packed); m = ucast (packed AND 0xFFFFFFFF)
          in if q = 0 \<and> m = 0 then (g1, [CallEnrich p n], Inr PassThrough)
             else case mem_read g1 q m of
               None \<Rightarrow> (g1, [CallEnrich p n], Inl ReadOutput)
             | Some bs \<Rightarrow> (gc_free code g1 q m, [CallEnrich p n, CallFree q m],
                 if json_object bs then Inr (Enriched bs) else Inl InvalidOutput))"

text \<open>\<open>doc\<close> is the JSON text of the input, \<open>None\<close> when it cannot be marshalled; it is shorter than 4 GiB.\<close>

definition EnrichSignal ::
  "string \<Rightarrow> byte list option \<Rightarrow> 'g host \<Rightarrow> 'g host \<times> guest_call list \<times> (plugin_error + enrichment)" where
  "EnrichSignal name doc h =
     (case host_Get h name of
        None \<Rightarrow> (h, [], Inl NotLoaded)
      | Some (code, g) \<Rightarrow>
          (case doc of
             None \<Rightarrow> (h, [], Inl MarshalInput)
           | Some bs \<Rightarrow>
               let n = of_nat (length bs)
               in (case gc_alloc code g n of
                     (g1, None) \<Rightarrow> (put_guest name code g1 h, [CallAlloc n], Inl AllocTrap)
                   | (g1, Some p) \<Rightarrow>
                       (case mem_write g1 p bs of
                          None \<Rightarrow> (put_guest name code (gc_free code g1 p n) h, [CallAlloc n, CallFree p n], Inl WriteInput)
                        | Some g2 \<Rightarrow>
                            (case call_enrich code g2 p n of
                               (g3, calls, r) \<Rightarrow>
                                 (put_guest name code (gc_free code g3 p n) h, CallAlloc n # calls @ [CallFree p n], r))))))"

section \<open>Packing\<close>

lemma unpack_pack: "UnpackPtrLen (PackPtrLen p n) = (p, n)"
proof -
  have hi: "ucast (drop_bit 32 (push_bit 32 (ucast p) OR ucast n :: 64 word)) = p" for p n :: "32 word"
    by (intro bit_eqI) (auto simp: bit_simps dest: bit_imp_le_length)
  have m: "(0xFFFFFFFF :: 64 word) = mask 32" by (simp add: mask_eq_exp_minus_1)
  have lo: "ucast ((push_bit 32 (ucast p) OR ucast n :: 64 word) AND mask 32) = n" for p n :: "32 word"
    by (intro bit_eqI) (auto simp: bit_simps)
  show ?thesis unfolding UnpackPtrLen_def PackPtrLen_def m hi lo ..
qed

text \<open>
  A pointer and a length survive the packing into one result, whatever they are, and the host reads
  the output a plugin points to: when \<open>enrich_signal\<close> returns the packed place of a JSON object in the
  guest's memory, other than the pair of zeros, the host returns exactly those bytes.
\<close>

theorem packed_output_read:
  assumes "host_Get h name = Some (code, g)" "gc_alloc code g (of_nat (length bs)) = (g1, Some p)"
    "mem_write g1 p bs = Some g2" "gc_enrich code g2 p (of_nat (length bs)) = (g3, Some (PackPtrLen q m))"
    "(q, m) \<noteq> (0, 0)" "mem_read g3 q m = Some out" "json_object out"
  shows "UnpackPtrLen (PackPtrLen q m) = (q, m) \<and> snd (snd (EnrichSignal name (Some bs) h)) = Inr (Enriched out)"
proof -
  have u: "ucast (drop_bit 32 (PackPtrLen q m)) = q" "ucast (PackPtrLen q m AND 0xFFFFFFFF) = m"
    using unpack_pack [of q m] by (simp_all add: UnpackPtrLen_def)
  have "call_enrich code g2 p (of_nat (length bs)) = (gc_free code g3 q m, [CallEnrich p (of_nat (length bs)), CallFree q m], Inr (Enriched out))"
    unfolding call_enrich_def assms(4) Let_def prod.case option.case u using assms(5-7) by auto
  then show ?thesis using assms(1-3) unpack_pack [of q m] by (simp add: EnrichSignal_def Let_def)
qed

text \<open>
  The host leaks nothing in the guest: on every path, errors included, what \<open>alloc\<close> has returned is
  given back by the last call that is made, and once; the output, when it was read, is given back before
  it; and when nothing was allocated nothing is freed.
\<close>

theorem input_freed_once:
  "case EnrichSignal name doc h of (h', calls, r) \<Rightarrow>
     calls = [] \<or> (\<exists>n. calls = [CallAlloc n]) \<or>
     (\<exists>n p. calls = [CallAlloc n, CallFree p n] \<or> calls = [CallAlloc n, CallEnrich p n, CallFree p n] \<or>
       (\<exists>q m. calls = [CallAlloc n, CallEnrich p n, CallFree q m, CallFree p n]))"
proof -
  have c: "fst (snd (call_enrich code g p n)) = [CallEnrich p n] \<or> (\<exists>q m. fst (snd (call_enrich code g p n)) = [CallEnrich p n, CallFree q m])"
    for code :: "'a guest_code" and g p n
    by (auto simp: call_enrich_def Let_def split: prod.splits option.splits)
  show ?thesis
  proof (cases "host_Get h name")
    case (Some cg)
    obtain code g where cg: "cg = (code, g)" by (cases cg)
    show ?thesis
    proof (cases doc)
      case d: (Some bs)
      obtain g1 a where a: "gc_alloc code g (of_nat (length bs)) = (g1, a)" by (cases "gc_alloc code g (of_nat (length bs))")
      show ?thesis
      proof (cases a)
        case p: (Some p)
        show ?thesis
        proof (cases "mem_write g1 p bs")
          case None
          then show ?thesis using Some cg d a p by (simp add: EnrichSignal_def Let_def)
        next
          case w: (Some g2)
          obtain g3 calls r where e: "call_enrich code g2 p (of_nat (length bs)) = (g3, calls, r)"
            by (cases "call_enrich code g2 p (of_nat (length bs))") auto
          then have "calls = [CallEnrich p (of_nat (length bs))] \<or> (\<exists>q m. calls = [CallEnrich p (of_nat (length bs)), CallFree q m])"
            using c [of code g2 p "of_nat (length bs)"] by simp
          then show ?thesis using Some cg d a p w e by (auto simp: EnrichSignal_def Let_def)
        qed
      qed (use Some cg d a in \<open>simp add: EnrichSignal_def Let_def\<close>)
    qed (use Some cg in \<open>simp add: EnrichSignal_def\<close>)
  qed (simp add: EnrichSignal_def)
qed

section \<open>Loading twice\<close>

text \<open>A host whose plugins are all instantiated in its runtime.\<close>

definition names_kept :: "'g host \<Rightarrow> bool" where
  "names_kept h \<longleftrightarrow> (case ph_plugins h of None \<Rightarrow> True | Some ps \<Rightarrow> \<forall>n. ps n \<noteq> None \<longrightarrow> n \<in> set (ph_names h))"

lemma load_keeps_names: "names_kept h \<Longrightarrow> Load runtime name bytes h = Some (h', r) \<Longrightarrow> names_kept h'"
  by (auto simp: Load_def names_kept_def Let_def split: if_splits inst_answer.splits option.splits)

lemma enrich_keeps_names: "names_kept h \<Longrightarrow> names_kept (fst (EnrichSignal name doc h))"
proof -
  assume k: "names_kept h"
  have "names_kept (put_guest name code g h)" if "host_Get h name = Some (c, g0)" for code g c g0
    using k that by (auto simp: names_kept_def put_guest_def host_Get_def split: option.splits)
  then show ?thesis using k
    by (auto simp: EnrichSignal_def Let_def split: option.splits prod.splits)
qed

text \<open>
  A plugin is not replaced by loading another one under its name: the runtime documents that it does
  not instantiate a module under a name that is in use, and the host closes the old module only after it
  has the new one. So the second load fails and the old plugin stays.
\<close>

theorem load_never_replaces:
  assumes "names_kept h" "host_Get h name = Some cg"
    "\<forall>names n b. n \<in> set names \<longrightarrow> runtime names n b = NoInstance \<or> runtime names n b = NoCompile"
  shows "\<exists>e. Load runtime name bytes h = Some (h, Inl e)"
proof -
  obtain ps where ps: "ph_plugins h = Some ps" "ps name = Some cg" using assms(2) by (auto simp: host_Get_def split: option.splits)
  then have "name \<in> set (ph_names h)" using assms(1) by (auto simp: names_kept_def)
  then have "runtime (ph_names h) name bytes = NoInstance \<or> runtime (ph_names h) name bytes = NoCompile" using assms(3) by blast
  then show ?thesis by (auto simp: Load_def)
qed

section \<open>A concrete plugin\<close>

text \<open>It answers every document with the object in its memory.\<close>

definition demo_code :: "unit guest_code" where
  "demo_code = \<lparr>gc_alloc = (\<lambda>g n. (g, Some 8)), gc_free = (\<lambda>g p n. g), gc_enrich = (\<lambda>g p n. (g, Some (PackPtrLen 2 2)))\<rparr>"

definition demo_guest :: "unit guest" where
  "demo_guest = \<lparr>gm_mem = [0, 0, 123, 125, 0, 0, 0, 0, 0, 0, 0, 0], gm_open = True, gm_state = ()\<rparr>"

definition demo_host :: "unit host" where
  "demo_host = \<lparr>ph_opts = plugin_defaults \<lparr>po_MemoryPages = 0, po_CallTimeout = 0\<rparr>,
     ph_plugins = Some [''p'' \<mapsto> (demo_code, demo_guest)], ph_names = [''p'', ''env'']\<rparr>"

theorem packed_output_read_witness:
  "snd (snd (EnrichSignal ''p'' (Some [123, 125]) demo_host)) = Inr (Enriched [123, 125])"
proof -
  have "host_Get demo_host ''p'' = Some (demo_code, demo_guest)" by (simp add: host_Get_def demo_host_def)
  moreover have "gc_alloc demo_code demo_guest (of_nat (length [123, 125 :: byte])) = (demo_guest, Some 8)" by (simp add: demo_code_def)
  moreover have "mem_write demo_guest 8 [123, 125] = Some (demo_guest\<lparr>gm_mem := [0, 0, 123, 125, 0, 0, 0, 0, 123, 125, 0, 0]\<rparr>)"
    by (simp add: mem_write_def demo_guest_def)
  moreover have "gc_enrich demo_code (demo_guest\<lparr>gm_mem := [0, 0, 123, 125, 0, 0, 0, 0, 123, 125, 0, 0]\<rparr>) 8 (of_nat (length [123, 125 :: byte])) =
      (demo_guest\<lparr>gm_mem := [0, 0, 123, 125, 0, 0, 0, 0, 123, 125, 0, 0]\<rparr>, Some (PackPtrLen 2 2))"
    by (simp add: demo_code_def)
  moreover have "((2, 2) :: 32 word \<times> 32 word) \<noteq> (0, 0)" by simp
  moreover have "mem_read (demo_guest\<lparr>gm_mem := [0, 0, 123, 125, 0, 0, 0, 0, 123, 125, 0, 0]\<rparr>) 2 2 = Some [123, 125]"
    by (simp add: mem_read_def)
  moreover have "json_object [123, 125]" by code_simp
  ultimately show ?thesis using packed_output_read by blast
qed

theorem load_never_replaces_witness:
  "\<exists>e. Load (\<lambda>names n b. if n \<in> set names then NoInstance else Instance True demo_code demo_guest) ''p'' [] demo_host = Some (demo_host, Inl e)"
proof -
  have "host_Get demo_host ''p'' = Some (demo_code, demo_guest)" "names_kept demo_host"
    by (simp_all add: host_Get_def demo_host_def names_kept_def)
  then show ?thesis by (intro load_never_replaces) auto
qed

end
