(* ===== verification/KeyHash.thy ===== *)
theory KeyHash
  imports AuthProps ObserveQL
begin

text \<open>
  How keys are made and their secrets kept (\<open>pkg/auth/store_postgres.go\<close>): the base64 encodings, the encoded
  Argon2id hash and its verification, the random key id and secret, and the background writer; and the TLS
  configuration of \<open>pkg/auth/auth.go\<close>. A string is its bytes. The key derivation function is a parameter,
  \<open>None\<close> where it panics (no rounds, no threads, an empty output); random bytes are inputs.
\<close>

section \<open>Base64 without padding\<close>

definition b64_letters :: string where
  "b64_letters = ''ABCDEFGHIJKLMNOPQRSTUVWXYZabcdefghijklmnopqrstuvwxyz0123456789''"

definition RawStdEncoding :: string where "RawStdEncoding = b64_letters @ ''+/''"

definition RawURLEncoding :: string where "RawURLEncoding = b64_letters @ ''-_''"

fun b64_encode :: "string \<Rightarrow> nat list \<Rightarrow> string" where
  "b64_encode al [] = []"
| "b64_encode al [a] = [al ! (a div 4), al ! (a mod 4 * 16)]"
| "b64_encode al [a, b] = [al ! (a div 4), al ! (a mod 4 * 16 + b div 16), al ! (b mod 16 * 4)]"
| "b64_encode al (a # b # c # r) =
     [al ! (a div 4), al ! (a mod 4 * 16 + b div 16), al ! (b mod 16 * 4 + c div 64), al ! (c mod 64)] @ b64_encode al r"

definition EncodeToString :: "string \<Rightarrow> string \<Rightarrow> string" where
  "EncodeToString al s = b64_encode al (codes s)"

text \<open>The decoder skips line ends, and ignores the bits a short last group has too many of.\<close>

fun b64_groups :: "nat list \<Rightarrow> nat list option" where
  "b64_groups [] = Some []"
| "b64_groups [p] = None"
| "b64_groups [p, q] = Some [p * 4 + q div 16]"
| "b64_groups [p, q, r] = Some [p * 4 + q div 16, q mod 16 * 16 + r div 4]"
| "b64_groups (p # q # r # s # vs) =
     map_option (\<lambda>bs. [p * 4 + q div 16, q mod 16 * 16 + r div 4, r mod 4 * 64 + s] @ bs) (b64_groups vs)"

definition DecodeString :: "string \<Rightarrow> string \<Rightarrow> string option" where
  "DecodeString al s =
     Option.bind (those (map (\<lambda>c. index_byte c al) (filter (\<lambda>c. c \<noteq> char_of (10 :: nat) \<and> c \<noteq> char_of (13 :: nat)) s)))
       (\<lambda>vs. map_option (map char_of) (b64_groups vs))"

section \<open>The encoded hash\<close>

definition argonTime :: nat where "argonTime = 3"
definition argonMemory :: nat where "argonMemory = 64 * 1024"
definition argonThreads :: nat where "argonThreads = 2"
definition argonKeyLen :: nat where "argonKeyLen = 32"
definition argonVersion :: nat where "argonVersion = 19"

text \<open>Secret, salt, rounds, memory, threads and length.\<close>

type_synonym kdf = "string \<Rightarrow> string \<Rightarrow> nat \<Rightarrow> nat \<Rightarrow> nat \<Rightarrow> nat \<Rightarrow> string option"

definition encoded_hash :: "string \<Rightarrow> string \<Rightarrow> string" where
  "encoded_hash salt digest =
     ''$argon2id$v='' @ show_nat argonVersion @ ''$m='' @ show_nat argonMemory @ '',t='' @ show_nat argonTime @ '',p='' @
     show_nat argonThreads @ ''$'' @ EncodeToString RawStdEncoding salt @ ''$'' @ EncodeToString RawStdEncoding digest"

definition hashArgon2id :: "kdf \<Rightarrow> string \<Rightarrow> string \<Rightarrow> string option" where
  "hashArgon2id kdf salt sec =
     map_option (encoded_hash salt) (kdf sec salt argonTime argonMemory argonThreads argonKeyLen)"

text \<open>\<open>Sscanf\<close>: a literal of the format, and \<open>%d\<close> (spaces before the digits are skipped; what is left of the
  input after the format does not matter).\<close>

definition scan_literal :: "string \<Rightarrow> string \<Rightarrow> string option" where
  "scan_literal p s = (if has_prefix s p then Some (drop (length p) s) else None)"

definition scan_space :: "char \<Rightarrow> bool" where
  "scan_space c \<longleftrightarrow> (of_char c :: nat) \<in> {9, 11, 12, 13, 32}"

definition scan_uint :: "nat \<Rightarrow> string \<Rightarrow> (nat \<times> string) option" where
  "scan_uint bound s =
     (let s' = dropWhile scan_space s; ds = takeWhile is_digit s'; n = nat (digits_val 0 ds)
      in if ds = [] \<or> bound \<le> n then None else Some (n, drop (length ds) s'))"

definition scan_version :: "string \<Rightarrow> bool" where
  "scan_version s =
     (case scan_literal ''v='' s of
        None \<Rightarrow> False
      | Some r \<Rightarrow>
          let r' = dropWhile scan_space r; r'' = (if take 1 r' = ''+'' then drop 1 r' else r'); ds = takeWhile is_digit r''
          in ds \<noteq> [] \<and> digits_val 0 ds = int argonVersion)"

definition scan_params :: "string \<Rightarrow> (nat \<times> nat \<times> nat) option" where
  "scan_params s =
     Option.bind (scan_literal ''m='' s) (\<lambda>s1. Option.bind (scan_uint (2 ^ 32) s1) (\<lambda>(m, s2).
     Option.bind (scan_literal '',t='' s2) (\<lambda>s3. Option.bind (scan_uint (2 ^ 32) s3) (\<lambda>(t, s4).
     Option.bind (scan_literal '',p='' s4) (\<lambda>s5. Option.bind (scan_uint (2 ^ 8) s5) (\<lambda>(p, s6). Some (m, t, p)))))))"

text \<open>\<open>None\<close> is a panic of the key derivation.\<close>

definition verifyArgon2id :: "kdf \<Rightarrow> string \<Rightarrow> string \<Rightarrow> bool option" where
  "verifyArgon2id kdf sec encoded =
     (case split_byte (CHR ''$'') encoded of
        [e, alg, ver, params, salt64, want64] \<Rightarrow>
          if alg \<noteq> ''argon2id'' \<or> \<not> scan_version ver then Some False
          else (case scan_params params of
            None \<Rightarrow> Some False
          | Some (m, t, p) \<Rightarrow>
              (case (DecodeString RawStdEncoding salt64, DecodeString RawStdEncoding want64) of
                 (Some salt, Some want) \<Rightarrow> map_option (\<lambda>got. got = want) (kdf sec salt t m p (length want))
               | _ \<Rightarrow> Some False))
      | _ \<Rightarrow> Some False)"

section \<open>Random ids and secrets\<close>

text \<open>\<open>u\<close> is the text of a random UUID.\<close>

definition newKID :: "string \<Rightarrow> string" where
  "newKID u = take 12 (filter (\<lambda>c. c \<noteq> CHR ''-'') u)"

definition newSecret :: "string \<Rightarrow> string" where
  "newSecret rnd = EncodeToString RawURLEncoding rnd"

text \<open>The random part of \<open>IssueKeyWithScopes\<close>: key id, secret and hash, \<open>None\<close> when a generator fails.\<close>

definition key_material :: "kdf \<Rightarrow> (string \<times> string \<times> string) option \<Rightarrow> (string \<times> string \<times> string) option" where
  "key_material kdf rnd =
     Option.bind rnd (\<lambda>(u, r, salt). map_option (\<lambda>h. (newKID u, newSecret r, h)) (hashArgon2id kdf salt (newSecret r)))"

section \<open>The background writer and closing\<close>

text \<open>One turn of \<open>lastUsedLoop\<close>: it takes a key id from the channel, or ends when the store is closed.\<close>

definition lastUsed_turn :: "bool \<Rightarrow> PostgresKeyStore \<Rightarrow> (string \<Rightarrow> int option) \<Rightarrow> int \<Rightarrow> PostgresKeyStore \<times> (string \<Rightarrow> int option)" where
  "lastUsed_turn up st used now =
     (case pg_usedCh st of
        [] \<Rightarrow> (st, used)
      | kid # ks \<Rightarrow> (st\<lparr>pg_usedCh := ks\<rparr>, if up \<and> kid \<in> kr_kid ` set (pg_rows st) then used(kid \<mapsto> now) else used))"

section \<open>TLS\<close>

record tls_files =
  tl_CertFile :: string
  tl_KeyFile :: string
  tl_CAFile :: string

datatype client_auth = NoClientCert | RequireAndVerifyClientCert

record 'c tls_config =
  tc_MinVersion :: nat
  tc_Certificates :: "'c list"
  tc_ClientCAs :: "string option"
  tc_RootCAs :: "string option"
  tc_ClientAuth :: client_auth

datatype tls_error = FilesRequired | LoadCerts | ReadCA | ParseCA

text \<open>\<open>pair\<close> loads a certificate and its key, \<open>read\<close> a file, \<open>pem_ok\<close> says whether it has a certificate.\<close>

definition LoadServerConfig ::
  "(string \<Rightarrow> string \<Rightarrow> 'c option) \<Rightarrow> (string \<Rightarrow> string option) \<Rightarrow> (string \<Rightarrow> bool) \<Rightarrow> tls_files \<Rightarrow> tls_error + 'c tls_config" where
  "LoadServerConfig pair read pem_ok f =
     (if tl_CertFile f = [] \<or> tl_KeyFile f = [] then Inl FilesRequired
      else case pair (tl_CertFile f) (tl_KeyFile f) of
        None \<Rightarrow> Inl LoadCerts
      | Some c \<Rightarrow>
          let out = \<lparr>tc_MinVersion = 12, tc_Certificates = [c], tc_ClientCAs = None, tc_RootCAs = None, tc_ClientAuth = NoClientCert\<rparr>
          in if tl_CAFile f = [] then Inr out
             else case read (tl_CAFile f) of
               None \<Rightarrow> Inl ReadCA
             | Some pem \<Rightarrow>
                 if \<not> pem_ok pem then Inl ParseCA
                 else Inr (out\<lparr>tc_ClientCAs := Some pem, tc_ClientAuth := RequireAndVerifyClientCert\<rparr>))"

definition LoadClientConfig ::
  "(string \<Rightarrow> string \<Rightarrow> 'c option) \<Rightarrow> (string \<Rightarrow> string option) \<Rightarrow> (string \<Rightarrow> bool) \<Rightarrow> tls_files \<Rightarrow> tls_error + 'c tls_config" where
  "LoadClientConfig pair read pem_ok f =
     (let out = \<lparr>tc_MinVersion = 12, tc_Certificates = [], tc_ClientCAs = None, tc_RootCAs = None, tc_ClientAuth = NoClientCert\<rparr>
      in case (if tl_CertFile f \<noteq> [] \<and> tl_KeyFile f \<noteq> []
               then (case pair (tl_CertFile f) (tl_KeyFile f) of None \<Rightarrow> Inl LoadCerts | Some c \<Rightarrow> Inr (out\<lparr>tc_Certificates := [c]\<rparr>))
               else Inr out) of
           Inl e \<Rightarrow> Inl e
         | Inr out' \<Rightarrow>
             if tl_CAFile f = [] then Inr out'
             else case read (tl_CAFile f) of
               None \<Rightarrow> Inl ReadCA
             | Some pem \<Rightarrow> if \<not> pem_ok pem then Inl ParseCA else Inr (out'\<lparr>tc_RootCAs := Some pem\<rparr>))"

section \<open>Base64 round trip\<close>

lemma index_nth: "distinct al \<Longrightarrow> i < length al \<Longrightarrow> index_byte (al ! i) al = Some i"
proof (induction al arbitrary: i)
  case (Cons x xs)
  then show ?case by (cases i) auto
qed simp

lemma b64_values:
  assumes "distinct al" "length al = 64" "\<forall>b \<in> set bs. b < 256"
  shows "\<exists>vs. map (\<lambda>c. index_byte c al) (b64_encode al bs) = map Some vs \<and> b64_groups vs = Some bs"
  using assms
proof (induction al bs rule: b64_encode.induct)
  case (2 al a)
  then have "a div 4 < 64" "a mod 4 * 16 < 64" by auto
  then show ?case using 2 by (intro exI [of _ "[a div 4, a mod 4 * 16]"]) (simp add: index_nth)
next
  case (3 al a b)
  then have "a < 256" "b < 256" by auto
  then have "a div 4 < 64" "a mod 4 * 16 + b div 16 < 64" "b mod 16 * 4 < 64" by linarith+
  moreover have "b div 16 < 16" using \<open>b < 256\<close> by linarith
  ultimately show ?case using 3
    by (intro exI [of _ "[a div 4, a mod 4 * 16 + b div 16, b mod 16 * 4]"]) (simp add: index_nth)
next
  case (4 al a b c r)
  then obtain vs where vs: "map (\<lambda>c. index_byte c al) (b64_encode al r) = map Some vs" "b64_groups vs = Some r" by auto
  have "a < 256" "b < 256" "c < 256" using 4 by auto
  then have l: "a div 4 < 64" "a mod 4 * 16 + b div 16 < 64" "b mod 16 * 4 + c div 64 < 64" "c mod 64 < 64" by linarith+
  have "(a mod 4 * 16 + b div 16) div 16 = a mod 4" "(a mod 4 * 16 + b div 16) mod 16 = b div 16"
    "(b mod 16 * 4 + c div 64) div 4 = b mod 16" "(b mod 16 * 4 + c div 64) mod 4 = c div 64"
    using l \<open>b < 256\<close> \<open>c < 256\<close> less_mult_imp_div_less [of b 16 16] less_mult_imp_div_less [of c 4 64] by simp_all
  then show ?case using 4 l vs
    by (intro exI [of _ "[a div 4, a mod 4 * 16 + b div 16, b mod 16 * 4 + c div 64, c mod 64] @ vs"]) (simp add: index_nth)
qed simp_all

lemma b64_letters_in: "length al = 64 \<Longrightarrow> \<forall>b \<in> set bs. b < 256 \<Longrightarrow> set (b64_encode al bs) \<subseteq> set al"
proof (induction al bs rule: b64_encode.induct)
  case (2 al a)
  then have "a div 4 < 64" "a mod 4 * 16 < 64" by auto
  then show ?case using 2 by simp
next
  case (3 al a b)
  then have "a < 256" "b < 256" by auto
  then have "a div 4 < 64" "a mod 4 * 16 + b div 16 < 64" "b mod 16 * 4 < 64" by linarith+
  then show ?case using 3 by simp
next
  case (4 al a b c r)
  then have "a < 256" "b < 256" "c < 256" by auto
  then have "a div 4 < 64" "a mod 4 * 16 + b div 16 < 64" "b mod 16 * 4 + c div 64 < 64" "c mod 64 < 64" by linarith+
  then show ?case using 4 by simp
qed simp_all

lemma codes_bytes: "\<forall>b \<in> set (codes s). b < 256"
  by (auto simp: codes_def)

text \<open>An alphabet: 64 different letters, none of them a line end.\<close>

definition alphabet :: "string \<Rightarrow> bool" where
  "alphabet al \<longleftrightarrow> distinct al \<and> length al = 64 \<and> char_of (10 :: nat) \<notin> set al \<and> char_of (13 :: nat) \<notin> set al"

lemma alphabets: "alphabet RawStdEncoding" "alphabet RawURLEncoding"
  by code_simp+

lemma b64_decode_encode:
  assumes "alphabet al"
  shows "DecodeString al (EncodeToString al s) = Some s"
proof -
  have "set (EncodeToString al s) \<subseteq> set al"
    using assms b64_letters_in codes_bytes by (simp add: EncodeToString_def alphabet_def)
  then have f: "filter (\<lambda>c. c \<noteq> char_of (10 :: nat) \<and> c \<noteq> char_of (13 :: nat)) (EncodeToString al s) = EncodeToString al s"
    using assms by (auto simp: filter_id_conv alphabet_def)
  obtain vs where "map (\<lambda>c. index_byte c al) (EncodeToString al s) = map Some vs" "b64_groups vs = Some (codes s)"
    using assms b64_values [of al "codes s"] codes_bytes by (auto simp: EncodeToString_def alphabet_def)
  moreover have "those (map Some vs) = Some vs" for vs :: "nat list" by (induction vs) simp_all
  moreover have "map char_of (codes s) = s" by (simp add: codes_def comp_def)
  ultimately show ?thesis by (simp add: DecodeString_def f)
qed

lemma encode_no: "alphabet al \<Longrightarrow> c \<notin> set al \<Longrightarrow> c \<notin> set (EncodeToString al s)"
  using b64_letters_in codes_bytes by (auto simp: EncodeToString_def alphabet_def)

section \<open>A secret verifies against its hash\<close>

lemma digit_texts:
  "char_of (49 :: nat) = CHR ''1''" "char_of (50 :: nat) = CHR ''2''" "char_of (51 :: nat) = CHR ''3''"
  "char_of (53 :: nat) = CHR ''5''" "char_of (54 :: nat) = CHR ''6''" "char_of (57 :: nat) = CHR ''9''"
  by code_simp+

lemma shown_constants:
  "show_nat argonVersion = ''19''" "show_nat argonMemory = ''65536''" "show_nat argonTime = ''3''" "show_nat argonThreads = ''2''"
  by (simp_all add: argonVersion_def argonMemory_def argonTime_def argonThreads_def show_nat.simps digit_char_def digit_texts)

lemma scan_constants:
  "scan_version (''v='' @ show_nat argonVersion)"
  "scan_params (''m='' @ show_nat argonMemory @ '',t='' @ show_nat argonTime @ '',p='' @ show_nat argonThreads) =
     Some (argonMemory, argonTime, argonThreads)"
  unfolding shown_constants
  by (simp_all add: scan_version_def scan_params_def scan_literal_def scan_uint_def has_prefix_def scan_space_def is_digit_def
      argonVersion_def argonMemory_def argonTime_def argonThreads_def)

lemma split_join: "ps \<noteq> [] \<Longrightarrow> \<forall>p \<in> set ps. c \<notin> set p \<Longrightarrow> split_byte c (join [c] ps) = ps"
proof (induction "[c]" ps rule: join.induct)
  case (3 x y ys)
  then show ?case by (simp add: split_byte_append)
qed (simp_all add: split_byte_id)

lemma hash_parts:
  "split_byte (CHR ''$'') (encoded_hash salt digest) =
     [[], ''argon2id'', ''v='' @ show_nat argonVersion,
      ''m='' @ show_nat argonMemory @ '',t='' @ show_nat argonTime @ '',p='' @ show_nat argonThreads,
      EncodeToString RawStdEncoding salt, EncodeToString RawStdEncoding digest]" (is "_ = ?ps")
proof -
  have "CHR ''$'' \<notin> set (show_nat n)" for n using show_nat_digits [of n] by (auto simp: is_digit_def)
  moreover have "CHR ''$'' \<notin> set RawStdEncoding" by (simp add: RawStdEncoding_def b64_letters_def)
  then have "CHR ''$'' \<notin> set (EncodeToString RawStdEncoding s)" for s using encode_no alphabets by blast
  ultimately have "\<forall>p \<in> set ?ps. CHR ''$'' \<notin> set p" by simp
  then have "split_byte (CHR ''$'') (join [CHR ''$''] ?ps) = ?ps" by (intro split_join) simp_all
  moreover have "encoded_hash salt digest = join [CHR ''$''] ?ps" by (simp add: encoded_hash_def)
  ultimately show ?thesis by (simp only:)
qed

lemma hash_ok:
  assumes "hashArgon2id kdf salt sec = Some h" "\<And>s m t p n d. kdf s salt t m p n = Some d \<Longrightarrow> length d = n"
  shows "verifyArgon2id kdf sec h = Some True"
proof -
  obtain d where d: "kdf sec salt argonTime argonMemory argonThreads argonKeyLen = Some d" "h = encoded_hash salt d"
    using assms(1) by (auto simp: hashArgon2id_def)
  have "length d = argonKeyLen" using assms(2) d(1) by blast
  then have "verifyArgon2id kdf sec h = map_option (\<lambda>got. got = d) (kdf sec salt argonTime argonMemory argonThreads argonKeyLen)"
    by (simp only: verifyArgon2id_def d(2) hash_parts list.case scan_constants option.case prod.case b64_decode_encode
        alphabets simp_thms if_False)
  then show ?thesis by (simp add: d(1))
qed

text \<open>
  C36. A secret is accepted against its own hash and another one is not: verifying a secret against the
  encoded hash of a secret derives the key again with the salt and the parameters the hash was made with,
  and compares it with the stored one.
\<close>

theorem hash_verifies:
  assumes "hashArgon2id kdf salt sec = Some h" "\<And>s m t p n d. kdf s salt t m p n = Some d \<Longrightarrow> length d = n"
  shows "verifyArgon2id kdf sec' h =
      map_option (\<lambda>got. Some got = kdf sec salt argonTime argonMemory argonThreads argonKeyLen)
        (kdf sec' salt argonTime argonMemory argonThreads argonKeyLen) \<and>
    verifyArgon2id kdf sec h = Some True"
proof -
  obtain d where d: "kdf sec salt argonTime argonMemory argonThreads argonKeyLen = Some d" "h = encoded_hash salt d"
    using assms(1) by (auto simp: hashArgon2id_def)
  have "length d = argonKeyLen" using assms(2) d(1) by blast
  then have "verifyArgon2id kdf s h = map_option (\<lambda>got. got = d) (kdf s salt argonTime argonMemory argonThreads argonKeyLen)" for s
    by (simp only: verifyArgon2id_def d(2) hash_parts list.case scan_constants option.case prod.case b64_decode_encode
        alphabets simp_thms if_False)
  then show ?thesis by (simp add: d(1))
qed

section \<open>An issued key is accepted\<close>

lemma wire_key:
  assumes "tid \<noteq> []" "colon \<notin> set tid" "newKID u \<noteq> []" "colon \<notin> set u" "r \<noteq> []"
  shows "splitWireKey (tid @ '':'' @ newKID u @ '':'' @ newSecret r) = Some (tid, newKID u, newSecret r)"
proof -
  have "colon \<notin> set (newKID u)" using assms(4) by (auto simp: newKID_def dest: in_set_takeD)
  moreover have "colon \<notin> set RawURLEncoding" by (simp add: RawURLEncoding_def b64_letters_def colon_def)
  then have "colon \<notin> set (newSecret r)" using encode_no alphabets by (simp add: newSecret_def)
  moreover have "newSecret r \<noteq> []"
  proof
    assume "newSecret r = []"
    then have "DecodeString RawURLEncoding (newSecret r) = Some []" by (simp add: DecodeString_def)
    then show False using assms(5) by (simp add: newSecret_def b64_decode_encode alphabets)
  qed
  moreover have "tid @ '':'' @ newKID u @ '':'' @ newSecret r = tid @ colon # newKID u @ colon # newSecret r"
    by (simp add: colon_def)
  ultimately show ?thesis using assms
    by (simp add: splitWireKey_def split_byte_append split_byte_id)
qed

lemma find_snoc: "find P xs = None \<Longrightarrow> P x \<Longrightarrow> find P (xs @ [x]) = Some x"
  by (induction xs) (auto split: if_splits)

lemma issued_row:
  assumes "IssueKeyWithScopes st (Some (kid, sec, h)) up now tid sc ex = (st', Inr ik)"
    "\<forall>e. ex = Some e \<longrightarrow> t < e"
  shows "ik_raw ik = tid @ '':'' @ kid @ '':'' @ sec" "pg_cache st' = pg_cache st"
    "select_key (pg_rows st') t tid kid = Some \<lparr>kr_kid = kid, kr_tenant = tid, kr_hash = h,
      kr_prefix = take 8 (ik_raw ik), kr_scopes = ScopesAsStrings (dedupSortScopes sc), kr_created = now, kr_expires = ex, kr_revoked = None\<rparr>"
      (is "_ = Some ?row")
proof -
  have i: "kid \<notin> kr_kid ` set (pg_rows st)" "ik_raw ik = tid @ '':'' @ kid @ '':'' @ sec"
    "pg_rows st' = pg_rows st @ [?row]" "pg_cache st' = pg_cache st"
    using assms(1) by (auto simp: IssueKeyWithScopes_def Let_def split: if_splits)
  show "ik_raw ik = tid @ '':'' @ kid @ '':'' @ sec" "pg_cache st' = pg_cache st" by (fact i)+
  show "select_key (pg_rows st') t tid kid = Some ?row"
    unfolding select_key_def i(3)
  proof (rule find_snoc)
    show "find (\<lambda>r. kr_tenant r = tid \<and> kr_kid r = kid \<and> kr_revoked r = None \<and>
        (case kr_expires r of None \<Rightarrow> True | Some e \<Rightarrow> t < e)) (pg_rows st) = None"
      using i(1) by (auto simp: find_None_iff)
  qed (use assms(2) in \<open>simp split: option.split\<close>)
qed


section \<open>Mutual TLS\<close>

text \<open>
  A server that is given a certificate authority never starts without checking its clients: the
  configuration is refused unless the authority can be read and parsed, and then demands and verifies a
  client certificate.
\<close>

theorem ca_means_client_certs:
  "tl_CAFile f \<noteq> [] \<and> LoadServerConfig pair read pem_ok f = Inr c \<longleftrightarrow>
   (\<exists>cert pem. tl_CAFile f \<noteq> [] \<and> tl_CertFile f \<noteq> [] \<and> tl_KeyFile f \<noteq> [] \<and>
     pair (tl_CertFile f) (tl_KeyFile f) = Some cert \<and> read (tl_CAFile f) = Some pem \<and> pem_ok pem \<and>
     c = \<lparr>tc_MinVersion = 12, tc_Certificates = [cert], tc_ClientCAs = Some pem, tc_RootCAs = None,
       tc_ClientAuth = RequireAndVerifyClientCert\<rparr>)"
  by (auto simp: LoadServerConfig_def Let_def split: option.splits if_splits)

section \<open>A concrete key\<close>

text \<open>A function of the right length in the place of Argon2id.\<close>

definition demo_kdf :: kdf where
  "demo_kdf s salt t m p n = Some (take n (s @ replicate n (CHR ''x'')))"

lemma demo_kdf_length: "demo_kdf s salt t m p n = Some d \<Longrightarrow> length d = n"
  by (auto simp: demo_kdf_def)

theorem hash_verifies_witness:
  "\<exists>h. hashArgon2id demo_kdf ''salt'' ''right'' = Some h \<and> verifyArgon2id demo_kdf ''right'' h = Some True \<and>
     verifyArgon2id demo_kdf ''wrong'' h = Some False"
proof -
  obtain h where h: "hashArgon2id demo_kdf ''salt'' ''right'' = Some h" by (simp add: hashArgon2id_def demo_kdf_def)
  from hash_verifies [where sec' = "''wrong''", OF h demo_kdf_length] show ?thesis using h
    by (simp add: demo_kdf_def argonKeyLen_def)
qed


end
