(* ===== verification/StatsdServer.thy ===== *)
theory StatsdServer
  imports Statsd Engine
begin

text \<open>
  The socket of the StatsD receiver (\<open>internal/receiver/statsd_receiver.go\<close>): starting, the read loop and
  stopping. What the socket gives at each turn of the loop, and whether the context is done by then, are
  inputs.
\<close>

definition statsdMaxPacketSize :: nat where
  "statsdMaxPacketSize = 8932"

record statsd_receiver =
  sr_addr :: string
  sr_tenant :: string
  sr_conn :: bool
  sr_cancel :: bool
  sr_cancelled :: bool
  sr_running :: bool

definition NewStatsDReceiver :: "string \<Rightarrow> string \<Rightarrow> statsd_receiver" where
  "NewStatsDReceiver addr tid =
     \<lparr>sr_addr = addr, sr_tenant = tid, sr_conn = False, sr_cancel = False, sr_cancelled = False, sr_running = False\<rparr>"

datatype statsd_start_error = AlreadyRunning | BadAddress | CannotListen

text \<open>\<open>Start\<close> up to its loop.\<close>

definition statsd_Start :: "bool \<Rightarrow> bool \<Rightarrow> statsd_receiver \<Rightarrow> statsd_receiver \<times> statsd_start_error option" where
  "statsd_Start resolves listens r =
     (if sr_running r then (r, Some AlreadyRunning)
      else if \<not> resolves then (r, Some BadAddress)
      else if \<not> listens then (r, Some CannotListen)
      else (r\<lparr>sr_conn := True, sr_cancel := True, sr_cancelled := False, sr_running := True\<rparr>, None))"

definition statsd_Stop :: "statsd_receiver \<Rightarrow> statsd_receiver" where
  "statsd_Stop r =
     (let r1 = (if sr_cancel r then r\<lparr>sr_cancelled := True\<rparr> else r)
      in if sr_conn r1 then r1\<lparr>sr_running := False\<rparr> else r1)"

text \<open>A packet: every signal is handed to the engine, whose refusals are logged; \<open>None\<close> is the panic of a send
  to a stopped engine. The clock reading of a packet is one instant.\<close>

fun submit_all :: "signal list \<Rightarrow> ProcessingEngine \<Rightarrow> ProcessingEngine option" where
  "submit_all [] e = Some e"
| "submit_all (s # ss) e =
     (case ProcessSignal e s of (e', SendOnClosed) \<Rightarrow> None | (e', _) \<Rightarrow> submit_all ss e')"

definition processPacket :: "string \<Rightarrow> int \<Rightarrow> string \<Rightarrow> ProcessingEngine \<Rightarrow> ProcessingEngine option" where
  "processPacket tid now data e = submit_all (packet_signals tid now data) e"

text \<open>A turn of the loop: whether the context is done at its start, what the read gives, and whether the
  context is done after a failed read. The buffer has room for so many bytes; the rest of a datagram is lost.\<close>

datatype read_event = ReadTimeout | ReadError | Datagram int string

record loop_turn =
  lt_done :: bool
  lt_event :: read_event
  lt_done_after :: bool

datatype loop_result = Returned ProcessingEngine | Reading ProcessingEngine | LoopPanic

fun statsd_loop :: "string \<Rightarrow> loop_turn list \<Rightarrow> ProcessingEngine \<Rightarrow> loop_result" where
  "statsd_loop tid [] e = Reading e"
| "statsd_loop tid (t # ts) e =
     (if lt_done t then Returned e
      else case lt_event t of
        ReadTimeout \<Rightarrow> statsd_loop tid ts e
      | ReadError \<Rightarrow> if lt_done_after t then Returned e else statsd_loop tid ts e
      | Datagram now d \<Rightarrow>
          let data = take statsdMaxPacketSize d
          in if data = [] then statsd_loop tid ts e
             else (case processPacket tid now data e of None \<Rightarrow> LoopPanic | Some e' \<Rightarrow> statsd_loop tid ts e'))"

section \<open>What the loop does\<close>

lemma submit_all_append:
  "submit_all (xs @ ys) e = Option.bind (submit_all xs e) (submit_all ys)"
  by (induction xs arbitrary: e) (auto split: prod.split submit.split)

text \<open>The turns the loop takes before it returns, and the signals of their packets.\<close>

fun active_turns :: "loop_turn list \<Rightarrow> loop_turn list" where
  "active_turns [] = []"
| "active_turns (t # ts) =
     (if lt_done t \<or> (lt_event t = ReadError \<and> lt_done_after t) then [] else t # active_turns ts)"

definition turn_signals :: "string \<Rightarrow> loop_turn \<Rightarrow> signal list" where
  "turn_signals tid t =
     (case lt_event t of Datagram now d \<Rightarrow> packet_signals tid now (take statsdMaxPacketSize d) | _ \<Rightarrow> [])"

lemma packet_signals_Nil [simp]: "packet_signals tid now [] = []"
  by (simp add: packet_signals_def trim_space_def)

text \<open>
  The receiver hands every signal of every packet it reads to the engine, in the order of the packets
  and of the lines in them, under the tenant it was made with and whatever the packet says, until its
  context is done; then it returns. A datagram of more than 8932 bytes is cut there.
\<close>

theorem statsd_loop_submits:
  "statsd_loop tid ts e =
     (case submit_all (concat (map (turn_signals tid) (active_turns ts))) e of
        None \<Rightarrow> LoopPanic
      | Some e' \<Rightarrow> if active_turns ts = ts then Reading e' else Returned e')"
proof (induction ts arbitrary: e)
  case (Cons t ts)
  show ?case
  proof (cases "lt_event t")
    case (Datagram now d)
    show ?thesis
    proof (cases "take statsdMaxPacketSize d = []")
      case True
      then have "turn_signals tid t = []" by (simp only: turn_signals_def Datagram read_event.case packet_signals_Nil)
      then show ?thesis using Cons.IH True by (auto simp: Datagram Let_def split: option.split)
    next
      case False
      then show ?thesis using Cons.IH
        by (auto simp: Datagram Let_def turn_signals_def processPacket_def submit_all_append split: option.split bind_splits)
    qed
  qed (use Cons.IH in \<open>auto simp: turn_signals_def split: option.split\<close>)
qed simp

text \<open>
  A receiver whose context was cancelled by its owner cannot be started again: its loop has returned
  and it still says it is running, until someone stops it.
\<close>

lemma statsd_no_restart:
  "statsd_Start True True (NewStatsDReceiver addr tid) = (r, None) \<longrightarrow>
   statsd_Start resolves listens (r\<lparr>sr_cancelled := True\<rparr>) = (r\<lparr>sr_cancelled := True\<rparr>, Some AlreadyRunning) \<and>
   snd (statsd_Start True True (statsd_Stop r)) = None"
  by (auto simp: statsd_Start_def statsd_Stop_def NewStatsDReceiver_def)

end
