(* ===== verification/SelfObs.thy ===== *)
theory SelfObs
  imports Ingest
begin

text \<open>
  How the services trace themselves (\<open>pkg/selfobs/selfobs.go\<close>): the configuration, its defaults, and the
  exporter it becomes. The OpenTelemetry SDK is outside: whether an exporter and a resource can be made
  are inputs, and an exporter is the options it is made with.
\<close>

section \<open>Configuration\<close>

record selfobs_config =
  so_ServiceName :: string
  so_ServiceVersion :: string
  so_Endpoint :: string
  so_APIKey :: string
  so_TenantID :: string
  so_SamplingFraction :: f64
  so_ExportTimeout :: int
  so_BatchSize :: int
  so_Insecure :: bool

definition selfobs_defaults :: "selfobs_config \<Rightarrow> selfobs_config" where
  "selfobs_defaults c0 =
     (let c1 = (if so_ServiceVersion c0 = [] then c0\<lparr>so_ServiceVersion := ''1.0.0''\<rparr> else c0);
          c2 = (if feq (so_SamplingFraction c1) (Fin 0) then c1\<lparr>so_SamplingFraction := flit (1 / 10)\<rparr> else c1);
          c3 = (if so_ExportTimeout c2 = 0 then c2\<lparr>so_ExportTimeout := 5 * second\<rparr> else c2)
      in if so_BatchSize c3 = 0 then c3\<lparr>so_BatchSize := 512\<rparr> else c3)"

definition strip_one :: "string \<Rightarrow> string \<Rightarrow> string option" where
  "strip_one p s = (if length p < length s \<and> take (length p) s = p then Some (drop (length p) s) else None)"

definition stripScheme :: "string \<Rightarrow> string" where
  "stripScheme s =
     (case strip_one ''http://'' s of Some r \<Rightarrow> r
      | None \<Rightarrow> (case strip_one ''https://'' s of Some r \<Rightarrow> r | None \<Rightarrow> s))"

section \<open>The provider\<close>

record exporter_options =
  eo_endpoint :: string
  eo_timeout :: int
  eo_path :: string
  eo_insecure :: bool
  eo_headers :: "(string \<times> string) list"
  eo_batch :: int
  eo_fraction :: f64
  eo_service :: string
  eo_version :: string

datatype tracer_provider = NoopTracer | Tracer exporter_options

datatype selfobs_error = ServiceNameRequired | ExporterFailed | ResourceFailed

text \<open>\<open>Init\<close> sets the global provider when it succeeds; \<open>global\<close> is the one before.\<close>

definition selfobs_headers :: "selfobs_config \<Rightarrow> (string \<times> string) list" where
  "selfobs_headers c =
     (if so_APIKey c \<noteq> [] then [(''Authorization'', ''Bearer '' @ so_APIKey c)] else [])
     @ (if so_TenantID c \<noteq> [] then [(''X-Tenant-ID'', so_TenantID c)] else [])"

definition selfobs_Init ::
  "(exporter_options \<Rightarrow> bool) \<Rightarrow> bool \<Rightarrow> tracer_provider option \<Rightarrow> selfobs_config \<Rightarrow>
   tracer_provider option \<times> (selfobs_error + tracer_provider)" where
  "selfobs_Init makes merges global c0 =
     (if so_ServiceName c0 = [] then (global, Inl ServiceNameRequired)
      else
        let c = selfobs_defaults c0
        in if so_Endpoint c = [] then (Some NoopTracer, Inr NoopTracer)
           else
             let e = \<lparr>eo_endpoint = stripScheme (so_Endpoint c), eo_timeout = so_ExportTimeout c, eo_path = ''/v1/traces'',
                      eo_insecure = so_Insecure c, eo_headers = selfobs_headers c, eo_batch = so_BatchSize c,
                      eo_fraction = so_SamplingFraction c, eo_service = so_ServiceName c, eo_version = so_ServiceVersion c\<rparr>
             in if \<not> makes e then (global, Inl ExporterFailed)
                else if \<not> merges then (global, Inl ResourceFailed)
                else (Some (Tracer e), Inr (Tracer e)))"

definition env_config :: "env_vars \<Rightarrow> string \<Rightarrow> string \<Rightarrow> selfobs_config" where
  "env_config env name version =
     (let c = \<lparr>so_ServiceName = name, so_ServiceVersion = version,
               so_Endpoint = getEnv env ''OBSERVE_X_OTLP_ENDPOINT'' [], so_APIKey = getEnv env ''OBSERVE_X_OTLP_API_KEY'' [],
               so_TenantID = getEnv env ''OBSERVE_X_OTLP_TENANT_ID'' [], so_SamplingFraction = Fin 0, so_ExportTimeout = 0,
               so_BatchSize = 0, so_Insecure = (getEnv env ''OBSERVE_X_OTLP_INSECURE'' [] = ''1'')\<rparr>;
          s = getEnv env ''OBSERVE_X_OTLP_SAMPLING'' []
      in case (if s = [] then None else parse_float s) of
           Some f \<Rightarrow> if fle (Fin 0) f \<and> fle f (Fin 1) then c\<lparr>so_SamplingFraction := f\<rparr> else c
         | None \<Rightarrow> c)"

definition InitFromEnv ::
  "(exporter_options \<Rightarrow> bool) \<Rightarrow> bool \<Rightarrow> tracer_provider option \<Rightarrow> env_vars \<Rightarrow> string \<Rightarrow> string \<Rightarrow>
   tracer_provider option \<times> (selfobs_error + tracer_provider)" where
  "InitFromEnv makes merges global env name version = selfobs_Init makes merges global (env_config env name version)"

section \<open>What it gives\<close>

definition header_of :: "string \<Rightarrow> exporter_options \<Rightarrow> string" where
  "header_of k e = (case map_of (eo_headers e) k of Some v \<Rightarrow> v | None \<Rightarrow> [])"

lemma env_config_sel [simp]:
  "so_ServiceName (env_config env name version) = name"
  "so_Endpoint (env_config env name version) = getEnv env ''OBSERVE_X_OTLP_ENDPOINT'' []"
  "so_APIKey (env_config env name version) = getEnv env ''OBSERVE_X_OTLP_API_KEY'' []"
  "so_TenantID (env_config env name version) = getEnv env ''OBSERVE_X_OTLP_TENANT_ID'' []"
  "so_Insecure (env_config env name version) \<longleftrightarrow> getEnv env ''OBSERVE_X_OTLP_INSECURE'' [] = ''1''"
  by (simp_all add: env_config_def Let_def split: option.split)

lemma defaults_sel [simp]:
  "so_ServiceName (selfobs_defaults c) = so_ServiceName c" "so_Endpoint (selfobs_defaults c) = so_Endpoint c"
  "so_APIKey (selfobs_defaults c) = so_APIKey c" "so_TenantID (selfobs_defaults c) = so_TenantID c"
  "so_Insecure (selfobs_defaults c) = so_Insecure c"
  "so_SamplingFraction (selfobs_defaults c) =
     (if feq (so_SamplingFraction c) (Fin 0) then flit (1 / 10) else so_SamplingFraction c)"
  by (simp_all add: selfobs_defaults_def Let_def)

lemma init_env:
  "snd (InitFromEnv makes merges global env name version) = Inr (Tracer e) \<Longrightarrow>
     eo_headers e = selfobs_headers (env_config env name version) \<and>
     eo_fraction e = so_SamplingFraction (selfobs_defaults (env_config env name version)) \<and>
     eo_endpoint e = stripScheme (getEnv env ''OBSERVE_X_OTLP_ENDPOINT'' []) \<and>
     eo_insecure e = (getEnv env ''OBSERVE_X_OTLP_INSECURE'' [] = ''1'')"
  by (auto simp: InitFromEnv_def selfobs_Init_def Let_def selfobs_headers_def split: if_splits)

text \<open>
  What a service says of itself is stored for the tenant of its key: when a provider was made from the
  environment and the gateway's key store knows the configured key, a request with the exporter's headers
  passes the authentication and goes on under the tenant of the key, whatever tenant is configured.
\<close>

theorem self_traces_admitted:
  assumes "snd (InitFromEnv makes merges global env name version) = Inr (Tracer e)"
    and "getEnv env ''OBSERVE_X_OTLP_API_KEY'' [] \<noteq> []"
    and "validate (getEnv env ''OBSERVE_X_OTLP_API_KEY'' []) = Aware (Some m)"
  shows "AuthMiddleware validate \<lparr>rq_authorization = header_of ''Authorization'' e,
      rq_tenant_header = header_of ''X-Tenant-ID'' e, rq_scopes = None\<rparr> =
    Forwarded \<lparr>rq_authorization = header_of ''Authorization'' e, rq_tenant_header = md_tenant m,
      rq_scopes = Some (md_scopes m)\<rparr>"
proof -
  have "header_of ''Authorization'' e = ''Bearer '' @ getEnv env ''OBSERVE_X_OTLP_API_KEY'' []"
    using init_env [OF assms(1)] assms(2) by (simp add: header_of_def selfobs_headers_def)
  then show ?thesis using assms(3) by (simp add: AuthMiddleware_def has_prefix_def)
qed

text \<open>
  Sampling cannot be switched off: the fraction 0, which the variable accepts, is taken for an unset
  one and becomes a tenth, and so does a fraction that is not accepted.
\<close>

theorem zero_fraction_is_tenth:
  assumes "snd (InitFromEnv makes merges global env name version) = Inr (Tracer e)"
    and "parse_float (getEnv env ''OBSERVE_X_OTLP_SAMPLING'' []) = Some f"
    and "feq f (Fin 0) \<or> \<not> (fle (Fin 0) f \<and> fle f (Fin 1))"
  shows "eo_fraction e = flit (1 / 10)"
  using init_env [OF assms(1)] assms(2,3)
  by (auto simp: env_config_def Let_def split: option.splits if_splits)

text \<open>
  The scheme of the endpoint says nothing: an endpoint with \<open>http\<close> and the same one with \<open>https\<close> give
  the same exporter, with TLS unless the variable for it is set.
\<close>

theorem scheme_ignored:
  assumes "h \<noteq> []"
  shows "InitFromEnv makes merges global (env(''OBSERVE_X_OTLP_ENDPOINT'' \<mapsto> ''http://'' @ h)) name version =
    InitFromEnv makes merges global (env(''OBSERVE_X_OTLP_ENDPOINT'' \<mapsto> ''https://'' @ h)) name version"
proof -
  have s: "stripScheme (''http://'' @ h) = h" "stripScheme (''https://'' @ h) = h"
    using assms by (simp_all add: stripScheme_def strip_one_def)
  have g: "getEnv (env(''OBSERVE_X_OTLP_ENDPOINT'' \<mapsto> v)) k [] = getEnv env k []" if "k \<noteq> ''OBSERVE_X_OTLP_ENDPOINT''" for k v
    using that by (simp add: getEnv_def)
  have e: "getEnv (env(''OBSERVE_X_OTLP_ENDPOINT'' \<mapsto> v)) ''OBSERVE_X_OTLP_ENDPOINT'' [] = v" for v
    by (simp add: getEnv_def)
  have c: "env_config (env(''OBSERVE_X_OTLP_ENDPOINT'' \<mapsto> v)) name version =
      (env_config env name version)\<lparr>so_Endpoint := v\<rparr>" for v
    unfolding env_config_def Let_def e by (simp add: g split: option.split)
  have d: "selfobs_defaults (x\<lparr>so_Endpoint := y\<rparr>) = (selfobs_defaults x)\<lparr>so_Endpoint := y\<rparr>" for x y
    by (simp add: selfobs_defaults_def Let_def)
  show ?thesis
    using s by (simp add: InitFromEnv_def selfobs_Init_def c d Let_def selfobs_headers_def)
qed

end
