(* ===== verification/RedisStore.thy ===== *)
theory RedisStore
  imports Sampling
begin

text \<open>
  The Redis store of the sampler's baselines (\<open>pkg/sampling/state_redis.go\<close>): its options, saving and
  loading. The server is the map of its keys to values with the time they expire, and what becomes of a
  command is an input. The strings of a state are UTF-8, so that JSON keeps them.
\<close>

section \<open>The store\<close>

record redis_options =
  ro_URL :: string
  ro_SnapshotTTL :: int
  ro_DialTimeout :: int

datatype redis_error = RedisURL | RedisParse | RedisPing | RedisEncode | RedisDown | RedisDecode

text \<open>What a key holds: a document of a state, nothing, or bytes that are no such document.\<close>

datatype redis_value = StateDoc "string \<rightharpoonup> ewmaSnapshot" | EmptyValue | BadValue

record redis_store =
  rs_ttl :: int
  rs_data :: "string \<rightharpoonup> redis_value \<times> int"

definition redis_defaults :: "redis_options \<Rightarrow> redis_options" where
  "redis_defaults o0 =
     (let o1 = (if ro_SnapshotTTL o0 \<le> 0 then o0\<lparr>ro_SnapshotTTL := 24 * 3600 * second\<rparr> else o0)
      in if ro_DialTimeout o1 \<le> 0 then o1\<lparr>ro_DialTimeout := 3 * second\<rparr> else o1)"

definition NewRedisStore ::
  "(string \<Rightarrow> bool) \<Rightarrow> (redis_options \<Rightarrow> bool) \<Rightarrow> (string \<rightharpoonup> redis_value \<times> int) \<Rightarrow> redis_options \<Rightarrow> redis_error + redis_store" where
  "NewRedisStore url_ok ping held opts =
     (if ro_URL opts = [] then Inl RedisURL
      else
        let o1 = redis_defaults opts
        in if \<not> url_ok (ro_URL o1) then Inl RedisParse
           else if \<not> ping o1 then Inl RedisPing
           else Inr \<lparr>rs_ttl = ro_SnapshotTTL o1, rs_data = held\<rparr>)"

definition redisKey :: "string \<Rightarrow> string" where
  "redisKey tid = ''observex:sampling:state:'' @ tid"

section \<open>Saving and loading\<close>

text \<open>\<open>json.Marshal\<close> has no text for the infinities and NaN.\<close>

definition json_number :: "f64 \<Rightarrow> bool" where
  "json_number v = (case v of Fin _ \<Rightarrow> True | _ \<Rightarrow> False)"

definition encodeState :: "(string \<rightharpoonup> ewmaSnapshot) \<Rightarrow> redis_value option" where
  "encodeState st =
     (if \<forall>s \<in> ran st. json_number (sn_mean s) \<and> json_number (sn_variance s) then Some (StateDoc st) else None)"

definition decodeState :: "redis_value \<Rightarrow> redis_error + (string \<rightharpoonup> ewmaSnapshot)" where
  "decodeState v = (case v of StateDoc st \<Rightarrow> Inr st | EmptyValue \<Rightarrow> Inr Map.empty | BadValue \<Rightarrow> Inl RedisDecode)"

text \<open>A \<open>SET\<close> is done and answered, lost, or done without its answer arriving in time.\<close>

datatype set_answer = SetDone | SetLost | SetUnanswered

definition redis_Save ::
  "int \<Rightarrow> set_answer \<Rightarrow> string \<Rightarrow> (string \<rightharpoonup> ewmaSnapshot) \<Rightarrow> redis_store \<Rightarrow> redis_store \<times> redis_error option" where
  "redis_Save now a tid st r =
     (case encodeState st of
        None \<Rightarrow> (r, Some RedisEncode)
      | Some b \<Rightarrow>
          let r' = r\<lparr>rs_data := (rs_data r)(redisKey tid \<mapsto> (b, now + rs_ttl r))\<rparr>
          in (case a of SetDone \<Rightarrow> (r', None) | SetLost \<Rightarrow> (r, Some RedisDown) | SetUnanswered \<Rightarrow> (r', Some RedisDown)))"

definition redis_Load :: "int \<Rightarrow> bool \<Rightarrow> string \<Rightarrow> redis_store \<Rightarrow> redis_error + (string \<rightharpoonup> ewmaSnapshot)" where
  "redis_Load now up tid r =
     (if \<not> up then Inl RedisDown
      else case rs_data r (redisKey tid) of
        None \<Rightarrow> Inr Map.empty
      | Some (v, expires) \<Rightarrow> if expires \<le> now then Inr Map.empty else decodeState v)"

text \<open>The flush of a sampler that uses the store; its error is dropped.\<close>

definition redis_flush :: "int \<Rightarrow> set_answer \<Rightarrow> sampler \<Rightarrow> redis_store \<Rightarrow> redis_store" where
  "redis_flush now a s r =
     (if sm_store s then fst (redis_Save now a (sm_tenant s) (ewma_snapshot (sm_latency s)) r) else r)"

section \<open>What the store remembers\<close>

type_synonym save_call = "int \<times> set_answer \<times> string \<times> (string \<rightharpoonup> ewmaSnapshot)"

fun redis_run :: "save_call list \<Rightarrow> redis_store \<Rightarrow> redis_store" where
  "redis_run [] r = r"
| "redis_run ((t, a, tid, st) # cs) r = redis_run cs (fst (redis_Save t a tid st r))"

fun last_write :: "string \<Rightarrow> save_call list \<Rightarrow> (int \<times> (string \<rightharpoonup> ewmaSnapshot)) option" where
  "last_write i [] = None"
| "last_write i ((t, a, tid, st) # cs) =
     (case last_write i cs of
        Some w \<Rightarrow> Some w
      | None \<Rightarrow> if tid = i \<and> a \<noteq> SetLost \<and> encodeState st \<noteq> None then Some (t, st) else None)"

lemma save_ttl [simp]: "rs_ttl (fst (redis_Save t a tid st r)) = rs_ttl r"
  by (simp add: redis_Save_def Let_def split: option.split set_answer.split)

lemma encode_doc: "encodeState st = Some b \<Longrightarrow> b = StateDoc st"
  by (simp add: encodeState_def split: if_splits)

lemma save_data:
  "rs_data (fst (redis_Save t a tid st r)) (redisKey i) =
     (if tid = i \<and> a \<noteq> SetLost \<and> encodeState st \<noteq> None then Some (StateDoc st, t + rs_ttl r)
      else rs_data r (redisKey i))"
  by (auto simp: redis_Save_def Let_def redisKey_def dest: encode_doc split: option.splits set_answer.splits)

lemma run_data:
  "rs_data (redis_run cs r) (redisKey i) =
     (case last_write i cs of Some (t, st) \<Rightarrow> Some (StateDoc st, t + rs_ttl r) | None \<Rightarrow> rs_data r (redisKey i))"
  by (induction i cs arbitrary: r rule: last_write.induct) (auto simp: save_data split: option.splits)

text \<open>
  A tenant finds its own last baseline: after any calls of \<open>Save\<close> by any tenants on an empty server,
  whatever became of them, a load gives the state of the tenant's last save that reached the server and
  could be encoded, as long as it has not expired, and the empty state otherwise.
\<close>

theorem redis_remembers_last:
  "redis_Load now True i (redis_run cs \<lparr>rs_ttl = ttl, rs_data = Map.empty\<rparr>) =
     Inr (case last_write i cs of
            Some (t, st) \<Rightarrow> if now < t + ttl then st else Map.empty
          | None \<Rightarrow> Map.empty)"
  by (auto simp: redis_Load_def run_data decodeState_def split: option.split)

lemma last_write_memory:
  assumes "\<forall>(t, a, tid, st) \<in> set cs. a \<noteq> SetLost \<and> encodeState st \<noteq> None"
  shows "foldl (\<lambda>d (t, a, tid, st). store_Save d tid st) d cs i =
     (case last_write i cs of Some (t, st) \<Rightarrow> Some st | None \<Rightarrow> d i)"
  using assms by (induction i cs arbitrary: d rule: last_write.induct) (auto simp: store_Save_def split: option.splits)

text \<open>
  The Redis store does what the in-memory store does: when every save reaches the server, has numbers
  only and has not expired, a load answers as the in-memory store does after the same saves.
\<close>

theorem redis_refines_memory:
  assumes "\<forall>(t, a, tid, st) \<in> set cs. a \<noteq> SetLost \<and> encodeState st \<noteq> None \<and> now < t + ttl"
  shows "redis_Load now True i (redis_run cs \<lparr>rs_ttl = ttl, rs_data = Map.empty\<rparr>) =
     Inr (store_Load (foldl (\<lambda>d (t, a, tid, st). store_Save d tid st) NewInMemoryStore cs) i)"
proof -
  have m: "\<forall>(t, a, tid, st) \<in> set cs. a \<noteq> SetLost \<and> encodeState st \<noteq> None" using assms by auto
  have "last_write i cs = Some (t, st) \<Longrightarrow> now < t + ttl" for t st
    using assms by (induction i cs rule: last_write.induct) (auto split: option.splits if_splits)
  then show ?thesis
    by (auto simp: redis_Load_def run_data decodeState_def store_Load_def NewInMemoryStore_def last_write_memory [OF m]
        split: option.split)
qed

text \<open>
  One baseline that is not a number stops the snapshots of the whole tenant: no flush of such a sampler
  changes the store any more, whatever its other services have learned.
\<close>

theorem poisoned_never_saved:
  assumes "ew_mean (sm_latency s) k = Some v" "\<not> json_number v"
  shows "redis_flush now a s r = r"
proof -
  have "encodeState (ewma_snapshot (sm_latency s)) = None"
    using assms by (auto simp: encodeState_def ewma_snapshot_def ran_def intro!: exI [of _ k])
  then show ?thesis by (simp add: redis_flush_def redis_Save_def)
qed

section \<open>Concrete states\<close>

definition demo_state :: "string \<rightharpoonup> ewmaSnapshot" where
  "demo_state = [''api'' \<mapsto> \<lparr>sn_mean = Fin 7, sn_variance = Fin 1, sn_count = 40\<rparr>]"

lemma demo_encodes: "encodeState demo_state \<noteq> None"
  by (simp add: encodeState_def demo_state_def json_number_def)

theorem redis_refines_memory_witness:
  "redis_Load 5 True ''acme'' (redis_run [(0, SetDone, ''acme'', demo_state), (1, SetUnanswered, ''other'', demo_state)]
     \<lparr>rs_ttl = 10, rs_data = Map.empty\<rparr>) = Inr demo_state"
proof -
  have h: "\<forall>(t, a, tid, st) \<in> set [(0::int, SetDone, ''acme'', demo_state), (1, SetUnanswered, ''other'', demo_state)].
      a \<noteq> SetLost \<and> encodeState st \<noteq> None \<and> 5 < t + 10"
    using demo_encodes by simp
  show ?thesis unfolding redis_refines_memory [OF h] by (simp add: store_Load_def store_Save_def)
qed

theorem poisoned_never_saved_witness:
  "redis_flush 0 SetDone
     ((NewAdaptiveSampler (Fin 0) 1)\<lparr>sm_store := True, sm_latency := ewma_observe (newEWMATracker (Fin 0)) ''api'' NaN\<rparr>)
     \<lparr>rs_ttl = 1, rs_data = Map.empty\<rparr> = \<lparr>rs_ttl = 1, rs_data = Map.empty\<rparr>"
  by (rule poisoned_never_saved [where k = "''api''" and v = NaN])
    (simp_all add: ewma_observe_def newEWMATracker_def json_number_def)

end
