(* ===== verification/BaselineStores.thy ===== *)
theory BaselineStores
  imports RedisStore SamplingProps
begin

text \<open>
  What the sampler relies on in a state store, and both stores as implementations of it
  (\<open>StateStore\<close> in \<open>pkg/sampling/state.go\<close>): a load gives the tenant's own last save.
\<close>

locale baseline_store =
  fixes save :: "string \<Rightarrow> (string \<rightharpoonup> ewmaSnapshot) \<Rightarrow> 's \<Rightarrow> 's"
    and load :: "string \<Rightarrow> 's \<Rightarrow> (string \<rightharpoonup> ewmaSnapshot) option"
    and ok :: "(string \<rightharpoonup> ewmaSnapshot) \<Rightarrow> 's \<Rightarrow> bool"
  assumes load_saved: "ok st d \<Longrightarrow> load tid (save tid st d) = Some st"
    and load_other: "t \<noteq> u \<Longrightarrow> load t (save u st d) = load t d"
begin

lemma load_later:
  assumes "ok st d" "\<forall>(u, st') \<in> set cs. u \<noteq> tid"
  shows "load tid (foldl (\<lambda>d (u, st'). save u st' d) (save tid st d) cs) = Some st"
  using assms(2)
proof (induction cs rule: rev_induct)
  case (snoc c cs)
  then show ?case by (cases c) (auto simp: load_other)
qed (simp add: load_saved [OF assms(1)])

lemma baseline_reloaded:
  assumes "tracker_ok (sm_latency s)" "op_state opts" "op_tenant opts = sm_tenant s"
    and "ok (ewma_snapshot (sm_latency s)) d" "\<forall>(u, st') \<in> set cs. u \<noteq> sm_tenant s"
  shows "ewma_zscore (sm_latency (NewAdaptiveSamplerWithOptions opts
      (load (op_tenant opts) (foldl (\<lambda>d (u, st'). save u st' d) (save (sm_tenant s) (ewma_snapshot (sm_latency s)) d) cs)))) service x =
    ewma_zscore (sm_latency s) service x"
  using assms(2,3) load_later [OF assms(4,5)] restore_snapshot [OF assms(1)]
  by (simp add: NewAdaptiveSamplerWithOptions_def Let_def)

end

interpretation memory_baselines: baseline_store "\<lambda>tid st d. store_Save d tid st" "\<lambda>tid d. Some (store_Load d tid)" "\<lambda>_ _. True"
  by unfold_locales (auto simp: store_Load_def store_Save_def)

interpretation redis_baselines: baseline_store "\<lambda>tid st r. fst (redis_Save t SetDone tid st r)"
    "\<lambda>tid r. case redis_Load now True tid r of Inr st \<Rightarrow> Some st | Inl _ \<Rightarrow> None"
    "\<lambda>st r. encodeState st \<noteq> None \<and> now < t + rs_ttl r" for t now
  by unfold_locales (auto simp: redis_Load_def save_data decodeState_def)

text \<open>
  A baseline survives a restart through Redis: when a flush reaches the server, its numbers can be
  encoded and it has not expired, a sampler that is made anew for the tenant scores every latency as the
  old one did, whatever other tenants have saved since.
\<close>

theorem baseline_through_redis:
  assumes "tracker_ok (sm_latency s)" "sm_store s" "op_state opts" "op_tenant opts = sm_tenant s"
    and "encodeState (ewma_snapshot (sm_latency s)) \<noteq> None" "now < t + rs_ttl r"
    and "\<forall>(u, st') \<in> set cs. u \<noteq> sm_tenant s"
  shows "ewma_zscore (sm_latency (NewAdaptiveSamplerWithOptions opts
      (case redis_Load now True (op_tenant opts)
          (foldl (\<lambda>r (u, st'). fst (redis_Save t SetDone u st' r)) (redis_flush t SetDone s r) cs) of
        Inr st \<Rightarrow> Some st | Inl _ \<Rightarrow> None))) service x =
    ewma_zscore (sm_latency s) service x"
  using redis_baselines.baseline_reloaded [OF assms(1,3,4) _ assms(7), of now t r service x] assms(2,5,6)
  by (simp add: redis_flush_def)

end
