(* ===== verification/Startup.thy ===== *)
theory Startup
  imports TenantApi AlertSink KeyHash Ingest
begin

text \<open>
  How the services start: what \<open>main\<close> of the tenant API, the alert manager, the query engine and the ingest
  gateway makes of the environment, in the order it does it, up to the moment the listeners open; and the
  life of the gRPC listener. What the outside answers while a service starts is a record.
\<close>

abbreviation Getenv :: "env_vars \<Rightarrow> string \<Rightarrow> string" where
  "Getenv env k \<equiv> getEnv env k []"

section \<open>The audit exporter (\<open>buildAuditExporter\<close>)\<close>

datatype audit_exporter = NopExporter | BufferedFile string | BufferedS3 s3_exporter

text \<open>\<open>opens\<close>: the file can be opened; \<open>aws\<close>: the AWS configuration loads; \<open>parse_dur\<close>: \<open>time.ParseDuration\<close>,
  whose result is 0 beside an error.\<close>

definition audit_s3_options :: "(string \<Rightarrow> int option) \<Rightarrow> env_vars \<Rightarrow> s3_options" where
  "audit_s3_options parse_dur env =
     \<lparr>s3_bucket = Getenv env ''OBSERVE_X_AUDIT_LOG_S3_BUCKET'', s3_prefix = Getenv env ''OBSERVE_X_AUDIT_LOG_S3_PREFIX'',
      s3_lock_mode = Getenv env ''OBSERVE_X_AUDIT_LOG_S3_LOCK'',
      s3_retain = (case parse_dur (Getenv env ''OBSERVE_X_AUDIT_LOG_S3_RETAIN'') of Some d \<Rightarrow> d | None \<Rightarrow> 0),
      s3_flush_interval = 0, s3_flush_at = 0\<rparr>"

definition buildAuditExporter ::
  "string \<Rightarrow> (string \<Rightarrow> bool) \<Rightarrow> bool \<Rightarrow> (string \<Rightarrow> int option) \<Rightarrow> env_vars \<Rightarrow> audit_exporter" where
  "buildAuditExporter default_path opens aws parse_dur env =
     (let backend = Getenv env ''OBSERVE_X_AUDIT_LOG_BACKEND''
      in if backend = ''file'' then
           (let p = getEnv env ''OBSERVE_X_AUDIT_LOG_FILE_PATH'' default_path
            in if opens p then BufferedFile p else NopExporter)
         else if backend = ''s3'' then
           (if Getenv env ''OBSERVE_X_AUDIT_LOG_S3_BUCKET'' = [] then NopExporter
            else case NewS3Exporter aws (audit_s3_options parse_dur env) of
              None \<Rightarrow> NopExporter | Some e \<Rightarrow> BufferedS3 e)
         else NopExporter)"

section \<open>The services\<close>

record 'k start_world =
  sw_now :: int
  sw_connects :: "string \<Rightarrow> bool"
  sw_migrates :: bool
  sw_opens :: "string \<Rightarrow> bool"
  sw_aws :: bool
  sw_duration :: "string \<Rightarrow> int option"
  sw_discovery :: "discoveryDoc option"
  sw_jwks :: "'k jwk list option"
  sw_clickhouse :: bool

datatype start_error = PostgresRequired | AdminAuthRequired | TwoAdminAuths | NoKeyStore | NoMigrations | NoOidc oidc_error
  | NoPool | NoNotifier | NoClickHouse | NoEngine engine_error | NoTLS tls_error

definition oidc_env_config :: "env_vars \<Rightarrow> oidc_config" where
  "oidc_env_config env =
     \<lparr>oc_Issuer = Getenv env ''OBSERVE_X_OIDC_ISSUER'', oc_Audience = getEnv env ''OBSERVE_X_OIDC_AUDIENCE'' ''observex'',
      oc_AdminGroups = splitCSV (Getenv env ''OBSERVE_X_OIDC_ADMIN_GROUPS''),
      oc_GroupClaim = getEnv env ''OBSERVE_X_OIDC_GROUP_CLAIM'' ''groups'', oc_Skew = 0, oc_JWKSRefresh = 0\<rparr>"

text \<open>The tenant API. The validator is \<open>None\<close> in the mode of the administrator token. \<open>db\<close> and \<open>rows\<close> are
  the tables as the migrations leave them.\<close>

definition tenant_start ::
  "'k start_world \<Rightarrow> env_vars \<Rightarrow> tenant_db \<Rightarrow> key_row list \<Rightarrow>
   start_error + (server \<times> 'k validator option \<times> audit_exporter)" where
  "tenant_start w env db rows =
     (let dsn = Getenv env ''OBSERVE_X_POSTGRES_URL''; issuer = Getenv env ''OBSERVE_X_OIDC_ISSUER'';
          token = Getenv env ''OBSERVE_X_TENANT_API_ADMIN_TOKEN''
      in if dsn = [] then Inl PostgresRequired
         else if issuer = [] \<and> token = [] then Inl AdminAuthRequired
         else if issuer \<noteq> [] \<and> token \<noteq> [] then Inl TwoAdminAuths
         else if \<not> sw_connects w dsn then Inl NoKeyStore
         else if \<not> sw_migrates w then Inl NoMigrations
         else
           let ax = buildAuditExporter ''/var/log/observex/audit.ndjson'' (sw_opens w) (sw_aws w) (sw_duration w) env;
               sv = \<lparr>sv_adminToken = token, sv_oidc = (issuer \<noteq> []), sv_db = db,
                     sv_keys = NewPostgresKeyStore rows \<lparr>po_CacheSize = 0, po_CacheTTL = 0, po_LastUsedDebounce = 0\<rparr>,
                     sv_exporting = (ax \<noteq> NopExporter), sv_exported = [],
                     sv_clickhouse = (Getenv env ''OBSERVE_X_CLICKHOUSE_ADDR'' \<noteq> [] \<and> sw_clickhouse w), sv_ddl = []\<rparr>
           in if issuer = [] then Inr (sv, None, ax)
              else case NewValidator (sw_now w) (sw_discovery w) (sw_jwks w) (oidc_env_config env) of
                Inl e \<Rightarrow> Inl (NoOidc e)
              | Inr v \<Rightarrow> Inr (sv, Some v, ax))"

text \<open>The alert manager, over the store as the migrations leave it.\<close>

definition alert_start ::
  "'k start_world \<Rightarrow> env_vars \<Rightarrow> alert_store \<Rightarrow> start_error + (manager \<times> key_store_choice \<times> audit_exporter)" where
  "alert_start w env st =
     (let dsn = Getenv env ''OBSERVE_X_POSTGRES_URL''
      in if dsn = [] then Inl PostgresRequired
         else if \<not> sw_connects w dsn then Inl NoPool
         else if \<not> sw_migrates w then Inl NoMigrations
         else case buildDispatcher (Getenv env) of
           None \<Rightarrow> Inl NoNotifier
         | Some d \<Rightarrow>
             (case initKeyStore env (sw_connects w) of
                Inl _ \<Rightarrow> Inl NoKeyStore
              | Inr ks \<Rightarrow> Inr (\<lparr>am_store = st, am_eval = new_evaluator, am_hub = newSSEHub 64, am_dispatcher = d,
                             am_tasks = [], am_audit = []\<rparr>, ks,
                           buildAuditExporter ''/var/log/observex/audit-alert-manager.ndjson'' (sw_opens w) (sw_aws w)
                             (sw_duration w) env)))"

definition query_start :: "'k start_world \<Rightarrow> env_vars \<Rightarrow> start_error + (string \<times> string \<times> key_store_choice)" where
  "query_start w env =
     (if \<not> sw_clickhouse w then Inl NoClickHouse
      else case initKeyStore env (sw_connects w) of
        Inl _ \<Rightarrow> Inl NoKeyStore
      | Inr ks \<Rightarrow> Inr (getEnv env ''OBSERVE_X_CLICKHOUSE_ADDR'' ''localhost:9000'',
                      getEnv env ''OBSERVE_X_CLICKHOUSE_DB'' ''observex'', ks))"

text \<open>The ingest gateway: the engine is started before the keys are looked for. \<open>engine\<close> is its constructor.\<close>

definition loadServerTLSConfig ::
  "(string \<Rightarrow> string \<Rightarrow> 'c option) \<Rightarrow> (string \<Rightarrow> string option) \<Rightarrow> (string \<Rightarrow> bool) \<Rightarrow> env_vars \<Rightarrow> tls_error + 'c tls_config option" where
  "loadServerTLSConfig pair read pem_ok env =
     (let f = \<lparr>tl_CertFile = Getenv env ''OBSERVE_X_TLS_CERT_FILE'', tl_KeyFile = Getenv env ''OBSERVE_X_TLS_KEY_FILE'',
               tl_CAFile = Getenv env ''OBSERVE_X_TLS_CA_FILE''\<rparr>
      in if tl_CertFile f = [] \<and> tl_KeyFile f = [] \<and> tl_CAFile f = [] then Inr None
         else map_sum id Some (LoadServerConfig pair read pem_ok f))"

definition gateway_sink :: "env_vars \<Rightarrow> http_sink option" where
  "gateway_sink env =
     (let u = Getenv env ''OBSERVE_X_ALERT_MANAGER_URL''
      in if u = [] then None
         else Some (NewHTTPSink \<lparr>sk_endpoint = u @ ''/v1/events'', sk_apiKey = Getenv env ''OBSERVE_X_ALERT_MANAGER_API_KEY'',
                     sk_tenantHeader = [], sk_buffer = 0, sk_timeout = 0\<rparr>))"

definition gateway_start ::
  "'k start_world \<Rightarrow> (engine_options \<Rightarrow> engine_error + ProcessingEngine) \<Rightarrow>
   (string \<Rightarrow> string \<Rightarrow> 'c option) \<Rightarrow> (string \<Rightarrow> string option) \<Rightarrow> (string \<Rightarrow> bool) \<Rightarrow> env_vars \<Rightarrow>
   start_error + (ProcessingEngine \<times> key_store_choice \<times> http_sink option \<times> 'c tls_config option)" where
  "gateway_start w engine pair read pem_ok env =
     (case engine (gateway_options env) of
        Inl e \<Rightarrow> Inl (NoEngine e)
      | Inr e \<Rightarrow>
          (case initKeyStore env (sw_connects w) of
             Inl _ \<Rightarrow> Inl NoKeyStore
           | Inr ks \<Rightarrow>
               (case loadServerTLSConfig pair read pem_ok env of
                  Inl x \<Rightarrow> Inl (NoTLS x)
                | Inr t \<Rightarrow> Inr (eng_Start e, ks, gateway_sink env, t))))"

section \<open>The gRPC listener (\<open>grpc_receiver.go\<close>)\<close>

record grpc_receiver =
  gr_addr :: string
  gr_server :: bool
  gr_serving :: bool
  gr_running :: bool

definition NewGRPCReceiver :: "string \<Rightarrow> grpc_receiver" where
  "NewGRPCReceiver addr = \<lparr>gr_addr = addr, gr_server = False, gr_serving = False, gr_running = False\<rparr>"

datatype grpc_start_error = GrpcRunning | GrpcListen

text \<open>\<open>Start\<close> until it serves, the end of the context, and \<open>Stop\<close>.\<close>

definition grpc_Start :: "bool \<Rightarrow> grpc_receiver \<Rightarrow> grpc_receiver \<times> grpc_start_error option" where
  "grpc_Start listens r =
     (if gr_running r then (r, Some GrpcRunning)
      else if \<not> listens then (r, Some GrpcListen)
      else (r\<lparr>gr_server := True, gr_serving := True, gr_running := True\<rparr>, None))"

definition grpc_context_done :: "grpc_receiver \<Rightarrow> grpc_receiver" where
  "grpc_context_done r = (if gr_server r then r\<lparr>gr_serving := False\<rparr> else r)"

definition grpc_Stop :: "grpc_receiver \<Rightarrow> grpc_receiver" where
  "grpc_Stop r = (if gr_server r then r\<lparr>gr_serving := False, gr_running := False\<rparr> else r)"

section \<open>What a service that has started guarantees\<close>

lemma validator_config:
  "NewValidator now disco jwks c = Inr v \<Longrightarrow> vd_cfg v = oidc_defaults c \<and> oc_Issuer c \<noteq> []"
  by (auto simp: NewValidator_def Let_def oidc_defaults_def refreshKeys_def split: if_splits option.splits prod.splits bool.splits)

lemma tenant_started:
  assumes "tenant_start w env db rows = Inr (sv, v, ax)"
  shows "(sv_oidc sv \<and> sv_adminToken sv = [] \<and> (\<exists>d. v = Some d \<and> oc_Issuer (vd_cfg d) = Getenv env ''OBSERVE_X_OIDC_ISSUER'' \<and>
       oc_AdminGroups (vd_cfg d) = splitCSV (Getenv env ''OBSERVE_X_OIDC_ADMIN_GROUPS''))) \<or>
     (\<not> sv_oidc sv \<and> sv_adminToken sv \<noteq> [] \<and> v = None)"
  using assms
  by (auto simp: tenant_start_def Let_def oidc_env_config_def oidc_defaults_def split: if_splits sum.splits
      dest!: validator_config)

text \<open>
  The control plane never starts open: whatever the environment, a tenant API that has started is in
  exactly one of its two modes, with an identity provider and no administrator token or the other way
  round, and in both a request without credentials is refused.
\<close>

theorem tenant_api_never_open:
  assumes "tenant_start w env db rows = Inr (sv, v, ax)" "or_authorization r = []"
  shows "(sv_oidc sv \<longleftrightarrow> v \<noteq> None) \<and> (sv_oidc sv \<longleftrightarrow> sv_adminToken sv = []) \<and>
    (\<exists>status msg. snd (requireAdmin lib now answer sv (case v of Some d \<Rightarrow> d | None \<Rightarrow> u) r) = Denied status msg)"
  using tenant_started [OF assms(1)] assms(2)
  by (auto simp: requireAdmin_def check_admin_token_def oidc_Middleware_def bearerFromHeader_def Let_def)

text \<open>
  In one environment the services know the same keys: the query engine, the gateway and the alert
  manager, when they start, use the key store of the same database, and none of them the development
  validator, because the alert manager does not start without a database.
\<close>

theorem services_share_keys:
  assumes "alert_start w env st = Inr (m, k1, ax)" "query_start w env = Inr (addr, name, k2)"
    "gateway_start w engine pair read pem_ok env = Inr (e, k3, sink, tls)"
  shows "k1 = UsePostgres (Getenv env ''OBSERVE_X_POSTGRES_URL'') \<and> k2 = k1 \<and> k3 = k1"
proof -
  have "Getenv env ''OBSERVE_X_POSTGRES_URL'' \<noteq> []" "initKeyStore env (sw_connects w) = Inr k1"
    using assms(1) by (auto simp: alert_start_def Let_def split: if_splits option.splits sum.splits)
  moreover have "initKeyStore env (sw_connects w) = Inr k2"
    using assms(2) by (auto simp: query_start_def split: if_splits sum.splits)
  moreover have "initKeyStore env (sw_connects w) = Inr k3"
    using assms(3) by (auto simp: gateway_start_def split: sum.splits)
  ultimately show ?thesis by (simp add: initKeyStore_def Let_def split: if_splits)
qed

text \<open>
  The audit export runs only for a configuration without a mistake: for the backend \<open>file\<close> with a file
  that opens, or the backend \<open>s3\<close> with a bucket, a configuration that loads and a known lock mode. For
  everything else, a misspelt backend included, the service starts and exports nothing.
\<close>

theorem audit_export_only_if:
  "buildAuditExporter path opens aws parse_dur env \<noteq> NopExporter \<longleftrightarrow>
     (Getenv env ''OBSERVE_X_AUDIT_LOG_BACKEND'' = ''file'' \<and> opens (getEnv env ''OBSERVE_X_AUDIT_LOG_FILE_PATH'' path)) \<or>
     (Getenv env ''OBSERVE_X_AUDIT_LOG_BACKEND'' = ''s3'' \<and> Getenv env ''OBSERVE_X_AUDIT_LOG_S3_BUCKET'' \<noteq> [] \<and> aws \<and>
      map AuditLog.upper_char (Getenv env ''OBSERVE_X_AUDIT_LOG_S3_LOCK'') \<in> {[], ''GOVERNANCE'', ''COMPLIANCE''})"
proof -
  have s3: "NewS3Exporter aws q = None \<longleftrightarrow>
      s3_bucket q = [] \<or> \<not> aws \<or> map AuditLog.upper_char (s3_lock_mode q) \<notin> {[], ''GOVERNANCE'', ''COMPLIANCE''}" for q
  proof -
    have d: "s3_bucket (s3_defaults q) = s3_bucket q" "s3_lock_mode (s3_defaults q) = s3_lock_mode q"
      by (simp_all add: s3_defaults_def Let_def)
    show ?thesis unfolding NewS3Exporter_def Let_def d by (simp only: if_split_eq1 option.distinct simp_thms)
  qed
  have o: "s3_bucket (audit_s3_options parse_dur env) = Getenv env ''OBSERVE_X_AUDIT_LOG_S3_BUCKET''"
    "s3_lock_mode (audit_s3_options parse_dur env) = Getenv env ''OBSERVE_X_AUDIT_LOG_S3_LOCK''"
    by (simp_all add: audit_s3_options_def)
  consider "Getenv env ''OBSERVE_X_AUDIT_LOG_BACKEND'' = ''file''" | "Getenv env ''OBSERVE_X_AUDIT_LOG_BACKEND'' = ''s3''"
    | "Getenv env ''OBSERVE_X_AUDIT_LOG_BACKEND'' \<noteq> ''file''" "Getenv env ''OBSERVE_X_AUDIT_LOG_BACKEND'' \<noteq> ''s3''"
    by blast
  then show ?thesis
  proof cases
    case 2
    define ok where "ok \<longleftrightarrow> map AuditLog.upper_char (Getenv env ''OBSERVE_X_AUDIT_LOG_S3_LOCK'') \<in> {[], ''GOVERNANCE'', ''COMPLIANCE''}"
    show ?thesis
      using s3 [of "audit_s3_options parse_dur env", unfolded o, folded ok_def] unfolding ok_def [symmetric]
      by (cases "NewS3Exporter aws (audit_s3_options parse_dur env)") (auto simp: buildAuditExporter_def Let_def 2)
  qed (simp_all add: buildAuditExporter_def Let_def)
qed

text \<open>
  A lock is never without a time: an S3 exporter with a lock mode holds its objects for the configured
  duration, and for 365 days where none is given or the text is no duration.
\<close>

theorem locked_audit_retained:
  assumes "buildAuditExporter path opens aws parse_dur env = BufferedS3 e" "sx_mode e \<noteq> []"
  shows "sx_retain e = (case parse_dur (Getenv env ''OBSERVE_X_AUDIT_LOG_S3_RETAIN'') of
      Some d \<Rightarrow> if d = 0 then 365 * 24 * hour else d | None \<Rightarrow> 365 * 24 * hour)"
  using assms
  by (auto simp: buildAuditExporter_def NewS3Exporter_def s3_defaults_def audit_s3_options_def Let_def
      split: if_splits option.splits)

text \<open>
  The gateway never falls back to plain text: when one of the three certificate variables is set, it
  starts with a certificate or not at all, and with a CA it demands client certificates.
\<close>

theorem gateway_tls_strict:
  assumes "gateway_start w engine pair read pem_ok env = Inr (e, ks, sink, tls)"
  shows "(tls = None \<longleftrightarrow> Getenv env ''OBSERVE_X_TLS_CERT_FILE'' = [] \<and> Getenv env ''OBSERVE_X_TLS_KEY_FILE'' = [] \<and>
        Getenv env ''OBSERVE_X_TLS_CA_FILE'' = []) \<and>
    (case tls of None \<Rightarrow> True | Some c \<Rightarrow> tc_Certificates c \<noteq> [] \<and>
      (tc_ClientAuth c = RequireAndVerifyClientCert \<longleftrightarrow> Getenv env ''OBSERVE_X_TLS_CA_FILE'' \<noteq> []))"
proof -
  have "loadServerTLSConfig pair read pem_ok env = Inr tls"
    using assms by (auto simp: gateway_start_def split: sum.splits)
  then show ?thesis
    by (auto simp: loadServerTLSConfig_def LoadServerConfig_def Let_def map_sum_def split: if_splits option.splits sum.splits)
qed

lemma grpc_no_restart:
  "grpc_Start True (grpc_context_done (fst (grpc_Start True (NewGRPCReceiver addr)))) =
     (grpc_context_done (fst (grpc_Start True (NewGRPCReceiver addr))), Some GrpcRunning)"
  by (simp add: grpc_Start_def grpc_context_done_def NewGRPCReceiver_def)

end
