(* ===== verification/AlertStream.thy ===== *)
theory AlertStream
  imports AlertManager
begin

text \<open>
  The live stream of alerts (\<open>services/alert-manager/cmd/sse.go\<close>): the frames it writes, the loop of a
  connection, and what reaches the client. The server of \<open>cmd/main.go\<close> has a write timeout of 15 seconds,
  which \<open>net/http\<close> counts from the request: a flush after that fails, and ends the request's context.
\<close>

section \<open>Frames\<close>

definition line_feed :: char where
  "line_feed = CHR 0x0A"

text \<open>\<open>doc\<close> is the JSON text of the payload, \<open>None\<close> when it cannot be marshalled.\<close>

definition sse_data :: "string \<Rightarrow> string" where
  "sse_data doc = map (\<lambda>c. if c = line_feed then CHR '' '' else c) doc"

definition writeSSE :: "string \<Rightarrow> string option \<Rightarrow> string option" where
  "writeSSE kind doc =
     (case doc of
        None \<Rightarrow> None
      | Some b \<Rightarrow> Some (''event: '' @ kind @ [line_feed] @ ''data: '' @ sse_data b @ [line_feed, line_feed]))"

definition sse_hello :: "int \<Rightarrow> string" where
  "sse_hello now = '': connected to observex '' @ show_int (now div second) @ [line_feed, line_feed]"

definition event_kind :: "sse_event \<Rightarrow> string" where
  "event_kind ev = (case ev_kind ev of AlertFired \<Rightarrow> ''alert.fired'' | AlertResolved \<Rightarrow> ''alert.resolved'')"

section \<open>The loop of a connection\<close>

definition write_timeout :: int where "write_timeout = 15 * second"

definition heartbeat_period :: int where "heartbeat_period = 25 * second"

text \<open>What the loop's \<open>select\<close> takes, and when: the end of the request, a tick, an event of the client's
  channel, or its closing.\<close>

datatype stream_turn = ClientGone | Tick int | Received int sse_event | ChannelClosed

definition heartbeat_doc :: "int \<Rightarrow> string" where
  "heartbeat_doc t = ''{\"t\":'' @ show_int (t div second) @ ''}''"

text \<open>The bytes that reach the client, and whether the handler has returned.\<close>

fun stream_loop :: "(sse_event \<Rightarrow> string option) \<Rightarrow> int \<Rightarrow> stream_turn list \<Rightarrow> string \<times> bool" where
  "stream_loop doc deadline [] = ([], False)"
| "stream_loop doc deadline (ClientGone # ts) = ([], True)"
| "stream_loop doc deadline (ChannelClosed # ts) = ([], True)"
| "stream_loop doc deadline (Tick t # ts) =
     (case writeSSE ''heartbeat'' (Some (heartbeat_doc t)) of
        None \<Rightarrow> ([], True)
      | Some f \<Rightarrow> if t < deadline then (case stream_loop doc deadline ts of (s, b) \<Rightarrow> (f @ s, b)) else ([], True))"
| "stream_loop doc deadline (Received t ev # ts) =
     (case writeSSE (event_kind ev) (doc ev) of
        None \<Rightarrow> ([], True)
      | Some f \<Rightarrow> if t < deadline then (case stream_loop doc deadline ts of (s, b) \<Rightarrow> (f @ s, b)) else ([], True))"

text \<open>The whole answer of a request that was read at \<open>start\<close>; the empty tenant is refused by the router.\<close>

definition streamAlertsHandler ::
  "(sse_event \<Rightarrow> string option) \<Rightarrow> int \<Rightarrow> stream_turn list \<Rightarrow> string \<times> bool" where
  "streamAlertsHandler doc start ts =
     (case stream_loop doc (start + write_timeout) ts of (s, b) \<Rightarrow> (sse_hello start @ s, b))"

section \<open>What a client reads\<close>

text \<open>The reading of an event stream, as browsers do it, for the fields the server writes.\<close>

definition sse_field :: "string \<Rightarrow> string \<Rightarrow> string option" where
  "sse_field name l = (if has_prefix l (name @ '': '') then Some (drop (length name + 2) l) else None)"

fun sse_lines :: "string \<Rightarrow> string option \<Rightarrow> string list \<Rightarrow> (string \<times> string) list" where
  "sse_lines ty dat [] = []"
| "sse_lines ty dat (l # ls) =
     (if l = [] then (case dat of None \<Rightarrow> sse_lines [] None ls | Some d \<Rightarrow> (ty, d) # sse_lines [] None ls)
      else if hd l = CHR '':'' then sse_lines ty dat ls
      else case sse_field ''event'' l of
        Some v \<Rightarrow> sse_lines v dat ls
      | None \<Rightarrow>
          (case sse_field ''data'' l of
             Some v \<Rightarrow> sse_lines ty (Some (case dat of None \<Rightarrow> v | Some d \<Rightarrow> d @ [line_feed] @ v)) ls
           | None \<Rightarrow> sse_lines ty dat ls))"

definition sse_read :: "string \<Rightarrow> (string \<times> string) list" where
  "sse_read s = sse_lines [] None (split_byte line_feed s)"

lemma sse_data_free: "line_feed \<notin> set (sse_data d)"
  by (auto simp: sse_data_def line_feed_def)

lemma sse_steps:
  "sse_lines ty dat ((''event: '' @ v) # ls) = sse_lines v dat ls"
  "sse_lines ty None ((''data: '' @ v) # ls) = sse_lines ty (Some v) ls"
  "sse_lines ty (Some v) ([] # ls) = (ty, v) # sse_lines [] None ls"
  by (simp_all add: sse_field_def has_prefix_def)

lemma lines_frame:
  assumes "line_feed \<notin> set k"
  shows "sse_lines [] None (split_byte line_feed (the (writeSSE k (Some d)) @ s)) =
    (k, sse_data d) # sse_lines [] None (split_byte line_feed s)"
proof -
  have e: "line_feed \<notin> set (''event: '' @ k)" using assms by (auto simp: line_feed_def)
  have d: "line_feed \<notin> set (''data: '' @ sse_data d)" using sse_data_free [of d] by (auto simp: line_feed_def)
  have "the (writeSSE k (Some d)) @ s =
      (''event: '' @ k) @ line_feed # (''data: '' @ sse_data d) @ line_feed # [] @ line_feed # s"
    by (simp add: writeSSE_def)
  then have s: "split_byte line_feed (the (writeSSE k (Some d)) @ s) =
      (''event: '' @ k) # (''data: '' @ sse_data d) # [] # split_byte line_feed s"
    by (simp only: split_byte_append [OF e] split_byte_append [OF d] split_byte_append [of line_feed "[]"] list.set empty_iff
        not_False_eq_True)
  show ?thesis by (simp only: s sse_steps)
qed

lemma lines_hello: "sse_lines [] None (split_byte line_feed (sse_hello now @ s)) = sse_lines [] None (split_byte line_feed s)"
proof -
  let ?c = "'': connected to observex '' @ show_int (now div second)"
  have c: "line_feed \<notin> set ?c"
    using show_int_chars [of line_feed "now div second"] by (auto simp: line_feed_def is_digit_def)
  have "sse_hello now @ s = ?c @ line_feed # [] @ line_feed # s" by (simp add: sse_hello_def)
  then have "split_byte line_feed (sse_hello now @ s) = ?c # [] # split_byte line_feed s"
    by (simp only: split_byte_append [OF c] split_byte_append [of line_feed "[]"] list.set empty_iff not_False_eq_True)
  moreover have "hd ?c = CHR '':''" by simp
  ultimately show ?thesis by (simp only: sse_lines.simps) simp
qed

text \<open>The events and heartbeats that get through.\<close>

fun delivered :: "(sse_event \<Rightarrow> string option) \<Rightarrow> int \<Rightarrow> stream_turn list \<Rightarrow> (string \<times> string) list" where
  "delivered doc deadline (Tick t # ts) =
     (if t < deadline then (''heartbeat'', heartbeat_doc t) # delivered doc deadline ts else [])"
| "delivered doc deadline (Received t ev # ts) =
     (case doc ev of
        Some b \<Rightarrow> if t < deadline then (event_kind ev, sse_data b) # delivered doc deadline ts else []
      | None \<Rightarrow> [])"
| "delivered doc deadline ts = []"

lemma kinds_free: "line_feed \<notin> set ''heartbeat''" "line_feed \<notin> set (event_kind ev)"
  by (auto simp: line_feed_def event_kind_def split: sse_type.splits)

lemma heartbeat_data [simp]: "sse_data (heartbeat_doc t) = heartbeat_doc t"
proof -
  have "line_feed \<notin> set (heartbeat_doc t)"
    using show_int_chars [of line_feed "t div second"] by (auto simp: heartbeat_doc_def line_feed_def is_digit_def)
  then show ?thesis unfolding sse_data_def by (intro map_idI) auto
qed

lemma lines_loop:
  "sse_lines [] None (split_byte line_feed (fst (stream_loop doc deadline ts))) = delivered doc deadline ts"
proof (induction doc deadline ts rule: delivered.induct)
  case (1 doc deadline t ts)
  obtain f where f: "writeSSE ''heartbeat'' (Some (heartbeat_doc t)) = Some f" by (simp add: writeSSE_def)
  show ?case
    using 1 lines_frame [OF kinds_free(1), of "heartbeat_doc t" "fst (stream_loop doc deadline ts)"]
    by (cases "t < deadline") (simp_all add: f split_beta)
next
  case (2 doc deadline t ev ts)
  show ?case
  proof (cases "doc ev")
    case None
    then show ?thesis by (simp add: writeSSE_def)
  next
    case (Some b)
    obtain f where f: "writeSSE (event_kind ev) (Some b) = Some f" by (simp add: writeSSE_def)
    show ?thesis
      using 2 Some lines_frame [OF kinds_free(2), of ev b "fst (stream_loop doc deadline ts)"]
      by (cases "t < deadline") (simp_all add: f split_beta)
  qed
qed simp_all

lemma read_stream: "sse_read (fst (streamAlertsHandler doc start ts)) = delivered doc (start + write_timeout) ts"
  by (simp add: streamAlertsHandler_def sse_read_def split_beta lines_hello lines_loop)

text \<open>
  A client reads back what was sent, and nothing else: the event stream of a connection, read as a
  browser does, is the sequence of the events and heartbeats that were written in time, each with its
  kind and its document, in their order; no document can end a frame early or forge another one.
\<close>

theorem alert_stream_read_back:
  "sse_read (fst (streamAlertsHandler doc start ts)) = delivered doc (start + write_timeout) ts"
  by (rule read_stream)

fun turn_time :: "stream_turn \<Rightarrow> int option" where
  "turn_time (Tick t) = Some t"
| "turn_time (Received t ev) = Some t"
| "turn_time _ = None"

text \<open>
  A stream of alerts lives for 15 seconds: the first event after that is lost and ends it, and since the
  first heartbeat is due after 25, no connection ever sees one.
\<close>

theorem alert_stream_cut:
  assumes "\<forall>t. Tick t \<in> set ts \<longrightarrow> start + heartbeat_period \<le> t"
  shows "\<forall>x \<in> set (sse_read (fst (streamAlertsHandler doc start ts))). fst x \<noteq> ''heartbeat''"
    and "turn_time x = Some t \<Longrightarrow> start + write_timeout \<le> t \<Longrightarrow>
      streamAlertsHandler doc start (us @ x # vs) = streamAlertsHandler doc start (us @ [x]) \<and>
      snd (streamAlertsHandler doc start (us @ [x])) \<and>
      fst (streamAlertsHandler doc start (us @ [x])) = fst (streamAlertsHandler doc start us)"
proof -
  have k: "event_kind ev \<noteq> ''heartbeat''" for ev by (simp add: event_kind_def split: sse_type.split)
  have "fst x \<noteq> ''heartbeat''" if "x \<in> set (delivered doc (start + write_timeout) ts)" for x
    using assms that
  proof (induction ts)
    case (Cons a ts)
    have p: "start + write_timeout < start + heartbeat_period"
      by (simp add: write_timeout_def heartbeat_period_def second_def)
    have "\<forall>t. Tick t \<in> set ts \<longrightarrow> start + heartbeat_period \<le> t" using Cons.prems(1) by simp
    note i = Cons.IH [OF this]
    show ?case
    proof (cases a)
      case (Tick t)
      then show ?thesis using Cons.prems p by auto
    next
      case (Received t ev)
      then show ?thesis using Cons.prems(2) i k [of ev] by (auto split: option.splits if_splits)
    qed (use Cons.prems in simp_all)
  qed simp
  then show "\<forall>x \<in> set (sse_read (fst (streamAlertsHandler doc start ts))). fst x \<noteq> ''heartbeat''"
    by (simp add: read_stream)
  assume "turn_time x = Some t" "start + write_timeout \<le> t"
  then have "stream_loop doc (start + write_timeout) (us @ x # vs) = stream_loop doc (start + write_timeout) (us @ [x]) \<and>
      snd (stream_loop doc (start + write_timeout) (us @ [x])) \<and>
      fst (stream_loop doc (start + write_timeout) (us @ [x])) = fst (stream_loop doc (start + write_timeout) us)"
    by (induction doc "start + write_timeout" us rule: stream_loop.induct)
      (cases x; auto split: option.splits if_splits prod.splits simp: writeSSE_def)+
  then show "streamAlertsHandler doc start (us @ x # vs) = streamAlertsHandler doc start (us @ [x]) \<and>
      snd (streamAlertsHandler doc start (us @ [x])) \<and>
      fst (streamAlertsHandler doc start (us @ [x])) = fst (streamAlertsHandler doc start us)"
    by (simp add: streamAlertsHandler_def split_beta)
qed

end
