(* ===== verification/Spec2Isabelle.thy ===== *)
theory Spec2Isabelle
  imports PromProps LogQLProps ObserveQLProps WalProps CepProps Sloburn AuthProps SupervisorProps AlertProps
    SamplingProps BackendProps PipelineProps Retention AuditProps OidcProps TenantProps QueryProps IngestProps
    AlertSinkProps UiProps AnomalyProps Spillover Migrate ColdTier Federation PluginHost KeyHash StatsdServer
    SelfObs RedisStore BaselineStores Startup AlertStream
begin

text \<open>
  A verification development for ObserveX, the multi-tenant observability platform of this repository,
  as the Go code is written. Source paths below are relative to the root of the repository.

  \<^bold>\<open>The program.\<close> Telemetry enters at the ingest gateway (\<open>services/ingest-gateway\<close>) by OTLP over HTTP and
  gRPC, by JSON, by an older gRPC service and by StatsD. The gateway authenticates a request (\<open>pkg/auth\<close>),
  decodes it into signals (\<open>pkg/signal\<close>) and submits them to the processing engine (\<open>pkg/engine\<close>), whose
  stages decode, validate and enrich them and whose workers write the log (\<open>pkg/wal\<close>), route to one actor for each
  tenant (\<open>pkg/supervisor\<close>, \<open>pkg/actor\<close>), sample traces (\<open>pkg/sampling\<close>) and hand the rest to ClickHouse
  (\<open>pkg/storage/clickhouse\<close>). The actors run the rules of \<open>pkg/cep\<close>, whose events \<open>pkg/alertsink\<close> posts to the
  alert manager (\<open>services/alert-manager\<close>), which stores alerts, evaluates SLOs (\<open>pkg/sloburn\<close>), notifies
  (\<open>pkg/notifier\<close>) and streams to browsers. The query engine (\<open>services/query-engine\<close>) plans ObserveQL
  (\<open>pkg/observeql\<close>) and translates PromQL and LogQL (\<open>pkg/promql\<close>, \<open>pkg/logql\<close>) into parameterised statements
  and streams rows as NDJSON, Arrow or Parquet (\<open>pkg/parquetexport\<close>). The tenant API (\<open>services/tenant-api\<close>)
  is the control plane; operators log in through \<open>pkg/oidc\<close>, mutations go to an audit log (\<open>pkg/auditlog\<close>), and
  retention (\<open>pkg/retention\<close>) is set in ClickHouse. The console (\<open>services/ui-server\<close>) proxies operators to the
  services. Beside these stand anomaly scoring (\<open>pkg/mlruntime\<close>, \<open>services/ml-anomaly-detector\<close>), the
  durable side-car \<open>pkg/spillover\<close>, plugins (\<open>pkg/plugin\<close>), federation (\<open>pkg/federation\<close>) and the observer of the
  storage tiers (\<open>services/cold-tier\<close>).

  \<^bold>\<open>How it is modelled.\<close> A struct is a record, an enumeration a datatype, a Go string a list of characters
  that are its bytes, a map a partial function or an association list where its order or size matters. A
  function that can fail returns a sum with the error on the left; a Go panic is \<open>None\<close> where an operation can
  panic. An operation that changes state takes the state and returns it. \<open>int\<close> and \<open>int64\<close> are integers with
  \<open>wrap64\<close> written out where they can overflow; packed pointers and checksums are machine words. \<open>float64\<close> is
  the type \<open>f64\<close> of exact rationals with the infinities and NaN, rounded to nearest even after each operation
  (\<open>Float64\<close>; the sign of a zero is not kept). Times are nanoseconds since 1970, and a clock reading is an input. Goroutines are steps
  of a relation or a list of moves (\<open>Engine\<close>, \<open>Supervisor\<close>, \<open>AlertManager\<close>, \<open>Migrate\<close>); a method that runs
  under one lock is one step.

  \<^bold>\<open>The shared theories.\<close> \<open>Prelude\<close> (results, byte strings, UTF-8, decimal printing, wrap-around), \<open>Bytes\<close>
  (little-endian words, CRC-32, the locale \<open>record_codec\<close>), \<open>GoNum\<close> and \<open>GoFmt\<close> (\<open>strconv\<close>, \<open>time\<close>), \<open>Float64\<close>,
  \<open>Json\<close> (the syntax check of \<open>encoding/json\<close>), \<open>GoHeap\<close> (\<open>container/heap\<close> over the locale
  \<open>heap_interface\<close>), \<open>SqlText\<close> (placeholders and the locale \<open>clause_renderer\<close>), \<open>Signals\<close>.

  \<^bold>\<open>Theories and sources.\<close>
  \<^item> \<open>PromLex\<close>, \<open>PromParse\<close>, \<open>PromLower\<close>: \<open>pkg/promql/lex.go\<close>, \<open>parser.go\<close>, \<open>translate.go\<close>, \<open>promql.go\<close>.
    \<open>PromRoundtrip\<close>, \<open>PromSafety\<close> and \<open>PromProps\<close> show that printed queries parse back, that parsing always
    ends in a tree or an error, that the statement does not depend on label values and has one placeholder
    for each argument.
  \<^item> \<open>LogQL\<close>, \<open>LogQLProps\<close>: \<open>pkg/logql/logql.go\<close>, with the same three kinds of facts.
  \<^item> \<open>ObserveQL\<close>, \<open>ObserveQLProps\<close>: \<open>pkg/observeql\<close>. Every plan is confined to its tenant whatever the query,
    placeholders match, nothing panics, the chooser takes a cheapest plan.
  \<^item> \<open>Wal\<close>, \<open>WalProps\<close>: \<open>pkg/wal/wal.go\<close>, refined to a sequence of entries that survives close and crash.
  \<^item> \<open>Cep\<close>, \<open>CepProps\<close>, \<open>Sloburn\<close>: \<open>pkg/cep/cep.go\<close> and \<open>pkg/sloburn/sloburn.go\<close>; the ring buffers count exactly
    the events of their windows, the rules fire on rising edges (locale \<open>edge_rule\<close>), burn rates are
    those of the samples still in the window.
  \<^item> \<open>Auth\<close>, \<open>AuthProps\<close>, \<open>KeyHash\<close>: \<open>pkg/auth\<close>. The middleware forwards only under the tenant of the key (locale
    \<open>key_store\<close>, interpreted for the three stores), revocation is bounded by the cache's time to live, scopes
    are canonical, a stored hash verifies its secret and an issued key is accepted.
  \<^item> \<open>Actor\<close>, \<open>Supervisor\<close>, \<open>SupervisorProps\<close>: \<open>pkg/actor/actor.go\<close>, \<open>pkg/supervisor/supervisor.go\<close> with explicit
    stores for pointers; in any interleaving an actor processes what its mailbox accepted, in order and for
    its tenant, and every routing call is counted once. \<open>Spillover\<close>: \<open>pkg/spillover/spillover.go\<close>.
  \<^item> \<open>Sampling\<close>, \<open>SamplingProps\<close>, \<open>RedisStore\<close>, \<open>BaselineStores\<close>: \<open>pkg/sampling\<close>; the priority queue, its decisions, the
    baselines, and the two state stores as implementations of one contract (locale \<open>baseline_store\<close>).
  \<^item> \<open>Engine\<close>, \<open>EngineProps\<close>, \<open>PipelineProps\<close>: \<open>pkg/engine/engine.go\<close> over the models of what it owns; every accepted
    signal is accounted for in any interleaving, what is logged is what a replay gives, and what becomes of
    the signals of the decoders.
  \<^item> \<open>Backend\<close>, \<open>BackendProps\<close>: \<open>pkg/storage/clickhouse\<close>; \<open>Retention\<close>: \<open>pkg/retention/retention.go\<close>.
  \<^item> \<open>Otlp\<close>, \<open>Statsd\<close>, \<open>StatsdServer\<close>, \<open>Ingest\<close>, \<open>IngestProps\<close>: the decoders, receivers and routes of
    \<open>services/ingest-gateway\<close>; whose tenant a signal gets, and that the two OTLP transports agree.
  \<^item> \<open>AlertManager\<close>, \<open>AlertProps\<close>, \<open>AlertStream\<close>, \<open>Notifier\<close>, \<open>AlertSink\<close>, \<open>AlertSinkProps\<close>: \<open>services/alert-manager\<close>,
    \<open>pkg/notifier\<close>, \<open>pkg/alertsink\<close>; one dispatch for each episode, confinement of the routes, the framing of the
    stream, the path of an event from an actor to a notifier.
  \<^item> \<open>AuditLog\<close>, \<open>AuditProps\<close>: \<open>pkg/auditlog\<close>; no record is lost over overlapping flushes (locales \<open>exporter\<close> and
    \<open>retaining_exporter\<close>).
  \<^item> \<open>Oidc\<close>, \<open>OidcProps\<close>, \<open>TenantStore\<close>, \<open>TenantApi\<close>, \<open>TenantProps\<close>, \<open>Migrate\<close>: \<open>pkg/oidc\<close>, \<open>services/tenant-api\<close> and
    the migrations of both services; the database invariant, the audit trail, the key set as a state machine,
    and that concurrent runners apply no file twice.
  \<^item> \<open>QueryEngine\<close>, \<open>QueryProps\<close>, \<open>Columnar\<close>, \<open>Federation\<close>: \<open>services/query-engine\<close>, \<open>pkg/parquetexport\<close>,
    \<open>pkg/federation\<close>; the tenant of every statement, the framing of streams, the live tail, the two columnar
    encodings against each other.
  \<^item> \<open>UiServer\<close>, \<open>UiProps\<close>: \<open>services/ui-server/cmd/main.go\<close>. \<open>Anomaly\<close>, \<open>AnomalyProps\<close>: \<open>pkg/mlruntime\<close> and
    \<open>services/ml-anomaly-detector\<close>; the predictor against the detector it replaces. \<open>PluginHost\<close>:
    \<open>pkg/plugin/host.go\<close>. \<open>ColdTier\<close>: \<open>services/cold-tier/cmd/main.go\<close>. \<open>SelfObs\<close>: \<open>pkg/selfobs/selfobs.go\<close>.
    \<open>Startup\<close>: what the \<open>main\<close> functions make of the environment.

  \<^bold>\<open>Bounds and fuel.\<close> The PromQL parser has fuel for the nesting of parentheses and calls, one unit for each
  token; a successful parse consumes a token at each level, so it never runs out, which \<open>PromParse\<close> proves.
  The theorems on the log assume payloads and segments of less than \<open>2^32\<close> bytes, segment numbers of at most sixteen digits and fewer than
  \<open>10^16\<close> entries; these are the widths of the fields in the file names and records. The search for the shortest
  decimal text of a float takes at most 18 steps, since 17 digits identify a \<open>float64\<close>. Every other loop is
  structural recursion on its input.

  \<^bold>\<open>Parameters.\<close> Code that is not in the repository is an argument of the definitions that use it:
  \<open>regexp.Compile\<close> (\<open>re_ok\<close>), verbs of \<open>fmt\<close> (\<open>fmtg\<close>, \<open>fmtf\<close>, \<open>fmtv\<close>, \<open>scan_ok\<close>), parsing and printing of times and
  durations (\<open>parse_dur\<close>, \<open>show_dur\<close>), BLAKE3, SHA-256 and Argon2, the protobuf and gzip libraries
  (\<open>otlp_lib\<close>, \<open>gunzip\<close>), the participle grammar of ObserveQL, the JWT library, the UUID cast of Postgres, the
  answers of Postgres, ClickHouse, Redis, NATS, S3 and of HTTP peers and identity providers, an inference
  session, a WebAssembly guest and its runtime, the backends of a federation. Where a theorem needs documented behaviour of such
  code it is a hypothesis, and a witness after the theorem applies it to a concrete function.

  \<^bold>\<open>Not modelled.\<close> Listeners, signals of the operating system and the shutdown sequences of the \<open>main\<close>
  functions; log lines, Prometheus gauges and histograms (\<open>pkg/observability/metrics.go\<close>; the counters that
  operations return or decide on are modelled); the byte encodings of Arrow, Parquet and protobuf, which are
  the libraries'; row-level security in Postgres, since the service connects as the owner of the tables; the embedded
  files of the console, the protocol and deployment files; \<open>pkg/plugin/testdata/builder.go\<close>, which assembles a test fixture.

  \<^bold>\<open>Where the code departs from its documentation\<close> is stated as theorems too: among others, events of the
  rules never become alerts (\<open>AlertSinkProps\<close>), the log entry of a span sent over OTLP hides what follows it in its segment (\<open>PipelineProps\<close>),
  a token of the console is no key for the services behind it (\<open>UiProps\<close>), and an alert stream ends before its first
  heartbeat (\<open>AlertStream\<close>).
\<close>

end
